(* ===== verification/GoBase.thy ===== *)
theory GoBase
  imports Main "HOL-Library.List_Lexorder" "HOL-Library.Char_ord" "HOL-Library.AList"
begin

text \<open>
  What the components share: the result type of Go's \<open>(value, error)\<close> returns, the functions
  of the \<open>strings\<close> and \<open>strconv\<close> packages the sources call, time values, and association
  lists for the maps and directories whose keys the code enumerates. A Go string is a byte
  sequence, so \<^typ>\<open>string\<close> (a list of bytes) is the same data.
\<close>

named_theorems go_defs \<open>definitions a component unfolds to evaluate one operation\<close>
named_theorems keeps \<open>an operation preserves an invariant or leaves a field alone\<close>

section \<open>Results\<close>

type_synonym ('e, 'a) res = "'e + 'a"

definition is_ok :: "'e + 'a \<Rightarrow> bool" where
  "is_ok r = (case r of Inl _ \<Rightarrow> False | Inr _ \<Rightarrow> True)"

lemma is_ok_simps [simp]: "is_ok (Inr a)" "\<not> is_ok (Inl e)"
  by (simp_all add: is_ok_def)

lemma is_ok_iff: "is_ok r \<longleftrightarrow> (\<exists>a. r = Inr a)"
  by (cases r) auto

text \<open>Runs the continuation on a value and passes an error on, as \<open>if err != nil { return err }\<close>.\<close>

definition and_then :: "'e + 'a \<Rightarrow> ('a \<Rightarrow> 'e + 'b) \<Rightarrow> 'e + 'b" where
  "and_then r f = (case r of Inl e \<Rightarrow> Inl e | Inr a \<Rightarrow> f a)"

lemma and_then_simps [simp]: "and_then (Inl e) f = Inl e" "and_then (Inr a) f = f a"
  by (simp_all add: and_then_def)

lemma and_then_Inr: "and_then r f = Inr b \<longleftrightarrow> (\<exists>a. r = Inr a \<and> f a = Inr b)"
  by (cases r) auto

definition or_fail :: "bool \<Rightarrow> 'e \<Rightarrow> 'e + unit" where
  "or_fail p e = (if p then Inr () else Inl e)"

lemma or_fail_Inr [simp]: "or_fail p e = Inr u \<longleftrightarrow> p"
  by (simp add: or_fail_def)

text \<open>The same with a state: the continuation runs in the state the call left.\<close>

definition next_do :: "('e + 'a) \<times> 's \<Rightarrow> ('a \<Rightarrow> 's \<Rightarrow> ('e + 'b) \<times> 's) \<Rightarrow> ('e + 'b) \<times> 's" where
  "next_do p k = (case p of (Inl e, s) \<Rightarrow> (Inl e, s) | (Inr a, s) \<Rightarrow> k a s)"

lemma next_do_simps [simp]: "next_do (Inl e, s) k = (Inl e, s)" "next_do (Inr a, s) k = k a s"
  by (simp_all add: next_do_def)

lemma next_do_Inr:
  "next_do p k = (Inr b, t) \<longleftrightarrow> (\<exists>a s. p = (Inr a, s) \<and> k a s = (Inr b, t))"
  by (cases p; cases "fst p") auto

lemma next_do_Inl:
  "next_do p k = (Inl e, t) \<longleftrightarrow> p = (Inl e, t) \<or> (\<exists>a s. p = (Inr a, s) \<and> k a s = (Inl e, t))"
  by (cases p; cases "fst p") auto

text \<open>What every call of a sequence keeps, the sequence keeps.\<close>

lemma next_do_keeps:
  "g (snd p) = x \<Longrightarrow> (\<And>a s. g s = x \<Longrightarrow> g (snd (k a s)) = x) \<Longrightarrow> g (snd (next_do p k)) = x"
  by (cases p; cases "fst p") auto

text \<open>A call that keeps \<open>P\<close> leads a sequence whose rest goes from \<open>P\<close> to \<open>Q\<close>.\<close>

lemma next_do_lead:
  "P (snd p) \<Longrightarrow> (\<And>s. P s \<Longrightarrow> Q s) \<Longrightarrow> (\<And>a s. P s \<Longrightarrow> Q (snd (k a s))) \<Longrightarrow> Q (snd (next_do p k))"
  by (cases p; cases "fst p") auto

text \<open>A property of the state that every step of a sequence carries on.\<close>

lemma next_do_carries:
  "P (snd r) \<Longrightarrow> (\<And>a s. r = (Inr a, s) \<Longrightarrow> P s \<Longrightarrow> P (snd (k a s))) \<Longrightarrow> P (snd (next_do r k))"
  by (cases r; cases "fst r") auto

text \<open>The outcome of the next read or write of a disk or database, from a script.\<close>

definition next_fault :: "bool list \<Rightarrow> bool \<times> bool list" where
  "next_fault fs = (case fs of [] \<Rightarrow> (False, []) | b # r \<Rightarrow> (b, r))"

lemma next_fault_Nil [simp]: "next_fault [] = (False, [])"
  by (simp add: next_fault_def)

section \<open>The strings package\<close>

definition has_prefix :: "string \<Rightarrow> string \<Rightarrow> bool" where
  "has_prefix s p \<longleftrightarrow> take (length p) s = p"

definition has_suffix :: "string \<Rightarrow> string \<Rightarrow> bool" where
  "has_suffix s p \<longleftrightarrow> length p \<le> length s \<and> drop (length s - length p) s = p"

definition trim_prefix :: "string \<Rightarrow> string \<Rightarrow> string" where
  "trim_prefix s p = (if has_prefix s p then drop (length p) s else s)"

definition trim_suffix :: "string \<Rightarrow> string \<Rightarrow> string" where
  "trim_suffix s p = (if has_suffix s p then take (length s - length p) s else s)"

lemma has_prefix_iff: "has_prefix s p \<longleftrightarrow> (\<exists>t. s = p @ t)"
proof
  assume "has_prefix s p"
  then have "s = p @ drop (length p) s"
    by (metis append_take_drop_id has_prefix_def)
  then show "\<exists>t. s = p @ t" ..
qed (auto simp: has_prefix_def)

lemma has_suffix_iff: "has_suffix s p \<longleftrightarrow> (\<exists>t. s = t @ p)"
proof
  assume "has_suffix s p"
  then have "s = take (length s - length p) s @ p"
    by (metis append_take_drop_id has_suffix_def)
  then show "\<exists>t. s = t @ p" ..
qed (auto simp: has_suffix_def)

lemma has_prefix_append [simp]: "has_prefix (p @ t) p"
  by (simp add: has_prefix_def)

lemma has_suffix_append [simp]: "has_suffix (t @ p) p"
  by (simp add: has_suffix_def)

lemma trim_prefix_append [simp]: "trim_prefix (p @ t) p = t"
  by (simp add: trim_prefix_def)

lemma trim_suffix_append [simp]: "trim_suffix (t @ p) p = t"
  by (simp add: trim_suffix_def)

text \<open>\<open>strings.Contains\<close>: some suffix starts with the pattern.\<close>

fun contains :: "string \<Rightarrow> string \<Rightarrow> bool" where
  "contains [] p = (p = [])"
| "contains (c # cs) p = (has_prefix (c # cs) p \<or> contains cs p)"

lemma contains_append: "contains (s @ p @ t) p"
proof (induction s)
  case Nil
  have "has_prefix (p @ t) p" by simp
  then show ?case by (cases "p @ t") auto
next
  case (Cons c s)
  then show ?case by simp
qed

text \<open>\<open>strings.Index\<close> of one byte, and the first and last cut at a byte.\<close>

fun cut_at :: "char \<Rightarrow> string \<Rightarrow> (string \<times> string) option" where
  "cut_at b [] = None"
| "cut_at b (c # cs) =
     (if c = b then Some ([], cs)
      else map_option (\<lambda>(x, y). (c # x, y)) (cut_at b cs))"

definition cut_last :: "char \<Rightarrow> string \<Rightarrow> (string \<times> string) option" where
  "cut_last b s = map_option (\<lambda>(x, y). (rev y, rev x)) (cut_at b (rev s))"

lemma cut_at_Some: "cut_at b s = Some (x, y) \<longleftrightarrow> s = x @ b # y \<and> b \<notin> set x"
proof (induction s arbitrary: x)
  case (Cons c s)
  then show ?case by (cases x) auto
qed simp

lemma cut_at_None: "cut_at b s = None \<longleftrightarrow> b \<notin> set s"
  by (induction s) auto

lemma cut_last_Some: "cut_last b s = Some (x, y) \<longleftrightarrow> s = x @ b # y \<and> b \<notin> set y"
proof -
  have "cut_last b s = Some (x, y) \<longleftrightarrow> cut_at b (rev s) = Some (rev y, rev x)"
    by (auto simp: cut_last_def)
  also have "\<dots> \<longleftrightarrow> rev s = rev y @ b # rev x \<and> b \<notin> set y"
    by (simp add: cut_at_Some)
  also have "rev s = rev y @ b # rev x \<longleftrightarrow> s = x @ b # y"
    by (metis append.assoc append_Cons append_Nil rev.simps(2) rev_append rev_rev_ident)
  finally show ?thesis .
qed

text \<open>\<open>strings.Split\<close> at one byte, and \<open>strings.Join\<close>.\<close>

fun split_at :: "char \<Rightarrow> string \<Rightarrow> string list" where
  "split_at b [] = [[]]"
| "split_at b (c # cs) =
     (if c = b then [] # split_at b cs
      else (case split_at b cs of [] \<Rightarrow> [[c]] | w # ws \<Rightarrow> (c # w) # ws))"

fun join :: "string \<Rightarrow> string list \<Rightarrow> string" where
  "join sep [] = []"
| "join sep [w] = w"
| "join sep (w # ws) = w @ sep @ join sep ws"

abbreviation lines :: "string \<Rightarrow> string list" where
  "lines \<equiv> split_at (CHR 0x0A)"

lemma split_at_not_Nil [simp]: "split_at b s \<noteq> []"
  by (induction s) (auto split: list.splits)

lemma join_Cons: "ws \<noteq> [] \<Longrightarrow> join sep (w # ws) = w @ sep @ join sep ws"
  by (cases ws) auto

lemma join_split_at: "join [b] (split_at b s) = s"
proof (induction s)
  case (Cons c s)
  then show ?case
    by (cases "split_at b s") (auto simp: join_Cons, metis append_Cons join.simps(2) join_Cons)
qed simp

lemma split_at_no_sep: "b \<notin> set s \<Longrightarrow> split_at b s = [s]"
  by (induction s) auto

lemma split_at_pieces: "w \<in> set (split_at b s) \<Longrightarrow> b \<notin> set w"
  by (induction s arbitrary: w) (fastforce split: if_splits list.splits)+

subsection \<open>TrimSpace\<close>

text \<open>
  \<open>strings.TrimSpace\<close> drops Unicode white space at both ends: the six ASCII blanks and the
  UTF-8 encodings of U+0085, U+00A0, U+1680, U+2000 to U+200A, U+2028, U+2029, U+202F, U+205F
  and U+3000. UTF-8 is self-synchronising, so a code point is decoded at an end of the string
  exactly when its encoding stands there.
\<close>

definition space_codes :: "string list" where
  "space_codes =
     [[CHR 0x20], [CHR 0x09], [CHR 0x0A], [CHR 0x0B], [CHR 0x0C], [CHR 0x0D],
      [CHR 0xC2, CHR 0x85], [CHR 0xC2, CHR 0xA0], [CHR 0xE1, CHR 0x9A, CHR 0x80],
      [CHR 0xE2, CHR 0x80, CHR 0x80], [CHR 0xE2, CHR 0x80, CHR 0x81],
      [CHR 0xE2, CHR 0x80, CHR 0x82], [CHR 0xE2, CHR 0x80, CHR 0x83],
      [CHR 0xE2, CHR 0x80, CHR 0x84], [CHR 0xE2, CHR 0x80, CHR 0x85],
      [CHR 0xE2, CHR 0x80, CHR 0x86], [CHR 0xE2, CHR 0x80, CHR 0x87],
      [CHR 0xE2, CHR 0x80, CHR 0x88], [CHR 0xE2, CHR 0x80, CHR 0x89],
      [CHR 0xE2, CHR 0x80, CHR 0x8A], [CHR 0xE2, CHR 0x80, CHR 0xA8],
      [CHR 0xE2, CHR 0x80, CHR 0xA9], [CHR 0xE2, CHR 0x80, CHR 0xAF],
      [CHR 0xE2, CHR 0x81, CHR 0x9F], [CHR 0xE3, CHR 0x80, CHR 0x80]]"

text \<open>Drops codes of a list from the front for as long as one stands there.\<close>

function drop_codes :: "string list \<Rightarrow> string \<Rightarrow> string" where
  "drop_codes ps s =
     (case find (\<lambda>p. p \<noteq> [] \<and> has_prefix s p) ps of
        None \<Rightarrow> s
      | Some p \<Rightarrow> drop_codes ps (drop (length p) s))"
  by pat_completeness auto
termination
proof (relation "measure (\<lambda>(ps, s). length s)", simp)
  fix ps :: "string list" and s p :: string
  assume "find (\<lambda>p. p \<noteq> [] \<and> has_prefix s p) ps = Some p"
  then have "p \<noteq> []" "has_prefix s p" by (auto simp: find_Some_iff)
  then have "0 < length p" "length p \<le> length s" by (auto simp: has_prefix_iff)
  then show "((ps, drop (length p) s), ps, s) \<in> measure (\<lambda>(ps, s). length s)"
    by (simp del: length_greater_0_conv)
qed

declare drop_codes.simps [simp del]

definition trim_left :: "string \<Rightarrow> string" where
  "trim_left = drop_codes space_codes"

definition trim_right :: "string \<Rightarrow> string" where
  "trim_right s = rev (drop_codes (map rev space_codes) (rev s))"

definition trim_space :: "string \<Rightarrow> string" where
  "trim_space s = trim_right (trim_left s)"

lemma drop_codes_Nil [simp]: "drop_codes ps [] = []"
  by (subst drop_codes.simps) (auto split: option.splits simp: find_Some_iff has_prefix_def)

lemma trim_space_Nil [simp]: "trim_space [] = []"
  by (simp add: trim_space_def trim_left_def trim_right_def)

lemma drop_codes_suffix: "\<exists>t. s = t @ drop_codes ps s"
proof (induction ps s rule: drop_codes.induct)
  case (1 ps s)
  show ?case
  proof (cases "find (\<lambda>p. p \<noteq> [] \<and> has_prefix s p) ps")
    case None
    then show ?thesis by (subst drop_codes.simps) simp
  next
    case (Some p)
    with "1.IH" obtain t where "drop (length p) s = t @ drop_codes ps (drop (length p) s)"
      by blast
    moreover have "drop_codes ps s = drop_codes ps (drop (length p) s)"
      using Some by (subst drop_codes.simps) simp
    ultimately have "s = (take (length p) s @ t) @ drop_codes ps s"
      by (metis append.assoc append_take_drop_id)
    then show ?thesis by blast
  qed
qed

text \<open>A graphic ASCII byte at each end stops both trims, which is how closed terms evaluate.\<close>

definition graphic :: "char \<Rightarrow> bool" where
  "graphic c \<longleftrightarrow> CHR 0x20 < c \<and> c < CHR 0x7F"

lemma space_codes_graphic: "p \<in> set space_codes \<Longrightarrow> p = c # q \<Longrightarrow> \<not> graphic c"
  by (auto simp: space_codes_def graphic_def less_char_def)

lemma space_codes_graphic_last: "p \<in> set space_codes \<Longrightarrow> p = q @ [c] \<Longrightarrow> \<not> graphic c"
  by (auto simp: space_codes_def graphic_def less_char_def)

lemma drop_codes_stop:
  "(\<And>p. p \<in> set ps \<Longrightarrow> p \<noteq> [] \<Longrightarrow> \<not> has_prefix s p) \<Longrightarrow> drop_codes ps s = s"
  by (subst drop_codes.simps) (auto split: option.splits simp: find_Some_iff)

lemma trim_left_graphic: "graphic c \<Longrightarrow> trim_left (c # s) = c # s"
  unfolding trim_left_def
  by (rule drop_codes_stop) (auto simp: has_prefix_iff Cons_eq_append_conv dest: space_codes_graphic)

lemma trim_right_graphic: "graphic c \<Longrightarrow> trim_right (s @ [c]) = s @ [c]"
proof -
  assume c: "graphic c"
  have "drop_codes (map rev space_codes) (c # rev s) = c # rev s"
  proof (rule drop_codes_stop)
    fix p
    assume "p \<in> set (map rev space_codes)" "p \<noteq> []"
    then obtain q where q: "q \<in> set space_codes" "p = rev q" "q \<noteq> []" by auto
    then obtain x r where "q = r @ [x]" by (metis rev_exhaust)
    with q c show "\<not> has_prefix (c # rev s) p"
      by (auto simp: has_prefix_def dest: space_codes_graphic_last)
  qed
  then show ?thesis by (simp add: trim_right_def)
qed

lemma trim_space_graphic:
  "s \<noteq> [] \<Longrightarrow> graphic (hd s) \<Longrightarrow> graphic (last s) \<Longrightarrow> trim_space s = s"
  by (metis append_butlast_last_id list.collapse trim_left_graphic trim_right_graphic trim_space_def)

lemma drop_codes_done: "p \<in> set ps \<Longrightarrow> p \<noteq> [] \<Longrightarrow> \<not> has_prefix (drop_codes ps s) p"
proof (induction ps s rule: drop_codes.induct)
  case (1 ps s)
  show ?case
  proof (cases "find (\<lambda>p. p \<noteq> [] \<and> has_prefix s p) ps")
    case None
    then have "drop_codes ps s = s" by (simp add: drop_codes.simps [of ps s])
    with None 1 show ?thesis by (auto simp: find_None_iff)
  next
    case (Some q)
    then have "drop_codes ps s = drop_codes ps (drop (length q) s)"
      by (simp add: drop_codes.simps [of ps s])
    with Some 1 show ?thesis by simp
  qed
qed

lemma trim_right_prefix: "\<exists>u. t = trim_right t @ u"
proof -
  obtain v where "rev t = v @ drop_codes (map rev space_codes) (rev t)"
    using drop_codes_suffix [of "rev t"] by blast
  then have "t = rev (drop_codes (map rev space_codes) (rev t)) @ rev v"
    by (metis rev_append rev_rev_ident)
  then show ?thesis by (auto simp: trim_right_def)
qed

lemma trim_space_idem [simp]: "trim_space (trim_space s) = trim_space s"
proof -
  define t where "t = trim_right (trim_left s)"
  obtain u where u: "trim_left s = t @ u" using trim_right_prefix t_def by metis
  have "trim_left t = t"
    unfolding trim_left_def
  proof (rule drop_codes_stop)
    fix p
    assume p: "p \<in> set space_codes" "p \<noteq> []"
    then have "\<not> has_prefix (t @ u) p" unfolding u [symmetric] trim_left_def by (rule drop_codes_done)
    then show "\<not> has_prefix t p" by (auto simp: has_prefix_iff)
  qed
  moreover have "trim_right t = t"
    unfolding t_def trim_right_def
    by (simp, rule drop_codes_stop) (rule drop_codes_done)
  ultimately show ?thesis unfolding trim_space_def t_def [symmetric] by (simp add: t_def)
qed

section \<open>Decimal text\<close>

fun dec :: "nat \<Rightarrow> string" where
  "dec n = (if n < 10 then [] else dec (n div 10)) @ [char_of (48 + n mod 10)]"

declare dec.simps [simp del]

definition dec_int :: "int \<Rightarrow> string" where
  "dec_int i = (if i < 0 then CHR ''-'' # dec (nat (- i)) else dec (nat i))"

definition digit_val :: "char \<Rightarrow> nat option" where
  "digit_val c = (let n = of_char c :: nat in if 48 \<le> n \<and> n \<le> 57 then Some (n - 48) else None)"

definition is_digit :: "char \<Rightarrow> bool" where
  "is_digit c \<longleftrightarrow> digit_val c \<noteq> None"

fun undec_acc :: "nat \<Rightarrow> string \<Rightarrow> nat option" where
  "undec_acc n [] = Some n"
| "undec_acc n (c # cs) =
     (case digit_val c of None \<Rightarrow> None | Some d \<Rightarrow> undec_acc (10 * n + d) cs)"

definition undec :: "string \<Rightarrow> nat option" where
  "undec s = (if s = [] then None else undec_acc 0 s)"

lemma digit_val_char_of: "d < 10 \<Longrightarrow> digit_val (char_of (48 + d)) = Some d"
  by (simp add: digit_val_def)

lemma undec_acc_append:
  "undec_acc n (s @ t) = (case undec_acc n s of None \<Rightarrow> None | Some m \<Rightarrow> undec_acc m t)"
  by (induction s arbitrary: n) (auto split: option.splits)

lemma dec_not_Nil [simp]: "dec n \<noteq> []"
  by (subst dec.simps) simp

lemma undec_acc_dec: "undec_acc 0 (dec n) = Some n"
proof (induction n rule: dec.induct)
  case (1 n)
  show ?case
  proof (cases "n < 10")
    case True
    then show ?thesis by (subst dec.simps) (simp add: digit_val_char_of)
  next
    case False
    with "1.IH" have "undec_acc 0 (dec (n div 10)) = Some (n div 10)" by simp
    with False show ?thesis
      by (subst dec.simps) (simp add: undec_acc_append digit_val_char_of)
  qed
qed

lemma char_of_lit: "of_char c = n \<Longrightarrow> char_of (n :: nat) = c"
  by auto

lemma digit_chars:
  "char_of (48 :: nat) = CHR ''0''" "char_of (49 :: nat) = CHR ''1''" "char_of (50 :: nat) = CHR ''2''"
  "char_of (51 :: nat) = CHR ''3''" "char_of (52 :: nat) = CHR ''4''" "char_of (53 :: nat) = CHR ''5''"
  "char_of (54 :: nat) = CHR ''6''" "char_of (55 :: nat) = CHR ''7''" "char_of (56 :: nat) = CHR ''8''"
  "char_of (57 :: nat) = CHR ''9''"
  by (rule char_of_lit, simp)+

lemma dec_small: "n < 10 \<Longrightarrow> dec n = [char_of (48 + n)]"
  by (subst dec.simps) simp

lemma dec_large: "\<not> n < 10 \<Longrightarrow> dec n = dec (n div 10) @ [char_of (48 + n mod 10)]"
  by (subst dec.simps) simp

lemmas dec_eval = dec_small dec_large digit_chars

lemma hd_dec: "n > 0 \<Longrightarrow> hd (dec n) \<noteq> CHR ''0''"
proof (induction n rule: dec.induct)
  case (1 n)
  show ?case
  proof (cases "n < 10")
    case True
    then have "digit_val (char_of (48 + n)) \<noteq> digit_val CHR ''0''"
      using 1 digit_val_char_of [of n] digit_val_char_of [of 0] by (simp add: digit_val_def)
    then show ?thesis using True by (auto simp: dec_small)
  next
    case False
    then show ?thesis using 1 by (simp add: dec_large hd_append)
  qed
qed

lemma undec_dec [simp]: "undec (dec n) = Some n"
  by (simp add: undec_def undec_acc_dec)

lemma dec_inject [simp]: "dec m = dec n \<longleftrightarrow> m = n"
  by (metis option.inject undec_dec)

lemma dec_digits: "c \<in> set (dec n) \<Longrightarrow> is_digit c"
proof (induction n rule: dec.induct)
  case (1 n)
  have "is_digit (char_of (48 + n mod 10))" by (simp add: is_digit_def digit_val_char_of)
  then show ?case
    using "1.IH" "1.prems" by (subst (asm) (2) dec.simps) (auto split: if_splits)
qed

lemma not_digit_in_dec: "\<not> is_digit c \<Longrightarrow> c \<notin> set (dec n)"
  using dec_digits by blast

section \<open>Letters\<close>

text \<open>\<open>strings.ToLower\<close> on ASCII; other bytes are kept.\<close>

definition lower_char :: "char \<Rightarrow> char" where
  "lower_char c = (let n = of_char c :: nat in if 65 \<le> n \<and> n \<le> 90 then char_of (n + 32) else c)"

definition lower :: "string \<Rightarrow> string" where
  "lower = map lower_char"

definition is_letter :: "char \<Rightarrow> bool" where
  "is_letter c \<longleftrightarrow> (let n = of_char c :: nat in (65 \<le> n \<and> n \<le> 90) \<or> (97 \<le> n \<and> n \<le> 122))"

definition is_alnum :: "char \<Rightarrow> bool" where
  "is_alnum c \<longleftrightarrow> is_letter c \<or> is_digit c"

section \<open>Directories and tables as association lists\<close>

text \<open>
  A directory of files, or a SQL table with a primary key, is a list of bindings with distinct
  keys; a write replaces the binding of its key or adds one.
\<close>

type_synonym ('k, 'v) table = "('k \<times> 'v) list"

abbreviation keys :: "('k, 'v) table \<Rightarrow> 'k set" where
  "keys t \<equiv> fst ` set t"

definition table_ok :: "('k, 'v) table \<Rightarrow> bool" where
  "table_ok t \<longleftrightarrow> distinct (map fst t)"

lemma table_ok_Nil [simp]: "table_ok []"
  by (simp add: table_ok_def)

lemma table_ok_update [keeps]: "table_ok t \<Longrightarrow> table_ok (AList.update k v t)"
  by (simp add: table_ok_def distinct_update)

lemma table_ok_delete [keeps]: "table_ok t \<Longrightarrow> table_ok (AList.delete k t)"
  by (simp add: table_ok_def distinct_delete)

lemma map_of_update [simp]: "map_of (AList.update k v t) = (map_of t)(k \<mapsto> v)"
  by (rule update_conv')

lemma map_of_delete [simp]: "map_of (AList.delete k t) = (map_of t)(k := None)"
  by (simp add: delete_conv')

lemma keys_update [simp]: "keys (AList.update k v t) = insert k (keys t)"
  by (simp add: dom_update)

lemma keys_delete [simp]: "keys (AList.delete k t) = keys t - {k}"
  by (auto simp: AList.delete_eq)

lemma set_update: "p \<in> set (AList.update k v t) \<Longrightarrow> p = (k, v) \<or> p \<in> set t"
  by (induction t) (auto split: if_splits)

lemma delete_absent: "map_of t k = None \<Longrightarrow> AList.delete k t = t"
  by (simp add: delete_id map_of_eq_None_iff)

lemma keys_map_of: "k \<in> keys t \<longleftrightarrow> (\<exists>v. map_of t k = Some v)"
  by (metis domD domI dom_map_of_conv_image_fst)

lemma table_ok_map_of: "table_ok t \<Longrightarrow> (k, v) \<in> set t \<longleftrightarrow> map_of t k = Some v"
  by (auto simp: table_ok_def)

lemma map_of_rev_distinct: "distinct (map fst t) \<Longrightarrow> map_of (rev t) = map_of t"
proof (induction t)
  case (Cons p t)
  then have "map_of t (fst p) = None" by (simp add: map_of_eq_None_iff)
  with Cons show ?case by (cases p) (auto simp: map_add_def fun_eq_iff split: option.splits)
qed simp

section \<open>Sorting by a comparison\<close>

text \<open>
  \<open>sort.Slice\<close> with a \<open>less\<close> function, as the insertion sort it runs on short slices. Go
  promises only a sorted permutation; no lemma below says more about elements that compare equal.
\<close>

fun insert_by :: "('a \<Rightarrow> 'a \<Rightarrow> bool) \<Rightarrow> 'a \<Rightarrow> 'a list \<Rightarrow> 'a list" where
  "insert_by lt x [] = [x]"
| "insert_by lt x (y # ys) = (if lt y x then y # insert_by lt x ys else x # y # ys)"

definition sort_slice :: "('a \<Rightarrow> 'a \<Rightarrow> bool) \<Rightarrow> 'a list \<Rightarrow> 'a list" where
  "sort_slice lt xs = foldr (insert_by lt) xs []"

lemma set_insert_by [simp]: "set (insert_by lt x ys) = insert x (set ys)"
  by (induction ys) auto

lemma length_insert_by [simp]: "length (insert_by lt x ys) = Suc (length ys)"
  by (induction ys) auto

lemma count_insert_by: "count_list (insert_by lt x ys) z = count_list (x # ys) z"
  by (induction ys) auto

lemma set_sort_slice [simp]: "set (sort_slice lt xs) = set xs"
  by (induction xs) (auto simp: sort_slice_def)

lemma length_sort_slice [simp]: "length (sort_slice lt xs) = length xs"
  by (induction xs) (auto simp: sort_slice_def)

lemma count_sort_slice [simp]: "count_list (sort_slice lt xs) z = count_list xs z"
  by (induction xs) (auto simp: sort_slice_def count_insert_by)

lemma distinct_insert_by: "distinct (insert_by lt x ys) \<longleftrightarrow> x \<notin> set ys \<and> distinct ys"
  by (induction ys) auto

lemma distinct_sort_slice [simp]: "distinct (sort_slice lt xs) = distinct xs"
proof (induction xs)
  case (Cons x xs)
  then show ?case
    using set_sort_slice [of lt xs] by (simp add: sort_slice_def distinct_insert_by)
qed (simp add: sort_slice_def)

text \<open>Sorted for a strict weak order: nothing later compares below something earlier.\<close>

lemma sorted_insert_by:
  assumes "sorted_wrt (\<lambda>a b. \<not> lt b a) ys"
    and "\<And>a b. lt a b \<Longrightarrow> \<not> lt b a"
    and trans: "\<And>a b c. \<not> lt b a \<Longrightarrow> \<not> lt c b \<Longrightarrow> \<not> lt c a"
  shows "sorted_wrt (\<lambda>a b. \<not> lt b a) (insert_by lt x ys)"
  using assms(1)
proof (induction ys)
  case (Cons y ys)
  show ?case
  proof (cases "lt y x")
    case True
    with Cons assms(2) show ?thesis by simp
  next
    case False
    with Cons.prems show ?thesis by (auto dest: trans)
  qed
qed simp

lemma sorted_sort_slice:
  assumes "\<And>a b. lt a b \<Longrightarrow> \<not> lt b a"
    and "\<And>a b c. \<not> lt b a \<Longrightarrow> \<not> lt c b \<Longrightarrow> \<not> lt c a"
  shows "sorted_wrt (\<lambda>a b. \<not> lt b a) (sort_slice lt xs)"
proof (induction xs)
  case (Cons x xs)
  have "sorted_wrt (\<lambda>a b. \<not> lt b a) (insert_by lt x (sort_slice lt xs))"
    by (rule sorted_insert_by [OF Cons.IH]) (use assms in blast)+
  then show ?case by (simp add: sort_slice_def)
qed (simp add: sort_slice_def)

section \<open>Time\<close>

text \<open>
  A \<open>time.Time\<close> is the number of nanoseconds since January 1, year 1, 00:00 UTC; the zero
  value of Go's type, which \<open>IsZero\<close> tests, is 0. A \<open>time.Duration\<close> is a number of
  nanoseconds.
\<close>

type_synonym time = int
type_synonym duration = int

abbreviation is_zero :: "time \<Rightarrow> bool" where
  "is_zero t \<equiv> t = 0"

abbreviation second :: duration where
  "second \<equiv> 1000000000"

abbreviation millisecond :: duration where
  "millisecond \<equiv> 1000000"

text \<open>\<open>Time.Sub\<close> saturates at the range of an int64.\<close>

definition sub_time :: "time \<Rightarrow> time \<Rightarrow> duration" where
  "sub_time a b = max (- 9223372036854775808) (min 9223372036854775807 (a - b))"

text \<open>\<open>Duration.Milliseconds\<close> truncates towards zero.\<close>

definition milliseconds :: "duration \<Rightarrow> int" where
  "milliseconds d = sgn d * (\<bar>d\<bar> div millisecond)"

end
