(* ===== verification/TimeText.thy ===== *)
theory TimeText
  imports GoBase "HOL-Library.Monad_Syntax"
begin

text \<open>
  The text form of a time in the SQLite tables of \<open>internal/queue\<close> and \<open>internal/cache\<close>:
  \<open>formatTime\<close> writes \<open>t.UTC().Format(time.RFC3339Nano)\<close> and \<open>parseTime\<close> reads it back. The
  calendar is the proleptic Gregorian one of Go's \<open>time\<close> package. \<open>parse_time\<close> reads the
  \<open>Z\<close> form, the only one \<open>formatTime\<close> writes; offsets are not modelled.
\<close>

section \<open>The calendar\<close>

definition leap :: "nat \<Rightarrow> bool" where
  "leap y \<longleftrightarrow> y mod 4 = 0 \<and> (y mod 100 \<noteq> 0 \<or> y mod 400 = 0)"

text \<open>Days of the year before each month, and the days of a month.\<close>

definition month_start :: "nat \<Rightarrow> nat \<Rightarrow> nat" where
  "month_start y m =
     [0, 31, 59, 90, 120, 151, 181, 212, 243, 273, 304, 334] ! (m - 1)
       + (if leap y \<and> 2 < m then 1 else 0)"

definition days_in :: "nat \<Rightarrow> nat \<Rightarrow> nat" where
  "days_in y m = (if m = 2 \<and> leap y then 29
     else [31, 28, 31, 30, 31, 30, 31, 31, 30, 31, 30, 31] ! (m - 1))"

text \<open>Splits a day number (day 0 is January 1, year 1) into the year and the day of the year.\<close>

definition year_yday :: "nat \<Rightarrow> nat \<times> nat" where
  "year_yday n =
     (let a = n div 146097; r = n mod 146097;
          b = min 3 (r div 36524); r1 = r - 36524 * b;
          c = r1 div 1461; r2 = r1 mod 1461;
          d = min 3 (r2 div 365)
      in (400 * a + 100 * b + 4 * c + d + 1, r2 - 365 * d))"

definition month_of :: "nat \<Rightarrow> nat \<Rightarrow> nat" where
  "month_of y yd =
     (if yd < month_start y 2 then 1 else if yd < month_start y 3 then 2
      else if yd < month_start y 4 then 3 else if yd < month_start y 5 then 4
      else if yd < month_start y 6 then 5 else if yd < month_start y 7 then 6
      else if yd < month_start y 8 then 7 else if yd < month_start y 9 then 8
      else if yd < month_start y 10 then 9 else if yd < month_start y 11 then 10
      else if yd < month_start y 12 then 11 else 12)"

definition civil :: "nat \<Rightarrow> nat \<times> nat \<times> nat" where
  "civil n = (let (y, yd) = year_yday n; m = month_of y yd in (y, m, yd - month_start y m + 1))"

definition day_number :: "nat \<Rightarrow> nat \<Rightarrow> nat \<Rightarrow> nat" where
  "day_number y m d =
     (let p = y - 1 in 365 * p + p div 4 - p div 100 + p div 400 + month_start y m + d - 1)"

lemma upt_months: "[1..<13] = [1, 2, 3, 4, 5, 6, 7, 8, 9, 10, 11, 12 :: nat]"
  by (simp add: upt_rec)

lemma year_yday_split:
  assumes "year_yday n = (y, yd)"
  obtains a b c d where "y = 400 * a + 100 * b + 4 * c + d + 1"
    and "n = 146097 * a + 36524 * b + 1461 * c + 365 * d + yd"
    and "b \<le> 3" "c \<le> 24" "d \<le> 3" "yd \<le> 365" "yd = 365 \<longrightarrow> d = 3 \<and> (c = 24 \<longrightarrow> b = 3)"
proof -
  define r where "r = n mod 146097"
  define b where "b = min 3 (r div 36524)"
  define r1 where "r1 = r - 36524 * b"
  define c where "c = r1 div 1461"
  define r2 where "r2 = r1 mod 1461"
  define d where "d = min 3 (r2 div 365)"
  have r: "r < 146097" by (simp add: r_def)
  have b: "b \<le> 3" "36524 * b \<le> r" "b < 3 \<Longrightarrow> r < 36524 * (b + 1)"
    unfolding b_def by (auto simp: min_def split: if_splits)
  have r1: "r1 \<le> 36524" "b < 3 \<Longrightarrow> r1 < 36524" "r = 36524 * b + r1"
    using b r by (cases "b = 3"; simp add: r1_def)+
  have c: "r1 = 1461 * c + r2" "r2 < 1461" "c \<le> 24"
    using r1 by (auto simp: c_def r2_def)
  have d: "d \<le> 3" "365 * d \<le> r2" "d < 3 \<Longrightarrow> r2 < 365 * (d + 1)"
    unfolding d_def by (auto simp: min_def split: if_splits)
  have yd: "yd = r2 - 365 * d" "y = 400 * (n div 146097) + 100 * b + 4 * c + d + 1"
    using assms [symmetric]
    by (simp_all only: year_yday_def Let_def prod.inject r_def b_def r1_def c_def r2_def d_def)
  have yd365: "yd \<le> 365"
    using c(2) d yd(1) by (cases "d = 3") auto
  have last: "yd = 365 \<longrightarrow> d = 3 \<and> (c = 24 \<longrightarrow> b = 3)"
    using c d yd(1) r1 b by (cases "d = 3"; cases "b = 3") auto
  have n: "n = 146097 * (n div 146097) + 36524 * b + 1461 * c + 365 * d + yd"
    using mult_div_mod_eq [of 146097 n] r1(3) c(1) d(2) yd(1) unfolding r_def by linarith
  show thesis
    by (rule that [OF yd(2) n b(1) c(3) d(1) yd365 last])
qed

lemma leap_last_of_four:
  assumes y: "y = 400 * a + 100 * b + 4 * c + 4" and "c \<le> 24" "c = 24 \<longrightarrow> b = 3"
  shows "leap y"
proof (cases "c = 24")
  case True
  then have "y = 400 * (a + 1)" using assms by simp
  then show ?thesis by (simp only: leap_def mult.assoc) simp
next
  case False
  have "y = 4 * (100 * a + 25 * b + c + 1)" using y by simp
  then have "y mod 4 = 0" by simp
  moreover have "y = (4 * c + 4) + 100 * (4 * a + b)" using y by simp
  then have "y mod 100 = (4 * c + 4) mod 100" by (simp only: mod_mult_self2)
  then have "y mod 100 = 4 * c + 4" using assms(2) False by simp
  ultimately show ?thesis by (simp add: leap_def)
qed

lemma year_yday_leap: "year_yday n = (y, yd) \<Longrightarrow> yd < (if leap y then 366 else 365)"
proof -
  assume "year_yday n = (y, yd)"
  then obtain a b c d where y: "y = 400 * a + 100 * b + 4 * c + d + 1"
    and n: "n = 146097 * a + 36524 * b + 1461 * c + 365 * d + yd"
    and bounds: "b \<le> 3" "c \<le> 24" "d \<le> 3" "yd \<le> 365"
    and last: "yd = 365 \<longrightarrow> d = 3 \<and> (c = 24 \<longrightarrow> b = 3)"
    by (rule year_yday_split)
  have "leap y" if "yd = 365"
    using that last y bounds by (intro leap_last_of_four [of y a b c]) auto
  then show ?thesis using bounds(4) by (cases "yd = 365") auto
qed

lemma days_before_year:
  assumes "year_yday n = (y, yd)"
  shows "365 * (y - 1) + (y - 1) div 4 - (y - 1) div 100 + (y - 1) div 400 + yd = n" "1 \<le> y"
proof -
  obtain a b c d where y: "y = 400 * a + 100 * b + 4 * c + d + 1"
    and n: "n = 146097 * a + 36524 * b + 1461 * c + 365 * d + yd"
    and le: "b \<le> 3" "c \<le> 24" "d \<le> 3" and "yd \<le> 365"
    and "yd = 365 \<longrightarrow> d = 3 \<and> (c = 24 \<longrightarrow> b = 3)"
    using assms by (rule year_yday_split)
  have p: "y - 1 = 400 * a + 100 * b + 4 * c + d" using y by simp
  have "y - 1 = d + 4 * (100 * a + 25 * b + c)" using p by simp
  then have "(y - 1) div 4 = 100 * a + 25 * b + c" using le by simp
  moreover have "y - 1 = (4 * c + d) + 100 * (4 * a + b)" using p by simp
  then have "(y - 1) div 100 = 4 * a + b" using le by simp
  moreover have "y - 1 = (100 * b + 4 * c + d) + 400 * a" using p by simp
  then have "(y - 1) div 400 = a" using le by simp
  ultimately show "365 * (y - 1) + (y - 1) div 4 - (y - 1) div 100 + (y - 1) div 400 + yd = n"
    using n p by simp
  show "1 \<le> y" using y by simp
qed

lemma month_start_next:
  "1 \<le> m \<Longrightarrow> m < 12 \<Longrightarrow> month_start y (Suc m) = month_start y m + days_in y m"
proof -
  assume "1 \<le> m" "m < 12"
  then have "m \<in> set [1..<13]" "m < 12" by auto
  then show ?thesis
    unfolding upt_months by (cases "leap y") (auto simp: month_start_def days_in_def)
qed

lemma pick_interval:
  fixes ms :: "nat \<Rightarrow> nat"
  assumes "ms 1 \<le> d" "d < ms 13"
    and "m = (if d < ms 2 then 1 else if d < ms 3 then 2 else if d < ms 4 then 3
      else if d < ms 5 then 4 else if d < ms 6 then 5 else if d < ms 7 then 6
      else if d < ms 8 then 7 else if d < ms 9 then 8 else if d < ms 10 then 9
      else if d < ms 11 then 10 else if d < ms 12 then 11 else 12)"
  shows "1 \<le> m \<and> m \<le> 12 \<and> ms m \<le> d \<and> d < ms (Suc m)"
  using assms by (simp add: numeral_2_eq_2 [symmetric] split: if_splits)

lemma month_of_bounds:
  assumes "yd < (if leap y then 366 else 365)"
  shows "1 \<le> month_of y yd \<and> month_of y yd \<le> 12 \<and> month_start y (month_of y yd) \<le> yd
    \<and> yd < month_start y (month_of y yd) + days_in y (month_of y yd)"
proof -
  define ms where "ms m = (if m = 13 then month_start y 12 + days_in y 12 else month_start y m)" for m
  have "ms 1 \<le> yd" "yd < ms 13"
    using assms by (auto simp: ms_def month_start_def days_in_def split: if_splits)
  moreover have "month_of y yd = (if yd < ms 2 then 1 else if yd < ms 3 then 2 else if yd < ms 4 then 3
      else if yd < ms 5 then 4 else if yd < ms 6 then 5 else if yd < ms 7 then 6
      else if yd < ms 8 then 7 else if yd < ms 9 then 8 else if yd < ms 10 then 9
      else if yd < ms 11 then 10 else if yd < ms 12 then 11 else 12)"
    by (simp add: month_of_def ms_def)
  ultimately have m: "1 \<le> month_of y yd \<and> month_of y yd \<le> 12 \<and> ms (month_of y yd) \<le> yd
      \<and> yd < ms (Suc (month_of y yd))"
    by (rule pick_interval)
  then have "ms (month_of y yd) = month_start y (month_of y yd)" by (simp add: ms_def)
  moreover from m have "ms (Suc (month_of y yd)) =
      month_start y (month_of y yd) + days_in y (month_of y yd)"
    using month_start_next [of "month_of y yd" y] by (cases "month_of y yd = 12") (auto simp: ms_def)
  ultimately show ?thesis using m by simp
qed

lemma civil_inverse:
  assumes "civil n = (y, m, d)"
  shows "day_number y m d = n" "1 \<le> y" "1 \<le> m" "m \<le> 12" "1 \<le> d" "d \<le> days_in y m"
proof -
  obtain yd where yd: "year_yday n = (y, yd)" "m = month_of y yd" "d = yd - month_start y m + 1"
    using assms by (cases "year_yday n") (auto simp: civil_def Let_def)
  note b = month_of_bounds [OF year_yday_leap [OF yd(1)], folded yd(2)]
  have "(y - 1) div 100 \<le> 365 * (y - 1)"
    using div_le_dividend [of "y - 1" 100] by simp
  then show "day_number y m d = n"
    using days_before_year(1) [OF yd(1)] b yd(3)
    unfolding day_number_def Let_def by linarith
  show "1 \<le> y" by (rule days_before_year(2) [OF yd(1)])
  show "1 \<le> m" "m \<le> 12" using b by auto
  show "1 \<le> d" "d \<le> days_in y m" using b yd(3) by auto
qed

section \<open>Fixed-width numbers\<close>

fun digits :: "nat \<Rightarrow> nat \<Rightarrow> string" where
  "digits 0 n = []"
| "digits (Suc w) n = digits w (n div 10) @ [char_of (48 + n mod 10)]"

lemma length_digits [simp]: "length (digits w n) = w"
  by (induction w arbitrary: n) auto

lemma digits_are_digits: "c \<in> set (digits w n) \<Longrightarrow> is_digit c"
  by (induction w arbitrary: n) (auto simp: is_digit_def digit_val_char_of)

lemma undec_acc_digits: "undec_acc 0 (digits w n) = Some (n mod 10 ^ w)"
proof (induction w arbitrary: n)
  case (Suc w)
  have "n mod 10 ^ Suc w = 10 * (n div 10 mod 10 ^ w) + n mod 10"
    by (simp add: mod_mult2_eq)
  with Suc show ?case by (simp add: undec_acc_append digit_val_char_of)
qed simp

definition number :: "nat \<Rightarrow> string \<Rightarrow> (nat \<times> string) option" where
  "number w s = (if length s < w then None
     else map_option (\<lambda>n. (n, drop w s)) (undec (take w s)))"

definition literal :: "char \<Rightarrow> string \<Rightarrow> string option" where
  "literal c s = (case s of [] \<Rightarrow> None | d # t \<Rightarrow> if d = c then Some t else None)"

lemma number_digits [simp]: "0 < w \<Longrightarrow> n < 10 ^ w \<Longrightarrow> number w (digits w n @ s) = Some (n, s)"
proof -
  assume "0 < w" "n < 10 ^ w"
  then have "digits w n \<noteq> []" "undec_acc 0 (digits w n) = Some n"
    using length_digits [of w n] by (auto simp: undec_acc_digits simp del: length_digits)
  then show ?thesis by (simp add: number_def undec_def)
qed

lemma literal_Cons [simp]: "literal c (c # s) = Some s"
  by (simp add: literal_def)

section \<open>Fractions of a second\<close>

text \<open>\<open>.999999999\<close> of the layout: nine digits without the trailing zeros, nothing for 0.\<close>

definition strip_zeros :: "string \<Rightarrow> string" where
  "strip_zeros s = rev (dropWhile (\<lambda>c. c = CHR ''0'') (rev s))"

definition fraction :: "nat \<Rightarrow> string" where
  "fraction ns = (if ns = 0 then [] else CHR ''.'' # strip_zeros (digits 9 ns))"

definition parse_fraction :: "string \<Rightarrow> (nat \<times> string) option" where
  "parse_fraction s =
     (case s of
        [] \<Rightarrow> Some (0, s)
      | c # t \<Rightarrow>
          if c \<noteq> CHR ''.'' then Some (0, s)
          else let ds = takeWhile is_digit t; rest = dropWhile is_digit t in
            if ds = [] \<or> 9 < length ds then None
            else map_option (\<lambda>n. (n * 10 ^ (9 - length ds), rest)) (undec ds))"

lemma strip_zeros_split: "\<exists>k. s = strip_zeros s @ replicate k (CHR ''0'')"
proof -
  let ?P = "\<lambda>c. c = CHR ''0''"
  have "rev s = takeWhile ?P (rev s) @ dropWhile ?P (rev s)" by simp
  then have "s = strip_zeros s @ rev (takeWhile ?P (rev s))"
    unfolding strip_zeros_def by (metis rev_append rev_rev_ident)
  moreover have "rev (takeWhile ?P (rev s)) = replicate (length (takeWhile ?P (rev s))) (CHR ''0'')"
    by (rule replicate_eqI) (auto dest: set_takeWhileD)
  ultimately show ?thesis by metis
qed

lemma undec_acc_zeros: "undec_acc n (replicate k (CHR ''0'')) = Some (n * 10 ^ k)"
  by (induction k arbitrary: n) (simp_all add: digit_val_def)

lemma parse_fraction_fraction:
  assumes "ns < 10 ^ 9" and "c \<noteq> CHR ''.''" and "\<not> is_digit c"
  shows "parse_fraction (fraction ns @ c # s) = Some (ns, c # s)"
proof (cases "ns = 0")
  case True
  then show ?thesis using assms(2) by (simp add: fraction_def parse_fraction_def)
next
  case False
  define z where "z = strip_zeros (digits 9 ns)"
  obtain k where k: "digits 9 ns = z @ replicate k (CHR ''0'')"
    using strip_zeros_split z_def by metis
  have len: "length z + k = 9" by (metis k length_append length_digits length_replicate)
  have val: "undec_acc 0 (digits 9 ns) = Some ns"
    using assms(1) undec_acc_digits [of 9 ns] by simp
  then obtain m where m: "undec_acc 0 z = Some m" "m * 10 ^ k = ns"
    unfolding k undec_acc_append by (auto split: option.splits simp: undec_acc_zeros)
  have nz: "z \<noteq> []" using m False by auto
  have dig: "\<forall>x \<in> set z. is_digit x"
    using k digits_are_digits [of _ 9 ns] by (metis UnCI set_append)
  have "takeWhile is_digit (z @ c # s) = z" "dropWhile is_digit (z @ c # s) = c # s"
    using dig assms(3) by (auto simp: takeWhile_append dropWhile_append)
  moreover have "9 - length z = k" using len by simp
  ultimately show ?thesis
    using False nz m len by (simp add: fraction_def parse_fraction_def undec_def z_def)
qed

section \<open>formatTime and parseTime\<close>

definition ns_per_day :: int where
  "ns_per_day = 86400000000000"

definition rfc3339 :: "time \<Rightarrow> string" where
  "rfc3339 t =
     (let (y, m, d) = civil (nat (t div ns_per_day)); n = nat (t mod ns_per_day);
          s = n div 1000000000 in
      digits 4 y @ CHR ''-'' # digits 2 m @ CHR ''-'' # digits 2 d @ CHR ''T'' #
      digits 2 (s div 3600) @ CHR '':'' # digits 2 (s div 60 mod 60) @ CHR '':'' #
      digits 2 (s mod 60) @ fraction (n mod 1000000000) @ [CHR ''Z''])"

definition format_time :: "time \<Rightarrow> string" where
  "format_time t = (if is_zero t then [] else rfc3339 t)"

definition parse_rfc3339 :: "string \<Rightarrow> time option" where
  "parse_rfc3339 s0 = do {
     (y, s1) \<leftarrow> number 4 s0; s2 \<leftarrow> literal (CHR ''-'') s1;
     (m, s3) \<leftarrow> number 2 s2; s4 \<leftarrow> literal (CHR ''-'') s3;
     (d, s5) \<leftarrow> number 2 s4; s6 \<leftarrow> literal (CHR ''T'') s5;
     (hh, s7) \<leftarrow> number 2 s6; s8 \<leftarrow> literal (CHR '':'') s7;
     (mm, s9) \<leftarrow> number 2 s8; s10 \<leftarrow> literal (CHR '':'') s9;
     (ss, s11) \<leftarrow> number 2 s10;
     (ns, s12) \<leftarrow> parse_fraction s11;
     s13 \<leftarrow> literal (CHR ''Z'') s12;
     if s13 = [] \<and> 1 \<le> y \<and> 1 \<le> m \<and> m \<le> 12 \<and> 1 \<le> d \<and> d \<le> days_in y m
        \<and> hh < 24 \<and> mm < 60 \<and> ss < 60
     then Some (int (day_number y m d) * ns_per_day
            + int ((hh * 3600 + mm * 60 + ss) * 1000000000 + ns))
     else None }"

definition parse_time :: "string \<Rightarrow> time" where
  "parse_time s = (if s = [] then 0 else (case parse_rfc3339 s of None \<Rightarrow> 0 | Some t \<Rightarrow> t))"

text \<open>The range in which RFC 3339 has four year digits: \<open>9999-12-31T23:59:59.999999999Z\<close> at most.\<close>

definition year_4_digits :: "time \<Rightarrow> bool" where
  "year_4_digits t \<longleftrightarrow> 0 \<le> t \<and> fst (civil (nat (t div ns_per_day))) < 10000"

lemma days_in_le: "1 \<le> m \<Longrightarrow> m \<le> 12 \<Longrightarrow> days_in y m \<le> 31"
proof -
  assume "1 \<le> m" "m \<le> 12"
  then have "m \<in> set [1..<13]" by simp
  then show ?thesis unfolding upt_months by (auto simp: days_in_def)
qed

lemma parse_rfc3339_rfc3339: "year_4_digits t \<Longrightarrow> parse_rfc3339 (rfc3339 t) = Some t"
proof -
  assume t: "year_4_digits t"
  obtain y m d where c: "civil (nat (t div ns_per_day)) = (y, m, d)" by (metis prod_cases3)
  note ci = civil_inverse [OF c]
  define n where "n = nat (t mod ns_per_day)"
  define s where "s = n div 1000000000"
  have y: "y < 10000" and t0: "0 \<le> t" using t c by (auto simp: year_4_digits_def)
  have m: "m < 100" "d < 100" using ci days_in_le [OF ci(3,4), of y] by auto
  have n: "n < 86400000000000" "int n = t mod ns_per_day"
    by (auto simp: n_def ns_per_day_def)
  have s: "s < 86400" using n(1) by (simp add: s_def less_mult_imp_div_less)
  then have hms: "s div 3600 < 24" "s div 60 mod 60 < 60" "s mod 60 < 60"
    by (simp_all add: less_mult_imp_div_less)
  have "s div 60 = 60 * (s div 3600) + s div 60 mod 60"
    using mult_div_mod_eq [of 60 "s div 60"] by (simp add: div_mult2_eq [symmetric])
  then have sum: "s div 3600 * 3600 + s div 60 mod 60 * 60 + s mod 60 = s"
    using mult_div_mod_eq [of 60 s] by linarith
  have ns: "s * 1000000000 + n mod 1000000000 = n" by (simp add: s_def)
  have inst: "int (day_number y m d) * ns_per_day + int n = t"
    using ci(1) t0 n(2) by (simp add: ns_per_day_def pos_imp_zdiv_nonneg_iff)
  have "\<not> is_digit (CHR ''Z'')" by (simp add: is_digit_def digit_val_def)
  then have fr: "parse_fraction (fraction (n mod 1000000000) @ [CHR ''Z'']) = Some (n mod 1000000000, [CHR ''Z''])"
    by (intro parse_fraction_fraction) simp_all
  have wrote: "rfc3339 t = digits 4 y @ CHR ''-'' # digits 2 m @ CHR ''-'' # digits 2 d @ CHR ''T'' #
      digits 2 (s div 3600) @ CHR '':'' # digits 2 (s div 60 mod 60) @ CHR '':'' #
      digits 2 (s mod 60) @ fraction (n mod 1000000000) @ [CHR ''Z'']"
    using c by (simp add: rfc3339_def Let_def n_def s_def)
  note steps = number_digits [of 4 y] number_digits [of 2 m] number_digits [of 2 d]
    number_digits [of 2 "s div 3600"] number_digits [of 2 "s div 60 mod 60"]
    number_digits [of 2 "s mod 60"]
  have valid: "1 \<le> y \<and> 1 \<le> m \<and> m \<le> 12 \<and> 1 \<le> d \<and> d \<le> days_in y m
      \<and> s div 3600 < 24 \<and> s div 60 mod 60 < 60 \<and> s mod 60 < 60"
    using ci hms by simp
  have "parse_rfc3339 (rfc3339 t) = Some (int (day_number y m d) * ns_per_day
      + int ((s div 3600 * 3600 + s div 60 mod 60 * 60 + s mod 60) * 1000000000 + n mod 1000000000))"
    unfolding parse_rfc3339_def wrote
    using y m hms fr valid by (simp add: steps del: number_digits mod_mod_trivial)
  then show ?thesis unfolding sum ns inst .
qed

lemma rfc3339_not_Nil: "rfc3339 t \<noteq> []"
  by (simp add: rfc3339_def Let_def split: prod.splits)

text \<open>
  What \<open>formatTime\<close> writes into a table, \<open>parseTime\<close> reads back as the same instant, the
  zero time included.
\<close>

theorem parse_format_time: "year_4_digits t \<Longrightarrow> parse_time (format_time t) = t"
  using parse_rfc3339_rfc3339 rfc3339_not_Nil by (simp add: parse_time_def format_time_def)

theorem parse_format_time_witness:
  "parse_time (format_time 63839577600123450000) = 63839577600123450000"
  by (rule parse_format_time)
    (simp add: year_4_digits_def civil_def year_yday_def ns_per_day_def Let_def)

end
