(* ===== verification/Spool.thy ===== *)
theory Spool
  imports TimeText
begin

text \<open>
  The queue of record of \<open>internal/queue\<close>: jobs and results, the file driver
  (\<open>store.go\<close>), the SQLite driver (\<open>store_sqlite.go\<close>), the mirror of both with
  its reconciliation, and the \<open>Store\<close> interface. Every read or write of the disk or the database
  takes the next entry of a fault script and fails when it is \<open>True\<close>; an empty script is a
  healthy disk. A directory maps whole file names to entries: a subdirectory, a file that cannot
  be read back (\<open>Garbage\<close>), or a document.
\<close>

section \<open>Jobs and results\<close>

record job =
  job_id :: string
  job_args :: "string list"
  job_timeout :: int
  job_priority :: int
  job_created :: time

record jobresult =
  res_id :: string
  res_output :: string
  res_exit :: int
  res_success :: bool
  res_error :: string
  res_version :: string
  res_queued :: time
  res_started :: time
  res_finished :: time
  res_batch :: int
  res_wait_ms :: int

datatype store_err = Not_Found | Io_Error

section \<open>What JSON keeps of a string\<close>

text \<open>
  \<open>encoding/json\<close> writes every byte that does not belong to a valid UTF-8 sequence as U+FFFD.
  \<open>utf8_len\<close> is the length of the valid sequence at the head, 0 when there is none.
\<close>

definition byte_in :: "nat \<Rightarrow> nat \<Rightarrow> char \<Rightarrow> bool" where
  "byte_in a b c \<longleftrightarrow> a \<le> of_char c \<and> of_char c \<le> b"

abbreviation cont :: "char \<Rightarrow> bool" where
  "cont \<equiv> byte_in 128 191"

fun utf8_len :: "string \<Rightarrow> nat" where
  "utf8_len [] = 0"
| "utf8_len [a] = (if byte_in 0 127 a then 1 else 0)"
| "utf8_len [a, b] =
     (if byte_in 0 127 a then 1 else if byte_in 194 223 a \<and> cont b then 2 else 0)"
| "utf8_len [a, b, c] =
     (if byte_in 0 127 a then 1 else if byte_in 194 223 a \<and> cont b then 2
      else if cont c \<and>
        (byte_in 224 224 a \<and> byte_in 160 191 b \<or> byte_in 225 236 a \<and> cont b
         \<or> byte_in 237 237 a \<and> byte_in 128 159 b \<or> byte_in 238 239 a \<and> cont b) then 3
      else 0)"
| "utf8_len (a # b # c # d # s) =
     (if byte_in 0 127 a then 1 else if byte_in 194 223 a \<and> cont b then 2
      else if cont c \<and>
        (byte_in 224 224 a \<and> byte_in 160 191 b \<or> byte_in 225 236 a \<and> cont b
         \<or> byte_in 237 237 a \<and> byte_in 128 159 b \<or> byte_in 238 239 a \<and> cont b) then 3
      else if cont c \<and> cont d \<and>
        (byte_in 240 240 a \<and> byte_in 144 191 b \<or> byte_in 241 243 a \<and> cont b
         \<or> byte_in 244 244 a \<and> byte_in 128 143 b) then 4
      else 0)"

definition replacement :: string where
  "replacement = [CHR 0xEF, CHR 0xBF, CHR 0xBD]"

lemma utf8_len_le: "utf8_len s \<le> length s"
  by (induction s rule: utf8_len.induct) auto

function json_str :: "string \<Rightarrow> string" where
  "json_str s =
     (if s = [] then []
      else if utf8_len s = 0 then replacement @ json_str (tl s)
      else take (utf8_len s) s @ json_str (drop (utf8_len s) s))"
  by pat_completeness auto
termination
  by (relation "measure length") (auto simp: neq_Nil_conv)

declare json_str.simps [simp del]

lemma json_str_Nil [simp]: "json_str [] = []"
  by (simp add: json_str.simps)

lemma json_str_bad: "s \<noteq> [] \<Longrightarrow> utf8_len s = 0 \<Longrightarrow> json_str s = replacement @ json_str (tl s)"
  by (simp add: json_str.simps)

lemma json_str_good:
  "utf8_len s \<noteq> 0 \<Longrightarrow> json_str s = take (utf8_len s) s @ json_str (drop (utf8_len s) s)"
  by (subst json_str.simps) auto

text \<open>The sequence found at the head does not depend on what follows it.\<close>

lemma utf8_len_take:
  assumes "utf8_len s = n" "n \<noteq> 0"
  shows "utf8_len (take n s @ t) = n"
proof -
  consider (1) a r where "s = a # r" "n = 1" "byte_in 0 127 a"
    | (2) a b r where "s = a # b # r" "n = 2" "\<not> byte_in 0 127 a" "byte_in 194 223 a" "cont b"
    | (3) a b c r where "s = a # b # c # r" "n = 3" "\<not> byte_in 0 127 a" "\<not> (byte_in 194 223 a \<and> cont b)"
        "cont c" "byte_in 224 224 a \<and> byte_in 160 191 b \<or> byte_in 225 236 a \<and> cont b
         \<or> byte_in 237 237 a \<and> byte_in 128 159 b \<or> byte_in 238 239 a \<and> cont b"
    | (4) a b c d r where "s = a # b # c # d # r" "n = 4" "utf8_len s = 4"
    using assms by (cases s rule: utf8_len.cases) (auto split: if_splits)
  then show ?thesis
  proof cases
    case 1
    then show ?thesis by (cases "a # t" rule: utf8_len.cases) auto
  next
    case 2
    then show ?thesis by (cases "a # b # t" rule: utf8_len.cases) auto
  next
    case 3
    then show ?thesis by (cases "a # b # c # t" rule: utf8_len.cases) auto
  next
    case 4
    then show ?thesis by (auto split: if_splits)
  qed
qed

lemma utf8_len_replacement: "utf8_len (replacement @ t) = 3"
  by (cases t) (simp_all add: replacement_def byte_in_def)

lemma json_str_idem [simp]: "json_str (json_str s) = json_str s"
proof (induction s rule: json_str.induct)
  case (1 s)
  consider "s = []" | "s \<noteq> []" "utf8_len s = 0" | "utf8_len s \<noteq> 0" by blast
  then show ?case
  proof cases
    case 2
    have "json_str (json_str s) = replacement @ json_str (json_str (tl s))"
      using 2 json_str_good [of "replacement @ json_str (tl s)"]
      by (simp add: json_str_bad utf8_len_replacement) (simp add: replacement_def)
    then show ?thesis using 2 1 by (simp add: json_str_bad)
  next
    case 3
    let ?n = "utf8_len s"
    have "utf8_len (take ?n s @ json_str (drop ?n s)) = ?n" using 3 utf8_len_take by blast
    moreover have "length (take ?n s) = ?n" using utf8_len_le by simp
    ultimately have "json_str (json_str s) = take ?n s @ json_str (json_str (drop ?n s))"
      using 3 json_str_good [of "take ?n s @ json_str (drop ?n s)"]
      by (simp add: json_str_good [of s])
    moreover have "s \<noteq> []" using 3 by auto
    ultimately show ?thesis using 3 1 by (simp add: json_str_good [of s])
  qed simp
qed

lemma json_str_ascii: "\<forall>c \<in> set s. of_char c < (128 :: nat) \<Longrightarrow> json_str s = s"
proof (induction s)
  case (Cons a s)
  then have "utf8_len (a # s) = 1" by (cases "a # s" rule: utf8_len.cases) (auto simp: byte_in_def)
  with Cons show ?case by (simp add: json_str_good)
qed simp

definition json_job :: "job \<Rightarrow> job" where
  "json_job j = j\<lparr>job_id := json_str (job_id j), job_args := map json_str (job_args j)\<rparr>"

definition json_result :: "jobresult \<Rightarrow> jobresult" where
  "json_result r = r\<lparr>res_id := json_str (res_id r), res_output := json_str (res_output r),
     res_error := json_str (res_error r), res_version := json_str (res_version r)\<rparr>"

section \<open>Directories\<close>

text \<open>\<open>Subdir\<close> is a subdirectory with something in it, which no call below replaces or removes.\<close>

datatype 'a dirent = Subdir | Garbage | Doc 'a

definition doc_name :: "string \<Rightarrow> string" where
  "doc_name i = i @ ''.json''"

lemma doc_name_inject [simp]: "doc_name i = doc_name k \<longleftrightarrow> i = k"
  by (simp add: doc_name_def)

text \<open>The entries \<open>ListJobs\<close> and \<open>ListResults\<close> look at.\<close>

definition listable :: "string \<Rightarrow> bool" where
  "listable n \<longleftrightarrow> has_suffix n ''.json'' \<and> \<not> has_prefix n ''.tmp-''"

text \<open>The effect of \<open>writeJSONAtomic\<close> that succeeds; a subdirectory of that name stops the rename.\<close>

definition put_doc ::
    "bool list \<Rightarrow> string \<Rightarrow> 'a \<Rightarrow> (string, 'a dirent) table
     \<Rightarrow> (store_err, unit) res \<times> bool list \<times> (string, 'a dirent) table" where
  "put_doc fs n x t =
     (let (bad, fs') = next_fault fs in
      if bad \<or> map_of t n = Some Subdir then (Inl Io_Error, fs', t)
      else (Inr (), fs', AList.update n (Doc x) t))"

text \<open>\<open>os.ReadDir\<close> sorts by name; a file that cannot be read or parsed is skipped.\<close>

fun read_docs :: "bool list \<Rightarrow> (string \<times> 'a dirent) list \<Rightarrow> 'a list \<times> bool list" where
  "read_docs fs [] = ([], fs)"
| "read_docs fs ((n, e) # es) =
     (if e = Subdir \<or> \<not> listable n then read_docs fs es
      else
        let (bad, fs') = next_fault fs; (xs, fs'') = read_docs fs' es in
        case e of
          Doc x \<Rightarrow> if bad then (xs, fs'') else (x # xs, fs'')
        | _ \<Rightarrow> (xs, fs''))"

definition list_docs ::
    "bool list \<Rightarrow> (string, 'a dirent) table \<Rightarrow> (store_err, 'a list) res \<times> bool list" where
  "list_docs fs t =
     (let (bad, fs') = next_fault fs in
      if bad then (Inl Io_Error, fs')
      else let (xs, fs'') = read_docs fs' (sort_key fst t) in (Inr xs, fs''))"

section \<open>The file driver\<close>

record file_store =
  fs_jobs :: "(string, job dirent) table"
  fs_results :: "(string, jobresult dirent) table"
  fs_dlq :: "(string, jobresult dirent) table"
  fs_journal :: "(time \<times> job \<times> jobresult) list"
  fs_faults :: "bool list"

text \<open>\<open>sortJobs\<close>: higher priority first, then the older job.\<close>

definition job_before :: "job \<Rightarrow> job \<Rightarrow> bool" where
  "job_before a b =
     (if job_priority a \<noteq> job_priority b then job_priority b < job_priority a
      else job_created a < job_created b)"

definition sort_jobs :: "job list \<Rightarrow> job list" where
  "sort_jobs = sort_slice job_before"

definition file_put_job :: "file_store \<Rightarrow> job \<Rightarrow> (store_err, unit) res \<times> file_store" where
  "file_put_job f j =
     (let (r, fs, t) = put_doc (fs_faults f) (doc_name (job_id j)) (json_job j) (fs_jobs f) in
      (r, f\<lparr>fs_jobs := t, fs_faults := fs\<rparr>))"

definition file_list_jobs :: "file_store \<Rightarrow> (store_err, job list) res \<times> file_store" where
  "file_list_jobs f =
     (let (r, fs) = list_docs (fs_faults f) (fs_jobs f) in
      (and_then r (\<lambda>js. Inr (sort_jobs js)), f\<lparr>fs_faults := fs\<rparr>))"

definition file_delete_job :: "file_store \<Rightarrow> string \<Rightarrow> (store_err, unit) res \<times> file_store" where
  "file_delete_job f i =
     (let (bad, fs) = next_fault (fs_faults f); f' = f\<lparr>fs_faults := fs\<rparr> in
      if map_of (fs_jobs f) (doc_name i) = None then (Inr (), f')
      else if bad \<or> map_of (fs_jobs f) (doc_name i) = Some Subdir then (Inl Io_Error, f')
      else (Inr (), f'\<lparr>fs_jobs := AList.delete (doc_name i) (fs_jobs f)\<rparr>))"

definition file_put_result ::
    "file_store \<Rightarrow> jobresult \<Rightarrow> (store_err, unit) res \<times> file_store" where
  "file_put_result f r =
     (let (e, fs, t) = put_doc (fs_faults f) (doc_name (res_id r)) (json_result r) (fs_results f);
          f' = f\<lparr>fs_results := t, fs_faults := fs\<rparr> in
      case e of
        Inl err \<Rightarrow> (Inl err, f')
      | Inr _ \<Rightarrow>
          if res_error r = [] then (Inr (), f')
          else
            let (e', fs', t') = put_doc fs (doc_name (res_id r)) (json_result r) (fs_dlq f) in
            (e', f'\<lparr>fs_dlq := t', fs_faults := fs'\<rparr>))"

definition file_get_result ::
    "file_store \<Rightarrow> string \<Rightarrow> (store_err, jobresult) res \<times> file_store" where
  "file_get_result f i =
     (let (bad, fs) = next_fault (fs_faults f); f' = f\<lparr>fs_faults := fs\<rparr> in
      if bad then (Inl Io_Error, f')
      else
        case map_of (fs_results f) (doc_name i) of
          None \<Rightarrow> (Inl Not_Found, f')
        | Some (Doc r) \<Rightarrow> (Inr r, f')
        | Some _ \<Rightarrow> (Inl Io_Error, f'))"

definition file_list_results ::
    "file_store \<Rightarrow> (store_err, jobresult list) res \<times> file_store" where
  "file_list_results f =
     (let (r, fs) = list_docs (fs_faults f) (fs_results f) in (r, f\<lparr>fs_faults := fs\<rparr>))"

definition file_append_commit ::
    "time \<Rightarrow> file_store \<Rightarrow> job \<Rightarrow> jobresult \<Rightarrow> (store_err, unit) res \<times> file_store" where
  "file_append_commit now f j r =
     (let (bad, fs) = next_fault (fs_faults f); f' = f\<lparr>fs_faults := fs\<rparr> in
      if bad then (Inl Io_Error, f')
      else (Inr (), f'\<lparr>fs_journal := fs_journal f @ [(now, json_job j, json_result r)]\<rparr>))"

section \<open>The SQLite driver\<close>

text \<open>A row has the columns of \<open>sqliteSchema\<close>; times are text.\<close>

record job_row =
  row_args :: "string list"
  row_priority :: int
  row_created :: string
  row_timeout :: int

record result_row =
  row_output :: string
  row_exit :: int
  row_success :: int
  row_error :: string
  row_version :: string
  row_queued :: string
  row_started :: string
  row_finished :: string
  row_batch :: int
  row_wait_ms :: int

record sqlite_store =
  db_jobs :: "(string, job_row) table"
  db_results :: "(string, result_row) table"
  db_journal :: "(string \<times> job \<times> jobresult \<times> string) list"
  db_faults :: "bool list"

definition bool_int :: "bool \<Rightarrow> int" where
  "bool_int b = (if b then 1 else 0)"

definition to_job_row :: "job \<Rightarrow> job_row" where
  "to_job_row j = \<lparr>row_args = map json_str (job_args j), row_priority = job_priority j,
     row_created = format_time (job_created j), row_timeout = job_timeout j\<rparr>"

definition of_job_row :: "string \<Rightarrow> job_row \<Rightarrow> job" where
  "of_job_row i w = \<lparr>job_id = i, job_args = row_args w, job_timeout = row_timeout w,
     job_priority = row_priority w, job_created = parse_time (row_created w)\<rparr>"

definition to_result_row :: "jobresult \<Rightarrow> result_row" where
  "to_result_row r = \<lparr>row_output = res_output r, row_exit = res_exit r,
     row_success = bool_int (res_success r), row_error = res_error r,
     row_version = res_version r, row_queued = format_time (res_queued r),
     row_started = format_time (res_started r), row_finished = format_time (res_finished r),
     row_batch = res_batch r, row_wait_ms = res_wait_ms r\<rparr>"

definition scan_result :: "string \<Rightarrow> result_row \<Rightarrow> jobresult" where
  "scan_result i w = \<lparr>res_id = i, res_output = row_output w, res_exit = row_exit w,
     res_success = (row_success w \<noteq> 0), res_error = row_error w, res_version = row_version w,
     res_queued = parse_time (row_queued w), res_started = parse_time (row_started w),
     res_finished = parse_time (row_finished w), res_batch = row_batch w,
     res_wait_ms = row_wait_ms w\<rparr>"

text \<open>\<open>ORDER BY priority DESC, created_at ASC\<close>; \<open>created_at\<close> is compared as text.\<close>

definition row_before :: "string \<times> job_row \<Rightarrow> string \<times> job_row \<Rightarrow> bool" where
  "row_before a b =
     (if row_priority (snd a) \<noteq> row_priority (snd b)
      then row_priority (snd b) < row_priority (snd a)
      else row_created (snd a) < row_created (snd b))"

definition sqlite_put_job ::
    "sqlite_store \<Rightarrow> job \<Rightarrow> (store_err, unit) res \<times> sqlite_store" where
  "sqlite_put_job d j =
     (let (bad, fs) = next_fault (db_faults d); d' = d\<lparr>db_faults := fs\<rparr> in
      if bad then (Inl Io_Error, d')
      else (Inr (), d'\<lparr>db_jobs := AList.update (job_id j) (to_job_row j) (db_jobs d)\<rparr>))"

definition sqlite_list_jobs :: "sqlite_store \<Rightarrow> (store_err, job list) res \<times> sqlite_store" where
  "sqlite_list_jobs d =
     (let (bad, fs) = next_fault (db_faults d); d' = d\<lparr>db_faults := fs\<rparr> in
      if bad then (Inl Io_Error, d')
      else (Inr (map (\<lambda>(i, w). of_job_row i w) (sort_slice row_before (db_jobs d))), d'))"

definition sqlite_delete_job ::
    "sqlite_store \<Rightarrow> string \<Rightarrow> (store_err, unit) res \<times> sqlite_store" where
  "sqlite_delete_job d i =
     (let (bad, fs) = next_fault (db_faults d); d' = d\<lparr>db_faults := fs\<rparr> in
      if bad then (Inl Io_Error, d')
      else (Inr (), d'\<lparr>db_jobs := AList.delete i (db_jobs d)\<rparr>))"

definition sqlite_put_result ::
    "sqlite_store \<Rightarrow> jobresult \<Rightarrow> (store_err, unit) res \<times> sqlite_store" where
  "sqlite_put_result d r =
     (let (bad, fs) = next_fault (db_faults d); d' = d\<lparr>db_faults := fs\<rparr> in
      if bad then (Inl Io_Error, d')
      else (Inr (), d'\<lparr>db_results := AList.update (res_id r) (to_result_row r) (db_results d)\<rparr>))"

definition sqlite_get_result ::
    "sqlite_store \<Rightarrow> string \<Rightarrow> (store_err, jobresult) res \<times> sqlite_store" where
  "sqlite_get_result d i =
     (let (bad, fs) = next_fault (db_faults d); d' = d\<lparr>db_faults := fs\<rparr> in
      if bad then (Inl Io_Error, d')
      else
        case map_of (db_results d) i of
          None \<Rightarrow> (Inl Not_Found, d')
        | Some w \<Rightarrow> (Inr (scan_result i w), d'))"

definition sqlite_list_results ::
    "sqlite_store \<Rightarrow> (store_err, jobresult list) res \<times> sqlite_store" where
  "sqlite_list_results d =
     (let (bad, fs) = next_fault (db_faults d); d' = d\<lparr>db_faults := fs\<rparr> in
      if bad then (Inl Io_Error, d')
      else (Inr (map (\<lambda>(i, w). scan_result i w) (db_results d)), d'))"

definition sqlite_append_commit ::
    "time \<Rightarrow> sqlite_store \<Rightarrow> job \<Rightarrow> jobresult \<Rightarrow> (store_err, unit) res \<times> sqlite_store" where
  "sqlite_append_commit now d j r =
     (let (bad, fs) = next_fault (db_faults d); d' = d\<lparr>db_faults := fs\<rparr> in
      if bad then (Inl Io_Error, d')
      else (Inr (), d'\<lparr>db_journal :=
              db_journal d @ [(res_id r, json_job j, json_result r, format_time now)]\<rparr>))"

section \<open>The mirror driver\<close>

record mirror_store =
  mir_file :: file_store
  mir_sqlite :: sqlite_store
  mir_torn :: "string list"

text \<open>Runs an operation of one of the two drivers.\<close>

definition on_file ::
    "(file_store \<Rightarrow> (store_err, 'a) res \<times> file_store) \<Rightarrow> mirror_store
     \<Rightarrow> (store_err, 'a) res \<times> mirror_store" where
  "on_file g m = (let (r, f) = g (mir_file m) in (r, m\<lparr>mir_file := f\<rparr>))"

definition on_sqlite ::
    "(sqlite_store \<Rightarrow> (store_err, 'a) res \<times> sqlite_store) \<Rightarrow> mirror_store
     \<Rightarrow> (store_err, 'a) res \<times> mirror_store" where
  "on_sqlite g m = (let (r, d) = g (mir_sqlite m) in (r, m\<lparr>mir_sqlite := d\<rparr>))"

definition mirror_put_job ::
    "mirror_store \<Rightarrow> job \<Rightarrow> (store_err, unit) res \<times> mirror_store" where
  "mirror_put_job m j =
     next_do (on_file (\<lambda>f. file_put_job f j) m) (\<lambda>_. on_sqlite (\<lambda>d. sqlite_put_job d j))"

definition mirror_list_jobs :: "mirror_store \<Rightarrow> (store_err, job list) res \<times> mirror_store" where
  "mirror_list_jobs m = on_file file_list_jobs m"

text \<open>Both deletes run; the error of the file driver wins.\<close>

definition mirror_delete_job ::
    "mirror_store \<Rightarrow> string \<Rightarrow> (store_err, unit) res \<times> mirror_store" where
  "mirror_delete_job m i =
     (let (rf, m1) = on_file (\<lambda>f. file_delete_job f i) m;
          (rs, m2) = on_sqlite (\<lambda>d. sqlite_delete_job d i) m1 in
      case rf of Inl e \<Rightarrow> (Inl e, m2) | Inr _ \<Rightarrow> (rs, m2))"

definition mirror_put_result ::
    "mirror_store \<Rightarrow> jobresult \<Rightarrow> (store_err, unit) res \<times> mirror_store" where
  "mirror_put_result m r =
     next_do (on_file (\<lambda>f. file_put_result f r) m) (\<lambda>_. on_sqlite (\<lambda>d. sqlite_put_result d r))"

definition mirror_get_result ::
    "mirror_store \<Rightarrow> string \<Rightarrow> (store_err, jobresult) res \<times> mirror_store" where
  "mirror_get_result m i =
     (let (r, m1) = on_file (\<lambda>f. file_get_result f i) m in
      if r = Inl Not_Found then on_sqlite (\<lambda>d. sqlite_get_result d i) m1 else (r, m1))"

definition mirror_list_results ::
    "mirror_store \<Rightarrow> (store_err, jobresult list) res \<times> mirror_store" where
  "mirror_list_results m = on_file file_list_results m"

definition mirror_append_commit ::
    "time \<Rightarrow> mirror_store \<Rightarrow> job \<Rightarrow> jobresult \<Rightarrow> (store_err, unit) res \<times> mirror_store" where
  "mirror_append_commit now m j r =
     next_do (on_file (\<lambda>f. file_append_commit now f j r) m)
       (\<lambda>_. on_sqlite (\<lambda>d. sqlite_append_commit now d j r))"

section \<open>Reconcile\<close>

definition results_differ :: "jobresult \<Rightarrow> jobresult \<Rightarrow> bool" where
  "results_differ a b \<longleftrightarrow> res_output a \<noteq> res_output b \<or> res_exit a \<noteq> res_exit b
     \<or> res_success a \<noteq> res_success b \<or> res_error a \<noteq> res_error b \<or> res_version a \<noteq> res_version b"

text \<open>The map from ids the code builds of a listing; the last entry of an id stays.\<close>

definition by_id :: "('a \<Rightarrow> string) \<Rightarrow> 'a list \<Rightarrow> (string, 'a) table" where
  "by_id key xs = fold (\<lambda>x. AList.update (key x) x) xs []"

text \<open>Writes the records the other side lacks, up to the first error. Go leaves the order of a map
  iteration open; here it is that of the listing.\<close>

fun replay ::
    "('s \<Rightarrow> 'a \<Rightarrow> (store_err, unit) res \<times> 's) \<Rightarrow> (string, 'a) table \<Rightarrow> (string, 'a) table \<Rightarrow> 's
     \<Rightarrow> (store_err, unit) res \<times> 's" where
  "replay put [] other s = (Inr (), s)"
| "replay put ((i, x) # xs) other s =
     (if map_of other i \<noteq> None then replay put xs other s
      else
        case put s x of
          (Inl e, s') \<Rightarrow> (Inl e, s')
        | (Inr _, s') \<Rightarrow> replay put xs other s')"

definition torn_ids :: "(string, jobresult) table \<Rightarrow> (string, jobresult) table \<Rightarrow> string list" where
  "torn_ids fr sr =
     map fst (filter (\<lambda>(i, r). case map_of sr i of None \<Rightarrow> False | Some q \<Rightarrow> results_differ r q) fr)"

definition reconcile_jobs :: "mirror_store \<Rightarrow> (store_err, unit) res \<times> mirror_store" where
  "reconcile_jobs m =
     next_do (on_file file_list_jobs m) (\<lambda>fjobs m1.
     next_do (on_sqlite sqlite_list_jobs m1) (\<lambda>sjobs m2.
       let fm = by_id job_id fjobs; sm = by_id job_id sjobs in
       next_do (on_sqlite (replay sqlite_put_job fm sm) m2) (\<lambda>_.
       on_file (replay file_put_job sm fm))))"

definition reconcile_results :: "mirror_store \<Rightarrow> (store_err, string list) res \<times> mirror_store" where
  "reconcile_results m =
     next_do (on_file file_list_results m) (\<lambda>fres m1.
     next_do (on_sqlite sqlite_list_results m1) (\<lambda>sres m2.
       let fm = by_id res_id fres; sm = by_id res_id sres in
       next_do (on_sqlite (replay sqlite_put_result fm sm) m2) (\<lambda>_ m3.
       next_do (on_file (replay file_put_result sm fm) m3) (\<lambda>_ m4.
         let torn = sort (torn_ids fm sm) in (Inr torn, m4\<lparr>mir_torn := torn\<rparr>)))))"

definition reconcile :: "mirror_store \<Rightarrow> (store_err, string list) res \<times> mirror_store" where
  "reconcile m = next_do (reconcile_jobs m) (\<lambda>_. reconcile_results)"

section \<open>The Store interface\<close>

record 's store_ops =
  put_job :: "'s \<Rightarrow> job \<Rightarrow> (store_err, unit) res \<times> 's"
  list_jobs :: "'s \<Rightarrow> (store_err, job list) res \<times> 's"
  delete_job :: "'s \<Rightarrow> string \<Rightarrow> (store_err, unit) res \<times> 's"
  put_result :: "'s \<Rightarrow> jobresult \<Rightarrow> (store_err, unit) res \<times> 's"
  get_result :: "'s \<Rightarrow> string \<Rightarrow> (store_err, jobresult) res \<times> 's"
  list_results :: "'s \<Rightarrow> (store_err, jobresult list) res \<times> 's"
  append_commit :: "time \<Rightarrow> 's \<Rightarrow> job \<Rightarrow> jobresult \<Rightarrow> (store_err, unit) res \<times> 's"
  store_name :: string

definition file_ops :: "file_store store_ops" where
  "file_ops = \<lparr>put_job = file_put_job, list_jobs = file_list_jobs, delete_job = file_delete_job,
     put_result = file_put_result, get_result = file_get_result,
     list_results = file_list_results, append_commit = file_append_commit,
     store_name = ''file''\<rparr>"

definition sqlite_ops :: "sqlite_store store_ops" where
  "sqlite_ops = \<lparr>put_job = sqlite_put_job, list_jobs = sqlite_list_jobs,
     delete_job = sqlite_delete_job, put_result = sqlite_put_result,
     get_result = sqlite_get_result, list_results = sqlite_list_results,
     append_commit = sqlite_append_commit, store_name = ''sqlite''\<rparr>"

definition mirror_ops :: "mirror_store store_ops" where
  "mirror_ops = \<lparr>put_job = mirror_put_job, list_jobs = mirror_list_jobs,
     delete_job = mirror_delete_job, put_result = mirror_put_result,
     get_result = mirror_get_result, list_results = mirror_list_results,
     append_commit = mirror_append_commit, store_name = ''file+sqlite''\<rparr>"

section \<open>What every driver promises\<close>

text \<open>
  \<open>stored s i\<close> is the job a driver would list under an id, \<open>answer s i\<close> the result it
  would return. A write that reports success has taken effect; one that reports an error has
  either taken effect or left the view alone; nothing else in the view moves. \<open>quiet\<close> means
  that no fault is left in the script, \<open>sound\<close> that the records carry the ids of their
  names, \<open>clean\<close> is the condition on ids under which writes keep it.
\<close>

locale job_store =
  fixes ops :: "'s store_ops"
    and stored :: "'s \<Rightarrow> string \<Rightarrow> job option"
    and answer :: "'s \<Rightarrow> string \<Rightarrow> jobresult option"
    and keep_job :: "job \<Rightarrow> job"
    and keep_result :: "jobresult \<Rightarrow> jobresult"
    and sound :: "'s \<Rightarrow> bool"
    and quiet :: "'s \<Rightarrow> bool"
    and clean :: "string \<Rightarrow> bool"
  assumes put_job_Inr: "put_job ops s j = (Inr u, s') \<Longrightarrow>
        stored s' = (stored s)(job_id j \<mapsto> keep_job j) \<and> answer s' = answer s"
    and put_job_Inl: "put_job ops s j = (Inl e, s') \<Longrightarrow>
        stored s' \<in> {stored s, (stored s)(job_id j \<mapsto> keep_job j)} \<and> answer s' = answer s"
    and put_job_sound: "put_job ops s j = (r, s') \<Longrightarrow> sound s \<Longrightarrow> clean (job_id j) \<Longrightarrow> sound s'"
    and delete_Inr: "delete_job ops s i = (Inr u, s') \<Longrightarrow>
        stored s' = (stored s)(i := None) \<and> answer s' = answer s"
    and delete_Inl: "delete_job ops s i = (Inl e, s') \<Longrightarrow>
        stored s' \<in> {stored s, (stored s)(i := None)} \<and> answer s' = answer s"
    and delete_sound: "delete_job ops s i = (r, s') \<Longrightarrow> sound s \<Longrightarrow> sound s'"
    and put_result_Inr: "put_result ops s q = (Inr u, s') \<Longrightarrow>
        answer s' = (answer s)(res_id q \<mapsto> keep_result q) \<and> stored s' = stored s"
    and put_result_Inl: "put_result ops s q = (Inl e, s') \<Longrightarrow>
        answer s' \<in> {answer s, (answer s)(res_id q \<mapsto> keep_result q)} \<and> stored s' = stored s"
    and put_result_sound: "put_result ops s q = (r, s') \<Longrightarrow> sound s \<Longrightarrow> clean (res_id q) \<Longrightarrow> sound s'"
    and append_commit_view: "append_commit ops now s j q = (r, s') \<Longrightarrow>
        stored s' = stored s \<and> answer s' = answer s \<and> sound s' = sound s"
    and get_result_view: "get_result ops s i = (qr, s') \<Longrightarrow>
        stored s' = stored s \<and> answer s' = answer s \<and> sound s' = sound s"
    and get_result_Inr: "get_result ops s i = (Inr q, s') \<Longrightarrow> answer s i = Some q"
    and get_result_missing: "get_result ops s i = (Inl Not_Found, s') \<Longrightarrow> answer s i = None"
    and list_jobs_view: "list_jobs ops s = (jr, s') \<Longrightarrow>
        stored s' = stored s \<and> answer s' = answer s \<and> sound s' = sound s"
    and list_jobs_Inr: "list_jobs ops s = (Inr js, s') \<Longrightarrow> sound s \<Longrightarrow>
        distinct (map job_id js) \<and> (\<forall>j \<in> set js. stored s (job_id j) = Some j \<and> clean (job_id j))"
    and list_jobs_quiet: "quiet s \<Longrightarrow> sound s \<Longrightarrow>
        \<exists>js. list_jobs ops s = (Inr js, s) \<and> (\<forall>i j. stored s i = Some j \<longrightarrow> job_id j = i \<and> j \<in> set js)"
    and put_job_quiet: "quiet s \<Longrightarrow> sound s \<Longrightarrow> clean (job_id j) \<Longrightarrow>
        \<exists>s'. put_job ops s j = (Inr (), s') \<and> quiet s'"
    and delete_quiet: "quiet s \<Longrightarrow> sound s \<Longrightarrow> \<exists>s'. delete_job ops s i = (Inr (), s') \<and> quiet s'"
    and put_result_quiet: "quiet s \<Longrightarrow> sound s \<Longrightarrow> clean (res_id q) \<Longrightarrow>
        \<exists>s'. put_result ops s q = (Inr (), s') \<and> quiet s'"
    and append_commit_quiet: "quiet s \<Longrightarrow> \<exists>s'. append_commit ops now s j q = (Inr (), s') \<and> quiet s'"
begin

lemma list_jobs_quiet_ids:
  assumes "quiet s" "sound s"
  obtains js where "list_jobs ops s = (Inr js, s)" "distinct (map job_id js)"
    "job_id ` set js = dom (stored s)"
proof -
  from list_jobs_quiet [OF assms] obtain js where js: "list_jobs ops s = (Inr js, s)"
    and all: "\<forall>i j. stored s i = Some j \<longrightarrow> job_id j = i \<and> j \<in> set js" by blast
  from list_jobs_Inr [OF js assms(2)] have dist: "distinct (map job_id js)"
    and st: "\<forall>j \<in> set js. stored s (job_id j) = Some j" by auto
  have "job_id ` set js = dom (stored s)"
  proof (intro set_eqI iffI)
    fix i
    assume "i \<in> dom (stored s)"
    then show "i \<in> job_id ` set js" using all by (metis domD imageI)
  qed (use st in auto)
  then show thesis by (rule that [OF js dist])
qed

lemma get_after_put:
  assumes "put_result ops s q = (Inr u, s')" "get_result ops s' (res_id q) = (Inr r, t)"
  shows "r = keep_result q"
  using put_result_Inr [OF assms(1)] get_result_Inr [OF assms(2)] by simp

lemma put_result_answered: "put_result ops s q = (r, s') \<Longrightarrow> dom (answer s) \<subseteq> dom (answer s')"
  using put_result_Inr [of s q _ s'] put_result_Inl [of s q _ s'] by (cases r) fastforce+

end

section \<open>The file driver keeps the contract\<close>

definition doc_at :: "(string, 'a dirent) table \<Rightarrow> string \<Rightarrow> 'a option" where
  "doc_at t i = (case map_of t (doc_name i) of Some (Doc x) \<Rightarrow> Some x | _ \<Rightarrow> None)"

definition docs_sound :: "('a \<Rightarrow> string) \<Rightarrow> (string, 'a dirent) table \<Rightarrow> bool" where
  "docs_sound key t \<longleftrightarrow> table_ok t \<and> (\<forall>(n, e) \<in> set t. case e of Subdir \<Rightarrow> False | Garbage \<Rightarrow> True
     | Doc x \<Rightarrow> n = doc_name (key x) \<and> json_str (key x) = key x \<and> listable n)"

definition clean_id :: "string \<Rightarrow> bool" where
  "clean_id i \<longleftrightarrow> json_str i = i \<and> \<not> has_prefix (doc_name i) ''.tmp-''"

definition file_sound :: "file_store \<Rightarrow> bool" where
  "file_sound f \<longleftrightarrow> docs_sound job_id (fs_jobs f) \<and> docs_sound res_id (fs_results f)
     \<and> docs_sound res_id (fs_dlq f)"

lemma listable_clean: "clean_id i \<Longrightarrow> listable (doc_name i)"
  by (simp add: clean_id_def listable_def doc_name_def)

lemma clean_listable: "listable (doc_name i) \<Longrightarrow> json_str i = i \<Longrightarrow> clean_id i"
  by (simp add: clean_id_def listable_def)

lemma docs_sound_no_subdir: "docs_sound key t \<Longrightarrow> map_of t n \<noteq> Some Subdir"
  by (fastforce simp: docs_sound_def dest: map_of_SomeD)

lemma docs_sound_Doc:
  "docs_sound key t \<Longrightarrow> (n, Doc x) \<in> set t \<Longrightarrow> n = doc_name (key x) \<and> clean_id (key x)"
  by (auto simp: docs_sound_def dest!: bspec intro: clean_listable)

lemma docs_sound_update:
  "docs_sound key t \<Longrightarrow> clean_id (key x) \<Longrightarrow> docs_sound key (AList.update (doc_name (key x)) (Doc x) t)"
  unfolding docs_sound_def
  by (auto simp: table_ok_update listable_clean clean_id_def dest!: set_update)

lemma docs_sound_delete: "docs_sound key t \<Longrightarrow> docs_sound key (AList.delete n t)"
  unfolding docs_sound_def by (auto intro: table_ok_delete) (auto simp: AList.delete_eq)

lemma put_doc_Inr: "put_doc fs n x t = (Inr u, fs', t') \<Longrightarrow> t' = AList.update n (Doc x) t"
  by (auto simp: put_doc_def Let_def split: prod.splits if_splits)

lemma put_doc_Inl: "put_doc fs n x t = (Inl e, fs', t') \<Longrightarrow> t' = t"
  by (auto simp: put_doc_def Let_def split: prod.splits if_splits)

lemma put_doc_quiet:
  "map_of t n \<noteq> Some Subdir \<Longrightarrow> put_doc [] n x t = (Inr (), [], AList.update n (Doc x) t)"
  by (simp add: put_doc_def)

lemma put_doc_sound:
  "put_doc fs (doc_name (key x)) x t = (r, fs', t') \<Longrightarrow> docs_sound key t \<Longrightarrow> clean_id (key x)
    \<Longrightarrow> docs_sound key t'"
  by (cases r) (auto dest: put_doc_Inr put_doc_Inl simp: docs_sound_update)

lemma doc_at_update: "doc_at (AList.update (doc_name i) (Doc x) t) = (doc_at t)(i \<mapsto> x)"
  by (auto simp: doc_at_def fun_eq_iff)

lemma doc_at_delete: "doc_at (AList.delete (doc_name i) t) = (doc_at t)(i := None)"
  by (auto simp: doc_at_def fun_eq_iff)

lemma doc_at_member: "docs_sound key t \<Longrightarrow> doc_at t i = Some x \<longleftrightarrow> (doc_name i, Doc x) \<in> set t"
  by (auto simp: doc_at_def docs_sound_def table_ok_map_of split: option.splits dirent.splits)

lemma fst_read_docs:
  "fst (read_docs fs ((n, e) # es)) =
     (if e = Subdir \<or> \<not> listable n then fst (read_docs fs es)
      else (case e of Doc x \<Rightarrow> if fst (next_fault fs) then [] else [x] | _ \<Rightarrow> [])
        @ fst (read_docs (snd (next_fault fs)) es))"
  by (cases e) (simp_all add: Let_def split_def)

declare read_docs.simps(2) [simp del]

lemma read_docs_subset: "x \<in> set (fst (read_docs fs es)) \<Longrightarrow> \<exists>n. (n, Doc x) \<in> set es"
proof (induction es arbitrary: fs)
  case (Cons ne es)
  obtain n e where ne: "ne = (n, e)" by (cases ne)
  have "e = Doc x \<or> (\<exists>r. x \<in> set (fst (read_docs r es)))"
    using Cons.prems unfolding ne fst_read_docs by (auto split: if_splits dirent.splits)
  then show ?case using Cons.IH ne by auto
qed simp

lemma read_docs_distinct:
  assumes "distinct (map fst es)" and "\<forall>n x. (n, Doc x) \<in> set es \<longrightarrow> n = doc_name (key x)"
  shows "distinct (map key (fst (read_docs fs es)))"
  using assms
proof (induction es arbitrary: fs)
  case (Cons ne es)
  obtain n e where ne: "ne = (n, e)" by (cases ne)
  have IH: "distinct (map key (fst (read_docs r es)))" for r using Cons by simp
  have "key x \<notin> key ` set (fst (read_docs r es))" if "e = Doc x" for x r
  proof
    assume "key x \<in> key ` set (fst (read_docs r es))"
    then obtain y where y: "y \<in> set (fst (read_docs r es))" "key y = key x" by auto
    then obtain m where m: "(m, Doc y) \<in> set es" using read_docs_subset [OF y(1)] by blast
    then have "m = doc_name (key y)" "n = doc_name (key x)" using Cons.prems(2) ne that by auto
    with m y(2) Cons.prems(1) ne show False by (force simp: image_iff)
  qed
  with IH show ?case unfolding ne fst_read_docs by (auto split: dirent.splits)
qed simp

lemma read_docs_healthy: "snd (read_docs [] es) = []"
proof (induction es)
  case (Cons ne es)
  then show ?case
    by (cases ne; cases "snd ne") (auto simp: read_docs.simps split: prod.splits if_splits)
qed simp

lemma read_docs_quiet:
  "\<forall>n x. (n, Doc x) \<in> set es \<longrightarrow> listable n \<Longrightarrow> (n, Doc x) \<in> set es
    \<Longrightarrow> x \<in> set (fst (read_docs [] es))"
proof (induction es)
  case (Cons ne es)
  obtain m e where ne: "ne = (m, e)" by (cases ne)
  show ?case
  proof (cases "(n, Doc x) = ne")
    case True
    with ne Cons.prems(1) show ?thesis by (auto simp: fst_read_docs)
  next
    case False
    then have "(n, Doc x) \<in> set es" using Cons.prems(2) by simp
    moreover have "\<forall>n x. (n, Doc x) \<in> set es \<longrightarrow> listable n" using Cons.prems(1) by auto
    ultimately have "x \<in> set (fst (read_docs [] es))" using Cons.IH by blast
    then show ?thesis unfolding ne fst_read_docs by simp
  qed
qed simp

lemma list_docs_view:
  assumes "list_docs fs t = (Inr xs, fs')" "docs_sound key t"
  shows "distinct (map key xs) \<and> (\<forall>x \<in> set xs. doc_at t (key x) = Some x \<and> clean_id (key x))"
proof -
  obtain r where rd: "xs = fst (read_docs r (sort_key fst t))"
    using assms(1) by (auto simp: list_docs_def Let_def split: prod.splits if_splits) (metis fst_conv)
  have named: "(n, Doc x) \<in> set t \<Longrightarrow> n = doc_name (key x) \<and> clean_id (key x)" for n x
    using docs_sound_Doc [OF assms(2)] by blast
  have "distinct (map fst (sort_key fst t))"
    using assms(2) by (simp add: docs_sound_def table_ok_def distinct_map)
  then have "distinct (map key xs)" unfolding rd using named by (intro read_docs_distinct) auto
  moreover have "doc_at t (key x) = Some x \<and> clean_id (key x)" if x: "x \<in> set xs" for x
  proof -
    obtain n where "(n, Doc x) \<in> set t"
      using read_docs_subset [of x r "sort_key fst t"] rd x by auto
    with named show ?thesis using doc_at_member [OF assms(2)] by fastforce
  qed
  ultimately show ?thesis by blast
qed

lemma list_docs_quiet:
  assumes "docs_sound key t"
  shows "\<exists>xs. list_docs [] t = (Inr xs, []) \<and> (\<forall>i x. doc_at t i = Some x \<longrightarrow> key x = i \<and> x \<in> set xs)"
proof -
  let ?es = "sort_key fst t"
  have named: "(n, Doc x) \<in> set t \<Longrightarrow> n = doc_name (key x) \<and> clean_id (key x)" for n x
    using docs_sound_Doc [OF assms] by blast
  have "\<forall>n x. (n, Doc x) \<in> set ?es \<longrightarrow> listable n"
    using named by (auto dest: listable_clean)
  then have "(n, Doc x) \<in> set t \<Longrightarrow> x \<in> set (fst (read_docs [] ?es))" for n x
    by (rule read_docs_quiet) simp
  moreover have "list_docs [] t = (Inr (fst (read_docs [] ?es)), [])"
    using read_docs_healthy [of ?es] by (simp add: list_docs_def split_def)
  ultimately show ?thesis using doc_at_member [OF assms] named by fastforce
qed

definition file_stored :: "file_store \<Rightarrow> string \<Rightarrow> job option" where
  "file_stored f = doc_at (fs_jobs f)"

definition file_answer :: "file_store \<Rightarrow> string \<Rightarrow> jobresult option" where
  "file_answer f = doc_at (fs_results f)"

definition file_quiet :: "file_store \<Rightarrow> bool" where
  "file_quiet f \<longleftrightarrow> fs_faults f = []"

lemmas file_view_defs = file_stored_def file_answer_def file_quiet_def file_sound_def

lemma file_put_job_cases:
  "file_put_job f j = (r, f') \<Longrightarrow>
    (r = Inr () \<and> fs_jobs f' = AList.update (doc_name (job_id j)) (Doc (json_job j)) (fs_jobs f)
     \<or> (\<exists>e. r = Inl e) \<and> fs_jobs f' = fs_jobs f)
    \<and> fs_results f' = fs_results f \<and> fs_dlq f' = fs_dlq f"
  by (cases r)
    (auto simp: file_put_job_def Let_def split: prod.splits dest: put_doc_Inr put_doc_Inl)

lemma file_delete_cases:
  "file_delete_job f i = (r, f') \<Longrightarrow>
    (fs_jobs f' = AList.delete (doc_name i) (fs_jobs f) \<or> (\<exists>e. r = Inl e) \<and> fs_jobs f' = fs_jobs f)
    \<and> fs_results f' = fs_results f \<and> fs_dlq f' = fs_dlq f"
  by (auto simp: file_delete_job_def Let_def delete_absent split: prod.splits if_splits)

lemma file_put_result_cases:
  "file_put_result f q = (r, f') \<Longrightarrow>
    (fs_results f' = AList.update (doc_name (res_id q)) (Doc (json_result q)) (fs_results f)
     \<or> (\<exists>e. r = Inl e) \<and> fs_results f' = fs_results f)
    \<and> (fs_dlq f' = AList.update (doc_name (res_id q)) (Doc (json_result q)) (fs_dlq f)
       \<or> fs_dlq f' = fs_dlq f)
    \<and> fs_jobs f' = fs_jobs f"
  by (auto simp: file_put_result_def Let_def split: prod.splits sum.splits if_splits
      dest: put_doc_Inr put_doc_Inl)
    (metis Inl_Inr_False obj_sumE put_doc_Inl put_doc_Inr)+

lemma file_append_cases:
  "file_append_commit now f j q = (r, f') \<Longrightarrow> fs_jobs f' = fs_jobs f \<and> fs_results f' = fs_results f
    \<and> fs_dlq f' = fs_dlq f"
  by (auto simp: file_append_commit_def Let_def split: prod.splits if_splits)

lemma file_get_cases:
  "file_get_result f i = (r, f') \<Longrightarrow> fs_jobs f' = fs_jobs f \<and> fs_results f' = fs_results f
    \<and> fs_dlq f' = fs_dlq f"
  by (auto simp: file_get_result_def Let_def split: prod.splits if_splits option.splits dirent.splits)

lemma file_list_jobs_cases:
  "file_list_jobs f = (r, f') \<Longrightarrow> fs_jobs f' = fs_jobs f \<and> fs_results f' = fs_results f
    \<and> fs_dlq f' = fs_dlq f"
  by (auto simp: file_list_jobs_def Let_def split: prod.splits)

lemma file_list_jobs_docs:
  "file_list_jobs f = (Inr js, f') \<Longrightarrow>
    \<exists>xs fs'. list_docs (fs_faults f) (fs_jobs f) = (Inr xs, fs') \<and> js = sort_jobs xs"
  by (auto simp: file_list_jobs_def Let_def and_then_Inr split: prod.splits)

lemma set_sort_jobs [simp]: "set (sort_jobs js) = set js"
  by (simp add: sort_jobs_def)

lemma length_sort_jobs [simp]: "length (sort_jobs js) = length js"
  by (simp add: sort_jobs_def)

lemma distinct_map_perm:
  "length xs = length ys \<Longrightarrow> set xs = set ys \<Longrightarrow> distinct (map f ys) \<Longrightarrow> distinct (map f xs)"
  by (metis card_distinct distinct_card length_map list.set_map)

lemma json_job_id [simp]: "clean_id (job_id j) \<Longrightarrow> job_id (json_job j) = job_id j"
  by (simp add: json_job_def clean_id_def)

lemma json_result_id [simp]: "clean_id (res_id q) \<Longrightarrow> res_id (json_result q) = res_id q"
  by (simp add: json_result_def clean_id_def)

lemma file_put_job_sound:
  "file_put_job f j = (r, f') \<Longrightarrow> file_sound f \<Longrightarrow> clean_id (job_id j) \<Longrightarrow> file_sound f'"
  using docs_sound_update [of job_id "fs_jobs f" "json_job j"]
  by (auto simp: file_sound_def dest!: file_put_job_cases)

lemma file_put_result_sound:
  "file_put_result f q = (r, f') \<Longrightarrow> file_sound f \<Longrightarrow> clean_id (res_id q) \<Longrightarrow> file_sound f'"
  using docs_sound_update [of res_id "fs_results f" "json_result q"]
    docs_sound_update [of res_id "fs_dlq f" "json_result q"]
  by (auto simp: file_sound_def dest!: file_put_result_cases)

lemma file_delete_sound: "file_delete_job f i = (r, f') \<Longrightarrow> file_sound f \<Longrightarrow> file_sound f'"
  by (auto simp: file_sound_def dest!: file_delete_cases intro: docs_sound_delete)

lemma file_put_job_view:
  "file_put_job f j = (r, f') \<Longrightarrow>
    (file_stored f' = (file_stored f)(job_id j \<mapsto> json_job j)
     \<or> (\<exists>e. r = Inl e) \<and> file_stored f' = file_stored f) \<and> file_answer f' = file_answer f"
  by (auto dest!: file_put_job_cases simp: file_view_defs doc_at_update)

lemma file_delete_view:
  "file_delete_job f i = (r, f') \<Longrightarrow>
    (file_stored f' = (file_stored f)(i := None)
     \<or> (\<exists>e. r = Inl e) \<and> file_stored f' = file_stored f) \<and> file_answer f' = file_answer f"
  by (auto dest!: file_delete_cases simp: file_view_defs doc_at_delete)

lemma file_put_result_view:
  "file_put_result f q = (r, f') \<Longrightarrow>
    (file_answer f' = (file_answer f)(res_id q \<mapsto> json_result q)
     \<or> (\<exists>e. r = Inl e) \<and> file_answer f' = file_answer f) \<and> file_stored f' = file_stored f"
  by (auto dest!: file_put_result_cases simp: file_view_defs doc_at_update)

lemma file_list_jobs_view:
  assumes "file_list_jobs f = (Inr js, f')" "file_sound f"
  shows "distinct (map job_id js)
    \<and> (\<forall>j \<in> set js. file_stored f (job_id j) = Some j \<and> clean_id (job_id j))"
proof -
  obtain xs fs' where l: "list_docs (fs_faults f) (fs_jobs f) = (Inr xs, fs')" "js = sort_jobs xs"
    using file_list_jobs_docs [OF assms(1)] by blast
  from list_docs_view [OF l(1), of job_id] assms(2)
  have "distinct (map job_id xs)"
    and "\<forall>j \<in> set xs. file_stored f (job_id j) = Some j \<and> clean_id (job_id j)"
    by (auto simp: file_view_defs)
  then show ?thesis unfolding l(2) by (auto intro: distinct_map_perm [of "sort_jobs xs" xs])
qed

lemma file_list_jobs_quiet:
  assumes "file_quiet f" "file_sound f"
  shows "\<exists>js. file_list_jobs f = (Inr js, f)
    \<and> (\<forall>i j. file_stored f i = Some j \<longrightarrow> job_id j = i \<and> j \<in> set js)"
proof -
  obtain xs where "list_docs [] (fs_jobs f) = (Inr xs, [])"
    "\<forall>i j. file_stored f i = Some j \<longrightarrow> job_id j = i \<and> j \<in> set xs"
    using list_docs_quiet [of job_id "fs_jobs f"] assms(2) by (auto simp: file_view_defs)
  then show ?thesis using assms(1) by (auto simp: file_list_jobs_def file_quiet_def)
qed

lemma file_put_job_quiet:
  "file_quiet f \<Longrightarrow> file_sound f \<Longrightarrow> \<exists>f'. file_put_job f j = (Inr (), f') \<and> file_quiet f'"
  using docs_sound_no_subdir [of job_id "fs_jobs f" "doc_name (job_id j)"]
  by (simp add: file_view_defs file_put_job_def put_doc_quiet)

lemma file_delete_quiet:
  "file_quiet f \<Longrightarrow> file_sound f \<Longrightarrow> \<exists>f'. file_delete_job f i = (Inr (), f') \<and> file_quiet f'"
  using docs_sound_no_subdir [of job_id "fs_jobs f" "doc_name i"]
  by (simp add: file_view_defs file_delete_job_def Let_def)

lemma file_put_result_quiet:
  "file_quiet f \<Longrightarrow> file_sound f \<Longrightarrow> \<exists>f'. file_put_result f q = (Inr (), f') \<and> file_quiet f'"
  using docs_sound_no_subdir [of res_id "fs_results f" "doc_name (res_id q)"]
    docs_sound_no_subdir [of res_id "fs_dlq f" "doc_name (res_id q)"]
  by (simp add: file_view_defs file_put_result_def put_doc_quiet Let_def)

lemma file_append_quiet:
  "file_quiet f \<Longrightarrow> \<exists>f'. file_append_commit now f j q = (Inr (), f') \<and> file_quiet f'"
  by (simp add: file_quiet_def file_append_commit_def)

lemma file_get_Inr: "file_get_result f i = (Inr q, f') \<Longrightarrow> file_answer f i = Some q"
  by (auto simp: file_get_result_def file_answer_def doc_at_def Let_def
      split: prod.splits if_splits option.splits dirent.splits)

lemma file_get_missing:
  "file_get_result f i = (Inl Not_Found, f') \<Longrightarrow> map_of (fs_results f) (doc_name i) = None"
  by (auto simp: file_get_result_def Let_def split: prod.splits if_splits option.splits dirent.splits)

lemma file_view_same:
  "fs_jobs f' = fs_jobs f \<and> fs_results f' = fs_results f \<and> fs_dlq f' = fs_dlq f \<Longrightarrow>
    file_stored f' = file_stored f \<and> file_answer f' = file_answer f \<and> file_sound f' = file_sound f"
  by (simp add: file_view_defs)

interpretation file_spool: job_store file_ops file_stored file_answer json_job json_result
  file_sound file_quiet clean_id
proof (unfold_locales, simp_all only: file_ops_def store_ops.simps)
  show "\<And>s j u s'. file_put_job s j = (Inr u, s') \<Longrightarrow>
      file_stored s' = (file_stored s)(job_id j \<mapsto> json_job j) \<and> file_answer s' = file_answer s"
    by (auto dest: file_put_job_view)
  show "\<And>s j e s'. file_put_job s j = (Inl e, s') \<Longrightarrow>
      file_stored s' \<in> {file_stored s, (file_stored s)(job_id j \<mapsto> json_job j)}
      \<and> file_answer s' = file_answer s"
    by (auto dest: file_put_job_view)
  show "\<And>s i u s'. file_delete_job s i = (Inr u, s') \<Longrightarrow>
      file_stored s' = (file_stored s)(i := None) \<and> file_answer s' = file_answer s"
    by (auto dest: file_delete_view)
  show "\<And>s i e s'. file_delete_job s i = (Inl e, s') \<Longrightarrow>
      file_stored s' \<in> {file_stored s, (file_stored s)(i := None)} \<and> file_answer s' = file_answer s"
    by (auto dest: file_delete_view)
  show "\<And>s q u s'. file_put_result s q = (Inr u, s') \<Longrightarrow>
      file_answer s' = (file_answer s)(res_id q \<mapsto> json_result q) \<and> file_stored s' = file_stored s"
    by (auto dest: file_put_result_view)
  show "\<And>s q e s'. file_put_result s q = (Inl e, s') \<Longrightarrow>
      file_answer s' \<in> {file_answer s, (file_answer s)(res_id q \<mapsto> json_result q)}
      \<and> file_stored s' = file_stored s"
    by (auto dest: file_put_result_view)
  show "\<And>s js s'. file_list_jobs s = (Inr js, s') \<Longrightarrow> file_sound s \<Longrightarrow>
      distinct (map job_id js) \<and> (\<forall>j \<in> set js. file_stored s (job_id j) = Some j \<and> clean_id (job_id j))"
    by (rule file_list_jobs_view)
  show "\<And>s jr s'. file_list_jobs s = (jr, s') \<Longrightarrow> file_stored s' = file_stored s
      \<and> file_answer s' = file_answer s \<and> file_sound s' = file_sound s"
    by (rule file_view_same) (rule file_list_jobs_cases)
  show "\<And>s i qr s'. file_get_result s i = (qr, s') \<Longrightarrow> file_stored s' = file_stored s
      \<and> file_answer s' = file_answer s \<and> file_sound s' = file_sound s"
    by (rule file_view_same) (rule file_get_cases)
  show "\<And>now s j q r s'. file_append_commit now s j q = (r, s') \<Longrightarrow> file_stored s' = file_stored s
      \<and> file_answer s' = file_answer s \<and> file_sound s' = file_sound s"
    by (rule file_view_same) (rule file_append_cases)
  show "\<And>s i s'. file_get_result s i = (Inl Not_Found, s') \<Longrightarrow> file_answer s i = None"
    by (simp add: file_get_missing file_answer_def doc_at_def)
qed (auto intro: file_put_job_sound file_delete_sound file_put_result_sound file_get_Inr
    file_list_jobs_quiet file_put_job_quiet file_delete_quiet file_put_result_quiet
    file_append_quiet)

section \<open>The SQLite driver keeps the contract\<close>

definition sqlite_stored :: "sqlite_store \<Rightarrow> string \<Rightarrow> job option" where
  "sqlite_stored d i = map_option (of_job_row i) (map_of (db_jobs d) i)"

definition sqlite_answer :: "sqlite_store \<Rightarrow> string \<Rightarrow> jobresult option" where
  "sqlite_answer d i = map_option (scan_result i) (map_of (db_results d) i)"

definition sqlite_sound :: "sqlite_store \<Rightarrow> bool" where
  "sqlite_sound d \<longleftrightarrow> table_ok (db_jobs d) \<and> table_ok (db_results d)"

definition sqlite_quiet :: "sqlite_store \<Rightarrow> bool" where
  "sqlite_quiet d \<longleftrightarrow> db_faults d = []"

definition row_job :: "job \<Rightarrow> job" where
  "row_job j = of_job_row (job_id j) (to_job_row j)"

definition row_result :: "jobresult \<Rightarrow> jobresult" where
  "row_result q = scan_result (res_id q) (to_result_row q)"

lemmas sqlite_view_defs = sqlite_stored_def sqlite_answer_def sqlite_sound_def sqlite_quiet_def
  row_job_def row_result_def

lemmas sqlite_op_defs = sqlite_put_job_def sqlite_list_jobs_def sqlite_delete_job_def
  sqlite_put_result_def sqlite_get_result_def sqlite_append_commit_def

lemma of_job_row_id [simp]: "job_id (of_job_row i w) = i"
  by (simp add: of_job_row_def)

lemma scan_result_id [simp]: "res_id (scan_result i w) = i"
  by (simp add: scan_result_def)

lemma sqlite_list_jobs_ids:
  "map job_id (map (\<lambda>(i, w). of_job_row i w) ws) = map fst ws"
  by (induction ws) auto

lemma sqlite_list_jobs_distinct:
  "table_ok t \<Longrightarrow> distinct (map job_id (map (\<lambda>(i, w). of_job_row i w) (sort_slice row_before t)))"
  unfolding sqlite_list_jobs_ids table_ok_def by (rule distinct_map_perm [of _ t]) auto

lemma sqlite_put_job_view:
  "sqlite_put_job d j = (r, d') \<Longrightarrow>
    (sqlite_stored d' = (sqlite_stored d)(job_id j \<mapsto> row_job j)
     \<or> (\<exists>e. r = Inl e) \<and> sqlite_stored d' = sqlite_stored d)
    \<and> sqlite_answer d' = sqlite_answer d \<and> (sqlite_sound d \<longrightarrow> sqlite_sound d')"
  by (auto simp: sqlite_op_defs sqlite_view_defs Let_def table_ok_update fun_eq_iff
      split: prod.splits if_splits)

lemma sqlite_delete_view:
  "sqlite_delete_job d i = (r, d') \<Longrightarrow>
    (sqlite_stored d' = (sqlite_stored d)(i := None)
     \<or> (\<exists>e. r = Inl e) \<and> sqlite_stored d' = sqlite_stored d)
    \<and> sqlite_answer d' = sqlite_answer d \<and> (sqlite_sound d \<longrightarrow> sqlite_sound d')"
  by (auto simp: sqlite_op_defs sqlite_view_defs Let_def table_ok_delete fun_eq_iff
      split: prod.splits if_splits)

lemma sqlite_put_result_view:
  "sqlite_put_result d q = (r, d') \<Longrightarrow>
    (sqlite_answer d' = (sqlite_answer d)(res_id q \<mapsto> row_result q)
     \<or> (\<exists>e. r = Inl e) \<and> sqlite_answer d' = sqlite_answer d)
    \<and> sqlite_stored d' = sqlite_stored d \<and> (sqlite_sound d \<longrightarrow> sqlite_sound d')"
  by (auto simp: sqlite_op_defs sqlite_view_defs Let_def table_ok_update fun_eq_iff
      split: prod.splits if_splits)

lemma sqlite_read_view:
  "sqlite_list_jobs d = (jr, d') \<or> sqlite_get_result d i = (qr, d')
    \<or> sqlite_append_commit now d j q = (r, d') \<Longrightarrow>
    sqlite_stored d' = sqlite_stored d \<and> sqlite_answer d' = sqlite_answer d
    \<and> sqlite_sound d' = sqlite_sound d"
  by (elim disjE)
    (auto simp: sqlite_op_defs sqlite_view_defs Let_def fun_eq_iff
      split: prod.splits if_splits option.splits)

lemma sqlite_list_jobs_view:
  assumes "sqlite_list_jobs d = (Inr js, d')" "sqlite_sound d"
  shows "distinct (map job_id js) \<and> (\<forall>j \<in> set js. sqlite_stored d (job_id j) = Some j)"
proof -
  have js: "js = map (\<lambda>(i, w). of_job_row i w) (sort_slice row_before (db_jobs d))"
    using assms(1) by (auto simp: sqlite_list_jobs_def Let_def split: prod.splits if_splits)
  have t: "table_ok (db_jobs d)" using assms(2) by (simp add: sqlite_sound_def)
  show ?thesis
    unfolding js using sqlite_list_jobs_distinct [OF t] t
    by (auto simp: sqlite_stored_def table_ok_map_of)
qed

lemma sqlite_list_jobs_quiet:
  assumes "sqlite_quiet d" "sqlite_sound d"
  shows "\<exists>js. sqlite_list_jobs d = (Inr js, d)
    \<and> (\<forall>i j. sqlite_stored d i = Some j \<longrightarrow> job_id j = i \<and> j \<in> set js)"
  using assms
  by (force simp: sqlite_list_jobs_def sqlite_view_defs table_ok_map_of [symmetric])

lemma sqlite_get_Inr: "sqlite_get_result d i = (Inr q, d') \<Longrightarrow> sqlite_answer d i = Some q"
  by (auto simp: sqlite_op_defs sqlite_view_defs Let_def
      split: prod.splits if_splits option.splits)

lemma sqlite_get_missing: "sqlite_get_result d i = (Inl Not_Found, d') \<Longrightarrow> sqlite_answer d i = None"
  by (auto simp: sqlite_op_defs sqlite_view_defs Let_def
      split: prod.splits if_splits option.splits)

lemma sqlite_write_quiet:
  assumes "sqlite_quiet d"
  shows "\<exists>d'. sqlite_put_job d j = (Inr (), d') \<and> sqlite_quiet d'"
    and "\<exists>d'. sqlite_delete_job d i = (Inr (), d') \<and> sqlite_quiet d'"
    and "\<exists>d'. sqlite_put_result d q = (Inr (), d') \<and> sqlite_quiet d'"
    and "\<exists>d'. sqlite_append_commit now d j q = (Inr (), d') \<and> sqlite_quiet d'"
  using assms by (simp_all add: sqlite_op_defs sqlite_quiet_def)

interpretation sqlite_spool: job_store sqlite_ops sqlite_stored sqlite_answer row_job row_result
  sqlite_sound sqlite_quiet "\<lambda>_. True"
proof (unfold_locales, simp_all only: sqlite_ops_def store_ops.simps)
  show "\<And>s js s'. sqlite_list_jobs s = (Inr js, s') \<Longrightarrow> sqlite_sound s \<Longrightarrow>
      distinct (map job_id js) \<and> (\<forall>j \<in> set js. sqlite_stored s (job_id j) = Some j \<and> True)"
    by (simp add: sqlite_list_jobs_view)
qed (auto dest: sqlite_put_job_view sqlite_delete_view sqlite_put_result_view sqlite_list_jobs_quiet
      sqlite_get_Inr sqlite_get_missing sqlite_read_view [OF disjI1]
      sqlite_read_view [OF disjI2, OF disjI1] sqlite_read_view [OF disjI2, OF disjI2]
    intro: sqlite_write_quiet)

section \<open>The mirror keeps the contract\<close>

text \<open>The file driver is the primary; a result only SQLite has is still found.\<close>

definition mirror_stored :: "mirror_store \<Rightarrow> string \<Rightarrow> job option" where
  "mirror_stored m = file_stored (mir_file m)"

definition mirror_answer :: "mirror_store \<Rightarrow> string \<Rightarrow> jobresult option" where
  "mirror_answer m i =
     (case map_of (fs_results (mir_file m)) (doc_name i) of
        None \<Rightarrow> sqlite_answer (mir_sqlite m) i
      | Some e \<Rightarrow> file_answer (mir_file m) i)"

definition mirror_sound :: "mirror_store \<Rightarrow> bool" where
  "mirror_sound m \<longleftrightarrow> file_sound (mir_file m) \<and> sqlite_sound (mir_sqlite m)"

definition mirror_quiet :: "mirror_store \<Rightarrow> bool" where
  "mirror_quiet m \<longleftrightarrow> file_quiet (mir_file m) \<and> sqlite_quiet (mir_sqlite m)"

lemma on_file_eq: "on_file g m = (r, m') \<longleftrightarrow> (\<exists>f. g (mir_file m) = (r, f) \<and> m' = m\<lparr>mir_file := f\<rparr>)"
  by (cases "g (mir_file m)") (auto simp: on_file_def)

lemma on_sqlite_eq:
  "on_sqlite g m = (r, m') \<longleftrightarrow> (\<exists>d. g (mir_sqlite m) = (r, d) \<and> m' = m\<lparr>mir_sqlite := d\<rparr>)"
  by (cases "g (mir_sqlite m)") (auto simp: on_sqlite_def)

text \<open>A mirrored write: the SQLite write runs exactly when the file write succeeded.\<close>

lemma mirrored_cases:
  assumes "next_do (on_file g m) (\<lambda>_. on_sqlite h) = (r, m')"
  obtains (file_failed) e f where "g (mir_file m) = (Inl e, f)" "r = Inl e" "m' = m\<lparr>mir_file := f\<rparr>"
    | (both) a f d where "g (mir_file m) = (Inr a, f)" "h (mir_sqlite m) = (r, d)"
      "m' = m\<lparr>mir_file := f, mir_sqlite := d\<rparr>"
  using assms
  by (cases r) (auto simp: next_do_Inr next_do_Inl on_file_eq on_sqlite_eq)

lemma mirror_answer_eq:
  "fs_results f = fs_results (mir_file m) \<Longrightarrow> sqlite_answer d = sqlite_answer (mir_sqlite m) \<Longrightarrow>
    mirror_answer (m\<lparr>mir_file := f, mir_sqlite := d\<rparr>) = mirror_answer m"
  by (auto simp: mirror_answer_def fun_eq_iff file_answer_def split: option.splits)

lemma mirror_put_job_view:
  assumes "mirror_put_job m j = (r, m')"
  shows "(mirror_stored m' = (mirror_stored m)(job_id j \<mapsto> json_job j)
     \<or> (\<exists>e. r = Inl e) \<and> mirror_stored m' = mirror_stored m)
    \<and> mirror_answer m' = mirror_answer m
    \<and> (mirror_sound m \<longrightarrow> clean_id (job_id j) \<longrightarrow> mirror_sound m')"
  using assms [unfolded mirror_put_job_def]
proof (cases rule: mirrored_cases)
  case (file_failed e f)
  then show ?thesis
    using file_put_job_view [OF file_failed(1)] file_put_job_cases [OF file_failed(1)]
      file_put_job_sound [OF file_failed(1)] mirror_answer_eq [of f m "mir_sqlite m"]
    by (auto simp: mirror_stored_def mirror_sound_def)
next
  case (both a f d)
  then show ?thesis
    using file_put_job_view [OF both(1)] file_put_job_cases [OF both(1)]
      file_put_job_sound [OF both(1)] sqlite_put_job_view [OF both(2)] mirror_answer_eq [of f m d]
    by (auto simp: mirror_stored_def mirror_sound_def)
qed

lemma mirror_delete_view:
  assumes "mirror_delete_job m i = (r, m')"
  shows "(mirror_stored m' = (mirror_stored m)(i := None)
     \<or> (\<exists>e. r = Inl e) \<and> mirror_stored m' = mirror_stored m)
    \<and> mirror_answer m' = mirror_answer m \<and> (mirror_sound m \<longrightarrow> mirror_sound m')"
proof -
  obtain rf f where f: "file_delete_job (mir_file m) i = (rf, f)" by (cases "file_delete_job (mir_file m) i")
  obtain rs d where d: "sqlite_delete_job (mir_sqlite m) i = (rs, d)"
    by (cases "sqlite_delete_job (mir_sqlite m) i")
  have m': "m' = m\<lparr>mir_file := f, mir_sqlite := d\<rparr>" and r: "\<exists>e. rf = Inl e \<Longrightarrow> \<exists>e. r = Inl e"
    using assms f d by (auto simp: mirror_delete_job_def on_file_def on_sqlite_def split: sum.splits)
  then show ?thesis
    using file_delete_view [OF f] file_delete_cases [OF f] file_delete_sound [OF f]
      sqlite_delete_view [OF d] mirror_answer_eq [of f m d]
    by (auto simp: mirror_stored_def mirror_sound_def)
qed

lemma mirror_answer_result:
  assumes "fs_results f = AList.update (doc_name i) (Doc q) (fs_results (mir_file m))"
    and "sqlite_answer d \<in> {sqlite_answer (mir_sqlite m), (sqlite_answer (mir_sqlite m))(i \<mapsto> p)}"
  shows "mirror_answer (m\<lparr>mir_file := f, mir_sqlite := d\<rparr>) = (mirror_answer m)(i \<mapsto> q)"
  using assms
  by (auto simp: mirror_answer_def file_answer_def fun_eq_iff doc_at_update split: option.splits)

lemma mirror_put_result_view:
  assumes "mirror_put_result m q = (r, m')"
  shows "(mirror_answer m' = (mirror_answer m)(res_id q \<mapsto> json_result q)
     \<or> (\<exists>e. r = Inl e) \<and> mirror_answer m' = mirror_answer m)
    \<and> mirror_stored m' = mirror_stored m
    \<and> (mirror_sound m \<longrightarrow> clean_id (res_id q) \<longrightarrow> mirror_sound m')"
  using assms [unfolded mirror_put_result_def]
proof (cases rule: mirrored_cases)
  case (file_failed e f)
  then show ?thesis
    using file_put_result_view [OF file_failed(1)] file_put_result_cases [OF file_failed(1)]
      file_put_result_sound [OF file_failed(1)] mirror_answer_eq [of f m "mir_sqlite m"]
      mirror_answer_result [of f "res_id q" "json_result q" m "mir_sqlite m"]
    by (auto simp: mirror_stored_def mirror_sound_def)
next
  case (both a f d)
  have "fs_results f = AList.update (doc_name (res_id q)) (Doc (json_result q)) (fs_results (mir_file m))"
    using file_put_result_cases [OF both(1)] by auto
  moreover have "sqlite_answer d \<in> {sqlite_answer (mir_sqlite m),
      (sqlite_answer (mir_sqlite m))(res_id q \<mapsto> row_result q)}"
    using sqlite_put_result_view [OF both(2)] by auto
  ultimately have "mirror_answer m' = (mirror_answer m)(res_id q \<mapsto> json_result q)"
    unfolding both(3) by (rule mirror_answer_result)
  then show ?thesis
    using both file_put_result_view [OF both(1)] file_put_result_sound [OF both(1)]
      sqlite_put_result_view [OF both(2)]
    by (auto simp: mirror_stored_def mirror_sound_def)
qed

lemma mirror_append_view:
  assumes "mirror_append_commit now m j q = (r, m')"
  shows "mirror_stored m' = mirror_stored m \<and> mirror_answer m' = mirror_answer m
    \<and> mirror_sound m' = mirror_sound m"
  using assms [unfolded mirror_append_commit_def]
proof (cases rule: mirrored_cases)
  case (file_failed e f)
  then show ?thesis
    using file_append_cases [OF file_failed(1)] file_view_same [of f "mir_file m"]
      mirror_answer_eq [of f m "mir_sqlite m"]
    by (auto simp: mirror_stored_def mirror_sound_def)
next
  case (both a f d)
  then show ?thesis
    using file_append_cases [OF both(1)] file_view_same [of f "mir_file m"]
      sqlite_read_view [OF disjI2, OF disjI2, OF both(2)] mirror_answer_eq [of f m d]
    by (auto simp: mirror_stored_def mirror_sound_def)
qed

lemma mirror_list_jobs_view:
  assumes "mirror_list_jobs m = (r, m')"
  shows "mirror_stored m' = mirror_stored m \<and> mirror_answer m' = mirror_answer m
    \<and> mirror_sound m' = mirror_sound m"
proof -
  obtain f where f: "file_list_jobs (mir_file m) = (r, f)" "m' = m\<lparr>mir_file := f\<rparr>"
    using assms by (auto simp: mirror_list_jobs_def on_file_eq)
  then show ?thesis
    using file_list_jobs_cases [OF f(1)] file_view_same [of f "mir_file m"]
      mirror_answer_eq [of f m "mir_sqlite m"]
    by (auto simp: mirror_stored_def mirror_sound_def)
qed

lemma mirror_get_view:
  assumes "mirror_get_result m i = (r, m')"
  shows "mirror_stored m' = mirror_stored m \<and> mirror_answer m' = mirror_answer m
    \<and> mirror_sound m' = mirror_sound m"
proof -
  obtain rf f where f: "file_get_result (mir_file m) i = (rf, f)" by (cases "file_get_result (mir_file m) i")
  obtain rs d where d: "sqlite_get_result (mir_sqlite m) i = (rs, d)"
    by (cases "sqlite_get_result (mir_sqlite m) i")
  have "m' = m\<lparr>mir_file := f\<rparr> \<or> m' = m\<lparr>mir_file := f, mir_sqlite := d\<rparr>"
    using assms f d by (auto simp: mirror_get_result_def on_file_def on_sqlite_def split: if_splits)
  then show ?thesis
    using file_get_cases [OF f] file_view_same [of f "mir_file m"]
      sqlite_read_view [OF disjI2, OF disjI1, OF d] mirror_answer_eq [of f m d]
      mirror_answer_eq [of f m "mir_sqlite m"]
    by (elim disjE) (auto simp: mirror_stored_def mirror_sound_def)
qed

lemma mirror_get_Inr:
  assumes "mirror_get_result m i = (Inr q, m')"
  shows "mirror_answer m i = Some q"
proof -
  obtain rf f where f: "file_get_result (mir_file m) i = (rf, f)" by (cases "file_get_result (mir_file m) i")
  show ?thesis
  proof (cases "rf = Inl Not_Found")
    case True
    then obtain d where "sqlite_get_result (mir_sqlite m) i = (Inr q, d)"
      using assms f by (auto simp: mirror_get_result_def on_file_def on_sqlite_eq)
    then show ?thesis
      using sqlite_get_Inr file_get_missing f True by (auto simp: mirror_answer_def)
  next
    case False
    then have "rf = Inr q" using assms f by (auto simp: mirror_get_result_def on_file_def)
    then have "file_answer (mir_file m) i = Some q" using file_get_Inr f by blast
    then show ?thesis by (auto simp: mirror_answer_def file_answer_def doc_at_def split: option.splits)
  qed
qed

lemma mirror_get_missing:
  assumes "mirror_get_result m i = (Inl Not_Found, m')"
  shows "mirror_answer m i = None"
proof -
  obtain rf f where f: "file_get_result (mir_file m) i = (rf, f)" by (cases "file_get_result (mir_file m) i")
  then have rf: "rf = Inl Not_Found"
    using assms by (auto simp: mirror_get_result_def on_file_def split: if_splits)
  then obtain d where "sqlite_get_result (mir_sqlite m) i = (Inl Not_Found, d)"
    using assms f by (auto simp: mirror_get_result_def on_file_def on_sqlite_eq)
  then show ?thesis
    using sqlite_get_missing file_get_missing f rf by (auto simp: mirror_answer_def)
qed

lemma mirror_write_quiet:
  assumes "mirror_quiet m" "mirror_sound m"
  shows "\<exists>m'. mirror_put_job m j = (Inr (), m') \<and> mirror_quiet m'"
    and "\<exists>m'. mirror_delete_job m i = (Inr (), m') \<and> mirror_quiet m'"
    and "\<exists>m'. mirror_put_result m q = (Inr (), m') \<and> mirror_quiet m'"
    and "\<exists>js. mirror_list_jobs m = (Inr js, m)
      \<and> (\<forall>i j. mirror_stored m i = Some j \<longrightarrow> job_id j = i \<and> j \<in> set js)"
proof -
  have f: "file_quiet (mir_file m)" "file_sound (mir_file m)" and d: "sqlite_quiet (mir_sqlite m)"
    using assms by (auto simp: mirror_quiet_def mirror_sound_def)
  note ops = on_file_def on_sqlite_def mirror_quiet_def
  obtain f1 d1 where "file_put_job (mir_file m) j = (Inr (), f1)" "file_quiet f1"
    "sqlite_put_job (mir_sqlite m) j = (Inr (), d1)" "sqlite_quiet d1"
    using file_put_job_quiet [OF f] sqlite_write_quiet(1) [OF d] by blast
  then show "\<exists>m'. mirror_put_job m j = (Inr (), m') \<and> mirror_quiet m'"
    by (simp add: mirror_put_job_def ops)
  obtain f2 d2 where "file_delete_job (mir_file m) i = (Inr (), f2)" "file_quiet f2"
    "sqlite_delete_job (mir_sqlite m) i = (Inr (), d2)" "sqlite_quiet d2"
    using file_delete_quiet [OF f] sqlite_write_quiet(2) [OF d] by blast
  then show "\<exists>m'. mirror_delete_job m i = (Inr (), m') \<and> mirror_quiet m'"
    by (simp add: mirror_delete_job_def ops)
  obtain f3 d3 where "file_put_result (mir_file m) q = (Inr (), f3)" "file_quiet f3"
    "sqlite_put_result (mir_sqlite m) q = (Inr (), d3)" "sqlite_quiet d3"
    using file_put_result_quiet [OF f] sqlite_write_quiet(3) [OF d] by blast
  then show "\<exists>m'. mirror_put_result m q = (Inr (), m') \<and> mirror_quiet m'"
    by (simp add: mirror_put_result_def ops)
  show "\<exists>js. mirror_list_jobs m = (Inr js, m)
      \<and> (\<forall>i j. mirror_stored m i = Some j \<longrightarrow> job_id j = i \<and> j \<in> set js)"
    using file_list_jobs_quiet [OF f] by (auto simp: mirror_list_jobs_def ops mirror_stored_def)
qed

lemma mirror_append_quiet:
  "mirror_quiet m \<Longrightarrow> \<exists>m'. mirror_append_commit now m j q = (Inr (), m') \<and> mirror_quiet m'"
  using file_append_quiet [of "mir_file m" now j q]
    sqlite_write_quiet(4) [of "mir_sqlite m" now j q]
  by (auto simp: mirror_append_commit_def on_file_def on_sqlite_def mirror_quiet_def)

interpretation mirror_spool: job_store mirror_ops mirror_stored mirror_answer json_job json_result
  mirror_sound mirror_quiet clean_id
proof (unfold_locales, simp_all only: mirror_ops_def store_ops.simps)
  show "\<And>s js s'. mirror_list_jobs s = (Inr js, s') \<Longrightarrow> mirror_sound s \<Longrightarrow> distinct (map job_id js)
      \<and> (\<forall>j \<in> set js. mirror_stored s (job_id j) = Some j \<and> clean_id (job_id j))"
    using file_list_jobs_view
    by (auto simp: mirror_list_jobs_def on_file_eq mirror_stored_def mirror_sound_def)
qed (auto dest: mirror_put_job_view mirror_delete_view mirror_put_result_view mirror_get_Inr
      mirror_get_missing mirror_append_view mirror_list_jobs_view mirror_get_view
    intro: mirror_write_quiet mirror_append_quiet)

end
