(* ===== verification/Paths.thy ===== *)
theory Paths
  imports GoBase
begin

text \<open>
  \<open>filepath.Clean\<close>, \<open>filepath.Join\<close> and the queries the sources make on slash-separated
  paths, and \<open>time.ParseDuration\<close>.
\<close>

section \<open>Clean and Join\<close>

text \<open>One element against the elements kept so far (last first).\<close>

definition clean_step :: "bool \<Rightarrow> string \<Rightarrow> string list \<Rightarrow> string list" where
  "clean_step rooted e kept =
     (if e = [] \<or> e = ''.'' then kept
      else if e = ''..'' then
        (case kept of
           [] \<Rightarrow> if rooted then [] else [''..'']
         | k # ks \<Rightarrow> if k = ''..'' then ''..'' # kept else ks)
      else e # kept)"

definition is_abs :: "string \<Rightarrow> bool" where
  "is_abs p \<longleftrightarrow> (\<exists>c cs. p = c # cs \<and> c = CHR ''/'')"

lemma is_abs_code [simp, code]: "is_abs [] = False" "is_abs (c # cs) = (c = CHR ''/'')"
  by (simp_all add: is_abs_def)

definition elements :: "string \<Rightarrow> string list" where
  "elements p = rev (fold (clean_step (is_abs p)) (split_at (CHR ''/'') p) [])"

definition clean_path :: "string \<Rightarrow> string" where
  "clean_path p =
     (let body = join ''/'' (elements p) in
      if is_abs p then CHR ''/'' # body else if body = [] then ''.'' else body)"

definition join_path :: "string list \<Rightarrow> string" where
  "join_path ps =
     (case dropWhile (\<lambda>p. p = []) ps of
        [] \<Rightarrow> []
      | qs \<Rightarrow> clean_path (join ''/'' qs))"

text \<open>\<open>filepath.Abs\<close>; \<open>None\<close> is a working directory that cannot be read.\<close>

definition abs_path :: "string option \<Rightarrow> string \<Rightarrow> string option" where
  "abs_path cwd p = (if is_abs p then Some (clean_path p) else map_option (\<lambda>w. join_path [w, p]) cwd)"

definition base_name :: "string \<Rightarrow> string" where
  "base_name p = (case cut_last (CHR ''/'') p of None \<Rightarrow> p | Some (d, b) \<Rightarrow> b)"

text \<open>No element of a cleaned path is empty, \<open>.\<close> or holds a slash, and \<open>..\<close> stands only in front.\<close>

definition proper :: "string \<Rightarrow> bool" where
  "proper e \<longleftrightarrow> e \<noteq> [] \<and> e \<noteq> ''.'' \<and> CHR ''/'' \<notin> set e"

lemma clean_step_proper:
  "list_all proper kept \<Longrightarrow> CHR ''/'' \<notin> set e \<Longrightarrow> list_all proper (clean_step r e kept)"
  by (auto simp: clean_step_def proper_def split: list.splits)

lemma fold_clean_proper:
  "list_all proper kept \<Longrightarrow> \<forall>e \<in> set es. CHR ''/'' \<notin> set e
    \<Longrightarrow> list_all proper (fold (clean_step r) es kept)"
  by (induction es arbitrary: kept) (auto simp: clean_step_proper)

lemma elements_proper: "list_all proper (elements p)"
  using fold_clean_proper [of "[]" "split_at (CHR ''/'') p" "is_abs p"] split_at_pieces
  by (fastforce simp: elements_def list_all_iff)

lemma clean_step_no_dotdot:
  "''..'' \<notin> set kept \<Longrightarrow> ''..'' \<notin> set (clean_step True e kept)"
  by (auto simp: clean_step_def split: list.splits)

lemma elements_abs_no_dotdot: "is_abs p \<Longrightarrow> ''..'' \<notin> set (elements p)"
proof -
  have "''..'' \<notin> set kept \<Longrightarrow> ''..'' \<notin> set (fold (clean_step True) es kept)" for es kept
    by (induction es arbitrary: kept) (auto simp: clean_step_no_dotdot)
  then show "is_abs p \<Longrightarrow> ''..'' \<notin> set (elements p)" by (simp add: elements_def)
qed

text \<open>Plain elements (no \<open>..\<close> either) pass through unchanged.\<close>

lemma fold_clean_plain:
  "list_all proper es \<Longrightarrow> ''..'' \<notin> set es \<Longrightarrow> fold (clean_step r) es kept = rev es @ kept"
  by (induction es arbitrary: kept) (auto simp: clean_step_def proper_def)

lemma split_at_append:
  "b \<notin> set w \<Longrightarrow> split_at b (w @ b # s) = w # split_at b s"
  by (induction w) auto

lemma split_join:
  "ws \<noteq> [] \<Longrightarrow> \<forall>w \<in> set ws. CHR ''/'' \<notin> set w \<Longrightarrow> split_at (CHR ''/'') (join ''/'' ws) = ws"
proof (induction ws)
  case (Cons w ws)
  show ?case
  proof (cases "ws = []")
    case True
    with Cons.prems show ?thesis by (simp add: split_at_no_sep)
  next
    case False
    with Cons show ?thesis by (simp add: join_Cons split_at_append)
  qed
qed simp

lemma clean_abs_plain:
  assumes "list_all proper es" "''..'' \<notin> set es"
  shows "elements (CHR ''/'' # join ''/'' es) = es"
    and "clean_path (CHR ''/'' # join ''/'' es) = CHR ''/'' # join ''/'' es"
proof -
  show e: "elements (CHR ''/'' # join ''/'' es) = es"
  proof (cases "es = []")
    case True
    then show ?thesis by (simp add: elements_def clean_step_def)
  next
    case False
    with assms have "split_at (CHR ''/'') (join ''/'' es) = es"
      by (intro split_join) (auto simp: list_all_iff proper_def)
    then show ?thesis
      using fold_clean_plain [OF assms] by (simp add: elements_def clean_step_def)
  qed
  then show "clean_path (CHR ''/'' # join ''/'' es) = CHR ''/'' # join ''/'' es"
    by (simp add: clean_path_def)
qed

lemma clean_path_idem_abs: "is_abs p \<Longrightarrow> clean_path (clean_path p) = clean_path p"
  using clean_abs_plain(2) [OF elements_proper elements_abs_no_dotdot] by (simp add: clean_path_def)

text \<open>Further elements at the end of a path.\<close>

lemma split_at_mid: "split_at b (s @ b # t) = split_at b s @ split_at b t"
proof (induction s)
  case (Cons c s)
  then show ?case by (cases "split_at b s") (auto simp: split_at_not_Nil)
qed simp

lemma lines_concat:
  "list_all (\<lambda>l. CHR 0x0A \<notin> set l) ls \<Longrightarrow> lines (concat (map (\<lambda>l. l @ [CHR 0x0A]) ls)) = ls @ [[]]"
  by (induction ls) (auto simp: split_at_mid split_at_no_sep)

lemma split_at_snoc: "b \<notin> set n \<Longrightarrow> split_at b (s @ b # n) = split_at b s @ [n]"
  by (simp add: split_at_mid split_at_no_sep)

lemma elements_snoc:
  assumes "proper n" "n \<noteq> ''..''" "d \<noteq> []"
  shows "elements (d @ CHR ''/'' # n) = elements d @ [n]"
proof -
  have "is_abs (d @ CHR ''/'' # n) = is_abs d" using assms(3) by (cases d) auto
  moreover have "CHR ''/'' \<notin> set n" using assms(1) by (simp add: proper_def)
  ultimately show ?thesis
    using assms by (simp add: elements_def split_at_snoc clean_step_def proper_def)
qed

lemma join_path_last:
  assumes "proper n" "n \<noteq> ''..''" "d \<noteq> []"
  shows "\<exists>t. join_path [d, n] = t @ n"
proof -
  have "join ''/'' (es @ [n]) = (if es = [] then [] else join ''/'' es @ ''/'') @ n" for es
    by (induction es) (auto simp: join_Cons)
  moreover have "n \<noteq> []" using assms(1) by (simp add: proper_def)
  then have "join_path [d, n] = clean_path (d @ CHR ''/'' # n)" using assms(3) by (simp add: join_path_def)
  ultimately show ?thesis
    using elements_snoc [OF assms] assms(1) by (auto simp: clean_path_def Let_def proper_def)
qed

lemma elements_clean: "is_abs p \<Longrightarrow> elements (clean_path p) = elements p"
  using clean_abs_plain(1) [OF elements_proper elements_abs_no_dotdot] by (simp add: clean_path_def)

lemma elements_join:
  assumes "is_abs root" "list_all proper es" "''..'' \<notin> set es"
  shows "elements (join_path (root # es)) = elements root @ es"
proof (cases "es = []")
  case True
  then show ?thesis
    using assms(1) elements_clean by (auto simp: join_path_def is_abs_def)
next
  case False
  then have j: "join ''/'' (root # es) = root @ CHR ''/'' # join ''/'' es" by (simp add: join_Cons)
  have "split_at (CHR ''/'') (join ''/'' es) = es"
    by (rule split_join [OF False]) (use assms(2) in \<open>auto simp: list_all_iff proper_def\<close>)
  moreover have abs: "is_abs (root @ CHR ''/'' # join ''/'' es)" using assms(1) by (cases root) auto
  ultimately have "elements (root @ CHR ''/'' # join ''/'' es) = elements root @ es"
    using assms fold_clean_plain [OF assms(2,3)] by (simp add: elements_def split_at_mid)
  moreover have "join_path (root # es) = clean_path (root @ CHR ''/'' # join ''/'' es)"
    using assms(1) j by (auto simp: join_path_def is_abs_def)
  ultimately show ?thesis using elements_clean [OF abs] by simp
qed

lemma clean_join_path: "is_abs p \<Longrightarrow> clean_path (join_path (p # ps)) = join_path (p # ps)"
proof -
  assume a: "is_abs p"
  then have "join_path (p # ps) = clean_path (join ''/'' (p # ps))" by (auto simp: join_path_def is_abs_def)
  moreover have "is_abs (join ''/'' (p # ps))" using a by (cases ps) (auto simp: is_abs_def)
  ultimately show ?thesis using clean_path_idem_abs by simp
qed

text \<open>\<open>expandHome\<close> of the queue and of the cache.\<close>

definition expand_home :: "string \<Rightarrow> string \<Rightarrow> string" where
  "expand_home home p = (if has_prefix p ''~/'' then join_path [home, drop 2 p] else p)"

lemma join_path_abs: "is_abs p \<Longrightarrow> is_abs (join_path (p # ps))"
proof -
  assume "is_abs p"
  then obtain c where "p = CHR ''/'' # c" by (auto simp: is_abs_def)
  then show ?thesis by (cases ps) (auto simp: join_path_def clean_path_def Let_def)
qed

lemma abs_not_home: "is_abs p \<Longrightarrow> expand_home home p = p"
  by (auto simp: is_abs_def expand_home_def has_prefix_def)

lemma expand_home_idem: "is_abs home \<Longrightarrow> expand_home home (expand_home home p) = expand_home home p"
  using join_path_abs abs_not_home by (auto simp: expand_home_def)

lemma expand_home_Nil [simp]: "expand_home home [] = []"
  by (simp add: expand_home_def has_prefix_def)

lemma abs_not_Nil: "is_abs p \<Longrightarrow> p \<noteq> []"
  by auto

section \<open>ParseDuration\<close>

text \<open>The units, in nanoseconds. Both spellings of micro are two UTF-8 bytes and an s.\<close>

definition unit_ns :: "string \<Rightarrow> nat option" where
  "unit_ns u =
     (if u = ''ns'' then Some 1
      else if u = ''us'' \<or> u = [CHR 0xC2, CHR 0xB5, CHR ''s''] \<or> u = [CHR 0xCE, CHR 0xBC, CHR ''s'']
      then Some 1000
      else if u = ''ms'' then Some 1000000
      else if u = ''s'' then Some 1000000000
      else if u = ''m'' then Some 60000000000
      else if u = ''h'' then Some 3600000000000
      else None)"

text \<open>
  A number and its unit; the rest of the text follows. The library multiplies the fraction in
  floating point; here the product is exact and rounded down.
\<close>

definition unit_letter :: "char \<Rightarrow> bool" where
  "unit_letter c \<longleftrightarrow> c \<noteq> CHR ''.'' \<and> \<not> is_digit c"

definition item_parts :: "string \<Rightarrow> string \<times> string \<times> string" where
  "item_parts s =
     (let ip = takeWhile is_digit s; s1 = dropWhile is_digit s in
      if s1 \<noteq> [] \<and> hd s1 = CHR ''.''
      then (ip, takeWhile is_digit (tl s1), dropWhile is_digit (tl s1))
      else (ip, [], s1))"

definition number_or_0 :: "string \<Rightarrow> nat" where
  "number_or_0 s = (case undec s of None \<Rightarrow> 0 | Some n \<Rightarrow> n)"

definition item_value :: "string \<Rightarrow> string \<Rightarrow> nat \<Rightarrow> nat option" where
  "item_value ip fp k =
     (let v = number_or_0 ip; n = v * k + number_or_0 fp * k div 10 ^ length fp in
      if (ip = [] \<and> fp = []) \<or> 2 ^ 63 < v \<or> 2 ^ 63 div k < v \<or> 2 ^ 63 < n then None
      else Some n)"

definition duration_item :: "string \<Rightarrow> (nat \<times> string) option" where
  "duration_item s =
     (let (ip, fp, s2) = item_parts s; u = takeWhile unit_letter s2 in
      case unit_ns u of
        None \<Rightarrow> None
      | Some k \<Rightarrow> map_option (\<lambda>n. (n, dropWhile unit_letter s2)) (item_value ip fp k))"

lemma unit_ns_Nil [simp]: "unit_ns [] = None"
  by (simp add: unit_ns_def)

lemma item_parts_rest: "item_parts s = (ip, fp, s2) \<Longrightarrow> length s2 \<le> length s"
proof -
  assume "item_parts s = (ip, fp, s2)"
  then have "s2 = dropWhile is_digit s \<or> s2 = dropWhile is_digit (tl (dropWhile is_digit s))"
    by (auto simp: item_parts_def Let_def split: if_splits)
  moreover have "length (tl (dropWhile is_digit s)) \<le> length s"
    using length_dropWhile_le [of is_digit s] by simp
  ultimately show ?thesis
    using length_dropWhile_le le_trans by blast
qed

lemma duration_item_shorter: "duration_item s = Some (n, r) \<Longrightarrow> length r < length s"
proof -
  assume a: "duration_item s = Some (n, r)"
  obtain ip fp s2 where p: "item_parts s = (ip, fp, s2)" by (metis prod_cases3)
  with a have r: "r = dropWhile unit_letter s2" and "unit_ns (takeWhile unit_letter s2) \<noteq> None"
    by (auto simp: duration_item_def Let_def split: option.splits)
  then have "0 < length (takeWhile unit_letter s2)" by auto
  moreover have "length s2 = length (takeWhile unit_letter s2) + length r"
    unfolding r by (metis length_append takeWhile_dropWhile_id)
  ultimately show ?thesis using item_parts_rest [OF p] by linarith
qed

function duration_sum :: "nat \<Rightarrow> string \<Rightarrow> nat option" where
  "duration_sum d s =
     (if s = [] then Some d
      else
        case duration_item s of
          None \<Rightarrow> None
        | Some (n, r) \<Rightarrow> if 2 ^ 63 < d + n then None else duration_sum (d + n) r)"
  by pat_completeness auto
termination
  by (relation "measure (length \<circ> snd)") (auto simp: duration_item_shorter)

declare duration_sum.simps [simp del]

definition parse_duration :: "string \<Rightarrow> duration option" where
  "parse_duration s =
     (let neg = (s \<noteq> [] \<and> hd s = CHR ''-'');
          body = (if s \<noteq> [] \<and> (hd s = CHR ''-'' \<or> hd s = CHR ''+'') then tl s else s) in
      if body = ''0'' then Some 0
      else if body = [] then None
      else
        case duration_sum 0 body of
          None \<Rightarrow> None
        | Some d \<Rightarrow>
            if neg then Some (- int d)
            else if 2 ^ 63 - 1 < d then None
            else Some (int d))"

lemma parse_duration_examples:
  "parse_duration ''200ms'' = Some 200000000" "parse_duration ''1.5h'' = Some 5400000000000"
  "parse_duration ''5'' = None" "parse_duration ''-2s'' = Some (- 2000000000)"
  by (simp_all add: parse_duration_def duration_sum.simps duration_item_def item_parts_def
      item_value_def number_or_0_def unit_letter_def unit_ns_def Let_def
      is_digit_def digit_val_def undec_def)

end
