(* ===== verification/JobQueue.thy ===== *)
theory JobQueue
  imports Spool Paths
begin

text \<open>
  \<open>internal/queue/queue.go\<close>: the configuration and its normalisation, \<open>Enqueue\<close>,
  the worker's \<open>drain\<close>, the two upstreams, \<open>Wait\<close> and the HTTP handlers. The store is
  a state together with a \<open>store_ops\<close> record, as the code calls the \<open>Store\<close>
  interface. Readings of the clock, random ids, the requests a client sends and what the rate
  limiter and the executed commands answer are arguments.
\<close>

section \<open>Configuration\<close>

record qconfig =
  cfg_name :: string
  cfg_dir :: string
  cfg_listen :: string
  cfg_max_batch :: int
  cfg_max_wait :: string
  cfg_rate_positive :: bool
  cfg_burst :: int
  cfg_concurrency :: int
  cfg_max_depth :: int
  cfg_fsync :: bool
  cfg_sqlite :: string
  cfg_upstream :: string
  cfg_command :: string
  cfg_args_prefix :: "string list"
  cfg_fake_latency :: string
  cfg_fake_batch_latency :: string

datatype config_err =
    Name_Required
  | Bad_Max_Wait
  | Bad_Fake_Latency
  | Bad_Fake_Batch_Latency
  | Unknown_Upstream string

definition set_defaults :: "string \<Rightarrow> qconfig \<Rightarrow> qconfig" where
  "set_defaults home c =
     (let d = (if cfg_dir c = [] then join_path [home, ''.lezz'', ''queues'', cfg_name c]
               else cfg_dir c);
          b = (if cfg_max_batch c \<le> 0 then 1 else cfg_max_batch c) in
      c\<lparr>cfg_dir := expand_home home d,
        cfg_sqlite := expand_home home (cfg_sqlite c),
        cfg_listen := (if cfg_listen c = [] then ''127.0.0.1:0'' else cfg_listen c),
        cfg_max_batch := b,
        cfg_burst := (if cfg_burst c < b then b else cfg_burst c),
        cfg_concurrency := (if cfg_concurrency c \<le> 0 then 1 else cfg_concurrency c),
        cfg_max_wait := (if cfg_max_wait c = [] then ''200ms'' else cfg_max_wait c)\<rparr>)"

definition set_upstream :: "qconfig \<Rightarrow> qconfig" where
  "set_upstream c =
     (let u = (if cfg_upstream c = [] then ''fake'' else cfg_upstream c) in
      c\<lparr>cfg_upstream := u,
        cfg_command := (if (u = ''gh'' \<or> u = ''cmd'') \<and> cfg_command c = [] then ''gh''
                        else cfg_command c)\<rparr>)"

definition normalize :: "string \<Rightarrow> qconfig \<Rightarrow> (config_err, qconfig) res" where
  "normalize home c0 =
     (let c1 = c0\<lparr>cfg_name := trim_space (cfg_name c0)\<rparr> in
      if cfg_name c1 = [] then Inl Name_Required
      else
        let c2 = set_defaults home c1 in
        if parse_duration (cfg_max_wait c2) = None then Inl Bad_Max_Wait
        else
          let c3 = set_upstream c2 in
          if cfg_fake_latency c3 \<noteq> [] \<and> parse_duration (cfg_fake_latency c3) = None
          then Inl Bad_Fake_Latency
          else if cfg_fake_batch_latency c3 \<noteq> [] \<and> parse_duration (cfg_fake_batch_latency c3) = None
          then Inl Bad_Fake_Batch_Latency
          else Inr c3)"

definition max_wait :: "qconfig \<Rightarrow> duration" where
  "max_wait c =
     (let d = (case parse_duration (cfg_max_wait c) of None \<Rightarrow> 0 | Some d \<Rightarrow> d) in
      if d \<le> 0 then 200 * millisecond else d)"

section \<open>Upstreams\<close>

text \<open>What running a command gives: output, and success, an exit code, or no exit status at all.\<close>

datatype run_outcome = Ran string | Exited string int | Not_Run string string

datatype upstream =
    Fake_Upstream duration duration int
  | Exec_Upstream string "string list" int

definition empty_result :: "string \<Rightarrow> jobresult" where
  "empty_result i = \<lparr>res_id = i, res_output = [], res_exit = 0, res_success = False,
     res_error = [], res_version = [], res_queued = 0, res_started = 0, res_finished = 0,
     res_batch = 0, res_wait_ms = 0\<rparr>"

definition fake_result :: "(string \<Rightarrow> time \<times> time) \<Rightarrow> job \<Rightarrow> jobresult" where
  "fake_result clock j =
     (empty_result (job_id j))\<lparr>res_output := ''ok '' @ job_id j, res_success := True,
       res_started := fst (clock (job_id j)), res_finished := snd (clock (job_id j))\<rparr>"

definition job_deadline :: "job \<Rightarrow> duration" where
  "job_deadline j = (if 0 < job_timeout j then job_timeout j * second else 30 * second)"

definition exec_result ::
    "(string \<Rightarrow> string list \<Rightarrow> duration \<Rightarrow> run_outcome) \<Rightarrow> (string \<Rightarrow> time \<times> time) \<Rightarrow> string
     \<Rightarrow> string list \<Rightarrow> job \<Rightarrow> jobresult" where
  "exec_result run clock command prefix j =
     (let r = (empty_result (job_id j))\<lparr>res_started := fst (clock (job_id j)),
            res_finished := snd (clock (job_id j))\<rparr> in
      case run command (prefix @ job_args j) (job_deadline j) of
        Ran out \<Rightarrow> r\<lparr>res_output := out, res_success := True\<rparr>
      | Exited out n \<Rightarrow>
          r\<lparr>res_output := out, res_exit := n, res_error := ''exit '' @ dec_int n,
            res_success := False\<rparr>
      | Not_Run out e \<Rightarrow>
          r\<lparr>res_output := out, res_exit := - 1, res_error := e, res_success := False\<rparr>)"

text \<open>\<open>Execute\<close>: a map from ids to results, one goroutine per job.\<close>

definition execute ::
    "(string \<Rightarrow> string list \<Rightarrow> duration \<Rightarrow> run_outcome) \<Rightarrow> (string \<Rightarrow> time \<times> time) \<Rightarrow> upstream
     \<Rightarrow> job list \<Rightarrow> (string \<rightharpoonup> jobresult)" where
  "execute run clock up js =
     (case up of
        Fake_Upstream item batch conc \<Rightarrow> map_of (rev (map (\<lambda>j. (job_id j, fake_result clock j)) js))
      | Exec_Upstream command prefix conc \<Rightarrow>
          map_of (rev (map (\<lambda>j. (job_id j, exec_result run clock command prefix j)) js)))"

section \<open>The queue\<close>

record 's queue =
  q_cfg :: qconfig
  q_store :: 's
  q_torn :: "string list"
  q_limited :: bool
  q_up :: upstream
  q_completed :: int
  q_failed :: int
  q_batches :: int
  q_in_flight :: int
  q_dropped :: int
  q_batch_log :: "int list"
  q_last_wait :: duration

text \<open>\<open>New\<close>, given the opened store.\<close>

definition duration_or_0 :: "string \<Rightarrow> duration" where
  "duration_or_0 s = (case parse_duration s of None \<Rightarrow> 0 | Some d \<Rightarrow> d)"

definition new_queue :: "string \<Rightarrow> qconfig \<Rightarrow> 's \<Rightarrow> (config_err, 's queue) res" where
  "new_queue home c0 st =
     and_then (normalize home c0) (\<lambda>c1.
       let c = (if cfg_burst c1 < cfg_max_batch c1 then c1\<lparr>cfg_burst := cfg_max_batch c1\<rparr> else c1);
           q = \<lparr>q_cfg = c, q_store = st, q_torn = [], q_limited = cfg_rate_positive c,
                q_up = Fake_Upstream 0 0 0, q_completed = 0, q_failed = 0, q_batches = 0,
                q_in_flight = 0, q_dropped = 0, q_batch_log = [], q_last_wait = 0\<rparr> in
       if cfg_upstream c = ''fake'' then
         Inr (q\<lparr>q_up := Fake_Upstream (duration_or_0 (cfg_fake_latency c))
                  (duration_or_0 (cfg_fake_batch_latency c)) (cfg_concurrency c)\<rparr>)
       else if cfg_upstream c = ''gh'' \<or> cfg_upstream c = ''cmd'' then
         Inr (q\<lparr>q_up := Exec_Upstream (cfg_command c) (cfg_args_prefix c) (cfg_concurrency c)\<rparr>)
       else Inl (Unknown_Upstream (cfg_upstream c)))"

text \<open>The mirror branch of \<open>Start\<close>: torn ids are kept, an error is only a warning.\<close>

definition start_reconcile :: "mirror_store queue \<Rightarrow> mirror_store queue" where
  "start_reconcile q =
     (let (r, m) = reconcile (q_store q) in
      q\<lparr>q_store := m, q_torn := (case r of Inl e \<Rightarrow> [] | Inr torn \<Rightarrow> torn)\<rparr>)"

text \<open>Lifts a store operation to the queue.\<close>

definition on_store :: "('s \<Rightarrow> 'r \<times> 's) \<Rightarrow> 's queue \<Rightarrow> 'r \<times> 's queue" where
  "on_store g q = (let (r, s) = g (q_store q) in (r, q\<lparr>q_store := s\<rparr>))"

definition depth :: "'s store_ops \<Rightarrow> 's queue \<Rightarrow> int \<times> 's queue" where
  "depth ops q =
     (let (r, q') = on_store (list_jobs ops) q in
      (case r of Inl e \<Rightarrow> 0 | Inr js \<Rightarrow> int (length js), q'))"

definition oldest_age :: "'s store_ops \<Rightarrow> time \<Rightarrow> 's queue \<Rightarrow> duration \<times> 's queue" where
  "oldest_age ops now q =
     (let (r, q') = on_store (list_jobs ops) q in
      (case r of Inl e \<Rightarrow> 0 | Inr [] \<Rightarrow> 0 | Inr (j # js) \<Rightarrow> sub_time now (job_created j), q'))"

datatype enqueue_err = Queue_Full | Store_Failed store_err

text \<open>\<open>Enqueue\<close>: \<open>fresh\<close> is what \<open>newID\<close> would return, \<open>now\<close> the clock.\<close>

definition stamp :: "string \<Rightarrow> time \<Rightarrow> job \<Rightarrow> job" where
  "stamp fresh now j =
     (let j1 = (if job_id j = [] then j\<lparr>job_id := fresh\<rparr> else j) in
      if is_zero (job_created j1) then j1\<lparr>job_created := now\<rparr> else j1)"

definition enqueue ::
    "'s store_ops \<Rightarrow> string \<Rightarrow> time \<Rightarrow> job \<Rightarrow> 's queue \<Rightarrow> (enqueue_err, job) res \<times> 's queue" where
  "enqueue ops fresh now j0 q =
     (let j = stamp fresh now j0;
          bounded = (0 < cfg_max_depth (q_cfg q));
          (n, q1) = (if bounded then depth ops q else (0, q)) in
      if bounded \<and> cfg_max_depth (q_cfg q) \<le> n
      then (Inl Queue_Full, q1\<lparr>q_dropped := q_dropped q1 + 1\<rparr>)
      else
        let (r, q2) = on_store (\<lambda>s. put_job ops s j) q1 in
        case r of Inl e \<Rightarrow> (Inl (Store_Failed e), q2) | Inr _ \<Rightarrow> (Inr j, q2))"

section \<open>drain\<close>

text \<open>
  One turn of the linger loop: the context ends, or 5 ms pass in which other goroutines write to
  the store. The end of the script is the deadline.
\<close>

datatype 's poll = Cancelled | Polled "'s \<Rightarrow> 's"

fun linger ::
    "'s store_ops \<Rightarrow> 's poll list \<Rightarrow> job list \<Rightarrow> 's queue \<Rightarrow> job list option \<times> 's queue" where
  "linger ops [] js q = (Some js, q)"
| "linger ops (p # ps) js q =
     (if cfg_max_batch (q_cfg q) \<le> int (length js) then (Some js, q)
      else
        case p of
          Cancelled \<Rightarrow> (None, q)
        | Polled f \<Rightarrow>
            let (r, q') = on_store (list_jobs ops) (q\<lparr>q_store := f (q_store q)\<rparr>) in
            case r of
              Inl e \<Rightarrow> (None, q')
            | Inr js' \<Rightarrow> if js' = [] then (Some [], q') else linger ops ps js' q')"

definition finish_result :: "time \<Rightarrow> int \<Rightarrow> job \<Rightarrow> jobresult option \<Rightarrow> jobresult" where
  "finish_result now n j found =
     (let r0 = (case found of
            None \<Rightarrow> (empty_result (job_id j))\<lparr>res_exit := - 1,
              res_error := ''upstream returned no result''\<rparr>
          | Some r \<Rightarrow> r);
          r1 = r0\<lparr>res_queued := job_created j\<rparr>;
          r2 = (if is_zero (res_finished r1) then r1\<lparr>res_finished := now\<rparr> else r1) in
      r2\<lparr>res_wait_ms := milliseconds (sub_time (res_started r2) (job_created j)), res_batch := n\<rparr>)"

definition is_failure :: "jobresult \<Rightarrow> bool" where
  "is_failure r \<longleftrightarrow> res_error r \<noteq> [] \<or> (\<not> res_success r \<and> res_exit r \<noteq> 0)"

definition count_result :: "jobresult \<Rightarrow> 's queue \<Rightarrow> 's queue" where
  "count_result r q =
     (if is_failure r then q\<lparr>q_failed := q_failed q + 1\<rparr>
      else q\<lparr>q_completed := q_completed q + 1\<rparr>)"

text \<open>The three writes for one result; a failed \<open>PutResult\<close> skips the other two.\<close>

definition commit_put ::
    "'s store_ops \<Rightarrow> jobresult \<Rightarrow> 's queue \<Rightarrow> (store_err, unit) res \<times> 's queue" where
  "commit_put ops r q = on_store (\<lambda>s. put_result ops s r) (count_result r q)"

definition commit_delete :: "'s store_ops \<Rightarrow> job \<Rightarrow> 's queue \<Rightarrow> 's queue" where
  "commit_delete ops j q = snd (on_store (\<lambda>s. delete_job ops s (job_id j)) q)"

definition commit_journal ::
    "'s store_ops \<Rightarrow> time \<Rightarrow> job \<Rightarrow> jobresult \<Rightarrow> 's queue \<Rightarrow> 's queue" where
  "commit_journal ops now j r q = snd (on_store (\<lambda>s. append_commit ops now s j r) q)"

definition commit ::
    "'s store_ops \<Rightarrow> time \<Rightarrow> job \<Rightarrow> jobresult \<Rightarrow> 's queue \<Rightarrow> 's queue" where
  "commit ops now j r q0 =
     (let (e, q1) = commit_put ops r q0 in
      case e of
        Inl err \<Rightarrow> q1
      | Inr _ \<Rightarrow> commit_journal ops now j r (commit_delete ops j q1))"

fun commit_all ::
    "'s store_ops \<Rightarrow> (string \<Rightarrow> time) \<Rightarrow> int \<Rightarrow> (string \<rightharpoonup> jobresult) \<Rightarrow> job list \<Rightarrow> 's queue
     \<Rightarrow> 's queue" where
  "commit_all ops now n results [] q = q"
| "commit_all ops now n results (j # js) q =
     commit_all ops now n results js
       (commit ops (now (job_id j)) j
         (finish_result (now (job_id j)) n j (results (job_id j))) q)"

definition log_batch :: "int \<Rightarrow> int list \<Rightarrow> int list" where
  "log_batch n l = (let l' = l @ [n] in if 100 < length l' then drop (length l' - 100) l' else l')"

text \<open>What the limiter says: the context ended, or it let the batch pass after a wait.\<close>

datatype limiter = Limiter_Cancelled | Limiter_Waited duration

definition run_batch ::
    "'s store_ops \<Rightarrow> (string \<Rightarrow> time) \<Rightarrow> (job list \<Rightarrow> string \<rightharpoonup> jobresult) \<Rightarrow> limiter \<Rightarrow> job list
     \<Rightarrow> 's queue \<Rightarrow> 's queue" where
  "run_batch ops now exec lim js q =
     (let batch = (if cfg_max_batch (q_cfg q) < int (length js)
                   then take (nat (cfg_max_batch (q_cfg q))) js else js);
          n = int (length batch);
          go = (\<lambda>q.
            let q1 = q\<lparr>q_batches := q_batches q + 1, q_in_flight := q_in_flight q + n,
                   q_batch_log := log_batch n (q_batch_log q)\<rparr>;
                q2 = commit_all ops now n (exec batch) batch q1 in
            q2\<lparr>q_in_flight := q_in_flight q2 - n\<rparr>) in
      if \<not> q_limited q then go q
      else
        case lim of
          Limiter_Cancelled \<Rightarrow> q
        | Limiter_Waited w \<Rightarrow> go (q\<lparr>q_last_wait := w\<rparr>))"

definition drain ::
    "'s store_ops \<Rightarrow> (string \<Rightarrow> time) \<Rightarrow> (job list \<Rightarrow> string \<rightharpoonup> jobresult) \<Rightarrow> 's poll list \<Rightarrow> limiter
     \<Rightarrow> 's queue \<Rightarrow> 's queue" where
  "drain ops now exec polls lim q =
     (let (r, q1) = on_store (list_jobs ops) q in
      case r of
        Inl e \<Rightarrow> q1
      | Inr [] \<Rightarrow> q1
      | Inr (j # js) \<Rightarrow>
          (case linger ops polls (j # js) q1 of
             (None, q2) \<Rightarrow> q2
           | (Some [], q2) \<Rightarrow> q2
           | (Some (i # is), q2) \<Rightarrow> run_batch ops now exec lim (i # is) q2))"

section \<open>Wait and the HTTP surface\<close>

datatype wait_err = Wait_Done | Wait_Store store_err

text \<open>\<open>Wait\<close>: between two polls the rest of the program works on the store; the end of the
  script is the end of the context.\<close>

fun wait_result ::
    "'s store_ops \<Rightarrow> ('s \<Rightarrow> 's) list \<Rightarrow> string \<Rightarrow> 's queue \<Rightarrow> (wait_err, jobresult) res \<times> 's queue" where
  "wait_result ops ticks i q =
     (let (r, q') = on_store (\<lambda>s. get_result ops s i) q in
      case r of
        Inr res \<Rightarrow> (Inr res, q')
      | Inl Io_Error \<Rightarrow> (Inl (Wait_Store Io_Error), q')
      | Inl Not_Found \<Rightarrow>
          (case ticks of
             [] \<Rightarrow> (Inl Wait_Done, q')
           | f # fs \<Rightarrow> wait_result ops fs i (q'\<lparr>q_store := f (q_store q')\<rparr>)))"

declare wait_result.simps [simp del]

record enqueue_request =
  req_args :: "string list"
  req_timeout :: int
  req_priority :: int
  req_wait :: bool

record status_doc =
  st_name :: string
  st_spool :: string
  st_store :: string
  st_torn :: int
  st_depth :: int
  st_oldest_ms :: int
  st_in_flight :: int
  st_completed :: int
  st_failed :: int
  st_batches :: int
  st_batch_sizes :: "int list"
  st_rate_wait_ms :: int
  st_max_batch :: int
  st_max_wait_ms :: int
  st_max_depth :: int
  st_dropped :: int

datatype queue_body =
    Body_Text string
  | Body_Queued string
  | Body_Result jobresult
  | Body_Status status_doc

record response =
  resp_status :: int
  resp_retry_after :: string
  resp_body :: queue_body

definition http_error :: "string \<Rightarrow> int \<Rightarrow> response" where
  "http_error t n = \<lparr>resp_status = n, resp_retry_after = [], resp_body = Body_Text t\<rparr>"

definition write_json :: "int \<Rightarrow> queue_body \<Rightarrow> response" where
  "write_json n b = \<lparr>resp_status = n, resp_retry_after = [], resp_body = b\<rparr>"

definition wait_timeout :: "enqueue_request \<Rightarrow> duration" where
  "wait_timeout req = (if 0 < req_timeout req then req_timeout req * second else 120 * second)"

definition request_job :: "enqueue_request \<Rightarrow> job" where
  "request_job req = \<lparr>job_id = [], job_args = req_args req, job_timeout = req_timeout req,
     job_priority = req_priority req, job_created = 0\<rparr>"

text \<open>\<open>body\<close> is \<open>None\<close> when the request does not decode; \<open>ticks\<close> gives the polls that
  fit in a timeout.\<close>

definition handle_enqueue ::
    "'s store_ops \<Rightarrow> string \<Rightarrow> time \<Rightarrow> (duration \<Rightarrow> ('s \<Rightarrow> 's) list) \<Rightarrow> string
     \<Rightarrow> enqueue_request option \<Rightarrow> 's queue \<Rightarrow> response \<times> 's queue" where
  "handle_enqueue ops fresh now ticks meth body q =
     (if meth \<noteq> ''POST'' then (http_error ''method not allowed'' 405, q)
      else
        case body of
          None \<Rightarrow> (http_error ''invalid JSON'' 400, q)
        | Some req \<Rightarrow>
            (case enqueue ops fresh now (request_job req) q of
               (Inl Queue_Full, q1) \<Rightarrow>
                 ((http_error ''queue is full'' 429)\<lparr>resp_retry_after := ''1''\<rparr>, q1)
             | (Inl (Store_Failed e), q1) \<Rightarrow> (http_error ''store'' 500, q1)
             | (Inr j, q1) \<Rightarrow>
                 if \<not> req_wait req then (write_json 202 (Body_Queued (job_id j)), q1)
                 else
                   (case wait_result ops (ticks (wait_timeout req)) (job_id j) q1 of
                      (Inl e, q2) \<Rightarrow> (http_error ''wait'' 504, q2)
                    | (Inr res, q2) \<Rightarrow> (write_json 200 (Body_Result res), q2))))"

definition handle_result ::
    "'s store_ops \<Rightarrow> string \<Rightarrow> 's queue \<Rightarrow> response \<times> 's queue" where
  "handle_result ops url_path q =
     (let i = trim_prefix url_path ''/result/'' in
      if i = [] then (http_error ''id required'' 400, q)
      else
        case on_store (\<lambda>s. get_result ops s i) q of
          (Inl e, q1) \<Rightarrow> (http_error ''not found'' 404, q1)
        | (Inr res, q1) \<Rightarrow> (write_json 200 (Body_Result res), q1))"

definition handle_status :: "'s store_ops \<Rightarrow> time \<Rightarrow> 's queue \<Rightarrow> response \<times> 's queue" where
  "handle_status ops now q =
     (let (d, q1) = depth ops q; (age, q2) = oldest_age ops now q1 in
      (write_json 200 (Body_Status
        \<lparr>st_name = cfg_name (q_cfg q), st_spool = cfg_dir (q_cfg q), st_store = store_name ops,
         st_torn = int (length (q_torn q)), st_depth = d, st_oldest_ms = milliseconds age,
         st_in_flight = q_in_flight q, st_completed = q_completed q, st_failed = q_failed q,
         st_batches = q_batches q, st_batch_sizes = q_batch_log q,
         st_rate_wait_ms = milliseconds (q_last_wait q), st_max_batch = cfg_max_batch (q_cfg q),
         st_max_wait_ms = milliseconds (max_wait (q_cfg q)), st_max_depth = cfg_max_depth (q_cfg q),
         st_dropped = q_dropped q\<rparr>), q2))"

section \<open>The queue against the store contract\<close>

lemma on_store_eq:
  "on_store g q = (r, q') \<longleftrightarrow> (\<exists>s. g (q_store q) = (r, s) \<and> q' = q\<lparr>q_store := s\<rparr>)"
  by (cases "g (q_store q)") (auto simp: on_store_def)

lemma q_store_count_result [simp]: "q_store (count_result r q) = q_store q"
  by (simp add: count_result_def)

lemma q_cfg_count_result [simp]: "q_cfg (count_result r q) = q_cfg q"
  by (simp add: count_result_def)

lemma run_batch_store:
  "\<exists>n b q0. q_store q0 = q_store q
    \<and> q_store (run_batch ops now exec lim js q) \<in> {q_store q, q_store (commit_all ops now n (exec b) b q0)}"
proof (cases "q_limited q \<and> lim = Limiter_Cancelled")
  case True
  then show ?thesis by (auto simp: run_batch_def Let_def)
next
  case False
  define b where "b = (if cfg_max_batch (q_cfg q) < int (length js)
    then take (nat (cfg_max_batch (q_cfg q))) js else js)"
  obtain w where lim: "\<not> q_limited q \<or> lim = Limiter_Waited w" using False by (cases lim) auto
  define q1 where "q1 = (if q_limited q then q\<lparr>q_last_wait := w\<rparr> else q)"
  define q0 where "q0 = q1\<lparr>q_batches := q_batches q1 + 1,
    q_in_flight := q_in_flight q1 + int (length b),
    q_batch_log := log_batch (int (length b)) (q_batch_log q1)\<rparr>"
  have "q_store (run_batch ops now exec lim js q) = q_store (commit_all ops now (int (length b)) (exec b) b q0)"
    using lim unfolding q0_def q1_def b_def run_batch_def Let_def
    by (cases "q_limited q") simp_all
  moreover have "q_store q0 = q_store q" by (simp add: q0_def q1_def)
  ultimately show ?thesis by blast
qed

context job_store
begin

text \<open>The ids a client could still ask for: waiting jobs and answered ones.\<close>

definition held :: "'s \<Rightarrow> string set" where
  "held s = dom (stored s) \<union> dom (answer s)"

lemma put_result_held: "put_result ops s r = (e, s') \<Longrightarrow> held s \<subseteq> held s'"
  using put_result_answered [of s r e s'] put_result_Inr [of s r _ s'] put_result_Inl [of s r _ s']
  by (cases e) (auto simp: held_def)

lemma put_job_held: "put_job ops s j = (e, s') \<Longrightarrow> held s \<subseteq> held s'"
  using put_job_Inr [of s j _ s'] put_job_Inl [of s j _ s'] by (cases e) (auto simp: held_def)

lemma delete_held:
  "delete_job ops s i = (e, s') \<Longrightarrow> i \<in> dom (answer s) \<Longrightarrow> held s \<subseteq> held s'"
  using delete_Inr [of s i _ s'] delete_Inl [of s i _ s'] by (cases e) (auto simp: held_def)

lemma commit_put_held:
  "commit_put ops r q = (e, q') \<Longrightarrow> held (q_store q) \<subseteq> held (q_store q')
    \<and> (e = Inr u \<longrightarrow> res_id r \<in> dom (answer (q_store q')))"
  using put_result_held [of "q_store q" r e] put_result_Inr [of "q_store q" r]
  by (auto simp: commit_put_def on_store_eq)

lemma commit_delete_held:
  "job_id j \<in> dom (answer (q_store q)) \<Longrightarrow> held (q_store q) \<subseteq> held (q_store (commit_delete ops j q))"
  using delete_held [of "q_store q" "job_id j"]
  by (cases "delete_job ops (q_store q) (job_id j)") (auto simp: commit_delete_def on_store_def)

lemma commit_journal_held: "held (q_store (commit_journal ops now j r q)) = held (q_store q)"
  using append_commit_view [of now "q_store q" j r]
  by (cases "append_commit ops now (q_store q) j r")
    (auto simp: commit_journal_def on_store_def held_def)

lemma commit_held:
  assumes "res_id r = job_id j"
  shows "held (q_store q) \<subseteq> held (q_store (commit ops now j r q))"
proof -
  obtain e q1 where p: "commit_put ops r q = (e, q1)" by (cases "commit_put ops r q")
  show ?thesis
  proof (cases e)
    case (Inl err)
    then show ?thesis using commit_put_held [OF p] p by (simp add: commit_def)
  next
    case (Inr u)
    then have "held (q_store q) \<subseteq> held (q_store q1)" "job_id j \<in> dom (answer (q_store q1))"
      using commit_put_held [OF p, of u] assms by simp_all
    then show ?thesis
      using commit_delete_held p Inr by (fastforce simp: commit_def commit_journal_held)
  qed
qed

lemma finish_result_id:
  "(\<And>r. found = Some r \<Longrightarrow> res_id r = job_id j) \<Longrightarrow> res_id (finish_result now n j found) = job_id j"
  by (auto simp: finish_result_def Let_def empty_result_def split: option.splits)

lemma commit_all_held:
  assumes "\<And>i r. results i = Some r \<Longrightarrow> res_id r = i"
  shows "held (q_store q) \<subseteq> held (q_store (commit_all ops now n results js q))"
proof (induction js arbitrary: q)
  case (Cons j js)
  have "res_id (finish_result (now (job_id j)) n j (results (job_id j))) = job_id j"
    using assms by (rule finish_result_id)
  from commit_held [OF this] Cons.IH show ?case by (simp, blast)
qed simp

lemma run_batch_held:
  assumes "\<And>js i r. exec js i = Some r \<Longrightarrow> res_id r = i"
  shows "held (q_store q) \<subseteq> held (q_store (run_batch ops now exec lim js q))"
proof -
  obtain n b q0 where q0: "q_store q0 = q_store q" and "q_store (run_batch ops now exec lim js q)
      \<in> {q_store q, q_store (commit_all ops now n (exec b) b q0)}"
    using run_batch_store [of q ops now exec lim js] by blast
  moreover have "held (q_store q0) \<subseteq> held (q_store (commit_all ops now n (exec b) b q0))"
    using assms by (rule commit_all_held)
  ultimately show ?thesis by auto
qed

lemma linger_held:
  assumes "\<And>f s. Polled f \<in> set ps \<Longrightarrow> held s \<subseteq> held (f s)"
  shows "held (q_store q) \<subseteq> held (q_store (snd (linger ops ps js q)))"
  using assms
proof (induction ps arbitrary: js q)
  case (Cons p ps)
  show ?case
  proof (cases p)
    case Cancelled
    then show ?thesis by simp
  next
    case (Polled f)
    obtain r s' where l: "list_jobs ops (f (q_store q)) = (r, s')"
      by (cases "list_jobs ops (f (q_store q))")
    have "held (q_store q) \<subseteq> held s'"
      using Cons.prems [of f "q_store q"] Polled list_jobs_view [OF l] by (simp add: held_def)
    moreover have "held s' \<subseteq> held (q_store (snd (linger ops ps js' (q\<lparr>q_store := s'\<rparr>))))" for js'
      using Cons.IH [of "q\<lparr>q_store := s'\<rparr>" js'] Cons.prems by simp
    ultimately show ?thesis
      using Polled l by (auto simp: on_store_def split: sum.splits)
  qed
qed simp

lemma drain_held:
  assumes "\<And>js i r. exec js i = Some r \<Longrightarrow> res_id r = i"
    and "\<And>f s. Polled f \<in> set polls \<Longrightarrow> held s \<subseteq> held (f s)"
  shows "held (q_store q) \<subseteq> held (q_store (drain ops now exec polls lim q))"
proof -
  obtain r s1 where l: "list_jobs ops (q_store q) = (r, s1)" by (cases "list_jobs ops (q_store q)")
  have h1: "held (q_store q) = held s1" using list_jobs_view [OF l] by (simp add: held_def)
  show ?thesis
  proof (cases "\<exists>j js. r = Inr (j # js)")
    case False
    then show ?thesis using l h1 by (auto simp: drain_def on_store_def split: sum.splits list.splits)
  next
    case True
    then obtain j js where r: "r = Inr (j # js)" by blast
    obtain b q2 where b: "linger ops polls (j # js) (q\<lparr>q_store := s1\<rparr>) = (b, q2)"
      by (cases "linger ops polls (j # js) (q\<lparr>q_store := s1\<rparr>)")
    have "held s1 \<subseteq> held (q_store q2)"
      using linger_held [of polls "q\<lparr>q_store := s1\<rparr>" "j # js"] assms(2) b by simp
    moreover have "held (q_store q2) \<subseteq> held (q_store (run_batch ops now exec lim js' q2))" for js'
      using assms(1) by (rule run_batch_held)
    ultimately show ?thesis
      using l h1 r b by (auto simp: drain_def on_store_def split: option.splits list.splits)
  qed
qed

lemma enqueue_views:
  assumes "enqueue ops fresh now j0 q = (r, q')"
  obtains q1 :: "'s queue" where "stored (q_store q1) = stored (q_store q)" "answer (q_store q1) = answer (q_store q)"
    "(r = Inl Queue_Full \<and> q_store q' = q_store q1)
      \<or> (\<exists>e. put_job ops (q_store q1) (stamp fresh now j0) = (e, q_store q')
          \<and> (\<forall>j. r = Inr j \<longrightarrow> e = Inr () \<and> j = stamp fresh now j0))"
proof -
  obtain n q1 where d: "(if 0 < cfg_max_depth (q_cfg q) then depth ops q else (0, q)) = (n, q1)"
    by (cases "if 0 < cfg_max_depth (q_cfg q) then depth ops q else (0, q)")
  then have "stored (q_store q1) = stored (q_store q)" "answer (q_store q1) = answer (q_store q)"
    using list_jobs_view [of "q_store q"]
    by (auto simp: depth_def on_store_def split: if_splits prod.splits)
  moreover obtain e s2 where p: "put_job ops (q_store q1) (stamp fresh now j0) = (e, s2)"
    by (cases "put_job ops (q_store q1) (stamp fresh now j0)")
  moreover have "(r = Inl Queue_Full \<and> q_store q' = q_store q1)
      \<or> (q_store q' = s2 \<and> (\<forall>j. r = Inr j \<longrightarrow> e = Inr () \<and> j = stamp fresh now j0))"
    using assms d p by (auto simp: enqueue_def Let_def on_store_def split: if_splits sum.splits)
  ultimately show thesis by (intro that [of q1]) auto
qed

lemma enqueue_held:
  assumes "enqueue ops fresh now j0 q = (r, q')"
  shows "held (q_store q) \<subseteq> held (q_store q')"
    and "r = Inr j \<Longrightarrow> job_id j \<in> held (q_store q')"
    and "answer (q_store q') = answer (q_store q)"
proof -
  obtain q1 :: "'s queue" where q1: "stored (q_store q1) = stored (q_store q)"
      "answer (q_store q1) = answer (q_store q)"
    and out: "(r = Inl Queue_Full \<and> q_store q' = q_store q1)
      \<or> (\<exists>e. put_job ops (q_store q1) (stamp fresh now j0) = (e, q_store q')
          \<and> (\<forall>j. r = Inr j \<longrightarrow> e = Inr () \<and> j = stamp fresh now j0))"
    by (rule enqueue_views [OF assms])
  show "held (q_store q) \<subseteq> held (q_store q')"
    using out q1 put_job_held by (fastforce simp: held_def)
  show "answer (q_store q') = answer (q_store q)"
    using out
  proof
    assume "\<exists>e. put_job ops (q_store q1) (stamp fresh now j0) = (e, q_store q')
        \<and> (\<forall>j. r = Inr j \<longrightarrow> e = Inr () \<and> j = stamp fresh now j0)"
    then obtain e where "put_job ops (q_store q1) (stamp fresh now j0) = (e, q_store q')" by blast
    then show ?thesis
      using put_job_Inr [of _ _ _ "q_store q'"] put_job_Inl [of _ _ _ "q_store q'"] q1(2)
      by (cases e) simp_all
  qed (use q1 in simp)
  assume "r = Inr j"
  then have "put_job ops (q_store q1) j = (Inr (), q_store q')" using out by auto
  then show "job_id j \<in> held (q_store q')" using put_job_Inr by (fastforce simp: held_def)
qed

end

section \<open>A normalised configuration\<close>

lemma set_defaults_idem:
  assumes "is_abs home"
  shows "set_defaults home (set_defaults home c) = set_defaults home c"
proof -
  have "expand_home home d \<noteq> []" if "d \<noteq> []" for d
    using that join_path_abs [OF assms] abs_not_Nil by (auto simp: expand_home_def)
  moreover have "join_path [home, ''.lezz'', ''queues'', cfg_name c] \<noteq> []"
    using join_path_abs [OF assms] abs_not_Nil by blast
  ultimately show ?thesis
    using expand_home_idem [OF assms] by (simp add: set_defaults_def Let_def)
qed

lemma set_upstream_idem: "set_upstream (set_upstream c) = set_upstream c"
  by (simp add: set_upstream_def Let_def)

lemma set_defaults_upstream:
  "set_defaults home (set_upstream c) = set_upstream (set_defaults home c)"
  by (simp add: set_defaults_def set_upstream_def Let_def)

text \<open>
  A configuration \<open>normalize\<close> accepts has a name without outer blanks, a batch of at
  least one job, a burst that covers a batch, at least one worker slot, a positive linger time and
  parsable durations; and normalising it again changes nothing.
\<close>

theorem normalize_ok:
  assumes "normalize home c0 = Inr c" "is_abs home"
  shows "cfg_name c \<noteq> [] \<and> 1 \<le> cfg_max_batch c \<and> cfg_max_batch c \<le> cfg_burst c
    \<and> 1 \<le> cfg_concurrency c \<and> cfg_listen c \<noteq> [] \<and> parse_duration (cfg_max_wait c) \<noteq> None
    \<and> 0 < max_wait c \<and> normalize home c = Inr c"
proof -
  define c1 where "c1 = c0\<lparr>cfg_name := trim_space (cfg_name c0)\<rparr>"
  have c: "cfg_name c1 \<noteq> []" "c = set_upstream (set_defaults home c1)"
    "parse_duration (cfg_max_wait (set_defaults home c1)) \<noteq> None"
    "cfg_fake_latency c = [] \<or> parse_duration (cfg_fake_latency c) \<noteq> None"
    "cfg_fake_batch_latency c = [] \<or> parse_duration (cfg_fake_batch_latency c) \<noteq> None"
    using assms(1) by (auto simp: normalize_def Let_def c1_def split: if_splits)
  have n: "cfg_name c = trim_space (cfg_name c0)" "cfg_name c1 = cfg_name c"
    by (simp_all add: c(2) c1_def set_upstream_def set_defaults_def Let_def)
  have w: "cfg_max_wait c = cfg_max_wait (set_defaults home c1)"
    by (simp add: c(2) set_upstream_def Let_def)
  have again: "set_defaults home c = c" "set_upstream c = c"
    by (simp_all add: c(2) set_defaults_upstream set_upstream_idem set_defaults_idem [OF assms(2)])
  have "c\<lparr>cfg_name := trim_space (cfg_name c)\<rparr> = c" 
  proof -
    have "trim_space (cfg_name c) = cfg_name c" unfolding n(1) by simp
    then show ?thesis by simp
  qed
  then have "normalize home c = Inr c"
    using c(1,3-5) n(2) w again by (simp add: normalize_def)
  moreover have "1 \<le> cfg_max_batch c \<and> cfg_max_batch c \<le> cfg_burst c \<and> 1 \<le> cfg_concurrency c \<and> cfg_listen c \<noteq> []"
    by (simp add: c(2) set_upstream_def set_defaults_def Let_def)
  moreover have "0 < max_wait c" by (simp add: max_wait_def Let_def)
  ultimately show ?thesis using c(1,3) n w by simp
qed

definition min_cfg :: qconfig where
  "min_cfg = \<lparr>cfg_name = ''gh'', cfg_dir = ''/q'', cfg_listen = [], cfg_max_batch = 0,
     cfg_max_wait = ''1s'', cfg_rate_positive = False, cfg_burst = 0, cfg_concurrency = 0,
     cfg_max_depth = 0, cfg_fsync = False, cfg_sqlite = [], cfg_upstream = ''gh'',
     cfg_command = [], cfg_args_prefix = [], cfg_fake_latency = [], cfg_fake_batch_latency = []\<rparr>"

definition full_cfg :: qconfig where
  "full_cfg = min_cfg\<lparr>cfg_listen := ''127.0.0.1:0'', cfg_max_batch := 1, cfg_burst := 1,
     cfg_concurrency := 1, cfg_command := ''gh''\<rparr>"

lemma normalize_min: "normalize ''/h'' min_cfg = Inr full_cfg"
proof -
  have "trim_space ''gh'' = ''gh''" by (rule trim_space_graphic) (simp_all add: graphic_def less_char_def)
  moreover have "parse_duration ''1s'' = Some 1000000000"
    by (simp add: parse_duration_def duration_sum.simps duration_item_def item_parts_def
      item_value_def number_or_0_def unit_letter_def unit_ns_def is_digit_def digit_val_def
      undec_def Let_def)
  moreover have "expand_home ''/h'' ''/q'' = ''/q''" by (rule abs_not_home) simp
  ultimately show ?thesis
    by (simp add: normalize_def min_cfg_def full_cfg_def set_defaults_def set_upstream_def Let_def)
qed

theorem normalize_ok_witness:
  "1 \<le> cfg_max_batch full_cfg \<and> normalize ''/h'' full_cfg = Inr full_cfg"
  using normalize_ok [OF normalize_min] by simp

end
