(* ===== verification/QueueSafety.thy ===== *)
theory QueueSafety
  imports JobQueue
begin

text \<open>
  What the queue promises of its jobs: the result of a drain on a healthy disk, the order and the
  bound of a batch, the depth bound of \<open>Enqueue\<close>, and that no accepted job is lost when
  enqueues, worker steps, read-only requests, failing writes and crashes interleave.
\<close>

section \<open>A drain on a healthy disk\<close>

definition tally :: "'s queue \<Rightarrow> int" where
  "tally q = q_completed q + q_failed q"

context job_store
begin

lemma commit_quiet:
  assumes "quiet (q_store q)" "sound (q_store q)" "clean (job_id j)" "res_id r = job_id j"
  shows "quiet (q_store (commit ops now j r q)) \<and> sound (q_store (commit ops now j r q))
    \<and> stored (q_store (commit ops now j r q)) = (stored (q_store q))(job_id j := None)
    \<and> answer (q_store (commit ops now j r q)) = (answer (q_store q))(job_id j \<mapsto> keep_result r)
    \<and> tally (commit ops now j r q) = tally q + 1
    \<and> q_in_flight (commit ops now j r q) = q_in_flight q \<and> q_cfg (commit ops now j r q) = q_cfg q"
proof -
  obtain s1 where s1: "put_result ops (q_store q) r = (Inr (), s1)" "quiet s1"
    using put_result_quiet [OF assms(1,2), of r] assms by auto
  have "sound s1" using put_result_sound [OF s1(1)] assms by simp
  with s1(2) obtain s2 where s2: "delete_job ops s1 (job_id j) = (Inr (), s2)" "quiet s2"
    using delete_quiet by blast
  obtain s3 where s3: "append_commit ops now s2 j r = (Inr (), s3)" "quiet s3"
    using append_commit_quiet [OF s2(2)] by blast
  have "commit ops now j r q = (count_result r q)\<lparr>q_store := s3\<rparr>"
    using s1 s2 s3 by (simp add: commit_def commit_put_def commit_delete_def commit_journal_def on_store_def)
  then show ?thesis
    using put_result_Inr [OF s1(1)] delete_Inr [OF s2(1)] append_commit_view [OF s3(1)]
      delete_sound [OF s2(1)] \<open>sound s1\<close> s3(2) assms(4)
    by (simp add: tally_def count_result_def)
qed

lemma commit_all_quiet:
  fixes now :: "string \<Rightarrow> time" and n :: int
  assumes "quiet (q_store q)" "sound (q_store q)" "\<forall>j \<in> set js. clean (job_id j)"
    and "distinct (map job_id js)" and ids: "\<And>i r. results i = Some r \<Longrightarrow> res_id r = i"
  defines "fin \<equiv> \<lambda>j. finish_result (now (job_id j)) n j (results (job_id j))"
  shows "let q' = commit_all ops now n results js q in
    quiet (q_store q') \<and> sound (q_store q')
    \<and> stored (q_store q') = (\<lambda>i. if i \<in> job_id ` set js then None else stored (q_store q) i)
    \<and> (\<forall>j \<in> set js. answer (q_store q') (job_id j) = Some (keep_result (fin j)))
    \<and> (\<forall>i. i \<notin> job_id ` set js \<longrightarrow> answer (q_store q') i = answer (q_store q) i)
    \<and> tally q' = tally q + int (length js) \<and> q_in_flight q' = q_in_flight q"
  using assms(1-4)
proof (induction js arbitrary: q)
  case (Cons j js)
  define q1 where "q1 = commit ops (now (job_id j)) j (fin j) q"
  have "res_id (fin j) = job_id j" unfolding fin_def using ids by (rule finish_result_id)
  then have c: "quiet (q_store q1)" "sound (q_store q1)"
    "stored (q_store q1) = (stored (q_store q))(job_id j := None)"
    "answer (q_store q1) = (answer (q_store q))(job_id j \<mapsto> keep_result (fin j))"
    "tally q1 = tally q + 1" "q_in_flight q1 = q_in_flight q"
    using commit_quiet [of q j "fin j" "now (job_id j)"] Cons.prems by (auto simp: q1_def)
  have new: "job_id j \<notin> job_id ` set js" using Cons.prems(4) by simp
  have step: "commit_all ops now n results (j # js) q = commit_all ops now n results js q1"
    by (simp add: q1_def fin_def)
  show ?case
    using Cons.IH [of q1] Cons.prems c new unfolding step Let_def by (auto simp: fun_eq_iff)
qed simp

lemma drain_quiet:
  fixes now :: "string \<Rightarrow> time"
  assumes "quiet (q_store q)" "sound (q_store q)" "0 < cfg_max_batch (q_cfg q)"
    and l: "list_jobs ops (q_store q) = (Inr js, s)" and "js \<noteq> []"
    and ids: "\<And>b i r. exec b i = Some r \<Longrightarrow> res_id r = i"
    and lim: "q_limited q \<Longrightarrow> lim \<noteq> Limiter_Cancelled"
  defines "b \<equiv> take (nat (cfg_max_batch (q_cfg q))) js"
  defines "fin \<equiv> \<lambda>j. finish_result (now (job_id j)) (int (length b)) j (exec b (job_id j))"
  shows "let q' = drain ops now exec [] lim q in
    quiet (q_store q') \<and> sound (q_store q')
    \<and> stored (q_store q') = (\<lambda>i. if i \<in> job_id ` set b then None else stored (q_store q) i)
    \<and> (\<forall>j \<in> set b. answer (q_store q') (job_id j) = Some (keep_result (fin j)))
    \<and> (\<forall>i. i \<notin> job_id ` set b \<longrightarrow> answer (q_store q') i = answer (q_store q) i)
    \<and> tally q' = tally q + int (length b) \<and> q_in_flight q' = q_in_flight q"
proof -
  have s: "s = q_store q" using list_jobs_quiet [OF assms(1,2)] l by auto
  have js: "distinct (map job_id js)" "\<forall>j \<in> set js. clean (job_id j)"
    using list_jobs_Inr [OF l assms(2)] by auto
  have b: "distinct (map job_id b)" "\<forall>j \<in> set b. clean (job_id j)"
    using js unfolding b_def by (auto simp: take_map [symmetric] dest: in_set_takeD)
  obtain w where w: "q_limited q \<Longrightarrow> lim = Limiter_Waited w" using lim by (cases lim) auto
  define q0 where "q0 = (if q_limited q then q\<lparr>q_last_wait := w\<rparr> else q)
    \<lparr>q_batches := q_batches q + 1, q_in_flight := q_in_flight q + int (length b),
     q_batch_log := log_batch (int (length b)) (q_batch_log q)\<rparr>"
  have whole: "(if cfg_max_batch (q_cfg q) < int (length js)
      then take (nat (cfg_max_batch (q_cfg q))) js else js) = b"
    using assms(3) by (auto simp: b_def)
  define q2 where "q2 = commit_all ops now (int (length b)) (exec b) b q0"
  have "drain ops now exec [] lim q = run_batch ops now exec lim js q"
    using l \<open>js \<noteq> []\<close> s by (cases js) (simp_all add: drain_def on_store_def)
  also have "\<dots> = q2\<lparr>q_in_flight := q_in_flight q2 - int (length b)\<rparr>"
    using w unfolding run_batch_def whole Let_def q2_def q0_def by (cases "q_limited q") simp_all
  finally have d: "drain ops now exec [] lim q = q2\<lparr>q_in_flight := q_in_flight q2 - int (length b)\<rparr>" .
  have q0: "q_store q0 = q_store q" "tally q0 = tally q"
    "q_in_flight q0 = q_in_flight q + int (length b)"
    by (simp_all add: q0_def tally_def)
  have "quiet (q_store q0)" "sound (q_store q0)" using assms(1,2) by (simp_all add: q0_def)
  from commit_all_quiet [where results = "exec b" and now = now and n = "int (length b)",
      OF this b(2,1) ids]
  show ?thesis
    unfolding d q2_def [symmetric] fin_def Let_def q0 by (simp add: tally_def)
qed

end

section \<open>The depth bound\<close>

context job_store
begin

lemma enqueue_bound:
  assumes "quiet (q_store q)" "sound (q_store q)" "0 < cfg_max_depth (q_cfg q)"
    and "clean (job_id (stamp fresh now j0))" and e: "enqueue ops fresh now j0 q = (r, q')"
  shows "if cfg_max_depth (q_cfg q) \<le> int (card (dom (stored (q_store q))))
    then r = Inl Queue_Full \<and> q' = q\<lparr>q_dropped := q_dropped q + 1\<rparr>
    else r = Inr (stamp fresh now j0)
      \<and> stored (q_store q') = (stored (q_store q))(job_id (stamp fresh now j0) \<mapsto> keep_job (stamp fresh now j0))
      \<and> int (card (dom (stored (q_store q')))) \<le> cfg_max_depth (q_cfg q)"
proof -
  obtain js where js: "list_jobs ops (q_store q) = (Inr js, q_store q)" "distinct (map job_id js)"
    "job_id ` set js = dom (stored (q_store q))"
    using list_jobs_quiet_ids [OF assms(1,2)] by blast
  have fin: "finite (dom (stored (q_store q)))" using js(3) [symmetric] by simp
  have len: "int (length js) = int (card (dom (stored (q_store q))))"
    using distinct_card [OF js(2)] js(3) by simp
  have d: "depth ops q = (int (length js), q)" using js(1) by (simp add: depth_def on_store_def)
  show ?thesis
  proof (cases "cfg_max_depth (q_cfg q) \<le> int (length js)")
    case True
    then show ?thesis using e d assms(3) len by (auto simp: enqueue_def)
  next
    case False
    obtain s' where p: "put_job ops (q_store q) (stamp fresh now j0) = (Inr (), s')"
      using put_job_quiet [OF assms(1,2,4)] by blast
    have q': "r = Inr (stamp fresh now j0)" "q_store q' = s'"
      using e d assms(3) False p by (auto simp: enqueue_def Let_def on_store_def)
    have st: "stored s' = (stored (q_store q))(job_id (stamp fresh now j0) \<mapsto> keep_job (stamp fresh now j0))"
      using put_job_Inr [OF p] by simp
    then have "card (dom (stored s')) \<le> Suc (card (dom (stored (q_store q))))"
      using fin by (simp add: card_insert_if)
    then show ?thesis using q' st False len by simp
  qed
qed

end

section \<open>The order of a batch\<close>

lemma job_before_asym: "job_before a b \<Longrightarrow> \<not> job_before b a"
  by (auto simp: job_before_def split: if_splits)

lemma job_before_trans: "\<not> job_before b a \<Longrightarrow> \<not> job_before c b \<Longrightarrow> \<not> job_before c a"
  by (auto simp: job_before_def split: if_splits)

lemma sorted_sort_jobs: "sorted_wrt (\<lambda>a b. \<not> job_before b a) (sort_jobs js)"
  unfolding sort_jobs_def by (rule sorted_sort_slice [OF job_before_asym job_before_trans])

lemma sorted_wrt_take_drop:
  "sorted_wrt P xs \<Longrightarrow> a \<in> set (take n xs) \<Longrightarrow> b \<in> set (drop n xs) \<Longrightarrow> P a b"
  by (metis append_take_drop_id sorted_wrt_append)

section \<open>Interleavings and crashes\<close>

text \<open>
  Where the worker stands between two of its writes. A step is one client call, one write of the
  worker or a crash; the worker's steps run the code's own \<open>commit_put\<close>,
  \<open>commit_delete\<close> and \<open>commit_journal\<close>. Any operation may fail, as its store decides.
\<close>

datatype worker =
    Idle
  | Committing "(job \<times> jobresult) list"
  | Deleting job jobresult "(job \<times> jobresult) list"
  | Journalling job jobresult "(job \<times> jobresult) list"

record 's world =
  w_queue :: "'s queue"
  w_work :: worker
  w_accepted :: "string set"

definition after_restart :: "'s queue \<Rightarrow> 's queue" where
  "after_restart q = q\<lparr>q_completed := 0, q_failed := 0, q_batches := 0, q_in_flight := 0,
     q_dropped := 0, q_batch_log := [], q_last_wait := 0\<rparr>"

inductive qstep :: "'s store_ops \<Rightarrow> 's world \<Rightarrow> 's world \<Rightarrow> bool" for ops where
  accept: "enqueue ops fresh now j0 (w_queue w) = (Inr j, q') \<Longrightarrow>
    qstep ops w (w\<lparr>w_queue := q', w_accepted := insert (job_id j) (w_accepted w)\<rparr>)"
| refuse: "enqueue ops fresh now j0 (w_queue w) = (Inl e, q') \<Longrightarrow> qstep ops w (w\<lparr>w_queue := q'\<rparr>)"
| select: "w_work w = Idle \<Longrightarrow> on_store (list_jobs ops) (w_queue w) = (Inr js, q') \<Longrightarrow>
    (\<forall>i r. results i = Some r \<longrightarrow> res_id r = i) \<Longrightarrow>
    b = map (\<lambda>j. (j, finish_result now m j (results (job_id j)))) (take n js) \<Longrightarrow>
    qstep ops w (w\<lparr>w_queue := q', w_work := Committing b\<rparr>)"
| no_listing: "on_store (list_jobs ops) (w_queue w) = (Inl e, q') \<Longrightarrow> qstep ops w (w\<lparr>w_queue := q'\<rparr>)"
| put_ok: "w_work w = Committing ((j, r) # b) \<Longrightarrow> commit_put ops r (w_queue w) = (Inr u, q') \<Longrightarrow>
    qstep ops w (w\<lparr>w_queue := q', w_work := Deleting j r b\<rparr>)"
| put_failed: "w_work w = Committing ((j, r) # b) \<Longrightarrow> commit_put ops r (w_queue w) = (Inl e, q') \<Longrightarrow>
    qstep ops w (w\<lparr>w_queue := q', w_work := Committing b\<rparr>)"
| delete: "w_work w = Deleting j r b \<Longrightarrow>
    qstep ops w (w\<lparr>w_queue := commit_delete ops j (w_queue w), w_work := Journalling j r b\<rparr>)"
| journal: "w_work w = Journalling j r b \<Longrightarrow>
    qstep ops w (w\<lparr>w_queue := commit_journal ops now j r (w_queue w), w_work := Committing b\<rparr>)"
| finished: "w_work w = Committing [] \<Longrightarrow> qstep ops w (w\<lparr>w_work := Idle\<rparr>)"
| read: "on_store (\<lambda>s. get_result ops s i) (w_queue w) = (r, q') \<Longrightarrow> qstep ops w (w\<lparr>w_queue := q'\<rparr>)"
| crash: "qstep ops w (w\<lparr>w_queue := after_restart (w_queue w), w_work := Idle\<rparr>)"

abbreviation qsteps :: "'s store_ops \<Rightarrow> 's world \<Rightarrow> 's world \<Rightarrow> bool" where
  "qsteps ops \<equiv> (qstep ops)\<^sup>*\<^sup>*"

context job_store
begin

definition nothing_lost :: "'s world \<Rightarrow> bool" where
  "nothing_lost w \<longleftrightarrow> w_accepted w \<subseteq> held (q_store (w_queue w))
    \<and> (case w_work w of
         Committing b \<Rightarrow> \<forall>(j, r) \<in> set b. res_id r = job_id j
       | Deleting j r b \<Rightarrow> job_id j \<in> dom (answer (q_store (w_queue w)))
           \<and> (\<forall>(j, r) \<in> set b. res_id r = job_id j)
       | Journalling j r b \<Rightarrow> \<forall>(j, r) \<in> set b. res_id r = job_id j
       | Idle \<Rightarrow> True)"

lemma nothing_lost_same_work:
  assumes "nothing_lost w" "held (q_store (w_queue w)) \<subseteq> held (q_store q')"
    and "dom (answer (q_store (w_queue w))) \<subseteq> dom (answer (q_store q'))"
  shows "nothing_lost (w\<lparr>w_queue := q'\<rparr>)"
  using assms by (auto simp: nothing_lost_def split: worker.splits)

lemma read_same:
  assumes "on_store (list_jobs ops) q = (r, q') \<or> on_store (\<lambda>s. get_result ops s i) q = (r2, q')"
  shows "stored (q_store q') = stored (q_store q) \<and> answer (q_store q') = answer (q_store q)"
  using assms list_jobs_view [of "q_store q"] get_result_view [of "q_store q"]
  by (auto simp: on_store_eq)

lemma qstep_nothing_lost: "qstep ops w w' \<Longrightarrow> nothing_lost w \<Longrightarrow> nothing_lost w'"
proof (induction rule: qstep.induct)
  case (accept fresh now j0 w j q')
  then have "nothing_lost (w\<lparr>w_queue := q'\<rparr>)"
    using enqueue_held(1,3) [OF accept.hyps] by (intro nothing_lost_same_work) auto
  then show ?case
    using enqueue_held(2) [OF accept.hyps refl] by (auto simp: nothing_lost_def split: worker.splits)
next
  case (refuse fresh now j0 w e q')
  then show ?case
    using enqueue_held(1,3) [OF refuse.hyps] by (intro nothing_lost_same_work) auto
next
  case (select w js q' results b now m n)
  have "held (q_store q') = held (q_store (w_queue w))"
    using read_same select.hyps(2) by (fastforce simp: held_def)
  moreover have "\<forall>(j, r) \<in> set b. res_id r = job_id j"
    using select.hyps(3,4) finish_result_id by fastforce
  ultimately show ?case using select.prems by (auto simp: nothing_lost_def)
next
  case (no_listing w e q')
  then show ?case using read_same by (intro nothing_lost_same_work) (fastforce simp: held_def)+
next
  case (put_ok w j r b u q')
  then show ?case
    using commit_put_held [OF put_ok.hyps(2), of u] by (auto simp: nothing_lost_def)
next
  case (put_failed w j r b e q')
  then show ?case
    using commit_put_held [OF put_failed.hyps(2)] by (auto simp: nothing_lost_def)
next
  case (delete w j r b)
  then show ?case
    using commit_delete_held [of j "w_queue w"] by (auto simp: nothing_lost_def)
next
  case (journal w j r b now)
  then show ?case by (auto simp: nothing_lost_def commit_journal_held)
next
  case (finished w)
  then show ?case by (auto simp: nothing_lost_def)
next
  case (read i w r q')
  then show ?case using read_same by (intro nothing_lost_same_work) (fastforce simp: held_def)+
next
  case (crash w)
  then show ?case by (auto simp: nothing_lost_def after_restart_def)
qed

lemma qsteps_nothing_lost:
  assumes "qsteps ops w0 w" "w_accepted w0 = {}" "w_work w0 = Idle"
  shows "w_accepted w \<subseteq> held (q_store (w_queue w))"
proof -
  have "nothing_lost w0" using assms(2,3) by (simp add: nothing_lost_def)
  with assms(1) have "nothing_lost w"
    by (induction rule: rtranclp_induct) (auto dest: qstep_nothing_lost)
  then show ?thesis by (simp add: nothing_lost_def)
qed

end

section \<open>The upstreams answer under the job's id\<close>

lemma fake_result_id: "res_id (fake_result clock j) = job_id j"
  by (simp add: fake_result_def empty_result_def)

lemma exec_result_id: "res_id (exec_result run clock command prefix j) = job_id j"
  by (simp add: exec_result_def empty_result_def Let_def split: run_outcome.splits)

lemma execute_ids: "execute run clock up js i = Some r \<Longrightarrow> res_id r = i"
  by (auto simp: execute_def fake_result_id exec_result_id split: upstream.splits
      dest!: map_of_SomeD)

section \<open>Properties\<close>

definition fresh_world :: "'s world \<Rightarrow> bool" where
  "fresh_world w \<longleftrightarrow> w_accepted w = {} \<and> w_work w = Idle"

text \<open>A small queue for the witnesses: no depth bound, batches of two.\<close>

definition sample_cfg :: qconfig where
  "sample_cfg = \<lparr>cfg_name = ''gh'', cfg_dir = ''/q'', cfg_listen = [], cfg_max_batch = 2,
     cfg_max_wait = [], cfg_rate_positive = False, cfg_burst = 2, cfg_concurrency = 1,
     cfg_max_depth = 0, cfg_fsync = False, cfg_sqlite = [], cfg_upstream = ''fake'',
     cfg_command = [], cfg_args_prefix = [], cfg_fake_latency = [], cfg_fake_batch_latency = []\<rparr>"

definition sample_queue :: "'s \<Rightarrow> 's queue" where
  "sample_queue st = \<lparr>q_cfg = sample_cfg, q_store = st, q_torn = [], q_limited = False,
     q_up = Fake_Upstream 0 0 1, q_completed = 0, q_failed = 0, q_batches = 0, q_in_flight = 0,
     q_dropped = 0, q_batch_log = [], q_last_wait = 0\<rparr>"

definition empty_file :: file_store where
  "empty_file = \<lparr>fs_jobs = [], fs_results = [], fs_dlq = [], fs_journal = [], fs_faults = []\<rparr>"

definition empty_sqlite :: sqlite_store where
  "empty_sqlite = \<lparr>db_jobs = [], db_results = [], db_journal = [], db_faults = []\<rparr>"

definition sample_job :: "string \<Rightarrow> int \<Rightarrow> job" where
  "sample_job i p = \<lparr>job_id = i, job_args = [''pr''], job_timeout = 0, job_priority = p, job_created = 7\<rparr>"

lemmas sample_defs = sample_cfg_def sample_queue_def empty_file_def empty_sqlite_def sample_job_def
  empty_result_def

text \<open>
  C1: however client calls, the worker's writes, failing disks and crashes interleave, every job
  \<open>Enqueue\<close> accepted still stands in \<open>jobs/\<close> or has its record in
  \<open>results/\<close>.
\<close>

theorem accepted_jobs_survive:
  assumes "qsteps file_ops w0 w" "fresh_world w0" "i \<in> w_accepted w"
  shows "i \<in> dom (file_stored (q_store (w_queue w))) \<union> dom (file_answer (q_store (w_queue w)))"
  using file_spool.qsteps_nothing_lost [OF assms(1)] assms(2,3)
  by (auto simp: fresh_world_def file_spool.held_def)

definition sample_world :: "file_store world" where
  "sample_world = \<lparr>w_queue = sample_queue empty_file, w_work = Idle, w_accepted = {}\<rparr>"

definition sample_next :: "file_store world" where
  "sample_next = \<lparr>w_queue = sample_queue (empty_file\<lparr>fs_jobs := [(''a.json'', Doc (sample_job ''a'' 0))]\<rparr>),
     w_work = Idle, w_accepted = {''a''}\<rparr>"

lemma ascii_a [simp]: "json_str ''a'' = ''a''" "json_str ''b'' = ''b''" "json_str ''pr'' = ''pr''"
  by (rule json_str_ascii; simp)+

lemma sample_step: "qsteps file_ops sample_world sample_next"
proof -
  have "enqueue file_ops [] 0 (sample_job ''a'' 0) (w_queue sample_world)
      = (Inr (sample_job ''a'' 0), w_queue sample_next)"
    by (simp add: sample_world_def sample_next_def sample_defs enqueue_def stamp_def on_store_def
        file_ops_def file_put_job_def put_doc_def json_job_def doc_name_def Let_def)
  from qstep.accept [OF this] show ?thesis
    by (simp add: sample_world_def sample_next_def r_into_rtranclp sample_job_def)
qed

theorem accepted_jobs_survive_witness:
  "''a'' \<in> dom (file_stored (q_store (w_queue sample_next)))
    \<union> dom (file_answer (q_store (w_queue sample_next)))"
  by (rule accepted_jobs_survive [OF sample_step]) (simp_all add: fresh_world_def sample_world_def sample_next_def)


definition sample_mirror :: "(string, job dirent) table \<Rightarrow> (string, job_row) table \<Rightarrow> string set \<Rightarrow> mirror_store world" where
  "sample_mirror t u a = \<lparr>w_queue = sample_queue
     \<lparr>mir_file = empty_file\<lparr>fs_jobs := t\<rparr>, mir_sqlite = empty_sqlite\<lparr>db_jobs := u\<rparr>, mir_torn = []\<rparr>,
     w_work = Idle, w_accepted = a\<rparr>"

lemma sample_mirror_step:
  "qsteps mirror_ops (sample_mirror [] [] {})
    (sample_mirror [(''a.json'', Doc (sample_job ''a'' 0))] [(''a'', to_job_row (sample_job ''a'' 0))] {''a''})"
proof -
  have "enqueue mirror_ops [] 0 (sample_job ''a'' 0) (w_queue (sample_mirror [] [] {}))
      = (Inr (sample_job ''a'' 0), w_queue (sample_mirror [(''a.json'', Doc (sample_job ''a'' 0))]
          [(''a'', to_job_row (sample_job ''a'' 0))] {''a''}))"
    by (simp add: sample_mirror_def sample_defs enqueue_def stamp_def on_store_def on_file_def
        on_sqlite_def mirror_ops_def mirror_put_job_def file_put_job_def sqlite_put_job_def
        put_doc_def json_job_def doc_name_def Let_def)
  from qstep.accept [OF this] show ?thesis
    by (simp add: sample_mirror_def r_into_rtranclp sample_job_def)
qed



definition two_jobs :: file_store where
  "two_jobs = empty_file\<lparr>fs_jobs := [(''a.json'', Doc (sample_job ''a'' 0)), (''b.json'', Doc (sample_job ''b'' 5))]\<rparr>"

lemma two_jobs_sound: "file_quiet two_jobs" "file_sound two_jobs"
  by (simp_all add: two_jobs_def sample_defs file_view_defs docs_sound_def table_ok_def doc_name_def
      listable_def has_suffix_def has_prefix_def)

lemma two_jobs_listing:
  "file_list_jobs two_jobs = (Inr [sample_job ''b'' 5, sample_job ''a'' 0], two_jobs)"
proof -
  have "sort_key fst (fs_jobs two_jobs) = fs_jobs two_jobs"
    by (simp add: two_jobs_def empty_file_def)
  then show ?thesis
    by (simp add: file_list_jobs_def list_docs_def read_docs.simps listable_def has_suffix_def
        has_prefix_def sort_jobs_def sort_slice_def job_before_def sample_job_def two_jobs_def
        empty_file_def)
qed


text \<open>
  When a batch cannot take every waiting job, no job left behind ranks before one that is
  taken: priority first, then age. The batch has at most \<open>MaxBatch\<close> jobs.
\<close>

theorem batch_takes_first:
  assumes "file_list_jobs f = (Inr js, f')" "j \<in> set (take n js)" "k \<in> set (drop n js)"
  shows "length (take n js) \<le> n \<and> (job_priority k < job_priority j
    \<or> job_priority j = job_priority k \<and> job_created j \<le> job_created k)"
proof -
  obtain xs where "js = sort_jobs xs" using file_list_jobs_docs [OF assms(1)] by blast
  then have "\<not> job_before k j"
    using sorted_wrt_take_drop [OF sorted_sort_jobs] assms(2,3) by blast
  then show ?thesis by (auto simp: job_before_def split: if_splits)
qed

theorem batch_takes_first_witness:
  "length (take 1 [sample_job ''b'' 5, sample_job ''a'' 0]) \<le> 1
    \<and> (job_priority (sample_job ''a'' 0) < job_priority (sample_job ''b'' 5)
      \<or> job_priority (sample_job ''b'' 5) = job_priority (sample_job ''a'' 0)
        \<and> job_created (sample_job ''b'' 5) \<le> job_created (sample_job ''a'' 0))"
  by (rule batch_takes_first [OF two_jobs_listing]) simp_all


definition bounded_queue :: "int \<Rightarrow> file_store queue" where
  "bounded_queue n = (sample_queue two_jobs)\<lparr>q_cfg := sample_cfg\<lparr>cfg_max_depth := n\<rparr>\<rparr>"

lemma two_jobs_dom: "dom (file_stored two_jobs) = {''a'', ''b''}"
  by (auto simp: file_stored_def doc_at_def two_jobs_def empty_file_def doc_name_def
      split: if_splits option.splits)


text \<open>A listing that fails counts as an empty spool, so one read error lets a job past the bound.\<close>

lemma enqueue_past_bound_on_read_error:
  "fst (enqueue file_ops ''c'' 1 (sample_job [] 0)
     ((bounded_queue 2)\<lparr>q_store := two_jobs\<lparr>fs_faults := [True]\<rparr>\<rparr>))
   = Inr (sample_job ''c'' 0)"
  by (simp add: bounded_queue_def sample_queue_def sample_cfg_def enqueue_def stamp_def
      sample_job_def depth_def on_store_def file_ops_def file_list_jobs_def list_docs_def
      next_fault_def file_put_job_def put_doc_def two_jobs_def empty_file_def doc_name_def Let_def)

end
