(* ===== verification/Reconcile.thy ===== *)
theory Reconcile
  imports QueueSafety
begin

text \<open>
  What \<open>mirrorStore.Reconcile\<close> achieves on two healthy drivers: both hold the same ids,
  nothing either of them held is changed, and the reported ids are exactly those whose results
  disagree.
\<close>

section \<open>Listings as maps\<close>

lemma map_of_fold_update:
  "distinct (map key xs) \<Longrightarrow> map_of (fold (\<lambda>x. AList.update (key x) x) xs t) i
    = (case find (\<lambda>x. key x = i) xs of Some x \<Rightarrow> Some x | None \<Rightarrow> map_of t i)"
proof (induction xs arbitrary: t)
  case (Cons x xs)
  have "find (\<lambda>y. key y = key x) xs = None"
    using Cons.prems by (auto simp: find_None_iff) (metis image_eqI)
  with Cons show ?case by (auto split: option.splits)
qed simp

lemma find_key:
  "distinct (map key xs) \<Longrightarrow> find (\<lambda>x. key x = i) xs = Some x \<longleftrightarrow> x \<in> set xs \<and> key x = i"
proof (induction xs)
  case (Cons y ys)
  then show ?case by (cases "key y = i") (auto, (metis image_eqI)+)
qed simp

lemma map_of_by_id:
  "distinct (map key xs) \<Longrightarrow> map_of (by_id key xs) i = Some x \<longleftrightarrow> x \<in> set xs \<and> key x = i"
  using find_key [of key xs i x]
  by (auto simp: by_id_def map_of_fold_update split: option.splits)

lemma by_id_eq:
  assumes "distinct (map key xs)" "\<And>i x. m i = Some x \<longleftrightarrow> x \<in> set xs \<and> key x = i"
  shows "map_of (by_id key xs) = m"
proof
  fix i
  show "map_of (by_id key xs) i = m i"
    using map_of_by_id [OF assms(1), of i] assms(2) [of i]
    by (metis not_None_eq)
qed

lemma by_id_keys: "(i, x) \<in> set (by_id key xs) \<Longrightarrow> x \<in> set xs \<and> key x = i"
proof -
  have "(i, x) \<in> set (fold (\<lambda>x. AList.update (key x) x) xs t) \<Longrightarrow> (i, x) \<in> set t \<or> x \<in> set xs \<and> key x = i"
    for t
    by (induction xs arbitrary: t) (auto dest: set_update)
  then show "(i, x) \<in> set (by_id key xs) \<Longrightarrow> x \<in> set xs \<and> key x = i"
    by (force simp: by_id_def)
qed

lemma by_id_table_ok: "table_ok (by_id key xs)"
proof -
  have "table_ok t \<Longrightarrow> table_ok (fold (\<lambda>x. AList.update (key x) x) xs t)" for t
    by (induction xs arbitrary: t) (auto intro: table_ok_update)
  then show ?thesis by (simp add: by_id_def)
qed

lemma by_id_same_dom:
  "distinct (map key xs) \<Longrightarrow> dom (map_of (by_id key xs)) = key ` set xs"
  using map_of_by_id [of key xs] by (force simp: dom_def)

section \<open>Replaying missing records\<close>

definition fill :: "(string \<rightharpoonup> 'a) \<Rightarrow> (string \<rightharpoonup> 'a) \<Rightarrow> (string \<rightharpoonup> 'a) \<Rightarrow> ('a \<Rightarrow> 'a) \<Rightarrow> string \<rightharpoonup> 'a" where
  "fill m t other keep = (\<lambda>i. if other i = None \<and> t i \<noteq> None then map_option keep (t i) else m i)"

context job_store
begin

lemma replay_jobs:
  assumes "quiet s" "sound s" "table_ok t" "\<forall>(i, j) \<in> set t. job_id j = i \<and> clean i"
  shows "\<exists>s'. replay (put_job ops) t other s = (Inr (), s') \<and> quiet s' \<and> sound s'
    \<and> stored s' = fill (stored s) (map_of t) (map_of other) keep_job \<and> answer s' = answer s"
  using assms
proof (induction t arbitrary: s)
  case Nil
  then show ?case by (simp add: fill_def)
next
  case (Cons x t)
  obtain i j where x: "x = (i, j)" by (cases x)
  have j: "job_id j = i" "clean i" and i: "map_of t i = None"
    using Cons.prems(3,4) x by (auto simp: table_ok_def map_of_eq_None_iff)
  have t: "table_ok t" "\<forall>(i, j) \<in> set t. job_id j = i \<and> clean i"
    using Cons.prems(3,4) by (auto simp: table_ok_def)
  show ?case
  proof (cases "map_of other i = None")
    case False
    with Cons.IH [OF Cons.prems(1,2) t] x show ?thesis
      by (auto simp: fill_def fun_eq_iff i)
  next
    case True
    obtain s1 where s1: "put_job ops s j = (Inr (), s1)" "quiet s1"
      using put_job_quiet [OF Cons.prems(1,2)] j by blast
    have v: "sound s1" "stored s1 = (stored s)(i \<mapsto> keep_job j)" "answer s1 = answer s"
      using put_job_sound [OF s1(1) Cons.prems(2)] put_job_Inr [OF s1(1)] j by auto
    with Cons.IH [OF s1(2) v(1) t] x True s1 show ?thesis
      by (auto simp: fill_def fun_eq_iff i)
  qed
qed

lemma replay_results:
  assumes "quiet s" "sound s" "table_ok t" "\<forall>(i, r) \<in> set t. res_id r = i \<and> clean i"
  shows "\<exists>s'. replay (put_result ops) t other s = (Inr (), s') \<and> quiet s' \<and> sound s'
    \<and> answer s' = fill (answer s) (map_of t) (map_of other) keep_result \<and> stored s' = stored s"
  using assms
proof (induction t arbitrary: s)
  case Nil
  then show ?case by (simp add: fill_def)
next
  case (Cons x t)
  obtain i r where x: "x = (i, r)" by (cases x)
  have r: "res_id r = i" "clean i" and i: "map_of t i = None"
    using Cons.prems(3,4) x by (auto simp: table_ok_def map_of_eq_None_iff)
  have t: "table_ok t" "\<forall>(i, r) \<in> set t. res_id r = i \<and> clean i"
    using Cons.prems(3,4) by (auto simp: table_ok_def)
  show ?case
  proof (cases "map_of other i = None")
    case False
    with Cons.IH [OF Cons.prems(1,2) t] x show ?thesis
      by (auto simp: fill_def fun_eq_iff i)
  next
    case True
    obtain s1 where s1: "put_result ops s r = (Inr (), s1)" "quiet s1"
      using put_result_quiet [OF Cons.prems(1,2), of r] r by auto
    have v: "sound s1" "answer s1 = (answer s)(i \<mapsto> keep_result r)" "stored s1 = stored s"
      using put_result_sound [OF s1(1) Cons.prems(2)] put_result_Inr [OF s1(1)] r by auto
    with Cons.IH [OF s1(2) v(1) t] x True s1 show ?thesis
      by (auto simp: fill_def fun_eq_iff i)
  qed
qed

end

section \<open>Both listings of a healthy mirror\<close>

definition ids_clean :: "sqlite_store \<Rightarrow> bool" where
  "ids_clean d \<longleftrightarrow> (\<forall>i \<in> keys (db_jobs d) \<union> keys (db_results d). clean_id i)"

lemma file_jobs_table:
  assumes "file_quiet f" "file_sound f"
  obtains js where "file_list_jobs f = (Inr js, f)" "table_ok (by_id job_id js)"
    "map_of (by_id job_id js) = file_stored f"
    "\<forall>(i, j) \<in> set (by_id job_id js). job_id j = i \<and> clean_id i"
proof -
  obtain js where js: "file_list_jobs f = (Inr js, f)"
    and all: "\<forall>i j. file_stored f i = Some j \<longrightarrow> job_id j = i \<and> j \<in> set js"
    using file_list_jobs_quiet [OF assms] by blast
  note v = file_list_jobs_view [OF js assms(2)]
  have "map_of (by_id job_id js) = file_stored f" using v all by (intro by_id_eq) auto
  moreover have "\<forall>(i, j) \<in> set (by_id job_id js). job_id j = i \<and> clean_id i"
    using v by (auto dest: by_id_keys)
  ultimately show thesis using that js by_id_table_ok by blast
qed

lemma sqlite_jobs_table:
  assumes "sqlite_quiet d" "sqlite_sound d"
  obtains js where "sqlite_list_jobs d = (Inr js, d)" "table_ok (by_id job_id js)"
    "map_of (by_id job_id js) = sqlite_stored d"
    "\<forall>(i, j) \<in> set (by_id job_id js). job_id j = i \<and> sqlite_stored d i \<noteq> None"
proof -
  obtain js where js: "sqlite_list_jobs d = (Inr js, d)"
    and all: "\<forall>i j. sqlite_stored d i = Some j \<longrightarrow> job_id j = i \<and> j \<in> set js"
    using sqlite_list_jobs_quiet [OF assms] by blast
  note v = sqlite_list_jobs_view [OF js assms(2)]
  have "map_of (by_id job_id js) = sqlite_stored d" using v all by (intro by_id_eq) auto
  moreover have "\<forall>(i, j) \<in> set (by_id job_id js). job_id j = i \<and> sqlite_stored d i \<noteq> None"
    using v by (auto dest: by_id_keys)
  ultimately show thesis using that js by_id_table_ok by blast
qed

lemma file_results_table:
  assumes "file_quiet f" "file_sound f"
  obtains rs where "file_list_results f = (Inr rs, f)" "table_ok (by_id res_id rs)"
    "map_of (by_id res_id rs) = file_answer f"
    "\<forall>(i, r) \<in> set (by_id res_id rs). res_id r = i \<and> clean_id i"
proof -
  have ds: "docs_sound res_id (fs_results f)" using assms(2) by (simp add: file_sound_def)
  obtain rs where l: "list_docs [] (fs_results f) = (Inr rs, [])"
    and all: "\<forall>i r. file_answer f i = Some r \<longrightarrow> res_id r = i \<and> r \<in> set rs"
    using list_docs_quiet [OF ds] by (auto simp: file_answer_def)
  have rs: "file_list_results f = (Inr rs, f)"
    using l assms(1) by (simp add: file_list_results_def file_quiet_def)
  have v: "distinct (map res_id rs)" "\<forall>r \<in> set rs. file_answer f (res_id r) = Some r \<and> clean_id (res_id r)"
    using list_docs_view [OF l ds] by (auto simp: file_answer_def)
  have "map_of (by_id res_id rs) = file_answer f" using v all by (intro by_id_eq) auto
  moreover have "\<forall>(i, r) \<in> set (by_id res_id rs). res_id r = i \<and> clean_id i"
    using v by (auto dest: by_id_keys)
  ultimately show thesis using that rs by_id_table_ok by blast
qed

lemma sqlite_results_table:
  assumes "sqlite_quiet d" "sqlite_sound d"
  obtains rs where "sqlite_list_results d = (Inr rs, d)" "table_ok (by_id res_id rs)"
    "map_of (by_id res_id rs) = sqlite_answer d"
    "\<forall>(i, r) \<in> set (by_id res_id rs). res_id r = i \<and> sqlite_answer d i \<noteq> None"
proof -
  define rs where "rs = map (\<lambda>(i, w). scan_result i w) (db_results d)"
  have rs: "sqlite_list_results d = (Inr rs, d)"
    using assms(1) by (simp add: sqlite_list_results_def sqlite_quiet_def rs_def)
  have t: "table_ok (db_results d)" using assms(2) by (simp add: sqlite_sound_def)
  have ids: "map res_id rs = map fst (db_results d)" by (auto simp: rs_def)
  then have dist: "distinct (map res_id rs)" using t by (simp add: table_ok_def)
  have mem: "r \<in> set rs \<longleftrightarrow> sqlite_answer d (res_id r) = Some r" for r
    using t by (force simp: rs_def sqlite_answer_def table_ok_map_of [symmetric])
  have id: "sqlite_answer d i = Some r \<Longrightarrow> res_id r = i" for i r
    by (auto simp: sqlite_answer_def)
  have "map_of (by_id res_id rs) = sqlite_answer d" using dist mem id by (intro by_id_eq) auto
  moreover have "\<forall>(i, r) \<in> set (by_id res_id rs). res_id r = i \<and> sqlite_answer d i \<noteq> None"
    using mem by (auto dest!: by_id_keys)
  ultimately show thesis using that rs by_id_table_ok by blast
qed

section \<open>Reconcile\<close>

lemma dom_fill: "dom (fill m t other keep) = dom m \<union> (dom t - dom other)"
  by (auto simp: fill_def dom_def)

lemma fill_old: "dom m \<subseteq> dom other \<Longrightarrow> i \<in> dom m \<Longrightarrow> fill m t other keep i = m i"
  by (auto simp: fill_def)

lemma map_filter_fst_table:
  "table_ok t \<Longrightarrow> i \<in> set (map fst (filter P t)) \<longleftrightarrow> (\<exists>x. map_of t i = Some x \<and> P (i, x))"
  by (force simp: table_ok_map_of [symmetric])

lemma torn_ids_set:
  "table_ok t \<Longrightarrow> set (torn_ids t u) =
    {i. \<exists>r q. map_of t i = Some r \<and> map_of u i = Some q \<and> results_differ r q}"
  by (auto simp: torn_ids_def table_ok_map_of image_iff split: option.splits)

lemma dom_sqlite_answer: "keys (db_results d) = dom (sqlite_answer d)"
  unfolding dom_map_of_conv_image_fst [symmetric] by (auto simp: sqlite_answer_def dom_def)

lemma fill_extends: "m \<subseteq>\<^sub>m fill m t m keep"
  by (auto simp: map_le_def fill_def)

lemma reconcile_jobs_healthy:
  assumes "mirror_quiet m" "mirror_sound m" "ids_clean (mir_sqlite m)"
  shows "\<exists>f d. reconcile_jobs m = (Inr (), m\<lparr>mir_file := f, mir_sqlite := d\<rparr>)
    \<and> file_quiet f \<and> sqlite_quiet d \<and> file_sound f \<and> sqlite_sound d
    \<and> file_stored f = fill (file_stored (mir_file m)) (sqlite_stored (mir_sqlite m)) (file_stored (mir_file m)) json_job
    \<and> sqlite_stored d = fill (sqlite_stored (mir_sqlite m)) (file_stored (mir_file m)) (sqlite_stored (mir_sqlite m)) row_job
    \<and> file_answer f = file_answer (mir_file m) \<and> sqlite_answer d = sqlite_answer (mir_sqlite m)"
proof -
  have q: "file_quiet (mir_file m)" "file_sound (mir_file m)" "sqlite_quiet (mir_sqlite m)" "sqlite_sound (mir_sqlite m)"
    using assms by (auto simp: mirror_quiet_def mirror_sound_def)
  obtain fj where fj: "file_list_jobs (mir_file m) = (Inr fj, mir_file m)" "table_ok (by_id job_id fj)"
    "map_of (by_id job_id fj) = file_stored (mir_file m)"
    "\<forall>(i, j) \<in> set (by_id job_id fj). job_id j = i \<and> clean_id i"
    by (rule file_jobs_table [OF q(1,2)])
  obtain sj where sj: "sqlite_list_jobs (mir_sqlite m) = (Inr sj, mir_sqlite m)" "table_ok (by_id job_id sj)"
    "map_of (by_id job_id sj) = sqlite_stored (mir_sqlite m)"
    "\<forall>(i, j) \<in> set (by_id job_id sj). job_id j = i \<and> sqlite_stored (mir_sqlite m) i \<noteq> None"
    by (rule sqlite_jobs_table [OF q(3,4)])
  have clean: "\<forall>(i, j) \<in> set (by_id job_id sj). job_id j = i \<and> clean_id i"
    using sj(4) assms(3)
    by (auto simp: ids_clean_def sqlite_stored_def dest!: bspec map_of_SomeD)
  from sqlite_spool.replay_jobs [OF q(3,4) fj(2), of "by_id job_id sj"] fj(4)
  obtain d where d: "replay sqlite_put_job (by_id job_id fj) (by_id job_id sj) (mir_sqlite m) = (Inr (), d)"
    "sqlite_quiet d" "sqlite_sound d"
    "sqlite_stored d = fill (sqlite_stored (mir_sqlite m)) (file_stored (mir_file m)) (sqlite_stored (mir_sqlite m)) row_job"
    "sqlite_answer d = sqlite_answer (mir_sqlite m)"
    unfolding fj(3) sj(3) by (auto simp: sqlite_ops_def)
  from file_spool.replay_jobs [OF q(1,2) sj(2) clean, of "by_id job_id fj"]
  obtain f where f: "replay file_put_job (by_id job_id sj) (by_id job_id fj) (mir_file m) = (Inr (), f)"
    "file_quiet f" "file_sound f"
    "file_stored f = fill (file_stored (mir_file m)) (sqlite_stored (mir_sqlite m)) (file_stored (mir_file m)) json_job"
    "file_answer f = file_answer (mir_file m)"
    unfolding fj(3) sj(3) by (auto simp: file_ops_def)
  have "reconcile_jobs m = (Inr (), m\<lparr>mir_file := f, mir_sqlite := d\<rparr>)"
    by (simp add: reconcile_jobs_def on_file_def on_sqlite_def fj(1) sj(1) d(1) f(1) Let_def)
  with d f show ?thesis by blast
qed

lemma reconcile_results_healthy:
  assumes "mirror_quiet m" "mirror_sound m" "ids_clean (mir_sqlite m)"
  shows "\<exists>torn f d. reconcile_results m = (Inr torn, m\<lparr>mir_file := f, mir_sqlite := d, mir_torn := torn\<rparr>)
    \<and> file_quiet f \<and> sqlite_quiet d \<and> file_sound f \<and> sqlite_sound d
    \<and> file_answer f = fill (file_answer (mir_file m)) (sqlite_answer (mir_sqlite m)) (file_answer (mir_file m)) json_result
    \<and> sqlite_answer d = fill (sqlite_answer (mir_sqlite m)) (file_answer (mir_file m)) (sqlite_answer (mir_sqlite m)) row_result
    \<and> file_stored f = file_stored (mir_file m) \<and> sqlite_stored d = sqlite_stored (mir_sqlite m)
    \<and> sorted torn \<and> set torn = {i. \<exists>r q. file_answer (mir_file m) i = Some r
        \<and> sqlite_answer (mir_sqlite m) i = Some q \<and> results_differ r q}"
proof -
  have q: "file_quiet (mir_file m)" "file_sound (mir_file m)" "sqlite_quiet (mir_sqlite m)" "sqlite_sound (mir_sqlite m)"
    using assms by (auto simp: mirror_quiet_def mirror_sound_def)
  obtain fr where fr: "file_list_results (mir_file m) = (Inr fr, mir_file m)" "table_ok (by_id res_id fr)"
    "map_of (by_id res_id fr) = file_answer (mir_file m)"
    "\<forall>(i, r) \<in> set (by_id res_id fr). res_id r = i \<and> clean_id i"
    by (rule file_results_table [OF q(1,2)])
  obtain sr where sr: "sqlite_list_results (mir_sqlite m) = (Inr sr, mir_sqlite m)" "table_ok (by_id res_id sr)"
    "map_of (by_id res_id sr) = sqlite_answer (mir_sqlite m)"
    "\<forall>(i, r) \<in> set (by_id res_id sr). res_id r = i \<and> sqlite_answer (mir_sqlite m) i \<noteq> None"
    by (rule sqlite_results_table [OF q(3,4)])
  have clean: "\<forall>(i, r) \<in> set (by_id res_id sr). res_id r = i \<and> clean_id i"
    using sr(4) assms(3)
    by (auto simp: ids_clean_def sqlite_answer_def dest!: bspec map_of_SomeD)
  from sqlite_spool.replay_results [OF q(3,4) fr(2), of "by_id res_id sr"] fr(4)
  obtain d where d: "replay sqlite_put_result (by_id res_id fr) (by_id res_id sr) (mir_sqlite m) = (Inr (), d)"
    "sqlite_quiet d" "sqlite_sound d"
    "sqlite_answer d = fill (sqlite_answer (mir_sqlite m)) (file_answer (mir_file m)) (sqlite_answer (mir_sqlite m)) row_result"
    "sqlite_stored d = sqlite_stored (mir_sqlite m)"
    unfolding fr(3) sr(3) by (auto simp: sqlite_ops_def)
  from file_spool.replay_results [OF q(1,2) sr(2) clean, of "by_id res_id fr"]
  obtain f where f: "replay file_put_result (by_id res_id sr) (by_id res_id fr) (mir_file m) = (Inr (), f)"
    "file_quiet f" "file_sound f"
    "file_answer f = fill (file_answer (mir_file m)) (sqlite_answer (mir_sqlite m)) (file_answer (mir_file m)) json_result"
    "file_stored f = file_stored (mir_file m)"
    unfolding fr(3) sr(3) by (auto simp: file_ops_def)
  define torn where "torn = sort (torn_ids (by_id res_id fr) (by_id res_id sr))"
  have "reconcile_results m = (Inr torn, m\<lparr>mir_file := f, mir_sqlite := d, mir_torn := torn\<rparr>)"
    by (simp add: reconcile_results_def on_file_def on_sqlite_def fr(1) sr(1) d(1) f(1) Let_def torn_def)
  moreover have "set torn = {i. \<exists>r q. file_answer (mir_file m) i = Some r
      \<and> sqlite_answer (mir_sqlite m) i = Some q \<and> results_differ r q}"
    using torn_ids_set [OF fr(2), of "by_id res_id sr"] by (simp add: torn_def fr(3) sr(3))
  moreover have "sorted torn" by (simp add: torn_def)
  ultimately show ?thesis using d f by blast
qed

text \<open>
  C13: on two healthy drivers \<open>Reconcile\<close> succeeds; afterwards both hold the same job ids and
  the same result ids, namely all that either held; no record that a driver already held is
  changed; and the torn ids are, in order, exactly those both drivers had with results that differ.
\<close>

theorem reconcile_agrees:
  assumes "mirror_quiet m" "mirror_sound m" "ids_clean (mir_sqlite m)"
  shows "\<exists>torn m'. reconcile m = (Inr torn, m') \<and> mir_torn m' = torn \<and> sorted torn
    \<and> set torn = {i. \<exists>r q. file_answer (mir_file m) i = Some r
        \<and> sqlite_answer (mir_sqlite m) i = Some q \<and> results_differ r q}
    \<and> dom (file_stored (mir_file m')) = dom (file_stored (mir_file m)) \<union> dom (sqlite_stored (mir_sqlite m))
    \<and> dom (sqlite_stored (mir_sqlite m')) = dom (file_stored (mir_file m'))
    \<and> dom (file_answer (mir_file m')) = dom (file_answer (mir_file m)) \<union> dom (sqlite_answer (mir_sqlite m))
    \<and> dom (sqlite_answer (mir_sqlite m')) = dom (file_answer (mir_file m'))
    \<and> file_stored (mir_file m) \<subseteq>\<^sub>m file_stored (mir_file m')
    \<and> sqlite_stored (mir_sqlite m) \<subseteq>\<^sub>m sqlite_stored (mir_sqlite m')
    \<and> file_answer (mir_file m) \<subseteq>\<^sub>m file_answer (mir_file m')
    \<and> sqlite_answer (mir_sqlite m) \<subseteq>\<^sub>m sqlite_answer (mir_sqlite m')"
proof -
  obtain f d where j: "reconcile_jobs m = (Inr (), m\<lparr>mir_file := f, mir_sqlite := d\<rparr>)"
    "file_quiet f" "sqlite_quiet d" "file_sound f" "sqlite_sound d"
    "file_stored f = fill (file_stored (mir_file m)) (sqlite_stored (mir_sqlite m)) (file_stored (mir_file m)) json_job"
    "sqlite_stored d = fill (sqlite_stored (mir_sqlite m)) (file_stored (mir_file m)) (sqlite_stored (mir_sqlite m)) row_job"
    "file_answer f = file_answer (mir_file m)" "sqlite_answer d = sqlite_answer (mir_sqlite m)"
    using reconcile_jobs_healthy [OF assms] by blast
  define m1 where "m1 = m\<lparr>mir_file := f, mir_sqlite := d\<rparr>"
  have "ids_clean d"
  proof -
    have "clean_id i" if "i \<in> keys (db_jobs d)" for i
    proof -
      have "i \<in> dom (sqlite_stored d)"
        using that by (auto simp: sqlite_stored_def dom_def keys_map_of)
      then have "i \<in> dom (sqlite_stored (mir_sqlite m)) \<or> i \<in> dom (file_stored (mir_file m))"
        unfolding j(7) dom_fill by blast
      then show ?thesis
      proof
        assume "i \<in> dom (sqlite_stored (mir_sqlite m))"
        then have "i \<in> keys (db_jobs (mir_sqlite m))"
          by (auto simp: sqlite_stored_def dom_def keys_map_of)
        then show ?thesis using assms(3) by (simp add: ids_clean_def)
      next
        assume "i \<in> dom (file_stored (mir_file m))"
        then show ?thesis
          using assms(2) doc_at_member [of job_id "fs_jobs (mir_file m)" i]
            docs_sound_Doc [of job_id "fs_jobs (mir_file m)" "doc_name i"]
          by (auto simp: mirror_sound_def file_view_defs dom_def)
      qed
    qed
    moreover have "keys (db_results d) = keys (db_results (mir_sqlite m))"
      using j(9) by (metis dom_sqlite_answer)
    ultimately show ?thesis using assms(3) by (auto simp: ids_clean_def)
  qed
  then obtain torn f' d' where r: "reconcile_results m1 = (Inr torn, m1\<lparr>mir_file := f', mir_sqlite := d', mir_torn := torn\<rparr>)"
    "file_answer f' = fill (file_answer f) (sqlite_answer d) (file_answer f) json_result"
    "sqlite_answer d' = fill (sqlite_answer d) (file_answer f) (sqlite_answer d) row_result"
    "file_stored f' = file_stored f" "sqlite_stored d' = sqlite_stored d" "sorted torn"
    "set torn = {i. \<exists>r q. file_answer f i = Some r \<and> sqlite_answer d i = Some q \<and> results_differ r q}"
    using reconcile_results_healthy [of m1] j
    by (auto simp: m1_def mirror_quiet_def mirror_sound_def)
  have "reconcile m = (Inr torn, m1\<lparr>mir_file := f', mir_sqlite := d', mir_torn := torn\<rparr>)"
    using j(1) r(1) by (simp add: reconcile_def m1_def)
  then show ?thesis
    using j(6-9) r(2-7) by (auto simp: dom_fill fill_extends)
qed

text \<open>One job only in the file driver, one only in SQLite.\<close>

definition split_mirror :: mirror_store where
  "split_mirror = \<lparr>mir_file = empty_file\<lparr>fs_jobs := [(''a.json'', Doc (sample_job ''a'' 0))]\<rparr>,
     mir_sqlite = empty_sqlite\<lparr>db_jobs := [(''b'', to_job_row (sample_job ''b'' 0))]\<rparr>, mir_torn = []\<rparr>"

theorem reconcile_agrees_witness:
  "dom (sqlite_stored (mir_sqlite (snd (reconcile split_mirror)))) = {''a'', ''b''}"
proof -
  have "mirror_quiet split_mirror" "mirror_sound split_mirror" "ids_clean (mir_sqlite split_mirror)"
    by (simp_all add: split_mirror_def sample_defs mirror_quiet_def mirror_sound_def file_view_defs
        sqlite_view_defs docs_sound_def table_ok_def doc_name_def listable_def has_suffix_def
        has_prefix_def ids_clean_def clean_id_def)
  from reconcile_agrees [OF this] show ?thesis
    by (auto simp: split_mirror_def sample_defs file_stored_def doc_at_def doc_name_def
        sqlite_stored_def dom_def split: if_splits option.splits)
qed

text \<open>
  The drivers do not keep the same bytes: JSON replaces a byte that is not UTF-8, the SQLite column
  does not. So one and the same result, written to both, reads back as two that differ.
\<close>

lemma mirror_write_reads_torn:
  "results_differ (json_result r) (row_result r)" if "res_output r = [CHR 0xFF]"
proof -
  have "json_str [CHR 0xFF] = replacement" by (simp add: json_str_bad byte_in_def)
  then show ?thesis
    using that by (simp add: results_differ_def json_result_def row_result_def scan_result_def
        to_result_row_def replacement_def)
qed

end
