(* ===== verification/PrCache.thy ===== *)
theory PrCache
  imports Paths TimeText
begin

text \<open>
  \<open>internal/cache/cache.go\<close>: the read-through cache of pull-request artifacts. The SQLite
  table, its faults and the counters are the state; clock readings and the answer of the fetcher
  are arguments. Single flight is a step relation over concurrent callers.
\<close>

section \<open>Configuration\<close>

record cache_config =
  cc_name :: string
  cc_dir :: string
  cc_sqlite :: string
  cc_listen :: string
  cc_ttl_text :: string
  cc_max_stale_text :: string
  cc_command :: string
  cc_repo_allow :: "string list"
  cc_max_body :: int
  cc_ttl :: duration
  cc_max_stale :: duration

datatype cache_config_err = Cache_Name_Required | Bad_Ttl | Bad_Max_Stale

definition cache_defaults :: "string \<Rightarrow> cache_config \<Rightarrow> cache_config" where
  "cache_defaults home c =
     (let d = expand_home home (if cc_dir c = [] then join_path [home, ''.lezz'', ''cache'', cc_name c]
                                else cc_dir c) in
      c\<lparr>cc_dir := d,
        cc_sqlite := expand_home home (if cc_sqlite c = [] then join_path [d, ''cache.db''] else cc_sqlite c),
        cc_listen := (if cc_listen c = [] then ''127.0.0.1:0'' else cc_listen c),
        cc_ttl_text := (if cc_ttl_text c = [] then ''60s'' else cc_ttl_text c),
        cc_max_stale_text := (if cc_max_stale_text c = [] then ''24h'' else cc_max_stale_text c)\<rparr>)"

definition normalize_cache :: "string \<Rightarrow> cache_config \<Rightarrow> (cache_config_err, cache_config) res" where
  "normalize_cache home c0 =
     (let c1 = c0\<lparr>cc_name := trim_space (cc_name c0)\<rparr> in
      if cc_name c1 = [] then Inl Cache_Name_Required
      else
        let c2 = cache_defaults home c1 in
        case parse_duration (cc_ttl_text c2) of
          None \<Rightarrow> Inl Bad_Ttl
        | Some t \<Rightarrow>
            (case parse_duration (cc_max_stale_text c2) of
               None \<Rightarrow> Inl Bad_Max_Stale
             | Some m \<Rightarrow>
                 Inr (c2\<lparr>cc_ttl := t, cc_max_stale := m,
                   cc_command := (if cc_command c2 = [] then ''gh'' else cc_command c2),
                   cc_max_body := (if cc_max_body c2 \<le> 0 then 16777216 else cc_max_body c2)\<rparr>)))"

section \<open>The table\<close>

record pr_row =
  pr_repo :: string
  pr_number :: int
  pr_kind :: string
  pr_body :: string
  pr_fetched :: string
  pr_expires :: string

record entry =
  en_repo :: string
  en_number :: int
  en_kind :: string
  en_body :: string
  en_fetched :: time
  en_expires :: time
  en_source :: string
  en_stale :: bool

record pr_cache =
  c_cfg :: cache_config
  c_rows :: "(string, pr_row) table"
  c_faults :: "bool list"
  c_hits :: int
  c_misses :: int
  c_stale :: int
  c_fetches :: int

datatype cache_err =
    Repo_Required
  | Number_Positive
  | Bad_Kind string
  | Not_Allowed string
  | Fetch_Failed string
  | Row_Failed string

definition cache_key :: "string \<Rightarrow> int \<Rightarrow> string \<Rightarrow> string" where
  "cache_key repo n kind = repo @ ''#'' @ dec_int n @ ''#'' @ kind"

definition validate_pr :: "cache_config \<Rightarrow> string \<Rightarrow> int \<Rightarrow> string \<Rightarrow> cache_err option" where
  "validate_pr c repo n kind =
     (if trim_space repo = [] then Some Repo_Required
      else if n \<le> 0 then Some Number_Positive
      else if kind \<noteq> ''view'' \<and> kind \<noteq> ''diff'' then Some (Bad_Kind kind)
      else if cc_repo_allow c \<noteq> [] \<and> repo \<notin> set (cc_repo_allow c) then Some (Not_Allowed repo)
      else None)"

definition row_entry :: "pr_row \<Rightarrow> entry" where
  "row_entry w = \<lparr>en_repo = pr_repo w, en_number = pr_number w, en_kind = pr_kind w,
     en_body = pr_body w, en_fetched = parse_time (pr_fetched w),
     en_expires = parse_time (pr_expires w), en_source = [], en_stale = False\<rparr>"

definition entry_row :: "entry \<Rightarrow> pr_row" where
  "entry_row e = \<lparr>pr_repo = en_repo e, pr_number = en_number e, pr_kind = en_kind e,
     pr_body = en_body e, pr_fetched = format_time (en_fetched e),
     pr_expires = format_time (en_expires e)\<rparr>"

definition get_row :: "string \<Rightarrow> pr_cache \<Rightarrow> entry option \<times> pr_cache" where
  "get_row key c =
     (let (bad, fs) = next_fault (c_faults c); c' = c\<lparr>c_faults := fs\<rparr> in
      (if bad then None else map_option row_entry (map_of (c_rows c) key), c'))"

definition put_row :: "string \<Rightarrow> entry \<Rightarrow> pr_cache \<Rightarrow> bool \<times> pr_cache" where
  "put_row key e c =
     (let (bad, fs) = next_fault (c_faults c); c' = c\<lparr>c_faults := fs\<rparr> in
      if bad then (False, c')
      else (True, c'\<lparr>c_rows := AList.update key (entry_row e) (c_rows c)\<rparr>))"

section \<open>Get\<close>

text \<open>The clock where \<open>Get\<close> and \<open>fetch\<close> read it, in that order.\<close>

record reads =
  at_get :: time
  at_fetch :: time
  at_stale :: time
  at_store :: time

text \<open>The row of a key, when it has not expired.\<close>

definition fresh_row :: "string \<Rightarrow> time \<Rightarrow> pr_cache \<Rightarrow> entry option \<times> pr_cache" where
  "fresh_row key now c =
     (let (r, c') = get_row key c in
      case r of
        None \<Rightarrow> (None, c')
      | Some e \<Rightarrow>
          if now < en_expires e
          then (Some (e\<lparr>en_source := ''cache''\<rparr>), c'\<lparr>c_hits := c_hits c' + 1\<rparr>)
          else (None, c'))"

text \<open>\<open>fetched\<close> is the fetcher's answer: an error text or the body.\<close>

definition stale_or_fail ::
    "string \<Rightarrow> time \<Rightarrow> string \<Rightarrow> pr_cache \<Rightarrow> (cache_err, entry) res \<times> pr_cache" where
  "stale_or_fail key now err c =
     (let (r, c') = get_row key c in
      case r of
        None \<Rightarrow> (Inl (Fetch_Failed err), c')
      | Some e \<Rightarrow>
          if cc_max_stale (c_cfg c) \<le> 0 \<or> sub_time now (en_fetched e) \<le> cc_max_stale (c_cfg c)
          then (Inr (e\<lparr>en_source := ''stale'', en_stale := True\<rparr>), c'\<lparr>c_stale := c_stale c' + 1\<rparr>)
          else (Inl (Fetch_Failed err), c'))"

definition new_entry :: "cache_config \<Rightarrow> string \<Rightarrow> int \<Rightarrow> string \<Rightarrow> string \<Rightarrow> time \<Rightarrow> entry" where
  "new_entry cfg repo n kind body now = \<lparr>en_repo = repo, en_number = n, en_kind = kind,
     en_body = body, en_fetched = now, en_expires = now + cc_ttl cfg, en_source = ''gh'',
     en_stale = False\<rparr>"

definition fetch_pr ::
    "reads \<Rightarrow> (string, string) res \<Rightarrow> string \<Rightarrow> int \<Rightarrow> string \<Rightarrow> bool \<Rightarrow> pr_cache
     \<Rightarrow> (cache_err, entry) res \<times> pr_cache" where
  "fetch_pr t fetched repo n kind refresh c0 =
     (let key = cache_key repo n kind;
          (hit, c) = (if refresh then (None, c0) else fresh_row key (at_fetch t) c0) in
      case hit of
        Some e \<Rightarrow> (Inr e, c)
      | None \<Rightarrow>
          let c1 = c\<lparr>c_fetches := c_fetches c + 1\<rparr> in
          case fetched of
            Inl err \<Rightarrow> stale_or_fail key (at_stale t) err c1
          | Inr body \<Rightarrow>
              let e = new_entry (c_cfg c1) repo n kind body (at_store t);
                  (ok, c2) = put_row key e c1 in
              if ok then (Inr e, c2) else (Inl (Row_Failed ''put''), c2))"

text \<open>\<open>Get\<close> when the caller becomes the leader of its flight.\<close>

definition get_pr ::
    "reads \<Rightarrow> (string, string) res \<Rightarrow> string \<Rightarrow> int \<Rightarrow> string \<Rightarrow> bool \<Rightarrow> pr_cache
     \<Rightarrow> (cache_err, entry) res \<times> pr_cache" where
  "get_pr t fetched repo n kind refresh c0 =
     (case validate_pr (c_cfg c0) repo n kind of
        Some e \<Rightarrow> (Inl e, c0)
      | None \<Rightarrow>
          let (hit, c) = (if refresh then (None, c0)
                else fresh_row (cache_key repo n kind) (at_get t) c0) in
          case hit of
            Some e \<Rightarrow> (Inr e, c)
          | None \<Rightarrow> fetch_pr t fetched repo n kind refresh (c\<lparr>c_misses := c_misses c + 1\<rparr>))"

section \<open>The gh fetcher\<close>

datatype gh_outcome = Gh_Ran string | Gh_Exited string | Gh_Not_Run string

definition gh_args :: "string \<Rightarrow> int \<Rightarrow> string \<Rightarrow> string list option" where
  "gh_args repo n kind =
     (if kind = ''view'' then
        Some [''pr'', ''view'', dec_int n, ''-R'', repo, ''--json'',
          ''number,title,state,url,author,body,createdAt,updatedAt,baseRefName,headRefName,isDraft,mergeable,additions,deletions,changedFiles,files,comments,reviewDecision'']
      else if kind = ''diff'' then Some [''pr'', ''diff'', dec_int n, ''-R'', repo]
      else None)"

definition gh_fetch ::
    "(string \<Rightarrow> string list \<Rightarrow> gh_outcome) \<Rightarrow> string \<Rightarrow> int \<Rightarrow> string \<Rightarrow> int \<Rightarrow> string
     \<Rightarrow> (string, string) res" where
  "gh_fetch run command max_body repo n kind =
     (case gh_args repo n kind of
        None \<Rightarrow> Inl ''unsupported kind''
      | Some args \<Rightarrow>
          (case run command args of
             Gh_Exited stderr \<Rightarrow> Inl (''gh: '' @ trim_space stderr)
           | Gh_Not_Run e \<Rightarrow> Inl e
           | Gh_Ran out \<Rightarrow>
               if 0 < max_body \<and> max_body < int (length out)
               then Inl (''response exceeds max_body_bytes ('' @ dec_int max_body @ '')'')
               else Inr out))"

section \<open>The HTTP surface\<close>

text \<open>\<open>quote\<close> is the \<open>%q\<close> verb.\<close>

definition err_text :: "(string \<Rightarrow> string) \<Rightarrow> cache_err \<Rightarrow> string" where
  "err_text quote e =
     (case e of
        Repo_Required \<Rightarrow> ''repo is required (owner/name)''
      | Number_Positive \<Rightarrow> ''number must be positive''
      | Bad_Kind k \<Rightarrow> ''kind must be view or diff, got '' @ quote k
      | Not_Allowed r \<Rightarrow> ''repo '' @ quote r @ '' is not in repo_allow''
      | Fetch_Failed t \<Rightarrow> t
      | Row_Failed t \<Rightarrow> t)"

definition err_status :: "string \<Rightarrow> int" where
  "err_status t =
     (if contains t ''required'' \<or> contains t ''must be'' \<or> contains t ''not in repo_allow''
      then 400 else 502)"

record pr_response =
  rs_status :: int
  rs_content_type :: string
  rs_cache :: string
  rs_stale :: bool
  rs_body :: string

record pr_query =
  qy_repo :: string
  qy_number :: string
  qy_kind :: string
  qy_refresh :: string

definition atoi_or_0 :: "string \<Rightarrow> int" where
  "atoi_or_0 s =
     (let neg = (s \<noteq> [] \<and> hd s = CHR ''-'');
          body = (if s \<noteq> [] \<and> (hd s = CHR ''-'' \<or> hd s = CHR ''+'') then tl s else s) in
      case undec body of
        None \<Rightarrow> 0
      | Some n \<Rightarrow>
          if neg then max (- 9223372036854775808) (- int n)
          else min 9223372036854775807 (int n))"

definition handle_pr ::
    "(string \<Rightarrow> string) \<Rightarrow> reads \<Rightarrow> (string \<Rightarrow> int \<Rightarrow> string \<Rightarrow> (string, string) res) \<Rightarrow> pr_query
     \<Rightarrow> pr_cache \<Rightarrow> pr_response \<times> pr_cache" where
  "handle_pr quote t fetch qy c =
     (let kind = (if qy_kind qy = [] then ''view'' else qy_kind qy);
          n = atoi_or_0 (qy_number qy);
          refresh = (qy_refresh qy = ''1'' \<or> qy_refresh qy = ''true'');
          (r, c') = get_pr t (fetch (qy_repo qy) n kind) (qy_repo qy) n kind refresh c in
      case r of
        Inl e \<Rightarrow>
          let text = err_text quote e in
          (\<lparr>rs_status = err_status text, rs_content_type = ''text/plain; charset=utf-8'',
            rs_cache = [], rs_stale = False, rs_body = text @ [CHR 0x0A]\<rparr>, c')
      | Inr e \<Rightarrow>
          (\<lparr>rs_status = 200,
            rs_content_type = (if kind = ''diff'' then ''text/plain; charset=utf-8'' else ''application/json''),
            rs_cache = en_source e, rs_stale = en_stale e, rs_body = en_body e\<rparr>, c'))"

section \<open>Single flight\<close>

text \<open>
  Callers of one cache, named by numbers. A caller finds a flight of its key and waits for it, or
  opens one and leads it; the leader stores its result, closes the flight, and only then takes
  the key out of the map.
\<close>

datatype 'r phase =
    Arriving string
  | Waiting nat
  | Leading string nat
  | Closing string nat 'r
  | Returned 'r
  | Gave_Up

record 'r flights =
  fl_open :: "string \<Rightarrow> nat option"
  fl_result :: "nat \<Rightarrow> 'r option"
  fl_next :: nat
  fl_phase :: "nat \<Rightarrow> 'r phase option"

inductive flight_step :: "'r flights \<Rightarrow> 'r flights \<Rightarrow> bool" where
  call: "fl_phase s i = None \<Longrightarrow>
    flight_step s (s\<lparr>fl_phase := (fl_phase s)(i \<mapsto> Arriving k)\<rparr>)"
| join: "fl_phase s i = Some (Arriving k) \<Longrightarrow> fl_open s k = Some f \<Longrightarrow>
    flight_step s (s\<lparr>fl_phase := (fl_phase s)(i \<mapsto> Waiting f)\<rparr>)"
| lead: "fl_phase s i = Some (Arriving k) \<Longrightarrow> fl_open s k = None \<Longrightarrow> f = fl_next s \<Longrightarrow>
    flight_step s (s\<lparr>fl_open := (fl_open s)(k \<mapsto> f), fl_next := Suc f,
      fl_phase := (fl_phase s)(i \<mapsto> Leading k f)\<rparr>)"
| land: "fl_phase s i = Some (Leading k f) \<Longrightarrow>
    flight_step s (s\<lparr>fl_result := (fl_result s)(f \<mapsto> r),
      fl_phase := (fl_phase s)(i \<mapsto> Closing k f r)\<rparr>)"
| close: "fl_phase s i = Some (Closing k f r) \<Longrightarrow>
    flight_step s (s\<lparr>fl_open := (fl_open s)(k := None), fl_phase := (fl_phase s)(i \<mapsto> Returned r)\<rparr>)"
| wake: "fl_phase s i = Some (Waiting f) \<Longrightarrow> fl_result s f = Some r \<Longrightarrow>
    flight_step s (s\<lparr>fl_phase := (fl_phase s)(i \<mapsto> Returned r)\<rparr>)"
| cancel: "fl_phase s i = Some (Waiting f) \<Longrightarrow>
    flight_step s (s\<lparr>fl_phase := (fl_phase s)(i \<mapsto> Gave_Up)\<rparr>)"

definition no_flights :: "'r flights" where
  "no_flights = \<lparr>fl_open = (\<lambda>_. None), fl_result = (\<lambda>_. None), fl_next = 0, fl_phase = (\<lambda>_. None)\<rparr>"

text \<open>The flight a caller leads, from opening it to taking it out of the map.\<close>

definition leads :: "'r flights \<Rightarrow> nat \<Rightarrow> (string \<times> nat) option" where
  "leads s i =
     (case fl_phase s i of
        Some (Leading k f) \<Rightarrow> Some (k, f)
      | Some (Closing k f r) \<Rightarrow> Some (k, f)
      | _ \<Rightarrow> None)"

definition flights_ok :: "'r flights \<Rightarrow> bool" where
  "flights_ok s \<longleftrightarrow>
     (\<forall>i k f. leads s i = Some (k, f) \<longrightarrow> fl_open s k = Some f)
     \<and> (\<forall>k f. fl_open s k = Some f \<longrightarrow> f < fl_next s \<and> (\<exists>i. leads s i = Some (k, f)))
     \<and> (\<forall>i j k f. leads s i = Some (k, f) \<longrightarrow> leads s j = Some (k, f) \<longrightarrow> i = j)
     \<and> (\<forall>f. fl_next s \<le> f \<longrightarrow> fl_result s f = None)
     \<and> (\<forall>k k' f. fl_open s k = Some f \<longrightarrow> fl_open s k' = Some f \<longrightarrow> k = k')"

lemma leads_update:
  "leads (s\<lparr>fl_phase := (fl_phase s)(i \<mapsto> p)\<rparr>) j =
    (if j = i then (case p of Leading k f \<Rightarrow> Some (k, f) | Closing k f r \<Rightarrow> Some (k, f) | _ \<Rightarrow> None)
     else leads s j)"
  by (auto simp: leads_def split: phase.splits)

lemma leads_other [simp]:
  "leads (s\<lparr>fl_open := a\<rparr>) = leads s" "leads (s\<lparr>fl_result := b\<rparr>) = leads s"
  "leads (s\<lparr>fl_next := n\<rparr>) = leads s"
  by (simp_all add: leads_def fun_eq_iff)

lemma leads_cases:
  "leads s i = Some (k, f) \<longleftrightarrow>
    fl_phase s i = Some (Leading k f) \<or> (\<exists>r. fl_phase s i = Some (Closing k f r))"
  by (auto simp: leads_def split: option.splits phase.splits)

lemma flights_ok_same:
  assumes "flights_ok s" "leads s' = leads s" "fl_open s' = fl_open s" "fl_next s' = fl_next s"
    and "\<And>f. fl_next s \<le> f \<Longrightarrow> fl_result s' f = None"
  shows "flights_ok s'"
  using assms unfolding flights_ok_def by simp

lemma flights_ok_result: "flights_ok s \<Longrightarrow> fl_next s \<le> f \<Longrightarrow> fl_result s f = None"
  unfolding flights_ok_def by blast

lemma flights_ok_leads:
  "flights_ok s \<Longrightarrow> leads s j = Some (k, g) \<Longrightarrow> fl_open s k = Some g \<and> g < fl_next s"
  unfolding flights_ok_def by blast

lemma flights_ok_unique:
  "flights_ok s \<Longrightarrow> leads s i = Some (k, f) \<Longrightarrow> leads s j = Some (k, f) \<Longrightarrow> i = j"
  unfolding flights_ok_def by blast

lemma flights_ok_open: "flights_ok s \<Longrightarrow> fl_open s k = Some f \<Longrightarrow> f < fl_next s \<and> (\<exists>i. leads s i = Some (k, f))"
  unfolding flights_ok_def by blast

lemma flights_ok_keys: "flights_ok s \<Longrightarrow> fl_open s k = Some f \<Longrightarrow> fl_open s k' = Some f \<Longrightarrow> k = k'"
  unfolding flights_ok_def by blast

lemma leads_not_leader:
  "leads s i = None \<Longrightarrow> (\<And>k f. p \<noteq> Leading k f) \<Longrightarrow> (\<And>k f r. p \<noteq> Closing k f r) \<Longrightarrow>
    leads (s\<lparr>fl_phase := (fl_phase s)(i \<mapsto> p)\<rparr>) = leads s"
  by (auto simp: leads_update fun_eq_iff split: phase.splits)

lemma flight_step_ok: "flight_step s s' \<Longrightarrow> flights_ok s \<Longrightarrow> flights_ok s'"
proof (induction rule: flight_step.induct)
  case (call s i k)
  then have "leads s i = None" by (simp add: leads_def)
  then show ?case
    by (intro flights_ok_same [OF call.prems])
      (simp_all add: leads_not_leader flights_ok_result [OF call.prems])
next
  case (join s i k f)
  then have "leads s i = None" by (simp add: leads_def)
  then show ?case
    by (intro flights_ok_same [OF join.prems])
      (simp_all add: leads_not_leader flights_ok_result [OF join.prems])
next
  case (wake s i f r)
  then have "leads s i = None" by (simp add: leads_def)
  then show ?case
    by (intro flights_ok_same [OF wake.prems])
      (simp_all add: leads_not_leader flights_ok_result [OF wake.prems])
next
  case (cancel s i f)
  then have "leads s i = None" by (simp add: leads_def)
  then show ?case
    by (intro flights_ok_same [OF cancel.prems])
      (simp_all add: leads_not_leader flights_ok_result [OF cancel.prems])
next
  case (land s i k f r)
  let ?s' = "s\<lparr>fl_result := (fl_result s)(f \<mapsto> r), fl_phase := (fl_phase s)(i \<mapsto> Closing k f r)\<rparr>"
  have me: "leads s i = Some (k, f)" using land.hyps by (simp add: leads_cases)
  then have same: "leads ?s' = leads s" by (auto simp: leads_def fun_eq_iff)
  have "f < fl_next s" using land.prems me unfolding flights_ok_def by blast
  then show ?case
    by (intro flights_ok_same [OF land.prems same])
      (simp_all add: flights_ok_result [OF land.prems])
next
  case (lead s i k f)
  let ?s' = "s\<lparr>fl_open := (fl_open s)(k \<mapsto> f), fl_next := Suc f, fl_phase := (fl_phase s)(i \<mapsto> Leading k f)\<rparr>"
  have l: "leads ?s' j = (if j = i then Some (k, f) else leads s j)" for j
    by (auto simp: leads_def)
  note ok = lead.prems
  have old: "leads s j = Some (k', g) \<Longrightarrow> k' \<noteq> k \<and> g < f \<and> fl_open s k' = Some g" for j k' g
    using flights_ok_leads [OF ok, of j k' g] lead.hyps by auto
  have none: "leads s i = None" using lead.hyps(1) by (simp add: leads_def)
  show ?case
    unfolding flights_ok_def l
  proof (intro conjI allI impI)
    fix a b
    assume "fl_open ?s' a = Some b"
    then show "b < fl_next ?s'"
      using flights_ok_open [OF ok, of a b] lead.hyps by (auto split: if_splits)
  next
    fix a b
    assume "fl_open ?s' a = Some b"
    then consider "a = k" "b = f" | "a \<noteq> k" "fl_open s a = Some b" by (auto split: if_splits)
    then show "\<exists>j. (if j = i then Some (k, f) else leads s j) = Some (a, b)"
    proof cases
      case 2
      then obtain j where "leads s j = Some (a, b)" using flights_ok_open [OF ok] by blast
      then show ?thesis using none by (intro exI [of _ j]) auto
    qed auto
  next
    fix a b c
    assume "fl_open ?s' a = Some c" "fl_open ?s' b = Some c"
    then show "a = b"
      using flights_ok_open [OF ok, of _ c] flights_ok_keys [OF ok, of a c b] lead.hyps
      by (auto split: if_splits)
  next
    fix a b c
    assume "(if a = i then Some (k, f) else leads s a) = Some (b, c)"
    then show "fl_open ?s' b = Some c" using old [of a b c] by (auto split: if_splits)
  next
    fix a b c d
    assume "(if a = i then Some (k, f) else leads s a) = Some (c, d)"
      "(if b = i then Some (k, f) else leads s b) = Some (c, d)"
    then show "a = b"
      using old [of _ c d] flights_ok_unique [OF ok, of a c d b] by (auto split: if_splits)
  next
    fix a
    assume "fl_next ?s' \<le> a"
    then show "fl_result ?s' a = None" using flights_ok_result [OF ok] lead.hyps by simp
  qed
next
  case (close s i k f r)
  let ?s' = "s\<lparr>fl_open := (fl_open s)(k := None), fl_phase := (fl_phase s)(i \<mapsto> Returned r)\<rparr>"
  note ok = close.prems
  have l: "leads ?s' j = (if j = i then None else leads s j)" for j
    by (auto simp: leads_def)
  have me: "leads s i = Some (k, f)" using close.hyps by (simp add: leads_cases)
  have other: "k' \<noteq> k \<and> fl_open s k' = Some g" if "leads s j = Some (k', g)" "j \<noteq> i" for j k' g
    using flights_ok_leads [OF ok that(1)] flights_ok_leads [OF ok me]
      flights_ok_unique [OF ok me, of j] that by auto
  show ?case
    unfolding flights_ok_def l
  proof (intro conjI allI impI)
    fix a b
    assume "fl_open ?s' a = Some b"
    then have o: "fl_open s a = Some b" "a \<noteq> k" by (auto split: if_splits)
    then show "b < fl_next ?s'" using flights_ok_open [OF ok] by auto
    obtain j where "leads s j = Some (a, b)" using flights_ok_open [OF ok o(1)] by blast
    moreover from this me o(2) have "j \<noteq> i" by auto
    ultimately show "\<exists>j. (if j = i then None else leads s j) = Some (a, b)" by auto
  next
    fix a b c
    assume "fl_open ?s' a = Some c" "fl_open ?s' b = Some c"
    then show "a = b" using flights_ok_keys [OF ok, of a c b] by (auto split: if_splits)
  next
    fix a b c
    assume "(if a = i then None else leads s a) = Some (b, c)"
    then show "fl_open ?s' b = Some c" using other [of a b c] by (auto split: if_splits)
  next
    fix a b c d
    assume "(if a = i then None else leads s a) = Some (c, d)"
      "(if b = i then None else leads s b) = Some (c, d)"
    then show "a = b" using flights_ok_unique [OF ok, of a c d b] by (auto split: if_splits)
  next
    fix a
    assume "fl_next ?s' \<le> a"
    then show "fl_result ?s' a = None" using flights_ok_result [OF ok] by simp
  qed
qed

lemma no_flights_ok: "flights_ok no_flights"
  by (simp add: flights_ok_def no_flights_def leads_def)

lemma reachable_flights_ok: "flight_step\<^sup>*\<^sup>* no_flights s \<Longrightarrow> flights_ok s"
  by (induction rule: rtranclp_induct) (auto intro: no_flights_ok flight_step_ok)

text \<open>
  C28: at any moment at most one caller leads a flight for a key, so concurrent misses of one key
  reach GitHub one at a time, and it leads exactly the flight the map shows to newcomers.
\<close>

theorem one_leader_per_key:
  assumes "flight_step\<^sup>*\<^sup>* no_flights s" "leads s i = Some (k, f)" "leads s j = Some (k, g)"
  shows "i = j \<and> f = g \<and> fl_open s k = Some f"
proof -
  have "flights_ok s" using reachable_flights_ok assms(1) by blast
  then have "fl_open s k = Some f" "fl_open s k = Some g"
    using assms(2,3) unfolding flights_ok_def by blast+
  then show ?thesis using \<open>flights_ok s\<close> assms(2,3) unfolding flights_ok_def by (metis option.inject)
qed

definition one_caller :: "nat flights" where
  "one_caller = \<lparr>fl_open = [''k'' \<mapsto> 0], fl_result = (\<lambda>_. None), fl_next = 1, fl_phase = [0 \<mapsto> Leading ''k'' 0]\<rparr>"

theorem one_leader_per_key_witness: "fl_open one_caller ''k'' = Some 0"
proof -
  define s1 :: "nat flights" where "s1 = no_flights\<lparr>fl_phase := (fl_phase no_flights)(0 \<mapsto> Arriving ''k'')\<rparr>"
  have "flight_step no_flights s1" unfolding s1_def by (rule flight_step.call) (simp add: no_flights_def)
  moreover have "flight_step s1 one_caller"
    using flight_step.lead [of s1 0 "''k''" 0] by (simp add: s1_def no_flights_def one_caller_def)
  ultimately have "flight_step\<^sup>*\<^sup>* no_flights one_caller" by auto
  from one_leader_per_key [OF this, of 0 "''k''" 0 0 0] show ?thesis
    by (simp add: leads_def one_caller_def)
qed

section \<open>Keys\<close>

lemma dec_int_no_hash: "0 < n \<Longrightarrow> CHR ''#'' \<notin> set (dec_int n)"
  by (simp add: dec_int_def not_digit_in_dec is_digit_def digit_val_def)

lemma kind_no_hash: "kind = ''view'' \<or> kind = ''diff'' \<Longrightarrow> CHR ''#'' \<notin> set kind"
  by auto

lemma last_cut_unique:
  fixes b :: char
  shows "x @ b # y = x' @ b # y' \<Longrightarrow> b \<notin> set y \<Longrightarrow> b \<notin> set y' \<Longrightarrow> x = x' \<and> y = y'"
proof -
  assume e: "x @ b # y = x' @ b # y'" and "b \<notin> set y" "b \<notin> set y'"
  then have "cut_last b (x @ b # y) = Some (x, y)" "cut_last b (x' @ b # y') = Some (x', y')"
    by (simp_all only: cut_last_Some simp_thms)
  with e have "Some (x, y) = Some (x', y')" by (simp only:)
  then show ?thesis by simp
qed

text \<open>
  Two requests that pass validation share a row and a flight only when they are the same
  request, even though a repository name may itself contain the separator.
\<close>

theorem cache_key_injective:
  assumes "validate_pr c repo n kind = None" "validate_pr c repo' n' kind' = None"
    and "cache_key repo n kind = cache_key repo' n' kind'"
  shows "repo = repo' \<and> n = n' \<and> kind = kind'"
proof -
  have "0 < n" "0 < n'" "kind = ''view'' \<or> kind = ''diff''" "kind' = ''view'' \<or> kind' = ''diff''"
    using assms(1,2) unfolding validate_pr_def by (metis not_le option.distinct(1))+
  then have v: "0 < n" "0 < n'" "CHR ''#'' \<notin> set kind" "CHR ''#'' \<notin> set kind'"
    using kind_no_hash by blast+
  have "(repo @ ''#'' @ dec_int n) @ CHR ''#'' # kind = (repo' @ ''#'' @ dec_int n') @ CHR ''#'' # kind'"
    using assms(3) by (simp add: cache_key_def)
  from last_cut_unique [OF this v(3,4)]
  have k: "repo @ CHR ''#'' # dec_int n = repo' @ CHR ''#'' # dec_int n'" "kind = kind'" by simp_all
  from last_cut_unique [OF k(1)] have "repo = repo'" "dec_int n = dec_int n'"
    using dec_int_no_hash v(1,2) by blast+
  then show ?thesis using v(1,2) \<open>kind = kind'\<close> by (simp add: dec_int_def)
qed

definition open_config :: cache_config where
  "open_config = \<lparr>cc_name = ''pr'', cc_dir = [], cc_sqlite = [], cc_listen = [], cc_ttl_text = [],
     cc_max_stale_text = [], cc_command = [], cc_repo_allow = [], cc_max_body = 0,
     cc_ttl = 60000000000, cc_max_stale = 0\<rparr>"

lemma valid_o_r: "validate_pr open_config ''o/r'' 7 ''diff'' = None"
proof -
  have "trim_space ''o/r'' = ''o/r''" by (rule trim_space_graphic) (simp_all add: graphic_def less_char_def)
  then show ?thesis by (simp add: validate_pr_def open_config_def)
qed

theorem cache_key_injective_witness: "''o/r'' = ''o/r'' \<and> (7::int) = 7 \<and> ''diff'' = ''diff''"
  by (rule cache_key_injective [OF valid_o_r valid_o_r refl])

section \<open>Reading through\<close>

lemma get_row_quiet: "c_faults c = [] \<Longrightarrow> get_row key c = (map_option row_entry (map_of (c_rows c) key), c)"
  by (simp add: get_row_def)

lemma row_entry_row:
  "year_4_digits (en_fetched e) \<Longrightarrow> year_4_digits (en_expires e) \<Longrightarrow>
    row_entry (entry_row e) = e\<lparr>en_source := [], en_stale := False\<rparr>"
  using parse_rfc3339_rfc3339 rfc3339_not_Nil
  by (simp add: row_entry_def entry_row_def parse_time_def format_time_def)


definition empty_cache :: pr_cache where
  "empty_cache = \<lparr>c_cfg = open_config, c_rows = [], c_faults = [], c_hits = 0, c_misses = 0,
     c_stale = 0, c_fetches = 0\<rparr>"

definition clock_at :: "time \<Rightarrow> reads" where
  "clock_at t = \<lparr>at_get = t, at_fetch = t, at_stale = t, at_store = t\<rparr>"


text \<open>
  When the fetch fails, the caller gets an old entry, marked stale, exactly when the table has
  one that is young enough for \<open>max_stale\<close> (or \<open>max_stale\<close> is not positive), and
  otherwise the fetch error; the table is not touched either way.
\<close>

theorem stale_only_within_bound:
  assumes "c_faults c = []" "validate_pr (c_cfg c) repo n kind = None"
    and "get_pr t (Inl err) repo n kind True c = (r, c1)"
  shows "r = (case map_of (c_rows c) (cache_key repo n kind) of
      None \<Rightarrow> Inl (Fetch_Failed err)
    | Some w \<Rightarrow>
        if 0 < cc_max_stale (c_cfg c)
          \<and> cc_max_stale (c_cfg c) < sub_time (at_stale t) (parse_time (pr_fetched w))
        then Inl (Fetch_Failed err)
        else Inr ((row_entry w)\<lparr>en_source := ''stale'', en_stale := True\<rparr>))
    \<and> c_rows c1 = c_rows c"
  using assms
  by (auto simp: get_pr_def fetch_pr_def stale_or_fail_def get_row_quiet Let_def row_entry_def
      split: option.splits if_splits)

theorem stale_only_within_bound_witness:
  "fst (get_pr (clock_at 9) (Inl ''down'') ''o/r'' 7 ''diff'' True empty_cache) = Inl (Fetch_Failed ''down'')"
  using stale_only_within_bound [of empty_cache "''o/r''" 7 "''diff''" "clock_at 9" "''down''",
      OF _ _ surjective_pairing] valid_o_r
  by (simp add: empty_cache_def)

section \<open>Status codes\<close>

lemma contains_middle: "contains (s @ p) p"
  using contains_append [of s p "[]"] by simp

lemma validation_is_400:
  assumes "validate_pr (c_cfg c) (qy_repo qy) (atoi_or_0 (qy_number qy))
      (if qy_kind qy = [] then ''view'' else qy_kind qy) = Some e"
  shows "rs_status (fst (handle_pr quote t fetch qy c)) = 400"
proof -
  have "contains (err_text quote e) ''required'' \<or> contains (err_text quote e) ''must be''
      \<or> contains (err_text quote e) ''not in repo_allow''"
    using assms contains_append [of "''kind ''" "''must be''" "'' view or diff, got '' @ quote _"]
      contains_middle [of "''repo '' @ quote _ @ '' is ''" "''not in repo_allow''"]
    by (auto simp: err_text_def validate_pr_def has_prefix_def split: if_splits)
  then show ?thesis
    using assms by (simp add: handle_pr_def get_pr_def Let_def err_status_def)
qed

text \<open>The text decides, not the kind of error: a failure of \<open>gh\<close> that speaks of something
  required is reported as the client's fault.\<close>

lemma upstream_failure_as_400: "err_status (err_text quote (Fetch_Failed ''gh: authentication required'')) = 400"
  by (simp add: err_text_def err_status_def has_prefix_def)

end
