(* ===== verification/JsonValue.thy ===== *)
theory JsonValue
  imports GoBase
begin

text \<open>
  Decoded JSON values, and how \<open>encoding/json\<close> fills a struct field from an object: every key
  that equals the field name up to case sets it, in the order of the text, and a value of another
  type is an error. An object keeps its keys in order with duplicates, as a \<open>RawMessage\<close> does.
\<close>

datatype json =
    JNull
  | JBool bool
  | JNum string
  | JStr string
  | JArr "json list"
  | JObj "(string \<times> json) list"

definition same_field :: "string \<Rightarrow> string \<Rightarrow> bool" where
  "same_field k f \<longleftrightarrow> lower k = lower f"

text \<open>One string field of a struct; \<open>None\<close> is a decoding error.\<close>

fun string_field :: "string \<Rightarrow> (string \<times> json) list \<Rightarrow> string \<Rightarrow> string option" where
  "string_field f [] acc = Some acc"
| "string_field f ((k, v) # kvs) acc =
     (if same_field k f then
        (case v of
           JStr t \<Rightarrow> string_field f kvs t
         | JNull \<Rightarrow> string_field f kvs acc
         | _ \<Rightarrow> None)
      else string_field f kvs acc)"

definition decode_string_field :: "string \<Rightarrow> json \<Rightarrow> string option" where
  "decode_string_field f j =
     (case j of JObj kvs \<Rightarrow> string_field f kvs [] | JNull \<Rightarrow> Some [] | _ \<Rightarrow> None)"

text \<open>What a reader that matches names exactly sees: the last value of the key.\<close>

definition exact_field :: "string \<Rightarrow> json \<Rightarrow> json option" where
  "exact_field f j = (case j of JObj kvs \<Rightarrow> map_of (rev kvs) f | _ \<Rightarrow> None)"

end
