(* ===== verification/StdioBridge.thy ===== *)
theory StdioBridge
  imports JsonValue Paths
begin

text \<open>
  \<open>internal/bridge/bridge.go\<close>: a child process that speaks JSON-RPC on its pipes behind an
  HTTP endpoint. Modelled are the configuration and its overlay, the environment of the child, the
  table of pending calls and the lines of the child, and the request handler with its tool
  allow-list. Messages are decoded JSON; the bytes of a line that does not decode are \<open>None\<close>.
\<close>

section \<open>Environment expansion\<close>

definition shell_special :: "char \<Rightarrow> bool" where
  "shell_special c \<longleftrightarrow> c \<in> set ''*#$@!?-'' \<or> is_digit c"

definition shell_name_char :: "char \<Rightarrow> bool" where
  "shell_name_char c \<longleftrightarrow> c = CHR ''_'' \<or> is_alnum c"

text \<open>\<open>os.getShellName\<close>: the name after a dollar sign and how many bytes it takes.\<close>

definition shell_name :: "string \<Rightarrow> string \<times> nat" where
  "shell_name s =
     (case s of
        [] \<Rightarrow> ([], 0)
      | c # cs \<Rightarrow>
          if c = CHR ''{'' then
            (if length s > 2 \<and> shell_special (s ! 1) \<and> s ! 2 = CHR ''}'' then ([s ! 1], 3)
             else
               case cut_at (CHR ''}'') cs of
                 None \<Rightarrow> ([], 1)
               | Some ([], r) \<Rightarrow> ([], 2)
               | Some (n, r) \<Rightarrow> (n, length n + 2))
          else if shell_special c then ([c], 1)
          else let n = takeWhile shell_name_char s in (n, length n))"

text \<open>\<open>os.Expand\<close>.\<close>

function os_expand :: "(string \<Rightarrow> string) \<Rightarrow> string \<Rightarrow> string" where
  "os_expand m s =
     (case s of
        [] \<Rightarrow> []
      | c # cs \<Rightarrow>
          if c = CHR ''$'' \<and> cs \<noteq> [] then
            let (n, w) = shell_name cs;
                out = (if n = [] \<and> 0 < w then [] else if n = [] then [c] else m n) in
            out @ os_expand m (drop w cs)
          else c # os_expand m cs)"
  by pat_completeness auto
termination
  by (relation "measure (length \<circ> snd)") auto

declare os_expand.simps [simp del]

text \<open>Index of \<open>:-\<close> in a key.\<close>

fun cut_default :: "string \<Rightarrow> (string \<times> string) option" where
  "cut_default (a # b # s) =
     (if a = CHR '':'' \<and> b = CHR ''-'' then Some ([], s)
      else map_option (\<lambda>(x, y). (a # x, y)) (cut_default (b # s)))"
| "cut_default s = None"

definition expand_key :: "(string \<rightharpoonup> string) \<Rightarrow> string \<Rightarrow> string" where
  "expand_key env key =
     (let get = (\<lambda>n. case env n of None \<Rightarrow> [] | Some v \<Rightarrow> v) in
      case cut_default key of
        None \<Rightarrow> get key
      | Some (n, def) \<Rightarrow> if get n \<noteq> [] then get n else def)"

definition expand_env :: "(string \<rightharpoonup> string) \<Rightarrow> string \<Rightarrow> string" where
  "expand_env env = os_expand (expand_key env)"

section \<open>Configuration\<close>

record bridge_config =
  bc_name :: string
  bc_repo :: string
  bc_command :: string
  bc_args :: "string list"
  bc_env :: "(string, string) table"
  bc_cwd :: string
  bc_listen :: string
  bc_allowed :: "string list"
  bc_timeout :: string
  bc_secrets :: "(string, string) table"

datatype bridge_err =
    Bridge_Name_Required
  | Bridge_Command_Required string
  | Bad_Request_Timeout string
  | Config_Unreadable string
  | Config_Unparsable string
  | Secret_Unnamed
  | Secret_Duplicate string
  | Secret_No_Resolver string
  | Secret_Unresolved string
  | Secret_Empty string

definition normalize_bridge ::
    "(string \<rightharpoonup> string) \<Rightarrow> bridge_config \<Rightarrow> (bridge_err, bridge_config) res" where
  "normalize_bridge env c0 =
     (let c = c0\<lparr>bc_name := trim_space (bc_name c0), bc_command := trim_space (bc_command c0)\<rparr> in
      if bc_name c = [] then Inl Bridge_Name_Required
      else if bc_command c = [] then Inl (Bridge_Command_Required (bc_name c))
      else
        let t = (if bc_timeout c = [] then ''120s'' else bc_timeout c) in
        if parse_duration t = None then Inl (Bad_Request_Timeout (bc_name c))
        else Inr (c\<lparr>bc_listen := (if bc_listen c = [] then ''127.0.0.1:0'' else bc_listen c),
          bc_timeout := t,
          bc_cwd := (if bc_cwd c = [] then [] else expand_env env (bc_cwd c)),
          bc_args := map (expand_env env) (bc_args c),
          bc_env := map (\<lambda>(k, v). (k, expand_env env v)) (bc_env c)\<rparr>))"

text \<open>A definition of the same name is replaced in place, a new one appended.\<close>

fun overlay_one :: "bridge_config \<Rightarrow> bridge_config list \<Rightarrow> bridge_config list" where
  "overlay_one c [] = [c]"
| "overlay_one c (d # ds) = (if bc_name d = bc_name c then c # ds else d # overlay_one c ds)"

text \<open>An override file: unreadable, not YAML, or a definition.\<close>

datatype override_file = Unreadable string | Unparsable string | Override bridge_config

fun overlay_all ::
    "(string \<rightharpoonup> string) \<Rightarrow> override_file list \<Rightarrow> bridge_config list \<Rightarrow> (bridge_err, bridge_config list) res" where
  "overlay_all env [] ds = Inr ds"
| "overlay_all env (Unreadable p # fs) ds = Inl (Config_Unreadable p)"
| "overlay_all env (Unparsable p # fs) ds = Inl (Config_Unparsable p)"
| "overlay_all env (Override c # fs) ds =
     and_then (normalize_bridge env c) (\<lambda>c'. overlay_all env fs (overlay_one c' ds))"

fun normalize_all ::
    "(string \<rightharpoonup> string) \<Rightarrow> bridge_config list \<Rightarrow> (bridge_err, bridge_config list) res" where
  "normalize_all env [] = Inr []"
| "normalize_all env (c # cs) =
     and_then (normalize_bridge env c) (\<lambda>c'. and_then (normalize_all env cs) (\<lambda>cs'. Inr (c' # cs')))"

text \<open>\<open>LoadConfigs\<close>: \<open>embedded\<close> are the definitions compiled in, \<open>files\<close> those of the
  override directory in name order.\<close>

definition load_configs ::
    "(string \<rightharpoonup> string) \<Rightarrow> bridge_config list \<Rightarrow> override_file list \<Rightarrow> (bridge_err, bridge_config list) res" where
  "load_configs env embedded files =
     and_then (overlay_all env files embedded) (normalize_all env)"

section \<open>The environment of the child\<close>

text \<open>\<open>resolveChildEnv\<close>; no resolver is \<open>None\<close>.\<close>

fun add_secrets ::
    "(string \<Rightarrow> string option) option \<Rightarrow> (string, string) table \<Rightarrow> (string, string) table
     \<Rightarrow> (bridge_err, (string, string) table) res" where
  "add_secrets resolve [] merged = Inr merged"
| "add_secrets resolve ((n, ref) # ss) merged =
     (if trim_space n = [] then Inl Secret_Unnamed
      else if map_of merged n \<noteq> None then Inl (Secret_Duplicate n)
      else
        case resolve of
          None \<Rightarrow> Inl (Secret_No_Resolver n)
        | Some f \<Rightarrow>
            (case f ref of
               None \<Rightarrow> Inl (Secret_Unresolved n)
             | Some v \<Rightarrow>
                 if trim_space v = [] then Inl (Secret_Empty n)
                 else add_secrets resolve ss (AList.update n v merged)))"

definition resolve_child_env ::
    "(string \<Rightarrow> string option) option \<Rightarrow> bridge_config \<Rightarrow> (bridge_err, (string, string) table) res" where
  "resolve_child_env resolve c = add_secrets resolve (bc_secrets c) (bc_env c)"

definition kept_variables :: "string list" where
  "kept_variables = [''PATH'', ''HOME'', ''TMPDIR'', ''LANG'', ''LC_ALL'', ''TZ'',
     ''SSL_CERT_FILE'', ''SSL_CERT_DIR'', ''XDG_CACHE_HOME'', ''XDG_CONFIG_HOME'',
     ''XDG_DATA_HOME'', ''UV_CACHE_DIR'', ''UV_PYTHON'', ''UV_PYTHON_INSTALL_DIR'']"

text \<open>\<open>childEnv\<close>, as name and value where the code joins them with an equals sign.\<close>

definition child_env :: "(string \<rightharpoonup> string) \<Rightarrow> (string, string) table \<Rightarrow> (string \<times> string) list" where
  "child_env env extra =
     concat (map (\<lambda>k. case env k of None \<Rightarrow> [] | Some v \<Rightarrow> [(k, v)]) kept_variables) @ extra"

definition spawn_env ::
    "(string \<rightharpoonup> string) \<Rightarrow> (string \<Rightarrow> string option) option \<Rightarrow> bridge_config
     \<Rightarrow> (bridge_err, (string \<times> string) list) res" where
  "spawn_env env resolve c = and_then (resolve_child_env resolve c) (\<lambda>m. Inr (child_env env m))"

section \<open>Pending calls\<close>

record rpc_error =
  re_code :: int
  re_message :: string

text \<open>A message as decoded; an absent or empty field is \<open>None\<close> or \<open>[]\<close>.\<close>

record rpc_message =
  rm_id :: "string option"
  rm_method :: string
  rm_params :: "json option"
  rm_result :: "json option"
  rm_error :: "rpc_error option"

text \<open>A waiting call owns a channel that takes one message.\<close>

record bridge =
  b_cfg :: bridge_config
  b_pending :: "string \<Rightarrow> rpc_message option option"
  b_next_id :: nat
  b_exited :: bool
  b_initialized :: bool
  b_init_result :: json
  b_written :: "rpc_message list"
  b_broken :: bool

definition plain_message :: rpc_message where
  "plain_message = \<lparr>rm_id = None, rm_method = [], rm_params = None, rm_result = None, rm_error = None\<rparr>"

definition write_message :: "rpc_message \<Rightarrow> bridge \<Rightarrow> bool \<times> bridge" where
  "write_message m b =
     (if b_broken b then (False, b) else (True, b\<lparr>b_written := b_written b @ [m]\<rparr>))"

text \<open>The first half of \<open>call\<close>: registers the key, then writes. The id is a uint64.\<close>

definition call_begin :: "string \<Rightarrow> json option \<Rightarrow> bridge \<Rightarrow> string \<times> bool \<times> bridge" where
  "call_begin meth params b =
     (let n = (b_next_id b + 1) mod 2 ^ 64; key = dec n;
          b1 = b\<lparr>b_next_id := n, b_pending := (b_pending b)(key \<mapsto> None)\<rparr>;
          (ok, b2) = write_message (plain_message\<lparr>rm_id := Some key, rm_method := meth, rm_params := params\<rparr>) b1 in
      (key, ok, b2))"

definition deliver :: "rpc_message \<Rightarrow> bridge \<Rightarrow> bridge" where
  "deliver m b =
     (case rm_id m of
        None \<Rightarrow> b
      | Some key \<Rightarrow>
          (case b_pending b key of
             Some None \<Rightarrow> b\<lparr>b_pending := (b_pending b)(key \<mapsto> Some m)\<rparr>
           | _ \<Rightarrow> b))"

text \<open>\<open>failPending\<close> takes the map away and puts an error into every channel still empty; the
  caller keeps its channel, which is what \<open>call_end\<close> reads.\<close>

definition exit_error :: rpc_message where
  "exit_error = plain_message\<lparr>rm_error := Some \<lparr>re_code = - 32603, re_message = ''bridge child exited''\<rparr>\<rparr>"

definition fail_pending :: "bridge \<Rightarrow> (string \<Rightarrow> rpc_message option) \<times> bridge" where
  "fail_pending b =
     ((\<lambda>k. case b_pending b k of None \<Rightarrow> None | Some None \<Rightarrow> Some exit_error | Some (Some m) \<Rightarrow> Some m),
      b\<lparr>b_pending := (\<lambda>_. None)\<rparr>)"

text \<open>The end of \<open>readLoop\<close>.\<close>

definition read_loop_end :: "bridge \<Rightarrow> (string \<Rightarrow> rpc_message option) \<times> bridge" where
  "read_loop_end b = fail_pending (b\<lparr>b_exited := True\<rparr>)"

text \<open>What ends the wait of \<open>call\<close>: a message in its channel, its context, or the child.\<close>

datatype wake = Woken rpc_message | Context_Done | Child_Done

datatype call_err = Rpc_Failed rpc_error | Call_Timeout | Child_Exited | Write_Failed

definition call_end :: "string \<Rightarrow> wake \<Rightarrow> bridge \<Rightarrow> (call_err, json option) res \<times> bridge" where
  "call_end key w b =
     (let b' = b\<lparr>b_pending := (b_pending b)(key := None)\<rparr> in
      case w of
        Woken m \<Rightarrow>
          (case rm_error m of Some e \<Rightarrow> (Inl (Rpc_Failed e), b') | None \<Rightarrow> (Inr (rm_result m), b'))
      | Context_Done \<Rightarrow> (Inl Call_Timeout, b')
      | Child_Done \<Rightarrow> (Inl Child_Exited, b'))"

definition call_failed_write :: "string \<Rightarrow> bridge \<Rightarrow> (call_err, json option) res \<times> bridge" where
  "call_failed_write key b = (Inl Write_Failed, b\<lparr>b_pending := (b_pending b)(key := None)\<rparr>)"

definition refuse_server_request :: "string \<Rightarrow> rpc_message" where
  "refuse_server_request i = plain_message\<lparr>rm_id := Some i, rm_error := Some \<lparr>re_code = - 32601,
     re_message = ''server-initiated requests are not supported by the lezz bridge''\<rparr>\<rparr>"

text \<open>One line of the child, already trimmed; \<open>None\<close> is a line that is not JSON.\<close>

definition handle_child_line :: "rpc_message option \<Rightarrow> bridge \<Rightarrow> bridge" where
  "handle_child_line line b =
     (case line of
        None \<Rightarrow> b
      | Some m \<Rightarrow>
          (case rm_id m of
             Some i \<Rightarrow>
               if rm_method m = [] then deliver m b
               else snd (write_message (refuse_server_request i) b)
           | None \<Rightarrow> b))"

section \<open>The MCP endpoint\<close>

definition tool_allowed :: "bridge_config \<Rightarrow> string \<Rightarrow> bool" where
  "tool_allowed c name \<longleftrightarrow> bc_allowed c = [] \<or> name \<in> set (bc_allowed c)"

text \<open>\<open>filterTools\<close>: the entries of \<open>tools\<close> whose decoded name is allowed.\<close>

definition entry_allowed :: "bridge_config \<Rightarrow> json \<Rightarrow> bool" where
  "entry_allowed c t = (case decode_string_field ''name'' t of None \<Rightarrow> False | Some n \<Rightarrow> tool_allowed c n)"

definition filter_tools :: "bridge_config \<Rightarrow> json \<Rightarrow> json" where
  "filter_tools c raw =
     (case raw of
        JObj kvs \<Rightarrow>
          let payload = AList.clearjunk (rev kvs) in
          (case map_of payload ''tools'' of
             Some (JArr ts) \<Rightarrow> JObj (AList.update ''tools'' (JArr (filter (entry_allowed c) ts)) payload)
           | Some JNull \<Rightarrow> JObj (AList.update ''tools'' (JArr []) payload)
           | _ \<Rightarrow> raw)
      | _ \<Rightarrow> raw)"

datatype mcp_response =
    Method_Not_Allowed
  | Accepted
  | Rpc_Error "string option" int
  | Rpc_Result "string option" json

datatype mcp_body = Body_Unreadable | Body_Not_Json | Body_Message rpc_message

definition err_code :: "call_err \<Rightarrow> int" where
  "err_code e = (case e of Rpc_Failed r \<Rightarrow> re_code r | _ \<Rightarrow> - 32603)"

definition rpc_reply :: "string option \<Rightarrow> (call_err, json option) res \<Rightarrow> mcp_response" where
  "rpc_reply i r =
     (case r of
        Inl e \<Rightarrow> Rpc_Error i (err_code e)
      | Inr None \<Rightarrow> Rpc_Result i (JObj [])
      | Inr (Some v) \<Rightarrow> Rpc_Result i v)"

text \<open>The response of \<open>handleMCP\<close> and the call it made to the child, if any; \<open>ask\<close> is
  what the child answers.\<close>

definition handle_mcp ::
    "(string \<Rightarrow> json option \<Rightarrow> (call_err, json option) res) \<Rightarrow> bridge \<Rightarrow> string \<Rightarrow> mcp_body
     \<Rightarrow> mcp_response \<times> (string \<times> json option) option" where
  "handle_mcp ask b http_method body =
     (if http_method \<noteq> ''POST'' then (Method_Not_Allowed, None)
      else
        case body of
          Body_Unreadable \<Rightarrow> (Rpc_Error None (- 32700), None)
        | Body_Not_Json \<Rightarrow> (Rpc_Error None (- 32700), None)
        | Body_Message req \<Rightarrow>
            let i = rm_id req; m = rm_method req in
            if trim_space m = [] then (Rpc_Error i (- 32600), None)
            else if i = None then (Accepted, None)
            else if m = ''initialize'' then (Rpc_Result i (b_init_result b), None)
            else if m = ''ping'' then (Rpc_Result i (JObj []), None)
            else if m = ''tools/list'' then
              (case ask ''tools/list'' None of
                 Inr (Some v) \<Rightarrow>
                   (rpc_reply i (Inr (Some (if bc_allowed (b_cfg b) = [] then v
                                            else filter_tools (b_cfg b) v))),
                    Some (''tools/list'', None))
               | r \<Rightarrow> (rpc_reply i r, Some (''tools/list'', None)))
            else if m = ''tools/call'' then
              (case (case rm_params req of None \<Rightarrow> Some [] | Some p \<Rightarrow> decode_string_field ''name'' p) of
                 None \<Rightarrow> (Rpc_Error i (- 32602), None)
               | Some n \<Rightarrow>
                   if n = [] then (Rpc_Error i (- 32602), None)
                   else if \<not> tool_allowed (b_cfg b) n then (Rpc_Error i (- 32602), None)
                   else (rpc_reply i (ask ''tools/call'' (rm_params req)), Some (''tools/call'', rm_params req)))
            else (rpc_reply i (ask m (rm_params req)), Some (m, rm_params req)))"

definition alive :: "bridge \<Rightarrow> bool" where
  "alive b \<longleftrightarrow> b_initialized b \<and> \<not> b_exited b"

definition handle_health :: "bridge \<Rightarrow> int" where
  "handle_health b = (if alive b then 200 else 503)"

section \<open>The allow-list\<close>

text \<open>The tools a client sees in a result.\<close>

definition listed_tools :: "json \<Rightarrow> json list" where
  "listed_tools j = (case exact_field ''tools'' j of Some (JArr ts) \<Rightarrow> ts | _ \<Rightarrow> [])"

lemma map_of_rev_clearjunk: "map_of (rev (AList.clearjunk t)) = map_of t"
proof -
  have "map_of (rev (AList.clearjunk t)) = map_of (AList.clearjunk t)"
    by (rule map_of_rev_distinct) (rule distinct_clearjunk)
  then show ?thesis by (simp add: map_of_clearjunk)
qed

lemma map_of_rev_update:
  "distinct (map fst t) \<Longrightarrow> map_of (rev (AList.update k v t)) k = Some v"
  by (simp add: map_of_rev_distinct distinct_update)

lemma filter_tools_listed:
  assumes "t \<in> set (listed_tools (filter_tools c v))"
  shows "entry_allowed c t"
proof (cases v)
  case (JObj kvs)
  let ?p = "AList.clearjunk (rev kvs)"
  have d: "distinct (map fst ?p)" by (rule distinct_clearjunk)
  have raw: "exact_field ''tools'' v = map_of ?p ''tools''"
    by (simp add: JObj exact_field_def map_of_clearjunk)
  show ?thesis
  proof (cases "map_of ?p ''tools''")
    case None
    then show ?thesis using assms raw JObj by (simp add: filter_tools_def listed_tools_def)
  next
    case (Some u)
    then show ?thesis
      using assms raw JObj map_of_rev_update [OF d]
      by (cases u) (auto simp: filter_tools_def listed_tools_def exact_field_def)
  qed
qed (use assms in \<open>auto simp: filter_tools_def listed_tools_def exact_field_def\<close>)

text \<open>
  C32: with a tool allow-list, a \<open>tools/call\<close> reaches the child only when the name the bridge
  decodes from its parameters is on the list, and a \<open>tools/list\<close> shows the client only tools
  on the list.
\<close>

theorem allow_list_enforced:
  assumes "handle_mcp ask b http_method (Body_Message req) = (resp, sent)" "bc_allowed (b_cfg b) \<noteq> []"
  shows "(\<forall>p. sent = Some (''tools/call'', p) \<longrightarrow> (\<exists>q n. p = Some q
        \<and> decode_string_field ''name'' q = Some n \<and> n \<in> set (bc_allowed (b_cfg b))))
    \<and> (\<forall>i v t. rm_method req = ''tools/list'' \<and> resp = Rpc_Result i v \<and> t \<in> set (listed_tools v)
        \<longrightarrow> entry_allowed (b_cfg b) t)"
proof (intro conjI allI impI)
  fix p
  assume s: "sent = Some (''tools/call'', p)"
  then have m: "rm_method req = ''tools/call''"
    using assms(1)
    by (auto simp: handle_mcp_def Let_def split: if_splits sum.splits option.splits)
  then show "\<exists>q n. p = Some q \<and> decode_string_field ''name'' q = Some n \<and> n \<in> set (bc_allowed (b_cfg b))"
    using assms s
    by (auto simp: handle_mcp_def Let_def tool_allowed_def split: if_splits option.splits)
next
  fix i v t
  assume a: "rm_method req = ''tools/list'' \<and> resp = Rpc_Result i v \<and> t \<in> set (listed_tools v)"
  then have "(\<exists>u. v = filter_tools (b_cfg b) u) \<or> v = JObj []"
    using assms
    by (auto simp: handle_mcp_def Let_def rpc_reply_def split: if_splits sum.splits option.splits)
  then show "entry_allowed (b_cfg b) t"
    using a filter_tools_listed by (auto simp: listed_tools_def exact_field_def)
qed

definition sample_bridge :: "string list \<Rightarrow> bridge" where
  "sample_bridge allow = \<lparr>b_cfg = \<lparr>bc_name = ''b'', bc_repo = [], bc_command = ''c'', bc_args = [],
       bc_env = [], bc_cwd = [], bc_listen = [], bc_allowed = allow, bc_timeout = [], bc_secrets = []\<rparr>,
     b_pending = (\<lambda>_. None), b_next_id = 0, b_exited = False, b_initialized = True,
     b_init_result = JObj [], b_written = [], b_broken = False\<rparr>"

definition call_request :: "(string \<times> json) list \<Rightarrow> rpc_message" where
  "call_request kvs = plain_message\<lparr>rm_id := Some ''1'', rm_method := ''tools/call'', rm_params := Some (JObj kvs)\<rparr>"

lemma trim_tools_call: "trim_space ''tools/call'' = ''tools/call''"
  by (rule trim_space_graphic) (simp_all add: graphic_def less_char_def)

lemma lower_NAME: "lower ''NAME'' = ''name''" "lower ''name'' = ''name''"
  by code_simp+

lemma sample_call:
  "handle_mcp ask (sample_bridge [''ok'']) ''POST'' (Body_Message (call_request [(''name'', JStr ''ok'')]))
    = (rpc_reply (Some ''1'') (ask ''tools/call'' (Some (JObj [(''name'', JStr ''ok'')]))),
       Some (''tools/call'', Some (JObj [(''name'', JStr ''ok'')])))"
  by (simp add: handle_mcp_def call_request_def sample_bridge_def tool_allowed_def
      decode_string_field_def same_field_def trim_tools_call plain_message_def Let_def)

theorem allow_list_enforced_witness:
  "\<exists>n. decode_string_field ''name'' (JObj [(''name'', JStr ''ok'')]) = Some n \<and> n \<in> set [''ok'']"
  using allow_list_enforced [OF sample_call] by (simp add: sample_bridge_def)

text \<open>
  The name the bridge decodes need not be the name the child reads: \<open>encoding/json\<close> matches keys
  without regard to case, and the parameters are forwarded as they came. Here the bridge sees the
  allowed name and the child, which reads the key exactly, another one.
\<close>

lemma allow_list_bypass:
  "snd (handle_mcp ask (sample_bridge [''ok'']) ''POST''
      (Body_Message (call_request [(''name'', JStr ''evil''), (''NAME'', JStr ''ok'')])))
    = Some (''tools/call'', Some (JObj [(''name'', JStr ''evil''), (''NAME'', JStr ''ok'')]))"
  and "exact_field ''name'' (JObj [(''name'', JStr ''evil''), (''NAME'', JStr ''ok'')]) = Some (JStr ''evil'')"
  by (simp_all add: handle_mcp_def call_request_def sample_bridge_def tool_allowed_def
      decode_string_field_def same_field_def trim_tools_call plain_message_def lower_NAME exact_field_def Let_def)

section \<open>Routing of replies\<close>

text \<open>What happens to a bridge: a call starts, the child sends a line, a call stops waiting, the
  child goes away.\<close>

datatype bridge_input =
    Begin string "json option"
  | Line "rpc_message option"
  | End string
  | Exit

fun bridge_event :: "bridge_input \<Rightarrow> bridge \<Rightarrow> bridge" where
  "bridge_event (Begin m p) b = snd (snd (call_begin m p b))"
| "bridge_event (Line l) b = handle_child_line l b"
| "bridge_event (End k) b = b\<lparr>b_pending := (b_pending b)(k := None)\<rparr>"
| "bridge_event Exit b = snd (read_loop_end b)"

definition is_begin :: "bridge_input \<Rightarrow> bool" where
  "is_begin e = (case e of Begin m p \<Rightarrow> True | _ \<Rightarrow> False)"

definition bridge_run :: "bridge_input list \<Rightarrow> bridge \<Rightarrow> bridge" where
  "bridge_run es b = fold bridge_event es b"

definition begins :: "bridge_input list \<Rightarrow> nat" where
  "begins es = length (filter is_begin es)"

definition routed :: "nat \<Rightarrow> bridge \<Rightarrow> bool" where
  "routed n b \<longleftrightarrow> b_next_id b = n \<and> (\<forall>k c. b_pending b k = Some c \<longrightarrow>
     (\<exists>i. k = dec i \<and> i \<le> n) \<and> (\<forall>m. c = Some m \<longrightarrow> rm_id m = Some k \<and> rm_method m = []))"

lemma routed_event:
  assumes "routed n b" "n < 2 ^ 64 - 1"
  shows "routed (if is_begin e then n + 1 else n) (bridge_event e b)"
proof (cases e)
  case (Begin m p)
  have "(n + 1) mod 2 ^ 64 = n + 1" using assms(2) by (intro mod_less) linarith
  then show ?thesis
    using assms(1) Begin
    by (auto simp: routed_def call_begin_def write_message_def is_begin_def Let_def)
      (metis le_SucI)+
next
  case (Line l)
  then show ?thesis
    using assms(1)
    by (auto simp: routed_def handle_child_line_def deliver_def write_message_def is_begin_def
        split: option.splits if_splits)
next
  case (End k)
  then show ?thesis using assms(1) by (auto simp: routed_def is_begin_def split: if_splits)
next
  case Exit
  then show ?thesis
    using assms(1) by (simp add: routed_def is_begin_def read_loop_end_def fail_pending_def)
qed

lemma routed_run: "routed n b \<Longrightarrow> n + begins es < 2 ^ 64 \<Longrightarrow> routed (n + begins es) (bridge_run es b)"
proof (induction es arbitrary: n b)
  case (Cons e es)
  have bs: "begins (e # es) = begins es + (if is_begin e then 1 else 0)" by (simp add: begins_def)
  show ?case
  proof (cases "is_begin e")
    case True
    then have "routed (n + 1) (bridge_event e b)"
      using routed_event [OF Cons.prems(1), of e] Cons.prems(2) by (simp add: bs)
    from Cons.IH [OF this] show ?thesis using Cons.prems(2) True by (simp add: bridge_run_def bs)
  next
    case False
    have "routed n (bridge_event e b)"
    proof (cases "n < 2 ^ 64 - 1")
      case True
      then show ?thesis using routed_event [OF Cons.prems(1) True, of e] False by simp
    next
      case large: False
      show ?thesis
        using Cons.prems(1) False
        by (cases e) (auto simp: routed_def handle_child_line_def deliver_def write_message_def
            is_begin_def read_loop_end_def fail_pending_def split: option.splits if_splits)
    qed
    from Cons.IH [OF this] show ?thesis using Cons.prems(2) False by (simp add: bridge_run_def bs)
  qed
qed (simp add: begins_def bridge_run_def)

text \<open>
  C31: in any run with fewer than 2^64 calls, a new call gets a key no waiting call has, so
  registering it takes no one's channel; whatever a channel holds is a reply that carries the
  key of that very call; and a line of the child fills at most the empty channel it names.
\<close>

theorem replies_reach_their_call:
  assumes "b = bridge_run es b0" "b_next_id b0 = 0" "b_pending b0 = (\<lambda>_. None)"
    and "begins es + 1 < 2 ^ 64"
  shows "b_pending b (fst (call_begin m p b)) = None
    \<and> (\<forall>k r. b_pending b k = Some (Some r) \<longrightarrow> rm_id r = Some k \<and> rm_method r = [])
    \<and> (\<forall>k l. b_pending (handle_child_line l b) k \<noteq> b_pending b k \<longrightarrow>
        b_pending b k = Some None \<and> (\<exists>r. l = Some r \<and> rm_id r = Some k
          \<and> b_pending (handle_child_line l b) k = Some (Some r)))"
proof -
  have "routed 0 b0" using assms(2,3) by (simp add: routed_def)
  from routed_run [OF this, of es] assms(1,4) have r: "routed (begins es) b" by simp
  have "(begins es + 1) mod 2 ^ 64 = begins es + 1" using assms(4) by (rule mod_less)
  then have "fst (call_begin m p b) = dec (begins es + 1)"
    using r by (simp add: routed_def call_begin_def Let_def split: prod.splits)
  moreover have "b_pending b (dec (begins es + 1)) = None"
  proof (rule ccontr)
    assume "b_pending b (dec (begins es + 1)) \<noteq> None"
    then obtain i where "dec (begins es + 1) = dec i" "i \<le> begins es"
      using r unfolding routed_def by blast
    then show False by simp
  qed
  ultimately show ?thesis
    using r by (auto simp: routed_def handle_child_line_def deliver_def write_message_def
        split: option.splits if_splits)
qed

theorem replies_reach_their_call_witness:
  "b_pending (bridge_run [Begin ''ping'' None] (sample_bridge []))
     (fst (call_begin ''ping'' None (bridge_run [Begin ''ping'' None] (sample_bridge [])))) = None"
  using replies_reach_their_call [of _ "[Begin ''ping'' None]" "sample_bridge []" "''ping''" None, OF refl]
  by (simp add: sample_bridge_def begins_def is_begin_def)

text \<open>When the child goes away every waiting call has a message: its reply or the exit error.\<close>

lemma exit_answers_all:
  "b_pending b k = Some c \<Longrightarrow> fst (read_loop_end b) k = Some (case c of None \<Rightarrow> exit_error | Some m \<Rightarrow> m)
    \<and> b_pending (snd (read_loop_end b)) k = None \<and> \<not> alive (snd (read_loop_end b))"
  by (auto simp: read_loop_end_def fail_pending_def alive_def split: option.splits)

section \<open>The environment of the child\<close>

lemma add_secrets_Inr:
  "add_secrets resolve ss merged = Inr out \<Longrightarrow>
    (\<forall>(n, ref) \<in> set ss. trim_space n \<noteq> [] \<and> map_of merged n = None
      \<and> (\<exists>f v. resolve = Some f \<and> f ref = Some v \<and> trim_space v \<noteq> [] \<and> map_of out n = Some v))
    \<and> distinct (map fst ss)
    \<and> (\<forall>n. n \<notin> fst ` set ss \<longrightarrow> map_of out n = map_of merged n)"
proof (induction resolve ss merged rule: add_secrets.induct)
  case (2 resolve n ref ss merged)
  from 2(2) obtain f v where fv: "resolve = Some f" "f ref = Some v" "trim_space v \<noteq> []"
    "trim_space n \<noteq> []" "map_of merged n = None"
    "add_secrets resolve ss (AList.update n v merged) = Inr out"
    by (auto split: if_splits option.splits)
  have IH: "(\<forall>(m, ref) \<in> set ss. trim_space m \<noteq> [] \<and> map_of (AList.update n v merged) m = None
      \<and> (\<exists>f v. resolve = Some f \<and> f ref = Some v \<and> trim_space v \<noteq> [] \<and> map_of out m = Some v))
    \<and> distinct (map fst ss)
    \<and> (\<forall>m. m \<notin> fst ` set ss \<longrightarrow> map_of out m = map_of (AList.update n v merged) m)"
    using 2(1) [OF _ _ fv(1,2)] fv by simp
  have new: "n \<notin> fst ` set ss" using IH by (auto split: if_splits)
  then have "map_of out n = Some v" using IH by simp
  with IH fv new show ?case by (fastforce split: if_splits)
qed simp

text \<open>
  A bridge whose configuration declares secrets spawns its child only when every secret has a
  name, is not also set by \<open>env\<close>, and resolves to a value that is not blank; the child then sees
  exactly those values. Every variable of the child is one of the kept ones with the
  parent's value, or comes from the configuration.
\<close>

theorem child_environment:
  assumes "spawn_env env resolve c = Inr out"
  shows "(\<forall>(n, ref) \<in> set (bc_secrets c). trim_space n \<noteq> [] \<and> map_of (bc_env c) n = None
      \<and> (\<exists>f v. resolve = Some f \<and> f ref = Some v \<and> trim_space v \<noteq> [] \<and> (n, v) \<in> set out))
    \<and> (\<forall>(n, v) \<in> set out. (n \<in> set kept_variables \<and> env n = Some v)
        \<or> n \<in> fst ` set (bc_env c) \<or> n \<in> fst ` set (bc_secrets c))"
proof -
  obtain m where m: "add_secrets resolve (bc_secrets c) (bc_env c) = Inr m" "out = child_env env m"
    using assms by (auto simp: spawn_env_def resolve_child_env_def and_then_Inr)
  note s = add_secrets_Inr [OF m(1)]
  have in_out: "(n, v) \<in> set out" if "map_of m n = Some v" for n v
    using that m(2) by (auto simp: child_env_def dest: map_of_SomeD)
  have named: "n \<in> fst ` set (bc_env c) \<or> n \<in> fst ` set (bc_secrets c)" if in_m: "(n, v) \<in> set m" for n v
  proof (cases "n \<in> fst ` set (bc_secrets c)")
    case False
    then have "map_of m n = map_of (bc_env c) n" using s by blast
    moreover obtain w where "map_of m n = Some w" using in_m by (meson weak_map_of_SomeI)
    ultimately show ?thesis by (metis domI dom_map_of_conv_image_fst)
  qed simp
  show ?thesis
  proof (intro conjI ballI)
    fix p
    assume p: "p \<in> set (bc_secrets c)"
    obtain n ref where n: "p = (n, ref)" by (cases p)
    obtain f v where "trim_space n \<noteq> []" "map_of (bc_env c) n = None" "resolve = Some f"
      "f ref = Some v" "trim_space v \<noteq> []" "map_of m n = Some v"
      using s p n by blast
    then show "case p of (n, ref) \<Rightarrow> trim_space n \<noteq> [] \<and> map_of (bc_env c) n = None
        \<and> (\<exists>f v. resolve = Some f \<and> f ref = Some v \<and> trim_space v \<noteq> [] \<and> (n, v) \<in> set out)"
      using in_out n by auto
  next
    fix p
    assume "p \<in> set out"
    moreover obtain n v where n: "p = (n, v)" by (cases p)
    ultimately have "(n \<in> set kept_variables \<and> env n = Some v) \<or> (n, v) \<in> set m"
      unfolding m(2) by (auto simp: child_env_def split: option.splits)
    then show "case p of (n, v) \<Rightarrow> (n \<in> set kept_variables \<and> env n = Some v)
        \<or> n \<in> fst ` set (bc_env c) \<or> n \<in> fst ` set (bc_secrets c)"
      using named n by auto
  qed
qed

theorem child_environment_witness:
  "\<exists>v. (''TOKEN'', v) \<in> set [(''PATH'', ''/bin''), (''TOKEN'', ''s3cret'')]"
proof -
  define c where "c = (b_cfg (sample_bridge []))\<lparr>bc_secrets := [(''TOKEN'', ''env:T'')]\<rparr>"
  have "trim_space ''TOKEN'' = ''TOKEN''" "trim_space ''s3cret'' = ''s3cret''"
    by (rule trim_space_graphic; simp add: graphic_def less_char_def)+
  then have "spawn_env [''PATH'' \<mapsto> ''/bin'', ''SECRET'' \<mapsto> ''x''] (Some (\<lambda>_. Some ''s3cret'')) c
      = Inr [(''PATH'', ''/bin''), (''TOKEN'', ''s3cret'')]"
    by (simp add: spawn_env_def resolve_child_env_def c_def sample_bridge_def child_env_def
        kept_variables_def)
  from child_environment [OF this] show ?thesis by (auto simp: c_def)
qed

end
