(* ===== verification/SeedRotation.thy ===== *)
theory SeedRotation
  imports Complex_Main GoBase
begin

text \<open>
  \<open>internal/seed\<close>: the marks and claims of a rotation (\<open>rotation.go\<close>) and the validation,
  routing and authentication reference of a seed (\<open>seed.go\<close>). The verifiers a rotation runs
  (\<open>go vet\<close>, \<open>git\<close>) are given by what they print and whether they failed.
\<close>

section \<open>Invariants and rotations\<close>

record invariant =
  inv_name :: string
  inv_pass :: bool
  inv_detail :: string
  inv_subject :: string
  inv_verifier :: string

record rotation =
  rot_seed :: string
  rot_tick :: nat
  rot_claimant :: string
  rot_invariants :: "invariant list"

definition first_line :: "string \<Rightarrow> string" where
  "first_line s = (case cut_at (CHR 0x0A) s of None \<Rightarrow> s | Some (a, b) \<Rightarrow> a)"

definition dash :: string where
  "dash = [CHR '' '', CHR 0xE2, CHR 0x80, CHR 0x94, CHR '' '']"

definition mark :: "invariant \<Rightarrow> int" where
  "mark i = (if inv_pass i then 1 else - 1)"

definition accept_invariant :: "invariant \<Rightarrow> bool \<Rightarrow> bool \<times> string" where
  "accept_invariant i holds =
     (let name = (if inv_name i = [] then ''invariant'' else inv_name i) in
      if holds \<and> inv_subject i = [] then
        (False, name @ '' is unbound: the verdict names no commit, so it cannot stand for a tag'')
      else if inv_pass i \<and> holds then (True, name @ '': correct'')
      else if \<not> inv_pass i \<and> \<not> holds then (True, name @ '': the claim agrees it is inverted'')
      else if inv_pass i \<and> \<not> holds then
        (True, name @ '': accepted, the claim refuses an invariant that holds'')
      else
        (False, name @ '' is inverted'' @ (if inv_detail i = [] then [] else '': '' @ first_line (inv_detail i))
           @ dash @ ''a claim cannot promote an inverted invariant''))"

text \<open>The weakest mark; nothing verified is not a pass.\<close>

definition rotation_mark :: "rotation \<Rightarrow> int" where
  "rotation_mark r =
     (if rot_invariants r = [] then - 1
      else fold (\<lambda>i m. if mark i < m then mark i else m) (rot_invariants r) 1)"

definition refusals :: "rotation \<Rightarrow> string list" where
  "refusals r =
     (if trim_space (rot_claimant r) = []
      then [''claimant is unbound: a passing claim with no claimant is indistinguishable from another workspace's'']
      else [])
     @ concat (map (\<lambda>i. let (ok, why) = accept_invariant i True in if ok then [] else [why]) (rot_invariants r))"

definition accept_rotation :: "rotation \<Rightarrow> bool \<Rightarrow> bool \<times> string" where
  "accept_rotation r claim =
     (if \<not> claim then
        (case find (\<lambda>i. \<not> inv_pass i) (rot_invariants r) of
           Some i \<Rightarrow> (True, inv_name i @ '': accepted, the rotation is inverted'')
         | None \<Rightarrow>
             if rotation_mark r = 1 then (True, ''accepted: the claim refuses a rotation that holds'')
             else (True, ''accepted: the claim refuses a rotation with no verified layer''))
      else if refusals r \<noteq> [] then (False, join ''; '' (refusals r))
      else if rotation_mark r \<noteq> 1 then (False, ''refused: no invariant was verified'')
      else (True, ''correct: every invariant holds''))"

fun common_subject :: "string \<Rightarrow> invariant list \<Rightarrow> string" where
  "common_subject s [] = s"
| "common_subject s (i # is) =
     (if inv_subject i = [] then []
      else if s = [] then common_subject (inv_subject i) is
      else if inv_subject i \<noteq> s then []
      else common_subject s is)"

definition subject :: "rotation \<Rightarrow> string" where
  "subject r = common_subject [] (rot_invariants r)"

definition applies :: "rotation \<Rightarrow> string \<Rightarrow> bool" where
  "applies r head \<longleftrightarrow> head \<noteq> [] \<and> subject r \<noteq> [] \<and> subject r = trim_space head"

datatype yield_err = No_Recipient | Already_Holds | Inverted | Work_Moved string

definition short_subject :: "string \<Rightarrow> string" where
  "short_subject s = take 12 s"

definition yield :: "rotation \<Rightarrow> string \<Rightarrow> string \<Rightarrow> (yield_err, rotation) res" where
  "yield r to0 head =
     (let to = trim_space to0 in
      if to = [] then Inl No_Recipient
      else if to = rot_claimant r then Inl Already_Holds
      else if rotation_mark r \<noteq> 1 then Inl Inverted
      else if \<not> applies r head then Inl (Work_Moved (short_subject head))
      else Inr (r\<lparr>rot_claimant := to\<rparr>))"

definition find_invariant :: "rotation \<Rightarrow> string \<Rightarrow> invariant option" where
  "find_invariant r n = find (\<lambda>i. inv_name i = n) (rot_invariants r)"

definition signed :: "int \<Rightarrow> string" where
  "signed n = (if 0 \<le> n then ''+'' @ dec_int n else dec_int n)"

definition rotation_text :: "rotation \<Rightarrow> string" where
  "rotation_text r =
     rot_seed r @ ''@'' @ dec (rot_tick r) @ '' by ''
     @ (if rot_claimant r = [] then ''anonymous'' else rot_claimant r) @ '' ''
     @ signed (rotation_mark r) @ '' [''
     @ join '' '' (map (\<lambda>i. inv_name i @ ''='' @ signed (mark i)) (rot_invariants r)) @ ''] ''
     @ short_subject (if subject r = [] then ''unbound'' else subject r)"

section \<open>The verifiers\<close>

text \<open>A finished tool: its output and, when it failed, the error text.\<close>

record tool_run =
  run_out :: string
  run_err :: "string option"

definition detail_or :: "tool_run \<Rightarrow> string" where
  "detail_or t =
     (if trim_space (run_out t) \<noteq> [] then trim_space (run_out t)
      else case run_err t of None \<Rightarrow> [] | Some e \<Rightarrow> e)"

definition lint_dir :: "tool_run \<Rightarrow> invariant" where
  "lint_dir t = \<lparr>inv_name = ''lint'', inv_pass = (run_err t = None),
     inv_detail = (if run_err t = None then [] else detail_or t), inv_subject = [], inv_verifier = []\<rparr>"

definition git_clean_dir :: "tool_run \<Rightarrow> invariant" where
  "git_clean_dir t =
     (let failed = (\<lambda>d. \<lparr>inv_name = ''git'', inv_pass = False, inv_detail = d, inv_subject = [],
            inv_verifier = []\<rparr>) in
      if run_err t \<noteq> None then failed (detail_or t)
      else if trim_space (run_out t) \<noteq> [] then failed (first_line (trim_space (run_out t)))
      else (failed [])\<lparr>inv_pass := True\<rparr>)"

definition commit_subject :: "tool_run \<Rightarrow> tool_run \<Rightarrow> string" where
  "commit_subject status head =
     (if run_err status \<noteq> None \<or> trim_space (run_out status) \<noteq> [] then []
      else if run_err head \<noteq> None then []
      else trim_space (run_out head))"

text \<open>\<open>status1\<close> and \<open>head\<close> are the runs behind the subject, \<open>status2\<close> the later
  status run behind the git layer.\<close>

definition new_rotation ::
    "string \<Rightarrow> string \<Rightarrow> nat \<Rightarrow> tool_run \<Rightarrow> tool_run \<Rightarrow> tool_run \<Rightarrow> tool_run \<Rightarrow> rotation" where
  "new_rotation seed claimant tick status1 head vet status2 =
     (let s = commit_subject status1 head in
      \<lparr>rot_seed = seed, rot_tick = tick, rot_claimant = claimant,
       rot_invariants =
         [(lint_dir vet)\<lparr>inv_subject := s, inv_verifier := ''local:go-vet''\<rparr>,
          (git_clean_dir status2)\<lparr>inv_subject := s, inv_verifier := ''local:git-status''\<rparr>]\<rparr>)"

section \<open>Seeds\<close>

record seed_file =
  sd_version :: int
  sd_id :: string
  sd_surface :: string
  sd_real :: rat
  sd_imaginary :: rat
  sd_rung :: int
  sd_name :: string
  sd_route :: string
  sd_auth_mode :: string
  sd_auth_ref :: string

datatype seed_err =
    Bad_Version
  | Bad_Id
  | Bad_Route
  | No_Surface
  | Bad_Auth_Mode
  | No_Auth_Ref
  | No_Project_Name
  | Bad_Start

definition id_char :: "char \<Rightarrow> bool" where
  "id_char c \<longleftrightarrow> is_alnum c \<or> c \<in> set ''_.-''"

definition id_pattern :: "string \<Rightarrow> bool" where
  "id_pattern s \<longleftrightarrow> s \<noteq> [] \<and> list_all id_char s"

definition new_seed :: "string \<Rightarrow> string \<Rightarrow> string \<Rightarrow> seed_file" where
  "new_seed fresh name surface = \<lparr>sd_version = 1, sd_id = fresh,
     sd_surface = (if trim_space surface = [] then ''base'' else surface),
     sd_real = 42, sd_imaginary = 0, sd_rung = 0,
     sd_name = (if trim_space name = [] then ''project'' else name), sd_route = fresh,
     sd_auth_mode = ''external'', sd_auth_ref = ''env:LEZZ_CLUSTER_KEY''\<rparr>"

definition route :: "seed_file \<Rightarrow> string" where
  "route f = (if trim_space (sd_route f) \<noteq> [] then trim_space (sd_route f) else sd_id f)"

definition validate_seed :: "seed_file \<Rightarrow> seed_err option" where
  "validate_seed f =
     (if sd_version f \<noteq> 1 then Some Bad_Version
      else if \<not> id_pattern (sd_id f) then Some Bad_Id
      else if sd_route f \<noteq> [] \<and> \<not> id_pattern (sd_route f) then Some Bad_Route
      else if trim_space (sd_surface f) = [] then Some No_Surface
      else if sd_auth_mode f \<noteq> ''external'' then Some Bad_Auth_Mode
      else if trim_space (sd_auth_ref f) = [] then Some No_Auth_Ref
      else if sd_name f = [] then Some No_Project_Name
      else if sd_real f \<noteq> 42 \<or> sd_imaginary f \<noteq> 0 \<or> sd_rung f \<noteq> 0 then Some Bad_Start
      else None)"

datatype auth_err = Bad_Ref | Bad_Ref_Kind string | Keychain_Failed

text \<open>\<open>file\<close> tells whether a path is a file, \<open>exists\<close> asks the keychain.\<close>

definition resolve_auth ::
    "(string \<Rightarrow> string) \<Rightarrow> (string \<Rightarrow> bool) \<Rightarrow> (string \<Rightarrow> string \<Rightarrow> bool option) \<Rightarrow> string
     \<Rightarrow> (auth_err, bool) res" where
  "resolve_auth getenv is_file exists ref =
     (case cut_at (CHR '':'') ref of
        None \<Rightarrow> Inl Bad_Ref
      | Some (kind, value) \<Rightarrow>
          if trim_space value = [] then Inl Bad_Ref
          else if kind = ''env'' then Inr (getenv value \<noteq> [])
          else if kind = ''file'' then Inr (is_file value)
          else if kind = ''keychain'' then
            (case exists value ''lezz'' of None \<Rightarrow> Inl Keychain_Failed | Some b \<Rightarrow> Inr b)
          else Inl (Bad_Ref_Kind kind))"

section \<open>What a claim needs\<close>

lemma fold_mark: "m \<le> 1 \<Longrightarrow> m \<noteq> 0 \<Longrightarrow> - 1 \<le> m \<Longrightarrow>
    fold (\<lambda>i m. if mark i < m then mark i else m) is m = 1 \<longleftrightarrow> m = 1 \<and> (\<forall>i \<in> set is. inv_pass i)"
proof (induction "is" arbitrary: m)
  case (Cons i "is")
  have "(if mark i < m then mark i else m) \<le> 1 \<and> (if mark i < m then mark i else m) \<noteq> 0
      \<and> - 1 \<le> (if mark i < m then mark i else m)"
    using Cons.prems by (simp add: mark_def)
  with Cons.IH show ?case
    using Cons.prems by (auto simp: mark_def)
qed simp

lemma rotation_mark_1: "rotation_mark r = 1 \<longleftrightarrow> rot_invariants r \<noteq> [] \<and> (\<forall>i \<in> set (rot_invariants r). inv_pass i)"
  by (simp add: rotation_mark_def fold_mark)

lemma accept_invariant_True: "fst (accept_invariant i True) \<longleftrightarrow> inv_pass i \<and> inv_subject i \<noteq> []"
  by (simp add: accept_invariant_def Let_def)

lemma refusals_Nil:
  "refusals r = [] \<longleftrightarrow> trim_space (rot_claimant r) \<noteq> []
    \<and> (\<forall>i \<in> set (rot_invariants r). inv_pass i \<and> inv_subject i \<noteq> [])"
proof -
  have "(let (ok, why) = accept_invariant i True in if ok then [] else [why]) = []
      \<longleftrightarrow> inv_pass i \<and> inv_subject i \<noteq> []" for i
    by (simp add: split_def accept_invariant_True)
  then show ?thesis by (simp add: refusals_def)
qed

text \<open>
  A claim that a rotation is correct is recorded exactly when it names a claimant, at least one
  layer was verified, and every layer passed over a named commit; a claim that it is broken is
  always recorded. What the claimant says beyond that changes nothing.
\<close>

theorem claim_accepted_iff:
  "(fst (accept_rotation r True) \<longleftrightarrow> trim_space (rot_claimant r) \<noteq> [] \<and> rot_invariants r \<noteq> []
      \<and> (\<forall>i \<in> set (rot_invariants r). inv_pass i \<and> inv_subject i \<noteq> []))
    \<and> fst (accept_rotation r False)"
  using refusals_Nil [of r] rotation_mark_1 [of r]
  by (auto simp: accept_rotation_def split: option.splits)

definition passed_layer :: "string \<Rightarrow> string \<Rightarrow> invariant" where
  "passed_layer n s = \<lparr>inv_name = n, inv_pass = True, inv_detail = [], inv_subject = s, inv_verifier = ''local''\<rparr>"

definition sample_rotation :: rotation where
  "sample_rotation = \<lparr>rot_seed = ''p'', rot_tick = 3, rot_claimant = ''a'',
     rot_invariants = [passed_layer ''lint'' ''c0ffee'', passed_layer ''git'' ''c0ffee'']\<rparr>"

lemma graphic_trim: "trim_space ''a'' = ''a''" "trim_space ''b'' = ''b''" "trim_space ''c0ffee'' = ''c0ffee''"
  by (rule trim_space_graphic; simp add: graphic_def less_char_def)+

theorem claim_accepted_iff_witness: "fst (accept_rotation sample_rotation True)"
  using claim_accepted_iff [of sample_rotation] graphic_trim
  by (simp add: sample_rotation_def passed_layer_def)

lemma common_subject_iff:
  "s \<noteq> [] \<Longrightarrow> t \<noteq> [] \<Longrightarrow> common_subject s is = t \<longleftrightarrow> s = t \<and> (\<forall>i \<in> set is. inv_subject i = t)"
  by (induction s "is" rule: common_subject.induct) auto

lemma subject_iff:
  "t \<noteq> [] \<Longrightarrow> subject r = t \<longleftrightarrow> rot_invariants r \<noteq> [] \<and> (\<forall>i \<in> set (rot_invariants r). inv_subject i = t)"
  by (cases "rot_invariants r") (auto simp: subject_def common_subject_iff)

text \<open>
  Work is handed over exactly when there is a recipient other than the holder, every layer
  passed, and every layer was verified over the commit at \<open>head\<close>. The recipient gets the same
  evidence for the same tick, under its own name, and a claim over it is accepted and applies there.
\<close>

theorem yield_hands_over:
  "(case yield r to head of
      Inr r' \<Rightarrow> trim_space to \<noteq> [] \<and> trim_space to \<noteq> rot_claimant r \<and> trim_space head \<noteq> []
        \<and> rot_invariants r \<noteq> []
        \<and> (\<forall>i \<in> set (rot_invariants r). inv_pass i \<and> inv_subject i = trim_space head)
        \<and> r' = r\<lparr>rot_claimant := trim_space to\<rparr> \<and> fst (accept_rotation r' True) \<and> applies r' head
    | Inl e \<Rightarrow> trim_space to = [] \<or> trim_space to = rot_claimant r \<or> trim_space head = []
        \<or> rot_invariants r = []
        \<or> (\<exists>i \<in> set (rot_invariants r). \<not> (inv_pass i \<and> inv_subject i = trim_space head)))"
proof (cases "yield r to head")
  case (Inl e)
  have "applies r head" if "trim_space head \<noteq> []" "rot_invariants r \<noteq> []"
    "\<forall>i \<in> set (rot_invariants r). inv_subject i = trim_space head"
  proof -
    have "subject r = trim_space head" using that subject_iff by blast
    moreover have "head \<noteq> []" using that(1) by auto
    ultimately show ?thesis using that(1) by (simp add: applies_def)
  qed
  then show ?thesis
    using Inl rotation_mark_1 [of r] by (auto simp: yield_def Let_def split: if_splits)
next
  case (Inr r')
  then have y: "trim_space to \<noteq> []" "trim_space to \<noteq> rot_claimant r" "rotation_mark r = 1"
    "applies r head" "r' = r\<lparr>rot_claimant := trim_space to\<rparr>"
    by (auto simp: yield_def Let_def split: if_splits)
  then have h: "trim_space head \<noteq> []" "subject r = trim_space head" by (auto simp: applies_def)
  then have s: "rot_invariants r \<noteq> []" "\<forall>i \<in> set (rot_invariants r). inv_subject i = trim_space head"
    using subject_iff by blast+
  have p: "\<forall>i \<in> set (rot_invariants r). inv_pass i" using y(3) rotation_mark_1 by blast
  have ref: "refusals r' = []" "rotation_mark r' = 1"
    using y s h p by (simp_all add: refusals_Nil rotation_mark_1)
  then have "fst (accept_rotation r' True)" by (simp add: accept_rotation_def)
  moreover have "subject r' = subject r" by (simp add: y(5) subject_def)
  then have "applies r' head" using y(4) unfolding applies_def by metis
  ultimately show ?thesis using Inr y s h p by simp
qed

theorem yield_hands_over_witness:
  "case yield sample_rotation ''b'' ''c0ffee'' of
     Inr r' \<Rightarrow> r' = sample_rotation\<lparr>rot_claimant := ''b''\<rparr> | Inl e \<Rightarrow> False"
proof -
  have s: "subject sample_rotation = ''c0ffee''"
    by (simp add: subject_def sample_rotation_def passed_layer_def)
  have "rotation_mark sample_rotation = 1"
    by (simp add: rotation_mark_1 sample_rotation_def passed_layer_def)
  moreover have "applies sample_rotation ''c0ffee''" by (simp add: applies_def s graphic_trim)
  ultimately have "yield sample_rotation ''b'' ''c0ffee'' = Inr (sample_rotation\<lparr>rot_claimant := ''b''\<rparr>)"
    by (simp add: yield_def graphic_trim) (simp add: sample_rotation_def)
  then show ?thesis using yield_hands_over [where r = sample_rotation and to = "''b''" and head = "''c0ffee''"] graphic_trim
    by simp
qed

text \<open>
  A claim does not need the layers to be verified over one commit: a rotation whose layers name
  two different commits is accepted although it applies nowhere.
\<close>

lemma mixed_subjects_accepted:
  "let r = sample_rotation\<lparr>rot_invariants := [passed_layer ''lint'' ''aaa'', passed_layer ''git'' ''bbb'']\<rparr>
   in fst (accept_rotation r True) \<and> subject r = []"
proof -
  have "refusals (sample_rotation\<lparr>rot_invariants := [passed_layer ''lint'' ''aaa'', passed_layer ''git'' ''bbb'']\<rparr>) = []"
    by (simp add: refusals_Nil passed_layer_def sample_rotation_def graphic_trim)
  then show ?thesis
    by (simp add: accept_rotation_def rotation_mark_def fold_mark mark_def passed_layer_def
        subject_def)
qed

section \<open>Seeds\<close>

lemma id_pattern_route: "id_pattern s \<Longrightarrow> trim_space s = s"
proof -
  assume p: "id_pattern s"
  have "id_char c \<Longrightarrow> graphic c" for c
    by (auto simp: id_char_def is_alnum_def is_letter_def is_digit_def digit_val_def graphic_def
        less_char_def Let_def split: if_splits)
  with p show ?thesis
    by (intro trim_space_graphic) (auto simp: id_pattern_def list_all_iff)
qed

text \<open>
  A seed that passes validation always routes by a value of the id alphabet: its
  \<open>project.route\<close> when it has one, else its id; and a seed \<open>New\<close> builds with a fresh id
  of that alphabet is valid and routes by that id.
\<close>

theorem seed_routes:
  "(validate_seed f = None \<longrightarrow> id_pattern (route f)
      \<and> route f = (if sd_route f \<noteq> [] then sd_route f else sd_id f))
    \<and> (id_pattern fresh \<longrightarrow> validate_seed (new_seed fresh name surface) = None
        \<and> route (new_seed fresh name surface) = fresh)"
proof (intro conjI impI)
  assume v: "validate_seed f = None"
  then have p: "id_pattern (sd_id f)" "sd_route f = [] \<or> id_pattern (sd_route f)"
    by (auto simp: validate_seed_def split: if_splits)
  then show "route f = (if sd_route f \<noteq> [] then sd_route f else sd_id f)"
    using id_pattern_route by (auto simp: route_def)
  with p show "id_pattern (route f)" by auto
next
  assume p: "id_pattern fresh"
  have t: "trim_space ''base'' = ''base''" "trim_space ''env:LEZZ_CLUSTER_KEY'' = ''env:LEZZ_CLUSTER_KEY''"
    by (rule trim_space_graphic; simp add: graphic_def less_char_def)+
  then show "validate_seed (new_seed fresh name surface) = None"
    using p by (auto simp: validate_seed_def new_seed_def)
  show "route (new_seed fresh name surface) = fresh"
    using p id_pattern_route [OF p] by (auto simp: route_def new_seed_def id_pattern_def)
qed

theorem seed_routes_witness:
  "validate_seed (new_seed ''20260101T000000-0a'' [] []) = None"
proof -
  have "id_pattern ''20260101T000000-0a''"
    by (simp add: id_pattern_def id_char_def is_alnum_def is_letter_def is_digit_def digit_val_def)
  then show ?thesis using seed_routes by blast
qed

end
