(* ===== verification/NetAddr.thy ===== *)
theory NetAddr
  imports GoBase
begin

text \<open>
  What the sources use of Go's \<open>net\<close> and \<open>net/url\<close>: \<open>ParseIP\<close> with the textual form of an
  address, \<open>JoinHostPort\<close>, and the path a client sends for a URL. An address is its sixteen bytes,
  an IPv4 address the mapped form \<open>::ffff:a.b.c.d\<close>, as \<open>net.ParseIP\<close> returns it.
\<close>

section \<open>Addresses\<close>

type_synonym ip = "nat list"

definition ipv4 :: "nat list \<Rightarrow> ip" where
  "ipv4 bs = replicate 10 0 @ [255, 255] @ bs"

definition octet :: "string \<Rightarrow> nat option" where
  "octet s =
     (case undec s of
        None \<Rightarrow> None
      | Some n \<Rightarrow> if n > 255 \<or> (length s > 1 \<and> hd s = CHR ''0'') then None else Some n)"

definition parse_ipv4 :: "string \<Rightarrow> nat list option" where
  "parse_ipv4 s =
     (let ps = map octet (split_at CHR ''.'' s) in
      if length ps = 4 \<and> None \<notin> set ps then Some (map the ps) else None)"

definition hex_val :: "char \<Rightarrow> nat option" where
  "hex_val c =
     (let n = of_char c :: nat in
      if 48 \<le> n \<and> n \<le> 57 then Some (n - 48)
      else if 97 \<le> n \<and> n \<le> 102 then Some (n - 87)
      else if 65 \<le> n \<and> n \<le> 70 then Some (n - 55)
      else None)"

definition hex_digit_of :: "char \<Rightarrow> bool" where
  "hex_digit_of c \<longleftrightarrow> hex_val c \<noteq> None"

definition unhex :: "string \<Rightarrow> nat" where
  "unhex s = foldl (\<lambda>n c. 16 * n + (case hex_val c of None \<Rightarrow> 0 | Some d \<Rightarrow> d)) 0 s"

text \<open>
  The groups of an IPv6 address. \<open>gap\<close> is the position of \<open>::\<close> once it was read; a trailing
  dotted quad stands for the last two groups. At most eight groups are read, and the text must
  end with them.
\<close>

fun ipv6_groups :: "nat \<Rightarrow> nat list \<Rightarrow> nat option \<Rightarrow> string \<Rightarrow> (nat list \<times> nat option) option" where
  "ipv6_groups 0 bs gap s = (if s = [] then Some (bs, gap) else None)"
| "ipv6_groups (Suc n) bs gap s =
     (let g = takeWhile hex_digit_of s; r = dropWhile hex_digit_of s in
      if g = [] \<or> length g > 4 then None
      else if r \<noteq> [] \<and> hd r = CHR ''.'' then
        (if (gap = None \<and> length bs \<noteq> 12) \<or> length bs + 4 > 16 then None
         else map_option (\<lambda>q. (bs @ q, gap)) (parse_ipv4 s))
      else
        let bs' = bs @ [unhex g div 256, unhex g mod 256] in
        (case r of
           [] \<Rightarrow> Some (bs', gap)
         | c # r' \<Rightarrow>
             if c \<noteq> CHR '':'' \<or> r' = [] then None
             else if hd r' = CHR '':'' then
               (if gap \<noteq> None then None
                else if tl r' = [] then Some (bs', Some (length bs'))
                else ipv6_groups n bs' (Some (length bs')) (tl r'))
             else ipv6_groups n bs' gap r'))"

definition parse_ipv6 :: "string \<Rightarrow> ip option" where
  "parse_ipv6 s =
     (let (gap, rest) = (if has_prefix s ''::'' then (Some 0, drop 2 s) else (None, s)) in
      if gap \<noteq> None \<and> rest = [] then Some (replicate 16 0)
      else
        (case ipv6_groups 8 [] gap rest of
           None \<Rightarrow> None
         | Some (bs, g) \<Rightarrow>
             (case g of
                None \<Rightarrow> if length bs = 16 then Some bs else None
              | Some k \<Rightarrow>
                  if length bs = 16 then None
                  else Some (take k bs @ replicate (16 - length bs) 0 @ drop k bs))))"

text \<open>The first \<open>.\<close> or \<open>:\<close> decides the family.\<close>

definition parse_ip :: "string \<Rightarrow> ip option" where
  "parse_ip s =
     (case dropWhile (\<lambda>c. c \<noteq> CHR ''.'' \<and> c \<noteq> CHR '':'') s of
        [] \<Rightarrow> None
      | c # _ \<Rightarrow>
          if CHR ''%'' \<in> set s then None
          else if c = CHR ''.'' then map_option ipv4 (parse_ipv4 s)
          else parse_ipv6 s)"

definition to4 :: "ip \<Rightarrow> nat list option" where
  "to4 a = (if take 12 a = replicate 10 0 @ [255, 255] then Some (drop 12 a) else None)"

definition is_unspecified :: "ip \<Rightarrow> bool" where
  "is_unspecified a \<longleftrightarrow> a = ipv4 [0, 0, 0, 0] \<or> a = replicate 16 0"

definition is_loopback :: "ip \<Rightarrow> bool" where
  "is_loopback a =
     (case to4 a of Some q \<Rightarrow> hd q = 127 | None \<Rightarrow> a = replicate 15 0 @ [1])"

section \<open>The text of an address\<close>

definition hex_char :: "nat \<Rightarrow> char" where
  "hex_char d = (if d < 10 then char_of (48 + d) else char_of (87 + d))"

fun hex :: "nat \<Rightarrow> string" where
  "hex n = (if n < 16 then [] else hex (n div 16)) @ [hex_char (n mod 16)]"

declare hex.simps [simp del]

fun groups16 :: "nat list \<Rightarrow> nat list" where
  "groups16 (a # b # r) = (256 * a + b) # groups16 r"
| "groups16 _ = []"

definition zero_run :: "nat list \<Rightarrow> nat" where
  "zero_run gs = length (takeWhile (\<lambda>g. g = 0) gs)"

text \<open>The longest run of at least two zero groups, the first of that length.\<close>

fun best_run :: "nat \<Rightarrow> nat list \<Rightarrow> nat \<times> nat \<Rightarrow> nat \<times> nat" where
  "best_run i [] best = best"
| "best_run i (g # gs) (start, len) =
     (let r = zero_run (g # gs) in
      best_run (Suc i) gs (if r > len then (i, r) else (start, len)))"

definition ip_string :: "ip \<Rightarrow> string" where
  "ip_string a =
     (case to4 a of
        Some q \<Rightarrow> join ''.'' (map dec q)
      | None \<Rightarrow>
          let gs = groups16 a; (s, n) = best_run 0 gs (0, 1) in
          if n \<ge> 2 then
            join '':'' (map hex (take s gs)) @ ''::'' @ join '':'' (map hex (drop (s + n) gs))
          else join '':'' (map hex gs))"

definition join_host_port :: "string \<Rightarrow> nat \<Rightarrow> string" where
  "join_host_port host port =
     (if CHR '':'' \<in> set host then ''['' @ host @ '']:'' @ dec port else host @ '':'' @ dec port)"

lemmas parse_ip_eval = parse_ip_def parse_ipv4_def octet_def undec_def digit_val_def ipv4_def
  parse_ipv6_def has_prefix_def

lemma parse_ip_loopback: "parse_ip ''127.0.0.1'' = Some (ipv4 [127, 0, 0, 1])"
  by (simp add: parse_ip_eval)

lemma parse_ip_any: "parse_ip ''0.0.0.0'' = Some (ipv4 [0, 0, 0, 0])"
  by (simp add: parse_ip_eval)

lemma parse_ip_refused: "parse_ip ''localhost'' = None" "parse_ip ''1.2.3.04'' = None"
  by (simp_all add: parse_ip_eval)

section \<open>URLs\<close>

text \<open>
  The path a client sends for the part of a URL after its host: the fragment and the query are
  cut, control bytes are refused, and the escapes are read. An escape that is not two hexadecimal
  digits makes the URL invalid.
\<close>

fun unescape :: "string \<Rightarrow> string option" where
  "unescape [] = Some []"
| "unescape (c # cs) =
     (if c = CHR ''%'' then
        (case cs of
           a # b # r \<Rightarrow>
             (case (hex_val a, hex_val b) of
                (Some x, Some y) \<Rightarrow> map_option ((#) (char_of (16 * x + y))) (unescape r)
              | _ \<Rightarrow> None)
         | _ \<Rightarrow> None)
      else map_option ((#) c) (unescape cs))"

definition control_byte :: "char \<Rightarrow> bool" where
  "control_byte c \<longleftrightarrow> (let n = of_char c :: nat in n < 32 \<or> n = 127)"

definition url_path :: "string \<Rightarrow> string option" where
  "url_path u =
     (if (\<exists>c \<in> set u. control_byte c)
         \<or> unescape (drop 1 (dropWhile (\<lambda>c. c \<noteq> CHR ''#'') u)) = None then None
      else unescape (takeWhile (\<lambda>c. c \<noteq> CHR ''?'') (takeWhile (\<lambda>c. c \<noteq> CHR ''#'') u)))"

definition plain_byte :: "char \<Rightarrow> bool" where
  "plain_byte c \<longleftrightarrow> \<not> control_byte c \<and> c \<noteq> CHR ''%'' \<and> c \<noteq> CHR ''?'' \<and> c \<noteq> CHR ''#''"

lemma unescape_plain: "CHR ''%'' \<notin> set s \<Longrightarrow> unescape s = Some s"
  by (induction s) auto

lemma url_path_plain: "(\<And>c. c \<in> set s \<Longrightarrow> plain_byte c) \<Longrightarrow> url_path s = Some s"
proof -
  assume p: "\<And>c. c \<in> set s \<Longrightarrow> plain_byte c"
  then have w: "takeWhile (\<lambda>c. c \<noteq> CHR ''#'') s = s" "takeWhile (\<lambda>c. c \<noteq> CHR ''?'') s = s"
    unfolding takeWhile_eq_all_conv plain_byte_def by blast+
  moreover have "dropWhile (\<lambda>c. c \<noteq> CHR ''#'') s = []"
    using p unfolding dropWhile_eq_Nil_conv plain_byte_def by blast
  moreover have "CHR ''%'' \<notin> set s" "\<not> (\<exists>c \<in> set s. control_byte c)"
    using p unfolding plain_byte_def by blast+
  ultimately show ?thesis
    using unescape_plain by (simp only: url_path_def drop_Nil unescape.simps option.distinct simp_thms if_False)
qed

section \<open>An octet reads back\<close>

lemma octet_dec:
  assumes "n < 256"
  shows "octet (dec n) = Some n"
proof (cases "n = 0")
  case True
  then show ?thesis by (simp add: octet_def dec_eval undec_def digit_val_def)
next
  case False
  then show ?thesis using assms hd_dec [of n] by (simp add: octet_def)
qed

section \<open>Host and port\<close>

datatype addr_err = Missing_Port | Missing_Bracket | Too_Many_Colons | Stray_Open | Stray_Close | Bad_Port string

text \<open>\<open>net.SplitHostPort\<close>.\<close>

definition split_host_port :: "string \<Rightarrow> (addr_err, string \<times> string) res" where
  "split_host_port s =
     (case cut_last (CHR '':'') s of
        None \<Rightarrow> Inl Missing_Port
      | Some (before', port) \<Rightarrow>
          (let brackets = (\<lambda>host inside after. if CHR ''['' \<in> set inside then Inl Stray_Open
                 else if CHR '']'' \<in> set after then Inl Stray_Close else Inr (host, port)) in
           if s \<noteq> [] \<and> hd s = CHR ''['' then
             (case cut_at (CHR '']'') s of
                None \<Rightarrow> Inl Missing_Bracket
              | Some (opened, rest) \<Rightarrow>
                  if rest = [] then Inl Missing_Port
                  else if length opened + 1 = length before' then brackets (tl opened) (tl s) rest
                  else if hd rest = CHR '':'' then Inl Too_Many_Colons else Inl Missing_Port)
           else if CHR '':'' \<in> set before' then Inl Too_Many_Colons
           else brackets before' s s))"

text \<open>\<open>strconv.Atoi\<close>.\<close>

definition atoi :: "string \<Rightarrow> int option" where
  "atoi s =
     (let v = (case s of
                 [] \<Rightarrow> None
               | c # r \<Rightarrow>
                   if c = CHR ''-'' then map_option (\<lambda>n. - int n) (undec r)
                   else if c = CHR ''+'' then map_option int (undec r)
                   else map_option int (undec s)) in
      case v of None \<Rightarrow> None | Some i \<Rightarrow> if - (2 ^ 63) \<le> i \<and> i < 2 ^ 63 then Some i else None)"

definition port_of :: "string \<Rightarrow> (addr_err, int) res" where
  "port_of addr =
     and_then (split_host_port addr) (\<lambda>(_, port).
       case atoi port of None \<Rightarrow> Inl (Bad_Port addr) | Some p \<Rightarrow> Inr p)"

definition plain_host :: "string \<Rightarrow> bool" where
  "plain_host h \<longleftrightarrow> CHR ''['' \<notin> set h \<and> CHR '']'' \<notin> set h"

lemma not_in_dec: "CHR '':'' \<notin> set (dec n)" "CHR ''['' \<notin> set (dec n)" "CHR '']'' \<notin> set (dec n)"
  by (rule not_digit_in_dec, simp add: is_digit_def digit_val_def)+

lemma atoi_dec: "n < 2 ^ 63 \<Longrightarrow> atoi (dec n) = Some (int n)"
proof -
  assume n: "n < 2 ^ 63"
  obtain c r where d: "dec n = c # r" by (cases "dec n") auto
  then have "is_digit c" using dec_digits [of c n] by simp
  then have "c \<noteq> CHR ''-''" "c \<noteq> CHR ''+''" by (auto simp: is_digit_def digit_val_def)
  moreover have "int n < 2 ^ 63" using n by simp
  ultimately show "atoi (dec n) = Some (int n)"
    using d undec_dec [of n] by (simp add: atoi_def)
qed

lemma port_of_joined:
  assumes "plain_host h" "n < 2 ^ 63"
  shows "port_of (join_host_port h n) = Inr (int n)"
proof (cases "CHR '':'' \<in> set h")
  case True
  have s: "join_host_port h n = (CHR ''['' # h @ [CHR '']'']) @ CHR '':'' # dec n"
    "join_host_port h n = (CHR ''['' # h) @ CHR '']'' # CHR '':'' # dec n"
    using True by (simp_all add: join_host_port_def)
  have "cut_last (CHR '':'') (join_host_port h n) = Some (CHR ''['' # h @ [CHR '']''], dec n)"
    unfolding cut_last_Some using s(1) not_in_dec by blast
  moreover have "cut_at (CHR '']'') (join_host_port h n) = Some (CHR ''['' # h, CHR '':'' # dec n)"
    unfolding cut_at_Some using s(2) assms(1) by (simp add: plain_host_def)
  ultimately show ?thesis
    using assms not_in_dec atoi_dec [of n] s(1) by (simp add: port_of_def split_host_port_def plain_host_def)
next
  case False
  have s: "join_host_port h n = h @ CHR '':'' # dec n" using False by (simp add: join_host_port_def)
  have "cut_last (CHR '':'') (join_host_port h n) = Some (h, dec n)"
    unfolding cut_last_Some using s not_in_dec by blast
  moreover have "join_host_port h n \<noteq> []" "hd (join_host_port h n) \<noteq> CHR ''[''"
    using s assms(1) by (cases h; auto simp: plain_host_def)+
  ultimately show ?thesis
    using False assms not_in_dec atoi_dec [of n] s by (simp add: port_of_def split_host_port_def plain_host_def)
qed

end
