(* ===== verification/Registry.thy ===== *)
theory Registry
  imports NetAddr Paths
begin

text \<open>
  The cluster registry (\<open>internal/demo/discovery.go\<close>): the directory of running clusters, the
  bind that decides who can reach it, the HTTP handler, and the client that registers a cluster
  with a running registry and takes it out again. JSON bodies arrive decoded; \<open>None\<close> is a body
  that does not decode. What the client relies on of a directory is the locale \<open>directory\<close>.
\<close>

section \<open>Data\<close>

record project_entry =
  pe_route :: string
  pe_id :: string
  pe_name :: string
  pe_repo :: string
  pe_mcp_url :: string

record cluster_info =
  ci_name :: string
  ci_alarm_a :: string
  ci_alarm_b :: string
  ci_adhd_mcp :: string
  ci_repos :: "string list"
  ci_projects :: "project_entry list"

type_synonym registry = "(string, cluster_info) table"

definition new_registry :: "cluster_info \<Rightarrow> registry" where
  "new_registry seed = [(ci_name seed, seed)]"

definition registry_add :: "cluster_info \<Rightarrow> registry \<Rightarrow> registry" where
  "registry_add i r = AList.update (ci_name i) i r"

definition registry_remove :: "string \<Rightarrow> registry \<Rightarrow> registry" where
  "registry_remove n r = AList.delete n r"

definition registry_list :: "registry \<Rightarrow> (string, cluster_info) table" where
  "registry_list r = r"

section \<open>The bind\<close>

definition discovery_port :: nat where
  "discovery_port = 19100"

definition registry_bind_default :: string where
  "registry_bind_default = ''127.0.0.1''"

definition bind_or_default :: "string \<Rightarrow> string" where
  "bind_or_default b = (if b = [] then registry_bind_default else b)"

text \<open>The host a URL names and whether the bind is reachable from the LAN.\<close>

definition registry_host :: "string \<Rightarrow> string \<Rightarrow> (string, string \<times> bool) res" where
  "registry_host bind outbound =
     (case parse_ip (bind_or_default bind) of
        None \<Rightarrow> Inl bind
      | Some a \<Rightarrow>
          if is_unspecified a then Inr (outbound, True)
          else if is_loopback a then Inr (ip_string a, False)
          else Inr (ip_string a, True))"

record registry_listener =
  rl_addr :: string
  rl_host :: string
  rl_lan :: bool

definition resolve_registry_listener :: "string \<Rightarrow> string \<Rightarrow> (string, registry_listener) res" where
  "resolve_registry_listener outbound bind =
     and_then (registry_host bind outbound) (\<lambda>(host, lan).
       Inr \<lparr>rl_addr = join_host_port (bind_or_default bind) discovery_port, rl_host = host, rl_lan = lan\<rparr>)"

definition registry_url :: "registry_listener \<Rightarrow> string" where
  "registry_url l = ''http://'' @ join_host_port (rl_host l) discovery_port @ ''/cluster''"

definition mdns_txt :: "string \<Rightarrow> string list" where
  "mdns_txt cluster = ''v=1'' # (if cluster \<noteq> [] then [''cluster='' @ cluster] else [])"

text \<open>The advertisement a listener publishes: none for a bind that stays on the host.\<close>

definition register_registry_mdns :: "registry_listener \<Rightarrow> string \<Rightarrow> string list option" where
  "register_registry_mdns l cluster = (if rl_lan l then Some (mdns_txt cluster) else None)"

section \<open>The handler\<close>

datatype http_method = Get | Post | Delete | Other_Method string

datatype registry_response =
    Listing "(string, cluster_info) table"
  | Done
  | Not_Found
  | Bad_Request
  | Name_Required
  | Method_Not_Allowed
  | Redirect string

definition cluster_name_from_path :: "string \<Rightarrow> string" where
  "cluster_name_from_path p = trim_prefix (trim_prefix p ''/cluster'') ''/''"

definition cluster_handler ::
    "http_method \<Rightarrow> string \<Rightarrow> cluster_info option \<Rightarrow> registry \<Rightarrow> registry_response \<times> registry" where
  "cluster_handler m path body r =
     (let name = cluster_name_from_path path in
      case m of
        Get \<Rightarrow> if name \<noteq> [] then (Not_Found, r) else (Listing (registry_list r), r)
      | Post \<Rightarrow>
          if name \<noteq> [] then (Not_Found, r)
          else
            (case body of
               None \<Rightarrow> (Bad_Request, r)
             | Some i \<Rightarrow> if ci_name i = [] then (Name_Required, r) else (Done, registry_add i r))
      | Delete \<Rightarrow> if name = [] then (Name_Required, r) else (Done, registry_remove name r)
      | Other_Method _ \<Rightarrow> (Method_Not_Allowed, r))"

text \<open>
  \<open>http.ServeMux\<close>: a path that is not clean is redirected to its clean form, the two patterns
  \<open>/cluster\<close> and \<open>/cluster/\<close> reach the handler, anything else is not found.
\<close>

definition clean_url_path :: "string \<Rightarrow> string" where
  "clean_url_path p =
     (let q = (if is_abs p then p else CHR ''/'' # p);
          c = clean_path q in
      if last q = CHR ''/'' \<and> c \<noteq> ''/'' then c @ ''/'' else c)"

definition discovery_mux ::
    "http_method \<Rightarrow> string \<Rightarrow> cluster_info option \<Rightarrow> registry \<Rightarrow> registry_response \<times> registry" where
  "discovery_mux m path body r =
     (if clean_url_path path \<noteq> path then (Redirect (clean_url_path path), r)
      else if path = ''/cluster'' \<or> has_prefix path ''/cluster/'' then cluster_handler m path body r
      else (Not_Found, r))"

section \<open>The client\<close>

datatype join_err = Unreachable | Rejected registry_response

text \<open>\<open>joinDiscoveryServer\<close>: \<open>up\<close> says whether the connection is made.\<close>

definition join_discovery_server :: "bool \<Rightarrow> cluster_info \<Rightarrow> registry \<Rightarrow> (join_err, unit) res \<times> registry" where
  "join_discovery_server up i r =
     (if \<not> up then (Inl Unreachable, r)
      else
        (let (resp, r') = discovery_mux Post ''/cluster'' (Some i) r in
         if resp = Done then (Inr (), r') else (Inl (Rejected resp), r')))"

text \<open>
  The function it returns. A redirected \<open>DELETE\<close> is followed as a \<open>GET\<close>, which changes nothing,
  and no outcome is reported.
\<close>

definition deregister :: "bool \<Rightarrow> cluster_info \<Rightarrow> registry \<Rightarrow> registry" where
  "deregister up i r =
     (case url_path (''/cluster/'' @ ci_name i) of
        None \<Rightarrow> r
      | Some p \<Rightarrow> if up then snd (discovery_mux Delete p None r) else r)"

definition fetch_all_clusters :: "registry \<Rightarrow> cluster_info list" where
  "fetch_all_clusters r =
     (case fst (discovery_mux Get ''/cluster'' None r) of Listing t \<Rightarrow> map snd t | _ \<Rightarrow> [])"

section \<open>What a client relies on\<close>

datatype ('i, 'n) dir_op = Put_Entry 'i | Drop_Entry 'n

locale directory =
  fixes add :: "'i \<Rightarrow> 'r \<Rightarrow> 'r"
    and remove :: "'n \<Rightarrow> 'r \<Rightarrow> 'r"
    and look :: "'r \<Rightarrow> 'n \<Rightarrow> 'i option"
    and name_of :: "'i \<Rightarrow> 'n"
  assumes look_add: "look (add i r) n = (if n = name_of i then Some i else look r n)"
    and look_remove: "look (remove m r) n = (if n = m then None else look r n)"
begin

definition run_op :: "('i, 'n) dir_op \<Rightarrow> 'r \<Rightarrow> 'r" where
  "run_op x r = (case x of Put_Entry i \<Rightarrow> add i r | Drop_Entry n \<Rightarrow> remove n r)"

definition touches :: "'n \<Rightarrow> ('i, 'n) dir_op \<Rightarrow> bool" where
  "touches n x \<longleftrightarrow> (case x of Put_Entry i \<Rightarrow> name_of i = n | Drop_Entry m \<Rightarrow> m = n)"

definition entry_of :: "('i, 'n) dir_op \<Rightarrow> 'i option" where
  "entry_of x = (case x of Put_Entry i \<Rightarrow> Some i | Drop_Entry _ \<Rightarrow> None)"

lemma look_run: "look (run_op x r) n = (if touches n x then entry_of x else look r n)"
  by (cases x) (auto simp: run_op_def touches_def entry_of_def look_add look_remove)

text \<open>The last operation on a name decides its entry.\<close>

lemma last_write_wins:
  "look (fold run_op xs r) n =
     (case find (touches n) (rev xs) of None \<Rightarrow> look r n | Some x \<Rightarrow> entry_of x)"
  by (induction xs rule: rev_induct) (auto simp: look_run)

lemma in_and_out: "look r (name_of i) = None \<Longrightarrow> look (remove (name_of i) (add i r)) n = look r n"
  by (simp add: look_add look_remove)

lemma independent:
  "name_of i \<noteq> m \<Longrightarrow> look (remove m (add i r)) n = look (add i (remove m r)) n"
  by (simp add: look_add look_remove)

end

interpretation reg: directory registry_add registry_remove "\<lambda>r. map_of r" ci_name
  by unfold_locales (auto simp: registry_add_def registry_remove_def)

section \<open>Requests and the directory\<close>

record request =
  rq_method :: http_method
  rq_path :: string
  rq_body :: "cluster_info option"

definition serve :: "request \<Rightarrow> registry \<Rightarrow> registry_response \<times> registry" where
  "serve q = discovery_mux (rq_method q) (rq_path q) (rq_body q)"

fun serve_all :: "request list \<Rightarrow> registry \<Rightarrow> registry" where
  "serve_all [] r = r"
| "serve_all (q # qs) r = serve_all qs (snd (serve q r))"

text \<open>What one request does to the directory, if anything.\<close>

definition effect :: "request \<Rightarrow> (cluster_info, string) dir_op option" where
  "effect q =
     (if clean_url_path (rq_path q) \<noteq> rq_path q then None
      else
        (case (rq_method q, rq_body q) of
           (Post, Some i) \<Rightarrow>
             if rq_path q \<in> {''/cluster'', ''/cluster/''} \<and> ci_name i \<noteq> [] then Some (Put_Entry i) else None
         | (Delete, _) \<Rightarrow>
             if has_prefix (rq_path q) ''/cluster/'' \<and> rq_path q \<noteq> ''/cluster/''
             then Some (Drop_Entry (drop 9 (rq_path q))) else None
         | _ \<Rightarrow> None))"

lemma name_of_collection: "cluster_name_from_path ''/cluster'' = []"
  by (simp add: cluster_name_from_path_def trim_prefix_def has_prefix_def)

lemma name_of_sub: "cluster_name_from_path (''/cluster/'' @ n) = n"
  by (simp add: cluster_name_from_path_def trim_prefix_def has_prefix_def)

lemma serve_effect:
  "snd (serve q r) = (case effect q of None \<Rightarrow> r | Some x \<Rightarrow> reg.run_op x r)"
proof (cases "rq_path q = ''/cluster'' \<or> has_prefix (rq_path q) ''/cluster/''")
  case False
  then show ?thesis
    by (auto simp: serve_def discovery_mux_def effect_def has_prefix_def split: http_method.splits option.splits)
next
  case True
  then consider "rq_path q = ''/cluster''" | n where "rq_path q = ''/cluster/'' @ n"
    by (auto simp: has_prefix_iff)
  then show ?thesis
  proof cases
    case 1
    then show ?thesis
      by (auto simp: serve_def discovery_mux_def effect_def cluster_handler_def name_of_collection
          reg.run_op_def has_prefix_def split: http_method.splits option.splits)
  next
    case 2
    then show ?thesis
      using name_of_sub [of n]
      by (auto simp: serve_def discovery_mux_def effect_def cluster_handler_def
          reg.run_op_def has_prefix_def split: http_method.splits option.splits)
  qed
qed

lemma serve_all_effects: "serve_all qs r = fold reg.run_op (List.map_filter effect qs) r"
  by (induction qs arbitrary: r) (auto simp: List.map_filter_def serve_effect split: option.splits)

section \<open>Properties\<close>

text \<open>
  The directory holds, for every name, what the last request that reached the handler for that
  name left: the record of a registration, nothing after a deregistration, and the starting record
  when there was none. Reads, bad bodies, unnamed records, wrong methods and unclean paths change
  nothing.
\<close>

theorem registry_follows_requests:
  "map_of (serve_all qs r) n =
     (case find (\<lambda>x. case x of Put_Entry i \<Rightarrow> ci_name i = n | Drop_Entry m \<Rightarrow> m = n)
         (rev (List.map_filter effect qs)) of
        None \<Rightarrow> map_of r n
      | Some (Put_Entry i) \<Rightarrow> Some i
      | Some (Drop_Entry m) \<Rightarrow> None)"
proof -
  have t: "reg.touches n = (\<lambda>x. case x of Put_Entry i \<Rightarrow> ci_name i = n | Drop_Entry m \<Rightarrow> m = n)"
    by (auto simp: fun_eq_iff reg.touches_def split: dir_op.splits)
  show ?thesis
    unfolding serve_all_effects reg.last_write_wins t
    by (auto simp: reg.entry_of_def split: option.splits dir_op.splits)
qed

definition safe_name :: "string \<Rightarrow> bool" where
  "safe_name n \<longleftrightarrow> proper n \<and> n \<noteq> ''..'' \<and> list_all plain_byte n"

lemma clean_collection: "clean_url_path ''/cluster'' = ''/cluster''"
  using clean_abs_plain(2) [of "[''cluster'']"]
  by (simp add: clean_url_path_def proper_def)

lemma clean_entry: "safe_name n \<Longrightarrow> clean_url_path (''/cluster/'' @ n) = ''/cluster/'' @ n"
proof -
  assume n: "safe_name n"
  then have "n \<noteq> []" "last n \<noteq> CHR ''/''"
    unfolding safe_name_def proper_def by (blast, metis last_in_set)
  moreover have "clean_path (''/cluster/'' @ n) = ''/cluster/'' @ n"
    using n clean_abs_plain(2) [of "[''cluster'', n]"] by (auto simp: safe_name_def proper_def)
  ultimately show ?thesis by (simp add: clean_url_path_def)
qed

lemma deregister_safe:
  assumes "safe_name (ci_name i)"
  shows "deregister True i r = registry_remove (ci_name i) r"
proof -
  have "list_all plain_byte ''/cluster/''" by (simp add: plain_byte_def control_byte_def)
  then have "list_all plain_byte (''/cluster/'' @ ci_name i)"
    using assms unfolding safe_name_def list_all_append by blast
  then have "url_path (''/cluster/'' @ ci_name i) = Some (''/cluster/'' @ ci_name i)"
    unfolding list_all_iff by (intro url_path_plain) blast
  then show ?thesis
    using assms clean_entry [OF assms] name_of_sub [of "ci_name i"]
    by (auto simp: deregister_def discovery_mux_def cluster_handler_def has_prefix_def safe_name_def
        proper_def)
qed

text \<open>
  A cluster that joins a registry is listed under its name with exactly its record, leaves all
  others alone, and its deregistration at shutdown takes out that record and no other, for every
  name that is safe in a URL path.
\<close>

theorem join_then_leave:
  assumes "join_discovery_server True i r = (res, r')" "safe_name (ci_name i)"
  shows "res = Inr () \<and> map_of r' = (map_of r)(ci_name i \<mapsto> i)
    \<and> map_of (deregister True i r') = (map_of r)(ci_name i := None)
    \<and> map_of (deregister True i r') (ci_name i) = None"
proof -
  have "ci_name i \<noteq> []" using assms(2) by (auto simp: safe_name_def proper_def)
  then have "res = Inr ()" "r' = registry_add i r"
    using assms(1) clean_collection name_of_collection
    by (auto simp: join_discovery_server_def discovery_mux_def cluster_handler_def)
  then show ?thesis
    using deregister_safe [OF assms(2)] by (simp add: registry_add_def registry_remove_def)
qed

definition named_cluster :: "string \<Rightarrow> cluster_info" where
  "named_cluster n = \<lparr>ci_name = n, ci_alarm_a = ''a'', ci_alarm_b = ''b'', ci_adhd_mcp = ''m'',
     ci_repos = [], ci_projects = []\<rparr>"

theorem join_then_leave_witness:
  "map_of (deregister True (named_cluster ''demo'')
     (snd (join_discovery_server True (named_cluster ''demo'') []))) = Map.empty"
proof -
  have safe: "safe_name (ci_name (named_cluster ''demo''))"
    by (simp add: safe_name_def named_cluster_def proper_def plain_byte_def control_byte_def)
  show ?thesis
    using join_then_leave [OF surjective_pairing safe, of "[]"] by (simp add: fun_upd_idem)
qed

text \<open>
  Outside those names the promise fails: the name is put into the URL unescaped, so the cluster
  \<open>a?b\<close> stays in the directory when it leaves, and the record of another cluster, \<open>a\<close>, goes.
\<close>

lemma leaving_removes_another:
  "deregister True (named_cluster ''a?b'') r = registry_remove ''a'' r"
proof -
  have u: "url_path ''/cluster/a?b'' = Some ''/cluster/a''"
    by (simp add: url_path_def control_byte_def)
  have "safe_name ''a''" by (simp add: safe_name_def proper_def plain_byte_def control_byte_def)
  then show ?thesis
    using clean_entry [of "''a''"] name_of_sub [of "''a''"] u
    by (simp add: deregister_def named_cluster_def discovery_mux_def cluster_handler_def has_prefix_def)
qed

lemma registry_host_default: "registry_host [] outbound = Inr (''127.0.0.1'', False)"
proof -
  have lo: "to4 (ipv4 [127, 0, 0, Suc 0]) = Some [127, 0, 0, 1]" by (simp add: to4_def ipv4_def)
  have "ipv4 [127, 0, 0, 1] \<noteq> ipv4 [0, 0, 0, 0]" "ipv4 [127, 0, 0, 1] \<noteq> replicate 16 0"
    by (simp_all add: ipv4_def eval_nat_numeral)
  then show ?thesis
    by (simp add: registry_host_def bind_or_default_def registry_bind_default_def parse_ip_loopback
        is_loopback_def lo is_unspecified_def ip_string_def dec_eval)
qed

text \<open>
  Who can reach the registry is decided by the bind alone. Without one it listens on
  \<open>127.0.0.1:19100\<close>, names that very address and publishes nothing; a listener that is
  advertised over mDNS was asked for by an address that is not loopback; and a bind that is no
  address starts nothing.
\<close>

theorem registry_stays_local:
  "resolve_registry_listener outbound [] =
      Inr \<lparr>rl_addr = ''127.0.0.1:19100'', rl_host = ''127.0.0.1'', rl_lan = False\<rparr>
    \<and> (case resolve_registry_listener outbound bind of
         Inl e \<Rightarrow> bind \<noteq> [] \<and> parse_ip bind = None
       | Inr l \<Rightarrow> register_registry_mdns l cluster \<noteq> None \<longleftrightarrow>
           bind \<noteq> [] \<and> (\<exists>a. parse_ip bind = Some a \<and> \<not> (is_loopback a \<and> \<not> is_unspecified a)
             \<and> rl_host l = (if is_unspecified a then outbound else ip_string a)))"
proof (rule conjI)
  show "resolve_registry_listener outbound [] =
      Inr \<lparr>rl_addr = ''127.0.0.1:19100'', rl_host = ''127.0.0.1'', rl_lan = False\<rparr>"
    by (simp add: resolve_registry_listener_def registry_host_default bind_or_default_def
        registry_bind_default_def dec_eval join_host_port_def discovery_port_def)
  then show "case resolve_registry_listener outbound bind of
         Inl e \<Rightarrow> bind \<noteq> [] \<and> parse_ip bind = None
       | Inr l \<Rightarrow> register_registry_mdns l cluster \<noteq> None \<longleftrightarrow>
           bind \<noteq> [] \<and> (\<exists>a. parse_ip bind = Some a \<and> \<not> (is_loopback a \<and> \<not> is_unspecified a)
             \<and> rl_host l = (if is_unspecified a then outbound else ip_string a))"
    by (cases "bind = []"; cases "parse_ip bind")
      (simp_all add: register_registry_mdns_def resolve_registry_listener_def registry_host_def
        bind_or_default_def)
qed

end
