(* ===== verification/ClusterTrust.thy ===== *)
theory ClusterTrust
  imports GoBase
begin

text \<open>
  \<open>internal/demo/trust.go\<close>: the evidence a cluster hands its children. The state directory is
  a table of files; the derivation of a subkey and the certificate type belong to the
  \<open>isotope\<close> module and are parameters, as are base64, JSON and ed25519 of the certificate
  (\<open>cert_codec\<close>).
\<close>

section \<open>Shapes\<close>

datatype trust_kind = Secret | Derived | Certificate

definition kind_text :: "trust_kind \<Rightarrow> string" where
  "kind_text k = (case k of Secret \<Rightarrow> ''secret'' | Derived \<Rightarrow> ''derived'' | Certificate \<Rightarrow> ''certificate'')"

record 'c cluster_trust =
  tr_cluster :: string
  tr_kind :: trust_kind
  tr_secret :: string
  tr_parent :: string
  tr_cert :: "'c option"
  tr_key :: string
  tr_root :: string
  tr_root_key :: string

definition no_trust :: "'c cluster_trust" where
  "no_trust = \<lparr>tr_cluster = [], tr_kind = Secret, tr_secret = [], tr_parent = [], tr_cert = None,
     tr_key = [], tr_root = [], tr_root_key = []\<rparr>"

datatype trust_err =
    No_Child
  | No_Parent_Secret
  | Mint_Failed
  | Parent_Not_Set
  | Unknown_Shape string
  | Write_Failed string
  | Not_Provisioned
  | Bad_Certificate
  | Bad_Key
  | Bad_Root
  | Other_Cluster string
  | Bad_Public_Key
  | Key_Mismatch

definition trust_ok :: "'c cluster_trust \<Rightarrow> bool" where
  "trust_ok t \<longleftrightarrow> tr_cluster t \<noteq> [] \<and>
     (if tr_kind t = Certificate
      then tr_cert t \<noteq> None \<and> length (tr_key t) = 64 \<and> tr_root t \<noteq> [] \<and> tr_root_key t \<noteq> []
      else tr_secret t \<noteq> [])"

definition secret_trust :: "string \<Rightarrow> string \<Rightarrow> 'c cluster_trust" where
  "secret_trust cluster secret = no_trust\<lparr>tr_cluster := cluster, tr_kind := Secret, tr_secret := secret\<rparr>"

text \<open>\<open>random\<close> is the hex text of 32 random bytes, or a failing source.\<close>

definition new_cluster_trust :: "string option \<Rightarrow> string \<Rightarrow> (trust_err, 'c cluster_trust) res" where
  "new_cluster_trust random cluster =
     (case random of None \<Rightarrow> Inl Mint_Failed | Some s \<Rightarrow> Inr (secret_trust cluster s))"

definition derive_cluster_trust ::
    "(string \<Rightarrow> string \<Rightarrow> string) \<Rightarrow> 'c cluster_trust \<Rightarrow> string \<Rightarrow> (trust_err, 'c cluster_trust) res" where
  "derive_cluster_trust derive parent child =
     (if child = [] then Inl No_Child
      else if tr_cluster parent = [] \<or> tr_secret parent = [] \<or> tr_kind parent = Certificate
      then Inl No_Parent_Secret
      else Inr (no_trust\<lparr>tr_cluster := child, tr_kind := Derived,
             tr_secret := derive (tr_secret parent) child, tr_parent := tr_cluster parent\<rparr>))"

section \<open>What leaves the process\<close>

text \<open>\<open>env\<close> for a child; \<open>json64\<close> and \<open>b64\<close> encode a certificate and a key.\<close>

definition trust_env :: "('c \<Rightarrow> string) \<Rightarrow> (string \<Rightarrow> string) \<Rightarrow> 'c cluster_trust \<Rightarrow> string list" where
  "trust_env json64 b64 t =
     (if \<not> trust_ok t then []
      else if tr_kind t = Certificate then
        (case tr_cert t of
           None \<Rightarrow> []
         | Some c \<Rightarrow> [''LEZZ_CLUSTER_CERT='' @ json64 c, ''LEZZ_CLUSTER_KEY='' @ b64 (tr_key t)])
      else [''LEZZ_CLUSTER_ID='' @ tr_cluster t, ''LEZZ_CLUSTER_SECRET='' @ tr_secret t])"

definition trust_yaml :: "(string \<Rightarrow> string) \<Rightarrow> 'c cluster_trust \<Rightarrow> string" where
  "trust_yaml quote t =
     (let nl = [CHR 0x0A] in
      if \<not> trust_ok t then ''trust:'' @ nl @ ''  clusters: {}'' @ nl @ ''  roots: {}'' @ nl
      else if tr_kind t = Certificate then
        ''trust:'' @ nl @ ''  clusters: {}'' @ nl @ ''  roots:'' @ nl @ ''    '' @ quote (tr_root t)
          @ '': '' @ quote (tr_root_key t) @ nl
      else
        ''trust:'' @ nl @ ''  clusters:'' @ nl @ ''    '' @ quote (tr_cluster t) @ '': ''
          @ quote (tr_secret t) @ nl @ ''  roots: {}'' @ nl)"

datatype 'c signature = No_Signature | Signed_With_Key string 'c string | Signed_With_Secret string string string

definition attestation :: "'c cluster_trust \<Rightarrow> string \<Rightarrow> 'c signature" where
  "attestation t endpoint =
     (if \<not> trust_ok t then No_Signature
      else if tr_kind t = Certificate then
        (case tr_cert t of None \<Rightarrow> No_Signature | Some c \<Rightarrow> Signed_With_Key (tr_key t) c endpoint)
      else Signed_With_Secret (tr_secret t) (tr_cluster t) endpoint)"

section \<open>Loading\<close>

text \<open>The state directory; a read or a write takes the next entry of the fault script.\<close>

record state_dir =
  sd_files :: "(string, string) table"
  sd_faults :: "bool list"

definition read_file :: "string \<Rightarrow> state_dir \<Rightarrow> string option \<times> state_dir" where
  "read_file p d =
     (let (bad, fs) = next_fault (sd_faults d); d' = d\<lparr>sd_faults := fs\<rparr> in
      (if bad then None else map_of (sd_files d) p, d'))"

definition write_file :: "string \<Rightarrow> string \<Rightarrow> state_dir \<Rightarrow> bool \<times> state_dir" where
  "write_file p s d =
     (let (bad, fs) = next_fault (sd_faults d); d' = d\<lparr>sd_faults := fs\<rparr> in
      if bad then (False, d') else (True, d'\<lparr>sd_files := AList.update p s (sd_files d)\<rparr>))"

definition load_or_mint_secret ::
    "string option \<Rightarrow> string \<Rightarrow> state_dir \<Rightarrow> (trust_err, 'c cluster_trust) res \<times> state_dir" where
  "load_or_mint_secret random cluster d =
     (let (r, d1) = read_file ''cluster-secret'' d in
      case r of
        Some s \<Rightarrow>
          if trim_space s \<noteq> [] then (Inr (secret_trust cluster (trim_space s)), d1)
          else
            (case random of
               None \<Rightarrow> (Inl Mint_Failed, d1)
             | Some n \<Rightarrow>
                 let (ok, d2) = write_file ''cluster-secret'' n d1 in
                 if ok then (Inr (secret_trust cluster n), d2) else (Inl (Write_Failed ''cluster-secret''), d2))
      | None \<Rightarrow>
          (case random of
             None \<Rightarrow> (Inl Mint_Failed, d1)
           | Some n \<Rightarrow>
               let (ok, d2) = write_file ''cluster-secret'' n d1 in
               if ok then (Inr (secret_trust cluster n), d2) else (Inl (Write_Failed ''cluster-secret''), d2)))"

text \<open>The decoders the certificate shape needs: a certificate names a cluster and a public key,
  a root file names a root and its key.\<close>

record 'c cert_codec =
  decode_cert :: "string \<Rightarrow> 'c option"
  cert_cluster :: "'c \<Rightarrow> string"
  cert_public :: "'c \<Rightarrow> string option"
  decode_bytes :: "string \<Rightarrow> string option"
  from_seed :: "string \<Rightarrow> string"
  public_of :: "string \<Rightarrow> string"
  encode_root :: "string \<Rightarrow> string \<Rightarrow> string"
  decode_root :: "string \<Rightarrow> (string \<times> string) option"

definition decode_key :: "'c cert_codec \<Rightarrow> string \<Rightarrow> string option" where
  "decode_key cc raw =
     (case decode_bytes cc raw of
        None \<Rightarrow> None
      | Some b \<Rightarrow>
          if length b = 64 then Some b
          else if length b = 32 then Some (from_seed cc b)
          else None)"

text \<open>The checks on the material, provisioned or stored.\<close>

definition check_certificate ::
    "'c cert_codec \<Rightarrow> string \<Rightarrow> string \<Rightarrow> string \<Rightarrow> string \<Rightarrow> (trust_err, 'c cluster_trust) res" where
  "check_certificate cc cluster cert_raw key_raw root_raw =
     (case decode_cert cc (trim_space cert_raw) of
        None \<Rightarrow> Inl Bad_Certificate
      | Some c \<Rightarrow>
          (case decode_key cc (trim_space key_raw) of
             None \<Rightarrow> Inl Bad_Key
           | Some k \<Rightarrow>
               (case decode_root cc root_raw of
                  None \<Rightarrow> Inl Bad_Root
                | Some (root, root_key) \<Rightarrow>
                    if cert_cluster cc c \<noteq> cluster then Inl (Other_Cluster (cert_cluster cc c))
                    else
                      (case cert_public cc c of
                         None \<Rightarrow> Inl Bad_Public_Key
                       | Some p \<Rightarrow>
                           if p \<noteq> public_of cc k then Inl Key_Mismatch
                           else Inr (no_trust\<lparr>tr_cluster := cluster, tr_kind := Certificate,
                                  tr_cert := Some c, tr_key := k, tr_root := root,
                                  tr_root_key := root_key\<rparr>)))))"

text \<open>The source ranges over a map of the three files, in no fixed order; here they are written as
  listed. The order shows only in which file a failing disk leaves unwritten.\<close>

fun write_files :: "(string \<times> string) list \<Rightarrow> state_dir \<Rightarrow> string option \<times> state_dir" where
  "write_files [] d = (None, d)"
| "write_files ((p, s) # ps) d =
     (let (ok, d') = write_file p s d in if ok then write_files ps d' else (Some p, d'))"

definition load_or_mint_certificate ::
    "'c cert_codec \<Rightarrow> (string \<Rightarrow> string) \<Rightarrow> string \<Rightarrow> state_dir
     \<Rightarrow> (trust_err, 'c cluster_trust) res \<times> state_dir" where
  "load_or_mint_certificate cc getenv cluster d =
     (let (c0, d1) = read_file ''cluster-cert.json'' d;
          (k0, d2) = read_file ''cluster-key'' d1;
          (r0, d3) = read_file ''cluster-root.json'' d2 in
      case (c0, k0, r0) of
        (Some c, Some k, Some r) \<Rightarrow> (check_certificate cc cluster c k r, d3)
      | _ \<Rightarrow>
          let c = trim_space (getenv ''LEZZ_CLUSTER_CERT'');
              k = trim_space (getenv ''LEZZ_CLUSTER_KEY'');
              rn = trim_space (getenv ''LEZZ_TRUST_ROOT'');
              rk = trim_space (getenv ''LEZZ_TRUST_ROOT_KEY'') in
          if c = [] \<or> k = [] \<or> rn = [] \<or> rk = [] then (Inl Not_Provisioned, d3)
          else
            let r = encode_root cc rn rk;
                (failed, d4) = write_files
                  [(''cluster-cert.json'', c), (''cluster-key'', k), (''cluster-root.json'', r)] d3 in
            case failed of
              Some p \<Rightarrow> (Inl (Write_Failed p), d4)
            | None \<Rightarrow> (check_certificate cc cluster c k r, d4))"

text \<open>\<open>loadOrMintTrust\<close>; the shape is the text of the flag.\<close>

definition load_or_mint_trust ::
    "(string \<Rightarrow> string \<Rightarrow> string) \<Rightarrow> 'c cert_codec \<Rightarrow> (string \<Rightarrow> string) \<Rightarrow> string option \<Rightarrow> string
     \<Rightarrow> string \<Rightarrow> state_dir \<Rightarrow> (trust_err, 'c cluster_trust) res \<times> state_dir" where
  "load_or_mint_trust derive cc getenv random cluster shape d =
     (if shape = [] \<or> shape = ''secret'' then load_or_mint_secret random cluster d
      else if shape = ''derived'' then
        let p = trim_space (getenv ''LEZZ_TRUST_PARENT'');
            s = trim_space (getenv ''LEZZ_TRUST_PARENT_SECRET'') in
        if p = [] \<or> s = [] then (Inl Parent_Not_Set, d)
        else (derive_cluster_trust derive (secret_trust p s) cluster, d)
      else if shape = ''certificate'' then load_or_mint_certificate cc getenv cluster d
      else (Inl (Unknown_Shape shape), d))"

section \<open>Properties\<close>

lemma read_quiet: "sd_faults d = [] \<Longrightarrow> read_file p d = (map_of (sd_files d) p, d)"
  by (simp add: read_file_def)

lemma write_quiet: "sd_faults d = [] \<Longrightarrow> write_file p s d = (True, d\<lparr>sd_files := AList.update p s (sd_files d)\<rparr>)"
  by (simp add: write_file_def)

text \<open>
  The launch secret survives a rotation. Whatever secret the first start minted or found, every
  later start over the same state directory gets that very trust, writes nothing, and does not
  depend on its own random source, as long as the disk serves reads.
\<close>

theorem secret_is_stable:
  assumes "load_or_mint_secret random cluster d = (Inr t, d')" "sd_faults d = []"
    and "\<And>s. random = Some s \<Longrightarrow> trim_space s = s \<and> s \<noteq> []"
  shows "load_or_mint_secret random' cluster d' = (Inr t, d') \<and> tr_secret t \<noteq> [] \<and> trust_ok t = (cluster \<noteq> [])"
proof (cases "\<exists>s. map_of (sd_files d) ''cluster-secret'' = Some s \<and> trim_space s \<noteq> []")
  case True
  then obtain s where "map_of (sd_files d) ''cluster-secret'' = Some s" "trim_space s \<noteq> []" by blast
  then show ?thesis
    using assms(1,2)
    by (auto simp: load_or_mint_secret_def read_quiet secret_trust_def no_trust_def trust_ok_def)
next
  case False
  then obtain n where n: "random = Some n" "t = secret_trust cluster n"
    "d' = d\<lparr>sd_files := AList.update ''cluster-secret'' n (sd_files d)\<rparr>"
    using assms(1,2)
    by (auto simp: load_or_mint_secret_def read_quiet write_quiet split: option.splits if_splits)
  then show ?thesis
    using assms(2,3) by (simp add: load_or_mint_secret_def read_quiet secret_trust_def no_trust_def trust_ok_def)
qed

definition empty_dir :: state_dir where
  "empty_dir = \<lparr>sd_files = [], sd_faults = []\<rparr>"

theorem secret_is_stable_witness:
  "fst (load_or_mint_secret (Some ''beef'') ''c'' (empty_dir\<lparr>sd_files := [(''cluster-secret'', ''f00d'')]\<rparr>))
    = Inr (secret_trust ''c'' ''f00d'' :: nat cluster_trust)"
proof -
  have t: "trim_space ''f00d'' = ''f00d''" by (rule trim_space_graphic) (simp_all add: graphic_def less_char_def)
  have first: "load_or_mint_secret (Some ''f00d'') ''c'' empty_dir
      = (Inr (secret_trust ''c'' ''f00d'' :: nat cluster_trust), empty_dir\<lparr>sd_files := [(''cluster-secret'', ''f00d'')]\<rparr>)"
    by (simp add: load_or_mint_secret_def empty_dir_def read_quiet write_quiet)
  show ?thesis
    using secret_is_stable [OF first, of "Some ''beef''"] first t by (simp add: empty_dir_def)
qed

text \<open>
  The private key of a certificate cluster reaches nothing but the one variable meant for it:
  two trusts that differ only in the key render the same alarm configuration, and their child
  environments agree on everything except \<open>LEZZ_CLUSTER_KEY\<close>; the pinned root, not the secret,
  is what the configuration names.
\<close>

theorem key_stays_in_its_variable:
  assumes "tr_kind t = Certificate" "trust_ok t" "length k = 64"
  shows "trust_yaml quote (t\<lparr>tr_key := k\<rparr>) = trust_yaml quote t
    \<and> (\<exists>c. tr_cert t = Some c
        \<and> trust_env json64 b64 t = [''LEZZ_CLUSTER_CERT='' @ json64 c, ''LEZZ_CLUSTER_KEY='' @ b64 (tr_key t)]
        \<and> trust_env json64 b64 (t\<lparr>tr_key := k\<rparr>) = [''LEZZ_CLUSTER_CERT='' @ json64 c, ''LEZZ_CLUSTER_KEY='' @ b64 k])
    \<and> trust_yaml quote (t\<lparr>tr_secret := s\<rparr>) = trust_yaml quote t"
  using assms by (auto simp: trust_yaml_def trust_env_def trust_ok_def Let_def)

definition cert_trust :: "nat cluster_trust" where
  "cert_trust = no_trust\<lparr>tr_cluster := ''c'', tr_kind := Certificate, tr_cert := Some 0,
     tr_key := replicate 64 CHR ''k'', tr_root := ''r'', tr_root_key := ''pk''\<rparr>"

theorem key_stays_in_its_variable_witness:
  "trust_yaml id (cert_trust\<lparr>tr_key := replicate 64 CHR ''x''\<rparr>) = trust_yaml id cert_trust"
  using key_stays_in_its_variable [of cert_trust "replicate 64 CHR ''x''" id]
  by (simp add: cert_trust_def trust_ok_def no_trust_def)

text \<open>
  What a successful load hands out can attest: the trust is for this cluster, of the shape
  that was asked for, and complete; a derived child's secret is the one derived from its parent
  for the child's own name.
\<close>

theorem loaded_trust_attests:
  assumes "load_or_mint_trust derive cc getenv random cluster shape d = (Inr t, d')"
    and "cluster \<noteq> []" "\<And>s. random = Some s \<Longrightarrow> s \<noteq> []" "\<And>p c. derive p c \<noteq> []"
    and "\<And>b. length b = 32 \<Longrightarrow> length (from_seed cc b) = 64"
    and "\<And>x r k. decode_root cc x = Some (r, k) \<Longrightarrow> r \<noteq> [] \<and> k \<noteq> []"
  shows "tr_cluster t = cluster \<and> kind_text (tr_kind t) = (if shape = [] then ''secret'' else shape)
    \<and> trust_ok t \<and> (shape = ''derived'' \<longrightarrow>
        tr_parent t = trim_space (getenv ''LEZZ_TRUST_PARENT'')
        \<and> tr_secret t = derive (trim_space (getenv ''LEZZ_TRUST_PARENT_SECRET'')) cluster)"
proof -
  have secret: "tr_cluster t = cluster \<and> tr_kind t = Secret \<and> trust_ok t"
    if "load_or_mint_secret random cluster d = (Inr t, d')"
    using that assms(2,3)
    by (auto simp: load_or_mint_secret_def secret_trust_def no_trust_def trust_ok_def Let_def
        split: prod.splits option.splits if_splits)
  have check: "tr_cluster t = cluster \<and> tr_kind t = Certificate \<and> trust_ok t"
    if "check_certificate cc cluster a b c = Inr t" for a b c
    using that assms(2,5,6)
    by (auto simp: check_certificate_def decode_key_def no_trust_def trust_ok_def
        split: option.splits if_splits)
  have cert: "tr_cluster t = cluster \<and> tr_kind t = Certificate \<and> trust_ok t"
    if "load_or_mint_certificate cc getenv cluster d = (Inr t, d')"
    using that
    by (auto simp: load_or_mint_certificate_def Let_def split: prod.splits option.splits if_splits
        dest!: check)
  show ?thesis
    using assms(1) secret cert assms(2,4)
    by (auto simp: load_or_mint_trust_def kind_text_def derive_cluster_trust_def secret_trust_def
        no_trust_def trust_ok_def Let_def split: if_splits)
qed

definition sample_codec :: "string cert_codec" where
  "sample_codec = \<lparr>decode_cert = Some, cert_cluster = id, cert_public = Some, decode_bytes = Some,
     from_seed = (\<lambda>b. b @ b), public_of = id, encode_root = (\<lambda>a b. a @ ''='' @ b),
     decode_root = (\<lambda>x. Some (''r'', ''k''))\<rparr>"

definition parent_env :: "string \<Rightarrow> string" where
  "parent_env n = (if n = ''LEZZ_TRUST_PARENT'' then ''p'' else ''s'')"

theorem loaded_trust_attests_witness:
  "kind_text Derived = ''derived'' \<and> trust_ok (no_trust\<lparr>tr_cluster := ''c'', tr_kind := Derived,
     tr_secret := ''s/c'', tr_parent := ''p''\<rparr> :: string cluster_trust)"
proof -
  have t: "trim_space ''p'' = ''p''" "trim_space ''s'' = ''s''"
    by (rule trim_space_graphic; simp add: graphic_def less_char_def)+
  have load: "load_or_mint_trust (\<lambda>a b. a @ ''/'' @ b) sample_codec parent_env None ''c'' ''derived'' empty_dir
      = (Inr (no_trust\<lparr>tr_cluster := ''c'', tr_kind := Derived, tr_secret := ''s/c'', tr_parent := ''p''\<rparr>), empty_dir)"
    by (simp add: load_or_mint_trust_def parent_env_def t derive_cluster_trust_def secret_trust_def no_trust_def)
  show ?thesis
    using loaded_trust_attests [OF load]
    by (simp add: sample_codec_def parent_env_def t)
qed

text \<open>
  The certificate shape stores the provisioned material before it checks it. Material for another
  cluster is refused, but stays: the next start reads it back and is refused as well, whatever
  the operator has put into the environment by then.
\<close>

lemma refused_certificate_sticks:
  assumes "sd_faults d = []" "map_of (sd_files d) ''cluster-cert.json'' = None"
    and "load_or_mint_certificate cc getenv cluster d = (Inl (Other_Cluster x), d')"
    and "\<And>s. decode_cert cc (trim_space (trim_space s)) = decode_cert cc (trim_space s)"
  shows "load_or_mint_certificate cc getenv' cluster d' = (Inl (Other_Cluster x), d')"
  using assms
  by (auto simp: load_or_mint_certificate_def read_quiet write_quiet Let_def split: option.splits if_splits)

end
