(* ===== verification/GoFlags.thy ===== *)
theory GoFlags
  imports GoBase
begin

text \<open>
  What the commands use of Go's \<open>flag\<close> and \<open>strconv\<close>: \<open>FlagSet.Parse\<close> (one or two dashes,
  \<open>=value\<close>, Boolean flags without a value, \<open>--\<close> and the first plain argument end the flags),
  \<open>ParseInt\<close> with base 0 at 64 bits, and \<open>ParseBool\<close>. A flag set gives the kind of each name
  and the setter of its value.
\<close>

section \<open>Values\<close>

definition parse_bool :: "string \<Rightarrow> bool option" where
  "parse_bool s =
     (if s \<in> {''1'', ''t'', ''T'', ''true'', ''TRUE'', ''True''} then Some True
      else if s \<in> {''0'', ''f'', ''F'', ''false'', ''FALSE'', ''False''} then Some False
      else None)"

definition digit_of :: "char \<Rightarrow> nat option" where
  "digit_of c =
     (let n = of_char c :: nat in
      if 48 \<le> n \<and> n \<le> 57 then Some (n - 48)
      else if 97 \<le> n \<and> n \<le> 122 then Some (n - 87)
      else if 65 \<le> n \<and> n \<le> 90 then Some (n - 55)
      else None)"

text \<open>The digits of a number in a base; underscores are skipped (their places are checked apart).\<close>

fun digits_in :: "nat \<Rightarrow> nat \<Rightarrow> string \<Rightarrow> nat option" where
  "digits_in b n [] = Some n"
| "digits_in b n (c # cs) =
     (if c = CHR ''_'' then digits_in b n cs
      else
        (case digit_of c of
           None \<Rightarrow> None
         | Some d \<Rightarrow> if d \<ge> b then None else digits_in b (b * n + d) cs))"

text \<open>Base and digits behind the prefix of an unsigned text.\<close>

definition base_prefix :: "string \<Rightarrow> nat \<times> string" where
  "base_prefix s =
     (if hd s \<noteq> CHR ''0'' then (10, s)
      else if length s \<ge> 3 \<and> s ! 1 \<in> {CHR ''b'', CHR ''B''} then (2, drop 2 s)
      else if length s \<ge> 3 \<and> s ! 1 \<in> {CHR ''o'', CHR ''O''} then (8, drop 2 s)
      else if length s \<ge> 3 \<and> s ! 1 \<in> {CHR ''x'', CHR ''X''} then (16, drop 2 s)
      else (8, drop 1 s))"

text \<open>\<open>underscoreOK\<close>: an underscore stands between digits, or between a base prefix and a digit.
  The last byte read is a digit (\<open>0\<close>, also for a prefix), an underscore, or neither (\<open>!\<close>).\<close>

fun underscores :: "bool \<Rightarrow> char \<Rightarrow> string \<Rightarrow> bool" where
  "underscores hex l [] = (l \<noteq> CHR ''_'')"
| "underscores hex l (c # cs) =
     (if is_digit c \<or> (hex \<and> lower_char c \<in> set ''abcdef'') then underscores hex CHR ''0'' cs
      else if c = CHR ''_'' then l = CHR ''0'' \<and> underscores hex CHR ''_'' cs
      else l \<noteq> CHR ''_'' \<and> underscores hex CHR ''!'' cs)"

definition underscore_ok :: "string \<Rightarrow> bool" where
  "underscore_ok s =
     (if length s \<ge> 2 \<and> hd s = CHR ''0'' \<and> lower_char (s ! 1) \<in> set ''box''
      then underscores (lower_char (s ! 1) = CHR ''x'') CHR ''0'' (drop 2 s)
      else underscores False CHR ''^'' s)"

definition parse_uint :: "string \<Rightarrow> nat option" where
  "parse_uint s =
     (if s = [] then None
      else
        (let (b, ds) = base_prefix s in
         case digits_in b 0 ds of
           None \<Rightarrow> None
         | Some n \<Rightarrow>
             if n \<ge> 2 ^ 64 \<or> (CHR ''_'' \<in> set ds \<and> \<not> underscore_ok s) then None else Some n))"

definition parse_int :: "string \<Rightarrow> int option" where
  "parse_int s =
     (let neg = has_prefix s ''-'';
          u = (if neg \<or> has_prefix s ''+'' then drop 1 s else s) in
      case parse_uint u of
        None \<Rightarrow> None
      | Some n \<Rightarrow>
          if \<not> neg \<and> n \<ge> 2 ^ 63 \<or> neg \<and> n > 2 ^ 63 then None
          else Some (if neg then - int n else int n))"

section \<open>The flag set\<close>

datatype flag_kind = Switch | Valued

datatype flag_err =
    Bad_Syntax string
  | Help_Asked
  | Not_Defined string
  | Needs_Argument string
  | Bad_Value string string

fun cut_eq :: "string \<Rightarrow> string \<times> string option" where
  "cut_eq [] = ([], None)"
| "cut_eq (c # cs) =
     (if c = CHR ''='' then ([], Some cs) else (let (n, v) = cut_eq cs in (c # n, v)))"

text \<open>\<open>kinds\<close> is the set of declared flags, \<open>setter\<close> stores one value; the result carries the
  arguments left over.\<close>

fun parse_flags ::
    "(string \<Rightarrow> flag_kind option) \<Rightarrow> (string \<Rightarrow> string \<Rightarrow> 'o \<Rightarrow> 'o option) \<Rightarrow> 'o \<Rightarrow> string list
     \<Rightarrow> (flag_err, 'o \<times> string list) res" where
  "parse_flags kinds setter o' [] = Inr (o', [])"
| "parse_flags kinds setter o' (s # args) =
     (if length s < 2 \<or> hd s \<noteq> CHR ''-'' then Inr (o', s # args)
      else if s = ''--'' then Inr (o', args)
      else
        (let name0 = (if s ! 1 = CHR ''-'' then drop 2 s else drop 1 s) in
         if name0 = [] \<or> hd name0 = CHR ''-'' \<or> hd name0 = CHR ''='' then Inl (Bad_Syntax s)
         else
           (let (name, v) = cut_eq name0 in
            case kinds name of
              None \<Rightarrow> if name = ''help'' \<or> name = ''h'' then Inl Help_Asked else Inl (Not_Defined name)
            | Some Switch \<Rightarrow>
                (let w = (case v of None \<Rightarrow> ''true'' | Some w \<Rightarrow> w) in
                 case setter name w o' of
                   None \<Rightarrow> Inl (Bad_Value name w)
                 | Some o'' \<Rightarrow> parse_flags kinds setter o'' args)
            | Some Valued \<Rightarrow>
                (case (v, args) of
                   (Some w, _) \<Rightarrow>
                     (case setter name w o' of
                        None \<Rightarrow> Inl (Bad_Value name w)
                      | Some o'' \<Rightarrow> parse_flags kinds setter o'' args)
                 | (None, w # args') \<Rightarrow>
                     (case setter name w o' of
                        None \<Rightarrow> Inl (Bad_Value name w)
                      | Some o'' \<Rightarrow> parse_flags kinds setter o'' args')
                 | (None, []) \<Rightarrow> Inl (Needs_Argument name)))))"

section \<open>What parsing keeps\<close>

lemma parse_flags_step:
  assumes "parse_flags kinds s o' (a # args) = Inr (o'', rest)"
  shows "(o'' = o' \<and> (rest = a # args \<or> rest = args))
    \<or> (\<exists>n v o2 as. s n v o' = Some o2 \<and> (as = args \<or> (\<exists>w. args = w # as)) \<and> parse_flags kinds s o2 as = Inr (o'', rest))"
proof (cases "length a < 2 \<or> hd a \<noteq> CHR ''-'' \<or> a = ''--''")
  case False
  obtain n1 v1 n2 v2 where c: "cut_eq (drop 2 a) = (n1, v1)" "cut_eq (drop (Suc 0) a) = (n2, v2)" by fastforce
  show ?thesis
    using assms False
    by (auto simp: c Let_def split: if_splits option.splits flag_kind.splits list.splits)
qed (use assms in \<open>auto split: if_splits\<close>)

lemma parse_flags_keep:
  assumes "\<And>n v o1 o2. setter n v o1 = Some o2 \<Longrightarrow> P o1 \<Longrightarrow> P o2"
  shows "parse_flags kinds setter o' args = Inr (o'', rest) \<Longrightarrow> P o' \<Longrightarrow> P o'' \<and> (\<exists>used. args = used @ rest)"
proof (induction args arbitrary: o' rule: length_induct)
  case (1 args)
  show ?case
  proof (cases args)
    case (Cons a as)
    consider "o'' = o'" "rest = a # as \<or> rest = as"
      | n v o2 bs where "setter n v o' = Some o2" "bs = as \<or> (\<exists>w. as = w # bs)" "parse_flags kinds setter o2 bs = Inr (o'', rest)"
      using parse_flags_step [OF 1(2) [unfolded Cons]] by blast
    then show ?thesis
    proof cases
      case 1
      then show ?thesis using \<open>P o'\<close> Cons by (auto intro: exI [of _ "[]"] exI [of _ "[a]"])
    next
      case 2
      have "length bs < length args" using 2(2) Cons by auto
      then have "P o'' \<and> (\<exists>used. bs = used @ rest)" using 1(1) 2(3) assms [OF 2(1) 1(3)] by blast
      then show ?thesis using 2(2) Cons by (auto intro: exI [of _ "a # _"])
    qed
  qed (use 1 in auto)
qed

section \<open>Decimal text reads back\<close>

lemma digit_of_digit: "digit_val c = Some d \<Longrightarrow> digit_of c = Some d \<and> d < 10"
  by (auto simp: digit_val_def digit_of_def Let_def split: if_splits)

lemma not_underscore: "digit_val c = Some d \<Longrightarrow> c \<noteq> CHR ''_''"
  by (auto simp: digit_val_def)

lemma digits_in_dec: "undec_acc n s = Some m \<Longrightarrow> digits_in 10 n s = Some m"
  by (induction n s rule: undec_acc.induct)
    (auto split: option.splits dest: digit_of_digit not_underscore)

lemma parse_uint_dec: "n < 2 ^ 64 \<Longrightarrow> parse_uint (dec n) = Some n"
proof (cases "n = 0")
  case True
  then show ?thesis by (simp add: dec_eval parse_uint_def base_prefix_def)
next
  case False
  then have "base_prefix (dec n) = (10, dec n)" using hd_dec by (simp add: base_prefix_def)
  moreover have "CHR ''_'' \<notin> set (dec n)"
    by (rule not_digit_in_dec) (simp add: is_digit_def digit_val_def)
  moreover have "digits_in 10 0 (dec n) = Some n"
    by (rule digits_in_dec) (rule undec_acc_dec)
  ultimately show "n < 2 ^ 64 \<Longrightarrow> ?thesis" by (simp add: parse_uint_def)
qed

lemma parse_int_dec_int:
  assumes "0 \<le> i" "i < 2 ^ 63"
  shows "parse_int (dec_int i) = Some i"
proof -
  have "hd (dec (nat i)) \<in> set (dec (nat i))" by simp
  then have "is_digit (hd (dec (nat i)))" by (rule dec_digits)
  then have "\<not> has_prefix (dec (nat i)) ''-''" "\<not> has_prefix (dec (nat i)) ''+''"
    by (auto simp: has_prefix_iff is_digit_def digit_val_def)
  moreover have "nat i < 2 ^ 63" using assms by (simp add: nat_less_iff)
  ultimately show ?thesis
    using assms parse_uint_dec [of "nat i"] by (simp add: parse_int_def dec_int_def)
qed

end
