(* ===== verification/ProdCluster.thy ===== *)
theory ProdCluster
  imports Registry ClusterTrust GoFlags
begin

text \<open>
  The three-node production cluster (\<open>internal/demo/prod.go\<close>): its options and their command
  line, the ports, the plan with the records it advertises, and the run: the waiting loops, the
  start with its deferred release, and the rotation that installs the next generation. Go \<open>int\<close>
  is 64 bits wide; every number here is within it, which \<open>int_ok\<close> states where it is needed.
\<close>

section \<open>Options\<close>

definition prod_registry_port :: int where "prod_registry_port = 19100"
definition prod_default_base_port :: int where "prod_default_base_port = 19200"
definition prod_adhd_port_offset :: int where "prod_adhd_port_offset = 10"
definition prod_federation_offset :: int where "prod_federation_offset = 100"
definition max_prod_base_port :: int where "max_prod_base_port = 65535 - prod_federation_offset - 1"

lemmas prod_consts = prod_registry_port_def prod_default_base_port_def prod_adhd_port_offset_def
  prod_federation_offset_def max_prod_base_port_def

definition isotope_char :: "char \<Rightarrow> bool" where
  "isotope_char c \<longleftrightarrow> is_digit c \<or> (is_letter c \<and> lower_char c = c)"

text \<open>\<open>^[a-z0-9][a-z0-9-]{0,62}$\<close>\<close>

definition prod_isotope_pattern :: "string \<Rightarrow> bool" where
  "prod_isotope_pattern s \<longleftrightarrow> s \<noteq> [] \<and> isotope_char (hd s) \<and> length s \<le> 63
     \<and> list_all (\<lambda>c. isotope_char c \<or> c = CHR ''-'') (tl s)"

record prod_options =
  po_isotope :: string
  po_base_port :: int
  po_child :: bool
  po_generation :: int
  po_rotate :: bool
  po_registry_bind :: string
  po_trust :: string
  po_rotate_timeout :: duration

datatype prod_err =
    Bad_Isotope string
  | Base_Out_Of_Range int
  | Port_Collision int int
  | Bad_Generation int
  | Bad_Trust string
  | Bad_Bind string
  | Flag_Error flag_err
  | Unexpected_Arguments "string list"

record prod_node =
  pn_name :: string
  pn_role :: string
  pn_alarm_port :: int
  pn_adhd_port :: int
  pn_federate :: bool

definition prod_nodes :: "int \<Rightarrow> prod_node list" where
  "prod_nodes base =
     [\<lparr>pn_name = ''alarm-a-a'', pn_role = ''a'', pn_alarm_port = base,
        pn_adhd_port = base + prod_adhd_port_offset, pn_federate = True\<rparr>,
      \<lparr>pn_name = ''alarm-a-b'', pn_role = ''a'', pn_alarm_port = base + 1,
        pn_adhd_port = base + prod_adhd_port_offset + 1, pn_federate = True\<rparr>,
      \<lparr>pn_name = ''alarm-c'', pn_role = ''b'', pn_alarm_port = base + 2,
        pn_adhd_port = base + prod_adhd_port_offset + 2, pn_federate = False\<rparr>]"

definition prod_ports :: "int \<Rightarrow> int list" where
  "prod_ports base =
     prod_registry_port # concat (map (\<lambda>n. [pn_alarm_port n, pn_adhd_port n]) (prod_nodes base))
     @ [base + prod_federation_offset .. base + prod_federation_offset + 1]"

text \<open>The ports in the order they are checked, against the ports seen before.\<close>

fun check_ports :: "int \<Rightarrow> int list \<Rightarrow> int list \<Rightarrow> (prod_err, unit) res" where
  "check_ports base seen [] = Inr ()"
| "check_ports base seen (p # ps) =
     (if p \<in> set seen then Inl (Port_Collision base p) else check_ports base (p # seen) ps)"

definition prod_port_layout :: "int \<Rightarrow> (prod_err, unit) res" where
  "prod_port_layout base =
     check_ports base [prod_registry_port]
       (concat (map (\<lambda>n. [pn_alarm_port n, pn_adhd_port n]) (prod_nodes base))
        @ [base + prod_federation_offset .. base + prod_federation_offset + 1])"

definition normalized :: "prod_options \<Rightarrow> (prod_err, prod_options) res" where
  "normalized o0 =
     (let o1 = (if po_isotope o0 = [] then o0\<lparr>po_isotope := ''prod''\<rparr> else o0) in
      if \<not> prod_isotope_pattern (po_isotope o1) then Inl (Bad_Isotope (po_isotope o1))
      else
        (let o2 = (if po_base_port o1 = 0 then o1\<lparr>po_base_port := prod_default_base_port\<rparr> else o1) in
         if po_base_port o2 < 1024 \<or> po_base_port o2 > max_prod_base_port
         then Inl (Base_Out_Of_Range (po_base_port o2))
         else
           and_then (prod_port_layout (po_base_port o2)) (\<lambda>_.
             (let o3 = (if po_rotate_timeout o2 = 0 then o2\<lparr>po_rotate_timeout := 45 * second\<rparr> else o2) in
              if po_generation o3 < 0 then Inl (Bad_Generation (po_generation o3))
              else if po_trust o3 \<notin> {[], ''secret'', ''derived'', ''certificate''}
              then Inl (Bad_Trust (po_trust o3))
              else
                (let o4 = (if po_trust o3 = [] then o3\<lparr>po_trust := ''secret''\<rparr> else o3) in
                 case registry_host (po_registry_bind o4) [] of
                   Inl b \<Rightarrow> Inl (Bad_Bind b)
                 | Inr _ \<Rightarrow> Inr o4)))))"

section \<open>The command line\<close>

definition prod_service_profile :: "int \<Rightarrow> string" where
  "prod_service_profile g = ''prod-g'' @ dec_int g"

definition prod_service_args :: "prod_options \<Rightarrow> int \<Rightarrow> string list" where
  "prod_service_args o' g =
     [''prod'', ''--isotope'', po_isotope o', ''--base-port'', dec_int (po_base_port o'), ''--child'',
      ''--generation'', dec_int g]
     @ (if po_registry_bind o' \<noteq> [] then [''--registry-bind'', po_registry_bind o'] else [])"

definition prod_flag_defaults :: prod_options where
  "prod_flag_defaults = \<lparr>po_isotope = ''prod'', po_base_port = prod_default_base_port, po_child = False,
     po_generation = 0, po_rotate = False, po_registry_bind = [], po_trust = ''secret'', po_rotate_timeout = 0\<rparr>"

definition prod_flag_kinds :: "string \<Rightarrow> flag_kind option" where
  "prod_flag_kinds n =
     (if n \<in> {''rotate'', ''child''} then Some Switch
      else if n \<in> {''isotope'', ''base-port'', ''generation'', ''registry-bind'', ''trust''} then Some Valued
      else None)"

definition prod_flag_set :: "string \<Rightarrow> string \<Rightarrow> prod_options \<Rightarrow> prod_options option" where
  "prod_flag_set n v o' =
     (if n = ''isotope'' then Some (o'\<lparr>po_isotope := v\<rparr>)
      else if n = ''base-port'' then map_option (\<lambda>i. o'\<lparr>po_base_port := i\<rparr>) (parse_int v)
      else if n = ''rotate'' then map_option (\<lambda>b. o'\<lparr>po_rotate := b\<rparr>) (parse_bool v)
      else if n = ''child'' then map_option (\<lambda>b. o'\<lparr>po_child := b\<rparr>) (parse_bool v)
      else if n = ''generation'' then map_option (\<lambda>i. o'\<lparr>po_generation := i\<rparr>) (parse_int v)
      else if n = ''registry-bind'' then Some (o'\<lparr>po_registry_bind := v\<rparr>)
      else if n = ''trust'' then Some (o'\<lparr>po_trust := v\<rparr>)
      else None)"

definition parse_prod_args :: "string list \<Rightarrow> (prod_err, prod_options) res" where
  "parse_prod_args args =
     (case parse_flags prod_flag_kinds prod_flag_set prod_flag_defaults args of
        Inl e \<Rightarrow> Inl (Flag_Error e)
      | Inr (o', rest) \<Rightarrow> if rest \<noteq> [] then Inl (Unexpected_Arguments rest) else normalized o')"

section \<open>The plan\<close>

text \<open>A registration as the isotope library takes it, with the evidence the run adds.\<close>

record 'c registration =
  rg_name :: string
  rg_role :: string
  rg_endpoint :: string
  rg_protocol :: string
  rg_attestation :: "'c signature"

definition http_at :: "string \<Rightarrow> int \<Rightarrow> string" where
  "http_at host port = ''http://'' @ host @ '':'' @ dec_int port"

definition prod_isotope_records :: "string \<Rightarrow> prod_node \<Rightarrow> prod_node \<Rightarrow> string \<Rightarrow> string \<Rightarrow> 'c registration list" where
  "prod_isotope_records name primary fallback host registry_name =
     [\<lparr>rg_name = name, rg_role = ''cluster'',
        rg_endpoint = http_at registry_name prod_registry_port @ ''/cluster'',
        rg_protocol = ''http'', rg_attestation = No_Signature\<rparr>,
      \<lparr>rg_name = name @ ''-a'', rg_role = ''alarm-a'', rg_endpoint = http_at host (pn_alarm_port primary),
        rg_protocol = ''http'', rg_attestation = No_Signature\<rparr>,
      \<lparr>rg_name = name @ ''-b'', rg_role = ''alarm-b'', rg_endpoint = http_at host (pn_alarm_port fallback),
        rg_protocol = ''http'', rg_attestation = No_Signature\<rparr>]"

record 'c prod_plan =
  pl_options :: prod_options
  pl_nodes :: "prod_node list"
  pl_primary :: prod_node
  pl_fallback :: prod_node
  pl_cluster :: cluster_info
  pl_isotopes :: "'c registration list"
  pl_federation_base :: int
  pl_trust :: "'c cluster_trust"

definition build_prod_plan :: "prod_options \<Rightarrow> string \<Rightarrow> (prod_err, 'c prod_plan) res" where
  "build_prod_plan o0 host =
     and_then (normalized o0) (\<lambda>o'.
       (let nodes = prod_nodes (po_base_port o'); primary = nodes ! 0; fallback = nodes ! 2 in
        case registry_host (po_registry_bind o') host of
          Inl b \<Rightarrow> Inl (Bad_Bind b)
        | Inr (registry_name, _) \<Rightarrow>
            Inr \<lparr>pl_options = o', pl_nodes = nodes, pl_primary = primary, pl_fallback = fallback,
              pl_cluster = \<lparr>ci_name = po_isotope o',
                ci_alarm_a = http_at host (pn_alarm_port primary),
                ci_alarm_b = http_at host (pn_alarm_port fallback),
                ci_adhd_mcp = http_at host (pn_adhd_port primary) @ ''/mcp'',
                ci_repos = [], ci_projects = []\<rparr>,
              pl_isotopes = prod_isotope_records (po_isotope o') primary fallback host registry_name,
              pl_federation_base = po_base_port o' + prod_federation_offset,
              pl_trust = no_trust\<rparr>))"

text \<open>The evidence \<open>RunProd\<close> adds once the trust is loaded.\<close>

definition attest_plan :: "'c cluster_trust \<Rightarrow> 'c prod_plan \<Rightarrow> 'c prod_plan" where
  "attest_plan t p =
     p\<lparr>pl_trust := t,
       pl_isotopes := map (\<lambda>r. r\<lparr>rg_attestation := attestation t (rg_endpoint r)\<rparr>) (pl_isotopes p)\<rparr>"

record alarm_config =
  ac_port :: int
  ac_listen_addr :: string
  ac_state_dir :: string
  ac_binary :: string
  ac_config_path :: string
  ac_log_path :: string
  ac_federate :: bool
  ac_cluster_id :: string
  ac_federation_base :: int
  ac_federation_max :: int
  ac_trust_yaml :: string

definition health_listen_addr :: string where
  "health_listen_addr = ''0.0.0.0''"

definition alarm_config_of ::
    "(string \<Rightarrow> string) \<Rightarrow> 'c prod_plan \<Rightarrow> prod_node \<Rightarrow> string \<Rightarrow> string \<Rightarrow> alarm_config" where
  "alarm_config_of quote p n binary root =
     \<lparr>ac_port = pn_alarm_port n, ac_listen_addr = health_listen_addr,
      ac_state_dir = join_path [root, ''state-'' @ pn_name n], ac_binary = binary,
      ac_config_path = join_path [root, pn_name n @ ''.yaml''],
      ac_log_path = join_path [root, pn_name n @ ''.log''],
      ac_federate = pn_federate n, ac_cluster_id = po_isotope (pl_options p) @ ''-a'',
      ac_federation_base = pl_federation_base p, ac_federation_max = pl_federation_base p + 1,
      ac_trust_yaml = trust_yaml quote (pl_trust p)\<rparr>"

record adhd_config =
  dc_adhd_port :: int
  dc_alarm_a_port :: int
  dc_alarm_b_port :: int

definition adhd_config_of :: "'c prod_plan \<Rightarrow> prod_node \<Rightarrow> adhd_config" where
  "adhd_config_of p n =
     \<lparr>dc_adhd_port = pn_adhd_port n, dc_alarm_a_port = pn_alarm_port (pl_primary p),
      dc_alarm_b_port = pn_alarm_port (pl_fallback p)\<rparr>"

text \<open>The template of the dashboards, executed.\<close>

definition render_adhd_config :: "adhd_config \<Rightarrow> string" where
  "render_adhd_config d =
     join [CHR 0x0A]
      [''mcp_server:'',
       ''  enabled: true'',
       ''  addr: '' @ [CHR 0x22] @ '':'' @ dec_int (dc_adhd_port d) @ [CHR 0x22],
       ''smoke_alarm:'',
       ''  - name: '' @ [CHR 0x22] @ ''alarm_a'' @ [CHR 0x22],
       ''    endpoint: '' @ [CHR 0x22] @ http_at ''127.0.0.1'' (dc_alarm_a_port d) @ [CHR 0x22],
       ''    interval: '' @ [CHR 0x22] @ ''5s'' @ [CHR 0x22],
       ''    use_sse: false'',
       ''  - name: '' @ [CHR 0x22] @ ''alarm_b'' @ [CHR 0x22],
       ''    endpoint: '' @ [CHR 0x22] @ http_at ''127.0.0.1'' (dc_alarm_b_port d) @ [CHR 0x22],
       ''    interval: '' @ [CHR 0x22] @ ''5s'' @ [CHR 0x22],
       ''    use_sse: false'',
       []]"

record prod_skill =
  sk_name :: string
  sk_env :: "(string, string) table"

definition prod_skills_for :: "string \<Rightarrow> prod_node \<Rightarrow> prod_skill list" where
  "prod_skills_for root n =
     [\<lparr>sk_name = ''tear-ledger'',
        sk_env = [(''ADHD_TEAR_LEDGER_PATH'', join_path [root, ''tear-ledger-'' @ pn_name n @ ''.json''])]\<rparr>]"

definition skill_environ :: "prod_skill list \<Rightarrow> string list" where
  "skill_environ skills =
     sort_slice (<) (concat (map (\<lambda>s. map (\<lambda>(k, v). k @ ''='' @ v) (sk_env s)) skills))"

text \<open>What a dashboard is started with: its arguments and the entries added to its environment.\<close>

definition adhd_argv :: "'c prod_plan \<Rightarrow> prod_node \<Rightarrow> string \<Rightarrow> string list" where
  "adhd_argv p n root =
     [''--headless'', ''--config'', join_path [root, ''adhd-'' @ pn_name n @ ''.yaml''],
      ''--log'', join_path [root, ''adhd-'' @ pn_name n @ ''.jsonl''],
      ''--mcp-addr'', CHR '':'' # dec_int (pn_adhd_port n),
      ''--smoke-alarm'', http_at ''127.0.0.1'' (pn_alarm_port (pl_primary p)), ''--force'']"

definition adhd_environ :: "('c \<Rightarrow> string) \<Rightarrow> (string \<Rightarrow> string) \<Rightarrow> 'c prod_plan \<Rightarrow> prod_node \<Rightarrow> string \<Rightarrow> string list" where
  "adhd_environ json64 b64 p n root =
     skill_environ (prod_skills_for root n) @ trust_env json64 b64 (pl_trust p)"

text \<open>
  Every record is registered with every alarm; \<open>answer\<close> is the trust rung an alarm reports, or
  \<open>None\<close> when the call fails. The summary names the best rung of the cluster record.
\<close>

definition cluster_rung :: "(prod_node \<Rightarrow> 'c registration \<Rightarrow> int option) \<Rightarrow> 'c prod_plan \<Rightarrow> int" where
  "cluster_rung answer p =
     fold (\<lambda>n best. fold (\<lambda>r best.
         (case answer n r of
            Some rung \<Rightarrow> if rg_role r = ''cluster'' then max best rung else best
          | None \<Rightarrow> best)) (pl_isotopes p) best) (pl_nodes p) (- 1)"

definition register_prod_isotopes :: "(prod_node \<Rightarrow> 'c registration \<Rightarrow> int option) \<Rightarrow> 'c prod_plan \<Rightarrow> string" where
  "register_prod_isotopes answer p =
     (if cluster_rung answer p < 0 then ''none registered''
      else ''cluster rung '' @ dec_int (cluster_rung answer p))"

section \<open>Waiting\<close>

text \<open>
  The rounds of a waiting loop: what was observed, whether the deadline had passed after it, and
  whether the context was done at the pause. A list that runs out is a context that is cancelled.
\<close>

datatype wait_end = Served | Timed_Out | Cancelled

fun poll_until :: "('a \<Rightarrow> bool) \<Rightarrow> ('a \<times> bool \<times> bool) list \<Rightarrow> wait_end" where
  "poll_until good [] = Cancelled"
| "poll_until good ((x, late, cancelled) # ps) =
     (if good x then Served
      else if late then Timed_Out
      else if cancelled then Cancelled
      else poll_until good ps)"

text \<open>One observation is the set of ports another process holds.\<close>

definition wait_ports_free :: "int list \<Rightarrow> ((int \<Rightarrow> bool) \<times> bool \<times> bool) list \<Rightarrow> wait_end" where
  "wait_ports_free ports = poll_until (\<lambda>held. filter held ports = [])"

text \<open>One observation is the decoded registry, if it answered, and the health of its endpoints.\<close>

type_synonym registry_poll = "(string, cluster_info) table option \<times> (string \<Rightarrow> bool)"

definition handoff_seen :: "string \<Rightarrow> registry_poll \<Rightarrow> bool" where
  "handoff_seen who obs =
     (case obs of
        (None, _) \<Rightarrow> False
      | (Some t, healthy) \<Rightarrow>
          (case map_of t who of
             None \<Rightarrow> False
           | Some c \<Rightarrow> ci_alarm_a c = [] \<or> healthy (ci_alarm_a c @ ''/healthz'')))"

definition wait_for_registry :: "string \<Rightarrow> (registry_poll \<times> bool \<times> bool) list \<Rightarrow> wait_end" where
  "wait_for_registry who = poll_until (handoff_seen who)"

section \<open>The run\<close>

text \<open>
  What the run holds: its child processes, the registry listener, the advertisement, the services
  installed with launchd, and whether \<open>release\<close> has run. Every call that can fail takes the
  next entry of the script.
\<close>

record prod_world =
  pw_procs :: "string list"
  pw_registry :: bool
  pw_mdns :: bool
  pw_released :: bool
  pw_services :: "string list"
  pw_faults :: "bool list"

datatype run_err =
    Bad_Options prod_err
  | Ports_Busy wait_end
  | No_State_Dir
  | No_Trust trust_err
  | No_Dirs
  | No_Tools
  | No_Config string
  | Registry_Taken
  | Not_Started string
  | Not_Ready string
  | No_Binary
  | Not_Installed int
  | Child_Silent wait_end

definition attempt :: "run_err \<Rightarrow> prod_world \<Rightarrow> (run_err, unit) res \<times> prod_world" where
  "attempt e w =
     (let (bad, fs) = next_fault (pw_faults w) in ((if bad then Inl e else Inr ()), w\<lparr>pw_faults := fs\<rparr>))"

definition release :: "prod_world \<Rightarrow> prod_world" where
  "release w =
     (if pw_released w then w
      else w\<lparr>pw_procs := [], pw_registry := False, pw_mdns := False, pw_released := True\<rparr>)"

fun attempt_all :: "run_err list \<Rightarrow> prod_world \<Rightarrow> (run_err, unit) res \<times> prod_world" where
  "attempt_all [] w = (Inr (), w)"
| "attempt_all (e # es) w = next_do (attempt e w) (\<lambda>_. attempt_all es)"

fun start_all :: "string list \<Rightarrow> prod_world \<Rightarrow> (run_err, unit) res \<times> prod_world" where
  "start_all [] w = (Inr (), w)"
| "start_all (n # ns) w =
     next_do (attempt (Not_Started n) w) (\<lambda>_ w1. start_all ns (w1\<lparr>pw_procs := pw_procs w1 @ [n]\<rparr>))"

definition remove_older_prod_services :: "int \<Rightarrow> prod_world \<Rightarrow> prod_world" where
  "remove_older_prod_services g w =
     w\<lparr>pw_services := filter (\<lambda>s. s \<notin> set (map prod_service_profile [0..g - 1])) (pw_services w)\<rparr>"

text \<open>\<open>rotateProd\<close>; removing the own service may fail, which is ignored.\<close>

definition rotate_prod ::
    "prod_options \<Rightarrow> (registry_poll \<times> bool \<times> bool) list \<Rightarrow> prod_world \<Rightarrow> (run_err, unit) res \<times> prod_world" where
  "rotate_prod o' polls w =
     (let g = po_generation o' + 1 in
      next_do (attempt No_Binary w) (\<lambda>_ w1.
      next_do (attempt (Not_Installed g) w1) (\<lambda>_ w2.
        (let w3 = release (w2\<lparr>pw_services := prod_service_profile g # pw_services w2\<rparr>) in
         case wait_for_registry (po_isotope o') polls of
           Served \<Rightarrow>
             if po_generation o' > 0 then
               (let (r, w4) = attempt No_Binary w3 in
                (Inr (), if is_ok r
                   then w4\<lparr>pw_services := filter (\<lambda>s. s \<noteq> prod_service_profile (po_generation o')) (pw_services w4)\<rparr>
                   else w4))
             else (Inr (), w3)
         | e \<Rightarrow> (Inl (Child_Silent e), w3)))))"

datatype prod_signal = Hup "(registry_poll \<times> bool \<times> bool) list" | Interrupt

text \<open>The signal loop: a failed rotation is reported and the loop goes on; no more signals is
  the end of the context.\<close>

fun signal_loop :: "prod_options \<Rightarrow> prod_signal list \<Rightarrow> prod_world \<Rightarrow> (run_err, unit) res \<times> prod_world" where
  "signal_loop o' [] w = (Inr (), release w)"
| "signal_loop o' (Interrupt # sigs) w = (Inr (), release w)"
| "signal_loop o' (Hup polls # sigs) w =
     (case rotate_prod o' polls w of
        (Inl e, w1) \<Rightarrow> signal_loop o' sigs w1
      | (Inr _, w1) \<Rightarrow> (Inr (), w1))"

definition node_steps :: "(string \<Rightarrow> run_err) \<Rightarrow> prod_node list \<Rightarrow> run_err list" where
  "node_steps e nodes = map (\<lambda>n. e (pn_name n)) nodes"

text \<open>Everything after the registry listener is up, with \<open>release\<close> deferred.\<close>

definition run_cluster ::
    "'c prod_plan \<Rightarrow> (registry_poll \<times> bool \<times> bool) list \<Rightarrow> prod_signal list \<Rightarrow> prod_world
     \<Rightarrow> (run_err, unit) res \<times> prod_world" where
  "run_cluster p polls sigs w =
     (let nodes = pl_nodes p; o' = pl_options p;
          (r, w') =
            next_do (start_all (map pn_name nodes) w) (\<lambda>_ w1.
            next_do (attempt_all (node_steps Not_Ready nodes) w1) (\<lambda>_ w2.
            next_do (start_all (map (\<lambda>n. ''adhd-'' @ pn_name n) nodes) w2) (\<lambda>_ w3.
            next_do (attempt_all (node_steps (\<lambda>n. Not_Ready (''adhd-'' @ n)) nodes) w3) (\<lambda>_ w4.
              if po_rotate o' then rotate_prod o' polls w4 else signal_loop o' sigs w4)))) in
      (r, release w'))"

text \<open>The listener is bound and \<open>release\<close> is deferred; a failing advertisement is a warning.\<close>

definition open_registry ::
    "string \<Rightarrow> 'c prod_plan \<Rightarrow> (registry_poll \<times> bool \<times> bool) list \<Rightarrow> prod_signal list \<Rightarrow> prod_world
     \<Rightarrow> (run_err, unit) res \<times> prod_world" where
  "open_registry host p polls sigs w =
     (case resolve_registry_listener host (po_registry_bind (pl_options p)) of
        Inl b \<Rightarrow> (Inl (Bad_Options (Bad_Bind b)), w)
      | Inr l \<Rightarrow>
          next_do (attempt Registry_Taken w) (\<lambda>_ w1.
            (let q = (if rl_lan l then next_fault (pw_faults w1) else (False, pw_faults w1)) in
             run_cluster p polls sigs
               (w1\<lparr>pw_registry := True, pw_mdns := rl_lan l \<and> \<not> fst q, pw_released := False, pw_faults := snd q\<rparr>))))"

text \<open>Directories, tools and configuration files, before anything listens.\<close>

definition prepare_steps :: "'c prod_plan \<Rightarrow> run_err list" where
  "prepare_steps p =
     map (\<lambda>_. No_Dirs) (pl_nodes p) @ [No_Tools, No_Tools, No_Tools]
     @ concat (map (\<lambda>n. [No_Config (pn_name n), No_Config (''adhd-'' @ pn_name n)]) (pl_nodes p))"

text \<open>
  \<open>RunProd\<close>. \<open>port_polls\<close> are the rounds of a child waiting for its ports, \<open>load\<close> is
  \<open>loadOrMintTrust\<close> over the state directory (see the theory of the trust).
\<close>

definition run_plan ::
    "(string \<Rightarrow> string \<Rightarrow> (trust_err, 'c cluster_trust) res) \<Rightarrow> string
     \<Rightarrow> (registry_poll \<times> bool \<times> bool) list \<Rightarrow> prod_signal list \<Rightarrow> prod_options \<Rightarrow> prod_world
     \<Rightarrow> (run_err, unit) res \<times> prod_world" where
  "run_plan load host polls sigs o1 w =
     (case build_prod_plan o1 host of
        Inl e \<Rightarrow> (Inl (Bad_Options e), w)
      | Inr p \<Rightarrow>
          (case load (po_isotope (pl_options p)) (po_trust (pl_options p)) of
             Inl e \<Rightarrow> (Inl (No_Trust e), w)
           | Inr t \<Rightarrow>
               next_do (attempt_all (prepare_steps p) w)
                 (\<lambda>_. open_registry host (attest_plan t p) polls sigs)))"

definition run_prod ::
    "((int \<Rightarrow> bool) \<times> bool \<times> bool) list \<Rightarrow> (string \<Rightarrow> string \<Rightarrow> (trust_err, 'c cluster_trust) res) \<Rightarrow> string
     \<Rightarrow> (registry_poll \<times> bool \<times> bool) list \<Rightarrow> prod_signal list \<Rightarrow> prod_options \<Rightarrow> prod_world
     \<Rightarrow> (run_err, unit) res \<times> prod_world" where
  "run_prod port_polls load host polls sigs o0 w =
     (case normalized o0 of
        Inl e \<Rightarrow> (Inl (Bad_Options e), w)
      | Inr o1 \<Rightarrow>
          (let waited = (if po_child o1 then wait_ports_free (prod_ports (po_base_port o1)) port_polls else Served) in
           if waited \<noteq> Served then (Inl (Ports_Busy waited), w)
           else
             next_do (attempt No_State_Dir
                 (if po_child o1 then remove_older_prod_services (po_generation o1) w else w))
               (\<lambda>_. run_plan load host polls sigs o1)))"

section \<open>Ports\<close>

lemma check_ports_iff:
  "check_ports base seen ps = Inr () \<longleftrightarrow> distinct ps \<and> set ps \<inter> set seen = {}"
  by (induction ps arbitrary: seen) auto

lemma layout_iff: "prod_port_layout base = Inr () \<longleftrightarrow> distinct (prod_ports base)"
  by (auto simp: prod_port_layout_def prod_ports_def check_ports_iff)

lemma two_slots: "[b .. b + 1] = [b, b + 1 :: int]"
  by (simp add: upto.simps)

lemma ports_eval:
  "prod_ports b = [19100, b, b + 10, b + 1, b + 11, b + 2, b + 12, b + 100, b + 101]"
  using two_slots [of "b + 100"]
  by (simp add: prod_ports_def prod_nodes_def prod_consts algebra_simps)

lemma normalized_Inr:
  assumes "normalized o0 = Inr o'"
  shows "prod_isotope_pattern (po_isotope o')" "1024 \<le> po_base_port o'" "po_base_port o' \<le> max_prod_base_port"
    "prod_port_layout (po_base_port o') = Inr ()" "0 \<le> po_generation o'"
    "po_trust o' \<in> {''secret'', ''derived'', ''certificate''}" "po_rotate_timeout o' \<noteq> 0"
    "is_ok (registry_host (po_registry_bind o') [])"
proof -
  define o1 where "o1 = (if po_isotope o0 = [] then o0\<lparr>po_isotope := ''prod''\<rparr> else o0)"
  define o2 where "o2 = (if po_base_port o1 = 0 then o1\<lparr>po_base_port := prod_default_base_port\<rparr> else o1)"
  define o3 where "o3 = (if po_rotate_timeout o2 = 0 then o2\<lparr>po_rotate_timeout := 45 * second\<rparr> else o2)"
  define o4 where "o4 = (if po_trust o3 = [] then o3\<lparr>po_trust := ''secret''\<rparr> else o3)"
  note all = assms [unfolded normalized_def Let_def, folded o1_def, folded o2_def, folded o3_def, folded o4_def]
  have p: "prod_isotope_pattern (po_isotope o1)" using all by (simp split: if_splits)
  then have b: "1024 \<le> po_base_port o2" "po_base_port o2 \<le> max_prod_base_port"
    using all by (simp_all split: if_splits)
  then have l: "prod_port_layout (po_base_port o2) = Inr ()"
    using all p by (cases "prod_port_layout (po_base_port o2)") simp_all
  then have g: "0 \<le> po_generation o3" "po_trust o3 \<in> {[], ''secret'', ''derived'', ''certificate''}"
    using all p b by (simp_all split: if_splits)
  then have o4: "o4 = o'" "is_ok (registry_host (po_registry_bind o4) [])"
    using all p b l by (simp_all split: sum.splits)
  have same: "po_isotope o4 = po_isotope o1" "po_base_port o4 = po_base_port o2" "po_generation o4 = po_generation o3"
    by (simp_all add: o2_def o3_def o4_def)
  show "prod_isotope_pattern (po_isotope o')" "1024 \<le> po_base_port o'" "po_base_port o' \<le> max_prod_base_port"
    "prod_port_layout (po_base_port o') = Inr ()" "0 \<le> po_generation o'" "is_ok (registry_host (po_registry_bind o') [])"
    using p b l g(1) o4 same by simp_all
  show "po_trust o' \<in> {''secret'', ''derived'', ''certificate''}"
    using g(2) unfolding o4(1) [symmetric] by (auto simp: o4_def)
  show "po_rotate_timeout o' \<noteq> 0"
    unfolding o4(1) [symmetric] by (simp add: o3_def o4_def)
qed

lemma layout_bases:
  "prod_port_layout b = Inr () \<longleftrightarrow> b \<notin> {19100, 19099, 19098, 19090, 19089, 19088, 19000, 18999}"
  unfolding layout_iff ports_eval by (simp only: distinct.simps list.set insert_iff empty_iff) presburger

text \<open>
  Which bases are accepted is settled by eight numbers: a base in range is refused exactly when
  one of the eight derived ports would fall on the registry port. With accepted options all nine
  ports of the cluster are distinct and within the range of ports.
\<close>

theorem accepted_ports:
  "(prod_port_layout b = Inr () \<longleftrightarrow> b \<notin> {19100, 19099, 19098, 19090, 19089, 19088, 19000, 18999})
    \<and> (normalized o0 = Inr o' \<longrightarrow> distinct (prod_ports (po_base_port o'))
        \<and> (\<forall>p \<in> set (prod_ports (po_base_port o')). 1024 \<le> p \<and> p \<le> 65535))"
proof (intro conjI impI)
  show "prod_port_layout b = Inr () \<longleftrightarrow> b \<notin> {19100, 19099, 19098, 19090, 19089, 19088, 19000, 18999}"
    by (rule layout_bases)
next
  assume n: "normalized o0 = Inr o'"
  then show "distinct (prod_ports (po_base_port o'))"
    using normalized_Inr(4) layout_iff by blast
  show "\<forall>p \<in> set (prod_ports (po_base_port o')). 1024 \<le> p \<and> p \<le> 65535"
    using normalized_Inr(2,3) [OF n] by (simp add: ports_eval prod_consts)
qed

lemma pattern_prod: "prod_isotope_pattern ''prod''"
  by (simp add: prod_isotope_pattern_def isotope_char_def is_letter_def is_digit_def digit_val_def lower_char_def)

definition default_options :: prod_options where
  "default_options = prod_flag_defaults\<lparr>po_rotate_timeout := 45 * second\<rparr>"

lemma normalized_default: "normalized prod_flag_defaults = Inr default_options"
proof -
  have "prod_port_layout 19200 = Inr ()"
    by (simp add: layout_bases)
  then show ?thesis
    using pattern_prod
    by (simp add: normalized_def prod_flag_defaults_def default_options_def prod_consts registry_host_default)
qed

theorem accepted_ports_witness:
  "distinct (prod_ports (po_base_port default_options))"
  using accepted_ports normalized_default by blast

section \<open>A rotated child\<close>

lemma normalized_again:
  assumes "normalized o0 = Inr o'" "0 \<le> g"
  shows "normalized (o'\<lparr>po_child := c, po_generation := g, po_rotate := r, po_trust := ''secret'', po_rotate_timeout := 0\<rparr>)
    = Inr (o'\<lparr>po_child := c, po_generation := g, po_rotate := r, po_trust := ''secret'', po_rotate_timeout := 45 * second\<rparr>)"
proof -
  note n = normalized_Inr [OF assms(1)]
  have "po_isotope o' \<noteq> []" "po_base_port o' \<noteq> 0" using n(1,2) by (auto simp: prod_isotope_pattern_def)
  then show ?thesis
    using n assms(2)
    by (cases "registry_host (po_registry_bind o') []") (simp_all add: normalized_def prod_consts)
qed

lemmas flag_eval = prod_service_args_def parse_prod_args_def prod_flag_kinds_def prod_flag_set_def
  parse_bool_def

text \<open>
  C36: the argument list the next generation is installed with parses, and the child it starts has
  the isotope, the base port and the registry bind of its parent and the generation it was given;
  it is a child that does not itself rotate. The shape of the trust is not handed on: whatever the
  parent's is, the child's is the launch secret.
\<close>

theorem child_inherits_identity:
  assumes "normalized o0 = Inr o'" "0 \<le> g" "g < 2 ^ 63"
  shows "parse_prod_args (tl (prod_service_args o' g)) =
     Inr (o'\<lparr>po_child := True, po_generation := g, po_rotate := False, po_trust := ''secret'',
       po_rotate_timeout := 45 * second\<rparr>)"
proof -
  let ?o = "o'\<lparr>po_child := True, po_generation := g, po_rotate := False, po_trust := ''secret'', po_rotate_timeout := 0\<rparr>"
  have b: "parse_int (dec_int (po_base_port o')) = Some (po_base_port o')" "parse_int (dec_int g) = Some g"
    using parse_int_dec_int normalized_Inr(2,3) [OF assms(1)] assms(2,3) by (simp_all add: prod_consts)
  have "parse_flags prod_flag_kinds prod_flag_set prod_flag_defaults (tl (prod_service_args o' g)) = Inr (?o, [])"
    by (cases "po_registry_bind o' = []")
      (simp_all add: flag_eval b prod_flag_defaults_def)
  then show ?thesis
    using normalized_again [OF assms(1,2), where c = True and r = False] by (simp add: parse_prod_args_def)
qed

theorem child_inherits_identity_witness:
  "parse_prod_args (tl (prod_service_args default_options 1)) =
     Inr (default_options\<lparr>po_child := True, po_generation := 1, po_rotate := False, po_trust := ''secret'',
       po_rotate_timeout := 45 * second\<rparr>)"
  using child_inherits_identity [OF normalized_default, of 1] by simp

section \<open>What is advertised\<close>

lemma http_at_inject: "http_at h p = http_at h q \<longleftrightarrow> p = q" if "0 \<le> p" "0 \<le> q"
  using that by (simp add: http_at_def dec_int_def eq_nat_nat_iff)

text \<open>
  Nobody is told of the mirror or of the third node. The records a plan registers are the
  cluster, \<open>-a\<close> at the port of the primary and \<open>-b\<close> at the port of node C; none names the port of
  the mirror, no two share a name or an endpoint, every record carries the evidence for its own
  endpoint; and the configurations of the three dashboards differ in their own port only.
\<close>

theorem mirror_is_not_advertised:
  assumes "build_prod_plan o0 host = Inr p" "m \<in> set (pl_nodes p)" "n \<in> set (pl_nodes p)"
  shows "map rg_name (pl_isotopes p) =
      (let i = po_isotope (pl_options p) in [i, i @ ''-a'', i @ ''-b''])
    \<and> http_at host (pn_alarm_port (pl_nodes p ! 1))
        \<notin> set (map rg_endpoint (tl (pl_isotopes p))) \<union> {ci_alarm_a (pl_cluster p), ci_alarm_b (pl_cluster p)}
    \<and> map rg_endpoint (tl (pl_isotopes p)) = [ci_alarm_a (pl_cluster p), ci_alarm_b (pl_cluster p)]
    \<and> ci_alarm_a (pl_cluster p) \<noteq> ci_alarm_b (pl_cluster p)
    \<and> map rg_attestation (pl_isotopes (attest_plan t p)) = map (attestation t \<circ> rg_endpoint) (pl_isotopes p)
    \<and> (adhd_config_of p m)\<lparr>dc_adhd_port := 0\<rparr> = (adhd_config_of p n)\<lparr>dc_adhd_port := 0\<rparr>"
proof -
  obtain o' where o': "normalized o0 = Inr o'"
    using assms(1) by (auto simp: build_prod_plan_def and_then_Inr)
  then have "1024 \<le> po_base_port o'" using normalized_Inr by blast
  then show ?thesis
    using assms o'
    by (auto simp: build_prod_plan_def and_then_Inr Let_def prod_nodes_def prod_isotope_records_def
        http_at_inject attest_plan_def adhd_config_of_def split: sum.splits)
qed

lemma default_options_simps:
  "po_base_port default_options = 19200" "po_isotope default_options = ''prod''" "po_registry_bind default_options = []"
  by (simp_all add: default_options_def prod_flag_defaults_def prod_consts)

theorem mirror_is_not_advertised_witness:
  "case (build_prod_plan prod_flag_defaults ''10.0.0.1'' :: (prod_err, nat prod_plan) res) of
     Inl e \<Rightarrow> False
   | Inr p \<Rightarrow> map rg_name (pl_isotopes p) = [''prod'', ''prod-a'', ''prod-b'']"
proof -
  obtain p where p: "build_prod_plan prod_flag_defaults ''10.0.0.1'' = (Inr p :: (prod_err, nat prod_plan) res)"
    "pl_nodes p = prod_nodes 19200" "po_isotope (pl_options p) = ''prod''"
    by (simp add: build_prod_plan_def normalized_default default_options_simps registry_host_default Let_def)
  have m: "hd (pl_nodes p) \<in> set (pl_nodes p)" by (simp add: p(2) prod_nodes_def)
  show ?thesis
    using conjunct1 [OF mirror_is_not_advertised [OF p(1) m m]] p by simp
qed

section \<open>The waiting loops\<close>

lemma poll_until_served:
  "poll_until good ps = Served \<longleftrightarrow>
     (\<exists>qs x l c rs. ps = qs @ (x, l, c) # rs \<and> good x \<and> (\<forall>(y, m, d) \<in> set qs. \<not> good y \<and> \<not> m \<and> \<not> d))"
proof (induction ps)
  case Nil
  then show ?case by simp
next
  case (Cons p ps)
  obtain x l c where p: "p = (x, l, c)" by (cases p)
  show ?case
  proof (cases "good x")
    case True
    have "\<exists>qs y m d rs. p # ps = qs @ (y, m, d) # rs \<and> good y
        \<and> (\<forall>(z, m, d) \<in> set qs. \<not> good z \<and> \<not> m \<and> \<not> d)"
      by (rule exI [where x = "[]"]) (simp add: True p)
    moreover have "poll_until good (p # ps) = Served" by (simp add: True p)
    ultimately show ?thesis by blast
  next
    case False
    have "(\<exists>qs y m d rs. p # ps = qs @ (y, m, d) # rs \<and> good y \<and> (\<forall>(z, m, d) \<in> set qs. \<not> good z \<and> \<not> m \<and> \<not> d))
        \<longleftrightarrow> \<not> l \<and> \<not> c \<and> (\<exists>qs y m d rs. ps = qs @ (y, m, d) # rs \<and> good y
            \<and> (\<forall>(z, m, d) \<in> set qs. \<not> good z \<and> \<not> m \<and> \<not> d))" (is "?L \<longleftrightarrow> ?R")
    proof
      assume ?L
      then obtain qs y m d rs where q: "p # ps = qs @ (y, m, d) # rs" "good y"
        "\<forall>(z, m, d) \<in> set qs. \<not> good z \<and> \<not> m \<and> \<not> d" by blast
      then obtain qs' where "qs = p # qs'" using False p by (cases qs) auto
      then have "\<not> l" "\<not> c" "ps = qs' @ (y, m, d) # rs" "\<forall>(z, m, d) \<in> set qs'. \<not> good z \<and> \<not> m \<and> \<not> d"
        using q p by auto
      then show ?R using q(2) by blast
    next
      assume ?R
      then obtain qs y m d rs where q: "\<not> l" "\<not> c" "ps = qs @ (y, m, d) # rs" "good y"
        "\<forall>(z, m, d) \<in> set qs. \<not> good z \<and> \<not> m \<and> \<not> d" by blast
      then have "p # ps = (p # qs) @ (y, m, d) # rs"
        "\<forall>(z, m, d) \<in> set (p # qs). \<not> good z \<and> \<not> m \<and> \<not> d" using False p by auto
      then show ?L using q(4) by blast
    qed
    then show ?thesis using Cons.IH False p by simp
  qed
qed

text \<open>
  A child takes over only free ports: its wait ends well exactly when some round found none of
  the cluster's ports held, and every round before it found one held before the deadline.
\<close>

theorem child_waits_for_ports:
  "wait_ports_free (prod_ports b) polls = Served \<longleftrightarrow>
     (\<exists>qs held l c rs. polls = qs @ (held, l, c) # rs \<and> (\<forall>p. held p \<longrightarrow> p \<notin> set (prod_ports b))
        \<and> (\<forall>(h, m, d) \<in> set qs. (\<exists>p \<in> set (prod_ports b). h p) \<and> \<not> m \<and> \<not> d))"
proof -
  have f: "filter h (prod_ports b) = [] \<longleftrightarrow> (\<forall>p. h p \<longrightarrow> p \<notin> set (prod_ports b))" for h
    by (auto simp: filter_empty_conv)
  have g: "\<not> (filter h (prod_ports b) = []) \<longleftrightarrow> (\<exists>p \<in> set (prod_ports b). h p)" for h
    by (auto simp: filter_empty_conv)
  show ?thesis unfolding wait_ports_free_def poll_until_served g by (simp add: f)
qed

theorem child_waits_for_ports_witness:
  "wait_ports_free (prod_ports 19200) [(\<lambda>p. p = 19201, False, False), (\<lambda>p. p = 5, False, False)] = Served"
proof -
  have "\<exists>qs held l c rs. [(\<lambda>p. p = 19201, False, False), (\<lambda>p. p = 5, False, False)] = qs @ (held, l, c) # rs
      \<and> (\<forall>p. held p \<longrightarrow> p \<notin> set (prod_ports 19200))
      \<and> (\<forall>(h, m, d) \<in> set qs. (\<exists>p \<in> set (prod_ports 19200). h p) \<and> \<not> m \<and> \<not> d)"
    by (rule exI [where x = "[(\<lambda>p. p = 19201, False, False)]"], rule exI [where x = "\<lambda>p. p = 5"],
        rule exI [where x = False], rule exI [where x = False], rule exI [where x = "[]"])
      (simp add: ports_eval)
  then show ?thesis using child_waits_for_ports by blast
qed

section \<open>The run leaves nothing behind\<close>

definition idle :: "prod_world \<Rightarrow> bool" where
  "idle w \<longleftrightarrow> pw_procs w = [] \<and> \<not> pw_registry w \<and> \<not> pw_mdns w"

lemma attempt_keeps [simp]:
  "pw_procs (snd (attempt e w)) = pw_procs w" "pw_registry (snd (attempt e w)) = pw_registry w"
  "pw_mdns (snd (attempt e w)) = pw_mdns w" "pw_released (snd (attempt e w)) = pw_released w"
  "pw_services (snd (attempt e w)) = pw_services w"
  by (simp_all add: attempt_def split: prod.split)

lemma attempt_all_procs [simp]: "pw_procs (snd (attempt_all es w)) = pw_procs w"
  by (induction es arbitrary: w) (simp, simp only: attempt_all.simps, rule next_do_keeps [where g = pw_procs], simp_all)

lemma attempt_all_registry [simp]: "pw_registry (snd (attempt_all es w)) = pw_registry w"
  by (induction es arbitrary: w) (simp, simp only: attempt_all.simps, rule next_do_keeps [where g = pw_registry], simp_all)

lemma attempt_all_mdns [simp]: "pw_mdns (snd (attempt_all es w)) = pw_mdns w"
  by (induction es arbitrary: w) (simp, simp only: attempt_all.simps, rule next_do_keeps [where g = pw_mdns], simp_all)

lemma attempt_all_released [simp]: "pw_released (snd (attempt_all es w)) = pw_released w"
  by (induction es arbitrary: w) (simp, simp only: attempt_all.simps, rule next_do_keeps [where g = pw_released], simp_all)

lemma attempt_all_services [simp]: "pw_services (snd (attempt_all es w)) = pw_services w"
  by (induction es arbitrary: w) (simp, simp only: attempt_all.simps, rule next_do_keeps [where g = pw_services], simp_all)

lemma start_all_registry [simp]: "pw_registry (snd (start_all ns w)) = pw_registry w"
  by (induction ns arbitrary: w) (simp, simp only: start_all.simps, rule next_do_keeps [where g = pw_registry], simp_all)

lemma start_all_released [simp]: "pw_released (snd (start_all ns w)) = pw_released w"
  by (induction ns arbitrary: w) (simp, simp only: start_all.simps, rule next_do_keeps [where g = pw_released], simp_all)

lemma start_all_services [simp]: "pw_services (snd (start_all ns w)) = pw_services w"
  by (induction ns arbitrary: w) (simp, simp only: start_all.simps, rule next_do_keeps [where g = pw_services], simp_all)

lemma attempt_eq:
  "attempt e w = (if fst (next_fault (pw_faults w)) then Inl e else Inr (),
     w\<lparr>pw_faults := snd (next_fault (pw_faults w))\<rparr>)"
  by (simp add: attempt_def split_beta Let_def)

lemma next_fault_twice: "snd (next_fault (snd (next_fault fs))) = drop 2 fs"
  by (auto simp: next_fault_def eval_nat_numeral split: list.splits)

definition released_is_idle :: "prod_world \<Rightarrow> bool" where
  "released_is_idle w \<longleftrightarrow> (pw_released w \<longrightarrow> idle w)"

lemma idle_release: "released_is_idle w \<Longrightarrow> idle (release w) \<and> pw_released (release w)"
  by (simp add: released_is_idle_def release_def idle_def)

lemma rotation_outcome:
  "case rotate_prod o' polls w of
     (Inr _, w') \<Rightarrow> wait_for_registry (po_isotope o') polls = Served \<and> pw_released w'
       \<and> pw_services w' =
           (let all = prod_service_profile (po_generation o' + 1) # pw_services w in
            if 0 < po_generation o' \<and> \<not> fst (next_fault (drop 2 (pw_faults w)))
            then filter (\<lambda>s. s \<noteq> prod_service_profile (po_generation o')) all else all)
       \<and> prod_service_profile (po_generation o' + 1) \<in> set (pw_services w')
   | (Inl (Child_Silent e), w') \<Rightarrow> wait_for_registry (po_isotope o') polls = e \<and> e \<noteq> Served \<and> pw_released w'
       \<and> pw_services w' = prod_service_profile (po_generation o' + 1) # pw_services w
   | (Inl e, w') \<Rightarrow> w' = w\<lparr>pw_faults := pw_faults w'\<rparr>"
proof -
  have other: "prod_service_profile (g + 1) \<noteq> prod_service_profile g" if "0 < g" for g
    using that by (simp add: prod_service_profile_def dec_int_def eq_nat_nat_iff)
  have rel: "pw_released (release v)" "pw_services (release v) = pw_services v" "pw_faults (release v) = pw_faults v" for v
    by (simp_all add: release_def)
  show ?thesis
  proof (cases "fst (next_fault (pw_faults w)) \<or> fst (next_fault (snd (next_fault (pw_faults w))))")
    case True
    then show ?thesis by (auto simp: rotate_prod_def Let_def attempt_eq)
  next
    case False
    then show ?thesis
      using other
      by (cases "wait_for_registry (po_isotope o') polls")
        (auto simp: rotate_prod_def Let_def attempt_eq rel next_fault_twice)
  qed
qed

text \<open>
  A rotation either changes nothing (no binary, or the service is not installed), or the next
  generation is installed before the ports are let go. It reports success only after the registry
  answered under the same identity, and then the own service is gone as well, unless launchd
  refuses.
\<close>

theorem rotation_hands_over:
  "case rotate_prod o' polls w of
     (Inr _, w') \<Rightarrow> wait_for_registry (po_isotope o') polls = Served \<and> pw_released w'
       \<and> pw_services w' =
           (let all = prod_service_profile (po_generation o' + 1) # pw_services w in
            if 0 < po_generation o' \<and> \<not> fst (next_fault (drop 2 (pw_faults w)))
            then filter (\<lambda>s. s \<noteq> prod_service_profile (po_generation o')) all else all)
       \<and> prod_service_profile (po_generation o' + 1) \<in> set (pw_services w')
   | (Inl (Child_Silent e), w') \<Rightarrow> wait_for_registry (po_isotope o') polls = e \<and> e \<noteq> Served \<and> pw_released w'
       \<and> pw_services w' = prod_service_profile (po_generation o' + 1) # pw_services w
   | (Inl e, w') \<Rightarrow> w' = w\<lparr>pw_faults := pw_faults w'\<rparr>"
  by (rule rotation_outcome)

lemma rotate_keeps_idle:
  assumes "released_is_idle w"
  shows "released_is_idle (snd (rotate_prod o' polls w))"
proof -
  have k: "released_is_idle (v\<lparr>pw_faults := fs\<rparr>) = released_is_idle v"
    "released_is_idle (v\<lparr>pw_services := ss\<rparr>) = released_is_idle v" for v fs ss
    by (simp_all add: released_is_idle_def idle_def)
  have r: "released_is_idle (release v)" if "released_is_idle v" for v
    using idle_release [OF that] by (simp add: released_is_idle_def)
  show ?thesis
    using assms
    by (auto simp: rotate_prod_def Let_def attempt_eq k split: wait_end.splits intro!: r)
qed

lemma signal_loop_idle: "released_is_idle w \<Longrightarrow> released_is_idle (snd (signal_loop o' sigs w))"
proof (induction sigs arbitrary: w)
  case Nil
  then show ?case using idle_release by (simp add: released_is_idle_def)
next
  case (Cons x sigs)
  show ?case
  proof (cases x)
    case Interrupt
    then show ?thesis using Cons.prems idle_release by (simp add: released_is_idle_def)
  next
    case (Hup polls)
    have "released_is_idle (snd (rotate_prod o' polls w))" using Cons.prems by (rule rotate_keeps_idle)
    then show ?thesis using Hup Cons.IH by (auto split: prod.splits sum.splits)
  qed
qed

lemma rotate_services:
  "set (pw_services (snd (rotate_prod o' polls w))) \<subseteq> insert (prod_service_profile (po_generation o' + 1)) (set (pw_services w))"
proof -
  have "pw_services (release v) = pw_services v" for v by (simp add: release_def)
  then show ?thesis by (auto simp: rotate_prod_def Let_def attempt_eq split: wait_end.splits)
qed

lemma signal_loop_services:
  "set (pw_services (snd (signal_loop o' sigs w))) \<subseteq> insert (prod_service_profile (po_generation o' + 1)) (set (pw_services w))"
proof (induction sigs arbitrary: w)
  case Nil
  then show ?case by (auto simp: release_def)
next
  case (Cons x sigs)
  show ?case
  proof (cases x)
    case Interrupt
    then show ?thesis by (auto simp: release_def)
  next
    case (Hup polls)
    obtain r w1 where r: "rotate_prod o' polls w = (r, w1)" by fastforce
    then show ?thesis
      using Hup Cons.IH [of w1] rotate_services [of o' polls w] by (cases r) auto
  qed
qed

lemma run_cluster_ends:
  assumes "\<not> pw_released w"
  shows "idle (snd (run_cluster p polls sigs w))
    \<and> set (pw_services (snd (run_cluster p polls sigs w)))
        \<subseteq> insert (prod_service_profile (po_generation (pl_options p) + 1)) (set (pw_services w))"
proof -
  let ?S = "insert (prod_service_profile (po_generation (pl_options p) + 1)) (set (pw_services w))"
  let ?P = "\<lambda>v. \<not> pw_released v \<and> set (pw_services v) \<subseteq> set (pw_services w)"
  let ?Q = "\<lambda>v. released_is_idle v \<and> set (pw_services v) \<subseteq> ?S"
  have PQ: "?P v \<Longrightarrow> ?Q v" for v by (auto simp: released_is_idle_def)
  have last: "?P v \<Longrightarrow> ?Q (snd (if po_rotate (pl_options p) then rotate_prod (pl_options p) polls v
      else signal_loop (pl_options p) sigs v))" for v
    using rotate_services [of "pl_options p" polls v] signal_loop_services [of "pl_options p" sigs v]
      rotate_keeps_idle signal_loop_idle PQ by auto
  define run where "run = next_do (start_all (map pn_name (pl_nodes p)) w) (\<lambda>_ w1.
            next_do (attempt_all (node_steps Not_Ready (pl_nodes p)) w1) (\<lambda>_ w2.
            next_do (start_all (map (\<lambda>n. ''adhd-'' @ pn_name n) (pl_nodes p)) w2) (\<lambda>_ w3.
            next_do (attempt_all (node_steps (\<lambda>n. Not_Ready (''adhd-'' @ n)) (pl_nodes p)) w3) (\<lambda>_ w4.
              if po_rotate (pl_options p) then rotate_prod (pl_options p) polls w4
              else signal_loop (pl_options p) sigs w4))))"
  have "?Q (snd run)"
    unfolding run_def
    apply (rule next_do_lead [where P = ?P])
      apply (simp add: assms)
     apply (rule PQ, assumption)
    apply (rule next_do_lead [where P = ?P], simp, rule PQ, assumption)
    apply (rule next_do_lead [where P = ?P], simp, rule PQ, assumption)
    apply (rule next_do_lead [where P = ?P], simp, rule PQ, assumption)
    apply (rule last, assumption)
    done
  moreover have "snd (run_cluster p polls sigs w) = release (snd run)"
    unfolding run_cluster_def Let_def run_def split_def by simp
  ultimately show ?thesis
    using idle_release [of "snd run"] by (auto simp: release_def)
qed

lemma normalized_generation: "normalized o0 = Inr o1 \<Longrightarrow> po_generation o1 = po_generation o0"
  by (auto simp: normalized_def Let_def and_then_Inr split: if_splits sum.splits)

lemma plan_generation:
  assumes "build_prod_plan o0 host = Inr p"
  shows "po_generation (pl_options p) = po_generation o0"
proof -
  obtain o1 where "normalized o0 = Inr o1" using assms by (auto simp: build_prod_plan_def and_then_Inr)
  then show ?thesis
    using assms normalized_generation
    by (cases "registry_host (po_registry_bind o1) host") (auto simp: build_prod_plan_def Let_def)
qed

lemma idle_attempts [simp]: "idle (snd (attempt e w)) = idle w" "idle (snd (attempt_all es w)) = idle w"
  by (simp_all add: idle_def)

text \<open>Nothing runs, and the services are among \<open>S\<close>.\<close>

definition quiet :: "string set \<Rightarrow> prod_world \<Rightarrow> bool" where
  "quiet S w \<longleftrightarrow> idle w \<and> set (pw_services w) \<subseteq> S"

lemma quiet_attempts [simp]: "quiet S (snd (attempt e w)) = quiet S w" "quiet S (snd (attempt_all es w)) = quiet S w"
  by (simp_all add: quiet_def)

lemma quiet_more: "quiet S w \<Longrightarrow> quiet (insert x S) w"
  by (auto simp: quiet_def)

lemma open_registry_ends:
  assumes "quiet S w"
  shows "quiet (insert (prod_service_profile (po_generation (pl_options p) + 1)) S)
    (snd (open_registry host p polls sigs w))"
proof (cases "resolve_registry_listener host (po_registry_bind (pl_options p))")
  case (Inr l)
  show ?thesis
    unfolding open_registry_def Inr sum.case
  proof (rule next_do_lead [where P = "quiet S"])
    fix a v
    assume v: "quiet S v"
    let ?q = "if rl_lan l then next_fault (pw_faults v) else (False, pw_faults v)"
    let ?v = "v\<lparr>pw_registry := True, pw_mdns := rl_lan l \<and> \<not> fst ?q, pw_released := False, pw_faults := snd ?q\<rparr>"
    have "idle (snd (run_cluster p polls sigs ?v)) \<and> set (pw_services (snd (run_cluster p polls sigs ?v)))
        \<subseteq> insert (prod_service_profile (po_generation (pl_options p) + 1)) (set (pw_services ?v))"
      by (rule run_cluster_ends) simp
    then show "quiet (insert (prod_service_profile (po_generation (pl_options p) + 1)) S)
        (snd (let q = ?q in run_cluster p polls sigs (v\<lparr>pw_registry := True, pw_mdns := rl_lan l \<and> \<not> fst q,
          pw_released := False, pw_faults := snd q\<rparr>)))"
      using v by (auto simp: quiet_def Let_def)
  qed (use assms quiet_more in auto)
qed (use assms in \<open>auto simp: open_registry_def quiet_more\<close>)

lemma run_plan_ends:
  fixes load :: "string \<Rightarrow> string \<Rightarrow> (trust_err, 'c cluster_trust) res"
  assumes "quiet S w"
  shows "quiet (insert (prod_service_profile (po_generation o1 + 1)) S) (snd (run_plan load host polls sigs o1 w))"
proof (cases "build_prod_plan o1 host :: (prod_err, 'c prod_plan) res")
  case p: (Inr p)
  show ?thesis
  proof (cases "load (po_isotope (pl_options p)) (po_trust (pl_options p))")
    case (Inr t)
    have g: "po_generation (pl_options (attest_plan t p)) = po_generation o1"
      using plan_generation [OF p] by (simp add: attest_plan_def)
    show ?thesis
      unfolding run_plan_def p Inr sum.case g [symmetric]
      by (rule next_do_lead [where P = "quiet S"]) (use assms quiet_more open_registry_ends in auto)
  qed (use assms p in \<open>simp add: run_plan_def quiet_more\<close>)
qed (use assms in \<open>simp add: run_plan_def quiet_more\<close>)


definition empty_world :: prod_world where
  "empty_world = \<lparr>pw_procs = [], pw_registry = False, pw_mdns = False, pw_released = False,
     pw_services = [], pw_faults = [False, False, True]\<rparr>"


text \<open>
  A rotation whose child does not answer in time has already let everything go: the loop goes on
  over a cluster that no longer runs, and a second attempt installs the same generation again.
\<close>

lemma failed_rotation_leaves_nothing:
  assumes "rotate_prod o' polls w = (Inl (Child_Silent e), w')" "released_is_idle w"
  shows "idle w'"
proof -
  have "released_is_idle w'" using rotate_keeps_idle [OF assms(2), of o' polls] assms(1) by simp
  moreover have "pw_released w'" using rotation_outcome [where o' = o' and polls = polls and w = w] assms(1) by simp
  ultimately show ?thesis by (simp add: released_is_idle_def)
qed

end
