(* ===== verification/DemoState.thy ===== *)
theory DemoState
  imports Registry GoFlags
begin

text \<open>
  The state of a demo cluster (\<open>internal/demo/state.go\<close>) and the flags it is started with
  (\<open>newDemoFlagSet\<close> in \<open>cmd/lezz/main.go\<close>): the state directory, the port ledger, the pins, the
  record of the running cluster, the detached start and the stop. Reads of a file that is missing,
  unreadable or does not decode are all \<open>None\<close>, as the code treats them.
\<close>

section \<open>Data\<close>

record demo_options =
  op_alarm_a :: int
  op_alarm_b :: int
  op_adhd :: int
  op_adhd_bind :: string
  op_registry_bind :: string
  op_state_dir :: string

record ports =
  pt_alarm_a :: int
  pt_alarm_b :: int
  pt_adhd :: int
  pt_saved_at :: time

definition no_ports :: ports where
  "no_ports = \<lparr>pt_alarm_a = 0, pt_alarm_b = 0, pt_adhd = 0, pt_saved_at = 0\<rparr>"

record demo_state =
  ds_pid :: int
  ds_started_at :: time
  ds_cluster :: cluster_info
  ds_ports :: ports
  ds_discovery :: string
  ds_stable_config :: string
  ds_log_dir :: string
  ds_state_dir :: string

text \<open>The two files of a state directory, with a script for the writes.\<close>

record demo_dir =
  dd_ports :: "ports option"
  dd_state :: "demo_state option"
  dd_faults :: "bool list"

section \<open>The directory\<close>

datatype dir_err = No_Home | No_Working_Dir string | Not_Created string

definition resolve_state_dir ::
    "(string \<Rightarrow> string) \<Rightarrow> string option \<Rightarrow> string option \<Rightarrow> (string \<Rightarrow> bool) \<Rightarrow> string \<Rightarrow> (dir_err, string) res" where
  "resolve_state_dir getenv home cwd mkdir flag =
     (let d = (if flag = [] then getenv ''LEZZ_DEMO_STATE_DIR'' else flag) in
      and_then
        (if d = [] then (case home of None \<Rightarrow> Inl No_Home | Some h \<Rightarrow> Inr (join_path [h, ''.lezz''])) else Inr d)
        (\<lambda>d. case abs_path cwd d of
               None \<Rightarrow> Inl (No_Working_Dir d)
             | Some a \<Rightarrow> if mkdir a then Inr a else Inl (Not_Created a)))"

definition state_path :: "string \<Rightarrow> string" where
  "state_path d = join_path [d, ''demo-state.json'']"

definition ports_path :: "string \<Rightarrow> string" where
  "ports_path d = join_path [d, ''demo-ports.json'']"

definition log_path :: "(string \<Rightarrow> bool) \<Rightarrow> string \<Rightarrow> (dir_err, string) res" where
  "log_path mkdir d =
     (let l = join_path [d, ''logs''] in
      if mkdir l then Inr (join_path [l, ''demo.log'']) else Inl (Not_Created l))"

section \<open>Ports\<close>

definition load_ports :: "demo_dir \<Rightarrow> ports" where
  "load_ports d = (case dd_ports d of None \<Rightarrow> no_ports | Some p \<Rightarrow> p)"

definition save_ports :: "ports \<Rightarrow> demo_dir \<Rightarrow> bool \<times> demo_dir" where
  "save_ports p d =
     (let (bad, fs) = next_fault (dd_faults d) in
      if bad then (False, d\<lparr>dd_faults := fs\<rparr>) else (True, d\<lparr>dd_faults := fs, dd_ports := Some p\<rparr>))"

datatype pin_err =
    Bad_Adhd_Bind string
  | Already_Pinned string int string
  | In_Use string int
  | Pinned_Elsewhere string int
  | No_Free_Port
  | Not_Distinct string

definition validate_adhd_bind :: "string \<Rightarrow> (pin_err, unit) res" where
  "validate_adhd_bind b = (if b = [] \<or> parse_ip b \<noteq> None then Inr () else Inl (Bad_Adhd_Bind b))"

text \<open>\<open>free\<close> says which ports can be bound.\<close>

fun check_pins :: "(int \<Rightarrow> bool) \<Rightarrow> (int \<times> string) list \<Rightarrow> (string \<times> int) list \<Rightarrow> (pin_err, unit) res" where
  "check_pins free seen [] = Inr ()"
| "check_pins free seen ((label, p) # ps) =
     (if p \<le> 0 then check_pins free seen ps
      else
        (case map_of seen p of
           Some other \<Rightarrow> Inl (Already_Pinned label p other)
         | None \<Rightarrow>
             if \<not> free p then Inl (In_Use label p)
             else check_pins free ((p, label) # seen) ps))"

definition pins_of :: "demo_options \<Rightarrow> (string \<times> int) list" where
  "pins_of o' = [(''alarm-a'', op_alarm_a o'), (''alarm-b'', op_alarm_b o'), (''adhd'', op_adhd o')]"

definition validate_pins :: "(int \<Rightarrow> bool) \<Rightarrow> demo_options \<Rightarrow> (pin_err, unit) res" where
  "validate_pins free o' =
     and_then (validate_adhd_bind (op_adhd_bind o')) (\<lambda>_. check_pins free [] (pins_of o'))"

text \<open>
  One port. \<open>fresh\<close> are the ports the kernel hands out, \<open>None\<close> a failing allocation; at most
  twenty are tried.
\<close>

fun allocate :: "nat \<Rightarrow> string \<Rightarrow> int list \<Rightarrow> int option list \<Rightarrow> (pin_err, int) res \<times> int option list" where
  "allocate 0 label used fresh = (Inl (Not_Distinct label), fresh)"
| "allocate (Suc n) label used [] = (Inl No_Free_Port, [])"
| "allocate (Suc n) label used (None # fresh) = (Inl No_Free_Port, fresh)"
| "allocate (Suc n) label used (Some p # fresh) =
     (if p \<in> set used then allocate n label used fresh else (Inr p, fresh))"

definition take_port ::
    "(int \<Rightarrow> bool) \<Rightarrow> string \<Rightarrow> int \<Rightarrow> int \<Rightarrow> int list \<Rightarrow> int option list \<Rightarrow> (pin_err, int) res \<times> int option list" where
  "take_port free label pinned prev used fresh =
     (if pinned > 0 then
        (if pinned \<in> set used then Inl (Pinned_Elsewhere label pinned)
         else if \<not> free pinned then Inl (In_Use label pinned)
         else Inr pinned, fresh)
      else if prev > 0 \<and> prev \<notin> set used \<and> free prev then (Inr prev, fresh)
      else allocate 20 label used fresh)"

definition resolve_ports ::
    "(int \<Rightarrow> bool) \<Rightarrow> int option list \<Rightarrow> time \<Rightarrow> demo_options \<Rightarrow> ports \<Rightarrow> (pin_err, ports) res" where
  "resolve_ports free fresh now o' prev =
     (case take_port free ''alarm-a'' (op_alarm_a o') (pt_alarm_a prev) [] fresh of
        (Inl e, _) \<Rightarrow> Inl e
      | (Inr a, fresh1) \<Rightarrow>
          (case take_port free ''alarm-b'' (op_alarm_b o') (pt_alarm_b prev) [a] fresh1 of
             (Inl e, _) \<Rightarrow> Inl e
           | (Inr b, fresh2) \<Rightarrow>
               (case take_port free ''adhd'' (op_adhd o') (pt_adhd prev) [a, b] fresh2 of
                  (Inl e, _) \<Rightarrow> Inl e
                | (Inr c, _) \<Rightarrow> Inr \<lparr>pt_alarm_a = a, pt_alarm_b = b, pt_adhd = c, pt_saved_at = now\<rparr>)))"

section \<open>The record of the running cluster\<close>

definition write_state :: "demo_state \<Rightarrow> demo_dir \<Rightarrow> bool \<times> demo_dir" where
  "write_state s d =
     (let (bad, fs) = next_fault (dd_faults d) in
      if bad then (False, d\<lparr>dd_faults := fs\<rparr>) else (True, d\<lparr>dd_faults := fs, dd_state := Some s\<rparr>))"

definition read_state :: "demo_dir \<Rightarrow> demo_state option" where
  "read_state d =
     (case dd_state d of None \<Rightarrow> None | Some s \<Rightarrow> if ds_pid s \<le> 0 then None else Some s)"

definition remove_state :: "int \<Rightarrow> demo_dir \<Rightarrow> demo_dir" where
  "remove_state pid d =
     (case read_state d of
        None \<Rightarrow> d
      | Some s \<Rightarrow> if ds_pid s \<noteq> pid then d else d\<lparr>dd_state := None\<rparr>)"

definition running_state :: "(int \<Rightarrow> bool) \<Rightarrow> demo_dir \<Rightarrow> demo_state option \<times> demo_dir" where
  "running_state alive d =
     (case read_state d of
        None \<Rightarrow> (None, d)
      | Some s \<Rightarrow> if \<not> alive (ds_pid s) then (None, remove_state (ds_pid s) d) else (Some s, d))"

section \<open>Start and stop\<close>

definition start_args :: "string \<Rightarrow> demo_options \<Rightarrow> string list" where
  "start_args dir o' =
     [''demo'', ''--state-dir='' @ dir]
     @ (if op_alarm_a o' > 0 then [''--alarm-a-port='' @ dec_int (op_alarm_a o')] else [])
     @ (if op_alarm_b o' > 0 then [''--alarm-b-port='' @ dec_int (op_alarm_b o')] else [])
     @ (if op_adhd o' > 0 then [''--adhd-port='' @ dec_int (op_adhd o')] else [])
     @ (if op_adhd_bind o' \<noteq> [] then [''--adhd-bind='' @ op_adhd_bind o'] else [])
     @ (if op_registry_bind o' \<noteq> [] then [''--registry-bind='' @ op_registry_bind o'] else [])"

definition no_options :: demo_options where
  "no_options = \<lparr>op_alarm_a = 0, op_alarm_b = 0, op_adhd = 0, op_adhd_bind = [], op_registry_bind = [], op_state_dir = []\<rparr>"

definition demo_flag_kinds :: "string \<Rightarrow> flag_kind option" where
  "demo_flag_kinds n =
     (if n \<in> {''alarm-a-port'', ''alarm-b-port'', ''adhd-port'', ''adhd-bind'', ''registry-bind'', ''state-dir''}
      then Some Valued else None)"

definition demo_flag_set :: "string \<Rightarrow> string \<Rightarrow> demo_options \<Rightarrow> demo_options option" where
  "demo_flag_set n v o' =
     (if n = ''alarm-a-port'' then map_option (\<lambda>i. o'\<lparr>op_alarm_a := i\<rparr>) (parse_int v)
      else if n = ''alarm-b-port'' then map_option (\<lambda>i. o'\<lparr>op_alarm_b := i\<rparr>) (parse_int v)
      else if n = ''adhd-port'' then map_option (\<lambda>i. o'\<lparr>op_adhd := i\<rparr>) (parse_int v)
      else if n = ''adhd-bind'' then Some (o'\<lparr>op_adhd_bind := v\<rparr>)
      else if n = ''registry-bind'' then Some (o'\<lparr>op_registry_bind := v\<rparr>)
      else if n = ''state-dir'' then Some (o'\<lparr>op_state_dir := v\<rparr>)
      else None)"

definition parse_demo_flags :: "string list \<Rightarrow> (flag_err, demo_options \<times> string list) res" where
  "parse_demo_flags = parse_flags demo_flag_kinds demo_flag_set no_options"

text \<open>
  A round of the wait for the child: whether it exited, the record read then, whether the deadline
  has passed and whether the context is done. No more rounds is a context that is cancelled.
\<close>

datatype start_err =
    Bad_Dir dir_err
  | Already_Running int
  | Bad_Pins pin_err
  | Bad_Registry_Bind string
  | No_Executable
  | Log_Not_Opened string
  | Not_Spawned
  | Exited
  | Start_Timeout
  | Start_Cancelled

fun await_child :: "int \<Rightarrow> (bool \<times> demo_state option \<times> bool \<times> bool) list \<Rightarrow> (start_err, demo_state) res" where
  "await_child pid [] = Inl Start_Cancelled"
| "await_child pid ((exited, rec, late, cancelled) # rs) =
     (if exited then Inl Exited
      else
        (case rec of
           Some s \<Rightarrow>
             if ds_pid s = pid then Inr s
             else if late then Inl Start_Timeout else if cancelled then Inl Start_Cancelled else await_child pid rs
         | None \<Rightarrow>
             if late then Inl Start_Timeout else if cancelled then Inl Start_Cancelled else await_child pid rs))"

text \<open>\<open>exe\<close> is the path of the binary, \<open>opened\<close> says which logs can be opened, \<open>spawn\<close> starts the
  binary with its arguments and gives the process id.\<close>

definition start_detached ::
    "(dir_err, string) res \<Rightarrow> (string \<Rightarrow> bool) \<Rightarrow> (int \<Rightarrow> bool) \<Rightarrow> (int \<Rightarrow> bool) \<Rightarrow> string option \<Rightarrow> (string \<Rightarrow> bool)
     \<Rightarrow> (string list \<Rightarrow> int option) \<Rightarrow> (bool \<times> demo_state option \<times> bool \<times> bool) list \<Rightarrow> demo_options \<Rightarrow> demo_dir
     \<Rightarrow> (start_err, demo_state) res \<times> demo_dir" where
  "start_detached dir_res mkdir alive free exe opened spawn rounds o' d =
     (case dir_res of
        Inl e \<Rightarrow> (Inl (Bad_Dir e), d)
      | Inr dir \<Rightarrow>
          (let (r, d1) = running_state alive d in
           case r of
             Some s \<Rightarrow> (Inl (Already_Running (ds_pid s)), d1)
           | None \<Rightarrow>
               (case validate_pins free o' of
                  Inl e \<Rightarrow> (Inl (Bad_Pins e), d1)
                | Inr _ \<Rightarrow>
                    (case registry_host (op_registry_bind o') [] of
                       Inl b \<Rightarrow> (Inl (Bad_Registry_Bind b), d1)
                     | Inr _ \<Rightarrow>
                         if exe = None then (Inl No_Executable, d1)
                         else
                           (case log_path mkdir dir of
                              Inl e \<Rightarrow> (Inl (Bad_Dir e), d1)
                            | Inr log \<Rightarrow>
                                if \<not> opened log then (Inl (Log_Not_Opened log), d1)
                                else
                                  (case spawn (start_args dir o') of
                                     None \<Rightarrow> (Inl Not_Spawned, d1)
                                   | Some pid \<Rightarrow> (await_child pid rounds, d1)))))))"

datatype stop_err = Not_A_Demo int | No_Process int | Not_Signalled int | Did_Not_Exit int

datatype signalled = Sent | Process_Done | Signal_Failed

text \<open>\<open>gone\<close> are the looks at the process until the deadline.\<close>

definition stop_demo ::
    "(int \<Rightarrow> bool) \<Rightarrow> (int \<Rightarrow> bool) \<Rightarrow> (int \<Rightarrow> bool) \<Rightarrow> signalled \<Rightarrow> bool list \<Rightarrow> demo_dir \<Rightarrow> (stop_err, unit) res \<times> demo_dir" where
  "stop_demo alive is_demo found sig gone d =
     (let (r, d1) = running_state alive d in
      case r of
        None \<Rightarrow> (Inr (), d1)
      | Some s \<Rightarrow>
          if \<not> is_demo (ds_pid s) then (Inl (Not_A_Demo (ds_pid s)), d1)
          else if \<not> found (ds_pid s) then (Inl (No_Process (ds_pid s)), d1)
          else if sig = Signal_Failed then (Inl (Not_Signalled (ds_pid s)), d1)
          else if True \<in> set gone then (Inr (), remove_state (ds_pid s) d1)
          else (Inl (Did_Not_Exit (ds_pid s)), d1))"

section \<open>Ports: properties\<close>

lemma allocate_Inr: "fst (allocate n label used fresh) = Inr p \<Longrightarrow> p \<notin> set used \<and> Some p \<in> set fresh"
  by (induction n label used fresh rule: allocate.induct) (auto split: if_splits)

lemma allocate_rest: "set (snd (allocate n label used fresh)) \<subseteq> set fresh"
  by (induction n label used fresh rule: allocate.induct) auto

lemma take_port_rest: "set (snd (take_port free label pinned prev used fresh)) \<subseteq> set fresh"
  using allocate_rest by (simp add: take_port_def)

text \<open>What a port that was taken is.\<close>

definition taken_as :: "(int \<Rightarrow> bool) \<Rightarrow> int \<Rightarrow> int \<Rightarrow> int option list \<Rightarrow> int \<Rightarrow> bool" where
  "taken_as free pinned prev fresh p \<longleftrightarrow>
     (if pinned > 0 then p = pinned \<and> free p else p = prev \<and> 0 < p \<and> free p \<or> Some p \<in> set fresh)"

lemma take_port_Inr:
  "take_port free label pinned prev used fresh = (Inr p, rest) \<Longrightarrow> p \<notin> set used \<and> taken_as free pinned prev fresh p"
  using allocate_Inr [of 20 label used fresh p]
  by (auto simp: take_port_def taken_as_def split: if_splits)

lemma taken_as_more: "taken_as free pinned prev fresh p \<Longrightarrow> set fresh \<subseteq> set all \<Longrightarrow> taken_as free pinned prev all p"
  by (auto simp: taken_as_def split: if_splits)

text \<open>
  The three listeners get three different ports. A pinned port is used or the run fails; an
  unpinned one is the port of the last run when it is free, or one the kernel handed out. A run
  with no pins over the free ports of the last run keeps all three, so saved endpoints survive a
  restart.
\<close>

theorem ports_resolved:
  "(resolve_ports free fresh now o' prev = Inr p \<longrightarrow>
      distinct [pt_alarm_a p, pt_alarm_b p, pt_adhd p]
      \<and> taken_as free (op_alarm_a o') (pt_alarm_a prev) fresh (pt_alarm_a p)
      \<and> taken_as free (op_alarm_b o') (pt_alarm_b prev) fresh (pt_alarm_b p)
      \<and> taken_as free (op_adhd o') (pt_adhd prev) fresh (pt_adhd p))
    \<and> (op_alarm_a o' \<le> 0 \<and> op_alarm_b o' \<le> 0 \<and> op_adhd o' \<le> 0
        \<and> (let used = [pt_alarm_a prev, pt_alarm_b prev, pt_adhd prev] in
             distinct used \<and> (\<forall>q \<in> set used. 0 < q \<and> free q))
       \<longrightarrow> resolve_ports free fresh now o' prev = Inr (prev\<lparr>pt_saved_at := now\<rparr>))"
proof (intro conjI impI)
  assume r: "resolve_ports free fresh now o' prev = Inr p"
  obtain a f1 where a: "take_port free ''alarm-a'' (op_alarm_a o') (pt_alarm_a prev) [] fresh = (Inr a, f1)"
    using r by (auto simp: resolve_ports_def split: prod.splits sum.splits)
  obtain b f2 where b: "take_port free ''alarm-b'' (op_alarm_b o') (pt_alarm_b prev) [a] f1 = (Inr b, f2)"
    using r a by (auto simp: resolve_ports_def split: prod.splits sum.splits)
  obtain c f3 where c: "take_port free ''adhd'' (op_adhd o') (pt_adhd prev) [a, b] f2 = (Inr c, f3)"
    using r a b by (auto simp: resolve_ports_def split: prod.splits sum.splits)
  have p: "pt_alarm_a p = a" "pt_alarm_b p = b" "pt_adhd p = c"
    using r a b c by (auto simp: resolve_ports_def)
  have f: "set f1 \<subseteq> set fresh" "set f2 \<subseteq> set fresh"
    using take_port_rest [of free "''alarm-a''" "op_alarm_a o'" "pt_alarm_a prev" "[]" fresh]
      take_port_rest [of free "''alarm-b''" "op_alarm_b o'" "pt_alarm_b prev" "[a]" f1] a b by auto
  show "distinct [pt_alarm_a p, pt_alarm_b p, pt_adhd p]"
    using take_port_Inr [OF b] take_port_Inr [OF c] p by auto
  show "taken_as free (op_alarm_a o') (pt_alarm_a prev) fresh (pt_alarm_a p)"
    using take_port_Inr [OF a] p by simp
  show "taken_as free (op_alarm_b o') (pt_alarm_b prev) fresh (pt_alarm_b p)"
    using taken_as_more [OF conjunct2 [OF take_port_Inr [OF b]] f(1)] p by simp
  show "taken_as free (op_adhd o') (pt_adhd prev) fresh (pt_adhd p)"
    using taken_as_more [OF conjunct2 [OF take_port_Inr [OF c]] f(2)] p by simp
next
  assume "op_alarm_a o' \<le> 0 \<and> op_alarm_b o' \<le> 0 \<and> op_adhd o' \<le> 0
        \<and> (let used = [pt_alarm_a prev, pt_alarm_b prev, pt_adhd prev] in
             distinct used \<and> (\<forall>q \<in> set used. 0 < q \<and> free q))"
  then show "resolve_ports free fresh now o' prev = Inr (prev\<lparr>pt_saved_at := now\<rparr>)"
    by (simp add: resolve_ports_def take_port_def Let_def)
qed

definition last_ports :: ports where
  "last_ports = \<lparr>pt_alarm_a = 7001, pt_alarm_b = 7002, pt_adhd = 7003, pt_saved_at = 0\<rparr>"

theorem ports_resolved_witness:
  "resolve_ports (\<lambda>_. True) [] 5 no_options last_ports = Inr (last_ports\<lparr>pt_saved_at := 5\<rparr>)"
  by (rule ports_resolved [THEN conjunct2, THEN mp]) (simp add: no_options_def last_ports_def)

text \<open>
  Pins are checked against each other, but an earlier unpinned listener may take the pinned port:
  with alarm-b pinned to the port alarm-a had in the last run the pins are valid and the run fails.
\<close>

lemma reuse_takes_a_pin:
  "let o' = no_options\<lparr>op_alarm_b := 7001\<rparr> in
   validate_pins (\<lambda>_. True) o' = Inr ()
   \<and> resolve_ports (\<lambda>_. True) [] 5 o' last_ports = Inl (Pinned_Elsewhere ''alarm-b'' 7001)"
  by (simp add: validate_pins_def validate_adhd_bind_def pins_of_def no_options_def last_ports_def
      resolve_ports_def take_port_def)

section \<open>The record: properties\<close>

datatype state_event = Publish demo_state | Finish int | Look "int \<Rightarrow> bool"

definition apply_event :: "state_event \<Rightarrow> demo_dir \<Rightarrow> demo_dir" where
  "apply_event x d =
     (case x of
        Publish s \<Rightarrow> snd (write_state s d)
      | Finish pid \<Rightarrow> remove_state pid d
      | Look alive \<Rightarrow> snd (running_state alive d))"

definition disturbs :: "int \<Rightarrow> state_event \<Rightarrow> bool" where
  "disturbs pid x \<longleftrightarrow> (case x of Publish _ \<Rightarrow> True | Finish q \<Rightarrow> q = pid | Look alive \<Rightarrow> \<not> alive pid)"

lemma read_remove: "read_state d = Some s \<Longrightarrow> ds_pid s \<noteq> pid \<Longrightarrow> remove_state pid d = d"
  by (simp add: remove_state_def)

text \<open>
  The record of a running cluster stays until that cluster finishes: after it was published, no
  other cluster's shutdown and no look at the directory takes it away, as long as its process is
  alive when it is looked at.
\<close>

theorem record_survives_others:
  assumes "write_state s d = (True, d')" "0 < ds_pid s" "\<not> (\<exists>x \<in> set xs. disturbs (ds_pid s) x)"
  shows "read_state (fold apply_event xs d') = Some s
    \<and> running_state (\<lambda>_. True) (fold apply_event xs d') = (Some s, fold apply_event xs d')"
proof -
  have "read_state d' = Some s"
    using assms(1,2) by (auto simp: write_state_def read_state_def Let_def split: prod.splits if_splits)
  moreover have "read_state v = Some s \<Longrightarrow> \<not> disturbs (ds_pid s) x \<Longrightarrow> read_state (apply_event x v) = Some s" for v x
    using read_remove [of v s]
    by (cases x) (auto simp: apply_event_def disturbs_def running_state_def)
  ultimately have "read_state (fold apply_event xs d') = Some s"
    using assms(3) by (induction xs arbitrary: d') auto
  then show ?thesis by (simp add: running_state_def)
qed

definition no_cluster :: cluster_info where
  "no_cluster = named_cluster []"

definition sample_state :: demo_state where
  "sample_state = \<lparr>ds_pid = 42, ds_started_at = 0, ds_cluster = no_cluster, ds_ports = no_ports,
     ds_discovery = [], ds_stable_config = [], ds_log_dir = [], ds_state_dir = []\<rparr>"

definition empty_demo_dir :: demo_dir where
  "empty_demo_dir = \<lparr>dd_ports = None, dd_state = None, dd_faults = []\<rparr>"

theorem record_survives_others_witness:
  "read_state (remove_state 41 (empty_demo_dir\<lparr>dd_state := Some sample_state\<rparr>)) = Some sample_state"
proof -
  have w: "write_state sample_state empty_demo_dir = (True, empty_demo_dir\<lparr>dd_state := Some sample_state\<rparr>)"
    by (simp add: write_state_def empty_demo_dir_def)
  have "0 < ds_pid sample_state" "\<not> (\<exists>x \<in> set [Finish 41]. disturbs (ds_pid sample_state) x)"
    by (simp_all add: sample_state_def disturbs_def)
  from record_survives_others [OF w this] show ?thesis by (simp add: apply_event_def)
qed

section \<open>The detached child: properties\<close>

text \<open>
  The detached child is started with what its parent was asked for: its argument list parses,
  with nothing left over, to the same binds and pins and to the directory the parent resolved.
\<close>

theorem child_gets_options:
  assumes "\<forall>i \<in> {op_alarm_a o', op_alarm_b o', op_adhd o'}. 0 \<le> i \<and> i < 2 ^ 63"
  shows "parse_demo_flags (tl (start_args dir o')) = Inr (o'\<lparr>op_state_dir := dir\<rparr>, [])"
proof -
  have i: "parse_int (dec_int (op_alarm_a o')) = Some (op_alarm_a o')"
    "parse_int (dec_int (op_alarm_b o')) = Some (op_alarm_b o')"
    "parse_int (dec_int (op_adhd o')) = Some (op_adhd o')"
    using assms parse_int_dec_int by auto
  show ?thesis
    using assms
    by (simp add: parse_demo_flags_def start_args_def demo_flag_kinds_def demo_flag_set_def no_options_def i)
qed

theorem child_gets_options_witness:
  "parse_demo_flags (tl (start_args ''/tmp/a=b'' (no_options\<lparr>op_adhd := 7003, op_adhd_bind := ''127.0.0.1''\<rparr>)))
    = Inr (no_options\<lparr>op_adhd := 7003, op_adhd_bind := ''127.0.0.1'', op_state_dir := ''/tmp/a=b''\<rparr>, [])"
  using child_gets_options [of "no_options\<lparr>op_adhd := 7003, op_adhd_bind := ''127.0.0.1''\<rparr>" "''/tmp/a=b''"]
  by (simp add: no_options_def)

lemma await_child_Inr: "await_child pid rs = Inr s \<Longrightarrow> ds_pid s = pid"
  by (induction pid rs rule: await_child.induct) (auto split: if_splits option.splits)

end
