(* ===== verification/AtomicFile.thy ===== *)
theory AtomicFile
  imports GoBase
begin

text \<open>
  The way the program replaces a file: a temporary file in the same directory, written, closed and
  renamed over the target. Six functions do it, each with its own steps, modes and cleanup; here
  each is its list of system calls, run against a script of failures. The states a run passes
  through are kept, since a crash leaves the last one reached. The locale \<open>atomic_writer\<close> is
  what every one of them provides to the code that calls it.
\<close>

section \<open>Steps\<close>

datatype file_step =
    Make_Dir
  | Create_Temp
  | Chmod_Temp nat
  | Write_Temp
  | Sync_Temp
  | Close_Temp
  | Rename_Temp
  | Chmod_Target nat

text \<open>The target as content and mode; the temporary file has no whole content before its write.\<close>

record 'a place =
  at_target :: "('a \<times> nat) option"
  at_temp :: "('a option \<times> nat) option"

definition private_mode :: nat where "private_mode = 384"   \<comment> \<open>0600\<close>
definition public_mode :: nat where "public_mode = 420"   \<comment> \<open>0644\<close>

fun do_step :: "'a \<Rightarrow> file_step \<Rightarrow> 'a place \<Rightarrow> 'a place" where
  "do_step x Make_Dir p = p"
| "do_step x Create_Temp p = p\<lparr>at_temp := Some (None, private_mode)\<rparr>"
| "do_step x (Chmod_Temp m) p = p\<lparr>at_temp := map_option (\<lambda>(b, _). (b, m)) (at_temp p)\<rparr>"
| "do_step x Write_Temp p = p\<lparr>at_temp := map_option (\<lambda>(_, m). (Some x, m)) (at_temp p)\<rparr>"
| "do_step x Sync_Temp p = p"
| "do_step x Close_Temp p = p"
| "do_step x Rename_Temp p =
     (case at_temp p of
        Some (Some b, m) \<Rightarrow> p\<lparr>at_target := Some (b, m), at_temp := None\<rparr>
      | _ \<Rightarrow> p)"
| "do_step x (Chmod_Target m) p = p\<lparr>at_target := map_option (\<lambda>(b, _). (b, m)) (at_target p)\<rparr>"

text \<open>The outcome and the states after each call; \<open>cleans\<close> says on which failing call the temporary
  file is removed.\<close>

fun run_steps :: "(file_step \<Rightarrow> bool) \<Rightarrow> 'a \<Rightarrow> file_step list \<Rightarrow> bool list \<Rightarrow> 'a place \<Rightarrow> bool \<times> 'a place list" where
  "run_steps cleans x [] fs p = (True, [])"
| "run_steps cleans x (s # ss) fs p =
     (let (bad, fs') = next_fault fs in
      if bad then (False, [if cleans s then p\<lparr>at_temp := None\<rparr> else p])
      else
        (let p' = do_step x s p; (ok, tr) = run_steps cleans x ss fs' p' in (ok, p' # tr)))"

lemma run_Cons:
  "run_steps cleans x (s # ss) fs p =
     (if fst (next_fault fs) then (False, [if cleans s then p\<lparr>at_temp := None\<rparr> else p])
      else
        (fst (run_steps cleans x ss (snd (next_fault fs)) (do_step x s p)),
         do_step x s p # snd (run_steps cleans x ss (snd (next_fault fs)) (do_step x s p))))"
  by (simp add: Let_def split_beta)

declare run_steps.simps(2) [simp del] run_Cons [simp]

definition ends_in :: "'a place \<Rightarrow> 'a place list \<Rightarrow> 'a place" where
  "ends_in p tr = last (p # tr)"

lemma ends_in_simps [simp]: "ends_in p [] = p" "ends_in p (q # tr) = ends_in q tr"
  by (simp_all add: ends_in_def)

section \<open>The writers\<close>

definition seed_steps :: "file_step list" where
  "seed_steps = [Create_Temp, Write_Temp, Close_Temp, Chmod_Temp public_mode, Rename_Temp]"

definition queue_steps :: "bool \<Rightarrow> file_step list" where
  "queue_steps fsync = [Create_Temp, Write_Temp] @ (if fsync then [Sync_Temp] else []) @ [Close_Temp, Rename_Temp]"

definition routes_steps :: "file_step list" where
  "routes_steps = [Create_Temp, Write_Temp, Close_Temp, Rename_Temp]"

definition settings_steps :: "file_step list" where
  "settings_steps = [Make_Dir, Create_Temp, Write_Temp, Close_Temp, Chmod_Temp private_mode, Rename_Temp]"

definition secret_steps :: "file_step list" where
  "secret_steps = [Make_Dir, Create_Temp, Chmod_Temp private_mode, Write_Temp, Close_Temp, Rename_Temp,
     Chmod_Target private_mode]"

definition record_steps :: "file_step list" where
  "record_steps = [Make_Dir, Create_Temp, Chmod_Temp private_mode, Write_Temp, Close_Temp, Rename_Temp,
     Chmod_Target private_mode]"

datatype writer = Seed_File | Queue_Doc bool | Route_Ledger | Agent_Settings | Secret_File | Github_Record

definition writer_steps :: "writer \<Rightarrow> file_step list" where
  "writer_steps w =
     (case w of
        Seed_File \<Rightarrow> seed_steps | Queue_Doc b \<Rightarrow> queue_steps b | Route_Ledger \<Rightarrow> routes_steps
      | Agent_Settings \<Rightarrow> settings_steps | Secret_File \<Rightarrow> secret_steps | Github_Record \<Rightarrow> record_steps)"

text \<open>Every writer but the one of seeds removes its temporary file on every failure.\<close>

definition writer_cleans :: "writer \<Rightarrow> file_step \<Rightarrow> bool" where
  "writer_cleans w s \<longleftrightarrow> \<not> (w = Seed_File \<and> s = Rename_Temp)"

definition writer_mode :: "writer \<Rightarrow> nat" where
  "writer_mode w = (if w = Seed_File then public_mode else private_mode)"

definition write_file_atomic :: "writer \<Rightarrow> 'a \<Rightarrow> bool list \<Rightarrow> 'a place \<Rightarrow> bool \<times> 'a place list" where
  "write_file_atomic w x = run_steps (writer_cleans w) x (writer_steps w)"

section \<open>What a writer provides\<close>

definition before_rename :: "file_step \<Rightarrow> bool" where
  "before_rename s \<longleftrightarrow> (case s of Rename_Temp \<Rightarrow> False | Chmod_Target _ \<Rightarrow> False | _ \<Rightarrow> True)"

lemma before_rename_keeps: "before_rename s \<Longrightarrow> at_target (do_step x s p) = at_target p"
  by (cases s) (auto simp: before_rename_def)

locale atomic_writer =
  fixes cleans :: "file_step \<Rightarrow> bool" and pre post :: "file_step list" and mode :: nat
  assumes pre: "s \<in> set pre \<Longrightarrow> before_rename s"
    and prepared: "at_temp (fold (do_step x) pre p) = Some (Some (x :: 'a), mode)"
    and post: "s \<in> set post \<Longrightarrow> s = Chmod_Target mode"
begin

abbreviation steps :: "file_step list" where
  "steps \<equiv> pre @ Rename_Temp # post"

lemma pre_states:
  "\<forall>s \<in> set ss. before_rename s \<Longrightarrow> q \<in> set (snd (run_steps cleans x ss fs p)) \<Longrightarrow> at_target q = at_target p"
proof (induction ss arbitrary: fs p)
  case (Cons s ss)
  then show ?case
    using before_rename_keeps [of s x p] by (auto split: if_splits)
qed simp

lemma post_states:
  "\<forall>s \<in> set ss. s = Chmod_Target mode \<Longrightarrow> at_target p = Some (x, mode)
    \<Longrightarrow> q \<in> set (snd (run_steps cleans x ss fs p)) \<Longrightarrow> at_target q = Some (x, mode)"
proof (induction ss arbitrary: fs p)
  case (Cons s ss)
  have "at_target (do_step x s p) = Some (x, mode)" using Cons.prems by simp
  then show ?case
    using Cons.prems Cons.IH [of "do_step x s p" "snd (next_fault fs)"] by (cases "fst (next_fault fs)") auto
qed simp

lemma run_append:
  "run_steps cleans x (ss @ tt) fs p =
     (let (ok, tr) = run_steps cleans x ss fs p in
      if ok then
        (let (ok', tr') = run_steps cleans x tt (drop (length ss) fs) (fold (do_step x) ss p) in (ok', tr @ tr'))
      else (False, tr))"
proof (induction ss arbitrary: fs p)
  case (Cons s ss)
  have "snd (next_fault fs) = drop 1 fs" by (cases fs) (simp_all add: next_fault_def)
  then show ?case using Cons by (simp add: Let_def split_beta drop_Suc tl_drop)
qed simp

lemma renamed: "do_step (x :: 'a) Rename_Temp (fold (do_step x) pre p) =
    (fold (do_step x) pre p)\<lparr>at_target := Some (x, mode), at_temp := None\<rparr>"
  by (simp add: prepared)

lemma keeps_target: "at_target (fold (do_step x) pre p) = at_target p"
proof -
  have "\<forall>s \<in> set ss. before_rename s \<Longrightarrow> at_target (fold (do_step x) ss p) = at_target p" for ss
    by (induction ss arbitrary: p) (auto simp: before_rename_keeps)
  then show ?thesis using pre by blast
qed

text \<open>Whatever fails and whenever the machine stops, the target is the old file or the new one.\<close>

lemma old_or_new:
  fixes x :: 'a
  assumes "q \<in> set (snd (run_steps cleans x steps fs p))"
  shows "at_target q = at_target p \<or> at_target q = Some (x, mode)"
proof -
  let ?m = "fold (do_step x) pre p"
  let ?fs = "drop (length pre) fs"
  have "q \<in> set (snd (run_steps cleans x pre fs p)) \<or> q \<in> set (snd (run_steps cleans x (Rename_Temp # post) ?fs ?m))"
    using assms by (auto simp: run_append Let_def split: prod.splits if_splits)
  then show ?thesis
  proof
    assume "q \<in> set (snd (run_steps cleans x pre fs p))"
    then have "at_target q = at_target p" using pre by (intro pre_states) auto
    then show ?thesis ..
  next
    assume "q \<in> set (snd (run_steps cleans x (Rename_Temp # post) ?fs ?m))"
    then consider "at_target q = at_target ?m" | "q = do_step x Rename_Temp ?m"
      | "q \<in> set (snd (run_steps cleans x post (snd (next_fault ?fs)) (do_step x Rename_Temp ?m)))"
      by (auto split: if_splits)
    then show ?thesis
    proof cases
      case 1
      then show ?thesis by (simp add: keeps_target)
    next
      case 2
      show ?thesis unfolding 2 renamed by simp
    next
      case 3
      have "at_target (do_step x Rename_Temp ?m) = Some (x, mode)" unfolding renamed by simp
      with post have "at_target q = Some (x, mode)" by (intro post_states [OF _ _ 3]) blast+
      then show ?thesis ..
    qed
  qed
qed

lemma run_ok: "fst (run_steps cleans x ss fs p) \<Longrightarrow> ends_in p (snd (run_steps cleans x ss fs p)) = fold (do_step x) ss p"
  by (induction ss arbitrary: fs p) (auto split: if_splits)

lemma chmod_same: "at_target r = Some (x, mode) \<Longrightarrow> do_step x (Chmod_Target mode) r = r"
  by (cases r) simp

lemma success_is_new:
  fixes x :: 'a
  assumes "fst (run_steps cleans x steps fs p)"
  shows "at_target (ends_in p (snd (run_steps cleans x steps fs p))) = Some (x, mode)
    \<and> at_temp (ends_in p (snd (run_steps cleans x steps fs p))) = None"
proof -
  have "\<forall>s \<in> set ss. s = Chmod_Target mode \<Longrightarrow> at_target r = Some (x, mode) \<Longrightarrow> fold (do_step x) ss r = r" for ss r
    by (induction ss) (auto simp: chmod_same simp del: do_step.simps)
  then have "fold (do_step x) post (do_step x Rename_Temp (fold (do_step x) pre p)) = do_step x Rename_Temp (fold (do_step x) pre p)"
    using post renamed by auto
  then have "ends_in p (snd (run_steps cleans x steps fs p))
      = (fold (do_step x) pre p)\<lparr>at_target := Some (x, mode), at_temp := None\<rparr>"
    using run_ok [OF assms] renamed by simp
  then show ?thesis by simp
qed

lemma failed_before_rename:
  "\<forall>s \<in> set ss. before_rename s \<Longrightarrow> \<not> fst (run_steps cleans x (ss @ [Rename_Temp]) fs p)
    \<Longrightarrow> at_target (ends_in p (snd (run_steps cleans x (ss @ [Rename_Temp]) fs p))) = at_target p"
proof (induction ss arbitrary: fs p)
  case (Cons s ss)
  then show ?case using before_rename_keeps [of s x p] by (cases "fst (next_fault fs)") auto
qed (simp split: if_splits)

lemma failed_is_old:
  assumes "\<not> fst (run_steps cleans x steps fs p)" "post = []"
  shows "at_target (ends_in p (snd (run_steps cleans x steps fs p))) = at_target p"
  using assms pre failed_before_rename [of pre x fs p] by simp

end

lemma no_litter:
  assumes "\<And>s. cleans s" "\<not> fst (run_steps cleans x ss fs p)"
  shows "at_temp (ends_in p (snd (run_steps cleans x ss fs p))) = None"
  using assms(2) by (induction ss arbitrary: fs p) (auto simp: assms(1) split: if_splits)

section \<open>Each of them is one\<close>

lemmas step_defs = seed_steps_def queue_steps_def routes_steps_def settings_steps_def secret_steps_def
  record_steps_def before_rename_def

interpretation seed_file: atomic_writer "writer_cleans Seed_File"
  "[Create_Temp, Write_Temp, Close_Temp, Chmod_Temp public_mode]" "[]" public_mode
  by unfold_locales (auto simp: before_rename_def)

interpretation queue_doc: atomic_writer "writer_cleans (Queue_Doc fsync)"
  "[Create_Temp, Write_Temp] @ (if fsync then [Sync_Temp] else []) @ [Close_Temp]" "[]" private_mode for fsync
  by unfold_locales (auto simp: before_rename_def split: if_splits)

interpretation route_ledger: atomic_writer "writer_cleans Route_Ledger"
  "[Create_Temp, Write_Temp, Close_Temp]" "[]" private_mode
  by unfold_locales (auto simp: before_rename_def)

interpretation agent_settings: atomic_writer "writer_cleans Agent_Settings"
  "[Make_Dir, Create_Temp, Write_Temp, Close_Temp, Chmod_Temp private_mode]" "[]" private_mode
  by unfold_locales (auto simp: before_rename_def)

interpretation secret_file: atomic_writer "writer_cleans Secret_File"
  "[Make_Dir, Create_Temp, Chmod_Temp private_mode, Write_Temp, Close_Temp]" "[Chmod_Target private_mode]" private_mode
  by unfold_locales (auto simp: before_rename_def)

interpretation github_record: atomic_writer "writer_cleans Github_Record"
  "[Make_Dir, Create_Temp, Chmod_Temp private_mode, Write_Temp, Close_Temp]" "[Chmod_Target private_mode]" private_mode
  by unfold_locales (auto simp: before_rename_def)

lemma steps_split:
  "seed_steps = [Create_Temp, Write_Temp, Close_Temp, Chmod_Temp public_mode] @ Rename_Temp # []"
  "queue_steps fsync = ([Create_Temp, Write_Temp] @ (if fsync then [Sync_Temp] else []) @ [Close_Temp]) @ Rename_Temp # []"
  "routes_steps = [Create_Temp, Write_Temp, Close_Temp] @ Rename_Temp # []"
  "settings_steps = [Make_Dir, Create_Temp, Write_Temp, Close_Temp, Chmod_Temp private_mode] @ Rename_Temp # []"
  "secret_steps = [Make_Dir, Create_Temp, Chmod_Temp private_mode, Write_Temp, Close_Temp]
     @ Rename_Temp # [Chmod_Target private_mode]"
  "record_steps = [Make_Dir, Create_Temp, Chmod_Temp private_mode, Write_Temp, Close_Temp]
     @ Rename_Temp # [Chmod_Target private_mode]"
  by (simp_all add: step_defs)

lemma writer_old_or_new:
  "q \<in> set (snd (write_file_atomic w x fs p)) \<Longrightarrow> at_target q = at_target p \<or> at_target q = Some (x, writer_mode w)"
  by (cases w)
    (simp_all only: write_file_atomic_def writer_steps_def writer.case steps_split writer_mode_def
      writer.distinct simp_thms if_True if_False seed_file.old_or_new queue_doc.old_or_new
      route_ledger.old_or_new agent_settings.old_or_new secret_file.old_or_new github_record.old_or_new)

lemma writer_success:
  "fst (write_file_atomic w x fs p) \<Longrightarrow>
     at_target (ends_in p (snd (write_file_atomic w x fs p))) = Some (x, writer_mode w)
     \<and> at_temp (ends_in p (snd (write_file_atomic w x fs p))) = None"
  by (cases w)
    (simp_all only: write_file_atomic_def writer_steps_def writer.case steps_split writer_mode_def
      writer.distinct simp_thms if_True if_False seed_file.success_is_new queue_doc.success_is_new
      route_ledger.success_is_new agent_settings.success_is_new secret_file.success_is_new
      github_record.success_is_new)

text \<open>
  C26: every file the program replaces this way is replaced whole. In every state a run passes
  through, and so after a crash or a failing call at any point, the target is the file that was
  there or the complete new one with its mode; a run that reports success leaves the new file and
  no temporary one.
\<close>

theorem replaced_whole:
  assumes "write_file_atomic w x fs p = (ok, tr)"
  shows "set (map at_target tr) \<subseteq> {at_target p, Some (x, writer_mode w)}
    \<and> (ok \<longrightarrow> at_target (ends_in p tr) = Some (x, writer_mode w) \<and> at_temp (ends_in p tr) = None)"
  using writer_old_or_new [of _ w x fs p] writer_success [of w x fs p] assms by auto

theorem replaced_whole_witness:
  "at_target (ends_in \<lparr>at_target = Some (''old'', private_mode), at_temp = None\<rparr>
     (snd (write_file_atomic Route_Ledger ''new'' [] \<lparr>at_target = Some (''old'', private_mode), at_temp = None\<rparr>)))
   = Some (''new'', private_mode)"
proof -
  obtain ok tr where r: "write_file_atomic Route_Ledger ''new'' []
      \<lparr>at_target = Some (''old'', private_mode), at_temp = None\<rparr> = (ok, tr)" by fastforce
  then have "ok" by (auto simp: write_file_atomic_def writer_steps_def routes_steps_def)
  then show ?thesis using replaced_whole [OF r] r by (simp add: writer_mode_def)
qed

text \<open>
  A failed write leaves the old file, but for the two writers of credentials: their last call sets
  the mode of the file that is already in place, so its failure is reported over the new content.
  Only the writer of seeds leaves its temporary file behind, when the rename fails.
\<close>

lemma failed_write_is_old:
  "\<not> fst (write_file_atomic w x fs p) \<Longrightarrow> w \<notin> {Secret_File, Github_Record}
    \<Longrightarrow> at_target (ends_in p (snd (write_file_atomic w x fs p))) = at_target p"
  by (cases w)
    (simp_all only: write_file_atomic_def writer_steps_def writer.case steps_split insert_iff empty_iff
      writer.distinct simp_thms seed_file.failed_is_old queue_doc.failed_is_old
      route_ledger.failed_is_old agent_settings.failed_is_old)

lemma failed_secret_is_new:
  "write_file_atomic Secret_File x [False, False, False, False, False, False, True] \<lparr>at_target = None, at_temp = None\<rparr>
    = (False, snd (write_file_atomic Secret_File x [False, False, False, False, False, False, True] \<lparr>at_target = None, at_temp = None\<rparr>))
   \<and> at_target (ends_in \<lparr>at_target = None, at_temp = None\<rparr>
       (snd (write_file_atomic Secret_File x [False, False, False, False, False, False, True] \<lparr>at_target = None, at_temp = None\<rparr>)))
     = Some (x, private_mode)"
  by (simp add: write_file_atomic_def writer_steps_def secret_steps_def next_fault_def)

lemma only_seeds_litter:
  "\<not> fst (write_file_atomic w x fs p) \<Longrightarrow> w \<noteq> Seed_File
    \<Longrightarrow> at_temp (ends_in p (snd (write_file_atomic w x fs p))) = None"
  unfolding write_file_atomic_def by (rule no_litter) (simp_all add: writer_cleans_def)

end
