(* ===== verification/Credential.thy ===== *)
theory Credential
  imports AtomicFile Paths
begin

text \<open>
  The credential stores (\<open>internal/credential\<close>): the choice of a backend, the store of one private
  file per secret, and \<open>Resolve\<close>, which turns a reference into its secret. The Keychain is an
  external program; what it answers is an argument. What a store promises its clients is the
  locale \<open>secret_store\<close>. Letters are compared as ASCII.
\<close>

section \<open>Names of files\<close>

text \<open>Length of the UTF-8 sequence at the head of a text, 1 for a byte that starts none: one step
  of a \<open>range\<close> over a string.\<close>

definition unit_in :: "nat \<Rightarrow> nat \<Rightarrow> char \<Rightarrow> bool" where
  "unit_in lo hi c \<longleftrightarrow> (let n = of_char c :: nat in lo \<le> n \<and> n \<le> hi)"

definition second_range :: "char \<Rightarrow> nat \<times> nat" where
  "second_range c =
     (let n = of_char c :: nat in
      if n = 224 then (160, 191) else if n = 237 then (128, 159)
      else if n = 240 then (144, 191) else if n = 244 then (128, 143) else (128, 191))"

definition rune_width :: "string \<Rightarrow> nat" where
  "rune_width s =
     (case s of
        [] \<Rightarrow> 0
      | c # r \<Rightarrow>
          (let n = of_char c :: nat; k = (if 194 \<le> n \<and> n \<le> 223 then 1 else if 224 \<le> n \<and> n \<le> 239 then 2
                 else if 240 \<le> n \<and> n \<le> 244 then 3 else 0) in
           if k = 0 \<or> length r < k then 1
           else
             (case second_range c of
                (lo, hi) \<Rightarrow>
                  if unit_in lo hi (hd r) \<and> list_all (unit_in 128 191) (drop 1 (take k r)) then Suc k else 1)))"

lemma rune_width_pos: "s \<noteq> [] \<Longrightarrow> 0 < rune_width s"
  by (cases s) (auto simp: rune_width_def Let_def split: prod.split)

definition safe_char :: "char \<Rightarrow> bool" where
  "safe_char c \<longleftrightarrow> is_alnum c \<or> c = CHR ''.'' \<or> c = CHR ''-'' \<or> c = CHR ''_''"

function safe_runes :: "string \<Rightarrow> string" where
  "safe_runes s =
     (case s of
        [] \<Rightarrow> []
      | c # r \<Rightarrow> (if safe_char c then c else CHR ''_'') # safe_runes (drop (rune_width s) s))"
  by pat_completeness auto
termination
  by (relation "measure length") (auto simp: rune_width_pos)

declare safe_runes.simps [simp del]

definition safe :: "string \<Rightarrow> string" where
  "safe s = (if safe_runes s = [] then ''_'' else safe_runes s)"

section \<open>The store of files\<close>

datatype file_entry = Folder nat | Plain string nat

record file_dir =
  fd_entries :: "(string, file_entry) table"
  fd_faults :: "bool list"

datatype secret_err = Secret_Not_Found | Secret_Io | No_Home_Dir

definition store_dir :: "string option \<Rightarrow> string \<Rightarrow> (secret_err, string) res" where
  "store_dir home d =
     (if d \<noteq> [] then Inr d
      else (case home of None \<Rightarrow> Inl No_Home_Dir | Some h \<Rightarrow> Inr (join_path [h, ''.lezz'', ''auth''])))"

definition secret_name :: "string \<Rightarrow> string \<Rightarrow> string" where
  "secret_name service account = safe service @ ''__'' @ safe account @ ''.secret''"

definition secret_path :: "string option \<Rightarrow> string \<Rightarrow> string \<Rightarrow> string \<Rightarrow> (secret_err, string) res" where
  "secret_path home d service account =
     and_then (store_dir home d) (\<lambda>d. Inr (join_path [d, secret_name service account]))"

definition file_ref :: "string option \<Rightarrow> string \<Rightarrow> string \<Rightarrow> string \<Rightarrow> string" where
  "file_ref home d service account =
     (case secret_path home d service account of Inl _ \<Rightarrow> ''file:'' | Inr p \<Rightarrow> ''file:'' @ p)"

text \<open>\<open>Set\<close> over a path: the seven calls of the writer of secrets. A folder of that name stops the
  rename.\<close>

definition entry_place :: "file_entry option \<Rightarrow> string place" where
  "entry_place e =
     \<lparr>at_target = (case e of Some (Plain b m) \<Rightarrow> Some (b, m) | _ \<Rightarrow> None), at_temp = None\<rparr>"

definition folder_faults :: "file_entry option \<Rightarrow> bool list \<Rightarrow> bool list" where
  "folder_faults e fs =
     (case e of
        Some (Folder _) \<Rightarrow> take 5 (fs @ replicate 5 False) @ [True]
      | _ \<Rightarrow> take 7 fs)"

definition file_set :: "string \<Rightarrow> string \<Rightarrow> file_dir \<Rightarrow> (secret_err, unit) res \<times> file_dir" where
  "file_set p secret d =
     (let e = map_of (fd_entries d) p;
          (ok, tr) = write_file_atomic Secret_File secret (folder_faults e (fd_faults d)) (entry_place e);
          entries = (case at_target (ends_in (entry_place e) tr) of
                       Some (b, m) \<Rightarrow> AList.update p (Plain b m) (fd_entries d)
                     | None \<Rightarrow> fd_entries d) in
      (if ok then Inr () else Inl Secret_Io,
       d\<lparr>fd_entries := entries, fd_faults := drop 7 (fd_faults d)\<rparr>))"

definition file_get :: "string \<Rightarrow> file_dir \<Rightarrow> (secret_err, string) res \<times> file_dir" where
  "file_get p d =
     (let (bad, fs) = next_fault (fd_faults d); d' = d\<lparr>fd_faults := fs\<rparr> in
      case map_of (fd_entries d) p of
        None \<Rightarrow> (Inl Secret_Not_Found, d')
      | Some (Folder _) \<Rightarrow> (Inl Secret_Io, d')
      | Some (Plain b _) \<Rightarrow> (if bad then Inl Secret_Io else Inr b, d'))"

definition file_exists :: "string \<Rightarrow> file_dir \<Rightarrow> (secret_err, bool) res \<times> file_dir" where
  "file_exists p d =
     (let (bad, fs) = next_fault (fd_faults d); d' = d\<lparr>fd_faults := fs\<rparr> in
      case map_of (fd_entries d) p of
        None \<Rightarrow> (Inr False, d')
      | Some _ \<Rightarrow> (if bad then Inl Secret_Io else Inr True, d'))"

definition file_delete :: "string \<Rightarrow> file_dir \<Rightarrow> (secret_err, unit) res \<times> file_dir" where
  "file_delete p d =
     (let (bad, fs) = next_fault (fd_faults d); d' = d\<lparr>fd_faults := fs\<rparr> in
      case map_of (fd_entries d) p of
        None \<Rightarrow> (Inl Secret_Not_Found, d')
      | Some _ \<Rightarrow>
          if bad then (Inl Secret_Io, d') else (Inr (), d'\<lparr>fd_entries := AList.delete p (fd_entries d)\<rparr>))"

section \<open>The choice of a store\<close>

datatype backend = Keychain | File_Store

datatype backend_err = Not_On_Mac | No_Security_Command | Unknown_Store string

definition default_store :: "bool \<Rightarrow> bool \<Rightarrow> backend" where
  "default_store darwin security = (if darwin \<and> security then Keychain else File_Store)"

definition new_store :: "bool \<Rightarrow> bool \<Rightarrow> string \<Rightarrow> (backend_err, backend) res" where
  "new_store darwin security kind =
     (let k = lower (trim_space kind) in
      if k = [] \<or> k = ''auto'' then Inr (default_store darwin security)
      else if k = ''keychain'' then
        (if \<not> darwin then Inl Not_On_Mac else if \<not> security then Inl No_Security_Command else Inr Keychain)
      else if k = ''file'' then Inr File_Store
      else Inl (Unknown_Store kind))"

definition backend_kind :: "backend \<Rightarrow> string" where
  "backend_kind b = (case b of Keychain \<Rightarrow> ''keychain'' | File_Store \<Rightarrow> ''file (0600)'')"

definition keychain_ref :: "string \<Rightarrow> string" where
  "keychain_ref service = ''keychain:'' @ service"

section \<open>References\<close>

datatype resolve_err =
    Bad_Reference string
  | Absent string
  | Unreadable string
  | Is_Folder string
  | Too_Open string nat
  | Empty_Service string
  | Unsupported string string

definition trim_newlines :: "string \<Rightarrow> string" where
  "trim_newlines s = rev (dropWhile (\<lambda>c. c = CHR 0x0A) (rev s))"

definition resolve_file :: "string \<Rightarrow> string \<Rightarrow> file_dir \<Rightarrow> (resolve_err, string) res" where
  "resolve_file ref p d =
     (case map_of (fd_entries d) p of
        None \<Rightarrow> Inl (Absent p)
      | Some (Folder _) \<Rightarrow> Inl (Is_Folder p)
      | Some (Plain b m) \<Rightarrow>
          if m mod 64 \<noteq> 0 then Inl (Too_Open p m)
          else if fst (next_fault (fd_faults d)) then Inl (Unreadable p)
          else if trim_newlines b = [] then Inl (Absent p)
          else Inr (trim_newlines b))"

text \<open>\<open>keychain service account\<close> is what \<open>security\<close> finds; no account asks for any item.\<close>

definition resolve ::
    "(string \<Rightarrow> string) \<Rightarrow> (string \<Rightarrow> string option \<Rightarrow> (resolve_err, string) res) \<Rightarrow> file_dir \<Rightarrow> string
     \<Rightarrow> (resolve_err, string) res" where
  "resolve getenv keychain d ref =
     (case cut_at (CHR '':'') (trim_space ref) of
        None \<Rightarrow> Inl (Bad_Reference ref)
      | Some (kind, rest) \<Rightarrow>
          if rest = [] then Inl (Bad_Reference ref)
          else if lower kind = ''env'' then
            (if getenv rest = [] then Inl (Absent rest) else Inr (getenv rest))
          else if lower kind = ''file'' then resolve_file ref rest d
          else if lower kind = ''keychain'' then
            (case cut_at (CHR ''/'') rest of
               None \<Rightarrow> keychain rest None
             | Some (service, account) \<Rightarrow>
                 if service = [] then Inl (Empty_Service ref) else keychain service (Some account))
          else Inl (Unsupported ref kind))"

section \<open>What a store promises\<close>

locale secret_store =
  fixes store :: "'k \<Rightarrow> string \<Rightarrow> 's \<Rightarrow> ('e, unit) res \<times> 's"
    and fetch :: "'k \<Rightarrow> 's \<Rightarrow> ('e, string) res \<times> 's"
    and erase :: "'k \<Rightarrow> 's \<Rightarrow> ('e, unit) res \<times> 's"
    and absent :: 'e
    and healthy :: "'s \<Rightarrow> bool"
  assumes fetch_stored: "healthy s \<Longrightarrow> store k x s = (Inr (), s') \<Longrightarrow> healthy s' \<and> fst (fetch k s') = Inr x"
    and fetch_other: "healthy s \<Longrightarrow> store k x s = (r, s') \<Longrightarrow> k \<noteq> l \<Longrightarrow> fst (fetch l s') = fst (fetch l s)"
    and fetch_erased: "healthy s \<Longrightarrow> erase k s = (r, s') \<Longrightarrow> r \<in> {Inr (), Inl absent}
      \<Longrightarrow> healthy s' \<and> fst (fetch k s') = Inl absent"
begin

lemma store_erase_fetch:
  "healthy s \<Longrightarrow> store k x s = (Inr (), s') \<Longrightarrow> erase k s' = (Inr (), s'') \<Longrightarrow> fst (fetch k s'') = Inl absent"
  using fetch_stored fetch_erased by blast

lemma second_store_wins:
  "healthy s \<Longrightarrow> store k x s = (Inr (), s') \<Longrightarrow> store k y s' = (Inr (), s'') \<Longrightarrow> fst (fetch k s'') = Inr y"
  using fetch_stored by blast

end

definition sound_disk :: "file_dir \<Rightarrow> bool" where
  "sound_disk d \<longleftrightarrow> fd_faults d = []"

lemma file_set_ok:
  assumes "file_set p x d = (Inr (), d')"
  shows "map_of (fd_entries d') p = Some (Plain x private_mode)
    \<and> (\<forall>q. q \<noteq> p \<longrightarrow> map_of (fd_entries d') q = map_of (fd_entries d) q)"
proof -
  let ?e = "map_of (fd_entries d) p"
  obtain ok tr where w: "write_file_atomic Secret_File x (folder_faults ?e (fd_faults d)) (entry_place ?e) = (ok, tr)"
    by fastforce
  then have "ok" using assms by (simp add: file_set_def Let_def split: if_splits)
  then have "at_target (ends_in (entry_place ?e) tr) = Some (x, private_mode)"
    using writer_success [of Secret_File x "folder_faults ?e (fd_faults d)" "entry_place ?e"] w
    by (simp add: writer_mode_def)
  then show ?thesis using assms w by (auto simp: file_set_def Let_def)
qed

lemma file_set_other:
  "file_set p x d = (r, d') \<Longrightarrow> p \<noteq> q \<Longrightarrow> map_of (fd_entries d') q = map_of (fd_entries d) q"
  by (auto simp: file_set_def Let_def split: prod.splits option.splits)

lemma file_set_faults: "file_set p x d = (r, d') \<Longrightarrow> fd_faults d' = drop 7 (fd_faults d)"
  by (auto simp: file_set_def Let_def split: prod.splits)

interpretation file_store: secret_store file_set file_get file_delete Secret_Not_Found sound_disk
proof unfold_locales
  fix d k x and d' :: file_dir
  assume "sound_disk d" "file_set k x d = (Inr (), d')"
  then show "sound_disk d' \<and> fst (file_get k d') = Inr x"
    using file_set_ok [of k x d d'] file_set_faults [of k x d "Inr ()" d']
    by (simp add: sound_disk_def file_get_def)
next
  fix d k x l and r :: "(secret_err, unit) res" and d' :: file_dir
  assume "sound_disk d" "file_set k x d = (r, d')" "k \<noteq> l"
  then show "fst (file_get l d') = fst (file_get l d)"
    using file_set_other [of k x d r d' l] file_set_faults [of k x d r d']
    by (simp add: sound_disk_def file_get_def Let_def split: option.split file_entry.split)
next
  fix d k and r :: "(secret_err, unit) res" and d' :: file_dir
  assume "sound_disk d" "file_delete k d = (r, d')" "r \<in> {Inr (), Inl Secret_Not_Found}"
  then show "sound_disk d' \<and> fst (file_get k d') = Inl Secret_Not_Found"
    by (auto simp: sound_disk_def file_delete_def file_get_def Let_def split: option.splits)
qed

section \<open>A reference finds what was stored\<close>

lemma safe_runes_chars: "c \<in> set (safe_runes s) \<Longrightarrow> safe_char c"
proof (induction s rule: safe_runes.induct)
  case (1 s)
  then show ?case by (subst (asm) safe_runes.simps) (auto simp: safe_char_def split: list.splits if_splits)
qed

lemma safe_chars: "c \<in> set (safe s) \<Longrightarrow> safe_char c"
  using safe_runes_chars by (auto simp: safe_def safe_char_def split: if_splits)

lemma safe_not_Nil: "safe s \<noteq> []"
  by (simp add: safe_def)

lemma secret_name_proper: "proper (secret_name service account) \<and> secret_name service account \<noteq> ''..''"
proof -
  have "\<not> safe_char CHR ''/''" by (simp add: safe_char_def is_alnum_def is_letter_def is_digit_def digit_val_def)
  then have "CHR ''/'' \<notin> set (safe service)" "CHR ''/'' \<notin> set (safe account)" using safe_chars by blast+
  moreover have "length (secret_name service account) > 2" by (simp add: secret_name_def)
  then have "secret_name service account \<notin> {[], ''.'', ''..''}" by auto
  ultimately show ?thesis by (auto simp: proper_def secret_name_def)
qed

lemma secret_path_last:
  assumes "secret_path home d service account = Inr p"
  shows "p \<noteq> [] \<and> last p = CHR ''t''"
proof -
  obtain d' where d': "p = join_path [d', secret_name service account]"
    using assms by (auto simp: secret_path_def and_then_Inr)
  show ?thesis
  proof (cases "d' = []")
    case True
    have "elements (secret_name service account) = [secret_name service account]"
      using secret_name_proper [of service account]
      by (simp add: elements_def proper_def split_at_no_sep clean_step_def)
    moreover have "\<not> is_abs (secret_name service account)"
      using secret_name_proper [of service account] by (cases "secret_name service account") (auto simp: proper_def)
    ultimately have "p = secret_name service account"
      using d' True secret_name_proper [of service account] by (simp add: join_path_def clean_path_def proper_def)
    then show ?thesis by (simp add: secret_name_def)
  next
    case False
    then obtain t where "p = t @ secret_name service account"
      using join_path_last secret_name_proper d' by blast
    then show ?thesis by (simp add: secret_name_def)
  qed
qed

lemma ref_graphic:
  assumes "secret_path home d service account = Inr p"
  shows "trim_space (file_ref home d service account) = ''file:'' @ p"
proof -
  have "trim_space (''file:'' @ p) = ''file:'' @ p"
    by (rule trim_space_graphic) (use secret_path_last [OF assms] in \<open>simp_all add: graphic_def less_char_def\<close>)
  then show ?thesis using assms by (simp add: file_ref_def)
qed

lemma trim_newlines_last: "last x \<noteq> CHR 0x0A \<Longrightarrow> trim_newlines x = x"
  by (cases x rule: rev_cases) (auto simp: trim_newlines_def)

text \<open>
  What a store of files hands out as the reference of a secret is a reference under which that
  secret is found: after a successful \<open>Set\<close>, \<open>Resolve\<close> of \<open>Ref\<close> gives the secret, whatever service,
  account, directory and environment, as long as the secret does not end in a newline and the disk
  serves the read; and the file is not readable by others.
\<close>

theorem resolve_returns_stored:
  assumes "secret_path home d service account = Inr p" "file_set p x dir = (Inr (), dir')"
    and "fd_faults dir' = []" "x \<noteq> []" "last x \<noteq> CHR 0x0A"
  shows "resolve getenv keychain dir' (file_ref home d service account) = Inr x
    \<and> map_of (fd_entries dir') p = Some (Plain x private_mode)"
proof -
  have e: "map_of (fd_entries dir') p = Some (Plain x private_mode)"
    using file_set_ok [OF assms(2)] by blast
  then have "resolve_file ref p dir' = Inr x" for ref
    using assms(3-5) trim_newlines_last by (simp add: resolve_file_def private_mode_def)
  moreover have "p \<noteq> []"
    using secret_path_last [OF assms(1)] by blast
  moreover have "trim_space (file_ref home d service account) = ''file:'' @ p"
    using ref_graphic [OF assms(1)] .
  ultimately show ?thesis
    using e by (simp add: resolve_def lower_def lower_char_def)
qed

definition no_files :: file_dir where
  "no_files = \<lparr>fd_entries = [], fd_faults = []\<rparr>"

theorem resolve_returns_stored_witness:
  "case secret_path None ''/k'' ''svc'' ''me'' of
     Inl e \<Rightarrow> False
   | Inr p \<Rightarrow> resolve (\<lambda>_. []) (\<lambda>s a. Inl (Absent s)) (snd (file_set p ''hush'' no_files))
       (file_ref None ''/k'' ''svc'' ''me'') = Inr ''hush''"
proof -
  obtain p where p: "secret_path None ''/k'' ''svc'' ''me'' = Inr p"
    by (simp add: secret_path_def store_dir_def)
  have "file_set p ''hush'' no_files = (Inr (), no_files\<lparr>fd_entries := [(p, Plain ''hush'' private_mode)]\<rparr>)"
    by (simp add: file_set_def no_files_def write_file_atomic_def writer_steps_def secret_steps_def
        entry_place_def folder_faults_def private_mode_def)
  from resolve_returns_stored [OF p this, of "\<lambda>_. []" "\<lambda>s a. Inl (Absent s)"] this show ?thesis
    by (simp add: p no_files_def)
qed

text \<open>
  Two secrets may share a file: every byte outside the alphabet becomes an underscore, and the
  separator is made of underscores too. Storing one then replaces the other.
\<close>

lemma safe_runes_Nil [simp]: "safe_runes [] = []"
  by (subst safe_runes.simps) simp

lemma safe_runes_ascii:
  "of_char c < (128 :: nat) \<Longrightarrow> safe_runes (c # r) = (if safe_char c then c else CHR ''_'') # safe_runes r"
  by (subst safe_runes.simps) (simp add: rune_width_def)

lemma colliding_names:
  "secret_name ''a/b'' c = secret_name ''a_b'' c" "secret_name ''a__b'' ''c'' = secret_name ''a'' ''b__c''"
  by (simp_all add: secret_name_def safe_def safe_runes_ascii safe_char_def is_alnum_def is_letter_def
      is_digit_def digit_val_def)

end
