(* ===== verification/GithubAuth.thy ===== *)
theory GithubAuth
  imports Credential
begin

text \<open>
  Signing in with GitHub (\<open>internal/githubauth\<close>): the device flow with its polling loop, the token
  in a credential store with its record beside it, and the credential policy of release downloads.
  HTTP answers arrive decoded; the Keychain is a record of operations over a state of its own.
\<close>

section \<open>The device flow\<close>

record device_code =
  dc_device_code :: string
  dc_user_code :: string
  dc_verification_uri :: string
  dc_expires_in :: int
  dc_interval :: int
  dc_error :: string

record token =
  tk_access :: string
  tk_scope :: string
  tk_error :: string
  tk_interval :: int

record identity =
  id_number :: int
  id_login :: string
  id_full_name :: string
  id_url :: string

datatype flow_err =
    No_Client_Id
  | Request_Failed
  | Code_Refused string
  | Incomplete_Code
  | Stopped
  | Code_Expired
  | Denied
  | No_Access_Token
  | Token_Refused string
  | Status_Not_Ok
  | Bad_Identity
  | Empty_Login

definition default_scopes :: string where
  "default_scopes = ''read:user''"

definition device_scopes :: "string \<Rightarrow> string" where
  "device_scopes s = (if trim_space s = [] then default_scopes else s)"

text \<open>\<open>post\<close> is the answer to the form, for a client id and scopes.\<close>

definition start_device_flow ::
    "(string \<Rightarrow> string \<Rightarrow> device_code option) \<Rightarrow> string \<Rightarrow> string \<Rightarrow> (flow_err, device_code) res" where
  "start_device_flow post client scopes =
     (if client = [] then Inl No_Client_Id
      else
        (case post client (device_scopes scopes) of
           None \<Rightarrow> Inl Request_Failed
         | Some d \<Rightarrow>
             if dc_error d \<noteq> [] then Inl (Code_Refused (dc_error d))
             else if dc_device_code d = [] \<or> dc_user_code d = [] then Inl Incomplete_Code
             else
               (let d1 = (if dc_verification_uri d = [] then d\<lparr>dc_verification_uri := ''https://github.com/login/device''\<rparr> else d) in
                Inr (if dc_interval d1 \<le> 0 then d1\<lparr>dc_interval := 5\<rparr> else d1))))"

text \<open>
  The polling loop. A round is the answer to the next poll, or \<open>None\<close> when the sleep before it was
  cut short by the context (its own deadline or the caller's); no more rounds means the same. The
  seconds slept before each poll are kept.
\<close>

fun poll_token :: "int \<Rightarrow> token option option list \<Rightarrow> (flow_err, token) res \<times> int list" where
  "poll_token interval [] = (Inl Stopped, [interval])"
| "poll_token interval (None # rs) = (Inl Stopped, [interval])"
| "poll_token interval (Some None # rs) = (Inl Request_Failed, [interval])"
| "poll_token interval (Some (Some t) # rs) =
     (if tk_access t \<noteq> [] then (Inr t, [interval])
      else if tk_error t = ''authorization_pending'' then
        (let (r, ws) = poll_token interval rs in (r, interval # ws))
      else if tk_error t = ''slow_down'' then
        (let (r, ws) = poll_token (if tk_interval t > 0 then tk_interval t else interval + 5) rs in
         (r, interval # ws))
      else if tk_error t = ''expired_token'' then (Inl Code_Expired, [interval])
      else if tk_error t = ''access_denied'' then (Inl Denied, [interval])
      else if tk_error t = [] then (Inl No_Access_Token, [interval])
      else (Inl (Token_Refused (tk_error t)), [interval]))"

definition wait_for_token :: "device_code \<Rightarrow> token option option list \<Rightarrow> (flow_err, token) res \<times> int list" where
  "wait_for_token d = poll_token (if dc_interval d \<le> 0 then 5 else dc_interval d)"

text \<open>The answer to \<open>GET /user\<close>: its status and the decoded body.\<close>

definition fetch_identity :: "(int \<times> identity option) option \<Rightarrow> (flow_err, identity) res" where
  "fetch_identity answer =
     (case answer of
        None \<Rightarrow> Inl Request_Failed
      | Some (status, body) \<Rightarrow>
          if status \<noteq> 200 then Inl Status_Not_Ok
          else
            (case body of
               None \<Rightarrow> Inl Bad_Identity
             | Some i \<Rightarrow> if id_login i = [] then Inl Empty_Login else Inr i))"

section \<open>The token and its record\<close>

definition token_service :: string where "token_service = ''LEZZ_GITHUB_TOKEN''"
definition token_account :: string where "token_account = ''lezz''"
definition auth_ref :: string where "auth_ref = ''keychain:'' @ token_service"

record gh_record =
  gr_login :: string
  gr_number :: int
  gr_full_name :: string
  gr_url :: string
  gr_scopes :: "string list"
  gr_service :: string
  gr_account :: string
  gr_auth_ref :: string
  gr_store_kind :: string
  gr_created :: time
  gr_verified :: "time option"

record 'k keychain_ops =
  kc_set :: "string \<Rightarrow> string \<Rightarrow> string \<Rightarrow> 'k \<Rightarrow> bool \<times> 'k"
  kc_get :: "string \<Rightarrow> string \<Rightarrow> 'k \<Rightarrow> (secret_err, string) res"
  kc_delete :: "string \<Rightarrow> string \<Rightarrow> 'k \<Rightarrow> (secret_err, unit) res \<times> 'k"

text \<open>The home directory, the files of the default store, the Keychain, and the record's place.\<close>

record 'k gh_world =
  gw_home :: "string option"
  gw_files :: file_dir
  gw_keychain :: 'k
  gw_record :: "gh_record place"
  gw_record_faults :: "bool list"

datatype gh_err =
    Empty_Token
  | Empty_Identity
  | Store_Err secret_err
  | No_Backend backend_err
  | Record_Not_Written
  | Record_Unreadable
  | Record_Not_Removed
  | Not_Signed_In
  | Not_Verified flow_err

definition store_set :: "'k keychain_ops \<Rightarrow> backend \<Rightarrow> string \<Rightarrow> string \<Rightarrow> string \<Rightarrow> 'k gh_world \<Rightarrow> (secret_err, unit) res \<times> 'k gh_world" where
  "store_set kc b service account x w =
     (case b of
        Keychain \<Rightarrow>
          (let (ok, k) = kc_set kc service account x (gw_keychain w) in
           (if ok then Inr () else Inl Secret_Io, w\<lparr>gw_keychain := k\<rparr>))
      | File_Store \<Rightarrow>
          (case secret_path (gw_home w) [] service account of
             Inl e \<Rightarrow> (Inl e, w)
           | Inr p \<Rightarrow> (let (r, d) = file_set p x (gw_files w) in (r, w\<lparr>gw_files := d\<rparr>))))"

definition store_get :: "'k keychain_ops \<Rightarrow> backend \<Rightarrow> string \<Rightarrow> string \<Rightarrow> 'k gh_world \<Rightarrow> (secret_err, string) res" where
  "store_get kc b service account w =
     (case b of
        Keychain \<Rightarrow> kc_get kc service account (gw_keychain w)
      | File_Store \<Rightarrow>
          and_then (secret_path (gw_home w) [] service account) (\<lambda>p. fst (file_get p (gw_files w))))"

definition store_delete :: "'k keychain_ops \<Rightarrow> backend \<Rightarrow> string \<Rightarrow> string \<Rightarrow> 'k gh_world \<Rightarrow> (secret_err, unit) res \<times> 'k gh_world" where
  "store_delete kc b service account w =
     (case b of
        Keychain \<Rightarrow>
          (let (r, k) = kc_delete kc service account (gw_keychain w) in (r, w\<lparr>gw_keychain := k\<rparr>))
      | File_Store \<Rightarrow>
          (case secret_path (gw_home w) [] service account of
             Inl e \<Rightarrow> (Inl e, w)
           | Inr p \<Rightarrow> (let (r, d) = file_delete p (gw_files w) in (r, w\<lparr>gw_files := d\<rparr>))))"

definition store_ref :: "backend \<Rightarrow> string \<Rightarrow> string \<Rightarrow> 'k gh_world \<Rightarrow> string" where
  "store_ref b service account w =
     (case b of Keychain \<Rightarrow> keychain_ref service | File_Store \<Rightarrow> file_ref (gw_home w) [] service account)"

definition write_record :: "gh_record \<Rightarrow> 'k gh_world \<Rightarrow> bool \<times> 'k gh_world" where
  "write_record r w =
     (let (ok, tr) = write_file_atomic Github_Record r (gw_record_faults w) (gw_record w) in
      (ok, w\<lparr>gw_record := ends_in (gw_record w) tr, gw_record_faults := drop 7 (gw_record_faults w)\<rparr>))"

text \<open>A record that cannot be read or does not decode is an error, a missing one is not signed in.\<close>

definition load_record :: "bool \<Rightarrow> 'k gh_world \<Rightarrow> (gh_err, gh_record) res" where
  "load_record readable w =
     (case at_target (gw_record w) of
        None \<Rightarrow> Inl Not_Signed_In
      | Some (r, _) \<Rightarrow> if readable then Inr r else Inl Record_Unreadable)"

text \<open>\<open>strings.Fields\<close>; the fuel is the length of the text, of which every word takes at least one
  byte.\<close>

fun word_of :: "string \<Rightarrow> string" where
  "word_of [] = []"
| "word_of (c # cs) = (if \<exists>p \<in> set space_codes. has_prefix (c # cs) p then [] else c # word_of cs)"

fun fields_in :: "nat \<Rightarrow> string \<Rightarrow> string list" where
  "fields_in 0 s = []"
| "fields_in (Suc n) s =
     (let t = trim_left s; w = word_of t in if t = [] then [] else w # fields_in n (drop (length w) t))"

definition fields :: "string \<Rightarrow> string list" where
  "fields s = fields_in (length s) s"

definition save_at ::
    "'k keychain_ops \<Rightarrow> backend \<Rightarrow> time \<Rightarrow> token \<Rightarrow> identity \<Rightarrow> 'k gh_world \<Rightarrow> (gh_err, gh_record) res \<times> 'k gh_world" where
  "save_at kc b now t i w =
     (if tk_access t = [] then (Inl Empty_Token, w)
      else if id_login i = [] then (Inl Empty_Identity, w)
      else
        (let (r, w1) = store_set kc b token_service token_account (tk_access t) w in
         case r of
           Inl e \<Rightarrow> (Inl (Store_Err e), w1)
         | Inr _ \<Rightarrow>
             (let rec = \<lparr>gr_login = id_login i, gr_number = id_number i, gr_full_name = id_full_name i, gr_url = id_url i,
                    gr_scopes = fields (tk_scope t), gr_service = token_service, gr_account = token_account,
                    gr_auth_ref = store_ref b token_service token_account w1, gr_store_kind = backend_kind b,
                    gr_created = now, gr_verified = None\<rparr>;
                  (ok, w2) = write_record rec w1 in
              (if ok then Inr rec else Inl Record_Not_Written, w2))))"

definition store_kind :: "gh_record option \<Rightarrow> string" where
  "store_kind r =
     (case r of Some r \<Rightarrow> if has_prefix (gr_store_kind r) ''file'' then ''file'' else ''auto'' | None \<Rightarrow> ''auto'')"

text \<open>\<open>darwin\<close> and \<open>security\<close> describe the machine, \<open>readable\<close> the read of the record.\<close>

definition stored_token :: "'k keychain_ops \<Rightarrow> bool \<Rightarrow> bool \<Rightarrow> bool \<Rightarrow> 'k gh_world \<Rightarrow> (gh_err, string) res" where
  "stored_token kc darwin security readable w =
     and_then (load_record readable w) (\<lambda>r.
       (case new_store darwin security (store_kind (Some r)) of
          Inl e \<Rightarrow> Inl (No_Backend e)
        | Inr b \<Rightarrow>
            (case store_get kc b (gr_service r) (gr_account r) w of
               Inl Secret_Not_Found \<Rightarrow> Inl Not_Signed_In
             | Inl e \<Rightarrow> Inl (Store_Err e)
             | Inr t \<Rightarrow> if trim_space t = [] then Inl Not_Signed_In else Inr t)))"

text \<open>The policy of downloads: the stored token, or anonymous when nobody has signed in.\<close>

definition download_token :: "'k keychain_ops \<Rightarrow> bool \<Rightarrow> bool \<Rightarrow> bool \<Rightarrow> 'k gh_world \<Rightarrow> (gh_err, string) res" where
  "download_token kc darwin security readable w =
     (case stored_token kc darwin security readable w of
        Inr t \<Rightarrow> Inr t
      | Inl e \<Rightarrow> if e = Not_Signed_In then Inr [] else Inl e)"

text \<open>\<open>removable\<close> is the outcome of removing a record that is there.\<close>

definition logout :: "'k keychain_ops \<Rightarrow> backend \<Rightarrow> bool \<Rightarrow> 'k gh_world \<Rightarrow> (gh_err, unit) res \<times> 'k gh_world" where
  "logout kc b removable w =
     (let (r, w1) = store_delete kc b token_service token_account w in
      if r \<noteq> Inr () \<and> r \<noteq> Inl Secret_Not_Found then
        (case r of Inl e \<Rightarrow> (Inl (Store_Err e), w1) | Inr _ \<Rightarrow> (Inr (), w1))
      else if at_target (gw_record w1) = None then (Inr (), w1)
      else if removable then (Inr (), w1\<lparr>gw_record := (gw_record w1)\<lparr>at_target := None\<rparr>\<rparr>)
      else (Inl Record_Not_Removed, w1))"

text \<open>\<open>Status\<close>: the record, also beside an error, and the identity its token names, which is noted
  as verified; a failing note is ignored.\<close>

definition status ::
    "'k keychain_ops \<Rightarrow> backend \<Rightarrow> bool \<Rightarrow> time \<Rightarrow> (string \<Rightarrow> (int \<times> identity option) option) \<Rightarrow> 'k gh_world
     \<Rightarrow> gh_record option \<times> (gh_err, identity) res \<times> 'k gh_world" where
  "status kc b readable now user w =
     (case load_record readable w of
        Inl e \<Rightarrow> (None, Inl e, w)
      | Inr r \<Rightarrow>
          (case store_get kc b token_service token_account w of
             Inl e \<Rightarrow> (Some r, Inl (Store_Err e), w)
           | Inr t \<Rightarrow>
               (case fetch_identity (user t) of
                  Inl e \<Rightarrow> (Some r, Inl (Not_Verified e), w)
                | Inr i \<Rightarrow>
                    (let r' = r\<lparr>gr_verified := Some now\<rparr> in (Some r', Inr i, snd (write_record r' w))))))"

section \<open>Polling: properties\<close>

definition not_yet :: "token option option \<Rightarrow> bool" where
  "not_yet r \<longleftrightarrow> (case r of
      Some (Some u) \<Rightarrow> tk_access u = [] \<and> tk_error u \<in> {''authorization_pending'', ''slow_down''}
    | _ \<Rightarrow> False)"

lemma poll_token_skip:
  "not_yet r \<Longrightarrow> \<exists>j. (0 < i \<longrightarrow> 0 < j) \<and> poll_token i (r # rs) = (fst (poll_token j rs), i # snd (poll_token j rs))"
proof -
  assume "not_yet r"
  then obtain u where u: "r = Some (Some u)" "tk_access u = []" "tk_error u \<in> {''authorization_pending'', ''slow_down''}"
    by (auto simp: not_yet_def split: option.splits)
  show ?thesis
  proof (cases "tk_error u = ''authorization_pending''")
    case True
    then show ?thesis using u by (intro exI [where x = i]) (simp add: split_beta Let_def)
  next
    case False
    then show ?thesis
      using u by (intro exI [where x = "if tk_interval u > 0 then tk_interval u else i + 5"]) (auto simp: split_beta Let_def)
  qed
qed

lemma poll_token_stop:
  "\<not> not_yet r \<Longrightarrow> snd (poll_token i (r # rs)) = [i]
    \<and> (fst (poll_token i (r # rs)) = Inr t \<longleftrightarrow> r = Some (Some t) \<and> tk_access t \<noteq> [])"
  by (cases r; cases "the r") (auto simp: not_yet_def)

lemma poll_token_grant:
  "fst (poll_token i rs) = Inr t \<longleftrightarrow>
     (\<exists>pre post. rs = pre @ Some (Some t) # post \<and> tk_access t \<noteq> [] \<and> list_all not_yet pre)"
proof (induction rs arbitrary: i)
  case Nil
  then show ?case by simp
next
  case (Cons r rs)
  show ?case
  proof (cases "not_yet r")
    case True
    then obtain j where "poll_token i (r # rs) = (fst (poll_token j rs), i # snd (poll_token j rs))"
      using poll_token_skip by blast
    then have "fst (poll_token i (r # rs)) = Inr t \<longleftrightarrow>
        (\<exists>pre post. rs = pre @ Some (Some t) # post \<and> tk_access t \<noteq> [] \<and> list_all not_yet pre)"
      using Cons.IH [of j] by simp
    also have "\<dots> \<longleftrightarrow> (\<exists>pre post. r # rs = pre @ Some (Some t) # post \<and> tk_access t \<noteq> [] \<and> list_all not_yet pre)"
      (is "?L \<longleftrightarrow> ?R")
    proof
      assume ?L
      then obtain pre post where "rs = pre @ Some (Some t) # post" "tk_access t \<noteq> []" "list_all not_yet pre" by blast
      then have "r # rs = (r # pre) @ Some (Some t) # post" "list_all not_yet (r # pre)" using True by simp_all
      then show ?R using \<open>tk_access t \<noteq> []\<close> by blast
    next
      assume ?R
      then obtain pre post where p: "r # rs = pre @ Some (Some t) # post" "tk_access t \<noteq> []" "list_all not_yet pre" by blast
      have "\<not> not_yet (Some (Some t))" using p(2) by (simp add: not_yet_def)
      then obtain pre' where "pre = r # pre'" using p True by (cases pre) auto
      then show ?L using p by auto
    qed
    finally show ?thesis .
  next
    case False
    then have "fst (poll_token i (r # rs)) = Inr t \<longleftrightarrow> r = Some (Some t) \<and> tk_access t \<noteq> []"
      using poll_token_stop by blast
    also have "\<dots> \<longleftrightarrow> (\<exists>pre post. r # rs = pre @ Some (Some t) # post \<and> tk_access t \<noteq> [] \<and> list_all not_yet pre)"
      using False by (auto simp: Cons_eq_append_conv)
    finally show ?thesis .
  qed
qed

lemma poll_token_waits: "0 < i \<Longrightarrow> list_all (\<lambda>w. 0 < w) (snd (poll_token i rs))"
proof (induction rs arbitrary: i)
  case (Cons r rs)
  show ?case
  proof (cases "not_yet r")
    case True
    then obtain j where "0 < i \<longrightarrow> 0 < j" "poll_token i (r # rs) = (fst (poll_token j rs), i # snd (poll_token j rs))"
      using poll_token_skip by blast
    then show ?thesis using Cons by simp
  next
    case False
    then show ?thesis using poll_token_stop [OF False, of i rs undefined] Cons.prems by simp
  qed
qed simp


section \<open>Signing in and out: properties\<close>

lemma file_kind: "new_store darwin security (store_kind (Some r)) = Inr File_Store"
  if "gr_store_kind r = ''file (0600)''"
proof -
  have "trim_space ''file'' = ''file''" by (rule trim_space_graphic) (simp_all add: graphic_def less_char_def)
  then show ?thesis
    using that by (simp add: new_store_def store_kind_def has_prefix_def lower_def lower_char_def)
qed

text \<open>
  Signing in with the store of files and signing out are inverse for downloads. After a
  successful save every download uses the token that was saved, on every machine; after the logout
  downloads are anonymous and the record is gone.
\<close>

theorem sign_in_then_out:
  assumes "save_at kc File_Store now t i w = (Inr r, w1)" "fd_faults (gw_files w) = []" "trim_space (tk_access t) \<noteq> []"
    and "logout kc File_Store True w1 = (lr, w2)"
  shows "download_token kc darwin security True w1 = Inr (tk_access t) \<and> gr_login r = id_login i
    \<and> lr = Inr () \<and> download_token kc darwin security True w2 = Inr [] \<and> at_target (gw_record w2) = None"
proof -
  obtain w' where set: "store_set kc File_Store token_service token_account (tk_access t) w = (Inr (), w')"
    and rec: "write_record r w' = (True, w1)" and r: "gr_store_kind r = ''file (0600)''" "gr_login r = id_login i"
      "gr_service r = token_service" "gr_account r = token_account"
    using assms(1) by (auto simp: save_at_def Let_def backend_kind_def split: if_splits prod.splits sum.splits)
  obtain p d where p: "secret_path (gw_home w) [] token_service token_account = Inr p"
    and d: "file_set p (tk_access t) (gw_files w) = (Inr (), d)" "w' = w\<lparr>gw_files := d\<rparr>"
    using set by (auto simp: store_set_def split: sum.splits prod.splits)
  have w1: "gw_files w1 = d" "gw_home w1 = gw_home w" "map_option fst (at_target (gw_record w1)) = Some r"
    using rec d(2) writer_success [of Github_Record r "gw_record_faults w'" "gw_record w'"]
    by (auto simp: write_record_def split: prod.splits)
  then obtain m where m: "at_target (gw_record w1) = Some (r, m)" by auto
  have dd: "fd_faults d = []" "map_of (fd_entries d) p = Some (Plain (tk_access t) private_mode)"
    using file_set_ok [OF d(1)] file_set_faults [OF d(1)] assms(2) by simp_all
  have get: "store_get kc File_Store token_service token_account w1 = Inr (tk_access t)"
    using p w1 dd by (simp add: store_get_def file_get_def)
  have one: "download_token kc darwin security True w1 = Inr (tk_access t)"
    using get m r file_kind [OF r(1)] assms(3)
    by (simp add: download_token_def stored_token_def load_record_def)
  have "lr = Inr () \<and> w2 = w1\<lparr>gw_files := d\<lparr>fd_entries := AList.delete p (fd_entries d)\<rparr>,
      gw_record := (gw_record w1)\<lparr>at_target := None\<rparr>\<rparr>"
    using assms(4) p w1 dd m by (auto simp: logout_def store_delete_def file_delete_def Let_def)
  then show ?thesis using one r(2) by (simp add: download_token_def stored_token_def load_record_def)
qed

definition no_keychain :: "unit keychain_ops" where
  "no_keychain = \<lparr>kc_set = \<lambda>_ _ _ k. (False, k), kc_get = \<lambda>_ _ _. Inl Secret_Io, kc_delete = \<lambda>_ _ k. (Inl Secret_Io, k)\<rparr>"

definition fresh_gh :: "unit gh_world" where
  "fresh_gh = \<lparr>gw_home = Some ''/h'', gw_files = no_files, gw_keychain = (),
     gw_record = \<lparr>at_target = None, at_temp = None\<rparr>, gw_record_faults = []\<rparr>"

definition a_token :: token where
  "a_token = \<lparr>tk_access = ''gho'', tk_scope = [], tk_error = [], tk_interval = 0\<rparr>"

definition an_identity :: identity where
  "an_identity = \<lparr>id_number = 7, id_login = ''me'', id_full_name = [], id_url = []\<rparr>"

theorem sign_in_then_out_witness:
  "download_token no_keychain False False True (snd (save_at no_keychain File_Store 0 a_token an_identity fresh_gh)) = Inr ''gho''"
proof -
  obtain res w1 where s: "save_at no_keychain File_Store 0 a_token an_identity fresh_gh = (res, w1)" by fastforce
  obtain p where p: "secret_path (Some ''/h'') [] token_service token_account = Inr p"
    by (simp add: secret_path_def store_dir_def)
  have "is_ok res"
    using s p by (auto simp: save_at_def a_token_def an_identity_def fresh_gh_def store_set_def file_set_def no_files_def
        write_file_atomic_def writer_steps_def secret_steps_def record_steps_def entry_place_def folder_faults_def
        write_record_def Let_def)
  then obtain r where r: "save_at no_keychain File_Store 0 a_token an_identity fresh_gh = (Inr r, w1)"
    using s by (auto simp: is_ok_iff)
  obtain lr w2 where l: "logout no_keychain File_Store True w1 = (lr, w2)" by fastforce
  have "trim_space ''gho'' = ''gho''" by (rule trim_space_graphic) (simp_all add: graphic_def less_char_def)
  then show ?thesis
    using sign_in_then_out [OF r _ _ l, of False False] s r by (simp add: fresh_gh_def no_files_def a_token_def)
qed

end
