(* ===== verification/ProjectRoutes.thy ===== *)
theory ProjectRoutes
  imports AtomicFile SeedRotation Registry StdioBridge
begin

text \<open>
  The routing ids of launched projects (\<open>internal/demo/routes.go\<close>) and the bridges that carry them
  (\<open>internal/demo/bridges.go\<close>): a ledger in memory with its file, which is replaced atomically
  when a route is minted, and the start of the configured bridges. Starting and closing one bridge
  is an argument here; the bridge itself has its own theory.
\<close>

section \<open>The ledger\<close>

type_synonym route_table = "(string, string) table"

text \<open>What a read of the file finds.\<close>

datatype ledger_read = No_Ledger | Unreadable_Ledger | Corrupt_Ledger | Ledger route_table

record project_routes =
  pr_routes :: route_table
  pr_file :: "route_table place"
  pr_faults :: "bool list"

datatype route_err =
    Ledger_Dir
  | Ledger_Unreadable
  | Ledger_Corrupt
  | Seed_Unreadable
  | Mint_Refused
  | Ledger_Not_Written

definition new_project_routes :: "bool \<Rightarrow> ledger_read \<Rightarrow> (route_err, route_table) res" where
  "new_project_routes mkdir found =
     (if \<not> mkdir then Inl Ledger_Dir
      else
        (case found of
           Ledger t \<Rightarrow> Inr t
         | Corrupt_Ledger \<Rightarrow> Inl Ledger_Corrupt
         | No_Ledger \<Rightarrow> Inr []
         | Unreadable_Ledger \<Rightarrow> Inl Ledger_Unreadable))"

definition save_routes :: "project_routes \<Rightarrow> bool \<times> project_routes" where
  "save_routes r =
     (let (ok, tr) = write_file_atomic Route_Ledger (pr_routes r) (pr_faults r) (pr_file r) in
      (ok, r\<lparr>pr_file := ends_in (pr_file r) tr, pr_faults := drop 4 (pr_faults r)\<rparr>))"

text \<open>The seed of a project: missing, refused by \<open>Load\<close>, or read.\<close>

datatype seed_read = No_Seed | Bad_Seed | Seed seed_file

definition seed_route :: "seed_read \<Rightarrow> (route_err, string option) res" where
  "seed_route s =
     (case s of No_Seed \<Rightarrow> Inr None | Bad_Seed \<Rightarrow> Inl Seed_Unreadable | Seed f \<Rightarrow> Inr (Some (route f)))"

text \<open>\<open>cwd\<close> is the working directory of the project, \<open>seed\<close> what its seed file holds, \<open>mint\<close> a fresh
  route or a failing random source. A name bound to the empty route counts as unbound.\<close>

definition route_for ::
    "string option \<Rightarrow> string \<Rightarrow> string \<Rightarrow> seed_read \<Rightarrow> string \<Rightarrow> project_routes \<Rightarrow> (route_err, string) res \<times> project_routes" where
  "route_for mint name cwd seed explicit r =
     (if explicit \<noteq> [] then (Inr explicit, r)
      else
        (case (if cwd \<noteq> [] then seed_route seed else Inr None) of
           Inl e \<Rightarrow> (Inl e, r)
         | Inr (Some x) \<Rightarrow> (Inr x, r)
         | Inr None \<Rightarrow>
             (case map_of (pr_routes r) name of
                Some (c # cs) \<Rightarrow> (Inr (c # cs), r)
              | _ \<Rightarrow>
                  (case mint of
                     None \<Rightarrow> (Inl Mint_Refused, r)
                   | Some m \<Rightarrow>
                       (let (ok, r') = save_routes (r\<lparr>pr_routes := AList.update name m (pr_routes r)\<rparr>) in
                        (if ok then Inr m else Inl Ledger_Not_Written, r'))))))"

section \<open>Bridges\<close>

definition project_route_env :: string where
  "project_route_env = ''LEZZ_PROJECT_ROUTE''"

definition with_env :: "(string, string) table \<Rightarrow> string \<Rightarrow> string \<Rightarrow> (string, string) table" where
  "with_env env k v = AList.update k v env"

record 'b running_bridge =
  rb_cfg :: bridge_config
  rb_bridge :: 'b
  rb_route :: string

datatype bridge_start_err = No_Route string route_err | No_Bridge string

text \<open>
  The bridges in order; the first failure closes those already started and reports. \<open>start\<close> starts
  one bridge or fails, and the third result is the list of bridges that were closed.
\<close>

fun start_bridges_from ::
    "(bridge_config \<Rightarrow> 'b option) \<Rightarrow> (string \<Rightarrow> string option) \<Rightarrow> (string \<Rightarrow> seed_read) \<Rightarrow> bridge_config list
     \<Rightarrow> 'b running_bridge list \<Rightarrow> project_routes \<Rightarrow> (bridge_start_err, 'b running_bridge list) res \<times> 'b running_bridge list \<times> project_routes" where
  "start_bridges_from start mint seeds [] out r = (Inr out, [], r)"
| "start_bridges_from start mint seeds (c # cs) out r =
     (case route_for (mint (bc_name c)) (bc_name c) (bc_cwd c) (seeds (bc_cwd c))
             (case map_of (bc_env c) project_route_env of None \<Rightarrow> [] | Some v \<Rightarrow> v) r of
        (Inl e, r') \<Rightarrow> (Inl (No_Route (bc_name c) e), out, r')
      | (Inr x, r') \<Rightarrow>
          (let c' = c\<lparr>bc_env := with_env (bc_env c) project_route_env x\<rparr> in
           case start c' of
             None \<Rightarrow> (Inl (No_Bridge (bc_name c)), out, r')
           | Some b \<Rightarrow>
               start_bridges_from start mint seeds cs (out @ [\<lparr>rb_cfg = c', rb_bridge = b, rb_route = x\<rparr>]) r'))"

definition bridge_projects :: "('b \<Rightarrow> string) \<Rightarrow> 'b running_bridge list \<Rightarrow> project_entry list" where
  "bridge_projects url bs =
     map (\<lambda>b. \<lparr>pe_route = rb_route b, pe_id = rb_route b, pe_name = bc_name (rb_cfg b),
       pe_repo = bc_repo (rb_cfg b), pe_mcp_url = url (rb_bridge b)\<rparr>) bs"

section \<open>Properties\<close>

text \<open>The memory agrees with the file, as after a load.\<close>

definition in_step :: "project_routes \<Rightarrow> bool" where
  "in_step r \<longleftrightarrow> map_option fst (at_target (pr_file r)) = (if pr_routes r = [] then None else Some (pr_routes r))
     \<or> map_option fst (at_target (pr_file r)) = Some (pr_routes r)"

definition found_in :: "project_routes \<Rightarrow> ledger_read" where
  "found_in r = (case at_target (pr_file r) of None \<Rightarrow> No_Ledger | Some (t, _) \<Rightarrow> Ledger t)"

lemma save_routes_ok:
  "save_routes r = (True, r') \<Longrightarrow> pr_routes r' = pr_routes r \<and> map_option fst (at_target (pr_file r')) = Some (pr_routes r)"
  using writer_success [of Route_Ledger "pr_routes r" "pr_faults r" "pr_file r"]
  by (auto simp: save_routes_def split: prod.splits)

text \<open>
  A project keeps its route. Whenever a project that declares none gets a route, the next start
  of lezz, which reads the ledger from the disk again, gives it the same route without minting,
  whatever its random source would give; the memory and the file agree again afterwards.
\<close>

theorem route_survives_restart:
  assumes "route_for mint name cwd No_Seed [] r = (Inr x, r')" "in_step r" "mint \<noteq> Some []"
  shows "\<exists>t. new_project_routes True (found_in r') = Inr t
    \<and> route_for mint' name cwd' No_Seed [] (r'\<lparr>pr_routes := t\<rparr>) = (Inr x, r'\<lparr>pr_routes := t\<rparr>)
    \<and> in_step r' \<and> x \<noteq> []"
proof -
  have s: "(if c \<noteq> [] then seed_route No_Seed else Inr None) = Inr None" for c :: string
    by (simp add: seed_route_def)
  show ?thesis
  proof (cases "\<exists>c cs. map_of (pr_routes r) name = Some (c # cs)")
    case True
    then have "x \<noteq> []" "r' = r" "map_of (pr_routes r) name = Some x" using assms(1) s by (auto simp: route_for_def)
    moreover from this have "pr_routes r \<noteq> []" by auto
    ultimately have f: "map_option fst (at_target (pr_file r)) = Some (pr_routes r)" using assms(2) by (auto simp: in_step_def)
    then have "found_in r = Ledger (pr_routes r)" by (auto simp: found_in_def)
    then show ?thesis
      using \<open>x \<noteq> []\<close> \<open>r' = r\<close> \<open>map_of (pr_routes r) name = Some x\<close> assms(2) s
      by (cases x) (auto simp: new_project_routes_def route_for_def)
  next
    case False
    then have "mint = Some x" "save_routes (r\<lparr>pr_routes := AList.update name x (pr_routes r)\<rparr>) = (True, r')"
      using assms(1) s by (auto simp: route_for_def split: option.splits list.splits prod.splits if_splits)
    then have w: "pr_routes r' = AList.update name x (pr_routes r)"
      "map_option fst (at_target (pr_file r')) = Some (AList.update name x (pr_routes r))" "x \<noteq> []"
      using save_routes_ok [of "r\<lparr>pr_routes := AList.update name x (pr_routes r)\<rparr>" r'] assms(3) by auto
    then have "found_in r' = Ledger (AList.update name x (pr_routes r))" "in_step r'"
      by (auto simp: found_in_def in_step_def)
    then show ?thesis using w(3) s by (cases x) (auto simp: new_project_routes_def route_for_def)
  qed
qed

definition new_routes :: project_routes where
  "new_routes = \<lparr>pr_routes = [], pr_file = \<lparr>at_target = None, at_temp = None\<rparr>, pr_faults = []\<rparr>"

theorem route_survives_restart_witness:
  "\<exists>t. new_project_routes True (found_in (snd (route_for (Some ''r1'') ''tuner'' [] No_Seed [] new_routes))) = Inr t
    \<and> map_of t ''tuner'' = Some ''r1''"
proof -
  obtain r' where r: "route_for (Some ''r1'') ''tuner'' [] No_Seed [] new_routes = (Inr ''r1'', r')"
    by (simp add: route_for_def new_routes_def save_routes_def write_file_atomic_def writer_steps_def routes_steps_def)
  have "in_step new_routes" by (simp add: in_step_def new_routes_def)
  with route_survives_restart [OF r] obtain t where t: "new_project_routes True (found_in r') = Inr t"
    "route_for None ''tuner'' [] No_Seed [] (r'\<lparr>pr_routes := t\<rparr>) = (Inr ''r1'', r'\<lparr>pr_routes := t\<rparr>)"
    by blast
  then have "map_of t ''tuner'' = Some ''r1''" by (auto simp: route_for_def split: option.splits list.splits)
  then show ?thesis using r t(1) by simp
qed

text \<open>
  A ledger that could not be written still changes the memory: the next question in the same
  process is answered with a route that was never written down, and the next start mints another.
\<close>

lemma unwritten_route_is_given_out:
  assumes "pr_faults r = [True]" "map_of (pr_routes r) name = None" "m \<noteq> []"
  shows "fst (route_for (Some m) name [] No_Seed [] r) = Inl Ledger_Not_Written
    \<and> fst (route_for None name [] No_Seed [] (snd (route_for (Some m) name [] No_Seed [] r))) = Inr m
    \<and> at_target (pr_file (snd (route_for (Some m) name [] No_Seed [] r))) = at_target (pr_file r)"
proof -
  have f: "fst (next_fault [True])" by (simp add: next_fault_def)
  show ?thesis
    using assms f
    by (cases m) (simp_all add: route_for_def save_routes_def write_file_atomic_def writer_steps_def routes_steps_def)
qed

text \<open>
  When a bridge does not come up, every bridge started before it is closed and none is
  reported; when all come up each runs under its configuration with exactly the route it is
  announced by, in the order of the configuration.
\<close>

theorem bridges_all_or_none:
  "case start_bridges_from start mint seeds cs out r of
     (Inl e, shut, r') \<Rightarrow> (\<exists>k < length cs. map (bc_name \<circ> rb_cfg) shut = map (bc_name \<circ> rb_cfg) out @ map bc_name (take k cs))
       \<and> take (length out) shut = out
   | (Inr bs, shut, r') \<Rightarrow> shut = [] \<and> take (length out) bs = out
       \<and> map (bc_name \<circ> rb_cfg) (drop (length out) bs) = map bc_name cs
       \<and> list_all (\<lambda>b. map_of (bc_env (rb_cfg b)) project_route_env = Some (rb_route b)
            \<and> start (rb_cfg b) = Some (rb_bridge b)) (drop (length out) bs)"
proof (induction cs arbitrary: out r)
  case Nil
  then show ?case by simp
next
  case (Cons c cs)
  let ?e = "case map_of (bc_env c) project_route_env of None \<Rightarrow> [] | Some v \<Rightarrow> v"
  obtain q r1 where q: "route_for (mint (bc_name c)) (bc_name c) (bc_cwd c) (seeds (bc_cwd c)) ?e r = (q, r1)" by fastforce
  show ?case
  proof (cases q)
    case (Inl e)
    then show ?thesis using q by (auto intro!: exI [where x = 0])
  next
    case (Inr x)
    let ?c = "c\<lparr>bc_env := with_env (bc_env c) project_route_env x\<rparr>"
    show ?thesis
    proof (cases "start ?c")
      case None
      then show ?thesis using q Inr by (auto intro!: exI [where x = 0])
    next
      case (Some b)
      let ?b = "\<lparr>rb_cfg = ?c, rb_bridge = b, rb_route = x\<rparr>"
      have go: "start_bridges_from start mint seeds (c # cs) out r = start_bridges_from start mint seeds cs (out @ [?b]) r1"
        using q Inr Some by simp
      obtain res shut r2 where res: "start_bridges_from start mint seeds cs (out @ [?b]) r1 = (res, shut, r2)"
        by (metis prod_cases3)
      note IH = Cons.IH [of "out @ [?b]" r1, unfolded res]
      show ?thesis
      proof (cases res)
        case (Inl e)
        then obtain k where k: "k < length cs"
          "map (bc_name \<circ> rb_cfg) shut = map (bc_name \<circ> rb_cfg) (out @ [?b]) @ map bc_name (take k cs)"
          "take (length (out @ [?b])) shut = out @ [?b]"
          using IH by auto
        have "take (length out) shut = take (length out) (take (length (out @ [?b])) shut)" by (simp add: min_def)
        also have "\<dots> = out" unfolding k(3) by simp
        finally have "take (length out) shut = out" .
        moreover have "map (bc_name \<circ> rb_cfg) shut = map (bc_name \<circ> rb_cfg) out @ map bc_name (take (Suc k) (c # cs))"
          using k(2) by simp
        ultimately show ?thesis
          unfolding go res Inl using k(1) by (auto intro!: exI [where x = "Suc k"])
      next
        case (Inr bs)
        then have h: "shut = []" "take (length (out @ [?b])) bs = out @ [?b]"
          "map (bc_name \<circ> rb_cfg) (drop (length (out @ [?b])) bs) = map bc_name cs"
          "list_all (\<lambda>b. map_of (bc_env (rb_cfg b)) project_route_env = Some (rb_route b)
            \<and> start (rb_cfg b) = Some (rb_bridge b)) (drop (length (out @ [?b])) bs)"
          using IH by auto
        have "bs = (out @ [?b]) @ drop (length (out @ [?b])) bs" using h(2) by (metis append_take_drop_id)
        then obtain rest where bs: "bs = out @ ?b # rest" "rest = drop (length (out @ [?b])) bs" by simp
        have parts: "take (length out) bs = out" "drop (length out) bs = ?b # rest" by (simp_all add: bs(1))
        have rest: "map (bc_name \<circ> rb_cfg) rest = map bc_name cs"
          "list_all (\<lambda>b. map_of (bc_env (rb_cfg b)) project_route_env = Some (rb_route b)
            \<and> start (rb_cfg b) = Some (rb_bridge b)) rest"
          using h(3,4) unfolding bs(2) by blast+
        show ?thesis
          unfolding go res Inr by (simp add: parts rest h(1) with_env_def Some [unfolded with_env_def])
      qed
    qed
  qed
qed

end
