(* ===== verification/SeaConfine.thy ===== *)
theory SeaConfine
  imports Paths
begin

text \<open>
  The confinement of the lezz.sea channel (\<open>internal/sea/validate.go\<close>): a path the app names is
  resolved under one root, and a derived alarm configuration is accepted when its three runtime
  paths are. The scan of the configuration is the line scan of the code, not a YAML parser, and the
  last section says what that scan does not see.
\<close>

section \<open>Relative paths\<close>

text \<open>\<open>filepath.Rel\<close> on two absolute paths, the only ones the binder gives it.\<close>

fun strip_common :: "string list \<Rightarrow> string list \<Rightarrow> string list \<times> string list" where
  "strip_common (b # bs) (t # ts) = (if b = t then strip_common bs ts else (b # bs, t # ts))"
| "strip_common bs ts = (bs, ts)"

definition rel_path :: "string \<Rightarrow> string \<Rightarrow> string" where
  "rel_path base targ =
     (if elements base = elements targ then ''.''
      else
        (let (bs, ts) = strip_common (elements base) (elements targ) in
         join ''/'' (replicate (length bs) ''..'' @ ts)))"

lemma strip_common_Nil: "fst (strip_common bs ts) = [] \<longleftrightarrow> (\<exists>es. ts = bs @ es)"
  by (induction bs ts rule: strip_common.induct) auto

lemma strip_common_prefix: "strip_common bs (bs @ es) = ([], es)"
  by (induction bs) (cases es; simp)+

lemma join_dotdot: "join ''/'' (''..'' # ws) = ''..'' \<or> has_prefix (join ''/'' (''..'' # ws)) ''../''"
  by (cases ws) (simp_all add: has_prefix_def)

lemma join_proper:
  assumes "list_all proper es" "''..'' \<notin> set es" "es \<noteq> []"
  shows "join ''/'' es \<noteq> ''..'' \<and> \<not> has_prefix (join ''/'' es) ''../''"
proof -
  obtain e r where e: "es = e # r" using assms(3) by (cases es) auto
  have p: "proper e" "e \<noteq> ''..''" using assms e by auto
  have s: "split_at (CHR ''/'') (join ''/'' es) = es"
    by (rule split_join [OF assms(3)]) (use assms(1) in \<open>auto simp: list_all_iff proper_def\<close>)
  have "join ''/'' es \<noteq> ''..''"
  proof
    assume "join ''/'' es = ''..''"
    then have "split_at (CHR ''/'') ''..'' = es" using s by simp
    then show False using assms(2) by auto
  qed
  moreover have "\<not> has_prefix (join ''/'' es) ''../''"
  proof
    assume "has_prefix (join ''/'' es) ''../''"
    then obtain t where t: "join ''/'' es = ''../'' @ t" by (auto simp: has_prefix_iff)
    have "split_at (CHR ''/'') (''..'' @ CHR ''/'' # t) = ''..'' # split_at (CHR ''/'') t"
      by (rule split_at_append) simp
    then have "es = ''..'' # split_at (CHR ''/'') t" using s t by simp
    then show False using assms(2) by auto
  qed
  ultimately show ?thesis by simp
qed

text \<open>\<open>within root p\<close>: the elements of \<open>p\<close> start with those of the root.\<close>

definition within :: "string \<Rightarrow> string \<Rightarrow> bool" where
  "within root p \<longleftrightarrow> take (length (elements root)) (elements p) = elements root"

lemma within_iff: "within root p \<longleftrightarrow> (\<exists>es. elements p = elements root @ es)"
  unfolding within_def by (metis append_eq_conv_conj append_take_drop_id)

definition leaves_root :: "string \<Rightarrow> bool" where
  "leaves_root rel \<longleftrightarrow> rel = ''..'' \<or> has_prefix rel ''../''"

lemma leaves_root_rel:
  assumes "is_abs p"
  shows "leaves_root (rel_path root p) \<longleftrightarrow> \<not> within root p"
proof (cases "elements root = elements p")
  case True
  then show ?thesis by (simp add: rel_path_def leaves_root_def within_def has_prefix_def)
next
  case False
  obtain bs ts where st: "strip_common (elements root) (elements p) = (bs, ts)" by fastforce
  show ?thesis
  proof (cases "bs = []")
    case True
    then have w: "within root p" using strip_common_Nil [of "elements root" "elements p"] st by (simp add: within_iff)
    then obtain es where es: "elements p = elements root @ es" by (auto simp: within_iff)
    then have "ts = es" using st strip_common_prefix [of "elements root" es] by simp
    moreover have "es \<noteq> []" "list_all proper es" "''..'' \<notin> set es"
      using False es elements_proper [of p] elements_abs_no_dotdot [OF assms] by auto
    ultimately show ?thesis
      using w join_proper [of es] False st True by (simp add: rel_path_def leaves_root_def)
  next
    case bs: False
    then have "\<not> within root p" using strip_common_Nil [of "elements root" "elements p"] st by (auto simp: within_iff)
    moreover have "leaves_root (rel_path root p)"
      using False st bs join_dotdot [of "replicate (length bs - 1) ''..'' @ ts"]
      by (cases bs) (simp_all add: rel_path_def leaves_root_def)
    ultimately show ?thesis by simp
  qed
qed

section \<open>The binder\<close>

datatype bind_err =
    Root_Required
  | Not_Resolved string
  | Empty_Path
  | Outside_Root string
  | Wrong_Extension string string
  | No_Config string
  | Config_Too_Large string
  | Config_Unread string
  | Path_Not_Absolute string string
  | Path_Refused string bind_err
  | Names_The_Root string
  | Not_Declared string

definition new_binder :: "string option \<Rightarrow> string \<Rightarrow> (bind_err, string) res" where
  "new_binder cwd root =
     (if root = [] then Inl Root_Required
      else (case abs_path cwd root of None \<Rightarrow> Inl (Not_Resolved root) | Some a \<Rightarrow> Inr (clean_path a)))"

definition binder_path :: "string option \<Rightarrow> string \<Rightarrow> string \<Rightarrow> string \<Rightarrow> (bind_err, string) res" where
  "binder_path cwd root raw ext =
     (if trim_space raw = [] then Inl Empty_Path
      else
        (case abs_path cwd raw of
           None \<Rightarrow> Inl (Not_Resolved raw)
         | Some a \<Rightarrow>
             (let p = clean_path a; rel = rel_path root p in
              if rel = ''..'' \<or> has_prefix rel ''../'' then Inl (Outside_Root p)
              else if ext \<noteq> [] \<and> \<not> has_suffix (lower p) ext then Inl (Wrong_Extension p ext)
              else Inr p)))"

definition runtime_keys :: "string list" where
  "runtime_keys = [''state_dir'', ''lock_file'', ''baseline_file'']"

definition trim_quotes :: "string \<Rightarrow> string" where
  "trim_quotes s = rev (dropWhile (\<lambda>c. c = CHR 0x22) (rev (dropWhile (\<lambda>c. c = CHR 0x22) s)))"

definition runtime_path :: "string \<Rightarrow> (string \<times> string) option" where
  "runtime_path l =
     (let t = trim_space l in
      if t = [] \<or> has_prefix t ''#'' then None
      else
        (case cut_at (CHR '':'') t of
           None \<Rightarrow> None
         | Some (key, rest) \<Rightarrow>
             if key = [] \<or> key \<notin> set runtime_keys then None
             else
               (let v = trim_space rest;
                    w = (case cut_at (CHR ''#'') v of None \<Rightarrow> v | Some (x, _) \<Rightarrow> trim_space x);
                    value = trim_quotes w in
                if value = [] then None else Some (key, value))))"

text \<open>What \<open>os.Stat\<close> and \<open>os.ReadFile\<close> find under a path.\<close>

datatype config_look = Absent_Config | Unread_Config nat | Config_Text string

fun scan_config :: "string option \<Rightarrow> string \<Rightarrow> string list \<Rightarrow> string list \<Rightarrow> (bind_err, string list) res" where
  "scan_config cwd root seen [] = Inr seen"
| "scan_config cwd root seen (l # ls) =
     (case runtime_path l of
        None \<Rightarrow> scan_config cwd root seen ls
      | Some (key, value) \<Rightarrow>
          if \<not> is_abs value then Inl (Path_Not_Absolute key value)
          else
            (case binder_path cwd root value [] of
               Inl e \<Rightarrow> Inl (Path_Refused key e)
             | Inr p \<Rightarrow>
                 if p = root then Inl (Names_The_Root key) else scan_config cwd root (key # seen) ls))"

definition binder_config :: "string option \<Rightarrow> string \<Rightarrow> (string \<Rightarrow> config_look) \<Rightarrow> string \<Rightarrow> (bind_err, string) res" where
  "binder_config cwd root look raw =
     and_then (binder_path cwd root raw ''.yaml'') (\<lambda>p.
       (case look p of
          Absent_Config \<Rightarrow> Inl (No_Config p)
        | Unread_Config n \<Rightarrow> if n > 2 ^ 20 then Inl (Config_Too_Large p) else Inl (Config_Unread p)
        | Config_Text text \<Rightarrow>
            if length text > 2 ^ 20 then Inl (Config_Too_Large p)
            else
              and_then (scan_config cwd root [] (lines text)) (\<lambda>seen.
                (case filter (\<lambda>k. k \<notin> set seen) runtime_keys of
                   [] \<Rightarrow> Inr p
                 | k # _ \<Rightarrow> Inl (Not_Declared k)))))"

section \<open>Properties\<close>

lemma abs_path_abs:
  assumes "abs_path cwd p = Some a" "\<And>w. cwd = Some w \<Longrightarrow> is_abs w"
  shows "is_abs a \<and> clean_path a = a"
proof (cases "is_abs p")
  case True
  then have "a = clean_path p" "is_abs (clean_path p)" using assms(1) by (auto simp: abs_path_def clean_path_def Let_def)
  then show ?thesis using clean_path_idem_abs [OF True] by simp
next
  case False
  then obtain w where w: "cwd = Some w" "a = join_path [w, p]" using assms(1) by (auto simp: abs_path_def)
  then have "is_abs w" using assms(2) by simp
  then obtain c where c: "w = CHR ''/'' # c" by (auto simp: is_abs_def)
  have "a = clean_path (join ''/'' [w, p])" by (simp add: w(2) join_path_def c)
  then show ?thesis using clean_path_idem_abs [of "join ''/'' [w, p]"] c by (auto simp: clean_path_def Let_def)
qed

text \<open>Exactly the paths under the root with the wanted extension pass.\<close>

lemma binder_path_Inr:
  assumes "\<And>w. cwd = Some w \<Longrightarrow> is_abs w"
  shows "binder_path cwd root raw ext = Inr p \<longleftrightarrow>
    trim_space raw \<noteq> [] \<and> abs_path cwd raw = Some p \<and> within root p \<and> (ext = [] \<or> has_suffix (lower p) ext)"
proof (cases "abs_path cwd raw")
  case None
  then show ?thesis by (simp add: binder_path_def)
next
  case (Some a)
  note a = abs_path_abs [OF Some assms]
  show ?thesis
    using leaves_root_rel [of a root] a by (auto simp: binder_path_def Some Let_def leaves_root_def)
qed

text \<open>The keys and values the scan sees.\<close>

definition declared :: "string \<Rightarrow> (string \<times> string) list" where
  "declared text = List.map_filter runtime_path (lines text)"

definition below :: "string \<Rightarrow> string \<Rightarrow> bool" where
  "below root v \<longleftrightarrow> is_abs v \<and> within root (clean_path v) \<and> clean_path v \<noteq> root"

lemma scan_config_Inr:
  assumes cwd: "\<And>w. cwd = Some w \<Longrightarrow> is_abs w"
  shows "scan_config cwd root seen ls = Inr ks \<Longrightarrow>
    list_all (below root \<circ> snd) (List.map_filter runtime_path ls)
    \<and> set ks = set seen \<union> fst ` set (List.map_filter runtime_path ls)"
proof (induction ls arbitrary: seen)
  case Nil
  then show ?case by (simp add: List.map_filter_simps)
next
  case (Cons m ls)
  show ?case
  proof (cases "runtime_path m")
    case None
    then show ?thesis using Cons.IH [of seen] Cons.prems by (simp add: List.map_filter_simps)
  next
    case (Some kv)
    obtain k' v' where kv: "kv = (k', v')" by fastforce
    have abs: "is_abs v'" using Cons.prems Some kv by (simp split: if_splits)
    then have ap: "abs_path cwd v' = Some (clean_path v')" by (simp add: abs_path_def)
    obtain p where p: "binder_path cwd root v' [] = Inr p" "p \<noteq> root" "scan_config cwd root (k' # seen) ls = Inr ks"
      using Cons.prems Some kv abs by (auto split: sum.splits if_splits)
    have "below root v'"
      using p(1,2) ap abs by (auto simp: binder_path_Inr [OF cwd] below_def)
    then show ?thesis
      using Cons.IH [OF p(3)] Some kv by (simp add: List.map_filter_simps)
  qed
qed

lemma binder_config_Inr:
  "binder_config cwd root look raw = Inr p \<longleftrightarrow>
     binder_path cwd root raw ''.yaml'' = Inr p
     \<and> (\<exists>body seen. look p = Config_Text body \<and> length body \<le> 2 ^ 20
          \<and> scan_config cwd root [] (lines body) = Inr seen \<and> set runtime_keys \<subseteq> set seen)"
proof (cases "binder_path cwd root raw ''.yaml''")
  case (Inr q)
  have keys: "filter (\<lambda>k. k \<notin> set seen) runtime_keys = [] \<longleftrightarrow> set runtime_keys \<subseteq> set seen" for seen
    by (auto simp: filter_empty_conv)
  show ?thesis
  proof (cases "look q")
    case (Config_Text body)
    show ?thesis
      using Inr Config_Text
      by (cases "scan_config cwd root [] (lines body)")
        (auto simp: binder_config_def not_less keys [symmetric] split: list.split)
  qed (auto simp: binder_config_def Inr)
qed (simp add: binder_config_def)

text \<open>
  An accepted configuration is a \<open>.yaml\<close> file under the root of at most 1 MiB, the three
  runtime paths are declared in it, and every path the scan takes for one is absolute and strictly
  below the root.
\<close>

theorem accepted_config_confined:
  assumes "binder_config cwd root look raw = Inr p" "\<And>w. cwd = Some w \<Longrightarrow> is_abs w"
  shows "within root p \<and> has_suffix (lower p) ''.yaml''
    \<and> (\<exists>body. look p = Config_Text body \<and> length body \<le> 2 ^ 20
        \<and> list_all (below root \<circ> snd) (declared body) \<and> set runtime_keys \<subseteq> fst ` set (declared body))"
proof -
  obtain body seen where t: "look p = Config_Text body" "length body \<le> 2 ^ 20"
      "scan_config cwd root [] (lines body) = Inr seen" "set runtime_keys \<subseteq> set seen"
    and p: "binder_path cwd root raw ''.yaml'' = Inr p"
    using assms(1) by (auto simp: binder_config_Inr)
  show ?thesis
    using p t scan_config_Inr [OF assms(2) t(3)] by (auto simp: binder_path_Inr [OF assms(2)] declared_def)
qed

definition sample_config :: string where
  "sample_config =
     join [CHR 0x0A] [''state_dir: /r/s'', ''  lock_file: '' @ [CHR 0x22] @ ''/r/l'' @ [CHR 0x22], ''baseline_file: /r/b # kept'']"

definition sample_look :: "string \<Rightarrow> config_look" where
  "sample_look p = (if p = ''/r/c.yaml'' then Config_Text sample_config else Absent_Config)"

theorem accepted_config_confined_witness:
  "binder_config (Some ''/w'') ''/r'' sample_look ''/r/x/../c.yaml'' = Inr ''/r/c.yaml''
    \<and> within ''/r'' ''/r/c.yaml'' \<and> has_suffix (lower ''/r/c.yaml'') ''.yaml''"
proof -
  have "binder_config (Some ''/w'') ''/r'' sample_look ''/r/x/../c.yaml'' = Inr ''/r/c.yaml''"
  proof -
    have "scan_config (Some ''/w'') ''/r'' [] (lines sample_config) = Inr [''baseline_file'', ''lock_file'', ''state_dir'']"
      by code_simp
    moreover have "binder_path (Some ''/w'') ''/r'' ''/r/x/../c.yaml'' ''.yaml'' = Inr ''/r/c.yaml''" by code_simp
    moreover have "length sample_config \<le> 2 ^ 20" by (simp add: sample_config_def)
    ultimately show ?thesis by (simp add: binder_config_Inr sample_look_def runtime_keys_def)
  qed
  then show ?thesis using accepted_config_confined [of "Some ''/w''" "''/r''" sample_look] by simp
qed

section \<open>What the scan does not see\<close>

text \<open>
  Two spellings YAML reads as a runtime path and the scan does not: a quoted key, and a value that
  goes on after a \<open>#\<close> inside its quotes.
\<close>

lemma quoted_key_unseen:
  "runtime_path ([CHR 0x22] @ ''state_dir'' @ [CHR 0x22] @ '': /etc'') = None"
  by code_simp

lemma hash_hides_the_rest:
  "runtime_path (''state_dir: '' @ [CHR 0x22] @ ''/r/a#/../../etc'' @ [CHR 0x22]) = Some (''state_dir'', ''/r/a'')
    \<and> \<not> within ''/r'' (clean_path ''/r/a#/../../etc'')"
  by code_simp

end
