(* ===== verification/GoText.thy ===== *)
theory GoText
  imports GoBase
begin

text \<open>
  Quoted texts of the Go library: \<open>strconv.Quote\<close> (and \<open>%q\<close>) and its inverse, and the strings of
  \<open>encoding/json\<close>. Bytes from 0x80 on are kept, which is what both do to printable text in UTF-8.
\<close>

section \<open>Quoting\<close>

definition hex_digit :: "nat \<Rightarrow> char" where
  "hex_digit n = (if n < 10 then char_of (48 + n) else char_of (87 + n))"

definition quote_char :: "char \<Rightarrow> string" where
  "quote_char c =
     (let n = of_char c :: nat in
      if n = 34 \<or> n = 92 then [CHR 0x5C, c]
      else if n = 7 then [CHR 0x5C, CHR ''a''] else if n = 8 then [CHR 0x5C, CHR ''b'']
      else if n = 12 then [CHR 0x5C, CHR ''f''] else if n = 10 then [CHR 0x5C, CHR ''n'']
      else if n = 13 then [CHR 0x5C, CHR ''r''] else if n = 9 then [CHR 0x5C, CHR ''t'']
      else if n = 11 then [CHR 0x5C, CHR ''v'']
      else if n < 32 \<or> n = 127 then [CHR 0x5C, CHR ''x'', hex_digit (n div 16), hex_digit (n mod 16)]
      else [c])"

definition go_quote :: "string \<Rightarrow> string" where
  "go_quote s = [CHR 0x22] @ concat (map quote_char s) @ [CHR 0x22]"

text \<open>\<open>json.Marshal\<close> of a string; it escapes the characters of HTML too.\<close>

definition json_char :: "char \<Rightarrow> string" where
  "json_char c =
     (let n = of_char c :: nat in
      if n = 34 \<or> n = 92 then [CHR 0x5C, c]
      else if n = 8 then [CHR 0x5C, CHR ''b''] else if n = 12 then [CHR 0x5C, CHR ''f'']
      else if n = 10 then [CHR 0x5C, CHR ''n''] else if n = 13 then [CHR 0x5C, CHR ''r'']
      else if n = 9 then [CHR 0x5C, CHR ''t'']
      else if n < 32 \<or> n \<in> {60, 62, 38} then
        [CHR 0x5C] @ ''u00'' @ [hex_digit (n div 16), hex_digit (n mod 16)]
      else [c])"

definition json_string :: "string \<Rightarrow> string" where
  "json_string s = [CHR 0x22] @ concat (map json_char s) @ [CHR 0x22]"

section \<open>Unquoting\<close>

definition hex_val :: "char \<Rightarrow> nat option" where
  "hex_val c =
     (let n = of_char c :: nat in
      if 48 \<le> n \<and> n \<le> 57 then Some (n - 48)
      else if 97 \<le> n \<and> n \<le> 102 then Some (n - 87)
      else if 65 \<le> n \<and> n \<le> 70 then Some (n - 55)
      else None)"

fun number_in :: "(char \<Rightarrow> nat option) \<Rightarrow> nat \<Rightarrow> nat \<Rightarrow> string \<Rightarrow> nat option" where
  "number_in val base acc [] = Some acc"
| "number_in val base acc (c # cs) =
     (case val c of None \<Rightarrow> None | Some d \<Rightarrow> number_in val base (acc * base + d) cs)"

definition oct_val :: "char \<Rightarrow> nat option" where
  "oct_val c = (case digit_val c of Some d \<Rightarrow> if d < 8 then Some d else None | None \<Rightarrow> None)"

definition utf8 :: "nat \<Rightarrow> string" where
  "utf8 n =
     (if n < 128 then [char_of n]
      else if n < 2048 then [char_of (192 + n div 64), char_of (128 + n mod 64)]
      else if n < 65536 then [char_of (224 + n div 4096), char_of (128 + n div 64 mod 64), char_of (128 + n mod 64)]
      else [char_of (240 + n div 262144), char_of (128 + n div 4096 mod 64), char_of (128 + n div 64 mod 64), char_of (128 + n mod 64)])"

definition valid_rune :: "nat \<Rightarrow> bool" where
  "valid_rune n \<longleftrightarrow> n < 55296 \<or> 57343 < n \<and> n \<le> 1114111"

text \<open>One escape, after its backslash: the bytes it stands for and the rest.\<close>

definition escape_digits :: "nat \<Rightarrow> string \<Rightarrow> (nat \<times> string) option" where
  "escape_digits k r =
     (if length r < k then None else map_option (\<lambda>n. (n, drop k r)) (number_in hex_val 16 0 (take k r)))"

definition escape :: "string \<Rightarrow> (string \<times> string) option" where
  "escape s =
     (case s of
        [] \<Rightarrow> None
      | e # r \<Rightarrow>
          (let rune = (\<lambda>k. case escape_digits k r of
                 Some (n, t) \<Rightarrow> if valid_rune n then Some (utf8 n, t) else None | None \<Rightarrow> None);
               byte = (\<lambda>n. Some ([char_of (n :: nat)], r)) in
           if e = CHR ''a'' then byte 7 else if e = CHR ''b'' then byte 8 else if e = CHR ''f'' then byte 12
           else if e = CHR ''n'' then byte 10 else if e = CHR ''r'' then byte 13 else if e = CHR ''t'' then byte 9
           else if e = CHR ''v'' then byte 11
           else if e = CHR 0x5C \<or> e = CHR 0x22 then Some ([e], r)
           else if e = CHR ''x'' then map_option (\<lambda>(n, t). ([char_of n], t)) (escape_digits 2 r)
           else if e = CHR ''u'' then rune 4
           else if e = CHR ''U'' then rune 8
           else if oct_val e \<noteq> None then
             (case number_in oct_val 8 0 (take 3 s) of
                Some n \<Rightarrow> if length s < 3 \<or> 255 < n then None else Some ([char_of n], drop 3 s)
              | None \<Rightarrow> None)
           else None))"

lemma escape_shorter: "escape s = Some (b, t) \<Longrightarrow> length t < length s"
  by (auto simp: escape_def escape_digits_def Let_def split: list.splits if_splits option.splits)

function unescape :: "string \<Rightarrow> string option" where
  "unescape s =
     (case s of
        [] \<Rightarrow> Some []
      | c # r \<Rightarrow>
          if c = CHR 0x22 \<or> c = CHR 0x0A then None
          else if c \<noteq> CHR 0x5C then map_option (\<lambda>t. c # t) (unescape r)
          else (case escape r of None \<Rightarrow> None | Some (b, t) \<Rightarrow> map_option (\<lambda>u. b @ u) (unescape t)))"
  by pat_completeness auto
termination
  by (relation "measure length") (auto dest: escape_shorter)

declare unescape.simps [simp del]

text \<open>\<open>strconv.Unquote\<close> of a text in double quotes.\<close>

definition go_unquote :: "string \<Rightarrow> string option" where
  "go_unquote s =
     (if 2 \<le> length s \<and> hd s = CHR 0x22 \<and> last s = CHR 0x22 then unescape (butlast (tl s)) else None)"

section \<open>Properties\<close>

lemma go_unescape_plain: "c \<notin> {CHR 0x22, CHR 0x0A, CHR 0x5C} \<Longrightarrow> unescape (c # r) = map_option (\<lambda>t. c # t) (unescape r)"
  by (subst unescape.simps) simp

lemma unescape_escape: "escape r = Some (b, t) \<Longrightarrow> unescape (CHR 0x5C # r) = map_option (\<lambda>u. b @ u) (unescape t)"
  by (subst unescape.simps) simp

lemma hex_val_digit: "n < 16 \<Longrightarrow> hex_val (hex_digit n) = Some n"
proof -
  assume "n < 16"
  then consider "n < 10" | "10 \<le> n" "n < 16" by linarith
  then show ?thesis by cases (simp_all add: hex_val_def hex_digit_def)
qed

lemma escape_hex: "n < 256 \<Longrightarrow> escape (CHR ''x'' # hex_digit (n div 16) # hex_digit (n mod 16) # r) = Some ([char_of n], r)"
  by (simp add: escape_def escape_digits_def Let_def hex_val_digit)

lemma unescape_quote_char: "unescape (quote_char c @ r) = map_option (\<lambda>t. c # t) (unescape r)"
proof -
  define n where "n = (of_char c :: nat)"
  have c: "c = char_of n" by (simp add: n_def)
  have "n < 256" by (simp add: n_def)
  consider "n = 34" | "n = 92" | "n = 7" | "n = 8" | "n = 12" | "n = 10" | "n = 13" | "n = 9" | "n = 11"
    | (hex) "n \<notin> {34, 92, 7, 8, 12, 10, 13, 9, 11}" "n < 32 \<or> n = 127"
    | (plain) "n \<notin> {34, 92, 10}" "\<not> n < 32" "n \<noteq> 127"
    by auto
  moreover have "char_of (34 :: nat) = CHR 0x22" "char_of (92 :: nat) = CHR 0x5C" by (rule char_of_lit, simp)+
  note two = this
  ultimately show ?thesis
  proof cases
    case hex
    have "quote_char c = [CHR 0x5C, CHR ''x'', hex_digit (n div 16), hex_digit (n mod 16)]"
      using hex by (simp add: quote_char_def n_def [symmetric])
    then show ?thesis using escape_hex [OF \<open>n < 256\<close>] by (simp add: unescape_escape c)
  next
    case plain
    then have "quote_char c = [c]" by (simp add: quote_char_def n_def [symmetric])
    moreover have "c \<notin> {CHR 0x22, CHR 0x0A, CHR 0x5C}" using plain n_def by auto
    ultimately show ?thesis by (simp add: go_unescape_plain)
  qed (simp_all add: quote_char_def n_def [symmetric] c escape_def Let_def unescape_escape two)
qed

text \<open>Quoting loses nothing.\<close>

lemma unquote_quote: "go_unquote (go_quote s) = Some s"
proof -
  have "unescape (concat (map quote_char s)) = Some s"
    by (induction s) (simp_all add: unescape_quote_char, subst unescape.simps, simp)
  then show ?thesis by (simp add: go_unquote_def go_quote_def butlast_append)
qed

end
