(* ===== verification/SeaLab.thy ===== *)
theory SeaLab
  imports SeaConfine GoText
begin

text \<open>
  The supervisor of \<open>lezz sea run\<close> (\<open>internal/sea/supervisor.go\<close>, \<open>hub.go\<close> and \<open>protocol.go\<close>): the
  messages of the channel, the allocation of ports, the session hub, the requests to start, pair
  and stop a lab, and the run from the start of the hub to the last signal. The world holds what
  the supervisor owns; a \<open>sea_env\<close> holds the answers of the machine while one message is handled.
\<close>

section \<open>Messages\<close>

record sea_hub =
  hb_endpoint :: string
  hb_port :: int
  hb_config_path :: string
  hb_pid_path :: string

record sea_member =
  mb_name :: string
  mb_config :: string

record sea_adhd =
  ad_endpoint :: string
  ad_port :: int
  ad_config_path :: string
  ad_pid_path :: string
  ad_hub_endpoint :: string

text \<open>The errors of a reply; the code sends their text.\<close>

datatype sea_err =
    Unsupported_Version int
  | Unknown_Request string
  | Not_A_Slug string
  | No_Members
  | Too_Many_Members
  | Tool_Missing string
  | Not_Made string
  | No_Config_Text string
  | Not_Written string
  | Not_Read string
  | Config_Refused bind_err
  | Log_Closed string
  | Not_Startable string
  | Slug_Required
  | Bad_Port_Count
  | Bad_Health_Port int
  | Gherkin_Relative
  | No_Port_Free int int
  | Hub_Stays
  | Not_Stopped "sea_err list"
  | Ops_Stop_Failed string
  | Names_Another string string
  | Pid_Not_Stopped int
  | No_Such_Lab string
  | Not_Revealed

record sea_message =
  ms_v :: int
  ms_type :: string
  ms_id :: string
  ms_clusters_root :: string
  ms_version :: string
  ms_build :: string
  ms_want :: string
  ms_cluster :: string
  ms_members :: "sea_member list"
  ms_slug :: string
  ms_health_ports :: "int list"
  ms_gherkin :: string
  ms_ok :: "bool option"
  ms_error :: "sea_err option"
  ms_adhd :: "sea_adhd option"
  ms_hub :: "sea_hub option"

definition protocol_version :: int where
  "protocol_version = 1"

definition no_message :: sea_message where
  "no_message =
     \<lparr>ms_v = 0, ms_type = [], ms_id = [], ms_clusters_root = [], ms_version = [], ms_build = [],
      ms_want = [], ms_cluster = [], ms_members = [], ms_slug = [], ms_health_ports = [],
      ms_gherkin = [], ms_ok = None, ms_error = None, ms_adhd = None, ms_hub = None\<rparr>"

definition reply_ok :: "string \<Rightarrow> sea_message" where
  "reply_ok i = no_message\<lparr>ms_v := protocol_version, ms_type := ''reply'', ms_id := i, ms_ok := Some True\<rparr>"

definition reply_error :: "string \<Rightarrow> sea_err \<Rightarrow> sea_message" where
  "reply_error i e =
     no_message\<lparr>ms_v := protocol_version, ms_type := ''reply'', ms_id := i, ms_ok := Some False, ms_error := Some e\<rparr>"

text \<open>
  The lines of the app that become messages; \<open>decode\<close> is the JSON decoder. The scanner's buffer
  holds \<open>2 ^ 20\<close> bytes, and a longer line ends the reading.
\<close>

definition read_loop :: "(string \<Rightarrow> sea_message option) \<Rightarrow> string list \<Rightarrow> sea_message list" where
  "read_loop decode ls =
     List.map_filter (\<lambda>l. let t = trim_space l in if t = [] then None else decode t)
       (takeWhile (\<lambda>l. length l < 2 ^ 20) ls)"

section \<open>The machine and the world\<close>

record sea_env =
  le_tool :: "string \<Rightarrow> string option"          \<comment> \<open>where a tool is found\<close>
  le_free :: "int \<Rightarrow> bool"                      \<comment> \<open>ports that can be bound on loopback\<close>
  le_pid :: "nat \<Rightarrow> int"                        \<comment> \<open>process id of the n-th command started\<close>
  le_ops_stop :: "string \<Rightarrow> string \<Rightarrow> bool"      \<comment> \<open>outcome of \<open><alarm> ops stop -pid-file <path>\<close>\<close>
  le_process_name :: "int \<Rightarrow> string"            \<comment> \<open>\<open>ps -o comm=\<close>\<close>
  le_terminate :: "int \<Rightarrow> bool"                 \<comment> \<open>whether a process id can be signalled\<close>
  le_exists :: "string \<Rightarrow> bool"                 \<comment> \<open>\<open>os.Stat\<close> of a directory\<close>
  le_open :: "string \<Rightarrow> bool"                   \<comment> \<open>\<open>open -R\<close>\<close>

datatype child_kind = Hub_Child | Alarm_Child | Adhd_Child

record sea_child =
  ch_proc :: nat
  ch_cluster :: string
  ch_pid_path :: string
  ch_kind :: child_kind

text \<open>
  A process is named by its number in \<open>lw_commands\<close>, the commands started so far;
  \<open>lw_signalled\<close> are the processes whose group got SIGTERM, in order, and \<open>lw_pids\<close> the foreign
  process ids that did.
\<close>

record sea_world =
  lw_root :: string
  lw_files :: "(string, string) table"
  lw_children :: "(string, sea_child) table"
  lw_used :: "int list"
  lw_hub :: "sea_hub option"
  lw_lost :: bool
  lw_commands :: "string list list"
  lw_signalled :: "nat list"
  lw_pids :: "int list"
  lw_sent :: "sea_message list"
  lw_faults :: "bool list"

definition sea_try :: "'e \<Rightarrow> sea_world \<Rightarrow> ('e, unit) res \<times> sea_world" where
  "sea_try e w =
     (let (bad, fs) = next_fault (lw_faults w) in
      (if bad then Inl e else Inr (), w\<lparr>lw_faults := fs\<rparr>))"

text \<open>\<open>os.WriteFile\<close>: the open may fail, or the write after it, which leaves the file cut off.\<close>

definition put_file :: "string \<Rightarrow> string \<Rightarrow> sea_world \<Rightarrow> sea_world" where
  "put_file p c w = w\<lparr>lw_files := AList.update p c (lw_files w)\<rparr>"

definition drop_file :: "string \<Rightarrow> sea_world \<Rightarrow> sea_world" where
  "drop_file p w = w\<lparr>lw_files := AList.delete p (lw_files w)\<rparr>"

definition sea_write :: "string \<Rightarrow> string \<Rightarrow> sea_world \<Rightarrow> (sea_err, unit) res \<times> sea_world" where
  "sea_write p c w =
     next_do (sea_try (Not_Written p) w) (\<lambda>_ w1.
     next_do (sea_try (Not_Written p) (put_file p [] w1)) (\<lambda>_ w2.
       (Inr (), put_file p c w2)))"

definition start_command :: "string \<Rightarrow> string list \<Rightarrow> string \<Rightarrow> sea_world \<Rightarrow> (sea_err, nat) res \<times> sea_world" where
  "start_command binary args log w =
     next_do (sea_try (Log_Closed log) w) (\<lambda>_ w1.
     next_do (sea_try (Not_Startable binary) w1) (\<lambda>_ w2.
       (Inr (length (lw_commands w2)), w2\<lparr>lw_commands := lw_commands w2 @ [binary # args]\<rparr>)))"

definition terminate_group :: "nat \<Rightarrow> sea_world \<Rightarrow> sea_world" where
  "terminate_group n w = w\<lparr>lw_signalled := lw_signalled w @ [n]\<rparr>"

definition add_child :: "sea_child \<Rightarrow> sea_world \<Rightarrow> sea_world" where
  "add_child c w = w\<lparr>lw_children := AList.update (ch_pid_path c) c (lw_children w)\<rparr>"

definition del_child :: "string \<Rightarrow> sea_world \<Rightarrow> sea_world" where
  "del_child p w = w\<lparr>lw_children := AList.delete p (lw_children w)\<rparr>"

text \<open>\<open>childEnv\<close>: the environment of every command, with Homebrew's directories first.\<close>

definition child_env :: "string list \<Rightarrow> string \<Rightarrow> string list" where
  "child_env environ path =
     filter (\<lambda>x. \<not> has_prefix x ''PATH='') environ
     @ [''PATH=/opt/homebrew/bin:/usr/local/bin:''
          @ (if path = [] then ''/usr/bin:/bin:/usr/sbin:/sbin'' else path)]"

definition slug_char :: "char \<Rightarrow> bool" where
  "slug_char c \<longleftrightarrow> is_alnum c \<or> c = CHR ''-'' \<or> c = CHR ''_'' \<or> c = CHR ''.''"

definition safe_name :: "string \<Rightarrow> bool" where
  "safe_name n \<longleftrightarrow> n \<notin> {[], ''.'', ''..''} \<and> list_all slug_char n"

section \<open>Ports\<close>

definition hub_slug :: string where "hub_slug = ''hub''"
definition hub_preferred_port :: int where "hub_preferred_port = 9090"
definition hub_channel_light :: string where "hub_channel_light = ''lezz.sea''"
definition cluster_port_low :: int where "cluster_port_low = 9190"
definition cluster_port_high :: int where "cluster_port_high = 9289"

definition acquire :: "(int \<Rightarrow> bool) \<Rightarrow> int \<Rightarrow> sea_world \<Rightarrow> (sea_err, int) res \<times> sea_world" where
  "acquire free preferred w =
     (if 1 \<le> preferred \<and> preferred \<le> 65535 \<and> preferred \<notin> set (lw_used w) \<and> free preferred
      then (Inr preferred, w\<lparr>lw_used := preferred # lw_used w\<rparr>)
      else
        (case find (\<lambda>p. p \<notin> set (lw_used w) \<and> free p) [cluster_port_low..cluster_port_high] of
           Some p \<Rightarrow> (Inr p, w\<lparr>lw_used := p # lw_used w\<rparr>)
         | None \<Rightarrow> (Inl (No_Port_Free cluster_port_low cluster_port_high), w)))"

section \<open>Configurations\<close>

definition in_quotes :: "string \<Rightarrow> string" where
  "in_quotes s = [CHR 0x22] @ s @ [CHR 0x22]"

definition loopback_url :: "int \<Rightarrow> string" where
  "loopback_url p = ''http://127.0.0.1:'' @ dec_int p"

definition mcp_lines :: "int \<Rightarrow> string list" where
  "mcp_lines p = [''mcp_server:'', ''  enabled: true'', ''  addr: '' @ in_quotes (''127.0.0.1:'' @ dec_int p)]"

definition hub_config :: "int \<Rightarrow> string \<Rightarrow> string" where
  "hub_config p channel =
     join [CHR 0x0A] (mcp_lines p
       @ (if channel = [] then []
          else [''smoke_alarm:'', ''  - name: '' @ go_quote hub_channel_light, ''    endpoint: '' @ go_quote channel,
            ''    interval: 10s''])) @ [CHR 0x0A]"

fun light_lines :: "string \<Rightarrow> bool \<Rightarrow> nat \<Rightarrow> int list \<Rightarrow> string list" where
  "light_lines slug many i [] = []"
| "light_lines slug many i (p # ps) =
     [''  - name: '' @ go_quote (if many then slug @ ''-'' @ dec (Suc i) else slug),
      ''    endpoint: '' @ in_quotes (loopback_url p),
      ''    interval: 10s''] @ light_lines slug many (Suc i) ps"

definition sea_adhd_config :: "string \<Rightarrow> int list \<Rightarrow> int \<Rightarrow> string \<Rightarrow> string" where
  "sea_adhd_config slug ports mcp gherkin =
     join [CHR 0x0A] (mcp_lines mcp @ [''smoke_alarm:''] @ light_lines slug (length ports > 1) 0 ports
       @ (if gherkin = [] then []
          else [''features:'', ''  binaries:'', ''    - name: ocd-smoke-alarm'',
            ''      endpoint: '' @ in_quotes (loopback_url (hd ports) @ ''/status''),
            ''      gherkin_files:'', ''        - '' @ go_quote (join_path [gherkin, ''*.feature''])])) @ [CHR 0x0A]"

section \<open>The hub\<close>

text \<open>What the hub and a pairing do alike: the configuration, the process, and its id in a file.\<close>

definition launch_adhd :: "sea_env \<Rightarrow> string \<Rightarrow> string \<Rightarrow> string \<Rightarrow> sea_world \<Rightarrow> (sea_err, nat) res \<times> sea_world" where
  "launch_adhd e adhd dir config w =
     (let cfg = join_path [dir, ''adhd.yaml''] in
      next_do (sea_write cfg config w) (\<lambda>_ w1.
      next_do (start_command adhd [''--headless'', ''--config'', cfg] (join_path [dir, ''adhd.log'']) w1) (\<lambda>n w2.
        (case sea_write (join_path [dir, ''adhd.pid'']) (dec_int (le_pid e n) @ [CHR 0x0A]) w2 of
           (Inl x, w3) \<Rightarrow> (Inl x, terminate_group n w3)
         | (Inr _, w3) \<Rightarrow> (Inr n, w3)))))"

definition start_hub :: "sea_env \<Rightarrow> string \<Rightarrow> string \<Rightarrow> sea_world \<Rightarrow> (sea_err, sea_hub \<times> nat) res \<times> sea_world" where
  "start_hub e adhd channel w =
     (let dir = join_path [lw_root w, hub_slug] in
      next_do (sea_try (Not_Made dir) w) (\<lambda>_ w1.
      next_do (acquire (le_free e) hub_preferred_port w1) (\<lambda>p w2.
      next_do (launch_adhd e adhd dir (hub_config p channel) w2) (\<lambda>n w3.
        (Inr (\<lparr>hb_endpoint = loopback_url p @ ''/mcp'', hb_port = p, hb_config_path = join_path [dir, ''adhd.yaml''],
               hb_pid_path = join_path [dir, ''adhd.pid'']\<rparr>, n), w3)))))"

section \<open>Starting a lab\<close>

definition stop_children :: "sea_child list \<Rightarrow> sea_world \<Rightarrow> sea_world" where
  "stop_children cs w = fold (\<lambda>c w. del_child (ch_pid_path c) (terminate_group (ch_proc c) w)) cs w"

definition look_file :: "sea_world \<Rightarrow> string \<Rightarrow> config_look" where
  "look_file w p =
     (case map_of (lw_files w) p of None \<Rightarrow> Absent_Config | Some c \<Rightarrow> Config_Text c)"

text \<open>The validation of the file just written, which is removed when it is refused.\<close>

definition check_config :: "string \<Rightarrow> sea_world \<Rightarrow> (sea_err, unit) res \<times> sea_world" where
  "check_config cfg w =
     (case sea_try (Not_Read cfg) w of
        (Inl x, w1) \<Rightarrow> (Inl x, drop_file cfg w1)
      | (Inr _, w1) \<Rightarrow>
          (case binder_config None (lw_root w1) (look_file w1) cfg of
             Inl x \<Rightarrow> (Inl (Config_Refused x), drop_file cfg w1)
           | Inr _ \<Rightarrow> (Inr (), w1)))"

definition member_name :: "nat \<Rightarrow> sea_member \<Rightarrow> string" where
  "member_name i m = (if mb_name m = [] then ''member-'' @ dec (Suc i) else mb_name m)"

text \<open>One member: checked, its configuration written and validated, its alarm started.\<close>

definition start_member :: "sea_env \<Rightarrow> string \<Rightarrow> string \<Rightarrow> string \<Rightarrow> sea_member \<Rightarrow> sea_world \<Rightarrow> (sea_err, sea_child) res \<times> sea_world" where
  "start_member e alarm cluster name m w =
     (if \<not> safe_name name then (Inl (Not_A_Slug name), w)
      else if mb_config m = [] \<or> length (mb_config m) > 2 ^ 20 then (Inl (No_Config_Text name), w)
      else
        (let dir = join_path [join_path [lw_root w, cluster], name]; cfg = join_path [dir, ''config.yaml''] in
         next_do (sea_try (Not_Made dir) w) (\<lambda>_ w1.
         next_do (sea_write cfg (mb_config m) w1) (\<lambda>_ w2.
         next_do (check_config cfg w2) (\<lambda>_ w3.
         next_do (start_command alarm [''serve'', ''--config='' @ cfg, ''--mode=headless''] (join_path [dir, ''alarm.log'']) w3) (\<lambda>n w4.
           let c = \<lparr>ch_proc = n, ch_cluster = cluster, ch_pid_path = join_path [dir, ''ocd-smoke-alarm.pid''],
                    ch_kind = Alarm_Child\<rparr> in
           (Inr c, add_child c w4)))))))"

fun start_members ::
    "sea_env \<Rightarrow> string \<Rightarrow> string \<Rightarrow> nat \<Rightarrow> sea_member list \<Rightarrow> sea_child list \<Rightarrow> sea_world \<Rightarrow> (sea_err, sea_child list) res \<times> sea_world" where
  "start_members e alarm cluster i [] started w = (Inr started, w)"
| "start_members e alarm cluster i (m # ms) started w =
     (case start_member e alarm cluster (member_name i m) m w of
        (Inl x, w') \<Rightarrow> (Inl x, stop_children started w')
      | (Inr c, w') \<Rightarrow> start_members e alarm cluster (Suc i) ms (started @ [c]) w')"

definition start_lab :: "sea_env \<Rightarrow> sea_message \<Rightarrow> sea_world \<Rightarrow> (sea_err, sea_child list) res \<times> sea_world" where
  "start_lab e m w =
     (if \<not> safe_name (ms_cluster m) then (Inl (Not_A_Slug (ms_cluster m)), w)
      else if ms_members m = [] then (Inl No_Members, w)
      else if length (ms_members m) > 8 then (Inl Too_Many_Members, w)
      else
        (case le_tool e ''ocd-smoke-alarm'' of
           None \<Rightarrow> (Inl (Tool_Missing ''ocd-smoke-alarm''), w)
         | Some alarm \<Rightarrow>
             next_do (sea_try (Not_Made (join_path [lw_root w, ms_cluster m])) w)
               (\<lambda>_ w1. start_members e alarm (ms_cluster m) 0 (ms_members m) [] w1)))"

section \<open>Pairing an adhd\<close>

definition pair_adhd :: "sea_env \<Rightarrow> string \<Rightarrow> sea_message \<Rightarrow> int \<Rightarrow> sea_world \<Rightarrow> (sea_err, sea_adhd) res \<times> sea_world" where
  "pair_adhd e adhd m p w =
     (let dir = join_path [lw_root w, ms_slug m]; pidf = join_path [dir, ''adhd.pid''] in
      next_do (sea_try (Not_Made dir) w) (\<lambda>_ w1.
      next_do (launch_adhd e adhd dir (sea_adhd_config (ms_slug m) (ms_health_ports m) p (ms_gherkin m)) w1) (\<lambda>n w2.
        (Inr \<lparr>ad_endpoint = loopback_url p @ ''/mcp'', ad_port = p, ad_config_path = join_path [dir, ''adhd.yaml''],
           ad_pid_path = pidf, ad_hub_endpoint = (case lw_hub w2 of None \<Rightarrow> [] | Some h \<Rightarrow> hb_endpoint h)\<rparr>,
         add_child \<lparr>ch_proc = n, ch_cluster = ms_slug m, ch_pid_path = pidf, ch_kind = Adhd_Child\<rparr> w2))))"

definition start_adhd :: "sea_env \<Rightarrow> sea_message \<Rightarrow> sea_world \<Rightarrow> (sea_err, sea_adhd) res \<times> sea_world" where
  "start_adhd e m w =
     (if ms_slug m = [] \<or> \<not> safe_name (ms_slug m) then (Inl Slug_Required, w)
      else if ms_health_ports m = [] \<or> length (ms_health_ports m) > 16 then (Inl Bad_Port_Count, w)
      else
        (case find (\<lambda>p. p < 1 \<or> p > 65535) (ms_health_ports m) of
           Some p \<Rightarrow> (Inl (Bad_Health_Port p), w)
         | None \<Rightarrow>
             if ms_gherkin m \<noteq> [] \<and> \<not> is_abs (ms_gherkin m) then (Inl Gherkin_Relative, w)
             else
               (case le_tool e ''adhd'' of
                  None \<Rightarrow> (Inl (Tool_Missing ''adhd''), w)
                | Some adhd \<Rightarrow> next_do (acquire (le_free e) 0 w) (pair_adhd e adhd m))))"

section \<open>Stopping a lab\<close>

text \<open>\<open>readPID\<close>: \<open>Sscanf\<close> with \<open>%d\<close> reads a signed number and leaves what follows.\<close>

definition read_pid :: "string \<Rightarrow> int option" where
  "read_pid s =
     (let t = trim_space s; neg = (t \<noteq> [] \<and> hd t = CHR ''-'');
          b = (if t \<noteq> [] \<and> (hd t = CHR ''-'' \<or> hd t = CHR ''+'') then tl t else t) in
      case undec (takeWhile is_digit b) of
        None \<Rightarrow> None
      | Some n \<Rightarrow> if neg \<or> n = 0 \<or> n \<ge> 2 ^ 63 then None else Some (int n))"

text \<open>A child known under the path is signalled and forgotten.\<close>

definition stop_known :: "string \<Rightarrow> sea_child \<Rightarrow> sea_world \<Rightarrow> sea_world" where
  "stop_known p c w = drop_file p (del_child p (terminate_group (ch_proc c) w))"

definition stop_alarm_pid_file :: "sea_env \<Rightarrow> string \<Rightarrow> sea_world \<Rightarrow> (sea_err, unit) res \<times> sea_world" where
  "stop_alarm_pid_file e p w =
     (case map_of (lw_children w) p of
        Some c \<Rightarrow> (Inr (), stop_known p c w)
      | None \<Rightarrow>
          (case le_tool e ''ocd-smoke-alarm'' of
             None \<Rightarrow> (Inl (Tool_Missing ''ocd-smoke-alarm''), w)
           | Some alarm \<Rightarrow>
               if \<not> le_ops_stop e alarm p then (Inl (Ops_Stop_Failed (base_name p)), w)
               else (Inr (), drop_file p w)))"

definition stop_pid_file :: "sea_env \<Rightarrow> string \<Rightarrow> string \<Rightarrow> sea_world \<Rightarrow> (sea_err, unit) res \<times> sea_world" where
  "stop_pid_file e p want w =
     (case map_of (lw_children w) p of
        Some c \<Rightarrow> (Inr (), stop_known p c w)
      | None \<Rightarrow>
          (case (case map_of (lw_files w) p of None \<Rightarrow> None | Some t \<Rightarrow> read_pid t) of
             None \<Rightarrow> (Inr (), drop_file p w)
           | Some pid \<Rightarrow>
               (let name = le_process_name e pid in
                if name \<noteq> [] \<and> \<not> contains name want then (Inl (Names_Another (base_name p) name), w)
                else if \<not> le_terminate e pid then (Inl (Pid_Not_Stopped pid), w)
                else (Inr (), drop_file p (w\<lparr>lw_pids := lw_pids w @ [pid]\<rparr>)))))"

text \<open>\<open>Glob\<close> of \<open><cluster>/*/ocd-smoke-alarm.pid\<close>, for a root without pattern characters.\<close>

definition alarm_pid_file :: "string \<Rightarrow> string \<Rightarrow> bool" where
  "alarm_pid_file dir p \<longleftrightarrow>
     (case drop (length (elements dir)) (elements p) of
        [d, f] \<Rightarrow> f = ''ocd-smoke-alarm.pid'' \<and> p = join_path [join_path [dir, d], f]
      | _ \<Rightarrow> False)"

definition alarm_pid_files :: "string \<Rightarrow> sea_world \<Rightarrow> string list" where
  "alarm_pid_files dir w = sort (filter (alarm_pid_file dir) (map fst (lw_files w)))"

text \<open>The errors of a list of steps are collected, no step is skipped.\<close>

fun sea_each :: "('a \<Rightarrow> sea_world \<Rightarrow> (sea_err, unit) res \<times> sea_world) \<Rightarrow> 'a list \<Rightarrow> sea_world \<Rightarrow> sea_err list \<times> sea_world" where
  "sea_each f [] w = ([], w)"
| "sea_each f (x # xs) w =
     (let (r, w1) = f x w; (es, w2) = sea_each f xs w1 in
      (case r of Inl e \<Rightarrow> e # es | Inr _ \<Rightarrow> es, w2))"

definition of_cluster :: "string \<Rightarrow> string \<times> sea_child \<Rightarrow> bool" where
  "of_cluster cluster pc \<longleftrightarrow> ch_cluster (snd pc) = cluster \<and> ch_kind (snd pc) \<noteq> Hub_Child"

text \<open>The map of the children is ranged over in some order; here that of the table.\<close>

definition stop_lab :: "sea_env \<Rightarrow> sea_message \<Rightarrow> sea_world \<Rightarrow> (sea_err, unit) res \<times> sea_world" where
  "stop_lab e m w =
     (if \<not> safe_name (ms_cluster m) then (Inl (Not_A_Slug (ms_cluster m)), w)
      else if ms_cluster m = hub_slug then (Inl Hub_Stays, w)
      else
        (let dir = join_path [lw_root w, ms_cluster m];
             w1 = fold (\<lambda>(p, c). stop_known p c) (filter (of_cluster (ms_cluster m)) (lw_children w)) w;
             (es, w2) = sea_each (stop_alarm_pid_file e) (alarm_pid_files dir w1) w1;
             pidf = join_path [dir, ''adhd.pid''];
             (es', w3) = sea_each (\<lambda>p. stop_pid_file e p ''adhd'')
                (if map_of (lw_files w2) pidf \<noteq> None then [pidf] else []) w2 in
         (if es @ es' = [] then Inr () else Inl (Not_Stopped (es @ es')), w3)))"

definition reveal_lab :: "sea_env \<Rightarrow> sea_message \<Rightarrow> sea_world \<Rightarrow> (sea_err, unit) res" where
  "reveal_lab e m w =
     (let dir = join_path [lw_root w, ms_cluster m] in
      if \<not> safe_name (ms_cluster m) then Inl (Not_A_Slug (ms_cluster m))
      else if \<not> le_exists e dir then Inl (No_Such_Lab dir)
      else if \<not> le_open e dir then Inl Not_Revealed
      else Inr ())"

section \<open>The channel\<close>

definition dispatch :: "sea_env \<Rightarrow> sea_message \<Rightarrow> sea_world \<Rightarrow> sea_message \<times> sea_world" where
  "dispatch e m w =
     (let answer = (\<lambda>r. case r of Inl x \<Rightarrow> reply_error (ms_id m) x | Inr _ \<Rightarrow> reply_ok (ms_id m)) in
      if ms_v m \<noteq> 0 \<and> ms_v m \<noteq> protocol_version then (reply_error (ms_id m) (Unsupported_Version (ms_v m)), w)
      else if ms_want m = ''start'' then (case start_lab e m w of (r, w') \<Rightarrow> (answer (and_then r (\<lambda>_. Inr ())), w'))
      else if ms_want m = ''stop'' then (case stop_lab e m w of (r, w') \<Rightarrow> (answer r, w'))
      else if ms_want m = ''adhd'' then
        (case start_adhd e m w of
           (Inl x, w') \<Rightarrow> (reply_error (ms_id m) x, w')
         | (Inr a, w') \<Rightarrow> ((reply_ok (ms_id m))\<lparr>ms_adhd := Some a\<rparr>, w'))
      else if ms_want m = ''reveal'' then (answer (reveal_lab e m w), w)
      else (reply_error (ms_id m) (Unknown_Request (ms_want m)), w))"

definition sea_reply :: "sea_message \<Rightarrow> sea_world \<Rightarrow> sea_world" where
  "sea_reply m w =
     (if lw_lost w then w
      else
        (case sea_try () w of
           (Inl _, w1) \<Rightarrow> w1\<lparr>lw_lost := True\<rparr>
         | (Inr _, w1) \<Rightarrow> w1\<lparr>lw_sent := lw_sent w1 @ [m]\<rparr>))"

definition announce_hub :: "sea_world \<Rightarrow> sea_world" where
  "announce_hub w =
     (case lw_hub w of
        None \<Rightarrow> w
      | Some h \<Rightarrow> sea_reply (no_message\<lparr>ms_v := protocol_version, ms_type := ''hub'', ms_hub := Some h\<rparr>) w)"

definition handle_message :: "sea_env \<times> sea_message \<Rightarrow> sea_world \<Rightarrow> sea_world" where
  "handle_message em w =
     (case em of (e, m) \<Rightarrow>
        if ms_type m = ''hello'' then announce_hub w
        else if ms_type m = ''request'' then (case dispatch e m w of (r, w') \<Rightarrow> sea_reply r w')
        else w)"

definition handle_all :: "(sea_env \<times> sea_message) list \<Rightarrow> sea_world \<Rightarrow> sea_world" where
  "handle_all = fold handle_message"

section \<open>The end of a session\<close>

definition stop_order :: "sea_world \<Rightarrow> string list" where
  "stop_order w =
     sort (map fst (filter (\<lambda>pc. ch_kind (snd pc) \<noteq> Hub_Child) (lw_children w)))
     @ sort (map fst (filter (\<lambda>pc. ch_kind (snd pc) = Hub_Child) (lw_children w)))"

definition stop_at :: "string \<Rightarrow> sea_world \<Rightarrow> sea_world" where
  "stop_at p w = (case map_of (lw_children w) p of None \<Rightarrow> w | Some c \<Rightarrow> stop_known p c w)"

definition clean_up :: "sea_world \<Rightarrow> sea_world" where
  "clean_up w = fold stop_at (stop_order w) w"

section \<open>The run\<close>

datatype sea_run_err =
    Only_Mac
  | No_Home_Directory
  | No_Lab_Root
  | Bad_Root bind_err
  | No_App
  | No_Pipe
  | No_App_Log
  | App_Not_Started
  | Run_Cancelled
  | App_Failed

datatype sea_event = Cancelled | App_Exited bool | Message "sea_env \<times> sea_message" | Channel_Closed

text \<open>
  The loop over the events; \<open>app\<close> is the process of the app, and a list that ends without an end of
  the session is a supervisor that is still waiting.
\<close>

fun sea_loop :: "nat \<Rightarrow> sea_event list \<Rightarrow> sea_world \<Rightarrow> (sea_run_err, unit) res option \<times> sea_world" where
  "sea_loop app [] w = (None, w)"
| "sea_loop app (Cancelled # es) w = (Some (Inl Run_Cancelled), clean_up (terminate_group app w))"
| "sea_loop app (App_Exited ok # es) w = (Some (if ok then Inr () else Inl App_Failed), clean_up w)"
| "sea_loop app (Channel_Closed # es) w = (Some (Inr ()), clean_up (terminate_group app w))"
| "sea_loop app (Message em # es) w = sea_loop app es (handle_message em w)"

record sea_options =
  so_darwin :: bool
  so_clusters_root :: string
  so_home :: "string option"
  so_cwd :: "string option"
  so_app :: "string option"       \<comment> \<open>the executable of the bundle, when it is there\<close>

definition empty_world :: "string \<Rightarrow> (string, string) table \<Rightarrow> bool list \<Rightarrow> sea_world" where
  "empty_world root files faults =
     \<lparr>lw_root = root, lw_files = files, lw_children = [], lw_used = [], lw_hub = None, lw_lost = False,
      lw_commands = [], lw_signalled = [], lw_pids = [], lw_sent = [], lw_faults = faults\<rparr>"

text \<open>The root of the lab: the option, or \<open>~/.lezz/sea/Clusters\<close>; \<open>mkdir\<close> makes it.\<close>

definition lab_root :: "sea_options \<Rightarrow> (string \<Rightarrow> bool) \<Rightarrow> (sea_run_err, string) res" where
  "lab_root o' mkdir =
     and_then
       (if trim_space (so_clusters_root o') \<noteq> [] then Inr (trim_space (so_clusters_root o'))
        else (case so_home o' of
                None \<Rightarrow> Inl No_Home_Directory
              | Some h \<Rightarrow> Inr (join_path [h, ''.lezz'', ''sea'', ''Clusters''])))
       (\<lambda>root. if \<not> mkdir root then Inl No_Lab_Root
               else (case new_binder (so_cwd o') root of Inl e \<Rightarrow> Inl (Bad_Root e) | Inr r \<Rightarrow> Inr r))"

text \<open>The hub, when adhd is installed and it comes up; without it the session goes on.\<close>

definition open_session :: "sea_env \<Rightarrow> sea_world \<Rightarrow> sea_world" where
  "open_session e w =
     (case le_tool e ''adhd'' of
        None \<Rightarrow> w
      | Some adhd \<Rightarrow>
          (case start_hub e adhd [] w of
             (Inl _, w1) \<Rightarrow> w1
           | (Inr (h, n), w1) \<Rightarrow>
               add_child \<lparr>ch_proc = n, ch_cluster = hub_slug, ch_pid_path = hb_pid_path h, ch_kind = Hub_Child\<rparr>
                 (w1\<lparr>lw_hub := Some h\<rparr>)))"

definition run_sea ::
    "sea_options \<Rightarrow> (string \<Rightarrow> bool) \<Rightarrow> sea_env \<Rightarrow> (string, string) table \<Rightarrow> bool list \<Rightarrow> sea_event list
     \<Rightarrow> (sea_run_err, unit) res option \<times> sea_world" where
  "run_sea o' mkdir e files faults evs =
     (if \<not> so_darwin o' then (Some (Inl Only_Mac), empty_world [] files faults)
      else
        (case lab_root o' mkdir of
           Inl x \<Rightarrow> (Some (Inl x), empty_world [] files faults)
         | Inr root \<Rightarrow>
             (case so_app o' of
                None \<Rightarrow> (Some (Inl No_App), empty_world root files faults)
              | Some exe \<Rightarrow>
                  (let w = open_session e (empty_world root files faults) in
                   case next_do (sea_try No_Pipe w) (\<lambda>_ w1.
                        next_do (sea_try No_Pipe w1) (\<lambda>_ w2.
                        next_do (sea_try No_App_Log w2) (\<lambda>_ w3.
                        next_do (sea_try App_Not_Started w3) (\<lambda>_ w4.
                          (Inr (length (lw_commands w4)), w4\<lparr>lw_commands := lw_commands w4 @ [[exe]]\<rparr>))))) of
                     (Inl x, w5) \<Rightarrow> (Some (Inl x), w5)
                   | (Inr app, w5) \<Rightarrow> sea_loop app evs w5))))"

end
