(* ===== verification/SeaSafety.thy ===== *)
theory SeaSafety
  imports SeaLab
begin

text \<open>
  What the lezz.sea supervisor guarantees: whatever the app sends, the commands started and the
  files written stay inside the lab root; ports are given out once; a start is all or nothing; and
  the end of a session signals the clusters before the hub.
\<close>

section \<open>Paths of the lab\<close>

lemma safe_name_proper: "safe_name n \<Longrightarrow> proper n \<and> n \<noteq> ''..''"
  by (auto simp: safe_name_def proper_def list_all_iff slug_char_def is_alnum_def is_letter_def
      is_digit_def digit_val_def)

text \<open>A file of the lab: its elements are those of the root and some more, none of them \<open>..\<close>.\<close>

definition lab_file :: "string \<Rightarrow> string \<Rightarrow> bool" where
  "lab_file root p \<longleftrightarrow> is_abs p \<and> clean_path p = p \<and> (\<exists>es. es \<noteq> [] \<and> elements p = elements root @ es)"

definition lab_dir :: "string \<Rightarrow> string list \<Rightarrow> string \<Rightarrow> bool" where
  "lab_dir root es p \<longleftrightarrow> is_abs p \<and> clean_path p = p \<and> elements p = elements root @ es"

lemma lab_dir_file: "lab_dir root es p \<Longrightarrow> es \<noteq> [] \<Longrightarrow> lab_file root p"
  by (auto simp: lab_dir_def lab_file_def)

lemma lab_dir_root: "is_abs root \<Longrightarrow> clean_path root = root \<Longrightarrow> lab_dir root [] root"
  by (simp add: lab_dir_def)

lemma lab_dir_join:
  assumes "lab_dir root es d" "proper n" "n \<noteq> ''..''"
  shows "lab_dir root (es @ [n]) (join_path [d, n])"
  using assms elements_join [of d "[n]"] join_path_abs [of d "[n]"] clean_join_path [of d "[n]"]
  by (simp add: lab_dir_def)

lemma fixed_names_proper:
  "proper ''hub''" "proper ''adhd.yaml''" "proper ''adhd.pid''" "proper ''config.yaml''" "proper ''ocd-smoke-alarm.pid''"
  by (simp_all add: proper_def)

lemma join_file:
  assumes "lab_dir root es d" "n \<in> {''adhd.yaml'', ''adhd.pid'', ''config.yaml'', ''ocd-smoke-alarm.pid''}"
  shows "lab_dir root (es @ [n]) (join_path [d, n])" "lab_file root (join_path [d, n])"
proof -
  show d: "lab_dir root (es @ [n]) (join_path [d, n])"
    using assms lab_dir_join fixed_names_proper by auto
  show "lab_file root (join_path [d, n])" by (rule lab_dir_file [OF d]) simp
qed

text \<open>The two commands, with the configuration named by slugs under the root.\<close>

definition alarm_command :: "string \<Rightarrow> string list \<Rightarrow> bool" where
  "alarm_command root argv \<longleftrightarrow>
     (\<exists>tool cfg c n. argv = [tool, ''serve'', ''--config='' @ cfg, ''--mode=headless'']
        \<and> lab_dir root [c, n, ''config.yaml''] cfg \<and> safe_name c \<and> safe_name n)"

definition adhd_command :: "string \<Rightarrow> string list \<Rightarrow> bool" where
  "adhd_command root argv \<longleftrightarrow>
     (\<exists>tool cfg s. argv = [tool, ''--headless'', ''--config'', cfg] \<and> lab_dir root [s, ''adhd.yaml''] cfg \<and> safe_name s)"

section \<open>Growth\<close>

definition lab_ok :: "sea_world \<Rightarrow> bool" where
  "lab_ok w \<longleftrightarrow> is_abs (lw_root w) \<and> clean_path (lw_root w) = lw_root w
     \<and> (\<forall>p \<in> keys (lw_children w). lab_file (lw_root w) p)"

text \<open>
  What a step may do: start commands of the two shapes, signal, and touch files of the lab. The
  world before stands first, so that growth composes along \<open>next_do\<close>.
\<close>

definition grows :: "sea_world \<Rightarrow> sea_world \<Rightarrow> bool" where
  "grows w w' \<longleftrightarrow> lw_root w' = lw_root w \<and> lab_ok w'
     \<and> (\<exists>cs. lw_commands w' = lw_commands w @ cs \<and> list_all (\<lambda>a. alarm_command (lw_root w) a \<or> adhd_command (lw_root w) a) cs)
     \<and> (\<exists>xs. lw_signalled w' = lw_signalled w @ xs)
     \<and> (\<forall>p. lab_file (lw_root w) p \<or> map_of (lw_files w') p = map_of (lw_files w) p)"

named_theorems grow

lemma grows_refl: "lab_ok w \<Longrightarrow> grows w w"
  by (simp add: grows_def)

lemma grows_root: "grows w s \<Longrightarrow> lw_root s = lw_root w"
  by (simp add: grows_def)

lemma grows_ok: "grows w s \<Longrightarrow> lab_ok s"
  by (simp add: grows_def)

lemma grows_same:
  "grows w s \<Longrightarrow> lw_root t = lw_root s \<Longrightarrow> lw_commands t = lw_commands s \<Longrightarrow> lw_signalled t = lw_signalled s
    \<Longrightarrow> lw_files t = lw_files s \<Longrightarrow> keys (lw_children t) \<subseteq> keys (lw_children s) \<Longrightarrow> grows w t"
proof -
  assume g: "grows w s" and e: "lw_root t = lw_root s" "lw_commands t = lw_commands s" "lw_signalled t = lw_signalled s"
    "lw_files t = lw_files s" "keys (lw_children t) \<subseteq> keys (lw_children s)"
  have "lab_ok t" using grows_ok [OF g] e(1,5) unfolding lab_ok_def by (simp only:) blast
  then show "grows w t" using g e(1-4) by (simp add: grows_def)
qed

lemmas grows_next = next_do_carries [where P = "grows w" for w]

lemma grows_fold: "grows w s \<Longrightarrow> (\<And>x t. x \<in> set xs \<Longrightarrow> grows w t \<Longrightarrow> grows w (f x t)) \<Longrightarrow> grows w (fold f xs s)"
  by (induction xs arbitrary: s) auto

lemma grows_try [grow]: "grows w s \<Longrightarrow> grows w (snd (sea_try e s))"
  by (auto simp: sea_try_def split_beta elim!: grows_same)

lemma grows_put [grow]: "grows w s \<Longrightarrow> lab_file (lw_root w) p \<Longrightarrow> grows w (put_file p c s)"
  by (auto simp: put_file_def grows_def lab_ok_def)

lemma grows_drop [grow]: "grows w s \<Longrightarrow> lab_file (lw_root w) p \<Longrightarrow> grows w (drop_file p s)"
  by (auto simp: drop_file_def grows_def lab_ok_def)

lemma grows_write [grow]: "grows w s \<Longrightarrow> lab_file (lw_root w) p \<Longrightarrow> grows w (snd (sea_write p c s))"
  unfolding sea_write_def by (intro grows_next grow; simp add: grow)

lemma grows_terminate [grow]: "grows w s \<Longrightarrow> grows w (terminate_group n s)"
  by (auto simp: terminate_group_def grows_def lab_ok_def)

lemma grows_add [grow]: "grows w s \<Longrightarrow> lab_file (lw_root w) (ch_pid_path c) \<Longrightarrow> grows w (add_child c s)"
  by (auto simp: add_child_def grows_def lab_ok_def)

lemma grows_del [grow]: "grows w s \<Longrightarrow> grows w (del_child p s)"
  by (rule grows_same) (auto simp: del_child_def)

lemma grows_command [grow]:
  "grows w s \<Longrightarrow> alarm_command (lw_root w) (b # args) \<or> adhd_command (lw_root w) (b # args)
    \<Longrightarrow> grows w (snd (start_command b args log s))"
  unfolding start_command_def
  by (intro grows_next grow) (auto simp: grows_def lab_ok_def)

lemma grows_acquire [grow]: "grows w s \<Longrightarrow> grows w (snd (acquire free p s))"
  by (auto simp: acquire_def elim!: grows_same split: option.split)

lemma grows_stop_known [grow]: "grows w s \<Longrightarrow> lab_file (lw_root w) p \<Longrightarrow> grows w (stop_known p c s)"
  by (simp add: stop_known_def grow)

lemma grows_reply [grow]: "grows w s \<Longrightarrow> grows w (sea_reply m s)"
  by (auto simp: sea_reply_def sea_try_def split_beta elim!: grows_same)

lemma grows_stop_children [grow]: "grows w s \<Longrightarrow> grows w (stop_children cs s)"
  by (simp add: stop_children_def grows_fold grow)

section \<open>Requests stay in the lab\<close>

lemma lab_root_dir: "lab_ok w \<Longrightarrow> lab_dir (lw_root w) [] (lw_root w)"
  by (simp add: lab_ok_def lab_dir_root)

lemma grows_check [grow]: "grows w s \<Longrightarrow> lab_file (lw_root w) cfg \<Longrightarrow> grows w (snd (check_config cfg s))"
  using grows_try [of w s "Not_Read cfg"]
  by (auto simp: check_config_def split_beta grow split: sum.split prod.split)

lemma grows_member [grow]:
  assumes s: "grows w s" and c: "safe_name cluster"
  shows "grows w (snd (start_member e alarm cluster name m s))"
proof (cases "safe_name name \<and> mb_config m \<noteq> [] \<and> length (mb_config m) \<le> 2 ^ 20")
  case True
  define dir where "dir = join_path [join_path [lw_root w, cluster], name]"
  have root: "lw_root s = lw_root w" using s grows_root by blast
  have "lab_dir (lw_root w) [] (lw_root w)" using lab_root_dir [OF grows_ok [OF s]] root by simp
  then have d: "lab_dir (lw_root w) [cluster, name] dir"
    unfolding dir_def using lab_dir_join safe_name_proper c True by (metis append_Cons append_Nil)
  have cfg: "lab_dir (lw_root w) [cluster, name, ''config.yaml''] (join_path [dir, ''config.yaml''])"
    and files: "lab_file (lw_root w) (join_path [dir, ''config.yaml''])"
    "lab_file (lw_root w) (join_path [dir, ''ocd-smoke-alarm.pid''])"
    using join_file [OF d] by auto
  have "alarm_command (lw_root w) [alarm, ''serve'', ''--config='' @ join_path [dir, ''config.yaml''], ''--mode=headless'']"
    using cfg c True by (auto simp: alarm_command_def)
  then show ?thesis
    using True unfolding start_member_def root dir_def [symmetric] Let_def
    by (auto intro!: grows_next grow s simp: files)
qed (use s in \<open>auto simp: start_member_def\<close>)

lemma grows_members [grow]:
  "grows w s \<Longrightarrow> safe_name cluster \<Longrightarrow> grows w (snd (start_members e alarm cluster i ms started s))"
proof (induction ms arbitrary: i started s)
  case (Cons m ms)
  show ?case
    using Cons.IH grows_member [OF Cons.prems, of e alarm "member_name i m" m] Cons.prems(2)
    by (auto simp: grow split: prod.split sum.split)
qed simp

lemma grows_start [grow]: "grows w s \<Longrightarrow> grows w (snd (start_lab e m s))"
  by (auto simp: start_lab_def split: option.split intro!: grows_next grow)

lemma grows_adhd_files:
  assumes "lab_ok w" "safe_name n" "d = join_path [lw_root w, n]"
  shows "lab_file (lw_root w) (join_path [d, ''adhd.yaml''])" "lab_file (lw_root w) (join_path [d, ''adhd.pid''])"
    and "adhd_command (lw_root w) [tool, ''--headless'', ''--config'', join_path [d, ''adhd.yaml'']]"
proof -
  have d: "lab_dir (lw_root w) [n] d"
    using lab_dir_join [OF lab_root_dir [OF assms(1)]] safe_name_proper [OF assms(2)] assms(3) by simp
  show "lab_file (lw_root w) (join_path [d, ''adhd.yaml''])" "lab_file (lw_root w) (join_path [d, ''adhd.pid''])"
    using join_file [OF d] by auto
  show "adhd_command (lw_root w) [tool, ''--headless'', ''--config'', join_path [d, ''adhd.yaml'']]"
    using join_file(1) [OF d, of "''adhd.yaml''"] assms(2) by (auto simp: adhd_command_def)
qed

lemma grows_launch [grow]:
  assumes s: "grows w s" and n: "safe_name n" and d: "d = join_path [lw_root w, n]"
  shows "grows w (snd (launch_adhd e tool d config s))"
proof -
  have "lab_ok s" "lw_root s = lw_root w" using s grows_ok grows_root by blast+
  note files = grows_adhd_files [OF this(1) n, unfolded this(2), OF d]
  have last: "grows w t \<Longrightarrow> grows w (snd (case sea_write (join_path [d, ''adhd.pid'']) c t of
      (Inl x, t') \<Rightarrow> (Inl x, terminate_group k t') | (Inr _, t') \<Rightarrow> (Inr k, t')))" for t c k
    using grows_write [of w t _ c, OF _ files(2)] by (auto simp: split_beta grow split: prod.split sum.split)
  show ?thesis
    unfolding launch_adhd_def Let_def by (intro grows_next grow last) (use s files in auto)
qed

lemma grows_start_adhd [grow]:
  assumes s: "grows w s"
  shows "grows w (snd (start_adhd e m s))"
proof (cases "safe_name (ms_slug m)")
  case True
  have root: "lw_root s = lw_root w" and ok: "lab_ok s" using s grows_root grows_ok by blast+
  note files = grows_adhd_files [OF ok True refl, unfolded root]
  have "grows w t \<Longrightarrow> grows w (snd (pair_adhd e tool m p t))" for tool p t
    using files grows_root [of w t] unfolding pair_adhd_def Let_def by (auto intro!: grows_next grow simp: True)
  then show ?thesis
    unfolding start_adhd_def using s by (auto split: option.split intro!: grows_next grow)
qed (use s in \<open>auto simp: start_adhd_def\<close>)

lemma alarm_pid_files_lab:
  assumes "lab_dir root [c] dir" "p \<in> set (alarm_pid_files dir w)"
  shows "lab_file root p"
proof -
  have p: "alarm_pid_file dir p" using assms(2) by (auto simp: alarm_pid_files_def)
  then obtain d where d: "drop (length (elements dir)) (elements p) = [d, ''ocd-smoke-alarm.pid'']"
    "p = join_path [join_path [dir, d], ''ocd-smoke-alarm.pid'']"
    by (auto simp: alarm_pid_file_def split: list.splits)
  have "is_abs dir" using assms(1) by (simp add: lab_dir_def)
  then have "is_abs (join_path [dir, d])" by (rule join_path_abs)
  then have "is_abs p" unfolding d(2) by (rule join_path_abs)
  have "d \<in> set (elements p)" by (metis d(1) in_set_dropD list.set_intros(1))
  then have "proper d" "d \<noteq> ''..''"
    using elements_proper [of p] elements_abs_no_dotdot [OF \<open>is_abs p\<close>] by (auto simp: list_all_iff)
  then have "lab_dir root ([c] @ [d]) (join_path [dir, d])" by (rule lab_dir_join [OF assms(1)])
  then show ?thesis unfolding d(2) by (rule join_file(2)) simp
qed

lemma grows_each:
  "grows w s \<Longrightarrow> (\<And>x t. x \<in> set xs \<Longrightarrow> grows w t \<Longrightarrow> grows w (snd (f x t))) \<Longrightarrow> grows w (snd (sea_each f xs s))"
  by (induction xs arbitrary: s) (auto simp: split_beta Let_def)

lemma grows_stop_alarm [grow]:
  "grows w s \<Longrightarrow> lab_file (lw_root w) p \<Longrightarrow> grows w (snd (stop_alarm_pid_file e p s))"
  by (auto simp: stop_alarm_pid_file_def grow split: option.split)

lemma grows_stop_pid [grow]:
  "grows w s \<Longrightarrow> lab_file (lw_root w) p \<Longrightarrow> grows w (snd (stop_pid_file e p want s))"
  by (auto simp: stop_pid_file_def Let_def grow split: option.split intro!: grows_drop elim!: grows_same)

lemma grows_stop [grow]:
  assumes s: "grows w s"
  shows "grows w (snd (stop_lab e m s))"
proof (cases "safe_name (ms_cluster m) \<and> ms_cluster m \<noteq> hub_slug")
  case True
  define dir where "dir = join_path [lw_root s, ms_cluster m]"
  have root: "lw_root s = lw_root w" and ok: "lab_ok s" using s grows_root grows_ok by blast+
  have dir: "lab_dir (lw_root w) [ms_cluster m] dir"
    using lab_dir_join [OF lab_root_dir [OF ok]] safe_name_proper True root by (simp add: dir_def)
  define w1 where "w1 = fold (\<lambda>(p, c). stop_known p c) (filter (of_cluster (ms_cluster m)) (lw_children s)) s"
  have "\<forall>p \<in> keys (lw_children s). lab_file (lw_root w) p" using ok root by (simp add: lab_ok_def)
  then have 1: "grows w w1" unfolding w1_def
    by (intro grows_fold [OF s]) (auto simp: split_beta intro!: grow)
  define r where "r = sea_each (stop_alarm_pid_file e) (alarm_pid_files dir w1) w1"
  have 2: "grows w (snd r)" unfolding r_def
    by (rule grows_each [OF 1]) (use alarm_pid_files_lab [OF dir] in \<open>auto intro: grow\<close>)
  have pidf: "lab_file (lw_root w) (join_path [dir, ''adhd.pid''])" using join_file [OF dir] by simp
  define q where "q = sea_each (\<lambda>p. stop_pid_file e p ''adhd'')
      (if map_of (lw_files (snd r)) (join_path [dir, ''adhd.pid'']) \<noteq> None then [join_path [dir, ''adhd.pid'']] else []) (snd r)"
  have 3: "grows w (snd q)" unfolding q_def
    by (rule grows_each [OF 2]) (use pidf in \<open>auto intro: grow split: if_splits\<close>)
  have "snd (stop_lab e m s) = snd q"
    using True by (simp add: stop_lab_def dir_def [symmetric] w1_def [symmetric] r_def [symmetric] Let_def split_beta) (simp add: q_def split_beta)
  then show ?thesis using 3 by simp
qed (use s in \<open>auto simp: stop_lab_def\<close>)

lemma grows_dispatch [grow]: "grows w s \<Longrightarrow> grows w (snd (dispatch e m s))"
  using grows_start [of w s e m] grows_stop [of w s e m] grows_start_adhd [of w s e m]
  by (auto simp: dispatch_def Let_def split_beta split: prod.split sum.split)

lemma grows_handle [grow]: "grows w s \<Longrightarrow> grows w (handle_message em s)"
  using grows_dispatch [of w s "fst em" "snd em"]
  by (auto simp: handle_message_def announce_hub_def split_beta grow split: option.split prod.split)

lemma grows_handle_all [grow]: "grows w s \<Longrightarrow> grows w (handle_all ems s)"
  by (simp add: handle_all_def grows_fold grow)


section \<open>A start is all or nothing\<close>

definition member_command :: "string \<Rightarrow> string \<Rightarrow> string \<Rightarrow> nat \<times> sea_member \<Rightarrow> string list" where
  "member_command tool root cluster im =
     [tool, ''serve'',
      ''--config='' @ join_path [join_path [join_path [root, cluster], member_name (fst im) (snd im)], ''config.yaml''],
      ''--mode=headless'']"

definition runs_inside :: "string \<Rightarrow> sea_member \<Rightarrow> bool" where
  "runs_inside root m \<longleftrightarrow>
     list_all (below root \<circ> snd) (declared (mb_config m)) \<and> set runtime_keys \<subseteq> fst ` set (declared (mb_config m))"

lemma try_keeps [simp]:
  "lw_root (snd (sea_try e w)) = lw_root w" "lw_commands (snd (sea_try e w)) = lw_commands w"
  "lw_signalled (snd (sea_try e w)) = lw_signalled w" "lw_children (snd (sea_try e w)) = lw_children w"
  "lw_files (snd (sea_try e w)) = lw_files w" "lw_used (snd (sea_try e w)) = lw_used w"
  "lw_hub (snd (sea_try e w)) = lw_hub w" "lw_sent (snd (sea_try e w)) = lw_sent w" "lw_lost (snd (sea_try e w)) = lw_lost w"
  by (simp_all add: sea_try_def split_beta)

lemma put_keeps [simp]:
  "lw_root (put_file p c w) = lw_root w" "lw_commands (put_file p c w) = lw_commands w"
  "lw_signalled (put_file p c w) = lw_signalled w" "lw_children (put_file p c w) = lw_children w"
  "lw_used (put_file p c w) = lw_used w" "lw_hub (put_file p c w) = lw_hub w" "lw_sent (put_file p c w) = lw_sent w"
  "lw_lost (put_file p c w) = lw_lost w"
  by (simp_all add: put_file_def)

lemma drop_keeps [simp]:
  "lw_root (drop_file p w) = lw_root w" "lw_commands (drop_file p w) = lw_commands w"
  "lw_signalled (drop_file p w) = lw_signalled w" "lw_children (drop_file p w) = lw_children w"
  "lw_used (drop_file p w) = lw_used w" "lw_hub (drop_file p w) = lw_hub w" "lw_sent (drop_file p w) = lw_sent w"
  "lw_lost (drop_file p w) = lw_lost w"
  by (simp_all add: drop_file_def)

text \<open>What a step leaves alone, one field at a time.\<close>

definition idle :: "sea_world \<Rightarrow> sea_world \<Rightarrow> bool" where
  "idle w w' \<longleftrightarrow> lw_root w' = lw_root w \<and> lw_commands w' = lw_commands w \<and> lw_signalled w' = lw_signalled w
     \<and> lw_children w' = lw_children w \<and> lw_used w' = lw_used w \<and> lw_hub w' = lw_hub w \<and> lw_sent w' = lw_sent w
     \<and> lw_lost w' = lw_lost w"

named_theorems idles

lemma idle_try [idles]: "idle w s \<Longrightarrow> idle w (snd (sea_try e s))"
  by (simp add: idle_def)

lemma idle_put [idles]: "idle w s \<Longrightarrow> idle w (put_file p c s)"
  by (simp add: idle_def)

lemma idle_drop [idles]: "idle w s \<Longrightarrow> idle w (drop_file p s)"
  by (simp add: idle_def)

lemmas idle_next = next_do_carries [where P = "idle w" for w]

lemma idle_refl [idles, simp]: "idle w w"
  by (simp add: idle_def)

lemma idle_write [idles]: "idle w s \<Longrightarrow> idle w (snd (sea_write p c s))"
  unfolding sea_write_def by (intro idle_next idles; simp add: idles)

lemma idle_check [idles]: "idle w s \<Longrightarrow> idle w (snd (check_config cfg s))"
  using idle_try [of w s "Not_Read cfg"]
  by (auto simp: check_config_def split_beta idles split: sum.split prod.split)

lemma write_puts:
  assumes "sea_write p c w = (Inr u, w')"
  shows "map_of (lw_files w') p = Some c"
  using assms by (auto simp: sea_write_def next_do_Inr put_file_def)

lemma check_config_Inr:
  assumes "check_config cfg w = (Inr u, w')"
  shows "lw_files w' = lw_files w \<and> is_ok (binder_config None (lw_root w) (look_file w) cfg)"
proof -
  obtain w1 v where t: "sea_try (Not_Read cfg) w = (Inr v, w1)"
    using assms by (cases "sea_try (Not_Read cfg) w"; cases "fst (sea_try (Not_Read cfg) w)") (auto simp: check_config_def)
  have "lw_files w1 = lw_files w" "lw_root w1 = lw_root w"
    using try_keeps(1,5) [of "Not_Read cfg" w] t by simp_all
  moreover have "look_file w1 = look_file w" using calculation by (simp add: look_file_def fun_eq_iff)
  ultimately show ?thesis
    using assms t by (auto simp: check_config_def split: sum.splits)
qed

lemma start_command_Inr:
  assumes "start_command b args log w = (Inr n, w')"
  shows "n = length (lw_commands w) \<and> lw_commands w' = lw_commands w @ [b # args]
    \<and> lw_root w' = lw_root w \<and> lw_signalled w' = lw_signalled w \<and> lw_children w' = lw_children w
    \<and> lw_used w' = lw_used w \<and> lw_hub w' = lw_hub w \<and> lw_sent w' = lw_sent w \<and> lw_lost w' = lw_lost w"
proof -
  obtain w1 w2 where w: "sea_try (Log_Closed log) w = (Inr (), w1)" "sea_try (Not_Startable b) w1 = (Inr (), w2)"
    "n = length (lw_commands w2)" "w' = w2\<lparr>lw_commands := lw_commands w2 @ [b # args]\<rparr>"
    using assms by (auto simp: start_command_def next_do_Inr)
  have "idle w w2" using idle_try [OF idle_try [OF idle_refl], of w "Not_Startable b" "Log_Closed log"] w by simp
  then show ?thesis using w(3,4) by (simp add: idle_def)
qed

lemma start_command_Inl: "start_command b args log w = (Inl x, w') \<Longrightarrow> idle w w'"
proof -
  assume "start_command b args log w = (Inl x, w')"
  then have "sea_try (Log_Closed log) w = (Inl x, w')
      \<or> (\<exists>w1. sea_try (Log_Closed log) w = (Inr (), w1) \<and> sea_try (Not_Startable b) w1 = (Inl x, w'))"
    by (auto simp: start_command_def next_do_Inl)
  then show "idle w w'"
    using idle_try [of w w "Log_Closed log"] idle_try [of w _ "Not_Startable b"] by (metis idle_refl snd_conv)
qed

lemma idle_trans: "idle u v \<Longrightarrow> idle v w \<Longrightarrow> idle u w"
  by (simp add: idle_def)

lemma accepted_config:
  assumes "is_ok (binder_config None root look cfg)" "is_abs cfg" "clean_path cfg = cfg" "look cfg = Config_Text (mb_config m)"
  shows "runs_inside root m"
proof -
  obtain q where q: "binder_config None root look cfg = Inr q" using assms(1) by (auto simp: is_ok_iff)
  then have "binder_path None root cfg ''.yaml'' = Inr q" by (simp add: binder_config_Inr)
  then have "q = cfg" using assms(2,3) binder_path_Inr [of None root cfg "''.yaml''" q] by (simp add: abs_path_def)
  then obtain seen where "scan_config None root [] (lines (mb_config m)) = Inr seen" "set runtime_keys \<subseteq> set seen"
    using q assms(4) by (auto simp: binder_config_Inr)
  then show ?thesis using scan_config_Inr [of None root "[]" "lines (mb_config m)" seen] by (simp add: runs_inside_def declared_def)
qed

text \<open>One member: the step that starts its alarm, or one that starts nothing.\<close>

lemma start_member_Inr:
  assumes "start_member e tool cluster name m w = (Inr c, w')"
  defines "dir \<equiv> join_path [join_path [lw_root w, cluster], name]"
  defines "cfg \<equiv> join_path [dir, ''config.yaml'']"
  shows "lw_commands w' = lw_commands w @ [[tool, ''serve'', ''--config='' @ cfg, ''--mode=headless'']]"
    and "c = \<lparr>ch_proc = length (lw_commands w), ch_cluster = cluster,
           ch_pid_path = join_path [dir, ''ocd-smoke-alarm.pid''], ch_kind = Alarm_Child\<rparr>"
    and "lw_root w' = lw_root w \<and> lw_signalled w' = lw_signalled w \<and> lw_children w' = AList.update (ch_pid_path c) c (lw_children w)"
    and "is_ok (binder_config None (lw_root w) (look_file w') cfg)" "map_of (lw_files w') cfg = Some (mb_config m)"
proof -
  obtain w1 w2 w3 w4 n where st: "sea_try (Not_Made dir) w = (Inr (), w1)" "sea_write cfg (mb_config m) w1 = (Inr (), w2)"
    "check_config cfg w2 = (Inr (), w3)"
    "start_command tool [''serve'', ''--config='' @ cfg, ''--mode=headless''] (join_path [dir, ''alarm.log'']) w3 = (Inr n, w4)"
    and c: "c = \<lparr>ch_proc = n, ch_cluster = cluster, ch_pid_path = join_path [dir, ''ocd-smoke-alarm.pid''], ch_kind = Alarm_Child\<rparr>"
    and w': "w' = add_child c w4"
    using assms(1) by (auto simp: start_member_def Let_def next_do_Inr dir_def [symmetric] cfg_def [symmetric] split: if_splits)
  have "idle w w1" using idle_try [of w w "Not_Made dir"] st(1) by simp
  then have "idle w w2" using idle_write [of w w1 cfg "mb_config m"] st(2) by simp
  then have i: "idle w w3" using idle_check [of w w2 cfg] st(3) by simp
  note cmd = start_command_Inr [OF st(4)]
  show "lw_commands w' = lw_commands w @ [[tool, ''serve'', ''--config='' @ cfg, ''--mode=headless'']]"
    using cmd i by (simp add: w' add_child_def idle_def)
  show c': "c = \<lparr>ch_proc = length (lw_commands w), ch_cluster = cluster,
      ch_pid_path = join_path [dir, ''ocd-smoke-alarm.pid''], ch_kind = Alarm_Child\<rparr>"
    using cmd i by (simp add: c idle_def)
  show "lw_root w' = lw_root w \<and> lw_signalled w' = lw_signalled w \<and> lw_children w' = AList.update (ch_pid_path c) c (lw_children w)"
    using cmd i by (simp add: w' add_child_def idle_def)
  have files: "lw_files w' = lw_files w2" if "lw_files w4 = lw_files w3"
    using check_config_Inr [OF st(3)] that by (simp add: w' add_child_def)
  have w4: "lw_files w4 = lw_files w3"
    using st(4) by (auto simp: start_command_def next_do_Inr sea_try_def split_beta split: if_splits)
  have "look_file w' = look_file w2" "lw_root w2 = lw_root w"
    using files [OF w4] \<open>idle w w2\<close> by (auto simp: look_file_def idle_def)
  then show "is_ok (binder_config None (lw_root w) (look_file w') cfg)" using check_config_Inr [OF st(3)] by simp
  show "map_of (lw_files w') cfg = Some (mb_config m)" using files [OF w4] write_puts [OF st(2)] by simp
qed

lemma start_member_Inl:
  assumes "start_member e tool cluster name m w = (Inl x, w')"
  shows "idle w w'"
proof (cases "safe_name name \<and> mb_config m \<noteq> [] \<and> length (mb_config m) \<le> 2 ^ 20")
  case True
  define dir where "dir = join_path [join_path [lw_root w, cluster], name]"
  define cfg where "cfg = join_path [dir, ''config.yaml'']"
  let ?k = "\<lambda>_ w3. next_do (start_command tool [''serve'', ''--config='' @ cfg, ''--mode=headless''] (join_path [dir, ''alarm.log'']) w3) (\<lambda>n w4.
           let c = \<lparr>ch_proc = n, ch_cluster = cluster, ch_pid_path = join_path [dir, ''ocd-smoke-alarm.pid''], ch_kind = Alarm_Child\<rparr> in
           ((Inr c :: (sea_err, sea_child) res), add_child c w4))"
  have 1: "next_do (sea_try (Not_Made dir) w) (\<lambda>_ w1. next_do (sea_write cfg (mb_config m) w1) (\<lambda>_ w2. next_do (check_config cfg w2) ?k)) = (Inl x, w')"
    using assms True unfolding start_member_def dir_def cfg_def Let_def by simp
  define r where "r = next_do (sea_try (Not_Made dir) w) (\<lambda>_ w1. next_do (sea_write cfg (mb_config m) w1) (\<lambda>_ w2. check_config cfg w2))"
  have i: "idle w (snd r)" unfolding r_def by (intro idle_next idles)
  have "next_do r ?k = (Inl x, w')"
    using 1 unfolding r_def next_do_def by (auto split: prod.splits sum.splits)
  then have "r = (Inl x, w') \<or> (\<exists>a w3. r = (Inr a, w3) \<and> ?k a w3 = (Inl x, w'))" by (simp only: next_do_Inl)
  then show ?thesis
  proof
    assume "\<exists>a w3. r = (Inr a, w3) \<and> ?k a w3 = (Inl x, w')"
    then obtain a w3 where "r = (Inr a, w3)"
      "start_command tool [''serve'', ''--config='' @ cfg, ''--mode=headless''] (join_path [dir, ''alarm.log'']) w3 = (Inl x, w')"
      by (auto simp: next_do_Inl Let_def)
    then have "idle w w3" "idle w3 w'" using i start_command_Inl by auto
    then show ?thesis by (rule idle_trans)
  qed (use i in simp)
next
  case False
  then have "snd (start_member e tool cluster name m w) = w"
    unfolding start_member_def by (simp add: not_le)
  then show ?thesis using assms by simp
qed

lemma stop_children_effect:
  "lw_signalled (stop_children cs w) = lw_signalled w @ map ch_proc cs
    \<and> lw_commands (stop_children cs w) = lw_commands w \<and> lw_root (stop_children cs w) = lw_root w
    \<and> lw_children (stop_children cs w) = fold (\<lambda>c. AList.delete (ch_pid_path c)) cs (lw_children w)"
  unfolding stop_children_def
  by (induction cs arbitrary: w) (simp_all add: del_child_def terminate_group_def)

lemma start_members_Inr:
  "start_members e tool cluster i ms started w = (Inr cs, w') \<Longrightarrow>
     lw_root w' = lw_root w \<and> lw_signalled w' = lw_signalled w
     \<and> lw_commands w' = lw_commands w @ map (member_command tool (lw_root w) cluster) (enumerate i ms)
     \<and> map ch_proc cs = map ch_proc started @ [length (lw_commands w)..<length (lw_commands w) + length ms]"
proof (induction ms arbitrary: i started w)
  case (Cons m ms)
  obtain c w1 where c: "start_member e tool cluster (member_name i m) m w = (Inr c, w1)"
    and r: "start_members e tool cluster (Suc i) ms (started @ [c]) w1 = (Inr cs, w')"
    using Cons.prems by (auto split: prod.splits sum.splits)
  note one = start_member_Inr(1-3) [OF c]
  have "[n..<n + length (m # ms)] = n # [Suc n..<Suc n + length ms]" for n by (simp add: upt_conv_Cons del: upt_Suc)
  then show ?case
    using Cons.IH [OF r] one by (simp add: member_command_def del: upt_Suc)
qed simp

lemma start_members_Inl:
  "start_members e tool cluster i ms started w = (Inl x, w') \<Longrightarrow>
     h \<in> set (map ch_proc started) \<or> length (lw_commands w) \<le> h \<and> h < length (lw_commands w') \<Longrightarrow> h \<in> set (lw_signalled w')"
proof (induction ms arbitrary: i started w)
  case (Cons m ms)
  show ?case
  proof (cases "start_member e tool cluster (member_name i m) m w")
    case (Pair r w1)
    show ?thesis
    proof (cases r)
      case (Inl y)
      then have "idle w w1" using start_member_Inl Pair by simp
      then have "lw_commands w1 = lw_commands w" by (simp add: idle_def)
      moreover have "w' = stop_children started w1" using Cons.prems(1) Pair Inl by simp
      ultimately show ?thesis using Cons.prems(2) stop_children_effect [of started w1] by auto
    next
      case (Inr c)
      then have r: "start_members e tool cluster (Suc i) ms (started @ [c]) w1 = (Inl x, w')"
        using Cons.prems(1) Pair by simp
      note one = start_member_Inr(1,2) [OF Pair [unfolded Inr]]
      have "h \<in> set (map ch_proc (started @ [c])) \<or> length (lw_commands w1) \<le> h \<and> h < length (lw_commands w')"
        using Cons.prems(2) one by auto
      then show ?thesis by (rule Cons.IH [OF r])
    qed
  qed
qed simp

lemma start_members_inside:
  assumes "safe_name cluster"
  shows "lab_ok w \<Longrightarrow> start_members e tool cluster i ms started w = (Inr cs, w') \<Longrightarrow> list_all (runs_inside (lw_root w)) ms"
proof (induction ms arbitrary: i started w)
  case (Cons m ms)
  obtain c w1 where c: "start_member e tool cluster (member_name i m) m w = (Inr c, w1)"
    and r: "start_members e tool cluster (Suc i) ms (started @ [c]) w1 = (Inr cs, w')"
    using Cons.prems by (auto split: prod.splits sum.splits)
  have g: "grows w w1" using grows_member [OF grows_refl [OF Cons.prems(1)] assms] c by (metis snd_conv)
  note one = start_member_Inr(4,5) [OF c]
  have n: "safe_name (member_name i m)" using c by (auto simp: start_member_def split: if_splits)
  define cfg where "cfg = join_path [join_path [join_path [lw_root w, cluster], member_name i m], ''config.yaml'']"
  have root: "is_abs (lw_root w)" using Cons.prems(1) by (simp add: lab_ok_def)
  have "is_abs cfg" "clean_path cfg = cfg"
    unfolding cfg_def by (simp_all add: join_path_abs clean_join_path root)
  then have "runs_inside (lw_root w) m"
    using accepted_config [of "lw_root w" "look_file w1" cfg m] one cfg_def by (simp add: look_file_def)
  then show ?case using Cons.IH [OF grows_ok [OF g] r] grows_root [OF g] by simp
qed simp

text \<open>
  C37: a request to start a lab starts every member or leaves none running. When it succeeds, one
  alarm per member was started, in order, with the configuration written under the slug of that
  member, and the runtime paths of every configuration lie below the root. When it fails, whatever
  it had started by then has been told to stop.
\<close>

theorem start_all_or_nothing:
  assumes "lab_ok w"
  shows "case start_lab e m w of
      (Inr cs, w') \<Rightarrow>
        (\<exists>tool. lw_commands w' = lw_commands w @ map (member_command tool (lw_root w) (ms_cluster m)) (enumerate 0 (ms_members m)))
        \<and> map ch_proc cs = [length (lw_commands w)..<length (lw_commands w')]
        \<and> list_all (runs_inside (lw_root w)) (ms_members m)
    | (Inl x, w') \<Rightarrow> {length (lw_commands w)..<length (lw_commands w')} \<subseteq> set (lw_signalled w')"
proof (cases "start_lab e m w")
  case (Pair r w')
  consider (early) "lw_commands w' = lw_commands w" "\<exists>x. r = Inl x"
    | (go) tool w1 where "sea_try (Not_Made (join_path [lw_root w, ms_cluster m])) w = (Inr (), w1)" "safe_name (ms_cluster m)"
      "start_members e tool (ms_cluster m) 0 (ms_members m) [] w1 = (r, w')"
    using Pair try_keeps(2) [of "Not_Made (join_path [lw_root w, ms_cluster m])" w]
    by (cases "sea_try (Not_Made (join_path [lw_root w, ms_cluster m])) w"; cases "fst (sea_try (Not_Made (join_path [lw_root w, ms_cluster m])) w)")
      (auto simp: start_lab_def split: if_splits option.splits)
  then show ?thesis
  proof cases
    case early
    then show ?thesis using Pair by auto
  next
    case go
    have g: "grows w w1" "idle w w1"
      using grows_try [OF grows_refl [OF assms], of "Not_Made (join_path [lw_root w, ms_cluster m])"]
        idle_try [OF idle_refl, of w "Not_Made (join_path [lw_root w, ms_cluster m])"] go(1) by simp_all
    have same: "lw_root w1 = lw_root w" "lw_commands w1 = lw_commands w" using g(2) by (simp_all add: idle_def)
    show ?thesis
    proof (cases r)
      case (Inl x)
      then show ?thesis using start_members_Inl go(3) Pair same by fastforce
    next
      case (Inr cs)
      note all = start_members_Inr [OF go(3) [unfolded Inr], unfolded same]
      show ?thesis
        using all start_members_inside [OF go(2) grows_ok [OF g(1)] go(3) [unfolded Inr]] Pair Inr same by auto
    qed
  qed
qed

end
