(* ===== verification/SeaSession.thy ===== *)
theory SeaSession
  imports SeaSafety
begin

text \<open>
  The session as a whole: one reply per request, ports given out once, and the end of a session,
  which signals everything the supervisor still knows, the hub last. The last section shows which
  requests make it forget a process.
\<close>

section \<open>What a request does not touch\<close>

text \<open>Requests do not write to the channel, do not replace the hub; only a pairing takes a port.\<close>

definition quiet :: "sea_world \<Rightarrow> sea_world \<Rightarrow> bool" where
  "quiet w w' \<longleftrightarrow> lw_sent w' = lw_sent w \<and> lw_hub w' = lw_hub w \<and> lw_lost w' = lw_lost w
     \<and> lw_used w' = lw_used w"

named_theorems quiets

lemmas quiet_next = next_do_carries [where P = "quiet w" for w]

lemma quiet_refl [quiets, simp]: "quiet w w"
  by (simp add: quiet_def)

lemma quiet_trans: "quiet u v \<Longrightarrow> quiet v w \<Longrightarrow> quiet u w"
  by (auto simp: quiet_def)

lemma quiet_idle: "idle s t \<Longrightarrow> quiet w s \<Longrightarrow> quiet w t"
  by (simp add: quiet_def idle_def)

lemma quiet_try [quiets]: "quiet w s \<Longrightarrow> quiet w (snd (sea_try e s))"
  by (simp add: quiet_def)

lemma quiet_write [quiets]: "quiet w s \<Longrightarrow> quiet w (snd (sea_write p c s))"
  using idle_write [of s s p c] by (simp add: quiet_idle)

lemma quiet_drop [quiets]: "quiet w s \<Longrightarrow> quiet w (drop_file p s)"
  by (simp add: quiet_def)

lemma quiet_terminate [quiets]: "quiet w s \<Longrightarrow> quiet w (terminate_group n s)"
  by (simp add: quiet_def terminate_group_def)

lemma quiet_add [quiets]: "quiet w s \<Longrightarrow> quiet w (add_child c s)"
  by (simp add: quiet_def add_child_def)

lemma quiet_del [quiets]: "quiet w s \<Longrightarrow> quiet w (del_child p s)"
  by (simp add: quiet_def del_child_def)

lemma quiet_command [quiets]: "quiet w s \<Longrightarrow> quiet w (snd (start_command b args log s))"
  unfolding start_command_def by (intro quiet_next quiets) (simp_all add: quiet_def)

lemma quiet_check [quiets]: "quiet w s \<Longrightarrow> quiet w (snd (check_config cfg s))"
  using idle_check [of s s cfg] by (simp add: quiet_idle)

lemma quiet_fold: "quiet w s \<Longrightarrow> (\<And>x t. quiet w t \<Longrightarrow> quiet w (f x t)) \<Longrightarrow> quiet w (fold f xs s)"
  by (induction xs arbitrary: s) auto

lemma quiet_each: "quiet w s \<Longrightarrow> (\<And>x t. quiet w t \<Longrightarrow> quiet w (snd (f x t))) \<Longrightarrow> quiet w (snd (sea_each f xs s))"
  by (induction xs arbitrary: s) (auto simp: split_beta Let_def)

lemma quiet_stop_known [quiets]: "quiet w s \<Longrightarrow> quiet w (stop_known p c s)"
  by (simp add: stop_known_def quiets)

lemma quiet_stop_children [quiets]: "quiet w s \<Longrightarrow> quiet w (stop_children cs s)"
  by (simp add: stop_children_def quiet_fold quiets)

lemma quiet_member [quiets]: "quiet w s \<Longrightarrow> quiet w (snd (start_member e tool cluster name m s))"
  by (auto simp: start_member_def Let_def quiets intro!: quiet_next quiets)

lemma quiet_members [quiets]: "quiet w s \<Longrightarrow> quiet w (snd (start_members e tool cluster i ms started s))"
proof (induction ms arbitrary: i started s)
  case (Cons m ms)
  show ?case
    using Cons.IH quiet_member [OF Cons.prems, of e tool cluster "member_name i m" m]
    by (auto simp: quiets split: prod.split sum.split)
qed simp

lemma quiet_start [quiets]: "quiet w s \<Longrightarrow> quiet w (snd (start_lab e m s))"
  by (auto simp: start_lab_def split: option.split intro!: quiet_next quiets)

lemma quiet_launch [quiets]: "quiet w s \<Longrightarrow> quiet w (snd (launch_adhd e tool d config s))"
proof -
  have last: "quiet w t \<Longrightarrow> quiet w (snd (case sea_write p c t of
      (Inl x, t') \<Rightarrow> (Inl x, terminate_group k t') | (Inr _, t') \<Rightarrow> (Inr k, t')))" for t p c k
    using quiet_write [of w t p c] by (auto simp: split_beta quiets split: prod.split sum.split)
  show "quiet w s \<Longrightarrow> quiet w (snd (launch_adhd e tool d config s))"
    unfolding launch_adhd_def Let_def by (intro quiet_next quiets last)
qed

lemma quiet_stop_alarm [quiets]: "quiet w s \<Longrightarrow> quiet w (snd (stop_alarm_pid_file e p s))"
  by (auto simp: stop_alarm_pid_file_def quiets split: option.split)

lemma quiet_stop_pid [quiets]: "quiet w s \<Longrightarrow> quiet w (snd (stop_pid_file e p want s))"
  by (auto simp: stop_pid_file_def Let_def quiets split: option.split intro!: quiet_drop) (simp_all add: quiet_def)

lemma quiet_stop [quiets]: "quiet w s \<Longrightarrow> quiet w (snd (stop_lab e m s))"
  by (auto simp: stop_lab_def Let_def split_beta intro!: quiet_each quiet_fold quiets)

lemma acquire_Inr:
  assumes "acquire free p w = (Inr q, w')"
  shows "q \<notin> set (lw_used w) \<and> free q \<and> w' = w\<lparr>lw_used := q # lw_used w\<rparr>
    \<and> (q = p \<and> 1 \<le> p \<or> cluster_port_low \<le> q \<and> q \<le> cluster_port_high)"
  using assms by (auto simp: acquire_def find_Some_iff split: if_splits option.splits dest!: nth_mem)

lemma acquire_Inl: "acquire free p w = (Inl x, w') \<Longrightarrow> w' = w"
  by (auto simp: acquire_def split: if_splits option.splits)

definition session_port :: "int \<Rightarrow> bool" where
  "session_port p \<longleftrightarrow> p = hub_preferred_port \<or> cluster_port_low \<le> p \<and> p \<le> cluster_port_high"

lemma start_adhd_cases:
  "(\<exists>x. start_adhd e m w = (Inl x, w))
    \<or> safe_name (ms_slug m) \<and> (\<exists>tool. start_adhd e m w = next_do (acquire (le_free e) 0 w) (pair_adhd e tool m))"
  unfolding start_adhd_def by (simp split: option.split) blast

text \<open>A pairing: at most one port taken, and the one taken is the one announced.\<close>

lemma start_adhd_effect:
  "\<exists>u. quiet (w\<lparr>lw_used := u\<rparr>) (snd (start_adhd e m w))
     \<and> (u = lw_used w \<or> (\<exists>p. u = p # lw_used w \<and> p \<notin> set (lw_used w) \<and> le_free e p
            \<and> cluster_port_low \<le> p \<and> p \<le> cluster_port_high))
     \<and> (\<forall>a. fst (start_adhd e m w) = Inr a \<longrightarrow> u = ad_port a # lw_used w
            \<and> ad_hub_endpoint a = (case lw_hub w of None \<Rightarrow> [] | Some h \<Rightarrow> hb_endpoint h))"
proof -
  consider (early) x where "start_adhd e m w = (Inl x, w)"
    | (go) p w1 tool where "acquire (le_free e) 0 w = (Inr p, w1)" "start_adhd e m w = pair_adhd e tool m p w1"
    using start_adhd_cases [of e m w] acquire_Inl [of "le_free e" 0 w]
    by (cases "acquire (le_free e) 0 w"; cases "fst (acquire (le_free e) 0 w)") auto
  then show ?thesis
  proof cases
    case early
    then show ?thesis by (intro exI [where x = "lw_used w"]) (simp add: quiet_def)
  next
    case go
    have p: "p \<notin> set (lw_used w)" "le_free e p" "w1 = w\<lparr>lw_used := p # lw_used w\<rparr>" "cluster_port_low \<le> p \<and> p \<le> cluster_port_high"
      using acquire_Inr [OF go(1)] by auto
    have q: "quiet w1 (snd (pair_adhd e tool m p w1))"
      unfolding pair_adhd_def Let_def by (intro quiet_next quiets) (simp_all add: quiets)
    have "fst (pair_adhd e tool m p w1) = Inr a \<Longrightarrow> ad_port a = p
        \<and> ad_hub_endpoint a = (case lw_hub (snd (pair_adhd e tool m p w1)) of None \<Rightarrow> [] | Some h \<Rightarrow> hb_endpoint h)" for a
      by (auto simp: pair_adhd_def Let_def next_do_def add_child_def split: prod.splits sum.splits)
    then show ?thesis using p q go(2) by (intro exI [where x = "p # lw_used w"]) (auto simp: quiet_def)
  qed
qed

lemma dispatch_effect:
  "lw_sent (snd (dispatch e m w)) = lw_sent w \<and> lw_hub (snd (dispatch e m w)) = lw_hub w \<and> lw_lost (snd (dispatch e m w)) = lw_lost w"
proof -
  have "lw_sent (snd (start_adhd e m w)) = lw_sent w \<and> lw_hub (snd (start_adhd e m w)) = lw_hub w \<and> lw_lost (snd (start_adhd e m w)) = lw_lost w"
    using start_adhd_effect [of w e m] by (auto simp: quiet_def)
  then show ?thesis
    using quiet_start [of w w e m] quiet_stop [of w w e m]
    by (auto simp: dispatch_def Let_def split_beta quiet_def split: prod.split sum.split)
qed

section \<open>Replies\<close>

lemma dispatch_reply: "ms_id (fst (dispatch e m w)) = ms_id m \<and> ms_type (fst (dispatch e m w)) = ''reply''"
  by (auto simp: dispatch_def Let_def reply_ok_def reply_error_def split: prod.split sum.split)

definition replies :: "sea_world \<Rightarrow> string list" where
  "replies w = map ms_id (filter (\<lambda>m. ms_type m = ''reply'') (lw_sent w))"

definition request_ids :: "(sea_env \<times> sea_message) list \<Rightarrow> string list" where
  "request_ids ems = map (ms_id \<circ> snd) (filter (\<lambda>em. ms_type (snd em) = ''request'') ems)"

lemma reply_effect:
  "(lw_lost w \<and> sea_reply m w = w)
    \<or> (lw_lost (sea_reply m w) \<and> lw_sent (sea_reply m w) = lw_sent w)
    \<or> (lw_lost (sea_reply m w) = lw_lost w \<and> lw_sent (sea_reply m w) = lw_sent w @ [m])"
  by (auto simp: sea_reply_def sea_try_def split_beta)

lemma handle_replies:
  "(lw_lost (handle_message em w) \<and> replies (handle_message em w) = replies w)
    \<or> (lw_lost (handle_message em w) = lw_lost w \<and> replies (handle_message em w) = replies w @ request_ids [em])"
proof -
  obtain e m where em: "em = (e, m)" by fastforce
  consider (hello) "ms_type m = ''hello''" | (request) "ms_type m = ''request''"
    | (other) "ms_type m \<noteq> ''hello''" "ms_type m \<noteq> ''request''" by auto
  then show ?thesis
  proof cases
    case hello
    show ?thesis
    proof (cases "lw_hub w")
      case (Some h)
      then show ?thesis
        using hello reply_effect [of w "no_message\<lparr>ms_v := protocol_version, ms_type := ''hub'', ms_hub := Some h\<rparr>"]
        by (auto simp: em handle_message_def announce_hub_def replies_def request_ids_def)
    qed (simp add: em hello handle_message_def announce_hub_def request_ids_def)
  next
    case request
    obtain r w1 where d: "dispatch e m w = (r, w1)" by fastforce
    have q: "lw_sent w1 = lw_sent w" "lw_lost w1 = lw_lost w" using dispatch_effect [of e m w] d by simp_all
    have i: "ms_id r = ms_id m" "ms_type r = ''reply''" using dispatch_reply [of e m w] d by simp_all
    have "handle_message em w = sea_reply r w1" using request d by (simp add: em handle_message_def)
    then show ?thesis
      using reply_effect [of w1 r] q i request by (auto simp: replies_def request_ids_def em)
  qed (simp add: em handle_message_def request_ids_def)
qed

lemma handle_lost: "lw_lost w \<Longrightarrow> lw_lost (handle_message em w) \<and> replies (handle_message em w) = replies w"
proof -
  assume l: "lw_lost w"
  obtain e m where em: "em = (e, m)" by fastforce
  have "lw_lost (sea_reply r s) \<and> replies (sea_reply r s) = replies s" if "lw_lost s" for r s
    using that by (simp add: sea_reply_def)
  moreover have "lw_lost (snd (dispatch e m w))" "replies (snd (dispatch e m w)) = replies w"
    using dispatch_effect [of e m w] l by (simp_all add: replies_def)
  ultimately show ?thesis
    using l by (auto simp: em handle_message_def announce_hub_def split_beta split: option.split)
qed

lemma handle_all_Cons: "handle_all (em # ems) w = handle_all ems (handle_message em w)"
  by (simp add: handle_all_def)

lemma handle_all_lost: "lw_lost w \<Longrightarrow> replies (handle_all ems w) = replies w \<and> lw_lost (handle_all ems w)"
proof (induction ems arbitrary: w)
  case (Cons em ems)
  then show ?case using handle_lost [of w em] by (simp add: handle_all_Cons)
qed (simp add: handle_all_def)

text \<open>
  Requests are answered in order, each exactly once under its own id, until the channel is
  lost; after that nothing is written to it.
\<close>

theorem one_reply_per_request:
  "\<exists>k \<le> length (request_ids ems).
     replies (handle_all ems w) = replies w @ take k (request_ids ems)
     \<and> (lw_lost (handle_all ems w) \<or> k = length (request_ids ems))"
proof (induction ems arbitrary: w)
  case Nil
  then show ?case by (simp add: handle_all_def request_ids_def)
next
  case (Cons em ems)
  let ?w = "handle_message em w"
  have ids: "request_ids (em # ems) = request_ids [em] @ request_ids ems" by (simp add: request_ids_def)
  show ?case
  proof (cases "lw_lost ?w \<and> replies ?w = replies w")
    case True
    then show ?thesis using handle_all_lost [of ?w ems] by (auto simp: handle_all_Cons intro!: exI [where x = 0])
  next
    case False
    then have "replies ?w = replies w @ request_ids [em]" using handle_replies [of em w] by auto
    moreover obtain k where "k \<le> length (request_ids ems)"
      "replies (handle_all ems ?w) = replies ?w @ take k (request_ids ems)"
      "lw_lost (handle_all ems ?w) \<or> k = length (request_ids ems)"
      using Cons.IH [of ?w] by blast
    ultimately show ?thesis
      unfolding ids handle_all_Cons by (intro exI [where x = "length (request_ids [em]) + k"]) auto
  qed
qed

section \<open>Ports\<close>

text \<open>The ports the app was told: the hub's and those of the paired instances.\<close>

definition announced :: "sea_world \<Rightarrow> int list" where
  "announced w =
     (case lw_hub w of None \<Rightarrow> [] | Some h \<Rightarrow> [hb_port h])
     @ List.map_filter (\<lambda>m. map_option ad_port (ms_adhd m)) (lw_sent w)"

definition ports_ok :: "sea_world \<Rightarrow> bool" where
  "ports_ok w \<longleftrightarrow> distinct (announced w) \<and> set (announced w) \<subseteq> set (lw_used w) \<and> list_all session_port (lw_used w)"

lemma ports_ok_more:
  "ports_ok w \<Longrightarrow> announced w' = announced w \<Longrightarrow> set (lw_used w) \<subseteq> set (lw_used w') \<Longrightarrow> list_all session_port (lw_used w')
    \<Longrightarrow> ports_ok w'"
  by (auto simp: ports_ok_def)

lemma announced_reply:
  "announced (sea_reply r w) = announced w
    \<or> announced (sea_reply r w) = announced w @ (case ms_adhd r of None \<Rightarrow> [] | Some a \<Rightarrow> [ad_port a])"
proof -
  have f: "List.map_filter g (xs @ ys) = List.map_filter g xs @ List.map_filter g ys" for g :: "sea_message \<Rightarrow> int option" and xs ys
    by (simp add: List.map_filter_def)
  show ?thesis
    by (auto simp: sea_reply_def sea_try_def split_beta announced_def f List.map_filter_simps split: option.split)
qed

lemma reply_used: "lw_used (sea_reply r w) = lw_used w"
  by (simp add: sea_reply_def sea_try_def split_beta)

lemma dispatch_ports:
  "\<exists>u. lw_used (snd (dispatch e m w)) = u \<and> announced (snd (dispatch e m w)) = announced w
     \<and> (case ms_adhd (fst (dispatch e m w)) of
          Some a \<Rightarrow> u = ad_port a # lw_used w \<and> ad_port a \<notin> set (lw_used w) \<and> session_port (ad_port a)
        | None \<Rightarrow> u = lw_used w \<or> (\<exists>p. u = p # lw_used w \<and> session_port p))"
proof -
  have a: "announced (snd (dispatch e m w)) = announced w"
    using dispatch_effect [of e m w] by (simp add: announced_def)
  have none: "ms_adhd (reply_ok i) = None" "ms_adhd (reply_error i x) = None" for i x
    by (simp_all add: reply_ok_def reply_error_def no_message_def)
  show ?thesis
  proof (cases "ms_want m = ''adhd'' \<and> (ms_v m = 0 \<or> ms_v m = protocol_version)")
    case True
    then have d: "dispatch e m w = (case start_adhd e m w of (Inl x, w') \<Rightarrow> (reply_error (ms_id m) x, w')
        | (Inr a, w') \<Rightarrow> ((reply_ok (ms_id m))\<lparr>ms_adhd := Some a\<rparr>, w'))"
      by (auto simp: dispatch_def Let_def)
    show ?thesis
      using start_adhd_effect [of w e m] a unfolding d
      by (cases "start_adhd e m w"; cases "fst (start_adhd e m w)") (auto simp: none quiet_def session_port_def)
  next
    case False
    then have "ms_adhd (fst (dispatch e m w)) = None" "lw_used (snd (dispatch e m w)) = lw_used w"
      using quiet_start [of w w e m] quiet_stop [of w w e m]
      by (auto simp: dispatch_def Let_def quiet_def none split: prod.split sum.split)
    then show ?thesis using a by simp
  qed
qed

lemma ports_handle: "ports_ok w \<Longrightarrow> ports_ok (handle_message em w)"
proof -
  assume ok: "ports_ok w"
  obtain e m where em: "em = (e, m)" by fastforce
  have "ms_type m \<noteq> ''request'' \<Longrightarrow> ms_type m \<noteq> ''hello'' \<or> lw_hub w = None \<Longrightarrow> handle_message em w = w"
    by (auto simp: em handle_message_def announce_hub_def)
  then consider (hello) h where "ms_type m = ''hello''" "lw_hub w = Some h" | (request) "ms_type m = ''request''"
    | (other) "handle_message em w = w" by blast
  then show ?thesis
  proof cases
    case hello
    define r where "r = no_message\<lparr>ms_v := protocol_version, ms_type := ''hub'', ms_hub := Some h\<rparr>"
    have "handle_message em w = sea_reply r w" using hello by (simp add: em handle_message_def announce_hub_def r_def)
    moreover have "ms_adhd r = None" by (simp add: r_def no_message_def)
    ultimately show ?thesis using announced_reply [of r w] ok by (auto simp: ports_ok_def reply_used)
  next
    case request
    obtain r w1 where d: "dispatch e m w = (r, w1)" by fastforce
    have h: "handle_message em w = sea_reply r w1" using request d by (simp add: em handle_message_def)
    show ?thesis
      using dispatch_ports [of e m w] announced_reply [of r w1] ok
      unfolding h d by (auto simp: ports_ok_def reply_used split: option.splits)
  qed (use ok in simp)
qed

lemma ports_handle_all: "ports_ok w \<Longrightarrow> ports_ok (handle_all ems w)"
  by (induction ems arbitrary: w) (simp_all add: handle_all_Cons ports_handle, simp add: handle_all_def)

lemma open_session_ports: "ports_ok (open_session e (empty_world root files faults))"
proof -
  define w where "w = empty_world root files faults"
  have w: "lw_used w = []" "lw_hub w = None" "lw_sent w = []" by (simp_all add: w_def empty_world_def)
  have start: "case start_hub e adhd c w of
      (Inl x, w') \<Rightarrow> lw_hub w' = None \<and> lw_sent w' = [] \<and> list_all session_port (lw_used w')
    | (Inr (h, n), w') \<Rightarrow> lw_sent w' = [] \<and> lw_used w' = [hb_port h] \<and> session_port (hb_port h)" for adhd c
  proof -
    define dir where "dir = join_path [lw_root w, hub_slug]"
    obtain r1 w1 where 1: "sea_try (Not_Made dir) w = (r1, w1)" by fastforce
    have w1: "lw_used w1 = []" "lw_hub w1 = None" "lw_sent w1 = []"
      using w try_keeps(6-8) [of "Not_Made dir" w] 1 by simp_all
    show ?thesis
    proof (cases r1)
      case (Inl x)
      then show ?thesis using 1 w1 by (simp add: start_hub_def Let_def dir_def)
    next
      case (Inr u)
      obtain r2 w2 where 2: "acquire (le_free e) hub_preferred_port w1 = (r2, w2)" by fastforce
      show ?thesis
      proof (cases r2)
        case (Inl x)
        then show ?thesis using 1 2 Inr w1 acquire_Inl [OF 2 [unfolded Inl]] by (simp add: start_hub_def Let_def dir_def)
      next
        case r2: (Inr p)
        have p: "lw_used w2 = [p]" "session_port p" "lw_hub w2 = None" "lw_sent w2 = []"
          using acquire_Inr [OF 2 [unfolded r2]] w1 by (auto simp: session_port_def)
        have "quiet w2 (snd (launch_adhd e adhd dir (hub_config p c) w2))" by (intro quiets)
        then show ?thesis
          using 1 2 Inr r2 p
          by (cases "launch_adhd e adhd dir (hub_config p c) w2"; cases "fst (launch_adhd e adhd dir (hub_config p c) w2)")
            (auto simp: start_hub_def Let_def dir_def quiet_def)
      qed
    qed
  qed
  show ?thesis
  proof (cases "le_tool e ''adhd''")
    case None
    then show ?thesis
      using w by (simp add: open_session_def ports_ok_def announced_def w_def [symmetric] List.map_filter_simps)
  next
    case (Some adhd)
    show ?thesis
      using start [of adhd "[]"] Some unfolding w_def [symmetric]
      by (cases "start_hub e adhd [] w"; cases "fst (start_hub e adhd [] w)")
        (auto simp: open_session_def ports_ok_def announced_def add_child_def List.map_filter_simps)
  qed
qed

text \<open>
  Over a whole session the ports the app is told, the hub's and one for each pairing, are all
  different, and each is 9090 or lies between 9190 and 9289.
\<close>

theorem session_ports_distinct:
  "distinct (announced (handle_all ems (open_session e (empty_world root files faults))))
    \<and> list_all session_port (announced (handle_all ems (open_session e (empty_world root files faults))))"
  using ports_handle_all [OF open_session_ports, of ems e root files faults]
  by (auto simp: ports_ok_def list_all_iff)

section \<open>The end of a session\<close>

text \<open>Every process started is told to stop, is the child of some pid path, or is excepted.\<close>

definition tracked :: "nat set \<Rightarrow> sea_world \<Rightarrow> bool" where
  "tracked X w \<longleftrightarrow> table_ok (lw_children w)
     \<and> (\<forall>h < length (lw_commands w). h \<in> X \<or> h \<in> set (lw_signalled w)
          \<or> (\<exists>p c. map_of (lw_children w) p = Some c \<and> ch_proc c = h))"

lemma tracked_idle: "idle w w' \<Longrightarrow> tracked X w \<Longrightarrow> tracked X w'"
  by (simp add: tracked_def idle_def)

lemma stop_known_effect [simp]:
  "lw_children (stop_known p c w) = AList.delete p (lw_children w)"
  "lw_signalled (stop_known p c w) = lw_signalled w @ [ch_proc c]"
  "lw_commands (stop_known p c w) = lw_commands w"
  by (simp_all add: stop_known_def drop_file_def del_child_def terminate_group_def)

lemma tracked_stop_known:
  assumes "tracked X w" "map_of (lw_children w) p = Some c"
  shows "tracked X (stop_known p c w)"
proof -
  have "h \<in> X \<or> h \<in> set (lw_signalled w @ [ch_proc c])
      \<or> (\<exists>q d. map_of (AList.delete p (lw_children w)) q = Some d \<and> ch_proc d = h)"
    if "h < length (lw_commands w)" for h
  proof -
    consider "h \<in> X \<or> h \<in> set (lw_signalled w)" | q d where "map_of (lw_children w) q = Some d" "ch_proc d = h"
      using assms(1) \<open>h < length (lw_commands w)\<close> by (auto simp: tracked_def)
    then show ?thesis
    proof cases
      case 2
      then show ?thesis using assms(2) by (cases "q = p") (auto intro!: exI [where x = q])
    qed auto
  qed
  then show ?thesis using assms(1) by (simp add: tracked_def table_ok_delete)
qed

lemma tracked_stop_at: "tracked X w \<Longrightarrow> tracked X (stop_at p w)"
  by (simp add: stop_at_def tracked_stop_known split: option.split)

text \<open>A fold over known and different paths signals their processes in that order.\<close>

lemma fold_stop_at:
  "distinct ps \<Longrightarrow> set ps \<subseteq> dom (map_of (lw_children w)) \<Longrightarrow>
     lw_signalled (fold stop_at ps w) = lw_signalled w @ map (\<lambda>p. ch_proc (the (map_of (lw_children w) p))) ps
     \<and> lw_commands (fold stop_at ps w) = lw_commands w
     \<and> map_of (lw_children (fold stop_at ps w)) = map_of (lw_children w) |` (- set ps)"
proof (induction ps arbitrary: w)
  case (Cons p ps)
  obtain c where c: "map_of (lw_children w) p = Some c" using Cons.prems(2) by auto
  then have s: "stop_at p w = stop_known p c w" by (simp add: stop_at_def)
  have d: "set ps \<subseteq> dom (map_of (lw_children (stop_known p c w)))" using Cons.prems by auto
  have "map (\<lambda>q. ch_proc (the (map_of (lw_children (stop_known p c w)) q))) ps = map (\<lambda>q. ch_proc (the (map_of (lw_children w) q))) ps"
    using Cons.prems(1) by auto
  then show ?case
    using Cons.IH [OF _ d] Cons.prems(1) c by (auto simp: s restrict_map_def fun_eq_iff)
qed (simp add: restrict_map_def)

definition of_kind :: "bool \<Rightarrow> sea_world \<Rightarrow> nat set" where
  "of_kind hub w = {ch_proc c | p c. map_of (lw_children w) p = Some c \<and> (ch_kind c = Hub_Child) = hub}"

lemma stop_order_parts:
  assumes "table_ok (lw_children w)"
  shows "distinct (stop_order w)" "set (stop_order w) = dom (map_of (lw_children w))"
proof -
  let ?h = "\<lambda>b. filter (\<lambda>pc. (ch_kind (snd pc) = Hub_Child) = b) (lw_children w)"
  have d: "distinct (map fst (?h b))" for b
    using assms by (simp add: table_ok_def distinct_map_filter)
  have "fst ` set (?h False) \<inter> fst ` set (?h True) = {}"
    using assms by (auto simp: table_ok_def dest: eq_key_imp_eq_value)
  then show "distinct (stop_order w)" using d [of True] d [of False] by (simp add: stop_order_def)
  show "set (stop_order w) = dom (map_of (lw_children w))"
    by (auto simp: stop_order_def dom_map_of_conv_image_fst image_iff)
qed

lemma kind_paths:
  assumes "table_ok (lw_children w)"
  shows "(\<lambda>p. ch_proc (the (map_of (lw_children w) p))) ` fst ` set (filter (\<lambda>pc. (ch_kind (snd pc) = Hub_Child) = b) (lw_children w))
    = of_kind b w"
  using table_ok_map_of [OF assms] by (force simp: of_kind_def image_iff)

text \<open>
  The end of a session tells every child to stop and forgets it, and the hub is told after
  every other child.
\<close>

theorem hub_stops_last:
  assumes "table_ok (lw_children w)"
  shows "lw_children (clean_up w) = []
    \<and> (\<exists>xs ys. lw_signalled (clean_up w) = lw_signalled w @ xs @ ys \<and> set xs = of_kind False w \<and> set ys = of_kind True w
        \<and> length (xs @ ys) = length (lw_children w))"
proof -
  define a where "a = sort (map fst (filter (\<lambda>pc. ch_kind (snd pc) \<noteq> Hub_Child) (lw_children w)))"
  define b where "b = sort (map fst (filter (\<lambda>pc. ch_kind (snd pc) = Hub_Child) (lw_children w)))"
  let ?f = "\<lambda>p. ch_proc (the (map_of (lw_children w) p))"
  have so: "stop_order w = a @ b" by (simp add: stop_order_def a_def b_def)
  note f = fold_stop_at [OF stop_order_parts(1) [OF assms] equalityD1 [OF stop_order_parts(2) [OF assms]]]
  have "map_of (lw_children (clean_up w)) = Map.empty"
    using f stop_order_parts(2) [OF assms] by (auto simp: clean_up_def restrict_map_def fun_eq_iff)
  then have "lw_children (clean_up w) = []" by simp
  moreover have "lw_signalled (clean_up w) = lw_signalled w @ map ?f a @ map ?f b"
    using f by (simp add: clean_up_def so)
  moreover have "set (map ?f a) = of_kind False w" "set (map ?f b) = of_kind True w"
    using kind_paths [OF assms, of False] kind_paths [OF assms, of True] by (simp_all add: a_def b_def)
  moreover have "length (map ?f a @ map ?f b) = length (lw_children w)"
    by (simp add: a_def b_def) (metis add.commute sum_length_filter_compl)
  ultimately show ?thesis by blast
qed

lemma tracked_clean_up:
  assumes "tracked X w"
  shows "\<forall>h < length (lw_commands w). h \<in> X \<or> h \<in> set (lw_signalled (clean_up w))" "lw_commands (clean_up w) = lw_commands w"
proof -
  have ok: "table_ok (lw_children w)" using assms by (simp add: tracked_def)
  note f = fold_stop_at [OF stop_order_parts(1) [OF ok] equalityD1 [OF stop_order_parts(2) [OF ok]]]
  show c: "lw_commands (clean_up w) = lw_commands w" using f by (simp add: clean_up_def)
  have "tracked X t \<Longrightarrow> tracked X (fold stop_at ps t)" for ps t
    by (induction ps arbitrary: t) (simp_all add: tracked_stop_at)
  then have "tracked X (clean_up w)" using assms by (simp add: clean_up_def)
  then show "\<forall>h < length (lw_commands w). h \<in> X \<or> h \<in> set (lw_signalled (clean_up w))"
    using hub_stops_last [OF ok] c by (auto simp: tracked_def)
qed

section \<open>Requests on fresh paths\<close>

definition member_pid_path :: "string \<Rightarrow> string \<Rightarrow> nat \<times> sea_member \<Rightarrow> string" where
  "member_pid_path root cluster im =
     join_path [join_path [join_path [root, cluster], member_name (fst im) (snd im)], ''ocd-smoke-alarm.pid'']"

definition adhd_pid_path :: "string \<Rightarrow> string \<Rightarrow> string" where
  "adhd_pid_path root slug = join_path [join_path [root, slug], ''adhd.pid'']"

text \<open>No request names a pid path that is in use, by two members or by an earlier start.\<close>

definition fresh_request :: "sea_message \<Rightarrow> sea_world \<Rightarrow> bool" where
  "fresh_request m w \<longleftrightarrow>
     (if ms_type m \<noteq> ''request'' then True
      else if ms_want m = ''start'' then
        (let ps = map (member_pid_path (lw_root w) (ms_cluster m)) (enumerate 0 (ms_members m)) in
         distinct ps \<and> list_all (\<lambda>p. map_of (lw_children w) p = None) ps)
      else if ms_want m = ''adhd'' then map_of (lw_children w) (adhd_pid_path (lw_root w) (ms_slug m)) = None
      else True)"

fun fresh_run :: "(sea_env \<times> sea_message) list \<Rightarrow> sea_world \<Rightarrow> bool" where
  "fresh_run [] w \<longleftrightarrow> True"
| "fresh_run (em # ems) w \<longleftrightarrow> fresh_request (snd em) w \<and> fresh_run ems (handle_message em w)"

lemma tracked_new_child:
  assumes "tracked X w" "lw_commands w' = lw_commands w @ [argv]" "lw_signalled w' = lw_signalled w"
    "lw_children w' = AList.update p c (lw_children w)" "ch_proc c = length (lw_commands w)" "map_of (lw_children w) p = None"
  shows "tracked X w'"
proof -
  have "h \<in> X \<or> h \<in> set (lw_signalled w') \<or> (\<exists>q d. map_of (lw_children w') q = Some d \<and> ch_proc d = h)"
    if "h < length (lw_commands w')" for h
  proof (cases "h = length (lw_commands w)")
    case True
    then show ?thesis using assms(4,5) by auto
  next
    case False
    then have "h < length (lw_commands w)" using that assms(2) by simp
    then consider "h \<in> X \<or> h \<in> set (lw_signalled w)" | q d where "map_of (lw_children w) q = Some d" "ch_proc d = h"
      using assms(1) by (auto simp: tracked_def)
    then show ?thesis
    proof cases
      case 2
      then have "q \<noteq> p" using assms(6) by auto
      then show ?thesis using 2 assms(4) by auto
    qed (use assms(3) in auto)
  qed
  then show ?thesis using assms(1,4) by (simp add: tracked_def table_ok_update)
qed

lemma fold_delete: "map_of (fold (\<lambda>c. AList.delete (ch_pid_path c)) cs t) = map_of t |` (- ch_pid_path ` set cs)"
  by (induction cs arbitrary: t) (auto simp: restrict_map_def fun_eq_iff)

lemma fold_delete_ok: "table_ok t \<Longrightarrow> table_ok (fold (\<lambda>c. AList.delete (ch_pid_path c)) cs t)"
  by (induction cs arbitrary: t) (simp_all add: table_ok_delete)

lemma tracked_stop_children:
  assumes "tracked X w" "list_all (\<lambda>c. map_of (lw_children w) (ch_pid_path c) = Some c) cs"
  shows "tracked X (stop_children cs w)"
proof -
  note e = stop_children_effect [of cs w]
  have "h \<in> X \<or> h \<in> set (lw_signalled w @ map ch_proc cs)
      \<or> (\<exists>q d. map_of (fold (\<lambda>c. AList.delete (ch_pid_path c)) cs (lw_children w)) q = Some d \<and> ch_proc d = h)"
    if "h < length (lw_commands w)" for h
  proof -
    consider "h \<in> X \<or> h \<in> set (lw_signalled w)" | q d where "map_of (lw_children w) q = Some d" "ch_proc d = h"
      using assms(1) \<open>h < length (lw_commands w)\<close> by (auto simp: tracked_def)
    then show ?thesis
    proof cases
      case 2
      then show ?thesis
        using assms(2) by (cases "q \<in> ch_pid_path ` set cs") (auto simp: list_all_iff fold_delete restrict_map_def)
    qed auto
  qed
  moreover have "table_ok (fold (\<lambda>c. AList.delete (ch_pid_path c)) cs (lw_children w))"
    using assms(1) by (intro fold_delete_ok) (simp add: tracked_def)
  ultimately show ?thesis using e by (simp add: tracked_def)
qed

lemma tracked_members:
  assumes "start_members e tool cluster i ms started w = (r, w')" "tracked X w"
    "list_all (\<lambda>c. map_of (lw_children w) (ch_pid_path c) = Some c) started"
    "distinct (map (member_pid_path (lw_root w) cluster) (enumerate i ms))"
    "list_all (\<lambda>p. map_of (lw_children w) p = None) (map (member_pid_path (lw_root w) cluster) (enumerate i ms))"
  shows "tracked X w'"
  using assms
proof (induction ms arbitrary: i started w)
  case (Cons m ms)
  let ?p = "member_pid_path (lw_root w) cluster (i, m)"
  show ?case
  proof (cases "start_member e tool cluster (member_name i m) m w")
    case (Pair q w1)
    show ?thesis
    proof (cases q)
      case (Inl x)
      then have i: "idle w w1" using start_member_Inl Pair by simp
      then have "lw_children w1 = lw_children w" by (simp add: idle_def)
      then show ?thesis
        using Cons.prems(1,3) Pair Inl tracked_stop_children [OF tracked_idle [OF i Cons.prems(2)]] by auto
    next
      case (Inr c)
      note one = start_member_Inr(1-3) [OF Pair [unfolded Inr]]
      have c: "ch_pid_path c = ?p" "ch_proc c = length (lw_commands w)" using one(2) by (simp_all add: member_pid_path_def)
      have new: "map_of (lw_children w) ?p = None" using Cons.prems(5) by simp
      have t: "tracked X w1"
        by (rule tracked_new_child [OF Cons.prems(2) one(1)]) (use one(3) c new in auto)
      have r: "start_members e tool cluster (Suc i) ms (started @ [c]) w1 = (r, w')"
        using Cons.prems(1) Pair Inr by simp
      have root: "lw_root w1 = lw_root w" and ch: "lw_children w1 = AList.update ?p c (lw_children w)" using one(3) c by simp_all
      have s: "list_all (\<lambda>c. map_of (lw_children w1) (ch_pid_path c) = Some c) (started @ [c])"
        using Cons.prems(3) new c by (auto simp: list_all_iff ch)
      have f: "list_all (\<lambda>p. map_of (lw_children w1) p = None) (map (member_pid_path (lw_root w1) cluster) (enumerate (Suc i) ms))"
        unfolding list_all_iff root ch
      proof
        fix p assume p: "p \<in> set (map (member_pid_path (lw_root w) cluster) (enumerate (Suc i) ms))"
        have "?p \<notin> set (map (member_pid_path (lw_root w) cluster) (enumerate (Suc i) ms))"
          using Cons.prems(4) by simp
        then have "p \<noteq> ?p" using p by blast
        moreover have "map_of (lw_children w) p = None" using p Cons.prems(5) by (auto simp: list_all_iff)
        ultimately show "map_of (AList.update ?p c (lw_children w)) p = None" by simp
      qed
      show ?thesis by (rule Cons.IH [OF r t s _ f]) (use Cons.prems(4) root in simp)
    qed
  qed
qed simp

lemma tracked_start:
  assumes "tracked X w" "fresh_request m w" "ms_type m = ''request''" "ms_want m = ''start''"
  shows "tracked X (snd (start_lab e m w))"
proof -
  let ?t = "sea_try (Not_Made (join_path [lw_root w, ms_cluster m])) w"
  have i: "idle w (snd ?t)" by (intro idles)
  have "tracked X (snd (start_members e tool (ms_cluster m) 0 (ms_members m) [] (snd ?t)))" for tool
    by (rule tracked_members [OF _ tracked_idle [OF i assms(1)], where r = "fst (start_members e tool (ms_cluster m) 0 (ms_members m) [] (snd ?t))"])
      (use assms(2-) in \<open>auto simp: fresh_request_def Let_def\<close>)
  then show ?thesis
    using tracked_idle [OF i assms(1)] assms(1)
    by (cases ?t; cases "fst ?t") (auto simp: start_lab_def split: option.split)
qed

lemma launch_effect:
  "case launch_adhd e tool dir config w of
     (Inl x, w') \<Rightarrow> idle w w'
       \<or> (\<exists>a. lw_commands w' = lw_commands w @ [a] \<and> lw_signalled w' = lw_signalled w @ [length (lw_commands w)]
            \<and> lw_children w' = lw_children w \<and> lw_root w' = lw_root w)
   | (Inr n, w') \<Rightarrow> n = length (lw_commands w) \<and> lw_root w' = lw_root w
       \<and> (\<exists>a. lw_commands w' = lw_commands w @ [a]) \<and> lw_signalled w' = lw_signalled w \<and> lw_children w' = lw_children w"
proof -
  define cfg where "cfg = join_path [dir, ''adhd.yaml'']"
  obtain r1 w1 where 1: "sea_write cfg config w = (r1, w1)" by fastforce
  have i1: "idle w w1" using idle_write [of w w cfg config] 1 by simp
  show ?thesis
  proof (cases r1)
    case (Inl x)
    then show ?thesis using 1 i1 by (simp add: launch_adhd_def cfg_def)
  next
    case (Inr u)
    obtain r2 w2 where 2: "start_command tool [''--headless'', ''--config'', cfg] (join_path [dir, ''adhd.log'']) w1 = (r2, w2)"
      by fastforce
    show ?thesis
    proof (cases r2)
      case (Inl x)
      then have "idle w w2" using 2 start_command_Inl i1 idle_trans by blast
      then show ?thesis using 1 2 Inr Inl by (simp add: launch_adhd_def cfg_def)
    next
      case r2: (Inr n)
      note c = start_command_Inr [OF 2 [unfolded r2]]
      obtain r3 w3 where 3: "sea_write (join_path [dir, ''adhd.pid'']) (dec_int (le_pid e n) @ [CHR 0x0A]) w2 = (r3, w3)" by fastforce
      have "idle w2 w3"
        using idle_write [of w2 w2 "join_path [dir, ''adhd.pid'']" "dec_int (le_pid e n) @ [CHR 0x0A]"] 3 by simp
      then show ?thesis
        using 1 2 3 Inr r2 c i1
        by (cases r3) (auto simp: launch_adhd_def cfg_def idle_def terminate_group_def)
    qed
  qed
qed

lemma tracked_launch_failed:
  assumes "tracked X w" "lw_commands w' = lw_commands w @ [a]" "lw_signalled w' = lw_signalled w @ [length (lw_commands w)]"
    "lw_children w' = lw_children w"
  shows "tracked X w'"
proof -
  have "h < length (lw_commands w) \<or> h = length (lw_commands w)" if "h < length (lw_commands w')" for h
    using that assms(2) by auto
  then show ?thesis using assms unfolding tracked_def by (metis Un_iff list.set_intros(1) set_append)
qed

lemma acquire_same: "idle (snd (acquire free p w)) (w\<lparr>lw_used := lw_used (snd (acquire free p w))\<rparr>)"
  by (auto simp: acquire_def idle_def split: option.split)

lemma tracked_used: "tracked X (w\<lparr>lw_used := u\<rparr>) \<longleftrightarrow> tracked X w"
  by (simp add: tracked_def)

lemma tracked_pair:
  assumes t: "tracked X w" and f: "map_of (lw_children w) (adhd_pid_path (lw_root w) (ms_slug m)) = None"
  shows "tracked X (snd (pair_adhd e tool m p w))"
proof -
  define dir where "dir = join_path [lw_root w, ms_slug m]"
  define config where "config = sea_adhd_config (ms_slug m) (ms_health_ports m) p (ms_gherkin m)"
  obtain r1 w1 where 1: "sea_try (Not_Made dir) w = (r1, w1)" by fastforce
  have i: "idle w w1" using idle_try [of w w "Not_Made dir"] 1 by simp
  note t1 = tracked_idle [OF i t]
  obtain r2 w2 where 2: "launch_adhd e tool dir config w1 = (r2, w2)" by fastforce
  note l = launch_effect [where e = e and tool = tool and dir = dir and config = config and w = w1, unfolded 2]
  have t2: "tracked X w2" if "r2 = Inl x" for x
    using l that tracked_idle [of w1 w2 X] tracked_launch_failed [OF t1, of w2] t1 by auto
  have "tracked X (add_child k w2)" if rn: "r2 = Inr n" and kn: "ch_proc k = n" "ch_pid_path k = adhd_pid_path (lw_root w) (ms_slug m)" for n k
  proof -
    have ch: "lw_children w1 = lw_children w" using i by (simp add: idle_def)
    obtain a where a: "lw_commands w2 = lw_commands w1 @ [a]" "lw_signalled w2 = lw_signalled w1" "lw_children w2 = lw_children w1"
      "n = length (lw_commands w1)" using l rn by auto
    show ?thesis
      by (rule tracked_new_child [OF t1, where argv = a and p = "ch_pid_path k" and c = k])
        (use a kn f ch in \<open>simp_all add: add_child_def\<close>)
  qed
  moreover have "adhd_pid_path (lw_root w) (ms_slug m) = join_path [dir, ''adhd.pid'']"
    by (simp add: adhd_pid_path_def dir_def)
  ultimately show ?thesis
    unfolding pair_adhd_def Let_def dir_def [symmetric] config_def [symmetric] 1
    using 2 t1 t2 by (cases r1; cases r2) simp_all
qed

lemma tracked_adhd:
  assumes "tracked X w" "fresh_request m w" "ms_type m = ''request''" "ms_want m = ''adhd''"
  shows "tracked X (snd (start_adhd e m w))"
proof -
  consider (early) x where "start_adhd e m w = (Inl x, w)"
    | (go) tool where "start_adhd e m w = next_do (acquire (le_free e) 0 w) (pair_adhd e tool m)"
    using start_adhd_cases [of e m w] by blast
  then show ?thesis
  proof cases
    case go
    obtain r w1 where a: "acquire (le_free e) 0 w = (r, w1)" by fastforce
    then have "w1 = w \<or> (\<exists>u. w1 = w\<lparr>lw_used := u\<rparr>)" using acquire_Inl acquire_Inr by (cases r) blast+
    then have "tracked X w1" "lw_children w1 = lw_children w" "lw_root w1 = lw_root w"
      using assms(1) by (auto simp: tracked_used)
    then show ?thesis
      using go a assms(2-) tracked_pair [of X w1 m e tool] by (cases r) (auto simp: fresh_request_def)
  qed (use assms(1) in simp)
qed

lemma tracked_drop: "tracked X w \<Longrightarrow> tracked X (drop_file p w)"
  by (simp add: tracked_def)

lemma tracked_stop_alarm: "tracked X w \<Longrightarrow> tracked X (snd (stop_alarm_pid_file e p w))"
  by (simp add: stop_alarm_pid_file_def tracked_stop_known tracked_drop split: option.split)

lemma tracked_stop_pid: "tracked X w \<Longrightarrow> tracked X (snd (stop_pid_file e p want w))"
proof -
  assume t: "tracked X w"
  then have "tracked X (w\<lparr>lw_pids := x\<rparr>)" for x by (simp add: tracked_def)
  then show ?thesis
    using t by (simp add: stop_pid_file_def Let_def tracked_stop_known tracked_drop split: option.split)
qed

lemma tracked_each: "tracked X w \<Longrightarrow> (\<And>x t. tracked X t \<Longrightarrow> tracked X (snd (f x t))) \<Longrightarrow> tracked X (snd (sea_each f xs w))"
  by (induction xs arbitrary: w) (auto simp: split_beta Let_def)

lemma tracked_fold_stop:
  "tracked X w \<Longrightarrow> distinct (map fst xs) \<Longrightarrow> list_all (\<lambda>(p, c). map_of (lw_children w) p = Some c) xs
    \<Longrightarrow> tracked X (fold (\<lambda>(p, c). stop_known p c) xs w)"
proof (induction xs arbitrary: w)
  case (Cons pc xs)
  obtain p c where pc: "pc = (p, c)" by fastforce
  have "list_all (\<lambda>(q, d). map_of (lw_children (stop_known p c w)) q = Some d) xs"
    using Cons.prems(2,3) pc by (force simp: list_all_iff)
  then show ?case using Cons.IH [of "stop_known p c w"] Cons.prems pc tracked_stop_known [of X w p c] by simp
qed simp

lemma tracked_stop: "tracked X w \<Longrightarrow> tracked X (snd (stop_lab e m w))"
proof -
  assume t: "tracked X w"
  have "distinct (map fst (filter (of_cluster c) (lw_children w)))" for c
    using t by (simp add: tracked_def table_ok_def distinct_map_filter)
  moreover have "list_all (\<lambda>(p, c). map_of (lw_children w) p = Some c) (filter (of_cluster k) (lw_children w))" for k
    using t table_ok_map_of [of "lw_children w"] by (auto simp: list_all_iff tracked_def)
  ultimately have "tracked X (fold (\<lambda>(p, c). stop_known p c) (filter (of_cluster k) (lw_children w)) w)" for k
    using tracked_fold_stop [OF t] by blast
  then show ?thesis
    using t by (auto simp: stop_lab_def Let_def split_beta intro!: tracked_each tracked_stop_alarm tracked_stop_pid)
qed

lemma tracked_reply: "tracked X w \<Longrightarrow> tracked X (sea_reply r w)"
  by (auto simp: sea_reply_def sea_try_def split_beta tracked_def)

lemma tracked_handle:
  assumes t: "tracked X w" and f: "fresh_request (snd em) w"
  shows "tracked X (handle_message em w)"
proof -
  obtain e m where em: "em = (e, m)" by fastforce
  have "tracked X (snd (dispatch e m w))" if "ms_type m = ''request''"
    using tracked_start [OF t, of m e] tracked_adhd [OF t, of m e] tracked_stop [OF t, of e m] that f t em
    by (auto simp: dispatch_def Let_def split_beta split: prod.split sum.split)
  then show ?thesis
    using t by (auto simp: em handle_message_def announce_hub_def split_beta tracked_reply split: option.split)
qed

section \<open>A whole session\<close>

text \<open>The messages handled before the session ends.\<close>

fun event_messages :: "sea_event list \<Rightarrow> (sea_env \<times> sea_message) list" where
  "event_messages (Message em # es) = em # event_messages es"
| "event_messages es = []"

lemma sea_loop_ends:
  "sea_loop app evs w = (Some r, w') \<Longrightarrow>
     \<exists>u. w' = clean_up u \<and> (u = handle_all (event_messages evs) w \<or> u = terminate_group app (handle_all (event_messages evs) w))"
proof (induction evs arbitrary: w)
  case (Cons ev evs)
  then show ?case
    by (cases ev) (force simp: handle_all_def)+
qed simp

lemma tracked_handle_all: "tracked X w \<Longrightarrow> fresh_run ems w \<Longrightarrow> tracked X (handle_all ems w)"
  by (induction ems arbitrary: w) (simp_all add: handle_all_Cons tracked_handle, simp add: handle_all_def)

lemma tracked_open: "tracked {} (open_session e (empty_world root files faults))"
proof -
  define w where "w = empty_world root files faults"
  have w: "tracked {} w" "lw_children w = []" "lw_root w = root" by (simp_all add: tracked_def w_def empty_world_def)
  define dir where "dir = join_path [root, hub_slug]"
  have hub: "case start_hub e tool [] w of (Inl x, w') \<Rightarrow> tracked {} w'
      | (Inr (h, n), w') \<Rightarrow> tracked {} (add_child \<lparr>ch_proc = n, ch_cluster = hub_slug, ch_pid_path = hb_pid_path h, ch_kind = Hub_Child\<rparr> (w'\<lparr>lw_hub := Some h\<rparr>))"
    for tool
  proof -
    obtain r1 w1 where 1: "sea_try (Not_Made dir) w = (r1, w1)" by fastforce
    have i: "idle w w1" using idle_try [of w w "Not_Made dir"] 1 by simp
    obtain r2 w2 where 2: "acquire (le_free e) hub_preferred_port w1 = (r2, w2)" by fastforce
    have "w2 = w1 \<or> (\<exists>u. w2 = w1\<lparr>lw_used := u\<rparr>)" using acquire_Inl acquire_Inr 2 by (cases r2) blast+
    then have t: "tracked {} w1" "tracked {} w2" "lw_children w2 = []"
      using tracked_idle [OF i w(1)] i w(2) by (auto simp: tracked_used idle_def)
    show ?thesis
    proof (cases "(\<exists>x. r1 = Inl x) \<or> (\<exists>x. r2 = Inl x)")
      case True
      then show ?thesis using 1 2 t w(3) by (cases r1; cases r2) (auto simp: start_hub_def Let_def dir_def)
    next
      case False
      then obtain u p where r: "r1 = Inr u" "r2 = Inr p" by (cases r1; cases r2) auto
      obtain r3 w3 where 3: "launch_adhd e tool dir (hub_config p []) w2 = (r3, w3)" by fastforce
      note l = launch_effect [where e = e and tool = tool and dir = dir and config = "hub_config p []" and w = w2, unfolded 3]
      have s: "start_hub e tool [] w = next_do (r3, w3) (\<lambda>n w3.
          (Inr (\<lparr>hb_endpoint = loopback_url p @ ''/mcp'', hb_port = p, hb_config_path = join_path [dir, ''adhd.yaml''],
                 hb_pid_path = join_path [dir, ''adhd.pid'']\<rparr>, n), w3))"
        using 1 2 3 r w(3) by (simp add: start_hub_def Let_def dir_def)
      show ?thesis
      proof (cases r3)
        case (Inl x)
        then show ?thesis using s l t tracked_idle [of w2 w3] tracked_launch_failed [OF t(2), of w3] by auto
      next
        case (Inr n)
        then obtain a where a: "lw_commands w3 = lw_commands w2 @ [a]" "lw_signalled w3 = lw_signalled w2"
          "lw_children w3 = lw_children w2" "n = length (lw_commands w2)" using l by auto
        show ?thesis
          unfolding s Inr
          by (simp, rule tracked_new_child [OF t(2), where argv = a and p = "join_path [dir, ''adhd.pid'']"
                and c = "\<lparr>ch_proc = n, ch_cluster = hub_slug, ch_pid_path = join_path [dir, ''adhd.pid''], ch_kind = Hub_Child\<rparr>"])
            (use a t(3) in \<open>simp_all add: add_child_def\<close>)
      qed
    qed
  qed
  show ?thesis
  proof (cases "le_tool e ''adhd''")
    case (Some tool)
    then show ?thesis
      using hub [of tool] unfolding w_def [symmetric]
      by (cases "start_hub e tool [] w"; cases "fst (start_hub e tool [] w)") (auto simp: open_session_def)
  qed (use w in \<open>simp add: open_session_def w_def\<close>)
qed

lemma tracked_terminate: "tracked X w \<Longrightarrow> tracked X (terminate_group n w)"
  by (simp add: tracked_def terminate_group_def) blast

lemma run_sea_starts:
  assumes "run_sea o' mkdir e files faults [] = (None, w0)"
  obtains root exe w4 where "idle (open_session e (empty_world root files faults)) w4"
    "w0 = w4\<lparr>lw_commands := lw_commands w4 @ [[exe]]\<rparr>"
    "\<And>evs. run_sea o' mkdir e files faults evs = sea_loop (length (lw_commands w4)) evs w0"
proof -
  have d: "so_darwin o'" using assms by (simp add: run_sea_def split: if_splits)
  obtain root where root: "lab_root o' mkdir = Inr root" using assms d by (auto simp: run_sea_def split: sum.splits)
  obtain exe where exe: "so_app o' = Some exe" using assms d root by (auto simp: run_sea_def split: option.splits)
  define w where "w = open_session e (empty_world root files faults)"
  define r where "r = next_do (sea_try No_Pipe w) (\<lambda>_ w1. next_do (sea_try No_Pipe w1) (\<lambda>_ w2.
      next_do (sea_try No_App_Log w2) (\<lambda>_ w3. sea_try App_Not_Started w3)))"
  have i: "idle w (snd r)" unfolding r_def by (intro idle_next idles)
  have all: "run_sea o' mkdir e files faults evs =
      (case next_do r (\<lambda>_ w4. (Inr (length (lw_commands w4)), w4\<lparr>lw_commands := lw_commands w4 @ [[exe]]\<rparr>)) of
         (Inl x, w5) \<Rightarrow> (Some (Inl x), w5) | (Inr app, w5) \<Rightarrow> sea_loop app evs w5)" for evs
    unfolding run_sea_def root exe using d
    by (simp add: Let_def w_def [symmetric] r_def next_do_def split: prod.splits sum.splits)
  obtain u where "fst r = Inr u" using all [of "[]"] assms by (cases r; cases "fst r") auto
  then have r: "r = (Inr u, snd r)" by (metis prod.collapse)
  have "w0 = (snd r)\<lparr>lw_commands := lw_commands (snd r) @ [[exe]]\<rparr>"
    using all [of "[]"] assms by (subst (asm) r) simp
  moreover have "run_sea o' mkdir e files faults evs
      = sea_loop (length (lw_commands (snd r))) evs ((snd r)\<lparr>lw_commands := lw_commands (snd r) @ [[exe]]\<rparr>)" for evs
    using all [of evs] by (subst (asm) r) simp
  ultimately show ?thesis using that i unfolding w_def by metis
qed


section \<open>Examples\<close>

definition sample_sea_env :: sea_env where
  "sample_sea_env =
     \<lparr>le_tool = (\<lambda>t. Some (''/bin/'' @ t)), le_free = (\<lambda>_. True), le_pid = (\<lambda>n. 100 + int n), le_ops_stop = (\<lambda>_ _. True),
      le_process_name = (\<lambda>_. []), le_terminate = (\<lambda>_. True), le_exists = (\<lambda>_. True), le_open = (\<lambda>_. True)\<rparr>"

definition pair_message :: "string \<Rightarrow> sea_message" where
  "pair_message slug =
     no_message\<lparr>ms_type := ''request'', ms_id := ''7'', ms_want := ''adhd'', ms_slug := slug, ms_health_ports := [8088]\<rparr>"

definition sample_sea_options :: sea_options where
  "sample_sea_options = \<lparr>so_darwin = True, so_clusters_root = ''/lab'', so_home = None, so_cwd = None, so_app = Some ''/sea''\<rparr>"

lemma empty_lab_ok: "lab_ok (empty_world ''/lab'' [] faults)"
proof -
  have "clean_path ''/lab'' = ''/lab''" by code_simp
  then show ?thesis by (simp add: lab_ok_def empty_world_def)
qed

text \<open>Without failures the steps can be told in advance; what the files hold does not matter here.\<close>

lemma try_ok: "lw_faults w = [] \<Longrightarrow> sea_try e w = (Inr (), w)"
  by (simp add: sea_try_def)

lemma write_ok: "lw_faults w = [] \<Longrightarrow> sea_write p c w = (Inr (), put_file p c (put_file p [] w))"
  by (simp add: sea_write_def try_ok put_file_def)

lemma launch_ok:
  "lw_faults w = [] \<Longrightarrow> \<exists>fs. launch_adhd e tool dir config w =
     (Inr (length (lw_commands w)), w\<lparr>lw_commands := lw_commands w @ [[tool, ''--headless'', ''--config'', join_path [dir, ''adhd.yaml'']]], lw_files := fs\<rparr>)"
  by (simp add: launch_adhd_def Let_def start_command_def write_ok try_ok put_file_def) (intro exI, rule refl)

lemma pair_ok:
  assumes "lw_faults w = []" "\<not> lw_lost w" "safe_name slug" "acquire (\<lambda>_. True) 0 w = (Inr p, w1)" "lw_faults w1 = []" "\<not> lw_lost w1"
  shows "\<exists>fs sent. handle_message (sample_sea_env, pair_message slug) w =
    w1\<lparr>lw_commands := lw_commands w1 @ [[''/bin/adhd'', ''--headless'', ''--config'', join_path [join_path [lw_root w1, slug], ''adhd.yaml'']]],
       lw_files := fs,
       lw_children := AList.update (adhd_pid_path (lw_root w1) slug)
         \<lparr>ch_proc = length (lw_commands w1), ch_cluster = slug, ch_pid_path = adhd_pid_path (lw_root w1) slug, ch_kind = Adhd_Child\<rparr>
         (lw_children w1),
       lw_sent := sent\<rparr>"
proof -
  let ?m = "pair_message slug"
  have m: "ms_type ?m = ''request''" "ms_want ?m = ''adhd''" "ms_slug ?m = slug" "ms_health_ports ?m = [8088]" "ms_gherkin ?m = []" "ms_v ?m = 0"
    by (simp_all add: pair_message_def no_message_def)
  have "slug \<noteq> []" using assms(3) by (simp add: safe_name_def)
  then have start: "start_adhd sample_sea_env ?m w = pair_adhd sample_sea_env ''/bin/adhd'' ?m p w1"
    using assms(3,4) by (simp add: start_adhd_def m sample_sea_env_def)
  obtain fs where l: "launch_adhd sample_sea_env ''/bin/adhd'' (join_path [lw_root w1, slug]) (sea_adhd_config slug [8088] p []) w1 =
     (Inr (length (lw_commands w1)), w1\<lparr>lw_commands := lw_commands w1 @
        [[''/bin/adhd'', ''--headless'', ''--config'', join_path [join_path [lw_root w1, slug], ''adhd.yaml'']]], lw_files := fs\<rparr>)"
    using launch_ok [OF assms(5)] by blast
  show ?thesis
    using assms(5,6)
    by (simp add: handle_message_def m dispatch_def Let_def start pair_adhd_def try_ok l sea_reply_def add_child_def adhd_pid_path_def)
      (intro exI, rule refl)
qed

lemma acquire_low: "lw_used w = us \<Longrightarrow> 9190 \<notin> set us \<Longrightarrow> acquire (\<lambda>_. True) 0 w = (Inr 9190, w\<lparr>lw_used := 9190 # us\<rparr>)"
  by (simp add: acquire_def cluster_port_low_def cluster_port_high_def upto_rec1)

lemma sample_paths:
  "join_path [''/lab'', ''hub''] = ''/lab/hub''" "join_path [''/lab/hub'', ''adhd.yaml''] = ''/lab/hub/adhd.yaml''"
  "join_path [''/lab/hub'', ''adhd.pid''] = ''/lab/hub/adhd.pid''" "join_path [''/lab'', ''one''] = ''/lab/one''"
  "join_path [''/lab/one'', ''adhd.yaml''] = ''/lab/one/adhd.yaml''" "join_path [''/lab/one'', ''adhd.pid''] = ''/lab/one/adhd.pid''"
  "safe_name ''one''" "safe_name ''hub''" "clean_path ''/lab'' = ''/lab''" "trim_space ''/lab'' = ''/lab''"
  by code_simp+

lemma open_ok:
  "\<exists>fs. open_session sample_sea_env (empty_world ''/lab'' [] []) =
     (empty_world ''/lab'' fs [])\<lparr>lw_used := [9090], lw_commands := [[''/bin/adhd'', ''--headless'', ''--config'', ''/lab/hub/adhd.yaml'']],
        lw_hub := Some \<lparr>hb_endpoint = loopback_url 9090 @ ''/mcp'', hb_port = 9090, hb_config_path = ''/lab/hub/adhd.yaml'',
          hb_pid_path = ''/lab/hub/adhd.pid''\<rparr>,
        lw_children := [(''/lab/hub/adhd.pid'', \<lparr>ch_proc = 0, ch_cluster = ''hub'', ch_pid_path = ''/lab/hub/adhd.pid'', ch_kind = Hub_Child\<rparr>)]\<rparr>"
proof -
  let ?w = "(empty_world ''/lab'' [] [])\<lparr>lw_used := [9090]\<rparr>"
  have "lw_faults ?w = []" by (simp add: empty_world_def)
  then obtain fs where "launch_adhd sample_sea_env ''/bin/adhd'' ''/lab/hub'' (hub_config 9090 []) ?w =
     (Inr 0, ?w\<lparr>lw_commands := [[''/bin/adhd'', ''--headless'', ''--config'', ''/lab/hub/adhd.yaml'']], lw_files := fs\<rparr>)"
    using launch_ok [of ?w sample_sea_env "''/bin/adhd''" "''/lab/hub''" "hub_config 9090 []"]
    by (auto simp: sample_paths empty_world_def)
  moreover have "acquire (\<lambda>_. True) 9090 (empty_world ''/lab'' [] []) = (Inr 9090, ?w)"
    by (simp add: acquire_def empty_world_def)
  ultimately show ?thesis
    by (simp add: open_session_def start_hub_def Let_def try_ok sample_paths hub_slug_def hub_preferred_port_def add_child_def
        sample_sea_env_def empty_world_def)
qed

definition hub_child :: sea_child where
  "hub_child = \<lparr>ch_proc = 0, ch_cluster = ''hub'', ch_pid_path = ''/lab/hub/adhd.pid'', ch_kind = Hub_Child\<rparr>"

text \<open>The world in which the app has just been started.\<close>

lemma session_ok:
  "\<exists>w. (\<forall>evs. run_sea sample_sea_options (\<lambda>_. True) sample_sea_env [] [] evs = sea_loop 1 evs w)
     \<and> lw_faults w = [] \<and> \<not> lw_lost w \<and> lw_root w = ''/lab'' \<and> lw_used w = [9090]
     \<and> lw_commands w = [[''/bin/adhd'', ''--headless'', ''--config'', ''/lab/hub/adhd.yaml''], [''/sea'']]
     \<and> lw_signalled w = [] \<and> lw_children w = [(''/lab/hub/adhd.pid'', hub_child)]"
proof -
  obtain fs where "open_session sample_sea_env (empty_world ''/lab'' [] []) =
     (empty_world ''/lab'' fs [])\<lparr>lw_used := [9090], lw_commands := [[''/bin/adhd'', ''--headless'', ''--config'', ''/lab/hub/adhd.yaml'']],
        lw_hub := Some \<lparr>hb_endpoint = loopback_url 9090 @ ''/mcp'', hb_port = 9090, hb_config_path = ''/lab/hub/adhd.yaml'',
          hb_pid_path = ''/lab/hub/adhd.pid''\<rparr>,
        lw_children := [(''/lab/hub/adhd.pid'', hub_child)]\<rparr>"
    using open_ok unfolding hub_child_def by blast
  then obtain v where o: "open_session sample_sea_env (empty_world ''/lab'' [] []) = v"
    and v: "lw_faults v = []" "\<not> lw_lost v" "lw_root v = ''/lab''" "lw_used v = [9090]" "lw_signalled v = []"
      "lw_commands v = [[''/bin/adhd'', ''--headless'', ''--config'', ''/lab/hub/adhd.yaml'']]"
      "lw_children v = [(''/lab/hub/adhd.pid'', hub_child)]"
    by (simp add: empty_world_def)
  have "lab_root sample_sea_options (\<lambda>_. True) = Inr ''/lab''"
    by (simp add: lab_root_def sample_sea_options_def sample_paths new_binder_def abs_path_def)
  then have "run_sea sample_sea_options (\<lambda>_. True) sample_sea_env [] [] evs
      = sea_loop 1 evs (v\<lparr>lw_commands := lw_commands v @ [[''/sea'']]\<rparr>)" for evs
    using v(1,6) by (simp add: run_sea_def o sample_sea_options_def try_ok)
  then show ?thesis using v by (intro exI [where x = "v\<lparr>lw_commands := lw_commands v @ [[''/sea'']]\<rparr>"]) simp
qed


definition sample_start :: sea_message where
  "sample_start =
     no_message\<lparr>ms_type := ''request'', ms_want := ''start'', ms_cluster := ''c'', ms_members := [\<lparr>mb_name = ''..'', mb_config = ''x''\<rparr>]\<rparr>"

theorem start_all_or_nothing_witness:
  "lab_ok (empty_world ''/lab'' [] [])
    \<and> start_lab sample_sea_env sample_start (empty_world ''/lab'' [] []) = (Inl (Not_A_Slug ''..''), empty_world ''/lab'' [] [])
    \<and> {0..<length (lw_commands (snd (start_lab sample_sea_env sample_start (empty_world ''/lab'' [] []))))}
        \<subseteq> set (lw_signalled (snd (start_lab sample_sea_env sample_start (empty_world ''/lab'' [] []))))"
proof -
  have "safe_name ''c''" "\<not> safe_name ''..''" by code_simp+
  then have e: "start_lab sample_sea_env sample_start (empty_world ''/lab'' [] []) = (Inl (Not_A_Slug ''..''), empty_world ''/lab'' [] [])"
    by (simp add: start_lab_def sample_start_def sample_sea_env_def no_message_def try_ok empty_world_def member_name_def
        start_member_def stop_children_def)
  show ?thesis
    using start_all_or_nothing [OF empty_lab_ok [of "[]"], where e = sample_sea_env and m = sample_start] empty_lab_ok [of "[]"]
    unfolding e by (simp add: empty_world_def)
qed

definition two_children :: sea_world where
  "two_children = (empty_world ''/lab'' [] [])\<lparr>lw_children :=
     [(''/lab/hub/adhd.pid'', hub_child),
      (''/lab/one/adhd.pid'', \<lparr>ch_proc = 1, ch_cluster = ''one'', ch_pid_path = ''/lab/one/adhd.pid'', ch_kind = Adhd_Child\<rparr>)]\<rparr>"

theorem hub_stops_last_witness:
  "table_ok (lw_children two_children) \<and> lw_signalled (clean_up two_children) = [1, 0] \<and> lw_children (clean_up two_children) = []"
proof -
  have ok: "table_ok (lw_children two_children)" by (simp add: two_children_def table_ok_def)
  have "lw_signalled (clean_up two_children) = [1, 0]" by code_simp
  then show ?thesis using ok hub_stops_last [OF ok] by simp
qed

text \<open>The session in which one slug is paired, and then the channel closes.\<close>

definition sample_run :: "string \<Rightarrow> (sea_run_err, unit) res option \<times> sea_world" where
  "sample_run slug =
     run_sea sample_sea_options (\<lambda>_. True) sample_sea_env [] [] [Message (sample_sea_env, pair_message slug), Channel_Closed]"

lemma sample_run_signals:
  assumes "safe_name slug"
  shows "fst (sample_run slug) = Some (Inr ())"
    and "lw_signalled (snd (sample_run slug)) = (if adhd_pid_path ''/lab'' slug = ''/lab/hub/adhd.pid'' then [1, 2] else [1, 2, 0])"
    and "lw_commands (snd (sample_run slug)) =
       [[''/bin/adhd'', ''--headless'', ''--config'', ''/lab/hub/adhd.yaml''], [''/sea''],
        [''/bin/adhd'', ''--headless'', ''--config'', join_path [join_path [''/lab'', slug], ''adhd.yaml'']]]"
proof -
  obtain w where w: "\<And>evs. run_sea sample_sea_options (\<lambda>_. True) sample_sea_env [] [] evs = sea_loop 1 evs w"
    "lw_faults w = []" "\<not> lw_lost w" "lw_root w = ''/lab''" "lw_used w = [9090]"
    "lw_commands w = [[''/bin/adhd'', ''--headless'', ''--config'', ''/lab/hub/adhd.yaml''], [''/sea'']]"
    "lw_signalled w = []" "lw_children w = [(''/lab/hub/adhd.pid'', hub_child)]"
    using session_ok by blast
  define p where "p = adhd_pid_path ''/lab'' slug"
  define k where "k = \<lparr>ch_proc = 2, ch_cluster = slug, ch_pid_path = p, ch_kind = Adhd_Child\<rparr>"
  have a: "acquire (\<lambda>_. True) 0 w = (Inr 9190, w\<lparr>lw_used := 9190 # lw_used w\<rparr>)"
    by (rule acquire_low) (use w(5) in simp_all)
  define v where "v = handle_message (sample_sea_env, pair_message slug) w"
  have v: "lw_signalled v = []" "lw_children v = AList.update p k [(''/lab/hub/adhd.pid'', hub_child)]"
      "lw_commands v = lw_commands w @ [[''/bin/adhd'', ''--headless'', ''--config'', join_path [join_path [''/lab'', slug], ''adhd.yaml'']]]"
    using pair_ok [OF w(2,3) assms a] w by (auto simp: v_def p_def k_def)
  have run: "sample_run slug = (Some (Inr ()), clean_up (terminate_group 1 v))"
    by (simp add: sample_run_def w(1) v_def)
  show "fst (sample_run slug) = Some (Inr ())" by (simp add: run)
  define u where "u = terminate_group 1 v"
  have u: "lw_children u = AList.update p k [(''/lab/hub/adhd.pid'', hub_child)]" "lw_signalled u = [1]" "lw_commands u = lw_commands v"
    using v by (simp_all add: u_def terminate_group_def)
  have ok: "table_ok (lw_children u)" using u(1) by (simp add: table_ok_def distinct_update)
  have kinds: "ch_kind k \<noteq> Hub_Child" "ch_kind hub_child = Hub_Child" "ch_proc k = 2" "ch_proc hub_child = 0"
    by (simp_all add: k_def hub_child_def)
  have so: "stop_order u = (if p = ''/lab/hub/adhd.pid'' then [p] else [p, ''/lab/hub/adhd.pid''])"
    using kinds by (simp add: stop_order_def u(1))
  note f = fold_stop_at [OF stop_order_parts(1) [OF ok] equalityD1 [OF stop_order_parts(2) [OF ok]], folded clean_up_def]
  show "lw_signalled (snd (sample_run slug)) = (if adhd_pid_path ''/lab'' slug = ''/lab/hub/adhd.pid'' then [1, 2] else [1, 2, 0])"
    using f so u kinds unfolding run p_def [symmetric] u_def [symmetric] by (simp add: u(1))
  show "lw_commands (snd (sample_run slug)) =
       [[''/bin/adhd'', ''--headless'', ''--config'', ''/lab/hub/adhd.yaml''], [''/sea''],
        [''/bin/adhd'', ''--headless'', ''--config'', join_path [join_path [''/lab'', slug], ''adhd.yaml'']]]"
    using f u(3) v(3) w(6) unfolding run u_def [symmetric] by simp
qed


section \<open>What is forgotten\<close>

text \<open>
  The hub is running when the pipes, the log and the app are set up, and a failure of any of them
  returns without the cleanup: whatever was started goes on, with nobody to stop it.
\<close>

lemma failed_start_skips_cleanup:
  assumes "so_darwin o'" "lab_root o' mkdir = Inr root" "so_app o' = Some exe"
    and "open_session e (empty_world root files faults) = w" "lw_faults w = [False, False, True]"
  shows "fst (run_sea o' mkdir e files faults evs) = Some (Inl No_App_Log)
    \<and> lw_commands (snd (run_sea o' mkdir e files faults evs)) = lw_commands w
    \<and> lw_signalled (snd (run_sea o' mkdir e files faults evs)) = lw_signalled w
    \<and> lw_children (snd (run_sea o' mkdir e files faults evs)) = lw_children w"
  using assms by (simp add: run_sea_def sea_try_def next_fault_def)

text \<open>A member started again takes the place of the first in the books, whose process is in none.\<close>

lemma repeated_start_forgets:
  assumes "start_member e tool cluster name m w = (Inr c, w')"
    and "map_of (lw_children w) (ch_pid_path c) = Some c0" "ch_proc c0 < length (lw_commands w)"
  shows "map_of (lw_children w') (ch_pid_path c) = Some c \<and> ch_proc c \<noteq> ch_proc c0 \<and> lw_signalled w' = lw_signalled w"
proof -
  have "ch_proc c = length (lw_commands w)" using start_member_Inr(2) [OF assms(1)] by simp
  then show ?thesis using assms(3) start_member_Inr(3) [OF assms(1)] by simp
qed

text \<open>
  \<open>hub\<close> is a slug: a pairing under it overwrites the hub's configuration and takes its place, and the
  end of the session tells the app and the new instance to stop, but not the hub.
\<close>

lemma slug_hub_replaces_hub: "lw_signalled (snd (sample_run ''hub'')) = [1, 2]"
  using sample_run_signals(2) [OF sample_paths(8)] by (simp add: adhd_pid_path_def sample_paths)

lemma hub_cluster_not_stoppable: "ms_cluster m = hub_slug \<Longrightarrow> stop_lab e m w = (Inl Hub_Stays, w)"
  using sample_paths(8) by (simp add: stop_lab_def hub_slug_def)

text \<open>A member may bring a configuration of 1 MiB, but a line that long ends the session.\<close>

lemma long_line_ends_reading: "2 ^ 20 \<le> length l \<Longrightarrow> read_loop decode (l # ls) = []"
  by (simp add: read_loop_def List.map_filter_simps)

end
