(* ===== verification/AgentSettings.thy ===== *)
theory AgentSettings
  imports AtomicFile Paths GoText
begin

text \<open>
  The edit of an editor's settings (\<open>internal/agents\<close>): one member is spliced into the text of the
  file, the result is decoded and compared with what was there, a backup is written and the file is
  replaced. The parser of JSON with comments is a library and a parameter: \<open>hu_parse\<close> gives the
  offsets of the members, \<open>hu_decode\<close> the decoded document and \<open>hu_value\<close> a decoded value.
\<close>

section \<open>Values\<close>

text \<open>Decoded JSON; an object is a list sorted by its keys, each once, so that equality is
  \<open>reflect.DeepEqual\<close>. Numbers are kept as text.\<close>

datatype tree =
    TNull
  | TBool bool
  | TNum string
  | TStr string
  | TArr "tree list"
  | TMap "(string \<times> tree) list"

record agent_entry =
  ae_name :: string
  ae_command :: string
  ae_args :: "string list"
  ae_env :: "(string, string) table"      \<comment> \<open>sorted by key\<close>

datatype entry_err = Agent_Unnamed | Agent_Without_Command string

definition validate_entry :: "agent_entry \<Rightarrow> (entry_err, unit) res" where
  "validate_entry e =
     (if ae_name e = [] then Inl Agent_Unnamed
      else if ae_command e = [] then Inl (Agent_Without_Command (ae_name e))
      else Inr ())"

text \<open>The value of an entry after its round trip through JSON, keys in order.\<close>

definition entry_value :: "agent_entry \<Rightarrow> tree" where
  "entry_value e =
     TMap ((if ae_args e = [] then [] else [(''args'', TArr (map TStr (ae_args e)))])
       @ [(''command'', TStr (ae_command e))]
       @ (if ae_env e = [] then [] else [(''env'', TMap (map (\<lambda>(k, v). (k, TStr v)) (ae_env e)))])
       @ [(''type'', TStr ''custom'')])"

definition tree_map :: "tree \<Rightarrow> (string \<times> tree) list" where
  "tree_map t = (case t of TMap kvs \<Rightarrow> kvs | _ \<Rightarrow> [])"

definition any_strings :: "tree \<Rightarrow> string list" where
  "any_strings t =
     (case t of TArr xs \<Rightarrow> List.map_filter (\<lambda>x. case x of TStr s \<Rightarrow> Some s | _ \<Rightarrow> None) xs | _ \<Rightarrow> [])"

definition any_string_map :: "tree \<Rightarrow> (string, string) table" where
  "any_string_map t =
     (case t of
        TMap kvs \<Rightarrow> List.map_filter (\<lambda>(k, x). case x of TStr s \<Rightarrow> Some (k, s) | _ \<Rightarrow> None) kvs
      | _ \<Rightarrow> [])"

section \<open>Text\<close>

definition is_scalar :: "tree \<Rightarrow> bool" where
  "is_scalar t \<longleftrightarrow> (case t of TArr _ \<Rightarrow> False | TMap _ \<Rightarrow> False | _ \<Rightarrow> True)"

definition scalar_json :: "tree \<Rightarrow> string" where
  "scalar_json t =
     (case t of TNull \<Rightarrow> ''null'' | TBool b \<Rightarrow> if b then ''true'' else ''false'' | TNum s \<Rightarrow> s
      | TStr s \<Rightarrow> json_string s | _ \<Rightarrow> [])"

abbreviation newline :: string where "newline \<equiv> [CHR 0x0A]"

text \<open>Items on lines of their own, with a comma after each but the last.\<close>

definition block :: "string \<Rightarrow> string \<Rightarrow> string list \<Rightarrow> string" where
  "block indent deeper items = join ('','' @ newline) (map (\<lambda>i. deeper @ i) items) @ newline @ indent"

function pretty_value :: "tree \<Rightarrow> string \<Rightarrow> string \<Rightarrow> string" where
  "pretty_value (TMap kvs) indent u =
     (if kvs = [] then ''{}''
      else ''{'' @ newline
        @ block indent (indent @ u) (map (\<lambda>kv. go_quote (fst kv) @ '': '' @ pretty_value (snd kv) (indent @ u) u) kvs) @ ''}'')"
| "pretty_value (TArr xs) indent u =
     (if xs = [] then ''[]''
      else if list_all is_scalar xs then ''['' @ join '', '' (map scalar_json xs) @ '']''
      else ''['' @ newline @ block indent (indent @ u) (map (\<lambda>x. pretty_value x (indent @ u) u) xs) @ '']'')"
| "pretty_value TNull indent u = scalar_json TNull"
| "pretty_value (TBool b) indent u = scalar_json (TBool b)"
| "pretty_value (TNum s) indent u = scalar_json (TNum s)"
| "pretty_value (TStr s) indent u = scalar_json (TStr s)"
  by pat_completeness auto
termination
proof (relation "measure (\<lambda>(t, _). size t)")
  fix kvs :: "(string \<times> tree) list" and indent u :: string and kv
  assume "kv \<in> set kvs"
  then have "size (snd kv) \<le> size_list (size_prod (\<lambda>_. 0) size) kvs"
    by (intro size_list_estimation' [where x = kv]) (auto simp: size_prod_simp)
  then show "((snd kv, indent @ u, u), TMap kvs, indent, u) \<in> measure (\<lambda>(t, _). size t)" by simp
qed (auto simp: size_list_estimation' less_Suc_eq_le)

text \<open>\<open>Entry.JSON\<close> renders the typed value, whose lists and maps are not the decoded ones: they fall
  into the default case, which is compact.\<close>

definition compact_strings :: "string list \<Rightarrow> string" where
  "compact_strings xs = ''['' @ join '','' (map json_string xs) @ '']''"

definition compact_map :: "(string, string) table \<Rightarrow> string" where
  "compact_map kvs = ''{'' @ join '','' (map (\<lambda>(k, v). json_string k @ '':'' @ json_string v) kvs) @ ''}''"

definition entry_json :: "agent_entry \<Rightarrow> string" where
  "entry_json e =
     ''{'' @ newline
     @ block [] ''  ''
         ((if ae_args e = [] then [] else [go_quote ''args'' @ '': '' @ compact_strings (ae_args e)])
          @ [go_quote ''command'' @ '': '' @ json_string (ae_command e)]
          @ (if ae_env e = [] then [] else [go_quote ''env'' @ '': '' @ compact_map (ae_env e)])
          @ [go_quote ''type'' @ '': '' @ json_string ''custom''])
     @ ''}''"

section \<open>Offsets\<close>

text \<open>The parse of a document: a value with its span, an object with the members' name literals and
  the offsets of these.\<close>

datatype hu = Hu nat nat hu_node
and hu_node = Hu_Object "hu_member list" | Hu_Other
and hu_member = Hu_Member string nat hu

fun hu_start :: "hu \<Rightarrow> nat" where "hu_start (Hu a b n) = a"
fun hu_end :: "hu \<Rightarrow> nat" where "hu_end (Hu a b n) = b"

fun hu_members :: "hu \<Rightarrow> hu_member list option" where
  "hu_members (Hu a b (Hu_Object ms)) = Some ms"
| "hu_members (Hu a b Hu_Other) = None"

fun hm_name :: "hu_member \<Rightarrow> string" where
  "hm_name (Hu_Member lit off v) = (case go_unquote lit of None \<Rightarrow> lit | Some s \<Rightarrow> s)"

fun hm_offset :: "hu_member \<Rightarrow> nat" where "hm_offset (Hu_Member lit off v) = off"
fun hm_value :: "hu_member \<Rightarrow> hu" where "hm_value (Hu_Member lit off v) = v"

definition find_member :: "hu_member list \<Rightarrow> string \<Rightarrow> hu_member option" where
  "find_member ms name = find (\<lambda>m. hm_name m = name) ms"

record hu_ops =
  hu_parse :: "string \<Rightarrow> hu option"
  hu_decode :: "string \<Rightarrow> (string \<times> tree) list option"
  hu_value :: "hu \<Rightarrow> tree option"

definition is_blank :: "char \<Rightarrow> bool" where
  "is_blank c \<longleftrightarrow> c = CHR '' '' \<or> c = CHR 0x09"

definition is_space :: "char \<Rightarrow> bool" where
  "is_space c \<longleftrightarrow> is_blank c \<or> c = CHR 0x0A \<or> c = CHR 0x0D"

definition detect_unit :: "string \<Rightarrow> string" where
  "detect_unit raw =
     (case find (\<lambda>l. takeWhile is_blank l \<noteq> [] \<and> dropWhile is_blank l \<noteq> []) (lines raw) of
        None \<Rightarrow> ''  '' | Some l \<Rightarrow> takeWhile is_blank l)"

definition line_indent :: "string \<Rightarrow> nat \<Rightarrow> string" where
  "line_indent raw off = takeWhile is_blank (rev (takeWhile (\<lambda>c. c \<noteq> CHR 0x0A) (rev (take off raw))))"

definition splice :: "string \<Rightarrow> nat \<Rightarrow> nat \<Rightarrow> string \<Rightarrow> string" where
  "splice raw a b t = take a raw @ t @ drop b raw"

text \<open>The end of the text before \<open>at\<close> without its white space, not below \<open>lo\<close>.\<close>

fun back_space :: "string \<Rightarrow> nat \<Rightarrow> nat \<Rightarrow> nat" where
  "back_space raw lo 0 = 0"
| "back_space raw lo (Suc n) = (if lo < Suc n \<and> is_space (raw ! n) then back_space raw lo n else Suc n)"

fun prev_non_space :: "string \<Rightarrow> nat \<Rightarrow> nat option" where
  "prev_non_space raw 0 = None"
| "prev_non_space raw (Suc i) = (if is_space (raw ! i) then prev_non_space raw i else Some i)"

section \<open>The edits\<close>

datatype edit_err =
    Bad_Entry entry_err
  | Settings_Unreadable
  | Not_Json
  | Root_Not_Object
  | Servers_Not_Object
  | Bad_Value
  | Bad_Span
  | Result_Invalid
  | Key_Changed string
  | Agent_Changed string
  | Agent_Missing string
  | Agent_Still_There string
  | No_Backup_Name
  | Backup_Not_Written
  | Settings_Not_Written

definition insert_member :: "string \<Rightarrow> hu \<Rightarrow> hu_member list \<Rightarrow> string \<Rightarrow> tree \<Rightarrow> string \<Rightarrow> (edit_err, string) res" where
  "insert_member raw owner ms name val u =
     (let obj_indent = line_indent raw (hu_start owner); close = hu_end owner - 1 in
      if hu_end owner = 0 \<or> length raw \<le> close \<or> raw ! close \<noteq> CHR ''}'' then Inl Bad_Span
      else
        (case ms of
           [] \<Rightarrow>
             (let mi = obj_indent @ u in
              Inr (splice raw (Suc (hu_start owner)) (Suc (hu_start owner))
                (newline @ mi @ go_quote name @ '': '' @ pretty_value val mi u @ newline @ obj_indent)))
         | m # _ \<Rightarrow>
             (let mi = line_indent raw (hm_offset m); at = back_space raw (hu_start owner) close;
                  sep = (if hu_start owner < at \<and> raw ! (at - 1) = CHR '','' then [] else '','') in
              Inr (splice raw at at (sep @ newline @ mi @ go_quote name @ '': '' @ pretty_value val mi u)))))"

text \<open>The index of the member and those after it.\<close>

definition cut_member :: "string \<Rightarrow> hu_member list \<Rightarrow> string \<Rightarrow> string" where
  "cut_member raw ms name =
     (case dropWhile (\<lambda>m. hm_name m \<noteq> name) ms of
        [] \<Rightarrow> raw
      | m # rest \<Rightarrow>
          (case prev_non_space raw (hm_offset m) of
             Some i \<Rightarrow>
               if raw ! i = CHR '','' then splice raw i (hu_end (hm_value m)) []
               else (case rest of
                       n # _ \<Rightarrow> splice raw (hm_offset m) (hm_offset n) []
                     | [] \<Rightarrow> splice raw (hm_offset m) (hu_end (hm_value m)) [])
           | None \<Rightarrow>
               (case rest of
                  n # _ \<Rightarrow> splice raw (hm_offset m) (hm_offset n) []
                | [] \<Rightarrow> splice raw (hm_offset m) (hu_end (hm_value m)) [])))"

definition merge_entry :: "hu_ops \<Rightarrow> string \<Rightarrow> agent_entry \<Rightarrow> (edit_err, string \<times> bool) res" where
  "merge_entry ops raw e =
     (case hu_parse ops raw of
        None \<Rightarrow> Inl Not_Json
      | Some v \<Rightarrow>
          (case hu_members v of
             None \<Rightarrow> Inl Root_Not_Object
           | Some root \<Rightarrow>
               (let u = detect_unit raw; want = entry_value e;
                    changed = (\<lambda>r. and_then r (\<lambda>t. Inr (t, True))) in
                case find_member root ''agent_servers'' of
                  None \<Rightarrow> changed (insert_member raw v root ''agent_servers'' (TMap [(ae_name e, want)]) u)
                | Some as \<Rightarrow>
                    (case hu_members (hm_value as) of
                       None \<Rightarrow> Inl Servers_Not_Object
                     | Some ms \<Rightarrow>
                         (case find_member ms (ae_name e) of
                            Some m \<Rightarrow>
                              (case hu_value ops (hm_value m) of
                                 None \<Rightarrow> Inl Bad_Value
                               | Some got \<Rightarrow>
                                   if got = want then Inr (raw, False)
                                   else Inr (splice raw (hu_start (hm_value m)) (hu_end (hm_value m))
                                          (pretty_value want (line_indent raw (hm_offset m)) u), True))
                          | None \<Rightarrow> changed (insert_member raw (hm_value as) ms (ae_name e) want u))))))"

definition remove_entry :: "hu_ops \<Rightarrow> string \<Rightarrow> string \<Rightarrow> (edit_err, string \<times> bool) res" where
  "remove_entry ops raw name =
     (case hu_parse ops raw of
        None \<Rightarrow> Inl Not_Json
      | Some v \<Rightarrow>
          (case hu_members v of
             None \<Rightarrow> Inl Root_Not_Object
           | Some root \<Rightarrow>
               (case find_member root ''agent_servers'' of
                  None \<Rightarrow> Inr (raw, False)
                | Some as \<Rightarrow>
                    (case hu_members (hm_value as) of
                       None \<Rightarrow> Inl Servers_Not_Object
                     | Some ms \<Rightarrow>
                         if length ms = 1 \<and> find_member ms name \<noteq> None then Inr (cut_member raw root ''agent_servers'', True)
                         else if find_member ms name = None then Inr (raw, False)
                         else Inr (cut_member raw ms name, True)))))"

section \<open>Verification of an edit\<close>

text \<open>A key of a Go map that is missing reads as \<open>nil\<close>, which is also the decoded \<open>null\<close>.\<close>

definition at_key :: "(string \<times> tree) list \<Rightarrow> string \<Rightarrow> tree" where
  "at_key m k = (case map_of m k of None \<Rightarrow> TNull | Some t \<Rightarrow> t)"

definition servers :: "(string \<times> tree) list \<Rightarrow> (string \<times> tree) list" where
  "servers doc = tree_map (at_key doc ''agent_servers'')"

definition differing :: "string \<Rightarrow> (string \<times> tree) list \<Rightarrow> (string \<times> tree) list \<Rightarrow> string option" where
  "differing except b a = map_option fst (find (\<lambda>(k, v). k \<noteq> except \<and> v \<noteq> at_key a k) b)"

definition verify_edit ::
    "hu_ops \<Rightarrow> string \<Rightarrow> string \<Rightarrow> string \<Rightarrow> ((string \<times> tree) list \<Rightarrow> (edit_err, unit) res) \<Rightarrow> (edit_err, unit) res" where
  "verify_edit ops old after name final =
     (case hu_decode ops old of
        None \<Rightarrow> Inl Not_Json
      | Some b \<Rightarrow>
          (case hu_decode ops after of
             None \<Rightarrow> Inl Result_Invalid
           | Some a \<Rightarrow>
               (case differing ''agent_servers'' b a of
                  Some k \<Rightarrow> Inl (Key_Changed k)
                | None \<Rightarrow>
                    (case differing name (servers b) (servers a) of
                       Some k \<Rightarrow> Inl (Agent_Changed k)
                     | None \<Rightarrow> final (servers a)))))"

definition verify_upsert :: "hu_ops \<Rightarrow> string \<Rightarrow> string \<Rightarrow> agent_entry \<Rightarrow> (edit_err, unit) res" where
  "verify_upsert ops old after e =
     verify_edit ops old after (ae_name e)
       (\<lambda>s. or_fail (at_key s (ae_name e) = entry_value e) (Agent_Missing (ae_name e)))"

definition verify_remove :: "hu_ops \<Rightarrow> string \<Rightarrow> string \<Rightarrow> string \<Rightarrow> (edit_err, unit) res" where
  "verify_remove ops old after name =
     verify_edit ops old after name (\<lambda>s. or_fail (map_of s name = None) (Agent_Still_There name))"

section \<open>The file\<close>

record settings_world =
  zw_file :: "string place"
  zw_others :: "(string, string) table"     \<comment> \<open>the files beside it, by name\<close>
  zw_faults :: "bool list"

record edit_result =
  er_changed :: bool
  er_backup :: string
  er_before :: string
  er_after :: string

definition read_settings :: "settings_world \<Rightarrow> (edit_err, string \<times> bool) res \<times> settings_world" where
  "read_settings w =
     (let (bad, fs) = next_fault (zw_faults w); w' = w\<lparr>zw_faults := fs\<rparr> in
      (if bad then Inl Settings_Unreadable
       else (case at_target (zw_file w) of
               None \<Rightarrow> Inr (''{'' @ newline @ ''}'' @ newline, False)
             | Some (b, _) \<Rightarrow> Inr (b, True)), w'))"

text \<open>The names \<open>base\<close>, \<open>base-2\<close> to \<open>base-101\<close> are tried.\<close>

definition backup_names :: "string \<Rightarrow> string list" where
  "backup_names base = base # map (\<lambda>i. base @ ''-'' @ dec i) [2..<102]"

definition write_backup :: "string \<Rightarrow> string \<Rightarrow> settings_world \<Rightarrow> (edit_err, string) res \<times> settings_world" where
  "write_backup base raw w =
     (case find (\<lambda>n. map_of (zw_others w) n = None) (backup_names base) of
        None \<Rightarrow> (Inl No_Backup_Name, w)
      | Some n \<Rightarrow>
          (let (bad, fs) = next_fault (zw_faults w); w' = w\<lparr>zw_faults := fs\<rparr> in
           if bad then (Inl Backup_Not_Written, w')
           else (Inr n, w'\<lparr>zw_others := AList.update n raw (zw_others w')\<rparr>)))"

definition write_settings :: "string \<Rightarrow> settings_world \<Rightarrow> (edit_err, unit) res \<times> settings_world" where
  "write_settings raw w =
     (let (ok, tr) = write_file_atomic Agent_Settings raw (zw_faults w) (zw_file w) in
      (or_fail ok Settings_Not_Written, w\<lparr>zw_file := ends_in (zw_file w) tr, zw_faults := drop 6 (zw_faults w)\<rparr>))"

text \<open>What an upsert and a removal do alike, once the new text is known.\<close>

definition apply_edit ::
    "string \<Rightarrow> bool \<Rightarrow> bool \<Rightarrow> string \<Rightarrow> string \<times> bool \<Rightarrow> (edit_err, unit) res \<Rightarrow> settings_world \<Rightarrow> (edit_err, edit_result) res \<times> settings_world" where
  "apply_edit base dry existed old edit verified w =
     (let (after, changed) = edit; res = \<lparr>er_changed = changed, er_backup = [], er_before = old, er_after = after\<rparr> in
      if \<not> changed \<or> dry then (Inr res, w)
      else
        next_do (verified, w) (\<lambda>_ w1.
        next_do (if existed then write_backup base old w1 else (Inr [], w1)) (\<lambda>backup w2.
        next_do (write_settings after w2) (\<lambda>_ w3. (Inr (res\<lparr>er_backup := backup\<rparr>), w3)))))"

definition upsert :: "hu_ops \<Rightarrow> string \<Rightarrow> bool \<Rightarrow> agent_entry \<Rightarrow> settings_world \<Rightarrow> (edit_err, edit_result) res \<times> settings_world" where
  "upsert ops base dry e w =
     (case validate_entry e of
        Inl x \<Rightarrow> (Inl (Bad_Entry x), w)
      | Inr _ \<Rightarrow>
          next_do (read_settings w) (\<lambda>(old, existed) w1.
          next_do (merge_entry ops old e, w1) (\<lambda>edit w2.
            apply_edit base dry existed old edit (verify_upsert ops old (fst edit) e) w2)))"

definition remove_agent :: "hu_ops \<Rightarrow> string \<Rightarrow> bool \<Rightarrow> string \<Rightarrow> settings_world \<Rightarrow> (edit_err, edit_result) res \<times> settings_world" where
  "remove_agent ops base dry name w =
     (if name = [] then (Inl (Bad_Entry Agent_Unnamed), w)
      else
        next_do (read_settings w) (\<lambda>(old, existed) w1.
          if \<not> existed then (Inr \<lparr>er_changed = False, er_backup = [], er_before = old, er_after = old\<rparr>, w1)
          else
            next_do (remove_entry ops old name, w1) (\<lambda>edit w2.
              apply_edit base dry True old edit (verify_remove ops old (fst edit) name) w2)))"

text \<open>\<open>Show\<close>: the entry of a name, when there is one.\<close>

definition show_agent :: "hu_ops \<Rightarrow> string \<Rightarrow> settings_world \<Rightarrow> (edit_err, agent_entry option) res" where
  "show_agent ops name w =
     and_then (fst (read_settings w)) (\<lambda>(raw, existed).
       if \<not> existed then Inr None
       else
         (case hu_decode ops raw of
            None \<Rightarrow> Inl Not_Json
          | Some doc \<Rightarrow>
              (case map_of (servers doc) name of
                 Some (TMap kvs) \<Rightarrow>
                   Inr (Some \<lparr>ae_name = name,
                     ae_command = (case map_of kvs ''command'' of Some (TStr s) \<Rightarrow> s | _ \<Rightarrow> []),
                     ae_args = any_strings (at_key kvs ''args''), ae_env = any_string_map (at_key kvs ''env'')\<rparr>)
               | _ \<Rightarrow> Inr None)))"

definition zed_settings_path :: "bool \<Rightarrow> string \<Rightarrow> string option \<Rightarrow> string option" where
  "zed_settings_path windows xdg home =
     (if windows then None
      else if xdg \<noteq> [] then Some (join_path [xdg, ''zed'', ''settings.json''])
      else map_option (\<lambda>h. join_path [h, ''.config'', ''zed'', ''settings.json'']) home)"

section \<open>Properties\<close>

text \<open>The text differs in one place, which is empty or the value of the agent itself.\<close>

definition own_span :: "hu_ops \<Rightarrow> string \<Rightarrow> string \<Rightarrow> nat \<Rightarrow> nat \<Rightarrow> bool" where
  "own_span ops raw name a b \<longleftrightarrow>
     (\<exists>v root as ms m. hu_parse ops raw = Some v \<and> hu_members v = Some root \<and> find_member root ''agent_servers'' = Some as
        \<and> hu_members (hm_value as) = Some ms \<and> find_member ms name = Some m \<and> a = hu_start (hm_value m) \<and> b = hu_end (hm_value m))"

definition spliced :: "hu_ops \<Rightarrow> string \<Rightarrow> string \<Rightarrow> string \<Rightarrow> bool" where
  "spliced ops name before after \<longleftrightarrow>
     (\<exists>a b t. after = take a before @ t @ drop b before \<and> (a = b \<or> own_span ops before name a b))"

lemma spliced_at: "spliced ops name raw (splice raw a a t)"
  by (auto simp: spliced_def splice_def)

lemma insert_member_spliced: "insert_member raw owner ms k val u = Inr t \<Longrightarrow> spliced ops name raw t"
  using spliced_at by (auto simp: insert_member_def Let_def split: if_splits list.splits)

lemma merge_spliced:
  assumes "merge_entry ops raw e = Inr (t, True)"
  shows "spliced ops (ae_name e) raw t"
proof -
  obtain v root where v: "hu_parse ops raw = Some v" "hu_members v = Some root"
    using assms by (auto simp: merge_entry_def split: option.splits)
  show ?thesis
  proof (cases "find_member root ''agent_servers''")
    case None
    then show ?thesis
      using assms v by (auto simp: merge_entry_def Let_def and_then_Inr intro: insert_member_spliced)
  next
    case (Some as)
    then obtain ms where ms: "hu_members (hm_value as) = Some ms"
      using assms v by (auto simp: merge_entry_def Let_def split: option.splits)
    show ?thesis
    proof (cases "find_member ms (ae_name e)")
      case None
      then show ?thesis
        using assms v Some ms by (auto simp: merge_entry_def Let_def and_then_Inr intro: insert_member_spliced)
    next
      case m: (Some m)
      then have "own_span ops raw (ae_name e) (hu_start (hm_value m)) (hu_end (hm_value m))"
        using v Some ms by (auto simp: own_span_def)
      then show ?thesis
        using assms v Some ms m
        by (auto simp: merge_entry_def Let_def spliced_def splice_def split: option.splits if_splits)
    qed
  qed
qed

text \<open>The decoded documents agree but for the agent, whose new state is \<open>P\<close>.\<close>

definition only_agent_differs ::
    "hu_ops \<Rightarrow> string \<Rightarrow> ((string \<times> tree) list \<Rightarrow> bool) \<Rightarrow> string \<Rightarrow> string \<Rightarrow> bool" where
  "only_agent_differs ops name P before after \<longleftrightarrow>
     (\<exists>b a. hu_decode ops before = Some b \<and> hu_decode ops after = Some a
        \<and> list_all (\<lambda>(k, v). k = ''agent_servers'' \<or> v = at_key a k) b
        \<and> list_all (\<lambda>(k, v). k = name \<or> v = at_key (servers a) k) (servers b)
        \<and> P (servers a))"

lemma differing_None: "differing except b a = None \<longleftrightarrow> list_all (\<lambda>(k, v). k = except \<or> v = at_key a k) b"
  by (auto simp: differing_def find_None_iff list_all_iff)

lemma verify_edit_Inr:
  "verify_edit ops before after name (\<lambda>s. or_fail (P s) (x s)) = Inr u \<longleftrightarrow> only_agent_differs ops name P before after"
  by (cases u) (auto simp: verify_edit_def only_agent_differs_def differing_None [symmetric] split: option.splits)

definition old_text :: "settings_world \<Rightarrow> string" where
  "old_text w = (case at_target (zw_file w) of None \<Rightarrow> ''{'' @ newline @ ''}'' @ newline | Some (b, _) \<Rightarrow> b)"

lemma read_settings_Inr:
  "read_settings w = (Inr (raw, existed), w') \<Longrightarrow> raw = old_text w \<and> (existed \<longleftrightarrow> at_target (zw_file w) \<noteq> None)
     \<and> zw_file w' = zw_file w \<and> zw_others w' = zw_others w"
  by (auto simp: read_settings_def old_text_def Let_def split_beta split: if_splits option.splits)

lemma read_settings_Inl: "read_settings w = (Inl x, w') \<Longrightarrow> zw_file w' = zw_file w"
  by (auto simp: read_settings_def Let_def split_beta split: if_splits option.splits)

lemma write_settings_Inr: "write_settings raw w = (Inr u, w') \<Longrightarrow> at_target (zw_file w') = Some (raw, private_mode) \<and> zw_others w' = zw_others w"
  using writer_success [of Agent_Settings raw "zw_faults w" "zw_file w"]
  by (auto simp: write_settings_def split_beta writer_mode_def)

lemma write_settings_Inl: "write_settings raw w = (Inl x, w') \<Longrightarrow> at_target (zw_file w') = at_target (zw_file w)"
  using failed_write_is_old [of Agent_Settings raw "zw_faults w" "zw_file w"]
  by (auto simp: write_settings_def split_beta or_fail_def split: if_splits)

lemma write_backup_effect:
  "write_backup base raw w = (r, w') \<Longrightarrow> zw_file w' = zw_file w
     \<and> (case r of Inl _ \<Rightarrow> True | Inr n \<Rightarrow> map_of (zw_others w) n = None \<and> map_of (zw_others w') n = Some raw)"
  by (auto simp: write_backup_def Let_def split_beta find_Some_iff split: option.splits if_splits)

lemma apply_edit_effect:
  "case apply_edit base dry existed before (after, changed) verified w of
     (Inl x, w') \<Rightarrow> at_target (zw_file w') = at_target (zw_file w)
   | (Inr r, w') \<Rightarrow> er_before r = before \<and> er_after r = after \<and> er_changed r = changed
       \<and> (if changed \<and> \<not> dry then is_ok verified \<and> at_target (zw_file w') = Some (after, private_mode)
            \<and> (if existed then map_of (zw_others w') (er_backup r) = Some before else True)
          else w' = w)"
proof (cases "changed \<and> \<not> dry \<and> is_ok verified")
  case False
  then show ?thesis by (cases verified) (auto simp: apply_edit_def Let_def)
next
  case True
  then have v: "verified = Inr ()" by (cases verified) auto
  obtain b w2 where b: "(if existed then write_backup base before w else (Inr [], w)) = (b, w2)" by fastforce
  have f: "zw_file w2 = zw_file w" using b write_backup_effect [of base before w] by (auto split: if_splits)
  obtain r w3 where r: "write_settings after w2 = (r, w3)" by fastforce
  have go: "apply_edit base dry existed before (after, changed) verified w =
      next_do (b, w2) (\<lambda>backup w2. next_do (write_settings after w2)
        (\<lambda>_ w3. (Inr \<lparr>er_changed = changed, er_backup = backup, er_before = before, er_after = after\<rparr>, w3)))"
    (is "_ = ?then")
  proof -
    have "apply_edit base dry existed before (after, changed) verified w =
        (if \<not> changed \<or> dry then (Inr \<lparr>er_changed = changed, er_backup = [], er_before = before, er_after = after\<rparr>, w) else ?then)"
      by (simp only: apply_edit_def Let_def case_prod_conv v next_do_simps b edit_result.update_convs)
    then show ?thesis by (simp only: True simp_thms if_False)
  qed
  show ?thesis
  proof (cases b)
    case (Inl x)
    then show ?thesis using f by (simp add: go)
  next
    case (Inr n)
    then have n: "existed \<Longrightarrow> map_of (zw_others w2) n = Some before"
      using b write_backup_effect [of base before w] by auto
    show ?thesis
    proof (cases r)
      case (Inl x)
      then have "at_target (zw_file w3) = at_target (zw_file w)" using write_settings_Inl r f by fastforce
      then show ?thesis using r Inl \<open>b = Inr n\<close> by (simp add: go)
    next
      case (Inr y)
      then have "at_target (zw_file w3) = Some (after, private_mode) \<and> zw_others w3 = zw_others w2"
        using write_settings_Inr r by blast
      then show ?thesis unfolding go using True r Inr \<open>b = Inr n\<close> n by simp
    qed
  qed
qed

lemma settings_edit_is_local_aux:
  "case upsert ops base dry e w of
     (Inl x, w') \<Rightarrow> at_target (zw_file w') = at_target (zw_file w)
   | (Inr r, w') \<Rightarrow> er_before r = old_text w
       \<and> (if er_changed r \<and> \<not> dry then
            at_target (zw_file w') = Some (er_after r, private_mode)
            \<and> spliced ops (ae_name e) (old_text w) (er_after r)
            \<and> only_agent_differs ops (ae_name e) (\<lambda>s. at_key s (ae_name e) = entry_value e) (old_text w) (er_after r)
            \<and> (at_target (zw_file w) = None \<or> map_of (zw_others w') (er_backup r) = Some (old_text w))
          else at_target (zw_file w') = at_target (zw_file w))"
proof (cases "validate_entry e")
  case (Inl x)
  then show ?thesis by (simp add: upsert_def)
next
  case (Inr u)
  obtain q w1 where rd: "read_settings w = (q, w1)" by fastforce
  show ?thesis
  proof (cases q)
    case (Inl x)
    then show ?thesis using Inr rd read_settings_Inl by (simp add: upsert_def)
  next
    case q: (Inr be)
    obtain before existed where be: "be = (before, existed)" by fastforce
    note r = read_settings_Inr [OF rd [unfolded q be]]
    show ?thesis
    proof (cases "merge_entry ops before e")
      case (Inl x)
      then show ?thesis using Inr rd q be r by (simp add: upsert_def)
    next
      case m: (Inr edit)
      obtain after changed where ed: "edit = (after, changed)" by fastforce
      have s: "changed \<Longrightarrow> spliced ops (ae_name e) before after" using merge_spliced m ed by auto
      have v: "is_ok (verify_upsert ops before after e) \<Longrightarrow>
          only_agent_differs ops (ae_name e) (\<lambda>s. at_key s (ae_name e) = entry_value e) before after"
        using verify_edit_Inr by (auto simp: verify_upsert_def is_ok_iff)
      have u: "upsert ops base dry e w = apply_edit base dry existed before (after, changed) (verify_upsert ops before after e) w1"
        using Inr rd q be m ed by (simp add: upsert_def)
      show ?thesis
        using apply_edit_effect [where base = base and dry = dry and existed = existed and before = before and after = after
            and changed = changed and verified = "verify_upsert ops before after e" and w = w1] s v r
        unfolding u
        by (cases "apply_edit base dry existed before (after, changed) (verify_upsert ops before after e) w1";
            cases "at_target (zw_file w)") (auto split: sum.splits if_splits)
    qed
  qed
qed

text \<open>
  An upsert that fails leaves the settings as they were. One that changes them replaced the
  file whole by a text that differs from the old one in one place, an insertion or the value of that
  agent; the decoded documents agree in every other key and every other agent, the agent reads as
  the entry, and the old text is in a backup.
\<close>

theorem settings_edit_is_local:
  "case upsert ops base dry e w of
     (Inl x, w') \<Rightarrow> at_target (zw_file w') = at_target (zw_file w)
   | (Inr r, w') \<Rightarrow> er_before r = old_text w
       \<and> (if er_changed r \<and> \<not> dry then
            at_target (zw_file w') = Some (er_after r, private_mode)
            \<and> spliced ops (ae_name e) (old_text w) (er_after r)
            \<and> only_agent_differs ops (ae_name e) (\<lambda>s. at_key s (ae_name e) = entry_value e) (old_text w) (er_after r)
            \<and> (at_target (zw_file w) = None \<or> map_of (zw_others w') (er_backup r) = Some (old_text w))
          else at_target (zw_file w') = at_target (zw_file w))"
  by (rule settings_edit_is_local_aux)

lemma any_strings_back: "any_strings (TArr (map TStr xs)) = xs"
  by (induction xs) (auto simp: any_strings_def List.map_filter_def)

lemma any_string_map_back: "any_string_map (TMap (map (\<lambda>(k, v). (k, TStr v)) kvs)) = kvs"
  by (induction kvs) (auto simp: any_string_map_def List.map_filter_def)

lemma entry_fields:
  "any_strings (at_key (tree_map (entry_value e)) ''args'') = ae_args e"
  "any_string_map (at_key (tree_map (entry_value e)) ''env'') = ae_env e"
  "map_of (tree_map (entry_value e)) ''command'' = Some (TStr (ae_command e))"
  using any_strings_back [of "ae_args e"] any_string_map_back [of "ae_env e"]
  by (auto simp: entry_value_def at_key_def tree_map_def any_strings_def any_string_map_def)

lemma upsert_changed:
  assumes "upsert ops base False e w = (Inr r, w')" "er_changed r"
  shows "at_target (zw_file w') = Some (er_after r, private_mode)"
    "only_agent_differs ops (ae_name e) (\<lambda>s. at_key s (ae_name e) = entry_value e) (old_text w) (er_after r)"
  using settings_edit_is_local_aux [where ops = ops and base = base and dry = False and e = e and w = w] assms by (auto split: if_splits)

text \<open>
  After an upsert that changed the settings, reading the agent back gives the entry.
\<close>

theorem upsert_then_show:
  assumes "upsert ops base False e w = (Inr r, w')" "er_changed r" "zw_faults w' = []"
  shows "show_agent ops (ae_name e) w' = Inr (Some e)"
proof -
  obtain a where a: "hu_decode ops (er_after r) = Some a" "at_key (servers a) (ae_name e) = entry_value e"
    using upsert_changed(2) [OF assms(1,2)] by (auto simp: only_agent_differs_def)
  then have m: "map_of (servers a) (ae_name e) = Some (entry_value e)"
    by (auto simp: at_key_def entry_value_def split: option.splits)
  obtain kvs where kvs: "entry_value e = TMap kvs" by (auto simp: entry_value_def)
  have "read_settings w' = (Inr (er_after r, True), w')"
    using upsert_changed(1) [OF assms(1,2)] assms(3) by (simp add: read_settings_def next_fault_def)
  then show ?thesis
    using a m kvs entry_fields [of e] by (simp add: show_agent_def and_then_def tree_map_def)
qed

lemma remove_changed:
  assumes "remove_agent ops base False name w = (Inr r, w')" "er_changed r"
  shows "at_target (zw_file w') = Some (er_after r, private_mode)
    \<and> only_agent_differs ops name (\<lambda>s. map_of s name = None) (old_text w) (er_after r)
    \<and> map_of (zw_others w') (er_backup r) = Some (old_text w)"
proof -
  obtain raw ex w1 where rd: "read_settings w = (Inr (raw, ex), w1)" and ex: "ex"
    using assms by (auto simp: remove_agent_def next_do_Inr split: if_splits)
  note o = read_settings_Inr [OF rd]
  obtain after c where ed: "remove_entry ops raw name = Inr (after, c)"
    and ap: "apply_edit base False True raw (after, c) (verify_remove ops raw after name) w1 = (Inr r, w')"
    using assms rd ex by (auto simp: remove_agent_def next_do_Inr split: if_splits)
  then have "c" "is_ok (verify_remove ops raw after name)" "er_after r = after"
      "at_target (zw_file w') = Some (after, private_mode)" "map_of (zw_others w') (er_backup r) = Some raw"
    using apply_edit_effect [where base = base and dry = False and existed = True and before = raw and after = after and changed = c
        and verified = "verify_remove ops raw after name" and w = w1] assms(2)
    by (auto split: if_splits)
  then show ?thesis
    using o verify_edit_Inr by (auto simp: verify_remove_def is_ok_iff)
qed

text \<open>
  After a removal that changed the settings, the agent is not found.
\<close>

theorem removed_agent_is_gone:
  assumes "remove_agent ops base False name w = (Inr r, w')" "er_changed r" "zw_faults w' = []"
  shows "show_agent ops name w' = Inr None"
proof -
  note g = remove_changed [OF assms(1,2)]
  obtain a where a: "hu_decode ops (er_after r) = Some a" "map_of (servers a) name = None"
    using g by (auto simp: only_agent_differs_def)
  have "read_settings w' = (Inr (er_after r, True), w')"
    using g assms(3) by (simp add: read_settings_def next_fault_def)
  then show ?thesis using a by (simp add: show_agent_def)
qed

definition sample_agent :: agent_entry where
  "sample_agent = \<lparr>ae_name = ''amp'', ae_command = ''/bin/amp'', ae_args = [''-v'', ''x''], ae_env = [(''K'', ''1'')]\<rparr>"

definition sample_hu :: hu_ops where
  "sample_hu = \<lparr>hu_parse = (\<lambda>_. Some (Hu 0 3 (Hu_Object []))),
     hu_decode = (\<lambda>r. Some (if length r = 4 then [] else [(''agent_servers'', TMap [(''amp'', entry_value sample_agent)])])),
     hu_value = (\<lambda>_. None)\<rparr>"

definition no_settings :: settings_world where
  "no_settings = \<lparr>zw_file = \<lparr>at_target = None, at_temp = None\<rparr>, zw_others = [], zw_faults = []\<rparr>"

lemma sample_upsert_changes:
  "case upsert sample_hu ''b'' False sample_agent no_settings of (Inr r, w') \<Rightarrow> er_changed r \<and> zw_faults w' = [] | _ \<Rightarrow> False"
  by code_simp

theorem upsert_then_show_witness:
  "case upsert sample_hu ''b'' False sample_agent no_settings of
     (Inr r, w') \<Rightarrow> show_agent sample_hu ''amp'' w' = Inr (Some sample_agent) | _ \<Rightarrow> False"
  using sample_upsert_changes upsert_then_show [of sample_hu "''b''" sample_agent no_settings]
  by (auto split: prod.splits sum.splits simp: sample_agent_def)

text \<open>The comma goes before the white space that ends the object, which is inside a line comment here.\<close>

lemma comma_goes_into_comment:
  "insert_member (''{'' @ newline @ ''  \"a\": 1 // x'' @ newline @ ''}'') (Hu 0 17 (Hu_Object [Hu_Member ''\"a\"'' 4 (Hu 9 10 Hu_Other)]))
   [Hu_Member ''\"a\"'' 4 (Hu 9 10 Hu_Other)] ''b'' TNull ''  '' =
  Inr (''{'' @ newline @ ''  \"a\": 1 // x,'' @ newline @ ''  \"b\": null'' @ newline @ ''}'')"
  by code_simp

lemma entry_json_not_as_stored: "entry_json sample_agent \<noteq> pretty_value (entry_value sample_agent) [] ''  ''"
  by code_simp

text \<open>The removal of the only agent of a file.\<close>

definition one_agent :: settings_world where
  "one_agent = \<lparr>zw_file = \<lparr>at_target = Some (''{\"agent_servers\": {\"amp\": {}}}'', private_mode), at_temp = None\<rparr>,
     zw_others = [], zw_faults = []\<rparr>"

definition one_agent_hu :: hu_ops where
  "one_agent_hu = \<lparr>hu_parse = (\<lambda>_. Some (Hu 0 30 (Hu_Object [Hu_Member ''\"agent_servers\"'' 1
       (Hu 18 29 (Hu_Object [Hu_Member ''\"amp\"'' 19 (Hu 26 28 Hu_Other)]))]))),
     hu_decode = (\<lambda>r. Some (if length r = 2 then [] else [(''agent_servers'', TMap [(''amp'', TMap [])])])),
     hu_value = (\<lambda>_. None)\<rparr>"

lemma first_backup: "map_of (zw_others w) base = None \<Longrightarrow> zw_faults w = [] \<Longrightarrow>
    write_backup base raw w = (Inr base, w\<lparr>zw_others := AList.update base raw (zw_others w)\<rparr>)"
  by (simp add: write_backup_def backup_names_def)

lemma one_agent_edit:
  "read_settings one_agent = (Inr (''{\"agent_servers\": {\"amp\": {}}}'', True), one_agent)"
  "remove_entry one_agent_hu ''{\"agent_servers\": {\"amp\": {}}}'' ''amp'' = Inr (''{}'', True)"
  "verify_remove one_agent_hu ''{\"agent_servers\": {\"amp\": {}}}'' ''{}'' ''amp'' = Inr ()"
  by (simp add: read_settings_def one_agent_def) (code_simp, code_simp)

lemma one_agent_removed:
  "case remove_agent one_agent_hu ''b'' False ''amp'' one_agent of
     (Inr r, w') \<Rightarrow> er_after r = ''{}'' \<and> er_changed r \<and> zw_faults w' = [] | _ \<Rightarrow> False"
proof -
  have a: "zw_others one_agent = []" "zw_faults one_agent = []" by (simp_all add: one_agent_def)
  have "fst (write_file_atomic Agent_Settings ''{}'' [] (zw_file one_agent))" by code_simp
  then have "\<exists>w'. write_settings ''{}'' (one_agent\<lparr>zw_others := x\<rparr>) = (Inr (), w') \<and> zw_faults w' = []" for x
    using a by (auto simp: write_settings_def or_fail_def split: prod.splits)
  then obtain w' where w: "write_settings ''{}'' (one_agent\<lparr>zw_others := [(''b'', at_text)]\<rparr>) = (Inr (), w')" "zw_faults w' = []"
    if "at_text = ''{\"agent_servers\": {\"amp\": {}}}''" for at_text by metis
  show ?thesis
    using a w [OF refl] by (simp add: remove_agent_def one_agent_edit apply_edit_def first_backup next_do_def split: prod.splits)
qed

theorem removed_agent_is_gone_witness:
  "case remove_agent one_agent_hu ''b'' False ''amp'' one_agent of
     (Inr r, w') \<Rightarrow> show_agent one_agent_hu ''amp'' w' = Inr None | _ \<Rightarrow> False"
  using one_agent_removed removed_agent_is_gone [of one_agent_hu "''b''" "''amp''" one_agent]
  by (auto split: prod.splits sum.splits)

end
