(* ===== verification/AdhdLaunch.thy ===== *)
theory AdhdLaunch
  imports DemoState
begin

text \<open>
  How a cluster starts its dashboard (\<open>internal/demo/adhd.go\<close>): where it listens, the command line
  and the probe that fits it to the installed binary, the wait for its port, and the evidence kept
  from a failed start. The binary is a parameter: \<open>run\<close> gives the output and the success of the
  binary on a command line.
\<close>

section \<open>Where it listens\<close>

definition adhd_force_flag :: string where
  "adhd_force_flag = ''--force''"

record adhd_listener =
  al_addr :: string
  al_host :: string
  al_force :: bool

definition mcp_url :: "adhd_listener \<Rightarrow> nat \<Rightarrow> string" where
  "mcp_url l port = ''http://'' @ join_host_port (al_host l) port @ ''/mcp''"

definition resolve_adhd_listener :: "string \<Rightarrow> string \<Rightarrow> nat \<Rightarrow> (pin_err, adhd_listener) res" where
  "resolve_adhd_listener outbound bind port =
     and_then (validate_adhd_bind bind) (\<lambda>_.
       case parse_ip bind of
         None \<Rightarrow> Inr \<lparr>al_addr = '':'' @ dec port, al_host = outbound, al_force = True\<rparr>
       | Some a \<Rightarrow>
           (let l = \<lparr>al_addr = join_host_port (ip_string a) port, al_host = outbound, al_force = True\<rparr> in
            if is_unspecified a then Inr l
            else Inr (l\<lparr>al_host := ip_string a, al_force := \<not> is_loopback a\<rparr>)))"

section \<open>The command line\<close>

definition demo_adhd_args :: "string \<Rightarrow> string \<Rightarrow> adhd_listener \<Rightarrow> string \<Rightarrow> string list" where
  "demo_adhd_args config log l alarm =
     [''--headless'', ''--config'', config, ''--log'', log, ''--mcp-addr'', al_addr l, ''--smoke-alarm'', alarm]
     @ (if al_force l then [adhd_force_flag] else [])"

fun first_non_empty :: "string list \<Rightarrow> string" where
  "first_non_empty [] = []"
| "first_non_empty (l # ls) = (if trim_space l \<noteq> [] then trim_space l else first_non_empty ls)"

definition first_line :: "string \<Rightarrow> string" where
  "first_line s = first_non_empty (lines s)"

definition probe_adhd :: "(string list \<Rightarrow> string \<times> bool) \<Rightarrow> string list \<Rightarrow> string \<times> bool" where
  "probe_adhd run args = (let (out, ok) = run (args @ [''-v'']) in (first_line out, ok))"

definition strip_flag :: "string list \<Rightarrow> string \<Rightarrow> string list \<times> bool" where
  "strip_flag args flag = (filter (\<lambda>a. a \<noteq> flag) args, flag \<in> set args)"

definition predates_note :: "string \<Rightarrow> string" where
  "predates_note version =
     ''installed '' @ version @ '' predates '' @ adhd_force_flag
     @ ''; starting without it (that release has no advertise guard to override)''"

datatype adhd_err = Adhd_Missing | Adhd_Rejects string

definition plan_adhd :: "(string list \<Rightarrow> string \<times> bool) \<Rightarrow> string list \<Rightarrow> (adhd_err, string list \<times> string list) res" where
  "plan_adhd run args =
     (let (complaint, accepted) = probe_adhd run args; (stripped, removed) = strip_flag args adhd_force_flag;
          (version, compatible) = probe_adhd run stripped in
      if accepted then Inr (args, [])
      else if removed \<and> compatible then Inr (stripped, [predates_note version])
      else Inl (Adhd_Rejects (if complaint = [] then ''the binary did not run'' else complaint)))"

text \<open>The binary is looked up once, and the one that was probed is the one returned.\<close>

definition prepare_adhd ::
    "string option \<Rightarrow> (string \<Rightarrow> string list \<Rightarrow> string \<times> bool) \<Rightarrow> string list
     \<Rightarrow> (adhd_err, string \<times> string list \<times> string list) res" where
  "prepare_adhd found run args =
     (case found of
        None \<Rightarrow> Inl Adhd_Missing
      | Some binary \<Rightarrow> and_then (plan_adhd (run binary) args) (\<lambda>(planned, notes). Inr (binary, planned, notes)))"

section \<open>The wait for its port\<close>

text \<open>A round: what the select picks, whether the deadline has passed, and whether the port accepts.
  \<open>None\<close> is a wait that is still going on when the rounds end.\<close>

datatype wait_pick = Pick_Exit | Pick_Cancel | Pick_Nothing

datatype service_wait = Service_Open | Service_Exited | Service_Cancelled | Service_Timeout

fun wait_service_open :: "(wait_pick \<times> bool \<times> bool) list \<Rightarrow> service_wait option" where
  "wait_service_open [] = None"
| "wait_service_open ((Pick_Exit, _, _) # rs) = Some Service_Exited"
| "wait_service_open ((Pick_Cancel, _, _) # rs) = Some Service_Cancelled"
| "wait_service_open ((Pick_Nothing, late, accepts) # rs) =
     (if late then Some Service_Timeout else if accepts then Some Service_Open else wait_service_open rs)"

section \<open>Evidence\<close>

definition trim_newlines_right :: "string \<Rightarrow> string" where
  "trim_newlines_right s = rev (dropWhile (\<lambda>c. c = CHR 0x0A) (rev s))"

definition last_lines :: "nat \<Rightarrow> string list \<Rightarrow> string list" where
  "last_lines n ls = drop (length ls - n) ls"

definition tail_file :: "string option \<Rightarrow> nat \<Rightarrow> string" where
  "tail_file content n =
     (case content of None \<Rightarrow> [] | Some s \<Rightarrow> join [CHR 0x0A] (last_lines n (lines (trim_newlines_right s))))"

text \<open>The copy of the log: its path and content, when there is one. \<open>ok\<close> says whether the
  directory is made and the file written.\<close>

definition preserve_log ::
    "string option \<Rightarrow> bool \<Rightarrow> string option \<Rightarrow> string \<Rightarrow> string \<Rightarrow> (string \<times> string) option" where
  "preserve_log home ok content log_file evidence =
     (case content of
        None \<Rightarrow> None
      | Some data \<Rightarrow>
          if data = [] then None
          else
            (case (if evidence = [] then map_option (\<lambda>h. join_path [h, ''.lezz'', ''logs'']) home
                   else Some (join_path [evidence, ''logs''])) of
               None \<Rightarrow> None
             | Some dir \<Rightarrow> if ok then Some (join_path [dir, ''demo-'' @ base_name log_file], data) else None))"

definition log_evidence ::
    "string option \<Rightarrow> bool \<Rightarrow> string option \<Rightarrow> string \<Rightarrow> string \<Rightarrow> string" where
  "log_evidence home ok content log_file evidence =
     (let kept = (case preserve_log home ok content log_file evidence of
                    None \<Rightarrow> [] | Some (p, _) \<Rightarrow> ''full log: '' @ p @ [CHR 0x0A]);
          last = tail_file content 20;
          shown = (if last = [] then [] else ''--- last 20 lines of '' @ log_file @ '' ---'' @ [CHR 0x0A] @ last) in
      if kept @ shown = [] then ''the service wrote no output'' else trim_newlines_right (kept @ shown))"

definition readiness_error :: "string \<Rightarrow> string \<Rightarrow> string \<Rightarrow> string" where
  "readiness_error service cause evidence = service @ '' readiness: '' @ cause @ ''; '' @ evidence"

section \<open>Properties\<close>

definition loopback_bind :: "string \<Rightarrow> bool" where
  "loopback_bind b = (case parse_ip b of None \<Rightarrow> False | Some a \<Rightarrow> is_loopback a)"

lemma unspecified_not_loopback: "is_unspecified a \<Longrightarrow> \<not> is_loopback a"
  by (auto simp: is_unspecified_def is_loopback_def to4_def ipv4_def numeral_eq_Suc)

lemma resolve_adhd_force:
  "resolve_adhd_listener outbound bind port = Inr l \<Longrightarrow> al_force l \<longleftrightarrow> \<not> loopback_bind bind"
  using unspecified_not_loopback
  by (auto simp: resolve_adhd_listener_def and_then_Inr loopback_bind_def Let_def split: option.splits if_splits)

lemma plan_adhd_Inr:
  assumes "plan_adhd run args = Inr (planned, notes)"
  shows "snd (probe_adhd run planned)
    \<and> (planned = args \<and> notes = []
       \<or> adhd_force_flag \<in> set args \<and> \<not> snd (probe_adhd run args)
         \<and> planned = filter (\<lambda>a. a \<noteq> adhd_force_flag) args \<and> notes \<noteq> [])"
  using assms by (auto simp: plan_adhd_def strip_flag_def Let_def split: prod.splits if_splits)

lemma adhd_exposure_aux:
  assumes "resolve_adhd_listener outbound bind port = Inr l"
    and "plan_adhd run (demo_adhd_args config log l alarm) = Inr (planned, notes)"
    and "adhd_force_flag \<notin> {config, log, alarm}"
  shows "snd (probe_adhd run planned)
    \<and> filter (\<lambda>a. a \<noteq> adhd_force_flag) planned = demo_adhd_args config log (l\<lparr>al_force := False\<rparr>) alarm
    \<and> (if loopback_bind bind
       then adhd_force_flag \<notin> set planned \<and> notes = [] \<and> al_addr l = join_host_port (ip_string (the (parse_ip bind))) port
       else adhd_force_flag \<in> set planned \<or> notes \<noteq> [])"
proof -
  have "CHR '':'' \<in> set (al_addr l)"
    using assms(1) by (auto simp: resolve_adhd_listener_def and_then_Inr Let_def join_host_port_def split: option.splits if_splits)
  then have a: "al_addr l \<noteq> adhd_force_flag" by (auto simp: adhd_force_flag_def)
  have f: "adhd_force_flag \<noteq> ''--headless''" "adhd_force_flag \<noteq> ''--config''" "adhd_force_flag \<noteq> ''--log''"
      "adhd_force_flag \<noteq> ''--mcp-addr''" "adhd_force_flag \<noteq> ''--smoke-alarm''"
    by (simp_all add: adhd_force_flag_def)
  have d: "filter (\<lambda>a. a \<noteq> adhd_force_flag) (demo_adhd_args config log l alarm) = demo_adhd_args config log (l\<lparr>al_force := False\<rparr>) alarm"
      "adhd_force_flag \<in> set (demo_adhd_args config log l alarm) \<longleftrightarrow> al_force l"
      "adhd_force_flag \<notin> set (demo_adhd_args config log (l\<lparr>al_force := False\<rparr>) alarm)"
    using a f assms(3) by (auto simp: demo_adhd_args_def)
  have "loopback_bind bind \<Longrightarrow> al_addr l = join_host_port (ip_string (the (parse_ip bind))) port"
    using assms(1) by (auto simp: resolve_adhd_listener_def and_then_Inr loopback_bind_def Let_def split: option.splits if_splits)
  then show ?thesis
    using plan_adhd_Inr [OF assms(2)] resolve_adhd_force [OF assms(1)] d by (auto simp: filter_id_conv)
qed

text \<open>
  C16: the dashboard of a demo runs on a command line its binary accepted. On a loopback bind it
  listens on that address and never gets the override of the guard; on any other bind it gets the
  override, or the binary refused it and the run says so. No other argument is dropped.
\<close>

theorem adhd_exposure:
  assumes "resolve_adhd_listener outbound bind port = Inr l"
    and "plan_adhd run (demo_adhd_args config log l alarm) = Inr (planned, notes)"
    and "adhd_force_flag \<notin> {config, log, alarm}"
  shows "snd (probe_adhd run planned)
    \<and> filter (\<lambda>a. a \<noteq> adhd_force_flag) planned = demo_adhd_args config log (l\<lparr>al_force := False\<rparr>) alarm
    \<and> (if loopback_bind bind
       then adhd_force_flag \<notin> set planned \<and> notes = [] \<and> al_addr l = join_host_port (ip_string (the (parse_ip bind))) port
       else adhd_force_flag \<in> set planned \<or> notes \<noteq> [])"
  by (rule adhd_exposure_aux [OF assms])

definition old_adhd :: "string list \<Rightarrow> string \<times> bool" where
  "old_adhd args = (if adhd_force_flag \<in> set args then (''flag provided but not defined: -force'', False) else (''adhd 0.1'', True))"

text \<open>A release without the override, on the default bind.\<close>

theorem adhd_exposure_witness:
  "case resolve_adhd_listener ''192.0.2.7'' [] 4100 of
     Inl _ \<Rightarrow> False
   | Inr l \<Rightarrow>
       (case plan_adhd old_adhd (demo_adhd_args ''/t/adhd.yaml'' ''/t/adhd.log'' l ''http://0.0.0.0:4101'') of
          Inl _ \<Rightarrow> False
        | Inr (planned, ns) \<Rightarrow> snd (probe_adhd old_adhd planned) \<and> ns \<noteq> [] \<and> adhd_force_flag \<notin> set planned)"
proof -
  obtain l where l: "resolve_adhd_listener ''192.0.2.7'' [] 4100 = Inr l" and lf: "al_force l"
    by (simp add: resolve_adhd_listener_def validate_adhd_bind_def parse_ip_def)
  define args where "args = demo_adhd_args ''/t/adhd.yaml'' ''/t/adhd.log'' l ''http://0.0.0.0:4101''"
  have "adhd_force_flag \<in> set args" using lf by (simp add: args_def demo_adhd_args_def)
  then obtain planned ns where p: "plan_adhd old_adhd args = Inr (planned, ns)"
      and n: "ns \<noteq> []" "adhd_force_flag \<notin> set planned"
    by (simp add: plan_adhd_def probe_adhd_def old_adhd_def strip_flag_def Let_def adhd_force_flag_def)
  then show ?thesis
    using adhd_exposure [OF l p [unfolded args_def]] l by (auto simp: args_def adhd_force_flag_def)
qed

text \<open>The wait opens exactly when the first round that is not a refused dial before the deadline is an
  accepted one.\<close>

lemma wait_service_open_iff:
  "wait_service_open rs = Some Service_Open \<longleftrightarrow>
     (case dropWhile (\<lambda>r. r = (Pick_Nothing, False, False)) rs of [] \<Rightarrow> False | r # _ \<Rightarrow> r = (Pick_Nothing, False, True))"
  by (induction rs rule: wait_service_open.induct) auto

lemma wait_service_ends: "(p, True, a) \<in> set rs \<Longrightarrow> wait_service_open rs \<noteq> None"
  by (induction rs rule: wait_service_open.induct) auto

end
