(* ===== verification/DemoConfig.thy ===== *)
theory DemoConfig
  imports ProdCluster AdhdLaunch JsonValue
begin

text \<open>
  What the two launchers generate (\<open>internal/demo/cluster.go\<close>, \<open>links.go\<close>, \<open>auto.go\<close>): the
  configuration of the dashboard and of the alarms as their templates render them, the retreat to an
  older binary's configuration, the port a link bound, the messages that announce a cluster and the
  waits. The parser of the alarms is a parameter.
\<close>

section \<open>Configurations\<close>

definition render_demo_adhd :: "int \<Rightarrow> int \<Rightarrow> int \<Rightarrow> string" where
  "render_demo_adhd adhd a b =
     join [CHR 0x0A]
      [''mcp_server:'',
       ''  enabled: true'',
       ''  addr: \":'' @ dec_int adhd @ ''\"'',
       ''smoke_alarm:'',
       ''  - name: \"alarm-a\"'',
       ''    endpoint: \"http://127.0.0.1:'' @ dec_int a @ ''\"'',
       ''    interval: \"5s\"'',
       ''    use_sse: false'',
       ''  - name: \"alarm-b\"'',
       ''    endpoint: \"http://127.0.0.1:'' @ dec_int b @ ''\"'',
       ''    interval: \"5s\"'',
       ''    use_sse: false'',
       []]"

record link_params =
  lp_port :: int
  lp_listen :: string
  lp_state_dir :: string
  lp_peer_name :: string
  lp_peer_port :: int
  lp_advertise :: bool
  lp_trust_yaml :: string

definition render_link :: "link_params \<Rightarrow> string" where
  "render_link p =
     join [CHR 0x0A]
      [''version: \"1\"'',
       ''service:'',
       ''  name: \"ocd-smoke-alarm\"'',
       ''  environment: \"lezz-demo\"'',
       ''  mode: \"background\"'',
       ''  log_level: \"warn\"'',
       ''  poll_interval: \"5s\"'',
       ''  timeout: \"3s\"'',
       ''  max_workers: 4'',
       [],
       ''health:'',
       ''  enabled: true'',
       ''  listen_addr: \"'' @ lp_listen p @ '':'' @ dec_int (lp_port p) @ ''\"'',
       ''  self_check: true'',
       ''  endpoints:'',
       ''    healthz: \"/healthz\"'',
       ''    readyz: \"/readyz\"'',
       ''    status: \"/status\"'',
       [],
       ''runtime:'',
       ''  state_dir: \"'' @ lp_state_dir p @ ''\"'',
       ''  baseline_file: \"'' @ lp_state_dir p @ ''/known-good.json\"'',
       ''  event_history_size: 100'',
       ''  graceful_shutdown_timeout: \"5s\"'',
       [],
       ''known_state:'',
       ''  enabled: true'',
       ''  persist: true'',
       [],
       ''discovery:'',
       ''  enabled: false'',
       [],
       ''tuner:'',
       ''  enabled: true'',
       ''  advertise: '' @ (if lp_advertise p then ''true'' else ''false''),
       ''  service_type: \"_smoke-alarm._tcp\"'',
       [],
       ''alerts:'',
       ''  aggressive: false'',
       ''  notify_on_regression_immediately: true'',
       ''  sinks:'',
       ''    log:'',
       ''      enabled: true'',
       [],
       lp_trust_yaml p,
       ''targets:'',
       ''  - id: \"peer\"'',
       ''    enabled: true'',
       ''    protocol: \"http\"'',
       ''    name: \"'' @ lp_peer_name p @ ''\"'',
       ''    endpoint: \"http://localhost:'' @ dec_int (lp_peer_port p) @ ''/status\"'',
       ''    transport: \"http\"'',
       ''    expected:'',
       ''      healthy_status_codes: [200]'',
       []]"

record base_alarm =
  ab_port :: int
  ab_listen :: string
  ab_state_dir :: string
  ab_binary :: string
  ab_config_path :: string
  ab_log_path :: string
  ab_cluster_id :: string
  ab_trust_yaml :: string
  ab_fed_base :: int
  ab_fed_max :: int

definition render_base :: "base_alarm \<Rightarrow> string" where
  "render_base c =
     join [CHR 0x0A]
      ([''version: \"1\"'',
       ''service:'',
       ''  name: \"ocd-smoke-alarm\"'',
       ''  environment: \"lezz-base\"'',
       ''  mode: \"background\"'',
       ''  log_level: \"warn\"'',
       ''  poll_interval: \"5s\"'',
       ''  timeout: \"3s\"'',
       ''  max_workers: 4'',
       [],
       ''health:'',
       ''  enabled: true'',
       ''  listen_addr: \"'' @ ab_listen c @ '':'' @ dec_int (ab_port c) @ ''\"'',
       ''  self_check: true'',
       ''  endpoints:'',
       ''    healthz: \"/healthz\"'',
       ''    readyz: \"/readyz\"'',
       ''    status: \"/status\"'',
       [],
       ''runtime:'',
       ''  lock_file: \"'' @ ab_state_dir c @ ''/lock\"'',
       ''  state_dir: \"'' @ ab_state_dir c @ ''\"'',
       ''  baseline_file: \"'' @ ab_state_dir c @ ''/known-good.json\"'',
       ''  event_history_size: 100'',
       ''  graceful_shutdown_timeout: \"5s\"'',
       [],
       ''discovery:'',
       ''  enabled: true'',
       ''  interval: \"30s\"'',
       ''  include_local_paths:'',
       ''    - \"~/.config/mcp\"'',
       ''    - \"~/.config/acp\"'',
       ''  local_proxy_scan:'',
       ''    enabled: false'',
       ''  cloud_catalog:'',
       ''    enabled: false'',
       ''    urls: []'',
       ''  llms_txt:'',
       ''    enabled: false'',
       [],
       ''tuner:'',
       ''  enabled: true'',
       ''  advertise: true'',
       [],
       ''alerts:'',
       ''  aggressive: false'',
       ''  notify_on_regression_immediately: true'',
       ''  sinks:'',
       ''    log:'',
       ''      enabled: true'',
       [],
       ab_trust_yaml c,
       ''# Base cluster: empty and awaiting. Targets are registered at runtime via'',
       ''# discovery (auto-refresh) or pushed via remote management '' @ [CHR 0xE2, CHR 0x80, CHR 0x94] @ '' never hardcoded.'',
       ''targets: []'',
       [],
       ''# Chain link by link: every base instance shares this federation port range, so'',
       ''# they self-elect a mesh with no manual wiring '' @ [CHR 0xE2, CHR 0x80, CHR 0x94] @ '' the first to bind base_port'',
       ''# becomes the introducer, and each later instance claims the next free slot and'',
       ''# introduces itself. This is what sets auto apart from demo, which peers'',
       ''# instances by hand.'',
       ''federation:'',
       ''  enabled: true'']
      @ (if ab_cluster_id c = [] then [] else [''  cluster_id: \"'' @ ab_cluster_id c @ ''\"''])
      @ [''  base_port: '' @ dec_int (ab_fed_base c),
       ''  max_port: '' @ dec_int (ab_fed_max c),
       ''  poll_interval: \"5s\"'',
       ''  announce_interval: \"10s\"'',
       ''  heartbeat_interval: \"15s\"'',
       ''  heartbeat_timeout: \"45s\"'',
       ''  upstream: \"\"'',
       ''  downstream: []'',
       ''  rank: 0'',
       [],
       ''dynamic_config:'',
       ''  enabled: true'',
       ''  directory: \"'' @ ab_state_dir c @ ''/dynamic-config\"'',
       ''  formats: [\"json\", \"markdown\"]'',
       ''  serve_base_url: \"/dynamic-config\"'',
       ''  allow_overwrite: true'',
       ''  require_unique_ids: true'',
       [],
       ''remote_agent:'',
       ''  managed_updates: true'',
       ''  update:'',
       ''    strategy: \"rolling-single\"'',
       ''    stop_command: \"'' @ ab_binary c @ '' ops stop -pid-file '' @ ab_state_dir c @ ''/ocd-smoke-alarm.pid\"'',
       ''    start_command: \"nohup '' @ ab_binary c @ '' serve -config '' @ ab_config_path c @ '' >> '' @ ab_log_path c @ '' 2>&1 & sleep 1\"'',
       ''    verify_command: \"'' @ ab_binary c @ '' check -config '' @ ab_config_path c @ ''\"'',
       ''    rollback_on_failure: false'',
       ''    max_wait_for_healthy: \"30s\"'',
       ''  safety:'',
       ''    require_lock: false'',
       []])"

text \<open>The federation range the base instances share, and the identity they claim in it.\<close>

definition federation_base :: int where "federation_base = 5100"
definition federation_max :: int where "federation_max = 5107"

definition base_cluster_id :: string where
  "base_cluster_id = ''lezz-base:'' @ dec_int federation_base @ ''-'' @ dec_int federation_max"

definition base_cluster_name :: "int \<Rightarrow> string" where
  "base_cluster_name pid = ''base-'' @ dec_int pid"

definition demo_cluster_name :: "int \<Rightarrow> string" where
  "demo_cluster_name pid = ''demo-'' @ dec_int pid"

section \<open>A configuration an installed binary accepts\<close>

datatype config_err = Config_Not_Written | Config_Rejected

datatype degraded = No_Cluster_Id | No_Trust_Block

text \<open>\<open>accepts\<close> is the validator of the installed binary on the text, \<open>fs\<close> the faults of the writes.
  The result is the configuration left in the file, with what was dropped.\<close>

definition write_config :: "(string \<Rightarrow> bool) \<Rightarrow> base_alarm \<Rightarrow> bool list \<Rightarrow> (config_err, bool) res \<times> bool list" where
  "write_config accepts c fs =
     (let (bad, fs') = next_fault fs in (if bad then Inl Config_Not_Written else Inr (accepts (render_base c)), fs'))"

definition write_validated ::
    "(string \<Rightarrow> bool) \<Rightarrow> base_alarm \<Rightarrow> bool list \<Rightarrow> (config_err, base_alarm \<times> degraded list) res \<times> bool list" where
  "write_validated accepts c fs =
     next_do (write_config accepts c fs) (\<lambda>ok fs1.
       if ok then (Inr (c, []), fs1)
       else if ab_cluster_id c = [] then (Inl Config_Rejected, fs1)
       else
         (let c1 = c\<lparr>ab_cluster_id := []\<rparr> in
          next_do (write_config accepts c1 fs1) (\<lambda>ok fs2.
            if ok then (Inr (c1, [No_Cluster_Id]), fs2)
            else if ab_trust_yaml c1 = [] then (Inl Config_Rejected, fs2)
            else
              (let c2 = c1\<lparr>ab_trust_yaml := []\<rparr> in
               next_do (write_config accepts c2 fs2) (\<lambda>ok fs3.
                 if ok then (Inr (c2, [No_Cluster_Id, No_Trust_Block]), fs3) else (Inl Config_Rejected, fs3))))))"

section \<open>The port a link bound\<close>

datatype link_err = Bad_Address string addr_err | Other_Port string int int

fun check_bound :: "(string \<times> string \<times> int) list \<Rightarrow> (link_err, unit) res" where
  "check_bound [] = Inr ()"
| "check_bound ((name, addr, want) # ls) =
     (case port_of addr of
        Inl e \<Rightarrow> Inl (Bad_Address name e)
      | Inr got \<Rightarrow> if got \<noteq> want then Inl (Other_Port name got want) else check_bound ls)"

definition check_link_ports :: "string \<Rightarrow> int \<Rightarrow> string \<Rightarrow> int \<Rightarrow> (link_err, unit) res" where
  "check_link_ports a want_a b want_b = check_bound [(''alarm-a'', a, want_a), (''alarm-b'', b, want_b)]"

definition link_health_url :: "string \<Rightarrow> string" where
  "link_health_url addr =
     (case port_of addr of Inl _ \<Rightarrow> [] | Inr p \<Rightarrow> ''http://127.0.0.1:'' @ dec_int p @ ''/healthz'')"

section \<open>Announcements\<close>

text \<open>The keys of an object are in the order the encoder writes them.\<close>

definition project_json :: "project_entry \<Rightarrow> json" where
  "project_json p =
     JObj ([(''id'', JStr (if pe_id p = [] then pe_name p else pe_id p)), (''mcp_url'', JStr (pe_mcp_url p)),
            (''name'', JStr (pe_name p)), (''repo'', JStr (pe_repo p))]
       @ (if pe_route p = [] then [] else [(''route'', JStr (pe_route p))]))"

definition join_payload :: "cluster_info \<Rightarrow> json" where
  "join_payload i =
     JObj [(''id'', JNum ''1''), (''jsonrpc'', JStr ''2.0''), (''method'', JStr ''adhd.cluster.join''),
       (''params'', JObj
          ([(''adhd_mcp'', JStr (ci_adhd_mcp i)), (''alarm_a'', JStr (ci_alarm_a i)), (''alarm_b'', JStr (ci_alarm_b i))]
           @ (if ci_repos i = [] then [] else [(''github_repos'', JArr (map JStr (ci_repos i)))])
           @ [(''name'', JStr (ci_name i))]
           @ (if ci_projects i = [] then [] else [(''projects'', JArr (map project_json (ci_projects i)))])))]"

text \<open>A message is an endpoint and the cluster it is told about.\<close>

definition send_join :: "string \<Rightarrow> cluster_info \<Rightarrow> (string \<times> cluster_info) list" where
  "send_join mcp i = (if mcp = [] then [] else [(mcp, i)])"

definition notify_existing :: "cluster_info list option \<Rightarrow> cluster_info \<Rightarrow> (string \<times> cluster_info) list" where
  "notify_existing found new =
     (case found of
        None \<Rightarrow> []
      | Some cs \<Rightarrow>
          concat (map (\<lambda>c. if ci_name c = ci_name new then [] else send_join (ci_adhd_mcp c) new @ send_join (ci_adhd_mcp new) c) cs))"

text \<open>The seeds of the environment: nothing for a value that is empty or does not decode.\<close>

definition project_seeds :: "project_entry list option \<Rightarrow> project_entry list" where
  "project_seeds decoded =
     (case decoded of None \<Rightarrow> [] | Some es \<Rightarrow> filter (\<lambda>e. pe_name e \<noteq> [] \<and> pe_mcp_url e \<noteq> []) es)"

section \<open>Waits\<close>

text \<open>A round: the deadline has passed, the context is done, the status of the answer.\<close>

fun wait_ready :: "(bool \<times> bool \<times> nat option) list \<Rightarrow> wait_end" where
  "wait_ready [] = Timed_Out"
| "wait_ready ((late, cancelled, status) # rs) =
     (if late then Timed_Out else if cancelled then Cancelled
      else if status = Some 200 then Served else wait_ready rs)"

definition isotope_line :: "string \<times> int \<times> string \<Rightarrow> string" where
  "isotope_line e = (case e of (name, rung, title) \<Rightarrow> name @ '' rung '' @ dec_int rung @ '' ('' @ title @ '')'')"

text \<open>A round: the entries of the answer, the deadline, the context.\<close>

fun query_isotope_trust :: "((string \<times> int \<times> string) list option \<times> bool \<times> bool) list \<Rightarrow> string" where
  "query_isotope_trust [] = ''unavailable''"
| "query_isotope_trust ((answer, late, cancelled) # rs) =
     (case answer of
        Some (e # es) \<Rightarrow> join '', '' (map isotope_line (e # es))
      | _ \<Rightarrow>
          if late then (if answer = None then ''unavailable'' else ''none registered'')
          else if cancelled then ''unavailable'' else query_isotope_trust rs)"

section \<open>Copying\<close>

text \<open>A read of the source: the bytes it gave and how it ended.\<close>

datatype read_end = More | End_Of_File | Read_Failed

fun copy_loop :: "(string \<times> read_end) list \<Rightarrow> bool list \<Rightarrow> string \<Rightarrow> bool \<times> string" where
  "copy_loop [] fs fin = (True, fin)"
| "copy_loop ((data, e) # rs) fs fin =
     (let (bad, fs') = (if data = [] then (False, fs) else next_fault fs) in
      if bad then (False, fin)
      else
        (case e of
           More \<Rightarrow> copy_loop rs fs' (fin @ data)
         | End_Of_File \<Rightarrow> (True, fin @ data)
         | Read_Failed \<Rightarrow> (False, fin @ data)))"

section \<open>Properties\<close>

text \<open>The configurations tried, each with what it drops.\<close>

definition retreats :: "base_alarm \<Rightarrow> (base_alarm \<times> degraded list) list" where
  "retreats c =
     (c, []) # (if ab_cluster_id c = [] then []
       else (c\<lparr>ab_cluster_id := []\<rparr>, [No_Cluster_Id])
         # (if ab_trust_yaml c = [] then []
            else [(c\<lparr>ab_cluster_id := [], ab_trust_yaml := []\<rparr>, [No_Cluster_Id, No_Trust_Block])]))"

text \<open>
  The configuration an alarm is started with is the first of the retreats that its binary
  accepts; when it accepts none the launch fails.
\<close>

theorem validated_is_first_accepted:
  "fst (write_validated accepts c []) =
     (case find (\<lambda>(k, _). accepts (render_base k)) (retreats c) of None \<Rightarrow> Inl Config_Rejected | Some x \<Rightarrow> Inr x)"
  by (simp add: write_validated_def write_config_def retreats_def Let_def)

text \<open>A binary that knows the cluster identity but not the trust block: the identity is dropped too,
  and reported as unsupported.\<close>

lemma trust_drop_takes_identity:
  assumes "accepts (render_base (c\<lparr>ab_trust_yaml := []\<rparr>))" "\<not> accepts (render_base c)"
    "\<not> accepts (render_base (c\<lparr>ab_cluster_id := []\<rparr>))" "accepts (render_base (c\<lparr>ab_cluster_id := [], ab_trust_yaml := []\<rparr>))"
    "ab_cluster_id c \<noteq> []" "ab_trust_yaml c \<noteq> []"
  shows "fst (write_validated accepts c []) =
    Inr (c\<lparr>ab_cluster_id := [], ab_trust_yaml := []\<rparr>, [No_Cluster_Id, No_Trust_Block])"
  using assms by (simp add: write_validated_def write_config_def Let_def)

text \<open>
  The run goes on only when both links bound the port their peer was given, whatever host the
  address of the listener names, and the readiness URL names that port.
\<close>

theorem links_are_peered:
  assumes "plain_host h" "plain_host k" "a < 2 ^ 63" "b < 2 ^ 63"
  shows "(check_link_ports (join_host_port h a) want_a (join_host_port k b) want_b = Inr () \<longleftrightarrow> int a = want_a \<and> int b = want_b)
    \<and> link_health_url (join_host_port h a) = ''http://127.0.0.1:'' @ dec_int (int a) @ ''/healthz''"
  using assms by (simp add: check_link_ports_def port_of_joined link_health_url_def)

theorem links_are_peered_witness:
  "check_link_ports (join_host_port ''::'' 5100) 5100 (join_host_port ''0.0.0.0'' 5101) 5101 = Inr ()"
  using links_are_peered [of "''::''" "''0.0.0.0''" 5100 5101 5100 5101] by (simp add: plain_host_def)

end
