(* ===== verification/DemoRun.thy ===== *)
theory DemoRun
  imports DemoConfig GoText
begin

text \<open>
  The two launchers, \<open>Run\<close> (\<open>internal/demo/cluster.go\<close>) and \<open>RunAuto\<close> (\<open>internal/demo/auto.go\<close>).
  A run is modelled by what it takes and gives back, in order: a deferred call is \<open>deferring\<close>, which
  runs it on every path out of its body. Every call that can fail takes the next entry of a script;
  an entry is also where a signal may arrive, which kills a process that has not asked for it before
  any deferred call runs.
\<close>

section \<open>Taking and giving back\<close>

datatype held =
    Temp_Root
  | Log_File string
  | Link string
  | Child string
  | Skills
  | Own_Registry
  | Advert
  | Membership
  | Stable_Config
  | Run_Record

datatype demo_event =
    Took held
  | Gave held
  | Left_Behind held
  | Came_Up string
  | Ran string "string list" "string list"     \<comment> \<open>a binary, its arguments, what its environment gains\<close>
  | Told string cluster_info

datatype step_end = Works | Breaks | Signalled

record demo_world =
  dw_log :: "demo_event list"
  dw_script :: "step_end list"
  dw_caught :: bool
  dw_dir :: demo_dir

datatype demo_err =
    Killed
  | Demo_Dir dir_err
  | Demo_Trust trust_err
  | Demo_Running int
  | Demo_Ports pin_err
  | Demo_Bad_Registry string
  | Demo_No_Temp
  | Demo_No_Dirs
  | Demo_Link_Failed string
  | Demo_Other_Port link_err
  | Demo_Not_Ready string
  | Demo_No_Config string
  | Demo_Stable_Not_Written
  | Demo_Adhd adhd_err
  | Demo_Not_Started string
  | Demo_State_Not_Written
  | Demo_Unknown_Tool string
  | Demo_Not_Installed string
  | Demo_No_Port string
  | Demo_No_Skills
  | Demo_No_Alarm
  | Demo_Alarm_Config string config_err

definition happened :: "demo_event \<Rightarrow> demo_world \<Rightarrow> demo_world" where
  "happened e w = w\<lparr>dw_log := dw_log w @ [e]\<rparr>"

definition attempt_call :: "demo_world \<Rightarrow> (demo_err, bool) res \<times> demo_world" where
  "attempt_call w =
     (case dw_script w of
        [] \<Rightarrow> (Inr True, w)
      | s # r \<Rightarrow>
          (let w' = w\<lparr>dw_script := r\<rparr> in
           case s of
             Works \<Rightarrow> (Inr True, w')
           | Breaks \<Rightarrow> (Inr False, w')
           | Signalled \<Rightarrow> if dw_caught w then (Inr True, w') else (Inl Killed, w')))"

definition call :: "demo_err \<Rightarrow> demo_world \<Rightarrow> (demo_err, unit) res \<times> demo_world" where
  "call e w = next_do (attempt_call w) (\<lambda>ok w'. (or_fail ok e, w'))"

fun calls :: "demo_err list \<Rightarrow> demo_world \<Rightarrow> (demo_err, unit) res \<times> demo_world" where
  "calls [] w = (Inr (), w)"
| "calls (e # es) w = next_do (call e w) (\<lambda>_. calls es)"

type_synonym 'a demo_body = "demo_world \<Rightarrow> (demo_err, 'a) res \<times> demo_world"

definition deferring :: "(demo_world \<Rightarrow> demo_world) \<Rightarrow> 'a demo_body \<Rightarrow> 'a demo_body" where
  "deferring fin body w = (let (r, w') = body w in (r, if r = Inl Killed then w' else fin w'))"

definition holding :: "held \<Rightarrow> 'a demo_body \<Rightarrow> 'a demo_body" where
  "holding h body w = deferring (happened (Gave h)) body (happened (Took h) w)"

section \<open>The machine\<close>

text \<open>What a run finds: the process, the network, the installed tools, and the rounds of its waits.\<close>

record demo_env =
  de_pid :: int
  de_now :: time
  de_getenv :: "string \<Rightarrow> string"
  de_home :: "string option"
  de_cwd :: "string option"
  de_mkdir :: "string \<Rightarrow> bool"
  de_alive :: "int \<Rightarrow> bool"
  de_free :: "int \<Rightarrow> bool"
  de_fresh :: "int option list"
  de_random :: "string option"
  de_outbound :: string
  de_temp :: string
  de_bound :: "string \<Rightarrow> string"                        \<comment> \<open>the address a link bound\<close>
  de_ready :: "string \<Rightarrow> (bool \<times> bool \<times> nat option) list"
  de_adhd :: "string option"                           \<comment> \<open>where the binaries are found\<close>
  de_alarm :: "string option"
  de_run :: "string \<Rightarrow> string list \<Rightarrow> string \<times> bool"
  de_adhd_rounds :: "(wait_pick \<times> bool \<times> bool) list"
  de_seeds :: "project_entry list option"
  de_registry :: "cluster_info list option"            \<comment> \<open>a registry that runs already\<close>
  de_peers :: "cluster_info list option"               \<comment> \<open>the registry joined\<close>
  de_others :: "state_event list"                      \<comment> \<open>other processes, while the cluster is up\<close>
  de_present :: "string \<Rightarrow> bool"
  de_managed :: "string \<Rightarrow> bool"
  de_skills :: "project_entry list"
  de_accepts :: "string \<Rightarrow> bool"                       \<comment> \<open>the validator of the installed alarm\<close>

section \<open>The parts of a run\<close>

text \<open>The health of an alarm, then the port of the dashboard; rounds that run out are a deadline.\<close>

definition await_link :: "demo_env \<Rightarrow> string \<Rightarrow> (demo_err, unit) res \<times> demo_world \<Rightarrow> (demo_err, unit) res \<times> demo_world" where
  "await_link env name p =
     next_do p (\<lambda>_ w.
       if wait_ready (de_ready env name) = Served then (Inr (), happened (Came_Up name) w)
       else (Inl (Demo_Not_Ready name), w))"

definition await_adhd :: "demo_env \<Rightarrow> demo_world \<Rightarrow> (demo_err, unit) res \<times> demo_world" where
  "await_adhd env w =
     (if wait_service_open (de_adhd_rounds env) = Some Service_Open then (Inr (), happened (Came_Up ''adhd MCP'') w)
      else (Inl (Demo_Not_Ready ''adhd MCP''), w))"

definition tell_all :: "(string \<times> cluster_info) list \<Rightarrow> demo_world \<Rightarrow> demo_world" where
  "tell_all ms w = fold (\<lambda>(mcp, i). happened (Told mcp i)) ms w"

text \<open>The registry: served here, with an advertisement when it is reachable, or joined. The rest of
  the run is told which; a registry that can be neither is a warning.\<close>

definition with_discovery ::
    "registry_listener \<Rightarrow> string \<Rightarrow> (bool \<Rightarrow> bool \<Rightarrow> 'a demo_body) \<Rightarrow> 'a demo_body" where
  "with_discovery reg cluster rest w =
     next_do (attempt_call w) (\<lambda>owner w1.
       if owner then
         holding Own_Registry (\<lambda>w2.
           case register_registry_mdns reg cluster of
             None \<Rightarrow> rest True True w2
           | Some _ \<Rightarrow>
               next_do (attempt_call w2) (\<lambda>shown w3.
                 if shown then holding Advert (rest True True) w3 else rest True True w3)) w1
       else
         next_do (attempt_call w1) (\<lambda>joined w2.
           if joined then holding Membership (rest False True) w2 else rest False False w2))"

text \<open>The dashboard: fitted to the binary, started with its log and the secret of the cluster, stopped
  on the way out. A minted trust has no certificate, so the encoders of one are not reached.\<close>

definition secret_env :: "string cluster_trust \<Rightarrow> string list" where
  "secret_env = trust_env (\<lambda>c. c) (\<lambda>k. k)"

definition with_adhd :: "demo_env \<Rightarrow> string list \<Rightarrow> string list \<Rightarrow> 'a demo_body \<Rightarrow> 'a demo_body" where
  "with_adhd env args tenv rest w =
     (case prepare_adhd (de_adhd env) (de_run env) args of
        Inl e \<Rightarrow> (Inl (Demo_Adhd e), w)
      | Inr (binary, planned, _) \<Rightarrow>
          next_do (calls [Demo_Not_Started ''adhd'', Demo_Not_Started ''adhd''] w) (\<lambda>_ w1.
            holding (Child ''adhd'') (\<lambda>w2.
              next_do (await_adhd env (happened (Ran binary planned tenv) w2)) (\<lambda>_. rest)) w1))"

text \<open>One alarm inside the process: its configuration, its log, the instance and its start.\<close>

definition with_link :: "string \<Rightarrow> 'a demo_body \<Rightarrow> 'a demo_body" where
  "with_link name rest w =
     next_do (calls [Demo_Link_Failed name, Demo_Link_Failed name] w) (\<lambda>_.
       holding (Log_File name) (\<lambda>w1.
         next_do (calls [Demo_Link_Failed name, Demo_Link_Failed name] w1) (\<lambda>_. holding (Link name) rest)))"

definition seeds_and :: "demo_env \<Rightarrow> project_entry list \<Rightarrow> project_entry list" where
  "seeds_and env skills = project_seeds (de_seeds env) @ skills"

section \<open>The demo\<close>

definition demo_info :: "demo_env \<Rightarrow> ports \<Rightarrow> adhd_listener \<Rightarrow> cluster_info" where
  "demo_info env ps l =
     \<lparr>ci_name = demo_cluster_name (de_pid env),
      ci_alarm_a = http_at (de_outbound env) (pt_alarm_a ps), ci_alarm_b = http_at (de_outbound env) (pt_alarm_b ps),
      ci_adhd_mcp = mcp_url l (nat (pt_adhd ps)), ci_repos = [], ci_projects = seeds_and env []\<rparr>"

definition demo_config_path :: "demo_env \<Rightarrow> string" where
  "demo_config_path env = de_temp env @ ''/adhd.yaml''"

definition demo_log_path :: "demo_env \<Rightarrow> string \<Rightarrow> string" where
  "demo_log_path env name = de_temp env @ ''/'' @ name @ ''.log''"

definition stable_config_path :: "string \<Rightarrow> string" where
  "stable_config_path dir = join_path [dir, ''demo-adhd.yaml'']"

definition demo_record ::
    "demo_env \<Rightarrow> string \<Rightarrow> ports \<Rightarrow> registry_listener \<Rightarrow> cluster_info \<Rightarrow> demo_state" where
  "demo_record env dir ps reg info =
     \<lparr>ds_pid = de_pid env, ds_started_at = de_now env, ds_cluster = info, ds_ports = ps, ds_discovery = registry_url reg,
      ds_stable_config = stable_config_path dir, ds_log_dir = de_temp env, ds_state_dir = dir\<rparr>"

text \<open>The record is written and removed on the way out; in between other processes use the directory.\<close>

definition publish :: "demo_env \<Rightarrow> demo_state \<Rightarrow> unit demo_body" where
  "publish env s w =
     (let (ok, d) = write_state s (dw_dir w) in
      next_do (or_fail ok Demo_State_Not_Written, w\<lparr>dw_dir := d\<rparr>) (\<lambda>_ w1.
        deferring (\<lambda>w2. happened (Gave Run_Record) (w2\<lparr>dw_dir := remove_state (ds_pid s) (dw_dir w2)\<rparr>))
          (\<lambda>w2. (Inr (), w2\<lparr>dw_dir := fold apply_event (de_others env) (dw_dir w2)\<rparr>))
          (happened (Took Run_Record) w1)))"

text \<open>The configuration of the dashboard and its copy in the state directory. A copy that fails
  once the file is open leaves it there.\<close>

definition with_stable_config :: "'a demo_body \<Rightarrow> 'a demo_body" where
  "with_stable_config rest w =
     next_do (calls [Demo_No_Config ''adhd'', Demo_Stable_Not_Written, Demo_Stable_Not_Written] w) (\<lambda>_ w1.
     next_do (attempt_call w1) (\<lambda>copied w2.
       if copied then holding Stable_Config rest w2
       else (Inl Demo_Stable_Not_Written, happened (Left_Behind Stable_Config) w2)))"

definition demo_adhd ::
    "demo_env \<Rightarrow> string \<Rightarrow> string list \<Rightarrow> ports \<Rightarrow> adhd_listener \<Rightarrow> registry_listener \<Rightarrow> bool \<Rightarrow> unit demo_body" where
  "demo_adhd env dir tenv ps l reg tell w =
     (let info = demo_info env ps l;
          told = (if tell then tell_all (notify_existing (de_peers env) info) w else w) in
      with_stable_config (with_adhd env
        (demo_adhd_args (demo_config_path env) (demo_log_path env ''adhd'') l (http_at ''0.0.0.0'' (pt_alarm_a ps))) tenv
        (\<lambda>w1. publish env (demo_record env dir ps reg info) (tell_all (send_join (ci_adhd_mcp info) info) w1))) told)"

definition demo_links ::
    "demo_env \<Rightarrow> string \<Rightarrow> string list \<Rightarrow> ports \<Rightarrow> adhd_listener \<Rightarrow> registry_listener \<Rightarrow> unit demo_body" where
  "demo_links env dir tenv ps l reg =
     with_link ''alarm-a'' (with_link ''alarm-b'' (\<lambda>w.
       case check_link_ports (de_bound env ''alarm-a'') (pt_alarm_a ps) (de_bound env ''alarm-b'') (pt_alarm_b ps) of
         Inl e \<Rightarrow> (Inl (Demo_Other_Port e), w)
       | Inr _ \<Rightarrow>
           next_do (await_link env ''alarm-b'' (await_link env ''alarm-a'' (Inr (), w))) (\<lambda>_.
             with_discovery reg (demo_cluster_name (de_pid env))
               (\<lambda>owner joined. demo_adhd env dir tenv ps l reg (\<not> owner \<and> joined)))))"

definition demo_prepared ::
    "demo_env \<Rightarrow> string \<Rightarrow> string list \<Rightarrow> demo_options \<Rightarrow> ports \<Rightarrow> unit demo_body" where
  "demo_prepared env dir tenv o' ps w =
     (case resolve_adhd_listener (de_outbound env) (op_adhd_bind o') (nat (pt_adhd ps)) of
        Inl e \<Rightarrow> (Inl (Demo_Ports e), w)
      | Inr l \<Rightarrow>
          (case resolve_registry_listener (de_outbound env) (op_registry_bind o') of
             Inl b \<Rightarrow> (Inl (Demo_Bad_Registry b), w)
           | Inr reg \<Rightarrow>
               next_do (call Demo_No_Temp w) (\<lambda>_.
                 holding Temp_Root (\<lambda>w1.
                   next_do (calls [Demo_No_Dirs, Demo_No_Dirs] w1) (\<lambda>_. demo_links env dir tenv ps l reg)))))"

definition run_demo :: "demo_env \<Rightarrow> demo_options \<Rightarrow> unit demo_body" where
  "run_demo env o' w0 =
     deferring (\<lambda>w. w\<lparr>dw_caught := False\<rparr>) (\<lambda>w.
       case resolve_state_dir (de_getenv env) (de_home env) (de_cwd env) (de_mkdir env) (op_state_dir o') of
         Inl e \<Rightarrow> (Inl (Demo_Dir e), w)
       | Inr dir \<Rightarrow>
           (case (new_cluster_trust (de_random env) (demo_cluster_name (de_pid env)) :: (trust_err, string cluster_trust) res) of
              Inl e \<Rightarrow> (Inl (Demo_Trust e), w)
            | Inr trust \<Rightarrow>
                (let (r, d) = running_state (de_alive env) (dw_dir w); w1 = w\<lparr>dw_dir := d\<rparr> in
                 case r of
                   Some s \<Rightarrow> (Inl (Demo_Running (ds_pid s)), w1)
                 | None \<Rightarrow>
                     (case resolve_ports (de_free env) (de_fresh env) (de_now env) o' (load_ports d) of
                        Inl e \<Rightarrow> (Inl (Demo_Ports e), w1)
                      | Inr ps \<Rightarrow> demo_prepared env dir (secret_env trust) o' ps (w1\<lparr>dw_dir := snd (save_ports ps d)\<rparr>)))))
       (w0\<lparr>dw_caught := True\<rparr>)"

section \<open>The base cluster\<close>

fun ensure_tools :: "demo_env \<Rightarrow> string list \<Rightarrow> unit demo_body" where
  "ensure_tools env [] w = (Inr (), w)"
| "ensure_tools env (n # ns) w =
     (if de_present env n then ensure_tools env ns w
      else if \<not> de_managed env n then (Inl (Demo_Unknown_Tool n), w)
      else next_do (call (Demo_Not_Installed n) w) (\<lambda>_. ensure_tools env ns))"

fun free_ports :: "string list \<Rightarrow> int option list \<Rightarrow> (demo_err, int list) res" where
  "free_ports [] fresh = Inr []"
| "free_ports (n # ns) (Some p # fresh) = and_then (free_ports ns fresh) (\<lambda>ps. Inr (p # ps))"
| "free_ports (n # ns) fresh = Inl (Demo_No_Port n)"

definition auto_info :: "demo_env \<Rightarrow> int \<Rightarrow> int \<Rightarrow> int \<Rightarrow> cluster_info" where
  "auto_info env a b adhd =
     \<lparr>ci_name = base_cluster_name (de_pid env), ci_alarm_a = http_at (de_outbound env) a,
      ci_alarm_b = http_at (de_outbound env) b, ci_adhd_mcp = http_at (de_outbound env) adhd @ ''/mcp'',
      ci_repos = [], ci_projects = seeds_and env (de_skills env)\<rparr>"

definition auto_alarm :: "demo_env \<Rightarrow> string \<Rightarrow> string cluster_trust \<Rightarrow> string \<Rightarrow> string \<Rightarrow> int \<Rightarrow> base_alarm" where
  "auto_alarm env binary trust name state port =
     \<lparr>ab_port = port, ab_listen = ''0.0.0.0'', ab_state_dir = de_temp env @ ''/'' @ state, ab_binary = binary,
      ab_config_path = de_temp env @ ''/'' @ name @ ''.yaml'', ab_log_path = demo_log_path env name,
      ab_cluster_id = base_cluster_id, ab_trust_yaml = trust_yaml go_quote trust,
      ab_fed_base = federation_base, ab_fed_max = federation_max\<rparr>"

definition auto_config :: "demo_env \<Rightarrow> string \<Rightarrow> base_alarm \<Rightarrow> base_alarm demo_body" where
  "auto_config env name c w =
     next_do (call (Demo_Alarm_Config name Config_Not_Written) w) (\<lambda>_ w1.
       (case fst (write_validated (de_accepts env) c []) of
          Inl e \<Rightarrow> (Inl (Demo_Alarm_Config name e), w1)
        | Inr (k, _) \<Rightarrow> (Inr k, w1)))"

text \<open>An alarm as a process of its own, told to stop on the way out.\<close>

definition with_alarm :: "string \<Rightarrow> base_alarm \<Rightarrow> 'a demo_body \<Rightarrow> 'a demo_body" where
  "with_alarm name c rest w =
     next_do (calls (replicate 3 (Demo_Not_Started name)) w) (\<lambda>_.
       holding (Child name) (\<lambda>w1. rest (happened (Ran (ab_binary c) [''serve'', ''-config'', ab_config_path c] []) w1)))"

definition auto_adhd_args :: "demo_env \<Rightarrow> int \<Rightarrow> int \<Rightarrow> string list" where
  "auto_adhd_args env a adhd =
     [''--headless'', ''--demo'', ''--log'', demo_log_path env ''adhd'', ''--mcp-addr'', '':'' @ dec_int adhd,
      ''--smoke-alarm'', http_at ''0.0.0.0'' a, adhd_force_flag]"

text \<open>Only here does the process ask for its signals.\<close>

definition auto_up :: "demo_env \<Rightarrow> cluster_info \<Rightarrow> bool \<Rightarrow> unit demo_body" where
  "auto_up env info owner w =
     (let w1 = tell_all (send_join (ci_adhd_mcp info) info) w;
          w2 = (if owner then w1 else tell_all (notify_existing (de_peers env) info) w1) in
      deferring (\<lambda>w. w\<lparr>dw_caught := False\<rparr>) (\<lambda>w. (Inr (), w)) (w2\<lparr>dw_caught := True\<rparr>))"

definition auto_alarms ::
    "demo_env \<Rightarrow> registry_listener \<Rightarrow> string cluster_trust \<Rightarrow> base_alarm \<Rightarrow> base_alarm \<Rightarrow> int \<Rightarrow> unit demo_body" where
  "auto_alarms env reg trust ca cb adhd =
     with_alarm ''alarm-a'' ca (with_alarm ''alarm-b'' cb (\<lambda>w.
       next_do (await_link env ''alarm-b'' (await_link env ''alarm-a'' (Inr (), w))) (\<lambda>_.
         with_discovery reg (base_cluster_name (de_pid env)) (\<lambda>owner _.
           with_adhd env (auto_adhd_args env (ab_port ca) adhd) (secret_env trust)
             (auto_up env (auto_info env (ab_port ca) (ab_port cb) adhd) owner)))))"

definition auto_skills :: "demo_env \<Rightarrow> registry_listener \<Rightarrow> int \<Rightarrow> int \<Rightarrow> int \<Rightarrow> unit demo_body" where
  "auto_skills env reg a b adhd w =
     next_do (calls [Demo_No_Skills, Demo_No_Skills, Demo_No_Skills] w) (\<lambda>_.
       holding Skills (\<lambda>w1.
         case de_alarm env of
           None \<Rightarrow> (Inl Demo_No_Alarm, w1)
         | Some binary \<Rightarrow>
             (case new_cluster_trust (de_random env) (base_cluster_name (de_pid env)) of
                Inl e \<Rightarrow> (Inl (Demo_Trust e), w1)
              | Inr trust \<Rightarrow>
                  next_do (auto_config env ''alarm-a'' (auto_alarm env binary trust ''alarm-a'' ''state-a'' a) w1) (\<lambda>ca w2.
                  next_do (auto_config env ''alarm-b'' (auto_alarm env binary trust ''alarm-b'' ''state-b'' b) w2) (\<lambda>cb.
                    auto_alarms env reg trust ca cb adhd)))))"

definition run_auto :: "demo_env \<Rightarrow> string \<Rightarrow> unit demo_body" where
  "run_auto env bind w =
     (case resolve_registry_listener (de_outbound env) bind of
        Inl b \<Rightarrow> (Inl (Demo_Bad_Registry b), w)
      | Inr reg \<Rightarrow>
          if de_registry env \<noteq> None then (Inr (), w)
          else
            next_do (ensure_tools env [''adhd'', ''ocd-smoke-alarm''] w) (\<lambda>_ w1.
              (case free_ports [''alarm-a'', ''alarm-b'', ''adhd MCP''] (de_fresh env) of
                 Inr [a, b, adhd] \<Rightarrow>
                   next_do (call Demo_No_Temp w1) (\<lambda>_.
                     holding Temp_Root (\<lambda>w2.
                       next_do (calls [Demo_No_Dirs, Demo_No_Dirs] w2) (\<lambda>_. auto_skills env reg a b adhd)))
               | Inr _ \<Rightarrow> (Inl (Demo_No_Port []), w1)
               | Inl e \<Rightarrow> (Inl e, w1))))"

end
