(* ===== verification/DemoRunSafety.thy ===== *)
theory DemoRunSafety
  imports DemoRun "HOL-Library.Sublist"
begin

text \<open>
  What the two launchers leave behind: everything taken is given back in the opposite order on every
  path out, the record is written only once the cluster is up, and a bind that stays on the host
  never starts the dashboard with its guard overridden.
\<close>

section \<open>What is held\<close>

text \<open>The stack of what is held after the events; \<open>None\<close> when something is given back that is not on top.\<close>

fun held_after :: "demo_event list \<Rightarrow> held list \<Rightarrow> held list option" where
  "held_after [] st = Some st"
| "held_after (Took h # es) st = held_after es (h # st)"
| "held_after (Gave h # es) st = (case st of [] \<Rightarrow> None | x # xs \<Rightarrow> if x = h then held_after es xs else None)"
| "held_after (_ # es) st = held_after es st"

lemma held_after_append:
  "held_after (es @ fs) st = (case held_after es st of None \<Rightarrow> None | Some t \<Rightarrow> held_after fs t)"
  by (induction es st rule: held_after.induct) (auto split: list.splits)

definition neutral :: "demo_event list \<Rightarrow> bool" where
  "neutral l \<longleftrightarrow> (\<forall>st. held_after l st = Some st)"

lemma neutral_Nil: "neutral []"
  by (simp add: neutral_def)

lemma neutral_append: "neutral l \<Longrightarrow> neutral k \<Longrightarrow> neutral (l @ k)"
  by (simp add: neutral_def held_after_append)

lemma neutral_bracket: "neutral l \<Longrightarrow> neutral (Took h # l @ [Gave h])"
  by (simp add: neutral_def held_after_append)

definition litter :: "demo_event list \<Rightarrow> bool" where
  "litter l \<longleftrightarrow> (\<exists>h. Left_Behind h \<in> set l)"

text \<open>A run that is not killed gives back what it takes, and litters only when the copy failed.\<close>

definition settles :: "demo_world \<Rightarrow> (demo_err, 'a) res \<times> demo_world \<Rightarrow> bool" where
  "settles w p \<longleftrightarrow> fst p = Inl Killed \<or>
     (\<exists>l. dw_log (snd p) = dw_log w @ l \<and> neutral l \<and> (litter l \<longrightarrow> fst p = Inl Demo_Stable_Not_Written))"

text \<open>A run that has asked for its signals is not killed.\<close>

definition awake :: "demo_world \<Rightarrow> (demo_err, 'a) res \<times> demo_world \<Rightarrow> bool" where
  "awake w p \<longleftrightarrow> (dw_caught w \<longrightarrow> fst p \<noteq> Inl Killed \<and> dw_caught (snd p))"

text \<open>With \<open>c\<close> a run that stays awake, without it one that need not.\<close>

definition sound :: "bool \<Rightarrow> demo_world \<Rightarrow> (demo_err, 'a) res \<times> demo_world \<Rightarrow> bool" where
  "sound c w p \<longleftrightarrow> settles w p \<and> (c \<longrightarrow> awake w p)"

named_theorems sound_intro

lemma sound_same: "dw_log w' = dw_log w \<Longrightarrow> dw_caught w' = dw_caught w \<Longrightarrow> r \<noteq> Inl Killed \<Longrightarrow> sound c w (r, w')"
  by (auto simp: sound_def settles_def awake_def litter_def intro: neutral_Nil)

lemma sound_fail [sound_intro]: "e \<noteq> Killed \<Longrightarrow> sound c w (Inl e, w)"
  by (simp add: sound_same)

lemma sound_ok [sound_intro]: "sound c w (Inr a, w)"
  by (simp add: sound_same)

lemma settles_trans:
  assumes "settles w (Inr a, w1)" "settles w1 p"
  shows "settles w p"
proof -
  obtain l where l: "dw_log w1 = dw_log w @ l" "neutral l" "\<not> litter l"
    using assms(1) by (auto simp: settles_def)
  show ?thesis
  proof (cases "fst p = Inl Killed")
    case False
    then obtain k where "dw_log (snd p) = dw_log w1 @ k" "neutral k" "litter k \<longrightarrow> fst p = Inl Demo_Stable_Not_Written"
      using assms(2) by (auto simp: settles_def)
    then show ?thesis
      unfolding settles_def using l neutral_append [of l k] by (auto intro!: exI [of _ "l @ k"] simp: litter_def)
  qed (simp add: settles_def)
qed

lemma sound_next [sound_intro]:
  assumes "sound c w p" "\<And>a w1. sound c w1 (k a w1)"
  shows "sound c w (next_do p k)"
proof (cases p)
  case (Pair r w1)
  show ?thesis
  proof (cases r)
    case (Inl e)
    then show ?thesis using assms(1) Pair by (auto simp: sound_def settles_def awake_def)
  next
    case (Inr a)
    then show ?thesis
      using assms(1) assms(2) [of w1 a] Pair settles_trans [of w a w1 "k a w1"] by (auto simp: sound_def awake_def)
  qed
qed

fun plain_event :: "demo_event \<Rightarrow> bool" where
  "plain_event (Took h) \<longleftrightarrow> False"
| "plain_event (Gave h) \<longleftrightarrow> False"
| "plain_event (Left_Behind h) \<longleftrightarrow> False"
| "plain_event _ \<longleftrightarrow> True"

lemma happened_simps [simp]:
  "dw_log (happened e w) = dw_log w @ [e]" "dw_caught (happened e w) = dw_caught w" "dw_dir (happened e w) = dw_dir w"
  by (simp_all add: happened_def)

lemma neutral_plain: "plain_event e \<Longrightarrow> neutral l \<Longrightarrow> neutral (e # l)"
  by (cases e) (simp_all add: neutral_def)

lemma sound_happened: "plain_event e \<Longrightarrow> sound c (happened e w) p \<Longrightarrow> sound c w p"
  using neutral_plain [of e]
  by (auto simp: sound_def settles_def awake_def litter_def)

lemma sound_tell: "sound c (tell_all ms w) p \<Longrightarrow> sound c w p"
proof (induction ms arbitrary: w)
  case (Cons m ms)
  obtain mcp i where "m = (mcp, i)" by fastforce
  then have "sound c (happened (Told mcp i) w) p" using Cons by (simp add: tell_all_def)
  then show ?case by (rule sound_happened [rotated]) simp
qed (simp add: tell_all_def)

lemma sound_defer:
  assumes "\<And>w. dw_log (fin w) = dw_log w" "\<And>w. dw_caught (fin w) = dw_caught w" "sound c w (body w)"
  shows "sound c w (deferring fin body w)"
  using assms by (cases "body w") (auto simp: deferring_def sound_def settles_def awake_def Let_def)

lemma holding_result: "fst (holding h body w) = fst (body (happened (Took h) w))"
  by (simp add: holding_def deferring_def split_beta Let_def)

lemma sound_holding [sound_intro]:
  assumes "\<And>w. sound c w (body w)"
  shows "sound c w (holding h body w)"
proof (cases "fst (body (happened (Took h) w)) = Inl Killed")
  case True
  then show ?thesis
    using assms [of "happened (Took h) w"] by (auto simp: sound_def settles_def awake_def holding_result)
next
  case False
  then obtain l where l: "dw_log (snd (body (happened (Took h) w))) = dw_log w @ [Took h] @ l" "neutral l"
      "litter l \<longrightarrow> fst (body (happened (Took h) w)) = Inl Demo_Stable_Not_Written"
    using assms [of "happened (Took h) w"] by (auto simp: sound_def settles_def)
  have s: "snd (holding h body w) = happened (Gave h) (snd (body (happened (Took h) w)))"
    using False by (simp add: holding_def deferring_def split_beta Let_def)
  show ?thesis
    using False l neutral_bracket [of l h] assms [of "happened (Took h) w"]
    by (auto simp: sound_def settles_def awake_def holding_result s litter_def intro!: exI [of _ "Took h # l @ [Gave h]"])
qed

lemma sound_attempt [sound_intro]: "sound c w (attempt_call w)"
proof (cases "dw_script w")
  case Nil
  then show ?thesis by (simp add: attempt_call_def sound_ok)
next
  case (Cons s r)
  then show ?thesis
    by (cases s; cases "dw_caught w") (auto simp: attempt_call_def sound_def settles_def awake_def litter_def intro: neutral_Nil)
qed

lemma sound_call [sound_intro]: "e \<noteq> Killed \<Longrightarrow> sound c w (call e w)"
  unfolding call_def by (intro sound_next sound_attempt) (auto simp: or_fail_def intro: sound_same)

lemma sound_calls [sound_intro]: "Killed \<notin> set es \<Longrightarrow> sound c w (calls es w)"
proof (induction es arbitrary: w)
  case (Cons e es)
  then show ?case unfolding calls.simps by (intro sound_next sound_call) auto
qed (simp add: sound_ok)


section \<open>The parts\<close>

lemma sound_event [sound_intro]: "plain_event e \<Longrightarrow> sound c w (Inr a, happened e w)"
  by (rule sound_happened [OF _ sound_ok])

lemma sound_await_link [sound_intro]: "sound c w p \<Longrightarrow> sound c w (await_link env name p)"
  unfolding await_link_def by (intro sound_next) (auto intro: sound_fail sound_event)

lemma sound_await_adhd [sound_intro]: "sound c w (await_adhd env w)"
  by (auto simp: await_adhd_def intro: sound_fail sound_event)

lemma sound_discovery [sound_intro]:
  assumes "\<And>a b w. sound c w (rest a b w)"
  shows "sound c w (with_discovery reg cluster rest w)"
proof -
  have "sound c w (case register_registry_mdns reg cluster of None \<Rightarrow> rest True True w
      | Some _ \<Rightarrow> next_do (attempt_call w) (\<lambda>shown w3. if shown then holding Advert (rest True True) w3 else rest True True w3))" for w
    using assms by (auto intro!: sound_next sound_attempt sound_holding split: option.splits)
  then show ?thesis
    unfolding with_discovery_def
    by (intro sound_next sound_attempt) (auto intro!: sound_next sound_attempt sound_holding assms)
qed

lemma sound_adhd [sound_intro]:
  assumes "\<And>w. sound c w (rest w)"
  shows "sound c w (with_adhd env args tenv rest w)"
proof -
  have "sound c w (next_do (await_adhd env (happened (Ran b ps tenv) w)) (\<lambda>_. rest))" for b ps w
    by (rule sound_happened [of "Ran b ps tenv"]) (auto intro!: sound_next sound_await_adhd assms)
  then show ?thesis
    unfolding with_adhd_def
    by (auto intro!: sound_fail sound_next [OF sound_calls] sound_holding split: sum.splits simp del: calls.simps)
qed

lemma sound_link [sound_intro]: "(\<And>w. sound c w (rest w)) \<Longrightarrow> sound c w (with_link name rest w)"
  unfolding with_link_def by (intro sound_next sound_calls sound_holding) auto

lemma sound_publish [sound_intro]: "sound c w (publish env s w)"
proof -
  obtain ok d where wr: "write_state s (dw_dir w) = (ok, d)" by fastforce
  define w1 where "w1 = w\<lparr>dw_dir := d\<rparr>"
  define w2 where "w2 = (happened (Took Run_Record) w1)\<lparr>dw_dir := fold apply_event (de_others env) d\<rparr>"
  show ?thesis
  proof (cases ok)
    case False
    then show ?thesis using wr by (auto simp: publish_def or_fail_def intro!: sound_same)
  next
    case True
    have "publish env s w = (Inr (), happened (Gave Run_Record) (w2\<lparr>dw_dir := remove_state (ds_pid s) (dw_dir w2)\<rparr>))"
      using wr True by (simp add: publish_def or_fail_def deferring_def w2_def w1_def Let_def)
    then show ?thesis
      using neutral_bracket [OF neutral_Nil, of Run_Record]
      by (auto simp: sound_def settles_def awake_def w2_def w1_def litter_def)
  qed
qed

lemma sound_stable [sound_intro]:
  assumes "\<And>w. sound c w (rest w)"
  shows "sound c w (with_stable_config rest w)"
proof -
  have "sound c w (Inl Demo_Stable_Not_Written, happened (Left_Behind Stable_Config) w)" for w
    by (auto simp: sound_def settles_def awake_def neutral_def)
  then show ?thesis
    unfolding with_stable_config_def using assms
    by (intro sound_next sound_calls) (auto intro!: sound_next sound_attempt sound_holding)
qed

lemma sound_demo_adhd [sound_intro]: "sound c w (demo_adhd env dir tenv ps l reg tell w)"
proof -
  have "sound c w (with_stable_config (with_adhd env args tenv (\<lambda>w1. publish env s (tell_all ms w1))) w)" for args s ms w
    by (intro sound_stable sound_adhd sound_tell [OF sound_publish])
  then show ?thesis
    by (cases tell) (simp_all add: demo_adhd_def Let_def sound_tell [where ms = "notify_existing (de_peers env) (demo_info env ps l)"])
qed

lemma sound_demo_links [sound_intro]: "sound c w (demo_links env dir tenv ps l reg w)"
  unfolding demo_links_def
  by (intro sound_link) (auto intro!: sound_fail sound_next sound_await_link sound_discovery sound_demo_adhd sound_ok split: sum.splits)

lemma sound_demo_prepared: "sound c w (demo_prepared env dir tenv o' ps w)"
  unfolding demo_prepared_def
  by (auto intro!: sound_fail sound_next sound_call sound_calls sound_holding sound_demo_links simp del: calls.simps split: sum.splits)

section \<open>What a run does to its log and its directory\<close>

text \<open>Every event satisfies \<open>P\<close>, and \<open>Q\<close> is kept of the state directory.\<close>

definition tame :: "(demo_event \<Rightarrow> bool) \<Rightarrow> (demo_dir \<Rightarrow> bool) \<Rightarrow> demo_world \<Rightarrow> 'r \<times> demo_world \<Rightarrow> bool" where
  "tame P Q w p \<longleftrightarrow> (Q (dw_dir w) \<longrightarrow> Q (dw_dir (snd p))) \<and> (\<exists>l. dw_log (snd p) = dw_log w @ l \<and> list_all P l)"

lemma tame_same: "dw_log w' = dw_log w \<Longrightarrow> (Q (dw_dir w) \<Longrightarrow> Q (dw_dir w')) \<Longrightarrow> tame P Q w (r, w')"
  by (auto simp: tame_def)

lemma tame_refl: "tame P Q w (r, w)"
  by (simp add: tame_same)

lemma tame_trans: "tame P Q w (r, w1) \<Longrightarrow> tame P Q w1 p \<Longrightarrow> tame P Q w p"
  by (force simp: tame_def)

lemma tame_next: "tame P Q w p \<Longrightarrow> (\<And>a w1. tame P Q w1 (k a w1)) \<Longrightarrow> tame P Q w (next_do p k)"
proof -
  assume p: "tame P Q w p" and k: "\<And>a w1. tame P Q w1 (k a w1)"
  obtain r w1 where pr: "p = (r, w1)" by fastforce
  show "tame P Q w (next_do p k)"
  proof (cases r)
    case (Inl e)
    then show ?thesis using p pr by (simp add: tame_def)
  next
    case (Inr a)
    then show ?thesis using tame_trans [OF p [unfolded pr] k [of w1 a]] pr by simp
  qed
qed

lemma tame_event: "P e \<Longrightarrow> tame P Q w (r, happened e w)"
  by (simp add: tame_def)

lemma tame_happened: "P e \<Longrightarrow> tame P Q (happened e w) p \<Longrightarrow> tame P Q w p"
  by (rule tame_trans [OF tame_event])

lemma tame_tell: "(\<And>mcp i. P (Told mcp i)) \<Longrightarrow> tame P Q (tell_all ms w) p \<Longrightarrow> tame P Q w p"
proof (induction ms arbitrary: w)
  case (Cons m ms)
  obtain mcp i where "m = (mcp, i)" by fastforce
  then have "tame P Q (happened (Told mcp i) w) p" using Cons by (simp add: tell_all_def)
  then show ?case using Cons.prems(1) by (rule tame_happened [rotated])
qed (simp add: tell_all_def)

lemma tame_holding:
  assumes "P (Took h)" "P (Gave h)" "\<And>w. tame P Q w (body w)"
  shows "tame P Q w (holding h body w)"
  using assms(1,2) assms(3) [of "happened (Took h) w"]
  by (cases "body (happened (Took h) w)") (auto simp: tame_def holding_def deferring_def Let_def)

lemma tame_attempt: "tame P Q w (attempt_call w)"
  by (auto simp: attempt_call_def Let_def intro!: tame_same split: list.splits step_end.splits)

lemma tame_call: "tame P Q w (call e w)"
  unfolding call_def by (intro tame_next tame_attempt tame_refl)

lemma tame_calls: "tame P Q w (calls es w)"
proof (induction es arbitrary: w)
  case (Cons e es)
  then show ?case unfolding calls.simps by (intro tame_next tame_call)
qed (simp add: tame_refl)

lemmas tame_intro = tame_refl tame_next tame_attempt tame_call tame_calls tame_event

lemma tame_await_link: "P (Came_Up name) \<Longrightarrow> tame P Q w p \<Longrightarrow> tame P Q w (await_link env name p)"
  unfolding await_link_def by (auto intro!: tame_intro)

lemma tame_await_adhd: "P (Came_Up ''adhd MCP'') \<Longrightarrow> tame P Q w (await_adhd env w)"
  by (auto simp: await_adhd_def intro!: tame_intro)

text \<open>The events that say what is taken, given back, up and told.\<close>

definition passes :: "(demo_event \<Rightarrow> bool) \<Rightarrow> bool" where
  "passes P \<longleftrightarrow> (\<forall>h. P (Took h) \<and> P (Gave h) \<and> P (Left_Behind h)) \<and> (\<forall>s. P (Came_Up s)) \<and> (\<forall>m i. P (Told m i))"

lemma tame_discovery:
  assumes "P (Took Own_Registry)" "P (Gave Own_Registry)" "P (Took Advert)" "P (Gave Advert)"
    "P (Took Membership)" "P (Gave Membership)" "\<And>a b w. tame P Q w (rest a b w)"
  shows "tame P Q w (with_discovery reg cluster rest w)"
proof -
  have "tame P Q w (case register_registry_mdns reg cluster of None \<Rightarrow> rest True True w
      | Some _ \<Rightarrow> next_do (attempt_call w) (\<lambda>shown w3. if shown then holding Advert (rest True True) w3 else rest True True w3))" for w
    using assms by (auto intro!: tame_next tame_attempt tame_holding split: option.splits)
  then show ?thesis
    unfolding with_discovery_def using assms
    by (intro tame_next tame_attempt) (auto intro!: tame_next tame_attempt tame_holding assms)
qed

lemma tame_adhd:
  assumes "P (Took (Child ''adhd''))" "P (Gave (Child ''adhd''))" "P (Came_Up ''adhd MCP'')" "\<And>w. tame P Q w (rest w)"
    "\<And>b ps ns. prepare_adhd (de_adhd env) (de_run env) args = Inr (b, ps, ns) \<Longrightarrow> P (Ran b ps tenv)"
  shows "tame P Q w (with_adhd env args tenv rest w)"
proof (cases "prepare_adhd (de_adhd env) (de_run env) args")
  case (Inr r)
  obtain b ps ns where r: "r = (b, ps, ns)" by (cases r)
  have "tame P Q w (next_do (await_adhd env (happened (Ran b ps tenv) w)) (\<lambda>_. rest))" for w
    by (rule tame_happened [OF assms(5) [OF Inr [unfolded r]] tame_next [OF tame_await_adhd [where P = P, OF assms(3)] assms(4)]])
  then show ?thesis
    using Inr r assms(1,2) unfolding with_adhd_def
    by (auto intro!: tame_next [OF tame_calls] tame_holding simp del: calls.simps)
qed (simp add: with_adhd_def tame_refl)

lemma tame_link:
  assumes "P (Took (Log_File name))" "P (Gave (Log_File name))" "P (Took (Link name))" "P (Gave (Link name))"
    "\<And>w. tame P Q w (rest w)"
  shows "tame P Q w (with_link name rest w)"
  unfolding with_link_def by (intro tame_next tame_calls tame_holding assms)

definition mine :: "int \<Rightarrow> demo_dir \<Rightarrow> bool" where
  "mine pid d \<longleftrightarrow> (case read_state d of None \<Rightarrow> False | Some s \<Rightarrow> ds_pid s = pid)"

lemma not_mine_removed: "\<not> mine pid (remove_state pid d)"
  by (auto simp: mine_def remove_state_def read_state_def split: option.splits if_splits)

lemma not_mine_write: "\<not> mine pid d \<Longrightarrow> write_state s d = (False, d') \<Longrightarrow> \<not> mine pid d'"
  by (auto simp: mine_def write_state_def read_state_def split: prod.splits if_splits)

lemma tame_publish:
  assumes "P (Took Run_Record)" "P (Gave Run_Record)"
  shows "tame P (\<lambda>d. \<not> mine (ds_pid s) d) w (publish env s w)"
proof -
  obtain ok d where wr: "write_state s (dw_dir w) = (ok, d)" by fastforce
  show ?thesis
    using wr assms not_mine_removed not_mine_write [of "ds_pid s" "dw_dir w" s d]
    by (cases ok) (auto simp: publish_def or_fail_def deferring_def Let_def tame_def)
qed

lemma tame_stable:
  assumes "P (Took Stable_Config)" "P (Gave Stable_Config)" "P (Left_Behind Stable_Config)" "\<And>w. tame P Q w (rest w)"
  shows "tame P Q w (with_stable_config rest w)"
  unfolding with_stable_config_def using assms
  by (intro tame_next tame_calls) (auto intro!: tame_next tame_attempt tame_holding tame_event)

section \<open>The demo\<close>

definition fresh_run :: "step_end list \<Rightarrow> demo_dir \<Rightarrow> demo_world" where
  "fresh_run script d = \<lparr>dw_log = [], dw_script = script, dw_caught = False, dw_dir = d\<rparr>"

lemmas passes_D = passes_def [THEN iffD1, rule_format]

lemma tame_demo_adhd:
  assumes "passes P"
    "\<And>b ps ns. prepare_adhd (de_adhd env) (de_run env)
        (demo_adhd_args (demo_config_path env) (demo_log_path env ''adhd'') l (http_at ''0.0.0.0'' (pt_alarm_a pts))) = Inr (b, ps, ns)
      \<Longrightarrow> P (Ran b ps tenv)"
  shows "tame P (\<lambda>d. \<not> mine (de_pid env) d) w (demo_adhd env dir tenv pts l reg tell w)"
proof -
  note p = assms(1) [unfolded passes_def]
  have pub: "tame P (\<lambda>d. \<not> mine (de_pid env) d) w (publish env (demo_record env dir pts reg i) w)" for i w
    using tame_publish [of P "demo_record env dir pts reg i" w env] p by (simp add: demo_record_def)
  have "tame P (\<lambda>d. \<not> mine (de_pid env) d) w (with_stable_config (with_adhd env
      (demo_adhd_args (demo_config_path env) (demo_log_path env ''adhd'') l (http_at ''0.0.0.0'' (pt_alarm_a pts))) tenv
      (\<lambda>w1. publish env (demo_record env dir pts reg i) (tell_all ms w1))) w)" for i ms w
    using p assms(2) by (intro tame_stable tame_adhd tame_tell [OF _ pub]) auto
  then show ?thesis
    using p by (cases tell) (simp_all add: demo_adhd_def Let_def
      tame_tell [where ms = "notify_existing (de_peers env) (demo_info env pts l)"])
qed

lemma tame_demo_links:
  assumes "passes P"
    "\<And>b ps ns. prepare_adhd (de_adhd env) (de_run env)
        (demo_adhd_args (demo_config_path env) (demo_log_path env ''adhd'') l (http_at ''0.0.0.0'' (pt_alarm_a pts))) = Inr (b, ps, ns)
      \<Longrightarrow> P (Ran b ps tenv)"
  shows "tame P (\<lambda>d. \<not> mine (de_pid env) d) w (demo_links env dir tenv pts l reg w)"
proof -
  have "tame P (\<lambda>d. \<not> mine (de_pid env) d) w
      (case check_link_ports (de_bound env ''alarm-a'') (pt_alarm_a pts) (de_bound env ''alarm-b'') (pt_alarm_b pts) of
         Inl e \<Rightarrow> (Inl (Demo_Other_Port e), w)
       | Inr _ \<Rightarrow> next_do (await_link env ''alarm-b'' (await_link env ''alarm-a'' (Inr (), w)))
           (\<lambda>_. with_discovery reg (demo_cluster_name (de_pid env)) (\<lambda>owner joined. demo_adhd env dir tenv pts l reg (\<not> owner \<and> joined))))" for w
    using assms(1) [unfolded passes_def]
    by (auto split: sum.splits intro!: tame_refl tame_next tame_await_link tame_discovery tame_demo_adhd [OF assms])
  then show ?thesis
    unfolding demo_links_def using assms(1) [unfolded passes_def] by (intro tame_link) auto
qed

lemma tame_demo_prepared:
  assumes "passes P"
    "\<And>l b ps ns. resolve_adhd_listener (de_outbound env) (op_adhd_bind o') (nat (pt_adhd pts)) = Inr l \<Longrightarrow>
      prepare_adhd (de_adhd env) (de_run env)
        (demo_adhd_args (demo_config_path env) (demo_log_path env ''adhd'') l (http_at ''0.0.0.0'' (pt_alarm_a pts))) = Inr (b, ps, ns)
      \<Longrightarrow> P (Ran b ps tenv)"
  shows "tame P (\<lambda>d. \<not> mine (de_pid env) d) w (demo_prepared env dir tenv o' pts w)"
proof (cases "resolve_adhd_listener (de_outbound env) (op_adhd_bind o') (nat (pt_adhd pts))")
  case (Inr l)
  have "tame P (\<lambda>d. \<not> mine (de_pid env) d) w (next_do (call Demo_No_Temp w) (\<lambda>_. holding Temp_Root (\<lambda>w1.
      next_do (calls [Demo_No_Dirs, Demo_No_Dirs] w1) (\<lambda>_. demo_links env dir tenv pts l reg))))" for reg
    using assms(1) [unfolded passes_def] assms(2) [OF Inr]
    by (intro tame_next tame_call tame_holding tame_calls tame_demo_links assms(1)) auto
  then show ?thesis by (auto simp: demo_prepared_def Inr tame_refl split: sum.splits)
qed (simp add: demo_prepared_def tame_refl)



lemma not_mine_ports: "mine pid (snd (save_ports ps d)) = mine pid d"
  by (simp add: mine_def save_ports_def read_state_def split_beta Let_def)

lemma not_mine_idle: "running_state alive d = (None, d1) \<Longrightarrow> \<not> mine pid d1"
  by (auto simp: running_state_def mine_def remove_state_def read_state_def split: option.splits if_splits)

lemma running_state_same: "running_state alive d = (Some s, d1) \<Longrightarrow> d1 = d"
  by (auto simp: running_state_def split: option.splits if_splits)

text \<open>A run ends before it prepares anything, or it prepares with no record of its own in the directory.\<close>

lemma run_demo_split:
  "(\<exists>e d1. run_demo env o' (fresh_run script d) = (Inl e, fresh_run script d1) \<and> e \<noteq> Killed \<and> (mine (de_pid env) d1 \<longrightarrow> mine (de_pid env) d))
   \<or> (\<exists>dir tenv pts d1. \<not> mine (de_pid env) d1
        \<and> run_demo env o' (fresh_run script d) =
            deferring (\<lambda>w. w\<lparr>dw_caught := False\<rparr>) (demo_prepared env dir tenv o' pts) ((fresh_run script d1)\<lparr>dw_caught := True\<rparr>))"
proof (cases "resolve_state_dir (de_getenv env) (de_home env) (de_cwd env) (de_mkdir env) (op_state_dir o')")
  case (Inl e)
  then show ?thesis by (auto simp: run_demo_def deferring_def fresh_run_def)
next
  case dir: (Inr dir)
  show ?thesis
  proof (cases "new_cluster_trust (de_random env) (demo_cluster_name (de_pid env)) :: (trust_err, string cluster_trust) res")
    case (Inl e)
    then show ?thesis using dir by (auto simp: run_demo_def deferring_def fresh_run_def)
  next
    case tr: (Inr trust)
    obtain r d1 where rs: "running_state (de_alive env) d = (r, d1)" by fastforce
    show ?thesis
    proof (cases r)
      case (Some s)
      then show ?thesis
        using dir tr rs running_state_same [of "de_alive env" d s d1] by (auto simp: run_demo_def deferring_def fresh_run_def)
    next
      case None
      then have m: "\<not> mine (de_pid env) d1" using rs not_mine_idle by simp
      show ?thesis
      proof (cases "resolve_ports (de_free env) (de_fresh env) (de_now env) o' (load_ports d1)")
        case (Inl e)
        then show ?thesis using dir tr rs None m by (auto simp: run_demo_def deferring_def fresh_run_def)
      next
        case (Inr pts)
        have "run_demo env o' (fresh_run script d) = deferring (\<lambda>w. w\<lparr>dw_caught := False\<rparr>)
            (demo_prepared env dir (secret_env trust) o' pts) ((fresh_run script (snd (save_ports pts d1)))\<lparr>dw_caught := True\<rparr>)"
          using dir tr rs None Inr by (simp add: run_demo_def deferring_def fresh_run_def)
        then show ?thesis using m not_mine_ports by blast
      qed
    qed
  qed
qed

lemma run_demo_tame:
  assumes "passes P" "\<And>l (pts :: ports). resolve_adhd_listener (de_outbound env) (op_adhd_bind o') (nat (pt_adhd pts)) = Inr l \<Longrightarrow>
      (\<And>b ps ns tenv. prepare_adhd (de_adhd env) (de_run env)
        (demo_adhd_args (demo_config_path env) (demo_log_path env ''adhd'') l (http_at ''0.0.0.0'' (pt_alarm_a pts))) = Inr (b, ps, ns)
      \<Longrightarrow> P (Ran b ps tenv))"
  shows "list_all P (dw_log (snd (run_demo env o' (fresh_run script d))))
     \<and> \<not> (mine (de_pid env) (dw_dir (snd (run_demo env o' (fresh_run script d)))) \<and> \<not> mine (de_pid env) d)"
  using run_demo_split [of env o' script d]
proof (elim disjE exE conjE)
  fix e d1 assume "run_demo env o' (fresh_run script d) = (Inl e, fresh_run script d1)"
    "mine (de_pid env) d1 \<longrightarrow> mine (de_pid env) d"
  then show ?thesis by (simp add: fresh_run_def)
next
  fix dir tenv pts d1
  define w where "w = (fresh_run script d1)\<lparr>dw_caught := True\<rparr>"
  assume m: "\<not> mine (de_pid env) d1"
    and r: "run_demo env o' (fresh_run script d) =
            deferring (\<lambda>w. w\<lparr>dw_caught := False\<rparr>) (demo_prepared env dir tenv o' pts) ((fresh_run script d1)\<lparr>dw_caught := True\<rparr>)"
  have "tame P (\<lambda>d. \<not> mine (de_pid env) d) w (demo_prepared env dir tenv o' pts w)"
    by (rule tame_demo_prepared [OF assms(1)]) (rule assms(2), assumption, assumption)
  then show ?thesis
    unfolding r using m by (cases "demo_prepared env dir tenv o' pts w") (auto simp: w_def tame_def deferring_def fresh_run_def Let_def)
qed


lemma temp_path_no_flag: "adhd_force_flag \<notin> {demo_config_path env, demo_log_path env ''adhd'', http_at ''0.0.0.0'' p}"
proof -
  have "CHR ''/'' \<in> set x" if "x \<in> {demo_config_path env, demo_log_path env ''adhd'', http_at ''0.0.0.0'' p}" for x
    using that by (auto simp: demo_config_path_def demo_log_path_def http_at_def)
  moreover have "CHR ''/'' \<notin> set adhd_force_flag" by (simp add: adhd_force_flag_def)
  ultimately show ?thesis by blast
qed

definition guarded :: "string \<Rightarrow> demo_event \<Rightarrow> bool" where
  "guarded bind e = (case e of Ran _ args _ \<Rightarrow> \<not> (loopback_bind bind \<and> adhd_force_flag \<in> set args) | _ \<Rightarrow> True)"

text \<open>
  A demo whose dashboard was bound to loopback never runs a dashboard with the override of its
  guard.
\<close>

theorem demo_never_forces_loopback:
  "list_all (guarded (op_adhd_bind o')) (dw_log (snd (run_demo env o' (fresh_run script d))))"
proof (rule run_demo_tame [THEN conjunct1])
  show "passes (guarded (op_adhd_bind o'))" by (simp add: passes_def guarded_def)
next
  fix l pts b ps ns tenv
  let ?args = "demo_adhd_args (demo_config_path env) (demo_log_path env ''adhd'') l (http_at ''0.0.0.0'' (pt_alarm_a pts))"
  assume l: "resolve_adhd_listener (de_outbound env) (op_adhd_bind o') (nat (pt_adhd pts)) = Inr l"
    and p: "prepare_adhd (de_adhd env) (de_run env) ?args = Inr (b, ps, ns)"
  then obtain run where run: "plan_adhd run ?args = Inr (ps, ns)"
    by (auto simp: prepare_adhd_def and_then_Inr split: option.splits)
  show "guarded (op_adhd_bind o') (Ran b ps tenv)"
    using adhd_exposure_aux [OF l run temp_path_no_flag] by (simp add: guarded_def)
qed

section \<open>The order of a start\<close>

text \<open>The record of the run is not written; a run that goes on has \<open>xs\<close> behind it.\<close>

definition brings :: "demo_event list \<Rightarrow> demo_world \<Rightarrow> (demo_err, 'a) res \<times> demo_world \<Rightarrow> bool" where
  "brings xs w p \<longleftrightarrow>
     (\<exists>l. dw_log (snd p) = dw_log w @ l \<and> Took Run_Record \<notin> set l \<and> (is_ok (fst p) \<longrightarrow> subseq xs l))"

text \<open>If it is written, the events \<open>xs\<close> come in that order.\<close>

definition leads :: "demo_event list \<Rightarrow> demo_world \<Rightarrow> (demo_err, 'a) res \<times> demo_world \<Rightarrow> bool" where
  "leads xs w p \<longleftrightarrow> (\<exists>l. dw_log (snd p) = dw_log w @ l \<and> (Took Run_Record \<in> set l \<longrightarrow> subseq xs l))"

abbreviation unrecorded :: "demo_world \<Rightarrow> 'r \<times> demo_world \<Rightarrow> bool" where
  "unrecorded \<equiv> tame (\<lambda>e. e \<noteq> Took Run_Record) (\<lambda>_. True)"

lemma brings_unrecorded: "unrecorded w p \<Longrightarrow> brings [] w p"
  by (auto simp: tame_def brings_def list_all_iff)

lemma leads_fail: "leads xs w (r, w)"
  by (simp add: leads_def)

lemma leads_next:
  assumes "brings ys w p" "\<And>a w1. leads xs w1 (k a w1)"
  shows "leads (ys @ xs) w (next_do p k)"
proof (cases p)
  case (Pair r w1)
  show ?thesis
  proof (cases r)
    case (Inl e)
    then show ?thesis using assms(1) Pair by (auto simp: brings_def leads_def)
  next
    case (Inr a)
    then obtain l k' where "dw_log w1 = dw_log w @ l" "Took Run_Record \<notin> set l" "subseq ys l"
        "dw_log (snd (k a w1)) = dw_log w1 @ k'" "Took Run_Record \<in> set k' \<longrightarrow> subseq xs k'"
      using assms(1) assms(2) [of w1 a] Pair by (auto simp: brings_def leads_def)
    then show ?thesis using Inr Pair by (auto simp: leads_def intro: list_emb_append_mono)
  qed
qed

lemmas leads_skip = leads_next [where ys = "[]", simplified append_Nil, OF brings_unrecorded]

lemma brings_link: "brings xs w p \<Longrightarrow> brings (xs @ [Came_Up name]) w (await_link env name p)"
  by (cases p; cases "fst p") (auto simp: brings_def await_link_def intro: list_emb_append_mono)

lemma brings_adhd: "brings [Came_Up ''adhd MCP''] w (await_adhd env w)"
  by (auto simp: brings_def await_adhd_def)

lemma leads_happened: "e \<noteq> Took Run_Record \<Longrightarrow> leads xs (happened e w) p \<Longrightarrow> leads xs w p"
  by (auto simp: leads_def)

lemma leads_tell: "leads xs (tell_all ms w) p \<Longrightarrow> leads xs w p"
proof (induction ms arbitrary: w)
  case (Cons m ms)
  obtain mcp i where "m = (mcp, i)" by fastforce
  then have "leads xs (happened (Told mcp i) w) p" using Cons by (simp add: tell_all_def)
  then show ?case by (rule leads_happened [rotated]) simp
qed (simp add: tell_all_def)

lemma leads_holding:
  assumes "h \<noteq> Run_Record" "\<And>w. leads xs w (body w)"
  shows "leads (Took h # xs) w (holding h body w)"
proof -
  obtain r w1 where b: "body (happened (Took h) w) = (r, w1)" by fastforce
  then obtain l where "dw_log w1 = dw_log w @ Took h # l" "Took Run_Record \<in> set l \<longrightarrow> subseq xs l"
    using assms(2) [of "happened (Took h) w"] by (auto simp: leads_def)
  then show ?thesis
    using b assms(1) by (auto simp: holding_def deferring_def Let_def leads_def intro: list_emb_append2)
qed

lemma leads_holding_skip: "h \<noteq> Run_Record \<Longrightarrow> (\<And>w. leads xs w (body w)) \<Longrightarrow> leads xs w (holding h body w)"
  using leads_holding [of h xs body w] unfolding leads_def by (blast intro: subseq_Cons')

lemma leads_publish: "leads [Took Run_Record] w (publish env s w)"
  by (auto simp: leads_def publish_def Let_def or_fail_def deferring_def split_beta next_do_def)

lemma leads_adhd:
  assumes "\<And>w. leads xs w (rest w)"
  shows "leads ([Took (Child ''adhd''), Came_Up ''adhd MCP''] @ xs) w (with_adhd env args tenv rest w)"
proof -
  have "leads ([Came_Up ''adhd MCP''] @ xs) w (next_do (await_adhd env (happened (Ran b ps tenv) w)) (\<lambda>_. rest))" for b ps w
    by (rule leads_happened [OF _ leads_next [OF brings_adhd assms]]) simp
  then show ?thesis
    unfolding with_adhd_def
    by (auto split: sum.splits intro!: leads_fail leads_skip [OF tame_calls] leads_holding simp del: calls.simps)
qed

lemma leads_stable: "(\<And>w. leads xs w (rest w)) \<Longrightarrow> leads xs w (with_stable_config rest w)"
  unfolding with_stable_config_def
  by (auto intro!: leads_skip tame_calls tame_attempt leads_holding_skip leads_happened [OF _ leads_fail] simp del: calls.simps)

lemma leads_discovery: "(\<And>a b w. leads xs w (rest a b w)) \<Longrightarrow> leads xs w (with_discovery reg cluster rest w)"
  unfolding with_discovery_def
  by (auto intro!: leads_skip tame_attempt leads_holding_skip split: option.splits)

lemma leads_link: "(\<And>w. leads xs w (rest w)) \<Longrightarrow> leads xs w (with_link name rest w)"
  unfolding with_link_def by (intro leads_skip tame_calls leads_holding_skip) auto

definition start_order :: "demo_event list" where
  "start_order = [Came_Up ''alarm-a'', Came_Up ''alarm-b'', Took (Child ''adhd''), Came_Up ''adhd MCP'', Took Run_Record]"

lemma leads_demo_adhd:
  "leads [Took (Child ''adhd''), Came_Up ''adhd MCP'', Took Run_Record] w (demo_adhd env dir tenv pts l reg tell w)"
proof -
  have "leads [Took (Child ''adhd''), Came_Up ''adhd MCP'', Took Run_Record] w
      (with_stable_config (with_adhd env args tenv (\<lambda>w1. publish env s (tell_all ms w1))) w)" for args s ms w
    by (intro leads_stable leads_adhd [where xs = "[Took Run_Record]", simplified append_Cons append_Nil] leads_tell [OF leads_publish])
  then show ?thesis
    by (cases tell) (simp_all add: demo_adhd_def Let_def leads_tell [where ms = "notify_existing (de_peers env) (demo_info env pts l)"])
qed

lemma leads_demo_links: "leads start_order w (demo_links env dir tenv pts l reg w)"
proof -
  have b: "brings ([] @ [Came_Up ''alarm-a''] @ [Came_Up ''alarm-b'']) w
      (await_link env ''alarm-b'' (await_link env ''alarm-a'' (Inr (), w)))" for w
    unfolding append_assoc [symmetric] by (intro brings_link brings_unrecorded tame_refl)
  have "leads start_order w (next_do (await_link env ''alarm-b'' (await_link env ''alarm-a'' (Inr (), w)))
      (\<lambda>_. with_discovery reg c (\<lambda>owner joined. demo_adhd env dir tenv pts l reg (\<not> owner \<and> joined))))" for w c
    using leads_next [OF b leads_discovery [OF leads_demo_adhd]] by (simp add: start_order_def)
  then show ?thesis
    unfolding demo_links_def by (intro leads_link) (auto intro: leads_fail split: sum.splits)
qed

lemma leads_demo_prepared: "leads start_order w (demo_prepared env dir tenv o' pts w)"
  unfolding demo_prepared_def
  by (auto intro!: leads_fail leads_skip tame_call tame_calls leads_holding_skip leads_demo_links simp del: calls.simps split: sum.splits)

text \<open>
  C18: the record that makes a demo visible is written only after both alarms answered, the dashboard
  was started and its port opened, in that order.
\<close>

theorem demo_published_when_up:
  "\<not> (Took Run_Record \<in> set (dw_log (snd (run_demo env o' (fresh_run script d))))
       \<and> \<not> subseq start_order (dw_log (snd (run_demo env o' (fresh_run script d)))))"
  using run_demo_split [of env o' script d]
proof (elim disjE exE conjE)
  fix e d1 assume "run_demo env o' (fresh_run script d) = (Inl e, fresh_run script d1)"
  then show ?thesis by (simp add: fresh_run_def)
next
  fix dir tenv pts d1
  define w where "w = (fresh_run script d1)\<lparr>dw_caught := True\<rparr>"
  assume r: "run_demo env o' (fresh_run script d) =
            deferring (\<lambda>w. w\<lparr>dw_caught := False\<rparr>) (demo_prepared env dir tenv o' pts) ((fresh_run script d1)\<lparr>dw_caught := True\<rparr>)"
  have "leads start_order w (demo_prepared env dir tenv o' pts w)" by (rule leads_demo_prepared)
  then show ?thesis
    unfolding r by (cases "demo_prepared env dir tenv o' pts w") (auto simp: w_def leads_def deferring_def fresh_run_def Let_def)
qed

section \<open>The base cluster\<close>

lemma sound_ensure: "sound c w (ensure_tools env ns w)"
  by (induction ns arbitrary: w) (auto intro!: sound_intro)

lemma sound_config: "sound c w (auto_config env name a w)"
  unfolding auto_config_def
  by (auto intro!: sound_next sound_call sound_fail sound_ok split: sum.splits)

lemma sound_alarm:
  assumes "\<And>w. sound c w (rest w)"
  shows "sound c w (with_alarm name a rest w)"
  unfolding with_alarm_def
  by (intro sound_next sound_calls sound_holding sound_happened [OF _ assms]) auto

lemma sound_auto_up: "sound False w (auto_up env info owner w)"
proof -
  have "sound False w (deferring (\<lambda>w. w\<lparr>dw_caught := False\<rparr>) (\<lambda>w. (Inr (), w)) (w\<lparr>dw_caught := True\<rparr>))" for w
    by (simp add: deferring_def sound_def settles_def litter_def neutral_Nil)
  then show ?thesis
    by (cases owner) (auto simp: auto_up_def Let_def intro: sound_tell)
qed

lemma sound_auto_alarms: "sound False w (auto_alarms env reg trust ca cb adhd w)"
  unfolding auto_alarms_def
  by (intro sound_alarm sound_next sound_await_link sound_discovery sound_adhd sound_auto_up sound_ok)

lemma sound_auto_skills: "sound False w (auto_skills env reg a b adhd w)"
proof -
  have "sound False w (case de_alarm env of
           None \<Rightarrow> (Inl Demo_No_Alarm, w)
         | Some binary \<Rightarrow>
             (case new_cluster_trust (de_random env) (base_cluster_name (de_pid env)) of
                Inl e \<Rightarrow> (Inl (Demo_Trust e), w)
              | Inr trust \<Rightarrow>
                  next_do (auto_config env ''alarm-a'' (auto_alarm env binary trust ''alarm-a'' ''state-a'' a) w) (\<lambda>ca w2.
                  next_do (auto_config env ''alarm-b'' (auto_alarm env binary trust ''alarm-b'' ''state-b'' b) w2) (\<lambda>cb.
                    auto_alarms env reg trust ca cb adhd))))" for w
    by (auto intro!: sound_fail sound_next sound_config sound_auto_alarms split: option.splits sum.splits)
  then show ?thesis
    unfolding auto_skills_def by (intro sound_next sound_calls sound_holding) auto
qed

lemma sound_run_auto: "sound False w (run_auto env bind w)"
proof -
  have "sound False w (case free_ports [''alarm-a'', ''alarm-b'', ''adhd MCP''] (de_fresh env) of
                 Inr [a, b, adhd] \<Rightarrow>
                   next_do (call Demo_No_Temp w) (\<lambda>_.
                     holding Temp_Root (\<lambda>w2.
                       next_do (calls [Demo_No_Dirs, Demo_No_Dirs] w2) (\<lambda>_. auto_skills env reg a b adhd)))
               | Inr _ \<Rightarrow> (Inl (Demo_No_Port []), w)
               | Inl e \<Rightarrow> (Inl e, w))" for reg w
  proof (cases "free_ports [''alarm-a'', ''alarm-b'', ''adhd MCP''] (de_fresh env)")
    case (Inl e)
    moreover have "e \<noteq> Killed" if "free_ports ns fr = Inl e" for ns fr
      using that by (induction ns fr rule: free_ports.induct) (auto simp: and_then_def split: sum.splits)
    ultimately show ?thesis by (auto intro: sound_fail)
  next
    case (Inr ps)
    have "sound False w (next_do (call Demo_No_Temp w) (\<lambda>_. holding Temp_Root (\<lambda>w2.
        next_do (calls [Demo_No_Dirs, Demo_No_Dirs] w2) (\<lambda>_. auto_skills env reg a b adhd))))" for a b adhd
      by (intro sound_next sound_call sound_holding sound_calls sound_auto_skills) auto
    then show ?thesis using Inr by (auto intro: sound_fail split: list.splits)
  qed
  then show ?thesis
    unfolding run_auto_def
    by (auto intro!: sound_fail sound_ok sound_next [OF sound_ensure] simp del: ensure_tools.simps split: sum.splits)
qed

text \<open>
  A base cluster gives back everything it took, in the opposite order, unless a signal kills it.
\<close>

theorem auto_leaves_nothing:
  "case run_auto env bind (fresh_run script d) of (r, w') \<Rightarrow>
     r = Inl Killed \<or> held_after (dw_log w') [] = Some []"
  using sound_run_auto [of "fresh_run script d" env bind]
  by (cases "run_auto env bind (fresh_run script d)") (auto simp: sound_def settles_def neutral_def fresh_run_def)

text \<open>A signal while a base cluster looks for its registry kills it with both alarms running: it asks
  for its signals only once it is up.\<close>

lemma killed_while_starting:
  assumes "wait_ready (de_ready env ''alarm-a'') = Served" "wait_ready (de_ready env ''alarm-b'') = Served"
    "dw_script w = replicate 6 Works @ [Signalled]" "\<not> dw_caught w" "dw_log w = []"
  shows "\<exists>w'. auto_alarms env reg trust ca cb adhd w = (Inl Killed, w')
    \<and> held_after (dw_log w') [] = Some [Child ''alarm-b'', Child ''alarm-a'']"
proof -
  have s: "dw_script w = [Works, Works, Works, Works, Works, Works, Signalled]"
    using assms(3) by (simp add: numeral_eq_Suc)
  show ?thesis
    using assms(1,2,4,5) s
    by (simp add: auto_alarms_def with_alarm_def numeral_eq_Suc call_def attempt_call_def or_fail_def holding_def deferring_def
        await_link_def with_discovery_def happened_def)
qed

text \<open>A demo tells the clusters it joins, and its own dashboard about them, before that dashboard is started.\<close>

lemma tell_log: "dw_log (tell_all ms w) = dw_log w @ map (\<lambda>(m, i). Told m i) ms"
  by (induction ms arbitrary: w) (auto simp: tell_all_def)

lemma peers_told_before_start:
  "\<exists>k. dw_log (snd (demo_adhd env dir tenv pts l reg True w))
     = dw_log w @ map (\<lambda>(m, i). Told m i) (notify_existing (de_peers env) (demo_info env pts l)) @ k"
proof -
  define w1 where "w1 = tell_all (notify_existing (de_peers env) (demo_info env pts l)) w"
  have "tame (\<lambda>_. True) (\<lambda>d. \<not> mine (de_pid env) d) w1 (demo_adhd env dir tenv pts l reg False w1)"
    by (rule tame_demo_adhd) (simp_all add: passes_def)
  moreover have "demo_adhd env dir tenv pts l reg True w = demo_adhd env dir tenv pts l reg False w1"
    by (simp add: demo_adhd_def w1_def)
  ultimately show ?thesis by (auto simp: tame_def w1_def tell_log)
qed

lemma all_work:
  assumes "dw_script w = []"
  shows "attempt_call w = (Inr True, w)" "call e w = (Inr (), w)" "calls es w = (Inr (), w)"
proof -
  show a: "attempt_call w = (Inr True, w)" using assms by (simp add: attempt_call_def)
  show c: "call e w = (Inr (), w)" for e by (simp add: call_def a or_fail_def)
  show "calls es w = (Inr (), w)" by (induction es) (simp_all add: c)
qed

lemma happened_script [simp]: "dw_script (happened e w) = dw_script w"
  by (simp add: happened_def)

lemma tell_same [simp]: "dw_script (tell_all ms w) = dw_script w" "dw_dir (tell_all ms w) = dw_dir w"
  by (induction ms arbitrary: w) (auto simp: tell_all_def)

text \<open>A body that ends well and writes the record, when nothing fails.\<close>

definition comes_up :: "unit demo_body \<Rightarrow> bool" where
  "comes_up body \<longleftrightarrow> (\<forall>w. dw_script w = [] \<and> dd_faults (dw_dir w) = [] \<longrightarrow>
     fst (body w) = Inr () \<and> Took Run_Record \<in> set (dw_log (snd (body w))))"

lemma comes_up_holding: "comes_up body \<Longrightarrow> comes_up (holding h body)"
  unfolding comes_up_def
  by (auto simp: holding_def deferring_def Let_def split_beta)

lemma comes_up_publish: "comes_up (publish env s)"
  by (auto simp: comes_up_def publish_def write_state_def or_fail_def deferring_def Let_def)

lemma comes_up_stable: "comes_up rest \<Longrightarrow> comes_up (with_stable_config rest)"
  using comes_up_holding [of rest Stable_Config] by (simp add: comes_up_def with_stable_config_def all_work)

lemma comes_up_adhd:
  assumes "prepare_adhd (de_adhd env) (de_run env) args = Inr (b, ps, ns)"
    "wait_service_open (de_adhd_rounds env) = Some Service_Open" "comes_up rest"
  shows "comes_up (with_adhd env args tenv rest)"
proof -
  have "comes_up (\<lambda>w2. next_do (await_adhd env (happened (Ran b ps tenv) w2)) (\<lambda>_. rest))"
    using assms(2,3) by (simp add: comes_up_def await_adhd_def)
  then show ?thesis
    using comes_up_holding assms(1) by (fastforce simp: comes_up_def with_adhd_def all_work)
qed

lemma comes_up_calls: "comes_up rest \<Longrightarrow> comes_up (\<lambda>w. next_do (calls es w) (\<lambda>_. rest))"
  by (simp add: comes_up_def all_work del: calls.simps)

lemma comes_up_link: "comes_up rest \<Longrightarrow> comes_up (with_link name rest)"
  unfolding with_link_def by (intro comes_up_calls comes_up_holding)

lemma comes_up_discovery:
  assumes "\<And>a b. comes_up (rest a b)"
  shows "comes_up (with_discovery reg cluster rest)"
proof -
  have "comes_up (\<lambda>w2. case register_registry_mdns reg cluster of None \<Rightarrow> rest True True w2
      | Some _ \<Rightarrow> next_do (attempt_call w2) (\<lambda>shown w3. if shown then holding Advert (rest True True) w3 else rest True True w3))"
    using assms comes_up_holding [of "rest True True" Advert] by (simp add: comes_up_def all_work split: option.splits)
  then show ?thesis
    using comes_up_holding by (fastforce simp: comes_up_def with_discovery_def all_work)
qed

text \<open>
  C30: a demo whose ports, tools and listeners are there, whose alarms and dashboard answer and whose
  calls all succeed comes up: it writes its record, and ends without an error.
\<close>

theorem demo_comes_up:
  assumes "resolve_state_dir (de_getenv env) (de_home env) (de_cwd env) (de_mkdir env) (op_state_dir o') = Inr dir"
    and "de_random env = Some secret" and "running_state (de_alive env) d = (None, d1)"
    and "resolve_ports (de_free env) (de_fresh env) (de_now env) o' (load_ports d1) = Inr pts"
    and "resolve_adhd_listener (de_outbound env) (op_adhd_bind o') (nat (pt_adhd pts)) = Inr l"
    and "resolve_registry_listener (de_outbound env) (op_registry_bind o') = Inr reg"
    and "check_link_ports (de_bound env ''alarm-a'') (pt_alarm_a pts) (de_bound env ''alarm-b'') (pt_alarm_b pts) = Inr ()"
    and "wait_ready (de_ready env ''alarm-a'') = Served" "wait_ready (de_ready env ''alarm-b'') = Served"
    and "prepare_adhd (de_adhd env) (de_run env)
      (demo_adhd_args (demo_config_path env) (demo_log_path env ''adhd'') l (http_at ''0.0.0.0'' (pt_alarm_a pts))) = Inr (b, ps, ns)"
    and "wait_service_open (de_adhd_rounds env) = Some Service_Open" and "dd_faults d1 = []"
  shows "fst (run_demo env o' (fresh_run [] d)) = Inr ()
    \<and> Took Run_Record \<in> set (dw_log (snd (run_demo env o' (fresh_run [] d))))"
proof -
  have a: "comes_up (demo_adhd env dir tenv pts l reg tell)" for tenv tell
  proof -
    have "comes_up (with_stable_config (with_adhd env
        (demo_adhd_args (demo_config_path env) (demo_log_path env ''adhd'') l (http_at ''0.0.0.0'' (pt_alarm_a pts))) tenv
        (\<lambda>w1. publish env s (tell_all ms w1))))" for s ms
      using comes_up_publish [of env s]
      by (intro comes_up_stable comes_up_adhd [OF assms(10,11)]) (simp add: comes_up_def)
    then show ?thesis by (cases tell) (simp_all add: comes_up_def demo_adhd_def Let_def)
  qed
  have "comes_up (\<lambda>w. next_do (await_link env ''alarm-b'' (await_link env ''alarm-a'' (Inr (), w))) (\<lambda>_.
      with_discovery reg (demo_cluster_name (de_pid env)) (\<lambda>owner joined. demo_adhd env dir tenv pts l reg (\<not> owner \<and> joined))))" for tenv
    using comes_up_discovery [where rest = "\<lambda>owner joined. demo_adhd env dir tenv pts l reg (\<not> owner \<and> joined)"] a assms(8,9)
    by (simp add: comes_up_def await_link_def)
  then have "comes_up (demo_links env dir tenv pts l reg)" for tenv
    unfolding demo_links_def using assms(7) by (auto intro!: comes_up_link)
  then have "comes_up (demo_prepared env dir tenv o' pts)" for tenv
    using comes_up_holding [of "demo_links env dir tenv pts l reg" Temp_Root] assms(5,6)
    by (simp add: comes_up_def demo_prepared_def all_work holding_def deferring_def)
  then show ?thesis
    using assms(1-4,12)
    by (simp add: run_demo_def comes_up_def deferring_def fresh_run_def new_cluster_trust_def save_ports_def Let_def split_beta)
qed

definition sample_env :: demo_env where
  "sample_env = \<lparr>de_pid = 7, de_now = 0, de_getenv = (\<lambda>_. []), de_home = Some ''/h'', de_cwd = Some ''/'', de_mkdir = (\<lambda>_. True),
     de_alive = (\<lambda>_. False), de_free = (\<lambda>_. True), de_fresh = [Some 1, Some 2, Some 3], de_random = Some ''ab'',
     de_outbound = ''h'', de_temp = ''/t'', de_bound = (\<lambda>n. if n = ''alarm-a'' then ''h:1'' else ''h:2''),
     de_ready = (\<lambda>_. [(False, False, Some 200)]), de_adhd = Some ''/b/adhd'', de_alarm = Some ''/b/alarm'',
     de_run = (\<lambda>_ _. ([], True)), de_adhd_rounds = [(Pick_Nothing, False, True)], de_seeds = None,
     de_registry = None, de_peers = None, de_others = [], de_present = (\<lambda>_. True), de_managed = (\<lambda>_. True),
     de_skills = [], de_accepts = (\<lambda>_. True)\<rparr>"

definition sample_ports :: ports where
  "sample_ports = \<lparr>pt_alarm_a = 1, pt_alarm_b = 2, pt_adhd = 3, pt_saved_at = 0\<rparr>"

lemma sample_resolved: "resolve_ports (\<lambda>_. True) [Some 1, Some 2, Some 3] 0 no_options no_ports = Inr sample_ports"
  by (simp add: resolve_ports_def take_port_def no_options_def no_ports_def sample_ports_def numeral_eq_Suc)

lemma sample_bound: "check_link_ports ''h:1'' 1 ''h:2'' 2 = Inr ()"
proof -
  have "''h:1'' = join_host_port ''h'' 1" "''h:2'' = join_host_port ''h'' 2" by (simp_all add: join_host_port_def dec_eval)
  then show ?thesis by (simp add: check_link_ports_def port_of_joined plain_host_def)
qed

theorem demo_comes_up_witness:
  "fst (run_demo sample_env no_options (fresh_run [] empty_demo_dir)) = Inr ()
    \<and> Took Run_Record \<in> set (dw_log (snd (run_demo sample_env no_options (fresh_run [] empty_demo_dir))))"
proof -
  obtain dir where 1: "resolve_state_dir (de_getenv sample_env) (de_home sample_env) (de_cwd sample_env) (de_mkdir sample_env)
      (op_state_dir no_options) = Inr dir"
    by (cases "is_abs (join_path [''/h'', ''.lezz''])") (auto simp: sample_env_def resolve_state_dir_def no_options_def abs_path_def)
  have 2: "running_state (de_alive sample_env) empty_demo_dir = (None, empty_demo_dir)"
    by (simp add: running_state_def read_state_def empty_demo_dir_def)
  have 3: "resolve_ports (de_free sample_env) (de_fresh sample_env) (de_now sample_env) no_options (load_ports empty_demo_dir) = Inr sample_ports"
    using sample_resolved by (simp add: sample_env_def load_ports_def empty_demo_dir_def)
  obtain l where 4: "resolve_adhd_listener (de_outbound sample_env) (op_adhd_bind no_options) (nat (pt_adhd sample_ports)) = Inr l"
    by (simp add: resolve_adhd_listener_def validate_adhd_bind_def no_options_def parse_ip_def)
  obtain reg where 5: "resolve_registry_listener (de_outbound sample_env) (op_registry_bind no_options) = Inr reg"
    by (simp add: resolve_registry_listener_def no_options_def registry_host_default)
  obtain b ps ns where 6: "prepare_adhd (de_adhd sample_env) (de_run sample_env)
      (demo_adhd_args (demo_config_path sample_env) (demo_log_path sample_env ''adhd'') l (http_at ''0.0.0.0'' (pt_alarm_a sample_ports))) = Inr (b, ps, ns)"
    by (simp add: prepare_adhd_def sample_env_def plan_adhd_def probe_adhd_def strip_flag_def)
  show ?thesis
    by (rule demo_comes_up [OF 1 _ 2 3 4 5 _ _ _ 6])
      (simp_all add: sample_env_def sample_ports_def sample_bound empty_demo_dir_def)
qed

end
