(* ===== verification/SeaInstall.thy ===== *)
theory SeaInstall
  imports Paths
begin

text \<open>
  The installer of the dashboard (\<open>internal/sea/sea.go\<close>, \<open>fetch.go\<close>, \<open>verify.go\<close>, \<open>install.go\<close>):
  the manifest and the archive are fetched from allowed hosts, the archive must have the digest of the
  manifest, the unpacked bundle must carry the expected signature, and only then it is swapped into
  place. A bundle is of an abstract type; what the tools of macOS and the network say are parameters.
\<close>

section \<open>Constants and options\<close>

definition sea_app_name :: string where "sea_app_name = ''lezz.sea.app''"
definition sea_bundle_id :: string where "sea_bundle_id = ''co.jamesgibson.LezzSea''"
definition sea_team_id :: string where "sea_team_id = ''288ZTJGXX9''"
definition sea_authority :: string where "sea_authority = ''Developer ID Application: James Gibson (288ZTJGXX9)''"
definition sea_base_url :: string where "sea_base_url = ''https://github.com/james-gibson/lezz.sea/releases/download''"
definition max_manifest :: int where "max_manifest = 2 ^ 20"
definition max_archive :: int where "max_archive = 256 * 2 ^ 20"

record install_options =
  in_channel :: string
  in_force :: bool
  in_allow_unnotarized :: bool

definition channel_char :: "char \<Rightarrow> bool" where
  "channel_char c \<longleftrightarrow> is_digit c \<or> (is_letter c \<and> lower_char c = c) \<or> c = CHR ''.'' \<or> c = CHR ''_'' \<or> c = CHR ''-''"

definition valid_channel :: "string \<Rightarrow> bool" where
  "valid_channel c \<longleftrightarrow> c \<noteq> [] \<and> length c \<le> 64 \<and> list_all channel_char c"

definition channel_of :: "install_options \<Rightarrow> string option" where
  "channel_of o' = (let c = (if in_channel o' = [] then ''dev'' else in_channel o') in if valid_channel c then Some c else None)"

section \<open>The network\<close>

definition allowed_hosts :: "string list" where
  "allowed_hosts = [''github.com'', ''objects.githubusercontent.com'', ''release-assets.githubusercontent.com'', ''codeload.github.com'']"

text \<open>A hop is the scheme and the host of a request.\<close>

type_synonym hop = "string \<times> string"

definition allowed_hop :: "hop \<Rightarrow> bool" where
  "allowed_hop h \<longleftrightarrow> fst h = ''https'' \<and> snd h \<in> set allowed_hosts"

definition check_redirect :: "nat \<Rightarrow> hop \<Rightarrow> bool" where
  "check_redirect via h \<longleftrightarrow> via < 10 \<and> allowed_hop h"

text \<open>What the network answers to a URL: the redirects it makes, then no answer or a status, the body
  and whether the body can be read to its end.\<close>

record net_reply =
  re_redirects :: "hop list"
  re_answer :: "(nat \<times> string \<times> bool) option"

text \<open>The scheme and the host of a URL, for the plain shape the package builds.\<close>

definition url_origin :: "string \<Rightarrow> hop option" where
  "url_origin u =
     (case cut_at (CHR '':'') u of
        None \<Rightarrow> None
      | Some (scheme, r) \<Rightarrow>
          if \<not> has_prefix r ''//'' then None
          else Some (scheme, takeWhile (\<lambda>c. c \<noteq> CHR ''/'' \<and> c \<noteq> CHR '':'' \<and> c \<noteq> CHR ''?'' \<and> c \<noteq> CHR ''#'') (drop 2 r)))"

datatype install_err =
    Not_Darwin
  | Bad_Channel
  | Refused_Host
  | Net_Failed
  | Bad_Status nat
  | Too_Large
  | Bad_Manifest_Json
  | Wrong_Bundle_Id
  | Wrong_Team
  | No_Release_Identity
  | Wrong_Asset
  | Bad_Digest_Text
  | Negative_Size
  | No_Temp_File
  | Wrong_Size
  | Wrong_Digest
  | No_Work_Dir
  | Not_Unpacked
  | No_Plist
  | Not_Signed
  | Wrong_Authority
  | Not_Hardened
  | No_Timestamp
  | Not_Notarized
  | Other_Build
  | App_Running
  | No_Applications
  | Not_Staged
  | Not_Moved_Aside
  | Not_Swapped

fun follow :: "nat \<Rightarrow> hop list \<Rightarrow> hop list \<times> bool" where
  "follow via [] = ([], True)"
| "follow via (h # hs) =
     (if check_redirect via h then (let (seen, ok) = follow (Suc via) hs in (h # seen, ok)) else ([], False))"

text \<open>A request: the hosts it contacted and the body with whether it can be read, or an error.\<close>

definition http_do :: "(string \<Rightarrow> net_reply) \<Rightarrow> string \<Rightarrow> hop list \<times> (install_err, string \<times> bool) res" where
  "http_do net raw =
     (case url_origin raw of
        None \<Rightarrow> ([], Inl Refused_Host)
      | Some h \<Rightarrow>
          if \<not> allowed_hop h then ([], Inl Refused_Host)
          else
            (let (seen, ok) = follow 1 (re_redirects (net raw)) in
             (h # seen,
              if \<not> ok then Inl Refused_Host
              else
                (case re_answer (net raw) of
                   None \<Rightarrow> Inl Net_Failed
                 | Some (status, body, whole) \<Rightarrow> if status \<noteq> 200 then Inl (Bad_Status status) else Inr (body, whole)))))"

definition limited :: "int \<Rightarrow> string \<Rightarrow> string" where
  "limited n body = take (nat n) body"

definition http_get :: "(string \<Rightarrow> net_reply) \<Rightarrow> string \<Rightarrow> int \<Rightarrow> hop list \<times> (install_err, string) res" where
  "http_get net raw limit =
     (let (seen, r) = http_do net raw in
      (seen, and_then r (\<lambda>(body, whole).
         if \<not> whole \<and> int (length body) < limit then Inl Net_Failed
         else if int (length (limited limit body)) = limit then Inl Too_Large
         else Inr (limited limit body))))"

section \<open>The manifest\<close>

record sea_manifest =
  mf_release :: string
  mf_version :: string
  mf_build :: string
  mf_commit :: string
  mf_bundle_id :: string
  mf_team_id :: string
  mf_sha256 :: string
  mf_size :: int
  mf_asset :: string

definition hex_text :: "string \<Rightarrow> bool" where
  "hex_text s \<longleftrightarrow> list_all (\<lambda>c. is_digit c \<or> lower_char c \<in> set ''abcdef'') s"

definition validate_manifest :: "sea_manifest \<Rightarrow> (install_err, unit) res" where
  "validate_manifest m =
     (if mf_bundle_id m \<noteq> sea_bundle_id then Inl Wrong_Bundle_Id
      else if mf_team_id m \<noteq> sea_team_id then Inl Wrong_Team
      else if mf_release m = [] \<or> mf_version m = [] \<or> mf_build m = [] then Inl No_Release_Identity
      else if mf_asset m \<noteq> sea_app_name @ ''.zip'' then Inl Wrong_Asset
      else if base_name (mf_asset m) \<noteq> mf_asset m \<or> contains (mf_asset m) ''..'' then Inl Wrong_Asset
      else if length (mf_sha256 m) \<noteq> 64 then Inl Bad_Digest_Text
      else if \<not> hex_text (mf_sha256 m) then Inl Bad_Digest_Text
      else if mf_size m < 0 then Inl Negative_Size
      else Inr ())"

definition channel_url :: "string \<Rightarrow> string \<Rightarrow> string" where
  "channel_url channel file = sea_base_url @ ''/'' @ channel @ ''/'' @ file"

text \<open>\<open>decode\<close> is the decoder of the manifest.\<close>

definition fetch_manifest ::
    "(string \<Rightarrow> net_reply) \<Rightarrow> (string \<Rightarrow> sea_manifest option) \<Rightarrow> string \<Rightarrow> hop list \<times> (install_err, sea_manifest) res" where
  "fetch_manifest net decode channel =
     (let (seen, r) = http_get net (channel_url channel ''dev.json'') max_manifest in
      (seen, and_then r (\<lambda>body.
         case decode body of
           None \<Rightarrow> Inl Bad_Manifest_Json
         | Some m \<Rightarrow> and_then (validate_manifest m) (\<lambda>_. Inr m))))"

section \<open>The bundle\<close>

record 'b mac_tools =
  mt_plist :: "'b \<Rightarrow> (string \<times> string \<times> string) option"    \<comment> \<open>identifier, version, build\<close>
  mt_verify :: "'b \<Rightarrow> bool"                                \<comment> \<open>\<open>codesign --verify\<close>\<close>
  mt_details :: "'b \<Rightarrow> string option"                       \<comment> \<open>\<open>codesign -dv\<close>\<close>
  mt_stapled :: "'b \<Rightarrow> bool"
  mt_assess :: "'b \<Rightarrow> string \<times> bool"
  mt_unpack :: "string \<Rightarrow> 'b option"                        \<comment> \<open>the bundle in an archive\<close>

record bundle_info =
  bi_version :: string
  bi_build :: string
  bi_authority :: string
  bi_team :: string
  bi_hardened :: bool
  bi_timestamped :: bool
  bi_notarized :: bool

definition scan_line :: "string \<Rightarrow> bundle_info \<Rightarrow> bundle_info" where
  "scan_line l i =
     (if has_prefix l ''Authority='' then
        (if bi_authority i = [] then i\<lparr>bi_authority := trim_prefix l ''Authority=''\<rparr> else i)
      else if has_prefix l ''TeamIdentifier='' then i\<lparr>bi_team := trim_prefix l ''TeamIdentifier=''\<rparr>
      else if has_prefix l ''Timestamp='' then i\<lparr>bi_timestamped := True\<rparr>
      else if contains l ''flags='' \<and> contains l ''(runtime)'' then i\<lparr>bi_hardened := True\<rparr>
      else i)"

definition check_notarized :: "'b mac_tools \<Rightarrow> 'b \<Rightarrow> bool" where
  "check_notarized t b \<longleftrightarrow> mt_stapled t b
     \<and> (let (text', ok) = mt_assess t b in
          \<not> (\<not> ok \<and> text' = []) \<and> contains text' ''accepted'' \<and> contains text' ''source=Notarized Developer ID'')"

definition inspect_bundle :: "'b mac_tools \<Rightarrow> bool \<Rightarrow> 'b \<Rightarrow> (install_err, bundle_info) res" where
  "inspect_bundle t allow b =
     (case mt_plist t b of
        None \<Rightarrow> Inl No_Plist
      | Some (ident, version, build) \<Rightarrow>
          if ident \<noteq> sea_bundle_id then Inl Wrong_Bundle_Id
          else if \<not> mt_verify t b then Inl Not_Signed
          else
            (case mt_details t b of
               None \<Rightarrow> Inl Not_Signed
             | Some details \<Rightarrow>
                 (let i = fold scan_line (lines details)
                        \<lparr>bi_version = version, bi_build = build, bi_authority = [], bi_team = [], bi_hardened = False,
                         bi_timestamped = False, bi_notarized = False\<rparr> in
                  if bi_authority i \<noteq> sea_authority then Inl Wrong_Authority
                  else if bi_team i \<noteq> sea_team_id then Inl Wrong_Team
                  else if \<not> bi_hardened i then Inl Not_Hardened
                  else if \<not> bi_timestamped i then Inl No_Timestamp
                  else if check_notarized t b then Inr (i\<lparr>bi_notarized := True\<rparr>)
                  else if allow then Inr i else Inl Not_Notarized)))"

section \<open>The machine\<close>

text \<open>The two application directories, the names beside the user's one, the temporary files, the hosts
  contacted, and the script of the calls that can fail.\<close>

record 'b install_world =
  iw_user :: "'b option"
  iw_system :: "'b option"
  iw_staging :: "'b option"
  iw_previous :: "'b option"
  iw_archive :: bool
  iw_work :: bool
  iw_contacted :: "hop list"
  iw_faults :: "bool list"

definition sea_call :: "install_err \<Rightarrow> 'b install_world \<Rightarrow> (install_err, unit) res \<times> 'b install_world" where
  "sea_call e w = (let (bad, fs) = next_fault (iw_faults w) in (or_fail (\<not> bad) e, w\<lparr>iw_faults := fs\<rparr>))"

definition contacted :: "hop list \<times> 'r \<Rightarrow> 'b install_world \<Rightarrow> 'r \<times> 'b install_world" where
  "contacted p w = (snd p, w\<lparr>iw_contacted := iw_contacted w @ fst p\<rparr>)"

definition wrap64 :: "int \<Rightarrow> int" where
  "wrap64 i = (i + 2 ^ 63) mod 2 ^ 64 - 2 ^ 63"

definition archive_limit :: "sea_manifest \<Rightarrow> int" where
  "archive_limit m = (if mf_size m > 0 then wrap64 (mf_size m + 1) else max_archive)"

text \<open>The archive in a temporary file. A failure after the file was made returns the cleanup, which
  the caller does not run. A reader with a limit that is not positive reads nothing.\<close>

definition fetch_archive ::
    "(string \<Rightarrow> net_reply) \<Rightarrow> (string \<Rightarrow> string) \<Rightarrow> string \<Rightarrow> sea_manifest \<Rightarrow> 'b install_world
     \<Rightarrow> (install_err, string) res \<times> 'b install_world" where
  "fetch_archive net sha channel m w =
     (let limit = archive_limit m in
      next_do (contacted (http_do net (channel_url channel (mf_asset m))) w) (\<lambda>(body, whole) w1.
      next_do (sea_call No_Temp_File w1) (\<lambda>_ w2.
        (let w3 = w2\<lparr>iw_archive := True\<rparr>; got = limited limit body in
         next_do (sea_call Net_Failed w3) (\<lambda>_ w4.
           if \<not> whole \<and> int (length body) < limit then (Inl Net_Failed, w4)
           else if limit = wrap64 (mf_size m + 1) \<and> int (length got) \<noteq> mf_size m then (Inl Wrong_Size, w4)
           else if lower (sha got) \<noteq> lower (mf_sha256 m) then (Inl Wrong_Digest, w4)
           else (Inr got, w4))))))"

definition installed_app :: "'b install_world \<Rightarrow> (bool \<times> 'b) option" where
  "installed_app w =
     (case iw_user w of Some b \<Rightarrow> Some (True, b) | None \<Rightarrow> map_option (\<lambda>b. (False, b)) (iw_system w))"

text \<open>The staged copy, the old bundle aside, the swap, and the old bundle back when the swap fails.
  Clearing the quarantine flag and the registration only warn.\<close>

definition set_aside :: "'b install_world \<Rightarrow> (install_err, bool) res \<times> 'b install_world" where
  "set_aside w =
     (case iw_user w of
        None \<Rightarrow> (Inr False, w)
      | Some old \<Rightarrow>
          next_do (sea_call Not_Moved_Aside w) (\<lambda>_ w1.
          next_do (sea_call Not_Moved_Aside (w1\<lparr>iw_previous := None\<rparr>)) (\<lambda>_ w2.
            (Inr True, w2\<lparr>iw_previous := Some old, iw_user := None\<rparr>))))"

definition swap_in :: "'b \<Rightarrow> bool \<Rightarrow> 'b install_world \<Rightarrow> (install_err, unit) res \<times> 'b install_world" where
  "swap_in b aside w =
     (let (r, w1) = sea_call Not_Swapped w in
      if is_ok r then
        (r, w1\<lparr>iw_user := Some b, iw_staging := None, iw_previous := if aside then None else iw_previous w1\<rparr>)
      else if aside then
        (let (back, w2) = sea_call Not_Swapped w1 in
         (r, if is_ok back then w2\<lparr>iw_user := iw_previous w2, iw_previous := None\<rparr> else w2))
      else (r, w1))"

definition install_bundle :: "bool \<Rightarrow> 'b \<Rightarrow> 'b install_world \<Rightarrow> (install_err, unit) res \<times> 'b install_world" where
  "install_bundle running b w =
     (if running then (Inl App_Running, w)
      else
        next_do (sea_call No_Applications w) (\<lambda>_ w1.
        next_do (sea_call Not_Staged w1) (\<lambda>_ w2.
        next_do (sea_call Not_Staged (w2\<lparr>iw_staging := None\<rparr>)) (\<lambda>_ w3.
        next_do (set_aside (w3\<lparr>iw_staging := Some b\<rparr>)) (swap_in b)))))"

record install_result =
  ir_user :: bool
  ir_version :: string
  ir_build :: string
  ir_notarized :: bool
  ir_downloaded :: bool

definition clean_archive :: "'b install_world \<Rightarrow> 'b install_world" where
  "clean_archive w = w\<lparr>iw_archive := False\<rparr>"

text \<open>Unpack, inspect, compare the build and install, inside the deferred removal of the work directory
  and the archive.\<close>

definition place_archive ::
    "'b mac_tools \<Rightarrow> bool \<Rightarrow> bool \<Rightarrow> sea_manifest \<Rightarrow> string \<Rightarrow> 'b install_world
     \<Rightarrow> (install_err, install_result) res \<times> 'b install_world" where
  "place_archive t allow running m archive w =
     (case mt_unpack t archive of
        None \<Rightarrow> (Inl Not_Unpacked, w)
      | Some b \<Rightarrow>
          (case inspect_bundle t allow b of
             Inl e \<Rightarrow> (Inl e, w)
           | Inr i \<Rightarrow>
               if mf_build m \<noteq> [] \<and> bi_build i \<noteq> mf_build m then (Inl Other_Build, w)
               else
                 next_do (install_bundle running b w) (\<lambda>_ w1.
                   (Inr \<lparr>ir_user = True, ir_version = bi_version i, ir_build = bi_build i, ir_notarized = bi_notarized i,
                      ir_downloaded = True\<rparr>, w1))))"

definition ensure_sea ::
    "string \<Rightarrow> (string \<Rightarrow> net_reply) \<Rightarrow> (string \<Rightarrow> sea_manifest option) \<Rightarrow> (string \<Rightarrow> string) \<Rightarrow> 'b mac_tools \<Rightarrow> bool
     \<Rightarrow> install_options \<Rightarrow> 'b install_world \<Rightarrow> (install_err, install_result) res \<times> 'b install_world" where
  "ensure_sea goos net decode sha t running o' w =
     (case channel_of o' of
        None \<Rightarrow> (Inl Bad_Channel, w)
      | Some channel \<Rightarrow>
          if goos \<noteq> ''darwin'' then (Inl Not_Darwin, w)
          else
            (case (if in_force o' then None else installed_app w) of
               Some (user, b) \<Rightarrow>
                 (and_then (inspect_bundle t (in_allow_unnotarized o') b) (\<lambda>i.
                    Inr \<lparr>ir_user = user, ir_version = bi_version i, ir_build = bi_build i, ir_notarized = bi_notarized i,
                      ir_downloaded = False\<rparr>), w)
             | None \<Rightarrow>
                 next_do (contacted (fetch_manifest net decode channel) w) (\<lambda>m w1.
                 next_do (fetch_archive net sha channel m w1) (\<lambda>archive w2.
                   (let (r, w3) =
                      next_do (sea_call No_Work_Dir w2) (\<lambda>_ w4.
                        (let (r, w5) = place_archive t (in_allow_unnotarized o') running m archive (w4\<lparr>iw_work := True\<rparr>) in
                         (r, w5\<lparr>iw_work := False\<rparr>))) in
                    (r, clean_archive w3))))))"

section \<open>What is installed\<close>

lemma inspect_Inr:
  assumes "inspect_bundle t allow b = Inr i"
  shows "mt_verify t b \<and> (\<exists>v n. mt_plist t b = Some (sea_bundle_id, v, n)) \<and> bi_authority i = sea_authority
    \<and> bi_team i = sea_team_id \<and> bi_hardened i \<and> bi_timestamped i
    \<and> (if bi_notarized i then check_notarized t b else allow)"
proof -
  have f: "bi_notarized (fold scan_line ls k) = bi_notarized k" for ls k
    by (induction ls arbitrary: k) (auto simp: scan_line_def)
  show ?thesis
    using assms f by (auto simp: inspect_bundle_def Let_def split: option.splits if_splits)
qed

text \<open>What a bundle in place is known to be.\<close>

definition trusted :: "'b mac_tools \<Rightarrow> bool \<Rightarrow> 'b \<Rightarrow> bool" where
  "trusted t allow b \<longleftrightarrow> mt_verify t b \<and> (\<exists>v n. mt_plist t b = Some (sea_bundle_id, v, n))
     \<and> (\<exists>i. inspect_bundle t allow b = Inr i \<and> bi_authority i = sea_authority \<and> bi_team i = sea_team_id
           \<and> bi_hardened i \<and> bi_timestamped i) \<and> (check_notarized t b \<or> allow)"

lemma inspect_trusted: "inspect_bundle t allow b = Inr i \<Longrightarrow> trusted t allow b"
  using inspect_Inr [of t allow b i] by (auto simp: trusted_def split: if_splits)

lemma sea_call_same: "sea_call e w = (r, w') \<Longrightarrow> w' = w\<lparr>iw_faults := iw_faults w'\<rparr>"
  by (auto simp: sea_call_def split: prod.splits)

definition from_manifest ::
    "(string \<Rightarrow> string) \<Rightarrow> 'b mac_tools \<Rightarrow> 'b \<Rightarrow> bool" where
  "from_manifest sha t b \<longleftrightarrow> (\<exists>archive m. mt_unpack t archive = Some b \<and> validate_manifest m = Inr ()
     \<and> lower (sha archive) = lower (mf_sha256 m))"

lemma fetch_manifest_Inr: "snd (fetch_manifest net decode channel) = Inr m \<Longrightarrow> validate_manifest m = Inr ()"
  by (auto simp: fetch_manifest_def and_then_Inr split: prod.splits option.splits)

text \<open>What stays the same, but for the script, the temporary files and the hosts.\<close>

definition same_apps :: "'b install_world \<Rightarrow> 'b install_world \<Rightarrow> bool" where
  "same_apps w w' \<longleftrightarrow> iw_user w' = iw_user w \<and> iw_system w' = iw_system w \<and> iw_staging w' = iw_staging w
     \<and> iw_previous w' = iw_previous w"

lemma same_apps_call: "sea_call e w = (r, w') \<Longrightarrow> same_apps w w' \<and> iw_contacted w' = iw_contacted w \<and> iw_archive w' = iw_archive w"
  by (auto simp: sea_call_def same_apps_def split: prod.splits)

lemma fetch_archive_ends:
  assumes "fetch_archive net sha channel m w = (r, w')"
  shows "same_apps w w' \<and> (case r of Inl _ \<Rightarrow> True | Inr a \<Rightarrow> lower (sha a) = lower (mf_sha256 m))"
  using assms
  by (auto simp: fetch_archive_def Let_def contacted_def next_do_def same_apps_def sea_call_def or_fail_def
      split: sum.splits prod.splits if_splits)

text \<open>The old bundle is in its place or beside it.\<close>

definition old_kept :: "'b install_world \<Rightarrow> 'b install_world \<Rightarrow> bool" where
  "old_kept w w' \<longleftrightarrow> iw_user w' = iw_user w \<or> (iw_user w' = None \<and> iw_previous w' = iw_user w)"

lemma set_aside_ends:
  "set_aside w = (r, w') \<Longrightarrow> iw_system w' = iw_system w \<and> iw_contacted w' = iw_contacted w \<and> iw_staging w' = iw_staging w
    \<and> (case r of Inl _ \<Rightarrow> iw_user w' = iw_user w
        | Inr aside \<Rightarrow> if aside then iw_user w' = None \<and> iw_previous w' = iw_user w
            else iw_user w' = iw_user w \<and> iw_user w = None)"
  by (auto simp: set_aside_def next_do_def sea_call_def or_fail_def split: sum.splits prod.splits if_splits option.splits)

lemma swap_in_ends:
  "swap_in b aside w = (r, w') \<Longrightarrow> iw_system w' = iw_system w \<and> iw_contacted w' = iw_contacted w
    \<and> (if is_ok r then iw_user w' = Some b \<and> iw_staging w' = None
       else if aside then iw_user w' = iw_previous w \<or> iw_user w' = iw_user w \<and> iw_previous w' = iw_previous w
       else iw_user w' = iw_user w)"
  by (auto simp: swap_in_def sea_call_def or_fail_def Let_def split: prod.splits if_splits)

lemma install_bundle_ends:
  assumes "install_bundle running b w = (r, w')"
  shows "iw_system w' = iw_system w \<and> iw_contacted w' = iw_contacted w
    \<and> (if is_ok r then iw_user w' = Some b \<and> iw_staging w' = None else old_kept w w')"
proof (cases running)
  case True
  then show ?thesis using assms by (auto simp: install_bundle_def old_kept_def)
next
  case False
  obtain r1 w1 where 1: "sea_call No_Applications w = (r1, w1)" by fastforce
  obtain r2 w2 where 2: "sea_call Not_Staged w1 = (r2, w2)" by fastforce
  obtain r3 w3 where 3: "sea_call Not_Staged (w2\<lparr>iw_staging := None\<rparr>) = (r3, w3)" by fastforce
  obtain r4 w4 where 4: "set_aside (w3\<lparr>iw_staging := Some b\<rparr>) = (r4, w4)" by fastforce
  have s: "iw_user w1 = iw_user w" "iw_system w1 = iw_system w" "iw_contacted w1 = iw_contacted w"
    "iw_user w2 = iw_user w" "iw_system w2 = iw_system w" "iw_contacted w2 = iw_contacted w"
    "iw_user w3 = iw_user w" "iw_system w3 = iw_system w" "iw_contacted w3 = iw_contacted w"
    using same_apps_call [OF 1] same_apps_call [OF 2] same_apps_call [OF 3] by (simp_all add: same_apps_def)
  have run: "install_bundle running b w =
      next_do (r1, w1) (\<lambda>_ _. next_do (r2, w2) (\<lambda>_ _. next_do (r3, w3) (\<lambda>_ _. next_do (r4, w4) (swap_in b))))"
    using False 1 2 3 4 by (cases r1; cases r2; cases r3) (simp_all add: install_bundle_def)
  show ?thesis
  proof (cases "is_ok r1 \<and> is_ok r2 \<and> is_ok r3 \<and> is_ok r4")
    case True
    then obtain aside where a: "r4 = Inr aside" by (auto simp: is_ok_iff)
    then have "swap_in b aside w4 = (r, w')" using assms True by (auto simp: run is_ok_iff)
    then show ?thesis
      using swap_in_ends [of b aside w4 r w'] set_aside_ends [OF 4] s a by (auto simp: old_kept_def split: if_splits)
  next
    case no: False
    then have "\<not> is_ok r \<and> (w' = w1 \<or> w' = w2 \<or> w' = w3 \<or> w' = w4 \<and> \<not> is_ok r4)"
      using assms by (cases r1; cases r2; cases r3; cases r4) (auto simp: run)
    then show ?thesis using s set_aside_ends [OF 4] by (cases r4) (auto simp: old_kept_def)
  qed
qed

definition contacts_allowed :: "'b install_world \<Rightarrow> 'b install_world \<Rightarrow> bool" where
  "contacts_allowed w w' \<longleftrightarrow> (\<exists>l. iw_contacted w' = iw_contacted w @ l \<and> list_all allowed_hop l)"

lemma follow_allowed: "list_all allowed_hop (fst (follow via hs))"
  by (induction via hs rule: follow.induct) (auto simp: check_redirect_def split: prod.splits)

lemma http_do_allowed: "list_all allowed_hop (fst (http_do net raw))"
  using follow_allowed [of 1 "re_redirects (net raw)"]
  by (auto simp: http_do_def split: option.splits prod.splits)

lemma fetch_manifest_allowed: "list_all allowed_hop (fst (fetch_manifest net decode channel))"
  using http_do_allowed by (auto simp: fetch_manifest_def http_get_def split_beta Let_def)

lemma fetch_archive_contacts: "fetch_archive net sha channel m w = (r, w') \<Longrightarrow> contacts_allowed w w'"
  using http_do_allowed [of net "channel_url channel (mf_asset m)"]
  by (auto simp: fetch_archive_def Let_def contacted_def next_do_def contacts_allowed_def sea_call_def
      split: sum.splits prod.splits if_splits)

text \<open>A bundle that was placed: inspected, and from an archive with the digest of its manifest.\<close>

lemma place_archive_ends:
  assumes "place_archive t allow running m archive w = (r, w')"
  shows "iw_system w' = iw_system w \<and> iw_contacted w' = iw_contacted w
    \<and> (case r of Inl _ \<Rightarrow> old_kept w w'
       | Inr q \<Rightarrow> ir_user q \<and> ir_downloaded q
           \<and> (\<exists>b. iw_user w' = Some b \<and> trusted t allow b \<and> mt_unpack t archive = Some b))"
proof (cases "mt_unpack t archive")
  case None
  then show ?thesis using assms by (auto simp: place_archive_def old_kept_def)
next
  case b: (Some b)
  show ?thesis
  proof (cases "inspect_bundle t allow b")
    case (Inl e)
    then show ?thesis using assms b by (auto simp: place_archive_def old_kept_def)
  next
    case (Inr i)
    obtain q w1 where ib: "install_bundle running b w = (q, w1)" by fastforce
    show ?thesis
      using assms b Inr ib install_bundle_ends [OF ib] inspect_trusted [OF Inr]
      by (cases q) (auto simp: place_archive_def old_kept_def split: if_splits)
  qed
qed

lemma same_apps_refl: "same_apps w w"
  by (simp add: same_apps_def)

lemma ensure_sea_ends:
  assumes "ensure_sea goos net decode sha t running o' w = (r, w')"
  shows "contacts_allowed w w'
    \<and> (case r of Inl _ \<Rightarrow> old_kept w w'
       | Inr q \<Rightarrow> (\<exists>b. (if ir_user q then iw_user w' else iw_system w') = Some b \<and> trusted t (in_allow_unnotarized o') b
           \<and> (if ir_downloaded q then from_manifest sha t b else iw_user w' = iw_user w)))"
proof (cases "channel_of o' = None \<or> goos \<noteq> ''darwin''")
  case True
  then show ?thesis using assms by (auto simp: ensure_sea_def old_kept_def contacts_allowed_def split: option.splits)
next
  case False
  then obtain channel where c: "channel_of o' = Some channel" and d: "goos = ''darwin''" by auto
  show ?thesis
  proof (cases "if in_force o' then None else installed_app w")
    case (Some ub)
    then obtain user b where "ub = (user, b)" "(if user then iw_user w else iw_system w) = Some b"
      by (auto simp: installed_app_def split: if_splits option.splits)
    then show ?thesis
      using assms c d Some inspect_trusted [of t "in_allow_unnotarized o'" b]
      by (auto simp: ensure_sea_def old_kept_def contacts_allowed_def and_then_def split: sum.splits)
  next
    case None
    obtain q1 w1 where 1: "contacted (fetch_manifest net decode channel) w = (q1, w1)" by fastforce
    have s1: "same_apps w w1" "contacts_allowed w w1" "q1 = snd (fetch_manifest net decode channel)"
      using 1 fetch_manifest_allowed [of net decode channel]
      by (auto simp: contacted_def same_apps_def contacts_allowed_def)
    show ?thesis
    proof (cases q1)
      case (Inl e)
      then show ?thesis
        using assms c d None 1 s1 by (auto simp: ensure_sea_def old_kept_def same_apps_def)
    next
      case m: (Inr m)
      then have vm: "validate_manifest m = Inr ()" using s1 fetch_manifest_Inr [of net decode channel m] by simp
      obtain q2 w2 where 2: "fetch_archive net sha channel m w1 = (q2, w2)" by fastforce
      note f = fetch_archive_ends [OF 2] and g = fetch_archive_contacts [OF 2]
      have k: "contacts_allowed w w2" using s1(2) g by (auto simp: contacts_allowed_def)
      show ?thesis
      proof (cases q2)
        case (Inl e)
        then show ?thesis
          using assms c d None 1 m 2 s1 f k by (auto simp: ensure_sea_def old_kept_def same_apps_def)
      next
        case a: (Inr archive)
        obtain q3 w3 where 3: "sea_call No_Work_Dir w2 = (q3, w3)" by fastforce
        obtain q4 w4 where 4: "place_archive t (in_allow_unnotarized o') running m archive (w3\<lparr>iw_work := True\<rparr>) = (q4, w4)"
          by fastforce
        note p = place_archive_ends [OF 4] and n = same_apps_call [OF 3]
        have run: "(r, w') = (if is_ok q3 then (q4, clean_archive (w4\<lparr>iw_work := False\<rparr>)) else (Inl (projl q3), clean_archive w3))"
          using assms c d None 1 m 2 a 3 4 by (cases q3) (simp_all add: ensure_sea_def)
        have "contacts_allowed w w4" "contacts_allowed w w3" using k n p by (auto simp: contacts_allowed_def)
        then show ?thesis
          using run p n f s1(1) a vm
          by (cases q3; cases q4)
            (auto simp: clean_archive_def contacts_allowed_def old_kept_def same_apps_def from_manifest_def)
      qed
    qed
  qed
qed

text \<open>
  C4: a dashboard lezz reports as ready is the bundle in place, and that bundle carries the expected
  identifier, a valid signature of the expected authority and team, the hardened runtime, a timestamp,
  and a notarization unless it was waived; when it was downloaded, its archive has the digest of a
  manifest that was accepted.
\<close>

theorem only_verified_installed:
  "case ensure_sea goos net decode sha t running o' w of
     (Inl e, w') \<Rightarrow> True
   | (Inr q, w') \<Rightarrow> \<exists>b. (if ir_user q then iw_user w' else iw_system w') = Some b \<and> trusted t (in_allow_unnotarized o') b
       \<and> (if ir_downloaded q then from_manifest sha t b else iw_user w' = iw_user w)"
  using ensure_sea_ends [of goos net decode sha t running o' w] by (auto split: prod.splits sum.splits split del: if_split)


text \<open>
  Every host the installer contacts, through whatever redirects, is an allowed one over HTTPS.
\<close>

theorem downloads_stay_on_allowed_hosts:
  "\<exists>l. iw_contacted (snd (ensure_sea goos net decode sha t running o' w)) = iw_contacted w @ l \<and> list_all allowed_hop l"
  using ensure_sea_ends [of goos net decode sha t running o' w] unfolding contacts_allowed_def
  by (metis surjective_pairing)

section \<open>What modelling showed\<close>

text \<open>An archive with the wrong digest stays in the temporary directory.\<close>

lemma refused_archive_stays:
  assumes "http_do net (channel_url channel (mf_asset m)) = (hops, Inr (body, True))" "iw_faults w = []"
    "mf_size m = 0" "int (length body) < max_archive" "lower (sha body) \<noteq> lower (mf_sha256 m)"
  shows "\<exists>w'. fetch_archive net sha channel m w = (Inl Wrong_Digest, w') \<and> iw_archive w'"
  using assms
  by (simp add: fetch_archive_def archive_limit_def contacted_def sea_call_def or_fail_def limited_def wrap64_def max_archive_def)

lemma refused_archive_reported:
  assumes "channel_of o' = Some channel" "in_force o'" "fetch_manifest net decode channel = (hops, Inr m)"
    "fetch_archive net sha channel m (w\<lparr>iw_contacted := iw_contacted w @ hops\<rparr>) = (Inl e, w')"
  shows "ensure_sea ''darwin'' net decode sha t running o' w = (Inl e, w')"
  using assms by (simp add: ensure_sea_def contacted_def)

text \<open>A channel may be the parent directory.\<close>

lemma dots_are_a_channel: "valid_channel ''..''"
  by (simp add: valid_channel_def channel_char_def)

text \<open>A failed swap leaves the staged copy.\<close>

lemma failed_swap_leaves_copy:
  "iw_user w = None \<Longrightarrow> iw_faults w = [False, False, False, True]
    \<Longrightarrow> \<exists>w'. install_bundle False b w = (Inl Not_Swapped, w') \<and> iw_staging w' = Some b"
  by (simp add: install_bundle_def set_aside_def swap_in_def sea_call_def or_fail_def next_fault_def)

text \<open>Of the manifest only the build is compared with the bundle.\<close>

lemma version_not_compared:
  "place_archive t allow running (m\<lparr>mf_version := v, mf_commit := c, mf_release := x\<rparr>) archive w = place_archive t allow running m archive w"
  by (simp add: place_archive_def split: option.splits sum.splits)

end
