(* ===== verification/Tools.thy ===== *)
theory Tools
  imports Paths "HOL-Library.Multiset"
begin

text \<open>
  The managed tools (\<open>internal/tools\<close>): the registry, where a tool is found, its installation from a
  release or from source, the signature check, upgrades and the purge. A binary is of an abstract
  type; what a release serves, what the installed binaries print and what \<open>codesign\<close> says are
  parameters, and so is the library that orders versions.
\<close>

section \<open>The registry\<close>

text \<open>The descriptions of the profiles and the asset name, which no entry sets, are left out.\<close>

record daemon_profile =
  dp_name :: string
  dp_args :: "string list"

record tool =
  tl_name :: string
  tl_slug :: string
  tl_profiles :: "daemon_profile list"

definition tool_registry :: "tool list" where
  "tool_registry =
     [\<lparr>tl_name = ''lezz'', tl_slug = ''james-gibson/lezz.go'',
        tl_profiles = [\<lparr>dp_name = ''demo'', dp_args = [''demo'']\<rparr>, \<lparr>dp_name = ''prod'', dp_args = [''prod'']\<rparr>]\<rparr>,
      \<lparr>tl_name = ''adhd'', tl_slug = ''james-gibson/adhd'',
        tl_profiles = [\<lparr>dp_name = ''idle'', dp_args = [''--headless'', ''--mcp-addr'', ''127.0.0.1:9090'']\<rparr>]\<rparr>,
      \<lparr>tl_name = ''ocd-smoke-alarm'', tl_slug = ''james-gibson/smoke-alarm'',
        tl_profiles = [\<lparr>dp_name = ''idle'', dp_args = []\<rparr>]\<rparr>,
      \<lparr>tl_name = ''tuner'', tl_slug = ''james-gibson/tuner'', tl_profiles = [\<lparr>dp_name = ''idle'', dp_args = []\<rparr>]\<rparr>]"

definition lookup_tool :: "string \<Rightarrow> tool option" where
  "lookup_tool name = find (\<lambda>t. tl_name t = name) tool_registry"

definition lookup_profile :: "tool \<Rightarrow> string \<Rightarrow> daemon_profile option" where
  "lookup_profile t name = find (\<lambda>p. dp_name p = name) (tl_profiles t)"

definition tool_names :: "string list" where
  "tool_names = map tl_name tool_registry"

section \<open>Versions\<close>

text \<open>\<open>v?\d+\.\d+\.\d+(?:[-+][0-9A-Za-z.\-+]+)?\<close>, anchored at the start.\<close>

definition suffix_char :: "char \<Rightarrow> bool" where
  "suffix_char c \<longleftrightarrow> is_alnum c \<or> c = CHR ''.'' \<or> c = CHR ''-'' \<or> c = CHR ''+''"

definition digits_then :: "string \<Rightarrow> (string \<times> string) option" where
  "digits_then s =
     (let d = takeWhile is_digit s; r = dropWhile is_digit s in
      if d \<noteq> [] \<and> r \<noteq> [] \<and> hd r = CHR ''.'' then Some (d @ ''.'', tl r) else None)"

definition version_suffix :: "string \<Rightarrow> string" where
  "version_suffix s =
     (case s of
        [] \<Rightarrow> []
      | c # r \<Rightarrow>
          if (c = CHR ''-'' \<or> c = CHR ''+'') \<and> takeWhile suffix_char r \<noteq> [] then c # takeWhile suffix_char r else [])"

definition version_here :: "string \<Rightarrow> string option" where
  "version_here s =
     (let (v, t) = (if s \<noteq> [] \<and> hd s = CHR ''v'' then (''v'', tl s) else ([], s)) in
      case digits_then t of
        None \<Rightarrow> None
      | Some (a, t1) \<Rightarrow>
          (case digits_then t1 of
             None \<Rightarrow> None
           | Some (b, t2) \<Rightarrow>
               (let c = takeWhile is_digit t2 in
                if c = [] then None else Some (v @ a @ b @ c @ version_suffix (dropWhile is_digit t2)))))"

fun version_token :: "string \<Rightarrow> string option" where
  "version_token [] = None"
| "version_token (c # s) = (case version_here (c # s) of Some t \<Rightarrow> Some t | None \<Rightarrow> version_token s)"

text \<open>\<open>semver\<close>: the canonical form of a version and whether one is newer than another.\<close>

record version_ops =
  vo_canon :: "string \<Rightarrow> string option"
  vo_newer :: "string \<Rightarrow> string \<Rightarrow> bool option"

definition normalize_version :: "version_ops \<Rightarrow> string \<Rightarrow> string option" where
  "normalize_version ops raw =
     (case version_token raw of None \<Rightarrow> None | Some t \<Rightarrow> vo_canon ops (takeWhile (\<lambda>c. c \<noteq> CHR ''+'') t))"

section \<open>The signature\<close>

datatype sig_err = Unreadable_Signature | Not_Developer_Id string | Other_Team string

datatype sig_warning = Unsigned | Ad_Hoc

definition developer_team_id :: string where "developer_team_id = ''288ZTJGXX9''"

definition sig_line :: "string \<Rightarrow> string \<times> string \<Rightarrow> string \<times> string" where
  "sig_line l at =
     (if has_prefix l ''Authority='' \<and> fst at = [] then (trim_prefix l ''Authority='', snd at)
      else if has_prefix l ''TeamIdentifier='' then (fst at, trim_prefix l ''TeamIdentifier='')
      else at)"

definition verify_signature :: "string \<Rightarrow> string \<times> bool \<Rightarrow> (sig_err, sig_warning option) res" where
  "verify_signature goos codesign =
     (if goos \<noteq> ''darwin'' then Inr None
      else
        (let (out, ok) = codesign in
         if \<not> ok then (if contains out ''not signed at all'' then Inr (Some Unsigned) else Inl Unreadable_Signature)
         else
           (let (authority, team) = fold sig_line (lines out) ([], []) in
            if authority = [] then Inr (Some Ad_Hoc)
            else if \<not> has_prefix authority ''Developer ID Application:'' then Inl (Not_Developer_Id authority)
            else if team \<noteq> developer_team_id then Inl (Other_Team team)
            else Inr None)))"

section \<open>Fetching\<close>

datatype tool_err =
    No_Placeholder
  | No_Updater string
  | Not_Detected string
  | No_Release_Asset
  | No_Releases_Found
  | Not_Downloaded string
  | Refused_Signature sig_err
  | Source_Build_Failed
  | No_Built_Binary
  | Not_Symlinked
  | Unparsed_Version
  | Unknown_Managed_Tool string
  | Lezz_Updates_Itself
  | Not_Removed string
  | Tool_Not_Found string

text \<open>A file of \<open>~/.lezz/bin\<close>; the placeholder is what a fresh installation writes first.\<close>

datatype 'b bin_file = Placeholder | Binary 'b

type_synonym 'b bin_dir = "(string, 'b bin_file) table"

text \<open>What the releases of a repository give: the updater, the detection, then the download.\<close>

datatype 'b release =
    Updater_Fails string
  | Detection_Fails string
  | Nothing_Published
  | Published string "'b option"

definition fetch_latest :: "bool \<Rightarrow> 'b release \<Rightarrow> string \<Rightarrow> 'b bin_dir \<Rightarrow> (tool_err, string) res \<times> 'b bin_dir" where
  "fetch_latest writable rel name d =
     (let fresh = (map_of d name = None) in
      if fresh \<and> \<not> writable then (Inl No_Placeholder, d)
      else
        (let d1 = (if fresh then AList.update name Placeholder d else d);
             undo = (\<lambda>e. (Inl e, if fresh then AList.delete name d1 else d1)) in
         case rel of
           Updater_Fails m \<Rightarrow> undo (No_Updater m)
         | Detection_Fails m \<Rightarrow> undo (Not_Detected m)
         | Nothing_Published \<Rightarrow> undo No_Release_Asset
         | Published v None \<Rightarrow> undo (Not_Downloaded v)
         | Published v (Some b) \<Rightarrow> (Inr v, AList.update name (Binary b) d1)))"

definition source_install_allowed :: "string \<Rightarrow> bool" where
  "source_install_allowed v \<longleftrightarrow> lower (trim_space v) \<in> {''1'', ''true'', ''yes''}"

text \<open>Whether an error gets the hint about the credential.\<close>

definition auth_hint :: "string \<Rightarrow> bool" where
  "auth_hint msg \<longleftrightarrow> list_ex (contains (lower msg)) [''401'', ''403'', ''bad credentials'', ''rate limit'']"

text \<open>\<open>go version -m\<close>: the module version of a binary built from source.\<close>

definition text_fields :: "string \<Rightarrow> string list" where
  "text_fields s = filter (\<lambda>f. f \<noteq> []) (split_at (CHR '' '') (map (\<lambda>c. if c \<in> {CHR 0x09, CHR 0x0D, CHR 0x0B, CHR 0x0C} then CHR '' '' else c) s))"

definition module_line :: "string \<Rightarrow> string option" where
  "module_line l =
     (let f = text_fields l in
      if 3 \<le> length f \<and> f ! 0 = ''mod'' \<and> has_prefix (f ! 2) ''v'' \<and> 2 \<le> length (filter (\<lambda>c. c = CHR ''.'') (f ! 2))
      then Some (f ! 2) else None)"

definition module_version :: "string option \<Rightarrow> string" where
  "module_version out =
     (case out of
        None \<Rightarrow> []
      | Some s \<Rightarrow> (case List.map_filter module_line (lines s) of [] \<Rightarrow> [] | v # _ \<Rightarrow> v))"

text \<open>A build from source: whether the build runs, the binary it leaves, whether the link is made,
  and what \<open>go version -m\<close> prints.\<close>

record 'b source_build =
  sb_go :: bool
  sb_builds :: bool
  sb_binary :: "'b option"
  sb_links :: bool
  sb_version_out :: "string option"

definition install_via_go :: "'b source_build \<Rightarrow> string \<Rightarrow> 'b bin_dir \<Rightarrow> (tool_err, string) res \<times> 'b bin_dir" where
  "install_via_go s name d =
     (if \<not> sb_builds s then (Inl Source_Build_Failed, d)
      else
        (case sb_binary s of
           None \<Rightarrow> (Inl No_Built_Binary, d)
         | Some b \<Rightarrow>
             (let d1 = AList.delete name d in
              if \<not> sb_links s then (Inl Not_Symlinked, d1)
              else
                (let v = module_version (sb_version_out s) in
                 (Inr (if v \<noteq> [] then v else ''latest (from source)''), AList.update name (Binary b) d1)))))"

text \<open>\<open>codesign\<close> is asked about the file that is in place.\<close>

definition install_into ::
    "string \<Rightarrow> ('b bin_file \<Rightarrow> string \<times> bool) \<Rightarrow> bool \<Rightarrow> 'b release \<Rightarrow> string \<Rightarrow> 'b source_build \<Rightarrow> string
     \<Rightarrow> 'b bin_dir \<Rightarrow> (tool_err, string) res \<times> 'b bin_dir" where
  "install_into goos codesign writable rel allow s name d =
     (case fetch_latest writable rel name d of
        (Inr v, d1) \<Rightarrow>
          (case verify_signature goos (case map_of d1 name of None \<Rightarrow> ([], False) | Some f \<Rightarrow> codesign f) of
             Inl e \<Rightarrow> (Inl (Refused_Signature e), d1)
           | Inr _ \<Rightarrow> (Inr v, d1))
      | (Inl e, d1) \<Rightarrow>
          if e = No_Release_Asset \<and> sb_go s \<and> source_install_allowed allow then install_via_go s name d1
          else (Inl e, d1))"

section \<open>Upgrades\<close>

record upgrade_result =
  ur_installed :: string
  ur_latest :: string
  ur_changed :: bool
  ur_note :: string

text \<open>\<open>ask\<close> is what a binary prints for \<open>-v\<close>, when it answers.\<close>

definition installed_version :: "version_ops \<Rightarrow> ('b bin_file \<Rightarrow> string option) \<Rightarrow> string \<Rightarrow> 'b bin_dir \<Rightarrow> string option" where
  "installed_version ops ask name d =
     map_option (\<lambda>f. case ask f of
         None \<Rightarrow> []
       | Some out \<Rightarrow> (case normalize_version ops out of None \<Rightarrow> [] | Some v \<Rightarrow> v)) (map_of d name)"

definition latest_version :: "version_ops \<Rightarrow> 'b release \<Rightarrow> (tool_err, string) res" where
  "latest_version ops rel =
     (case rel of
        Updater_Fails m \<Rightarrow> Inl (No_Updater m)
      | Detection_Fails m \<Rightarrow> Inl (Not_Detected m)
      | Nothing_Published \<Rightarrow> Inl No_Releases_Found
      | Published v _ \<Rightarrow> Inr (case normalize_version ops v of None \<Rightarrow> v | Some n \<Rightarrow> n))"

text \<open>Whether to download, and what is noted: a version that can be compared and is not older stays.\<close>

definition wants_download :: "version_ops \<Rightarrow> string \<Rightarrow> string option \<Rightarrow> (tool_err, bool \<times> string) res" where
  "wants_download ops latest installed =
     (case installed of
        None \<Rightarrow> Inr (True, ''not installed'')
      | Some i \<Rightarrow>
          if i = [] then Inr (True, ''unrecognized version'')
          else (case vo_newer ops latest i of None \<Rightarrow> Inl Unparsed_Version | Some newer \<Rightarrow> Inr (newer, [])))"

text \<open>\<open>rel\<close> is what the first question finds and \<open>rel'\<close> what the download finds.\<close>

definition upgrade_into ::
    "version_ops \<Rightarrow> string \<Rightarrow> ('b bin_file \<Rightarrow> string \<times> bool) \<Rightarrow> ('b bin_file \<Rightarrow> string option) \<Rightarrow> bool \<Rightarrow> 'b release \<Rightarrow> 'b release
     \<Rightarrow> string \<Rightarrow> 'b bin_dir \<Rightarrow> (tool_err, upgrade_result) res \<times> 'b bin_dir" where
  "upgrade_into ops goos codesign ask writable rel rel' name d =
     next_do (latest_version ops rel, d) (\<lambda>latest d.
       (let inst = installed_version ops ask name d; shown = (case inst of None \<Rightarrow> [] | Some v \<Rightarrow> v) in
        next_do (wants_download ops latest inst, d) (\<lambda>(go, note') d.
          (let res = \<lparr>ur_installed = shown, ur_latest = latest, ur_changed = False, ur_note = note'\<rparr> in
           if \<not> go then (Inr res, d)
           else
             next_do (fetch_latest writable rel' name d) (\<lambda>v d1.
               (case verify_signature goos (case map_of d1 name of None \<Rightarrow> ([], False) | Some f \<Rightarrow> codesign f) of
                  Inl e \<Rightarrow> (Inl (Refused_Signature e), d1)
                | Inr _ \<Rightarrow>
                    (Inr (res\<lparr>ur_changed := True,
                       ur_latest := (case normalize_version ops v of Some n \<Rightarrow> n | None \<Rightarrow> if v \<noteq> [] then v else latest)\<rparr>), d1)))))))"

fun select_named :: "string list \<Rightarrow> (tool_err, tool list) res" where
  "select_named [] = Inr []"
| "select_named (n # ns) =
     (case lookup_tool n of
        None \<Rightarrow> Inl (Unknown_Managed_Tool n)
      | Some t \<Rightarrow> if tl_name t = ''lezz'' then Inl Lezz_Updates_Itself else and_then (select_named ns) (\<lambda>ts. Inr (t # ts)))"

definition select_tools :: "string list \<Rightarrow> (tool_err, tool list) res" where
  "select_tools names =
     (if names = [] then Inr (filter (\<lambda>t. tl_name t \<noteq> ''lezz'') tool_registry) else select_named names)"

fun upgrade_each ::
    "(tool \<Rightarrow> 'b bin_dir \<Rightarrow> (tool_err, upgrade_result) res \<times> 'b bin_dir) \<Rightarrow> tool list \<Rightarrow> 'b bin_dir
     \<Rightarrow> (tool \<times> (tool_err, upgrade_result) res) list \<times> 'b bin_dir" where
  "upgrade_each up [] d = ([], d)"
| "upgrade_each up (t # ts) d =
     (let (r, d1) = up t d; (rs, d2) = upgrade_each up ts d1 in ((t, r) # rs, d2))"

definition upgrade_all ::
    "(tool \<Rightarrow> 'b bin_dir \<Rightarrow> (tool_err, upgrade_result) res \<times> 'b bin_dir) \<Rightarrow> string list \<Rightarrow> 'b bin_dir
     \<Rightarrow> (tool_err, (tool \<times> (tool_err, upgrade_result) res) list) res \<times> 'b bin_dir" where
  "upgrade_all up names d =
     (case select_tools names of Inl e \<Rightarrow> (Inl e, d) | Inr ts \<Rightarrow> (let (rs, d1) = upgrade_each up ts d in (Inr rs, d1)))"

section \<open>Purge and lookup\<close>

record purge_result =
  pu_removed :: "string list"
  pu_missing :: "string list"

text \<open>\<open>stuck\<close> are the files that cannot be removed; the first stops the purge.\<close>

fun purge_each :: "(string \<Rightarrow> bool) \<Rightarrow> tool list \<Rightarrow> purge_result \<Rightarrow> 'b bin_dir \<Rightarrow> (tool_err, purge_result) res \<times> 'b bin_dir" where
  "purge_each stuck [] r d = (Inr r, d)"
| "purge_each stuck (t # ts) r d =
     (if tl_name t = ''lezz'' then purge_each stuck ts r d
      else if map_of d (tl_name t) = None then purge_each stuck ts (r\<lparr>pu_missing := pu_missing r @ [tl_name t]\<rparr>) d
      else if stuck (tl_name t) then (Inl (Not_Removed (tl_name t)), d)
      else purge_each stuck ts (r\<lparr>pu_removed := pu_removed r @ [tl_name t]\<rparr>) (AList.delete (tl_name t) d))"

definition purge_bins :: "(string \<Rightarrow> bool) \<Rightarrow> 'b bin_dir \<Rightarrow> (tool_err, purge_result) res \<times> 'b bin_dir" where
  "purge_bins stuck d = purge_each stuck tool_registry \<lparr>pu_removed = [], pu_missing = []\<rparr> d"

definition tool_bin_dir :: "string option \<Rightarrow> string option" where
  "tool_bin_dir home = map_option (\<lambda>h. join_path [h, ''.lezz'', ''bin'']) home"

text \<open>The managed copy first, then the search path.\<close>

definition find_tool :: "string option \<Rightarrow> 'b bin_dir \<Rightarrow> (string \<Rightarrow> string option) \<Rightarrow> string \<Rightarrow> (tool_err, string) res" where
  "find_tool home d look_path name =
     (case tool_bin_dir home of
        Some b \<Rightarrow>
          if map_of d name \<noteq> None then Inr (join_path [b, name])
          else (case look_path name of Some p \<Rightarrow> Inr p | None \<Rightarrow> Inl (Tool_Not_Found name))
      | None \<Rightarrow> (case look_path name of Some p \<Rightarrow> Inr p | None \<Rightarrow> Inl (Tool_Not_Found name)))"

text \<open>What \<open>Run\<close> and \<open>Start\<close> execute.\<close>

definition tool_argv ::
    "string option \<Rightarrow> 'b bin_dir \<Rightarrow> (string \<Rightarrow> string option) \<Rightarrow> string \<Rightarrow> string list \<Rightarrow> (tool_err, string list) res" where
  "tool_argv home d look_path name args =
     (if lookup_tool name = None then Inl (Unknown_Managed_Tool name)
      else and_then (find_tool home d look_path name) (\<lambda>b. Inr (b # args)))"

section \<open>Installing and upgrading\<close>

text \<open>A fetch either leaves the directory as it was or puts the published binary in place.\<close>

lemma fetch_latest_ends:
  "case fetch_latest writable rel name d of
     (Inl e, d') \<Rightarrow> map_of d' = map_of d \<and> (e = No_Release_Asset \<longleftrightarrow> rel = Nothing_Published \<and> (map_of d name \<noteq> None \<or> writable))
   | (Inr v, d') \<Rightarrow> \<exists>b. rel = Published v (Some b) \<and> map_of d' = (map_of d)(name \<mapsto> Binary b)"
  by (cases rel)
    (auto simp: fetch_latest_def Let_def update_conv delete_conv fun_upd_idem split: option.splits)

text \<open>
  An installation ends with the directory as it was, or with one more binary: the one the release
  publishes, whose signature was accepted, or one built from source, which happens only when nothing
  is published for the platform, Go is there and the environment allows it. Two refusals leave the
  directory changed: a signature that is refused, and a link that cannot be made.
\<close>

theorem install_ends:
  "case install_into goos codesign writable rel allow s name d of
     (Inl e, d') \<Rightarrow> map_of d' = map_of d \<or> e = Not_Symlinked \<or> (\<exists>x. e = Refused_Signature x)
   | (Inr v, d') \<Rightarrow> \<exists>b. map_of d' = (map_of d)(name \<mapsto> Binary b)
       \<and> (if rel = Nothing_Published then sb_go s \<and> source_install_allowed allow \<and> sb_binary s = Some b
          else rel = Published v (Some b) \<and> is_ok (verify_signature goos (codesign (Binary b))))"
proof -
  obtain r d1 where f: "fetch_latest writable rel name d = (r, d1)" by fastforce
  show ?thesis
  proof (cases r)
    case (Inl e)
    then show ?thesis
      using f fetch_latest_ends [where writable = writable and rel = rel and name = name and d = d]
      by (auto simp: install_into_def install_via_go_def update_conv delete_conv Let_def split: option.splits)
  next
    case (Inr v)
    then obtain b where "rel = Published v (Some b)" "map_of d1 = (map_of d)(name \<mapsto> Binary b)"
      using f fetch_latest_ends [where writable = writable and rel = rel and name = name and d = d] by auto
    then show ?thesis
      using f Inr by (auto simp: install_into_def split: sum.splits)
  qed
qed

text \<open>A binary whose signature is refused stays where the next run finds it.\<close>

lemma refused_binary_stays:
  assumes "verify_signature goos (codesign (Binary b)) = Inl e" "home = Some h"
  shows "\<exists>d'. install_into goos codesign True (Published v (Some b)) allow s name d = (Inl (Refused_Signature e), d')
    \<and> map_of d' name = Some (Binary b) \<and> find_tool home d' look_path name = Inr (join_path [join_path [h, ''.lezz'', ''bin''], name])"
  using assms
  by (auto simp: install_into_def fetch_latest_def Let_def update_conv find_tool_def tool_bin_dir_def)

lemma other_team_refused:
  "verify_signature ''darwin'' (''Authority=Developer ID Application: X'' @ [CHR 0x0A] @ ''TeamIdentifier=Y'', True) = Inl (Other_Team ''Y'')"
  by code_simp

text \<open>
  An upgrade that reports no change left the directory alone, and the installed version could be
  compared and was not older than the release; one that reports a change put the published binary in
  place of that tool only, its signature was accepted, and the tool was missing, unreadable or older.
\<close>

theorem upgrade_decides:
  "case upgrade_into ops goos codesign ask writable rel rel' name d of
     (Inl e, d') \<Rightarrow> map_of d' = map_of d \<or> (\<exists>x. e = Refused_Signature x)
   | (Inr r, d') \<Rightarrow>
       (case installed_version ops ask name d of
          None \<Rightarrow> ur_changed r
        | Some i \<Rightarrow> (if i = [] then ur_changed r else (\<exists>latest. latest_version ops rel = Inr latest \<and> vo_newer ops latest i = Some (ur_changed r))))
       \<and> (if ur_changed r
          then \<exists>v b. rel' = Published v (Some b) \<and> is_ok (verify_signature goos (codesign (Binary b)))
            \<and> map_of d' = (map_of d)(name \<mapsto> Binary b)
          else d' = d)"
proof (cases "latest_version ops rel")
  case (Inl e)
  then show ?thesis by (simp add: upgrade_into_def)
next
  case latest: (Inr latest)
  show ?thesis
  proof (cases "wants_download ops latest (installed_version ops ask name d)")
    case (Inl e)
    then show ?thesis using latest by (simp add: upgrade_into_def Let_def)
  next
    case w: (Inr gn)
    obtain go n where gn: "gn = (go, n)" by fastforce
    have dec: "case installed_version ops ask name d of None \<Rightarrow> go
        | Some i \<Rightarrow> (if i = [] then go else vo_newer ops latest i = Some go)"
      using w gn by (auto simp: wants_download_def split: option.splits if_splits)
    obtain r d1 where f: "fetch_latest writable rel' name d = (r, d1)" by fastforce
    show ?thesis
    proof (cases "\<not> go")
      case True
      then show ?thesis
        using latest w gn dec by (auto simp: upgrade_into_def Let_def split: option.splits if_splits)
    next
      case go: False
      show ?thesis
      proof (cases r)
        case (Inl e)
        then show ?thesis
          using latest w gn go f fetch_latest_ends [where writable = writable and rel = rel' and name = name and d = d] by (simp add: upgrade_into_def Let_def)
      next
        case (Inr v)
        then obtain b where b: "rel' = Published v (Some b)" "map_of d1 = (map_of d)(name \<mapsto> Binary b)"
          using f fetch_latest_ends [where writable = writable and rel = rel' and name = name and d = d] by auto
        then show ?thesis
          using latest w gn go f Inr dec
          by (cases "verify_signature goos (codesign (Binary b))")
            (auto simp: upgrade_into_def Let_def split: option.splits if_splits)
      qed
    qed
  qed
qed

section \<open>Purging\<close>

lemma purge_each_ends:
  assumes "purge_each stuck ts r d = (q, d')" "distinct (map tl_name ts)"
  shows "map_of d' ''lezz'' = map_of d ''lezz''
    \<and> (case q of Inl _ \<Rightarrow> True
       | Inr r' \<Rightarrow> mset (pu_removed r' @ pu_missing r') = mset (pu_removed r @ pu_missing r @ filter (\<lambda>n. n \<noteq> ''lezz'') (map tl_name ts))
           \<and> (\<forall>n \<in> set (map tl_name ts). n \<noteq> ''lezz'' \<longrightarrow> map_of d' n = None)
           \<and> (\<forall>n. map_of d n = None \<longrightarrow> map_of d' n = None))"
  using assms
proof (induction stuck ts r d rule: purge_each.induct)
  case (2 stuck t ts r d)
  show ?case
  proof (cases "tl_name t = ''lezz''")
    case True
    then show ?thesis using 2 by (auto split: sum.splits)
  next
    case nl: False
    show ?thesis
    proof (cases "map_of d (tl_name t)")
      case None
      then show ?thesis using 2 nl by (auto split: sum.splits)
    next
      case (Some f)
      then show ?thesis using 2 nl by (auto simp: delete_conv split: sum.splits if_splits)
    qed
  qed
qed (auto split: sum.splits)

text \<open>
  A purge never touches lezz itself; one that ends well has dealt with every other tool exactly
  once, removed or missing, and none of them is left.
\<close>

theorem purge_spares_lezz:
  "case purge_bins stuck d of (q, d') \<Rightarrow>
     map_of d' ''lezz'' = map_of d ''lezz''
     \<and> (case q of Inl _ \<Rightarrow> True
        | Inr r \<Rightarrow> mset (pu_removed r @ pu_missing r) = mset (filter (\<lambda>n. n \<noteq> ''lezz'') tool_names)
            \<and> list_all (\<lambda>n. map_of d' n = None) (filter (\<lambda>n. n \<noteq> ''lezz'') tool_names))"
proof -
  obtain q d' where p: "purge_each stuck tool_registry \<lparr>pu_removed = [], pu_missing = []\<rparr> d = (q, d')" by fastforce
  have "distinct (map tl_name tool_registry)" by (simp add: tool_registry_def)
  from purge_each_ends [OF p this] show ?thesis
    by (auto simp: purge_bins_def p tool_names_def list_all_iff split: sum.splits)
qed

section \<open>Reading a version\<close>

lemma digits_then_dec: "digits_then (dec n @ ''.'' @ s) = Some (dec n @ ''.'', s)"
proof -
  have "takeWhile is_digit (dec n @ ''.'' @ s) = dec n" "dropWhile is_digit (dec n @ ''.'' @ s) = ''.'' @ s"
    using dec_digits [of _ n] by (auto simp: takeWhile_append dropWhile_append is_digit_def digit_val_def)
  then show ?thesis by (simp add: digits_then_def)
qed

lemma version_here_dec:
  "version_here (''v'' @ dec a @ ''.'' @ dec b @ ''.'' @ dec c) = Some (''v'' @ dec a @ ''.'' @ dec b @ ''.'' @ dec c)"
proof -
  have t: "takeWhile is_digit (dec c) = dec c" "dropWhile is_digit (dec c) = []"
    using dec_digits [of _ c] by (simp_all add: takeWhile_eq_all_conv dropWhile_eq_Nil_conv)
  have d: "digits_then (dec n @ CHR ''.'' # s) = Some (dec n @ ''.'', s)" for n s
    using digits_then_dec [of n s] by simp
  show ?thesis by (simp add: version_here_def version_suffix_def t d)
qed

text \<open>
  The version a tool prints after its own name is the one that is read, as long as the name has
  no digit in it.
\<close>

theorem printed_version_is_read:
  assumes "list_all (\<lambda>c. \<not> is_digit c) name"
  shows "version_token (name @ '' v'' @ dec a @ ''.'' @ dec b @ ''.'' @ dec c) = Some (''v'' @ dec a @ ''.'' @ dec b @ ''.'' @ dec c)"
proof -
  have no: "digits_then (x # s) = None" if "\<not> is_digit x" for x s using that by (simp add: digits_then_def)
  have here: "version_here (x # y # s) = None" if "\<not> is_digit x" "\<not> is_digit y" for x y s
    using that no by (simp add: version_here_def)
  have "version_token (n @ '' v'' @ s) = version_token (''v'' @ s)" if "list_all (\<lambda>c. \<not> is_digit c) n" for n s
    using that
  proof (induction n)
    case Nil
    then show ?case using here [of "CHR '' ''" "CHR ''v''"] by (simp add: is_digit_def digit_val_def)
  next
    case (Cons x n)
    obtain y r where y: "n @ '' v'' @ s = y # r" "\<not> is_digit y"
      using Cons.prems by (cases n) (auto simp: is_digit_def digit_val_def)
    then show ?case using Cons here [of x y r] by simp
  qed
  from this [OF assms] show ?thesis using version_here_dec [of a b c] by simp
qed

theorem printed_version_is_read_witness:
  "version_token (''adhd'' @ '' v'' @ dec 0 @ ''.'' @ dec 8 @ ''.'' @ dec 6) = Some (''v'' @ dec 0 @ ''.'' @ dec 8 @ ''.'' @ dec 6)"
  by (rule printed_version_is_read) (simp add: is_digit_def digit_val_def)

text \<open>A tool named with a version of its own hides the one it prints.\<close>

lemma name_with_version: "version_token ''tool1.2.3 v4.5.6'' = Some ''1.2.3''"
  by code_simp

end
