(* ===== verification/McpMessage.thy ===== *)
theory McpMessage
  imports JsonValue
begin

text \<open>
  The messages of the small MCP servers (\<open>internal/anon\<close>, \<open>internal/mcpwrapper\<close>): the decoded request
  of \<open>rpcRequest\<close> and the two kinds of reply. An identifier is the text of a raw message; a request
  without one is a notification.
\<close>

record mcp_request =
  mq_id :: "string option"
  mq_method :: string
  mq_params :: "json option"

datatype mcp_reply =
    Not_Post
  | Notified
  | Reply_Error "string option" int string
  | Reply_Result string json

text \<open>\<open>initialize\<close>: the version of the protocol, the capabilities and the name of the server.\<close>

definition mcp_version :: string where "mcp_version = ''2025-06-18''"

definition server_info :: "string \<Rightarrow> string \<Rightarrow> json" where
  "server_info name version = JObj [(''name'', JStr name), (''version'', JStr version)]"

end
