(* ===== verification/DebugLease.thy ===== *)
theory DebugLease
  imports JsonValue GoText Paths TimeText
begin

text \<open>
  Debug leases (\<open>internal/debuglease/lease.go\<close>): a lease is a signed, time-boxed permission to open a
  debug surface. \<open>ssh-keygen\<close> is a parameter (what it accepts, what it signs, what it generates), so
  is the text form of JSON; the decoding of a JSON value into a lease is modelled.
\<close>

section \<open>Leases\<close>

record lease =
  ls_version :: int
  ls_seed :: string
  ls_actions :: "string list"
  ls_not_before :: time
  ls_not_after :: time
  ls_tick :: int
  ls_signer :: string
  ls_nonce :: string

definition lease_namespace :: string where "lease_namespace = ''lezz-debug''"

definition seed_name :: "string \<Rightarrow> bool" where
  "seed_name s \<longleftrightarrow> s \<noteq> [] \<and> list_all (\<lambda>c. is_alnum c \<or> c \<in> set ''_.-'') s"

definition allowed_actions :: "string list" where
  "allowed_actions = [''observe'', ''explain'', ''shadow'']"

definition new_lease :: "string \<Rightarrow> string list \<Rightarrow> duration \<Rightarrow> string \<Rightarrow> time \<Rightarrow> lease" where
  "new_lease seed acts ttl signer now = \<lparr>ls_version = 1, ls_seed = seed, ls_actions = acts, ls_not_before = now,
     ls_not_after = now + ttl, ls_tick = 0, ls_signer = signer, ls_nonce = []\<rparr>"

datatype lease_err =
    Bad_Version int
  | Bad_Seed string
  | No_Actions
  | Bad_Action string
  | No_Signer
  | Bad_Window
  | No_Identity
  | No_Signature
  | No_Lease_File
  | Signature_Rejected
  | Bad_Lease_Json
  | Lease_Not_Encoded
  | Lease_Not_Written
  | Not_Signed_By_Tool
  | No_Signature_Made
  | Bad_User string
  | Keys_Not_Fetched
  | Keys_Status nat
  | No_Ssh_Keys
  | No_Usable_Keys
  | No_Key_Dir
  | Pin_Not_Written
  | Key_Not_Generated
  | Key_Mode
  | No_Public_Key
  | Allowed_Not_Written

definition validate_lease :: "lease \<Rightarrow> (lease_err, unit) res" where
  "validate_lease l =
     (if ls_version l \<noteq> 1 then Inl (Bad_Version (ls_version l))
      else if \<not> seed_name (ls_seed l) then Inl (Bad_Seed (ls_seed l))
      else if ls_actions l = [] then Inl No_Actions
      else
        (case find (\<lambda>a. a \<notin> set allowed_actions) (ls_actions l) of
           Some a \<Rightarrow> Inl (Bad_Action a)
         | None \<Rightarrow>
             if ls_signer l = [] then Inl No_Signer
             else if is_zero (ls_not_after l) \<or> \<not> ls_not_before l < ls_not_after l then Inl Bad_Window
             else Inr ()))"

definition lease_active :: "lease \<Rightarrow> time \<Rightarrow> bool" where
  "lease_active l now \<longleftrightarrow> \<not> now < ls_not_before l \<and> now < ls_not_after l"

section \<open>The JSON form\<close>

text \<open>An \<open>int64\<close> from the text of a number, and a time with its offset.\<close>

definition int_of_number :: "string \<Rightarrow> int option" where
  "int_of_number s =
     (let neg = (s \<noteq> [] \<and> hd s = CHR ''-'') in
      case undec (if neg then tl s else s) of
        None \<Rightarrow> None
      | Some n \<Rightarrow>
          (let i = (if neg then - int n else int n) in
           if - 9223372036854775808 \<le> i \<and> i \<le> 9223372036854775807 then Some i else None))"

definition offset_of :: "string \<Rightarrow> int option" where
  "offset_of z =
     (if length z \<noteq> 6 \<or> hd z \<notin> {CHR ''+'', CHR ''-''} \<or> z ! 3 \<noteq> CHR '':'' then None
      else
        (case (undec (take 2 (drop 1 z)), undec (drop 4 z)) of
           (Some h, Some m) \<Rightarrow>
             if h \<le> 23 \<and> m \<le> 59 then Some ((if hd z = CHR ''-'' then - 1 else 1) * int (h * 60 + m) * 60 * second) else None
         | _ \<Rightarrow> None))"

definition json_time :: "string \<Rightarrow> time option" where
  "json_time s =
     (case parse_rfc3339 s of
        Some t \<Rightarrow> Some t
      | None \<Rightarrow>
          (let n = length s - 6 in
           case (offset_of (drop n s), parse_rfc3339 (take n s @ ''Z'')) of
             (Some off, Some t) \<Rightarrow> Some (t - off)
           | _ \<Rightarrow> None))"

text \<open>A list of strings; a \<open>null\<close> element is the empty string (one that repeats a key, where the
  element keeps an earlier value, is not modelled).\<close>

fun string_list :: "json list \<Rightarrow> string list option" where
  "string_list [] = Some []"
| "string_list (j # js) =
     (case j of
        JStr s \<Rightarrow> map_option (\<lambda>r. s # r) (string_list js)
      | JNull \<Rightarrow> map_option (\<lambda>r. [] # r) (string_list js)
      | _ \<Rightarrow> None)"

text \<open>One key of the object; \<open>null\<close> leaves a field alone, but for the list, which it empties.\<close>

definition on_string :: "(string \<Rightarrow> lease) \<Rightarrow> json \<Rightarrow> lease \<Rightarrow> lease option" where
  "on_string f v l = (case v of JStr s \<Rightarrow> Some (f s) | JNull \<Rightarrow> Some l | _ \<Rightarrow> None)"

definition on_number :: "(int \<Rightarrow> lease) \<Rightarrow> json \<Rightarrow> lease \<Rightarrow> lease option" where
  "on_number f v l = (case v of JNum s \<Rightarrow> map_option f (int_of_number s) | JNull \<Rightarrow> Some l | _ \<Rightarrow> None)"

definition on_time :: "(time \<Rightarrow> lease) \<Rightarrow> json \<Rightarrow> lease \<Rightarrow> lease option" where
  "on_time f v l = (case v of JStr s \<Rightarrow> map_option f (json_time s) | JNull \<Rightarrow> Some l | _ \<Rightarrow> None)"

definition on_list :: "(string list \<Rightarrow> lease) \<Rightarrow> json \<Rightarrow> lease \<Rightarrow> lease option" where
  "on_list f v l = (case v of JArr js \<Rightarrow> map_option f (string_list js) | JNull \<Rightarrow> Some (f []) | _ \<Rightarrow> None)"

definition lease_field :: "string \<Rightarrow> json \<Rightarrow> lease \<Rightarrow> lease option" where
  "lease_field k v l =
     (if same_field k ''version'' then on_number (\<lambda>i. l\<lparr>ls_version := i\<rparr>) v l
      else if same_field k ''seed_id'' then on_string (\<lambda>s. l\<lparr>ls_seed := s\<rparr>) v l
      else if same_field k ''actions'' then on_list (\<lambda>as. l\<lparr>ls_actions := as\<rparr>) v l
      else if same_field k ''not_before'' then on_time (\<lambda>t. l\<lparr>ls_not_before := t\<rparr>) v l
      else if same_field k ''not_after'' then on_time (\<lambda>t. l\<lparr>ls_not_after := t\<rparr>) v l
      else if same_field k ''tick'' then on_number (\<lambda>i. l\<lparr>ls_tick := i\<rparr>) v l
      else if same_field k ''signer'' then on_string (\<lambda>s. l\<lparr>ls_signer := s\<rparr>) v l
      else if same_field k ''nonce'' then on_string (\<lambda>s. l\<lparr>ls_nonce := s\<rparr>) v l
      else Some l)"

fun lease_fields :: "(string \<times> json) list \<Rightarrow> lease \<Rightarrow> lease option" where
  "lease_fields [] l = Some l"
| "lease_fields ((k, v) # kvs) l = (case lease_field k v l of None \<Rightarrow> None | Some l' \<Rightarrow> lease_fields kvs l')"

definition no_lease :: lease where
  "no_lease = \<lparr>ls_version = 0, ls_seed = [], ls_actions = [], ls_not_before = 0, ls_not_after = 0, ls_tick = 0,
     ls_signer = [], ls_nonce = []\<rparr>"

definition decode_lease :: "json \<Rightarrow> lease option" where
  "decode_lease j = (case j of JObj kvs \<Rightarrow> lease_fields kvs no_lease | JNull \<Rightarrow> Some no_lease | _ \<Rightarrow> None)"

text \<open>\<open>MarshalJSON\<close> of a time fails beyond the year 9999.\<close>

definition encode_lease :: "lease \<Rightarrow> json option" where
  "encode_lease l =
     (if \<not> year_4_digits (ls_not_before l) \<or> \<not> year_4_digits (ls_not_after l) then None
      else Some (JObj (
        [(''version'', JNum (dec_int (ls_version l))), (''seed_id'', JStr (ls_seed l)),
         (''actions'', JArr (map JStr (ls_actions l))), (''not_before'', JStr (rfc3339 (ls_not_before l))),
         (''not_after'', JStr (rfc3339 (ls_not_after l)))]
        @ (if ls_tick l = 0 then [] else [(''tick'', JNum (dec_int (ls_tick l)))])
        @ [(''signer'', JStr (ls_signer l))]
        @ (if ls_nonce l = [] then [] else [(''nonce'', JStr (ls_nonce l))]))))"

section \<open>Files\<close>

text \<open>\<open>parse\<close> and \<open>render\<close> are the text form of JSON, and \<open>ok\<close> whether the write works: one that
  fails leaves a truncated file, since it is not atomic.\<close>

definition load_lease :: "(string \<Rightarrow> json option) \<Rightarrow> string option \<Rightarrow> (lease_err, lease) res" where
  "load_lease parse data =
     (case data of
        None \<Rightarrow> Inl No_Lease_File
      | Some s \<Rightarrow>
          (case parse s of
             None \<Rightarrow> Inl Bad_Lease_Json
           | Some j \<Rightarrow>
               (case decode_lease j of
                  None \<Rightarrow> Inl Bad_Lease_Json
                | Some l \<Rightarrow> and_then (validate_lease l) (\<lambda>_. Inr l))))"

definition write_lease ::
    "(json \<Rightarrow> string) \<Rightarrow> bool \<Rightarrow> lease \<Rightarrow> string \<Rightarrow> (string, string) table \<Rightarrow> (lease_err, unit) res \<times> (string, string) table" where
  "write_lease render ok l path d =
     (case validate_lease l of
        Inl e \<Rightarrow> (Inl e, d)
      | Inr _ \<Rightarrow>
          (case encode_lease l of
             None \<Rightarrow> (Inl Lease_Not_Encoded, d)
           | Some j \<Rightarrow>
               if ok then (Inr (), AList.update path (render j @ [CHR 0x0A]) d)
               else (Inl Lease_Not_Written, AList.update path [] d)))"

text \<open>\<open>accepts\<close> is what \<open>ssh-keygen -Y verify\<close> says of an identity, a namespace, the signature and the
  data. The lease is opened for the check and read again afterwards.\<close>

definition verify_lease ::
    "(string \<Rightarrow> string \<Rightarrow> string \<Rightarrow> string \<Rightarrow> bool) \<Rightarrow> (string \<Rightarrow> json option) \<Rightarrow> string
     \<Rightarrow> string option \<Rightarrow> string option \<Rightarrow> string option \<Rightarrow> (lease_err, lease) res" where
  "verify_lease accepts parse identity sig opened reread =
     (if identity = [] then Inl No_Identity
      else
        (case sig of
           None \<Rightarrow> Inl No_Signature
         | Some s \<Rightarrow>
             (case opened of
                None \<Rightarrow> Inl No_Lease_File
              | Some data \<Rightarrow>
                  if \<not> accepts identity lease_namespace s data then Inl Signature_Rejected else load_lease parse reread)))"

text \<open>The signature of \<open>ssh-keygen -Y sign\<close> is made beside the lease. \<open>removable\<close> is whether the old one
  can be removed; \<open>sign\<close> gives the exit status and what the signature file is afterwards.\<close>

definition sig_path :: "string \<Rightarrow> string" where "sig_path p = p @ ''.sig''"

definition sign_lease ::
    "(string \<Rightarrow> string option \<Rightarrow> string option \<Rightarrow> bool \<times> string option) \<Rightarrow> bool \<Rightarrow> string
     \<Rightarrow> (string, string) table \<Rightarrow> (lease_err, unit) res \<times> (string, string) table" where
  "sign_lease sign removable path d =
     (let sp = sig_path path; d1 = (if removable then AList.delete sp d else d);
          (ok, made) = sign lease_namespace (map_of d1 path) (map_of d1 sp);
          d2 = (case made of None \<Rightarrow> AList.delete sp d1 | Some s \<Rightarrow> AList.update sp s d1) in
      if \<not> ok then (Inl Not_Signed_By_Tool, d2)
      else if map_of d2 sp = None then (Inl No_Signature_Made, d2)
      else (Inr (), d2))"

section \<open>Allowed signers\<close>

definition allowed_line :: "string \<Rightarrow> string \<Rightarrow> string" where
  "allowed_line identity pub = identity @ '' namespaces='' @ go_quote lease_namespace @ '' '' @ trim_space pub @ [CHR 0x0A]"

text \<open>What GitHub answers: nothing, or a status with a body and whether it can be read.\<close>

definition max_keys :: nat where "max_keys = 2 ^ 20"

definition fetch_keys :: "(string \<Rightarrow> (nat \<times> string option) option) \<Rightarrow> string \<Rightarrow> (lease_err, string) res" where
  "fetch_keys net user =
     (if \<not> seed_name user then Inl (Bad_User user)
      else
        (case net (''https://github.com/'' @ user @ ''.keys'') of
           None \<Rightarrow> Inl Keys_Not_Fetched
         | Some (status, b) \<Rightarrow>
             if status \<noteq> 200 then Inl (Keys_Status status)
             else
               (case b of
                  None \<Rightarrow> Inl Keys_Not_Fetched
                | Some body \<Rightarrow>
                    if \<not> contains (take max_keys body) ''ssh-'' then Inl No_Ssh_Keys else Inr (take max_keys body))))"

definition pin_path :: "string \<Rightarrow> string \<Rightarrow> string" where
  "pin_path dir user = join_path [dir, ''github-'' @ user @ ''.allowed'']"

definition key_lines :: "string \<Rightarrow> string list" where
  "key_lines body = filter (\<lambda>l. l \<noteq> []) (map trim_space (lines body))"

definition fetch_and_pin ::
    "bool \<Rightarrow> (string \<Rightarrow> (nat \<times> string option) option) \<Rightarrow> bool \<Rightarrow> string \<Rightarrow> string \<Rightarrow> bool \<Rightarrow> (string, string) table
     \<Rightarrow> (lease_err, string) res \<times> (string, string) table" where
  "fetch_and_pin made net ok dir user refresh d =
     (let p = pin_path dir user in
      if \<not> made then (Inl No_Key_Dir, d)
      else if \<not> refresh \<and> map_of d p \<noteq> None then (Inr p, d)
      else
        (case fetch_keys net user of
           Inl e \<Rightarrow> (Inl e, d)
         | Inr body \<Rightarrow>
             (let b = concat (map (allowed_line user) (key_lines body)) in
              if b = [] then (Inl No_Usable_Keys, d)
              else if ok then (Inr p, AList.update p b d)
              else (Inl Pin_Not_Written, AList.update p [] d))))"

text \<open>The local key. \<open>gen\<close> is what \<open>ssh-keygen\<close> generates.\<close>

record key_dir =
  kd_key :: "string option"
  kd_pub :: "string option"
  kd_allowed :: "string option"

definition ensure_default_key ::
    "(string \<times> string) option \<Rightarrow> bool \<Rightarrow> bool \<Rightarrow> bool \<Rightarrow> key_dir \<Rightarrow> (lease_err, unit) res \<times> key_dir" where
  "ensure_default_key gen made chmod ok d =
     next_do (or_fail made No_Key_Dir, d) (\<lambda>_ d.
     next_do (case kd_key d of
         Some _ \<Rightarrow> (Inr (), d)
       | None \<Rightarrow> (case gen of None \<Rightarrow> (Inl Key_Not_Generated, d) | Some (k, p) \<Rightarrow> (Inr (), d\<lparr>kd_key := Some k, kd_pub := Some p\<rparr>)))
       (\<lambda>_ d1.
     next_do (or_fail chmod Key_Mode, d1) (\<lambda>_ d2.
       (case kd_pub d2 of
          None \<Rightarrow> (Inl No_Public_Key, d2)
        | Some pub \<Rightarrow>
            (case kd_allowed d2 of
               Some _ \<Rightarrow> (Inr (), d2)
             | None \<Rightarrow>
                 if ok then (Inr (), d2\<lparr>kd_allowed := Some (allowed_line ''local'' pub)\<rparr>)
                 else (Inl Allowed_Not_Written, d2\<lparr>kd_allowed := Some []\<rparr>))))))"

section \<open>What a lease that is accepted is\<close>

lemma validate_lease_Inr:
  "validate_lease l = Inr u \<longleftrightarrow> ls_version l = 1 \<and> seed_name (ls_seed l) \<and> ls_actions l \<noteq> []
    \<and> list_all (\<lambda>a. a \<in> set allowed_actions) (ls_actions l) \<and> ls_signer l \<noteq> [] \<and> \<not> is_zero (ls_not_after l)
    \<and> ls_not_before l < ls_not_after l"
proof (cases "find (\<lambda>a. a \<notin> set allowed_actions) (ls_actions l)")
  case None
  moreover from None have "list_all (\<lambda>a. a \<in> set allowed_actions) (ls_actions l)" by (auto simp: find_None_iff list_all_iff)
  ultimately show ?thesis by (simp add: validate_lease_def)
next
  case (Some a)
  then have "a \<in> set (ls_actions l) \<and> a \<notin> set allowed_actions" by (auto simp: find_Some_iff)
  then have "\<not> list_all (\<lambda>a. a \<in> set allowed_actions) (ls_actions l)" by (auto simp: list_all_iff)
  then show ?thesis using Some by (simp add: validate_lease_def)
qed

lemma load_lease_Inr:
  "load_lease parse data = Inr l \<longleftrightarrow> (\<exists>s j. data = Some s \<and> parse s = Some j \<and> decode_lease j = Some l \<and> validate_lease l = Inr ())"
  by (auto simp: load_lease_def and_then_Inr split: option.splits)

lemma verify_lease_Inr:
  "verify_lease accepts parse identity sig opened reread = Inr l \<longleftrightarrow>
    identity \<noteq> [] \<and> (\<exists>s data. sig = Some s \<and> opened = Some data \<and> accepts identity lease_namespace s data)
    \<and> load_lease parse reread = Inr l"
  by (auto simp: verify_lease_def split: option.splits)

text \<open>
  A lease that is accepted was read from a file, and a signature of the given identity for the
  namespace of debug leases was accepted over what the file was when it was opened; the lease names a
  seed, only allowed actions, a signer and a window that is not empty.
\<close>

theorem accepted_lease_is_signed:
  "case verify_lease accepts parse identity sig opened reread of
     Inl e \<Rightarrow> True
   | Inr l \<Rightarrow> identity \<noteq> [] \<and> (\<exists>s data. sig = Some s \<and> opened = Some data \<and> accepts identity lease_namespace s data)
       \<and> (\<exists>s j. reread = Some s \<and> parse s = Some j \<and> decode_lease j = Some l)
       \<and> seed_name (ls_seed l) \<and> ls_actions l \<noteq> [] \<and> list_all (\<lambda>a. a \<in> set allowed_actions) (ls_actions l)
       \<and> ls_signer l \<noteq> [] \<and> ls_not_before l < ls_not_after l"
  by (auto simp: verify_lease_Inr load_lease_Inr validate_lease_Inr split: sum.splits)

section \<open>Round trips\<close>

lemma int_of_number_dec: "- 9223372036854775808 \<le> i \<Longrightarrow> i \<le> 9223372036854775807 \<Longrightarrow> int_of_number (dec_int i) = Some i"
proof (cases "i < 0")
  case True
  then show "- 9223372036854775808 \<le> i \<Longrightarrow> i \<le> 9223372036854775807 \<Longrightarrow> int_of_number (dec_int i) = Some i"
    by (simp add: int_of_number_def dec_int_def)
next
  case False
  have "hd (dec (nat i)) \<noteq> CHR ''-''"
    using dec_digits [of "hd (dec (nat i))" "nat i"] by (auto simp: is_digit_def digit_val_def)
  then show "- 9223372036854775808 \<le> i \<Longrightarrow> i \<le> 9223372036854775807 \<Longrightarrow> int_of_number (dec_int i) = Some i"
    using False by (simp add: int_of_number_def dec_int_def)
qed

lemma json_time_rfc3339: "year_4_digits t \<Longrightarrow> json_time (rfc3339 t) = Some t"
  by (simp add: json_time_def parse_rfc3339_rfc3339)

lemma string_list_map: "string_list (map JStr ss) = Some ss"
  by (induction ss) auto

definition int64 :: "int \<Rightarrow> bool" where
  "int64 i \<longleftrightarrow> - 9223372036854775808 \<le> i \<and> i \<le> 9223372036854775807"

lemmas lease_decode = decode_lease_def lease_field_def same_field_def lower_def lower_char_def on_number_def on_string_def
  on_time_def on_list_def no_lease_def

lemma decode_encode_lease:
  "encode_lease l = Some j \<Longrightarrow> int64 (ls_version l) \<Longrightarrow> int64 (ls_tick l) \<Longrightarrow> decode_lease j = Some l"
  by (auto simp: encode_lease_def lease_decode int_of_number_dec int64_def json_time_rfc3339 string_list_map split: if_splits)

lemma sig_path_other: "sig_path p \<noteq> p"
  by (simp add: sig_path_def)

text \<open>
  A lease that was written and then signed verifies, and reads back as the lease it was, when
  the text form of JSON is faithful on it and the signing key is one the identity is allowed.
\<close>

theorem signed_lease_verifies:
  assumes "write_lease render True l path d = (Inr (), d1)" "sign_lease sign True path d1 = (Inr (), d2)"
    and "\<And>j. encode_lease l = Some j \<Longrightarrow> parse (render j @ [CHR 0x0A]) = Some j"
    and "\<And>data s. sign lease_namespace (Some data) None = (True, Some s) \<Longrightarrow> accepts identity lease_namespace s data"
    and "identity \<noteq> []" "int64 (ls_tick l)"
  shows "verify_lease accepts parse identity (map_of d2 (sig_path path)) (map_of d2 path) (map_of d2 path) = Inr l"
proof -
  obtain j where v: "validate_lease l = Inr ()" and j: "encode_lease l = Some j" and d1: "d1 = AList.update path (render j @ [CHR 0x0A]) d"
    using assms(1) by (auto simp: write_lease_def split: sum.splits option.splits)
  obtain ok made where s: "sign lease_namespace (Some (render j @ [CHR 0x0A])) None = (ok, made)" by fastforce
  have "ok" "made = map_of d2 (sig_path path)" "made \<noteq> None" "map_of d2 path = Some (render j @ [CHR 0x0A])"
    using assms(2) s d1 sig_path_other [of path]
    by (auto simp: sign_lease_def Let_def split: if_splits option.splits)
  moreover have "decode_lease j = Some l"
    using decode_encode_lease [OF j] v assms(6) by (simp add: validate_lease_Inr int64_def)
  ultimately show ?thesis
    using s v assms(3) [OF j] assms(4) [of "render j @ [CHR 0x0A]"] assms(5)
    by (auto simp: verify_lease_Inr load_lease_Inr)
qed

definition sample_lease :: lease where
  "sample_lease = new_lease ''seed-1'' [''observe''] second ''local'' second"

lemma sample_encodes: "\<exists>j. encode_lease sample_lease = Some j"
proof -
  have "year_4_digits second" "year_4_digits (second + second)" by (simp_all add: year_4_digits_def civil_def year_yday_def ns_per_day_def Let_def)
  then show ?thesis by (simp add: encode_lease_def sample_lease_def new_lease_def)
qed

lemma sample_tick: "ls_tick sample_lease = 0"
  by (simp add: sample_lease_def new_lease_def)

lemma sample_valid: "validate_lease sample_lease = Inr ()"
  by code_simp

theorem signed_lease_verifies_witness:
  "verify_lease (\<lambda>i n s d. s = ''sig'') (\<lambda>_. encode_lease sample_lease) ''local'' (Some ''sig'') (Some (''{}'' @ [CHR 0x0A])) (Some (''{}'' @ [CHR 0x0A])) = Inr sample_lease"
proof -
  obtain j where j: "encode_lease sample_lease = Some j" using sample_encodes by blast
  have "verify_lease (\<lambda>i n s d. s = ''sig'') (\<lambda>_. encode_lease sample_lease) ''local''
      (map_of [(''l'', ''{}'' @ [CHR 0x0A]), (''l.sig'', ''sig'')] (sig_path ''l''))
      (map_of [(''l'', ''{}'' @ [CHR 0x0A]), (''l.sig'', ''sig'')] ''l'')
      (map_of [(''l'', ''{}'' @ [CHR 0x0A]), (''l.sig'', ''sig'')] ''l'') = Inr sample_lease"
    by (rule signed_lease_verifies [where render = "\<lambda>_. ''{}''" and sign = "\<lambda>n d o'. (True, Some ''sig'')" and d = "[]"
          and ?d1.0 = "[(''l'', ''{}'' @ [CHR 0x0A])]"])
      (simp_all add: write_lease_def sample_valid j sign_lease_def sig_path_def sample_tick int64_def)
  then show ?thesis by (simp add: sig_path_def)
qed

section \<open>Keys\<close>

text \<open>
  The keys of a user are fetched once: a file that is there is used as it is, unless a refresh
  was asked; what is pinned is one line for each line GitHub gave, for a name that is a valid one;
  and a fetch that fails leaves the pinned file.
\<close>

theorem keys_pinned_once:
  "case fetch_and_pin made net ok dir user refresh d of
     (Inl e, d') \<Rightarrow> d' = d \<or> e = Pin_Not_Written
   | (Inr p, d') \<Rightarrow> p = pin_path dir user \<and>
       (if refresh \<or> map_of d p = None
        then seed_name user \<and> (\<exists>body. net (''https://github.com/'' @ user @ ''.keys'') = Some (200, Some body)
          \<and> key_lines (take max_keys body) \<noteq> []
          \<and> map_of d' = (map_of d)(p \<mapsto> concat (map (allowed_line user) (key_lines (take max_keys body)))))
        else d' = d)"
  by (auto simp: fetch_and_pin_def Let_def fetch_keys_def update_conv split: sum.splits option.splits if_splits)

text \<open>
  The local key and the file of allowed signers are never replaced; when the call succeeds they
  are all there, and a file of allowed signers that was missing names the public key.
\<close>

theorem default_key_kept:
  "case ensure_default_key gen made chmod ok d of (r, d') \<Rightarrow>
     (if kd_key d = None then True else kd_key d' = kd_key d \<and> kd_pub d' = kd_pub d)
     \<and> (if kd_allowed d = None then True else kd_allowed d' = kd_allowed d)
     \<and> (if is_ok r then kd_key d' \<noteq> None \<and> (\<exists>p. kd_pub d' = Some p
          \<and> (if kd_allowed d = None then kd_allowed d' = Some (allowed_line ''local'' p) else True)) else True)"
  by (cases gen; cases "kd_key d"; cases "kd_allowed d"; cases "kd_pub d")
    (auto simp: ensure_default_key_def or_fail_def split: if_splits)

section \<open>What modelling showed\<close>

text \<open>The lease that is used is read after the check: another one can be put in between.\<close>

lemma reread_is_not_checked:
  assumes "accepts identity lease_namespace s signed" "identity \<noteq> []" "load_lease parse (Some other) = Inr l"
  shows "verify_lease accepts parse identity (Some s) (Some signed) (Some other) = Inr l"
  using assms by (simp add: verify_lease_Inr)

text \<open>A write that fails leaves an empty file where the lease was.\<close>

lemma failed_write_truncates:
  "validate_lease l = Inr () \<Longrightarrow> encode_lease l = Some j \<Longrightarrow> map_of (snd (write_lease render False l path d)) path = Some []"
  by (simp add: write_lease_def)

text \<open>A new key beside an old file of allowed signers.\<close>

lemma stale_allowed_signers:
  "kd_key d = None \<Longrightarrow> kd_allowed d = Some old
    \<Longrightarrow> ensure_default_key (Some (k, p)) True True ok d = (Inr (), d\<lparr>kd_key := Some k, kd_pub := Some p\<rparr>)"
  by (simp add: ensure_default_key_def or_fail_def)

text \<open>The name is not checked before a file that is there is returned, and it may leave the directory.\<close>

lemma pinned_file_outside: "pin_path ''/h/keys'' ''x/../../y'' = ''/h/y.allowed''"
  by code_simp

end
