(* ===== verification/AnonSurface.thy ===== *)
theory AnonSurface
  imports McpMessage DebugLease "HOL-Library.Word"
begin

text \<open>
  The anonymous surface (\<open>internal/anon/anon.go\<close>): an MCP server with no tools, and a debug socket that
  is open while a verified lease is active. The socket is a state machine whose steps are the critical
  sections of the code: a reload, the two halves of an activation, the timers, and the removal of the
  socket file, in any order that the locks allow.
\<close>

section \<open>The empty server\<close>

record anon_config =
  ac_name :: string
  ac_listen :: string
  ac_socket :: string
  ac_lease_path :: string
  ac_identity :: string
  ac_seed :: string

definition new_anon :: "anon_config \<Rightarrow> anon_config" where
  "new_anon c =
     (let c1 = (if trim_space (ac_name c) = [] then c\<lparr>ac_name := ''anonymous''\<rparr> else c) in
      if ac_listen c1 = [] then c1\<lparr>ac_listen := ''127.0.0.1:0''\<rparr> else c1)"

record anon_counts =
  an_list_calls :: nat
  an_denied :: nat

text \<open>\<open>body\<close> is \<open>None\<close> when it does not decode. The name a caller attempted is only logged.\<close>

definition attempted_tool :: "json option \<Rightarrow> string" where
  "attempted_tool p = (case p of None \<Rightarrow> [] | Some j \<Rightarrow> (case decode_string_field ''name'' j of None \<Rightarrow> [] | Some n \<Rightarrow> n))"

datatype anon_event = Call_Denied string | Method_Denied string

definition handle_anon ::
    "anon_config \<Rightarrow> string \<Rightarrow> mcp_request option \<Rightarrow> anon_counts \<Rightarrow> mcp_reply \<times> anon_event list \<times> anon_counts" where
  "handle_anon c http_method body n =
     (if http_method \<noteq> ''POST'' then (Not_Post, [], n)
      else
        (case body of
           None \<Rightarrow> (Reply_Error None (- 32700) ''parse error'', [], n)
         | Some q \<Rightarrow>
             (case mq_id q of
                None \<Rightarrow> (Notified, [], n)
              | Some i \<Rightarrow>
                  if mq_method q = ''initialize'' then
                    (Reply_Result i (JObj [(''capabilities'', JObj [(''tools'', JObj [(''listChanged'', JBool False)])]),
                       (''protocolVersion'', JStr mcp_version), (''serverInfo'', server_info (ac_name c) ''0'')]), [], n)
                  else if mq_method q = ''ping'' then (Reply_Result i (JObj []), [], n)
                  else if mq_method q = ''tools/list'' then
                    (Reply_Result i (JObj [(''tools'', JArr [])]), [], n\<lparr>an_list_calls := an_list_calls n + 1\<rparr>)
                  else if mq_method q = ''tools/call'' then
                    (Reply_Error (Some i) (- 32601) ''method not found'', [Call_Denied (attempted_tool (mq_params q))],
                     n\<lparr>an_denied := an_denied n + 1\<rparr>)
                  else
                    (Reply_Error (Some i) (- 32601) ''method not found'', [Method_Denied (mq_method q)],
                     n\<lparr>an_denied := an_denied n + 1\<rparr>))))"

section \<open>The debug surface\<close>

text \<open>What a reload makes of the files of the lease: the lease to serve, or none.\<close>

definition reload_lease ::
    "(string \<Rightarrow> string \<Rightarrow> string \<Rightarrow> string \<Rightarrow> bool) \<Rightarrow> (string \<Rightarrow> json option) \<Rightarrow> anon_config
     \<Rightarrow> string option \<Rightarrow> string option \<Rightarrow> string option \<Rightarrow> time \<Rightarrow> lease option" where
  "reload_lease accepts parse c sig opened reread now =
     (if ac_lease_path c = [] then None
      else
        (case verify_lease accepts parse (ac_identity c) sig opened reread of
           Inl _ \<Rightarrow> None
         | Inr l \<Rightarrow>
             if ac_seed c \<noteq> [] \<and> ls_seed l \<noteq> ac_seed c then None
             else if \<not> lease_active l now then None
             else Some l))"

text \<open>Where the one goroutine that reloads is: between reloads, about to open the socket, or about to
  arm the timer of a lease and its generation.\<close>

datatype activation = Idle | Opening lease "64 word" | Arming lease "64 word"

record surface =
  sf_now :: time
  sf_lease :: "lease option"
  sf_gen :: "64 word"
  sf_open :: bool
  sf_phase :: activation
  sf_timers :: "(time \<times> 64 word) list"
  sf_expiring :: nat       \<comment> \<open>timers that found their generation current, before they deactivate\<close>
  sf_socket :: bool        \<comment> \<open>the socket file is there\<close>
  sf_removing :: nat       \<comment> \<open>deactivations that have not removed the file yet\<close>
  sf_closed :: bool

definition surface_start :: "time \<Rightarrow> surface" where
  "surface_start now = \<lparr>sf_now = now, sf_lease = None, sf_gen = 0, sf_open = False, sf_phase = Idle, sf_timers = [],
     sf_expiring = 0, sf_socket = False, sf_removing = 0, sf_closed = False\<rparr>"

text \<open>The critical section of \<open>deactivateDebug\<close>.\<close>

definition deactivate :: "surface \<Rightarrow> surface" where
  "deactivate s = s\<lparr>sf_open := False, sf_lease := None, sf_gen := sf_gen s + 1,
     sf_removing := (if sf_open s then sf_removing s + 1 else sf_removing s)\<rparr>"

definition socket_path :: "anon_config \<Rightarrow> string \<Rightarrow> string" where
  "socket_path c home = (if ac_socket c = [] then join_path [home, ''.lezz'', ''run'', ''anon-debug.sock''] else ac_socket c)"

text \<open>The second half of \<open>activateDebug\<close>: whether the directory, the listener and the mode work.\<close>

definition open_socket :: "anon_config \<Rightarrow> string \<Rightarrow> bool \<Rightarrow> bool \<Rightarrow> bool \<Rightarrow> lease \<Rightarrow> 64 word \<Rightarrow> surface \<Rightarrow> surface" where
  "open_socket c home dir listen chmod l g s =
     (if 100 < length (socket_path c home) \<or> \<not> dir then s\<lparr>sf_phase := Idle\<rparr>
      else if \<not> listen \<or> \<not> chmod then s\<lparr>sf_phase := Idle, sf_socket := False\<rparr>
      else s\<lparr>sf_phase := Arming l g, sf_open := True, sf_socket := True\<rparr>)"

datatype surface_label =
    Pass time
  | Reload "string option" "string option" "string option"
  | Open_Socket bool bool bool
  | Arm
  | Fire nat
  | Expire
  | Remove_Socket
  | Close_Server

definition surface_step ::
    "(string \<Rightarrow> string \<Rightarrow> string \<Rightarrow> string \<Rightarrow> bool) \<Rightarrow> (string \<Rightarrow> json option) \<Rightarrow> anon_config \<Rightarrow> string
     \<Rightarrow> surface_label \<Rightarrow> surface \<Rightarrow> surface option" where
  "surface_step accepts parse c home a s =
     (case a of
        Pass t \<Rightarrow> if sf_now s \<le> t then Some (s\<lparr>sf_now := t\<rparr>) else None
      | Reload sig opened reread \<Rightarrow>
          if sf_phase s \<noteq> Idle then None
          else
            (case reload_lease accepts parse c sig opened reread (sf_now s) of
               None \<Rightarrow> Some (deactivate s)
             | Some l \<Rightarrow>
                 (let g = sf_gen s + 1 in
                  Some (s\<lparr>sf_lease := Some l, sf_gen := g, sf_phase := (if sf_open s then Arming l g else Opening l g)\<rparr>)))
      | Open_Socket dir listen chmod \<Rightarrow>
          (case sf_phase s of Opening l g \<Rightarrow> Some (open_socket c home dir listen chmod l g s) | _ \<Rightarrow> None)
      | Arm \<Rightarrow>
          (case sf_phase s of
             Arming l g \<Rightarrow> Some (s\<lparr>sf_phase := Idle, sf_timers := sf_timers s @ [(max (sf_now s) (ls_not_after l), g)]\<rparr>)
           | _ \<Rightarrow> None)
      | Fire i \<Rightarrow>
          if i < length (sf_timers s) \<and> fst (sf_timers s ! i) \<le> sf_now s then
            Some (s\<lparr>sf_timers := take i (sf_timers s) @ drop (Suc i) (sf_timers s),
              sf_expiring := (if snd (sf_timers s ! i) = sf_gen s then sf_expiring s + 1 else sf_expiring s)\<rparr>)
          else None
      | Expire \<Rightarrow> if 0 < sf_expiring s then Some (deactivate (s\<lparr>sf_expiring := sf_expiring s - 1\<rparr>)) else None
      | Remove_Socket \<Rightarrow>
          if 0 < sf_removing s then Some (s\<lparr>sf_removing := sf_removing s - 1, sf_socket := False\<rparr>) else None
      | Close_Server \<Rightarrow> if sf_closed s then None else Some (deactivate (s\<lparr>sf_closed := True\<rparr>)))"

fun surface_run ::
    "(surface_label \<Rightarrow> surface \<Rightarrow> surface option) \<Rightarrow> surface_label list \<Rightarrow> surface \<Rightarrow> surface option" where
  "surface_run step [] s = Some s"
| "surface_run step (a # as) s = (case step a s of None \<Rightarrow> None | Some s' \<Rightarrow> surface_run step as s')"

text \<open>\<open>/status\<close>: what it shows, or that it is forbidden; \<open>DebugActive\<close> and \<open>DebugPath\<close>.\<close>

definition debug_status :: "surface \<Rightarrow> lease option" where
  "debug_status s =
     (case sf_lease s of Some l \<Rightarrow> if sf_open s \<and> lease_active l (sf_now s) then Some l else None | None \<Rightarrow> None)"

definition debug_active :: "surface \<Rightarrow> bool" where
  "debug_active s \<longleftrightarrow> sf_open s \<and> (case sf_lease s of None \<Rightarrow> False | Some l \<Rightarrow> lease_active l (sf_now s))"

definition debug_path :: "anon_config \<Rightarrow> string \<Rightarrow> surface \<Rightarrow> string" where
  "debug_path c home s = (if sf_open s then socket_path c home else [])"

section \<open>Anonymous sees nothing\<close>

definition public_methods :: "string list" where
  "public_methods = [''initialize'', ''ping'', ''tools/list'']"

text \<open>
  What a caller is told depends on nothing but the identifier of its request and, for the three
  public methods, the method: not on the parameters, not on the name of a tool, and not on what
  was asked before; no reply lists a tool.
\<close>

theorem anonymous_sees_nothing:
  "fst (handle_anon c m (Some q) n) =
     fst (handle_anon c m (Some \<lparr>mq_id = mq_id q,
       mq_method = (if mq_method q \<in> set public_methods then mq_method q else []), mq_params = None\<rparr>) n')
   \<and> (case fst (handle_anon c m (Some q) n) of
        Reply_Result i j \<Rightarrow> (case exact_field ''tools'' j of None \<Rightarrow> True | Some ts \<Rightarrow> ts = JArr [])
      | _ \<Rightarrow> True)"
  by (cases "mq_id q") (auto simp: handle_anon_def public_methods_def exact_field_def)

section \<open>The lease and the surface\<close>

text \<open>A lease that some reload accepted.\<close>

definition granted ::
    "(string \<Rightarrow> string \<Rightarrow> string \<Rightarrow> string \<Rightarrow> bool) \<Rightarrow> (string \<Rightarrow> json option) \<Rightarrow> anon_config \<Rightarrow> lease \<Rightarrow> bool" where
  "granted accepts parse c l \<longleftrightarrow> (\<exists>sig opened reread t. reload_lease accepts parse c sig opened reread t = Some l)"

lemma grantedI: "reload_lease accepts parse c sig opened reread t = Some l \<Longrightarrow> granted accepts parse c l"
  by (auto simp: granted_def)

lemma granted_seed: "granted accepts parse c l \<Longrightarrow> ac_seed c = [] \<or> ls_seed l = ac_seed c"
  by (auto simp: granted_def reload_lease_def split: if_splits sum.splits)

lemma granted_signed:
  "granted accepts parse c l \<Longrightarrow> \<exists>s data. accepts (ac_identity c) lease_namespace s data"
  by (auto simp: granted_def reload_lease_def verify_lease_Inr split: if_splits sum.splits)

definition surface_ok ::
    "(string \<Rightarrow> string \<Rightarrow> string \<Rightarrow> string \<Rightarrow> bool) \<Rightarrow> (string \<Rightarrow> json option) \<Rightarrow> anon_config \<Rightarrow> surface \<Rightarrow> bool" where
  "surface_ok accepts parse c s \<longleftrightarrow>
     (case sf_lease s of
        None \<Rightarrow> True
      | Some l \<Rightarrow>
          granted accepts parse c l
          \<and> (case sf_phase s of
               Idle \<Rightarrow> True | Opening l' g \<Rightarrow> l' = l \<and> g = sf_gen s | Arming l' g \<Rightarrow> l' = l \<and> g = sf_gen s)
          \<and> (if sf_open s
             then (\<exists>t. (t, sf_gen s) \<in> set (sf_timers s) \<and> t \<le> max (sf_now s) (ls_not_after l))
               \<or> sf_phase s = Arming l (sf_gen s) \<or> 0 < sf_expiring s
             else True))"

lemma surface_ok_start: "surface_ok accepts parse c (surface_start now)"
  by (simp add: surface_ok_def surface_start_def)

lemma surface_ok_no_lease [simp]: "sf_lease s = None \<Longrightarrow> surface_ok accepts parse c s"
  by (simp add: surface_ok_def)

lemma deactivate_lease [simp]: "sf_lease (deactivate s) = None" "sf_open (deactivate s) = False"
  by (simp_all add: deactivate_def)

lemma timer_without:
  assumes "x \<in> set xs" "x \<noteq> xs ! i"
  shows "x \<in> set (take i xs @ drop (Suc i) xs)"
proof -
  obtain k where k: "k < length xs" "xs ! k = x" using assms by (auto simp: in_set_conv_nth)
  then have "k \<noteq> i" using assms by auto
  then show ?thesis
  proof (cases "k < i")
    case True
    then show ?thesis using k by (auto simp: in_set_conv_nth intro!: exI [of _ k])
  next
    case False
    then have "drop (Suc i) xs ! (k - Suc i) = x" "k - Suc i < length (drop (Suc i) xs)" using k \<open>k \<noteq> i\<close> by auto
    then show ?thesis by (metis Un_iff nth_mem set_append)
  qed
qed

lemma surface_ok_step:
  assumes "surface_ok accepts parse c s" "surface_step accepts parse c home a s = Some s'"
  shows "surface_ok accepts parse c s'"
proof (cases a)
  case (Pass t)
  then show ?thesis
    using assms by (fastforce simp: surface_step_def surface_ok_def split: option.splits activation.splits if_splits)
next
  case (Reload sig opened reread)
  then show ?thesis
    using assms
    by (cases "reload_lease accepts parse c sig opened reread (sf_now s)")
      (auto simp: surface_step_def Let_def surface_ok_def grantedI split: if_splits)
next
  case (Open_Socket d l m)
  then show ?thesis
    using assms
    by (cases "sf_phase s"; cases "sf_lease s") (auto simp: surface_step_def open_socket_def surface_ok_def split: if_splits)
next
  case Arm
  then show ?thesis
    using assms
    by (cases "sf_phase s"; cases "sf_lease s") (auto simp: surface_step_def surface_ok_def split: if_splits)
next
  case (Fire i)
  show ?thesis
  proof (cases "sf_lease s")
    case None
    then show ?thesis using Fire assms by (auto simp: surface_step_def split: if_splits)
  next
    case (Some l)
    have keep: "(t, sf_gen s) \<in> set (sf_timers s) \<Longrightarrow> snd (sf_timers s ! i) \<noteq> sf_gen s
        \<Longrightarrow> (t, sf_gen s) \<in> set (take i (sf_timers s)) \<or> (t, sf_gen s) \<in> set (drop (Suc i) (sf_timers s))" for t
      using timer_without [of "(t, sf_gen s)" "sf_timers s" i] by (metis Un_iff set_append snd_conv)
    show ?thesis
      using Fire assms Some keep
      by (cases "sf_phase s"; cases "snd (sf_timers s ! i) = sf_gen s")
        (auto simp: surface_step_def surface_ok_def split: if_splits; blast)+
  qed
next
  case Remove_Socket
  then show ?thesis
    using assms by (auto simp: surface_step_def surface_ok_def split: option.splits activation.splits if_splits)
qed (use assms in \<open>auto simp: surface_step_def split: if_splits\<close>)

lemma surface_ok_run:
  "surface_run (surface_step accepts parse c home) as s = Some s' \<Longrightarrow> surface_ok accepts parse c s \<Longrightarrow> surface_ok accepts parse c s'"
  by (induction as arbitrary: s) (auto intro: surface_ok_step split: option.splits)

text \<open>
  C7: in any interleaving of reloads, timers and closings, the debug surface shows a lease only while
  the socket is open and the clock is inside the window of that lease, and a reload has accepted it:
  its seed is the configured one and a signature of the configured identity was accepted for it.
\<close>

theorem debug_needs_a_lease:
  "case surface_run (surface_step accepts parse c home) as (surface_start now) of
     None \<Rightarrow> True
   | Some s \<Rightarrow>
       debug_active s = (debug_status s \<noteq> None)
       \<and> (case debug_status s of
            None \<Rightarrow> True
          | Some l \<Rightarrow> sf_open s \<and> \<not> sf_now s < ls_not_before l \<and> sf_now s < ls_not_after l \<and> granted accepts parse c l
              \<and> (if ac_seed c = [] then True else ls_seed l = ac_seed c)
              \<and> (\<exists>sig data. accepts (ac_identity c) lease_namespace sig data))"
proof (cases "surface_run (surface_step accepts parse c home) as (surface_start now)")
  case (Some s)
  have "surface_ok accepts parse c s" by (rule surface_ok_run [OF Some surface_ok_start])
  then show ?thesis
    using Some granted_seed [of accepts parse c] granted_signed [of accepts parse c]
    by (auto simp: surface_ok_def debug_status_def debug_active_def lease_active_def split: option.splits if_splits)
qed simp

text \<open>The steps the server takes on its own: arming a timer, and a timer that is due.\<close>

definition own_step :: "surface_label \<Rightarrow> bool" where
  "own_step a \<longleftrightarrow> (case a of Arm \<Rightarrow> True | Fire _ \<Rightarrow> True | Expire \<Rightarrow> True | Remove_Socket \<Rightarrow> True | _ \<Rightarrow> False)"

definition shut :: "surface \<Rightarrow> bool" where
  "shut s \<longleftrightarrow> \<not> sf_open s \<and> \<not> sf_socket s"

lemma expiring_shuts:
  assumes "0 < sf_expiring s" "sf_open s"
  shows "\<exists>s'. surface_run (surface_step accepts parse c home) [Expire, Remove_Socket] s = Some s' \<and> shut s'"
  using assms by (simp add: surface_step_def deactivate_def shut_def)

lemma due_timer_shuts:
  assumes "(t, sf_gen s) \<in> set (sf_timers s)" "t \<le> sf_now s" "sf_open s"
  shows "\<exists>i s'. surface_run (surface_step accepts parse c home) [Fire i, Expire, Remove_Socket] s = Some s' \<and> shut s'"
proof -
  obtain i where "i < length (sf_timers s)" "sf_timers s ! i = (t, sf_gen s)"
    using assms(1) by (auto simp: in_set_conv_nth)
  then show ?thesis
    using assms by (intro exI [of _ i]) (simp add: surface_step_def deactivate_def shut_def)
qed

lemma arming_shuts:
  assumes "sf_phase s = Arming l (sf_gen s)" "ls_not_after l \<le> sf_now s" "sf_open s"
  shows "\<exists>i s'. surface_run (surface_step accepts parse c home) [Arm, Fire i, Expire, Remove_Socket] s = Some s' \<and> shut s'"
proof -
  obtain s1 where s1: "surface_step accepts parse c home Arm s = Some s1" "sf_open s1" "sf_now s1 = sf_now s" "sf_gen s1 = sf_gen s"
    "(max (sf_now s) (ls_not_after l), sf_gen s1) \<in> set (sf_timers s1)"
    using assms by (simp add: surface_step_def)
  then show ?thesis
    using due_timer_shuts [of "max (sf_now s) (ls_not_after l)" s1 accepts parse c home] assms by fastforce
qed

text \<open>
  C24: a lease that has run out closes its surface: from any reachable state in which the socket is
  open for a lease whose window is over, the steps the server takes on its own close the socket and
  remove its file, with no reload and no closing of the server.
\<close>

theorem expired_surface_closes:
  assumes "surface_run (surface_step accepts parse c home) as (surface_start now) = Some s"
    and "sf_open s" "sf_lease s = Some l" "ls_not_after l \<le> sf_now s"
  shows "\<exists>bs s'. list_all own_step bs \<and> surface_run (surface_step accepts parse c home) bs s = Some s' \<and> shut s'"
proof -
  have "surface_ok accepts parse c s" by (rule surface_ok_run [OF assms(1) surface_ok_start])
  then consider t where "(t, sf_gen s) \<in> set (sf_timers s)" "t \<le> sf_now s"
    | "sf_phase s = Arming l (sf_gen s)" | "0 < sf_expiring s"
    using assms by (auto simp: surface_ok_def)
  then show ?thesis
  proof cases
    case 1
    then obtain i s' where "surface_run (surface_step accepts parse c home) [Fire i, Expire, Remove_Socket] s = Some s'" "shut s'"
      using due_timer_shuts assms(2) by blast
    then show ?thesis by (intro exI [of _ "[Fire i, Expire, Remove_Socket]"] exI [of _ s']) (simp add: own_step_def)
  next
    case 2
    then obtain i s' where "surface_run (surface_step accepts parse c home) [Arm, Fire i, Expire, Remove_Socket] s = Some s'" "shut s'"
      using arming_shuts assms(2,4) by blast
    then show ?thesis by (intro exI [of _ "[Arm, Fire i, Expire, Remove_Socket]"] exI [of _ s']) (simp add: own_step_def)
  next
    case 3
    then obtain s' where "surface_run (surface_step accepts parse c home) [Expire, Remove_Socket] s = Some s'" "shut s'"
      using expiring_shuts assms(2) by blast
    then show ?thesis by (intro exI [of _ "[Expire, Remove_Socket]"] exI [of _ s']) (simp add: own_step_def)
  qed
qed

section \<open>Runs\<close>

text \<open>A lease of one second, a configuration for it, and the run of a server that accepts it.\<close>

definition sample_anon :: anon_config where
  "sample_anon = \<lparr>ac_name = ''a'', ac_listen = ''127.0.0.1:0'', ac_socket = ''/s'', ac_lease_path = ''/l'', ac_identity = ''local'',
     ac_seed = ''seed-1''\<rparr>"

abbreviation sample_step :: "surface_label \<Rightarrow> surface \<Rightarrow> surface option" where
  "sample_step \<equiv> surface_step (\<lambda>i n s d. s = ''sig'') (\<lambda>_. encode_lease sample_lease) sample_anon ''/h''"

abbreviation sample_reload :: surface_label where
  "sample_reload \<equiv> Reload (Some ''sig'') (Some ''x'') (Some ''x'')"

lemma sample_load: "load_lease (\<lambda>_. encode_lease sample_lease) (Some x) = Inr sample_lease"
proof -
  obtain j where "encode_lease sample_lease = Some j" using sample_encodes by blast
  moreover from this have "decode_lease j = Some sample_lease"
    by (rule decode_encode_lease) (simp_all add: sample_lease_def new_lease_def int64_def)
  ultimately show ?thesis by (simp add: load_lease_Inr sample_valid)
qed

lemma sample_fields: "ls_seed sample_lease = ''seed-1''" "ls_not_before sample_lease = second" "ls_not_after sample_lease = 2 * second"
  by (simp_all add: sample_lease_def new_lease_def)

lemma sample_accepted:
  "reload_lease (\<lambda>i n s d. s = ''sig'') (\<lambda>_. encode_lease sample_lease) sample_anon (Some ''sig'') (Some x) (Some y) t
    = (if second \<le> t \<and> t < 2 * second then Some sample_lease else None)"
  by (auto simp: reload_lease_def verify_lease_def sample_load sample_anon_def lease_active_def sample_fields)

lemma sample_ends: "length (socket_path sample_anon h) = 2"
  by (simp add: socket_path_def sample_anon_def)

lemmas sample_eval = surface_step_def sample_accepted sample_ends sample_fields open_socket_def deactivate_def surface_start_def Let_def

lemma sample_opens:
  "surface_run sample_step [sample_reload, Open_Socket True True True, Arm] (surface_start second)
    = Some \<lparr>sf_now = second, sf_lease = Some sample_lease, sf_gen = 1, sf_open = True, sf_phase = Idle,
        sf_timers = [(2 * second, 1)], sf_expiring = 0, sf_socket = True, sf_removing = 0, sf_closed = False\<rparr>"
  by (simp add: sample_eval)

theorem expired_surface_closes_witness:
  "\<exists>bs s'. list_all own_step bs \<and> surface_run sample_step bs
      \<lparr>sf_now = 2 * second, sf_lease = Some sample_lease, sf_gen = 1, sf_open = True, sf_phase = Idle,
        sf_timers = [(2 * second, 1)], sf_expiring = 0, sf_socket = True, sf_removing = 0, sf_closed = False\<rparr> = Some s' \<and> shut s'"
  by (rule expired_surface_closes [where as = "[sample_reload, Open_Socket True True True, Arm, Pass (2 * second)]"
        and now = second and l = sample_lease])
    (simp_all add: sample_eval)

section \<open>What modelling showed\<close>

text \<open>A closing between the two halves of an activation leaves the socket open, for no lease, with a
  timer of a generation that is over.\<close>

lemma closing_leaves_socket:
  "\<exists>s. surface_run sample_step [sample_reload, Close_Server, Open_Socket True True True, Arm, Pass (3 * second), Fire 0] (surface_start second) = Some s
    \<and> sf_open s \<and> sf_socket s \<and> sf_closed s \<and> sf_lease s = None \<and> sf_timers s = [] \<and> sf_expiring s = 0"
  by (simp add: sample_eval)

text \<open>A closed server opens the surface again on the next reload.\<close>

lemma closed_server_reopens:
  "\<exists>s. surface_run sample_step [Close_Server, sample_reload, Open_Socket True True True] (surface_start second) = Some s
    \<and> debug_status s = Some sample_lease \<and> sf_closed s"
  by (simp add: sample_eval debug_status_def lease_active_def)

text \<open>A timer that found its lease current closes the surface of a lease accepted meanwhile.\<close>

definition longer_lease :: lease where
  "longer_lease = sample_lease\<lparr>ls_not_after := 9 * second\<rparr>"

lemma expiry_closes_renewed_lease:
  assumes "reload_lease accepts parse c sig opened reread (2 * second) = Some longer_lease"
  shows "\<exists>s. surface_run (surface_step accepts parse c home) [Fire 0, Reload sig opened reread, Expire]
      \<lparr>sf_now = 2 * second, sf_lease = Some sample_lease, sf_gen = 1, sf_open = True, sf_phase = Idle,
        sf_timers = [(2 * second, 1)], sf_expiring = 0, sf_socket = True, sf_removing = 0, sf_closed = False\<rparr> = Some s
    \<and> \<not> sf_open s \<and> sf_lease s = None"
  using assms by (simp add: surface_step_def deactivate_def)

end
