(* ===== verification/McpWrapper.thy ===== *)
theory McpWrapper
  imports McpMessage PrCache NetAddr
begin

text \<open>
  The read-only MCP server over the pull-request cache (\<open>internal/mcpwrapper/mcpwrapper.go\<close>): its two
  tools, the arguments it accepts, the URL it asks, and what it makes of the answer. Replies keep the
  keys of their objects in the order of \<open>encoding/json\<close>.
\<close>

section \<open>Queries\<close>

text \<open>\<open>url.QueryEscape\<close> and the reading of a query by \<open>URL.Query\<close>.\<close>

definition hex_upper :: "nat \<Rightarrow> char" where
  "hex_upper n = (if n < 10 then char_of (48 + n) else char_of (55 + n))"

definition escape_char :: "char \<Rightarrow> string" where
  "escape_char c =
     (if is_alnum c \<or> c \<in> set ''-_.~'' then [c]
      else if c = CHR '' '' then ''+''
      else (let n = of_char c :: nat in [CHR ''%'', hex_upper (n div 16), hex_upper (n mod 16)]))"

definition query_escape :: "string \<Rightarrow> string" where
  "query_escape s = concat (map escape_char s)"

definition query_unescape :: "string \<Rightarrow> string option" where
  "query_unescape s = unescape (map (\<lambda>c. if c = CHR ''+'' then CHR '' '' else c) s)"

definition encode_query :: "(string \<times> string) list \<Rightarrow> string" where
  "encode_query kvs = join ''&'' (map (\<lambda>(k, v). query_escape k @ ''='' @ query_escape v) kvs)"

definition query_part :: "string \<Rightarrow> (string \<times> string) option" where
  "query_part p =
     (if p = [] \<or> CHR '';'' \<in> set p then None
      else
        (let (k, v) = (case cut_at (CHR ''='') p of None \<Rightarrow> (p, []) | Some kv \<Rightarrow> kv) in
         case (query_unescape k, query_unescape v) of (Some k', Some v') \<Rightarrow> Some (k', v') | _ \<Rightarrow> None))"

definition parse_query :: "string \<Rightarrow> (string \<times> string) list" where
  "parse_query s = List.map_filter query_part (split_at (CHR ''&'') s)"

definition query_get :: "(string \<times> string) list \<Rightarrow> string \<Rightarrow> string" where
  "query_get kvs k = (case map_of kvs k of None \<Rightarrow> [] | Some v \<Rightarrow> v)"

section \<open>The server\<close>

record wrapper_config =
  wc_name :: string
  wc_listen :: string
  wc_cache_url :: string
  wc_version :: string

definition trim_slashes :: "string \<Rightarrow> string" where
  "trim_slashes s = rev (dropWhile (\<lambda>c. c = CHR ''/'') (rev s))"

datatype wrapper_err = No_Cache_Url | Bad_Cache_Url

definition new_wrapper :: "(string \<Rightarrow> bool) \<Rightarrow> wrapper_config \<Rightarrow> (wrapper_err, wrapper_config) res" where
  "new_wrapper parses c =
     (let c1 = (if trim_space (wc_name c) = [] then c\<lparr>wc_name := ''pr''\<rparr> else c) in
      if trim_space (wc_cache_url c1) = [] then Inl No_Cache_Url
      else if \<not> parses (wc_cache_url c1) then Inl Bad_Cache_Url
      else
        (let c2 = c1\<lparr>wc_cache_url := trim_slashes (wc_cache_url c1)\<rparr>;
             c3 = (if wc_listen c2 = [] then c2\<lparr>wc_listen := ''127.0.0.1:0''\<rparr> else c2) in
         Inr (if wc_version c3 = [] then c3\<lparr>wc_version := ''0.1.0''\<rparr> else c3)))"

definition repo_char :: "char \<Rightarrow> bool" where
  "repo_char c \<longleftrightarrow> is_alnum c \<or> c \<in> set ''_.-''"

definition repo_name :: "string \<Rightarrow> bool" where
  "repo_name s \<longleftrightarrow> (case cut_at (CHR ''/'') s of
     None \<Rightarrow> False | Some (a, b) \<Rightarrow> a \<noteq> [] \<and> b \<noteq> [] \<and> list_all repo_char a \<and> list_all repo_char b)"

text \<open>An argument that is a number, or the text of one. \<open>float_int\<close> gives the integer that the
  \<open>float64\<close> of a JSON number equals, if there is one in the range of \<open>int\<close>.\<close>

definition number_arg :: "(string \<Rightarrow> int option) \<Rightarrow> json option \<Rightarrow> int option" where
  "number_arg float_int v = (case v of Some (JNum s) \<Rightarrow> float_int s | Some (JStr s) \<Rightarrow> atoi s | _ \<Rightarrow> None)"

text \<open>The parameters of a call: the objects under \<open>arguments\<close> are merged, the last value of a key wins.\<close>

fun call_args :: "(string \<times> json) list \<Rightarrow> (string \<times> json) list \<Rightarrow> (string \<times> json) list option" where
  "call_args [] acc = Some acc"
| "call_args ((k, v) # kvs) acc =
     (if same_field k ''arguments'' then
        (case v of JObj as \<Rightarrow> call_args kvs (rev as @ acc) | JNull \<Rightarrow> call_args kvs [] | _ \<Rightarrow> None)
      else call_args kvs acc)"

definition decode_call :: "json option \<Rightarrow> (string \<times> (string \<times> json) list) option" where
  "decode_call p =
     (case p of
        None \<Rightarrow> None
      | Some j \<Rightarrow>
          (case (decode_string_field ''name'' j, case j of JObj kvs \<Rightarrow> call_args kvs [] | _ \<Rightarrow> Some []) of
             (Some n, Some as) \<Rightarrow> Some (n, as)
           | _ \<Rightarrow> None))"

text \<open>What the cache answers to a request.\<close>

record cache_reply =
  hr_status :: nat
  hr_source :: string
  hr_stale :: string
  hr_fetched :: string
  hr_body :: string

definition max_body :: nat where "max_body = 16 * 2 ^ 20"

definition cache_get :: "(string \<Rightarrow> (string, cache_reply) res) \<Rightarrow> wrapper_config \<Rightarrow> string \<Rightarrow> (string, string \<times> cache_reply) res" where
  "cache_get net c path =
     (case net (wc_cache_url c @ path) of
        Inl e \<Rightarrow> Inl (''cache unreachable: '' @ e)
      | Inr r \<Rightarrow>
          (let body = take max_body (hr_body r) in
           if hr_status r \<noteq> 200 then Inl (''cache: '' @ dec (hr_status r) @ '' '' @ trim_space body) else Inr (body, r)))"

definition text_content :: "string \<Rightarrow> json" where
  "text_content t = JArr [JObj [(''text'', JStr t), (''type'', JStr ''text'')]]"

definition tool_text :: "string \<Rightarrow> string \<Rightarrow> (string \<times> json) list \<Rightarrow> mcp_reply" where
  "tool_text i t meta = Reply_Result i (JObj (meta @ [(''content'', text_content t), (''isError'', JBool False)]))"

definition tool_error :: "string \<Rightarrow> string \<Rightarrow> mcp_reply" where
  "tool_error i t = Reply_Result i (JObj [(''content'', text_content t), (''isError'', JBool True)])"

definition pr_path :: "string \<Rightarrow> int \<Rightarrow> string \<Rightarrow> bool \<Rightarrow> string" where
  "pr_path repo n kind refresh = ''/pr?'' @ encode_query
     ([(''kind'', kind), (''number'', dec_int n)] @ (if refresh then [(''refresh'', ''1'')] else []) @ [(''repo'', repo)])"

text \<open>A reply with the URL that was asked, if any.\<close>

definition pr_meta :: "string \<Rightarrow> string \<Rightarrow> cache_reply \<Rightarrow> (string \<times> json) list" where
  "pr_meta kind body r = [(''_meta'', JObj [(''bytes'', JNum (dec (length body))), (''fetched_at'', JStr (hr_fetched r)),
     (''kind'', JStr kind), (''source'', JStr (hr_source r)), (''stale'', JBool (hr_stale r = ''true''))])]"

definition string_arg :: "(string \<times> json) list \<Rightarrow> string \<Rightarrow> string" where
  "string_arg as k = (case map_of as k of Some (JStr s) \<Rightarrow> s | _ \<Rightarrow> [])"

definition tool_pr_get ::
    "(string \<Rightarrow> int option) \<Rightarrow> (string \<Rightarrow> (string, cache_reply) res) \<Rightarrow> wrapper_config \<Rightarrow> string \<Rightarrow> (string \<times> json) list
     \<Rightarrow> mcp_reply \<times> string option" where
  "tool_pr_get float_int net c i as =
     (let repo = string_arg as ''repo''; kind = (if string_arg as ''kind'' = [] then ''view'' else string_arg as ''kind'');
          refresh = (map_of as ''refresh'' = Some (JBool True)) in
      if \<not> repo_name repo then (Reply_Error (Some i) (- 32602) ''repo must be owner/name'', None)
      else
        (case number_arg float_int (map_of as ''number'') of
           None \<Rightarrow> (Reply_Error (Some i) (- 32602) ''number must be a positive integer'', None)
         | Some n \<Rightarrow>
             if n \<le> 0 then (Reply_Error (Some i) (- 32602) ''number must be a positive integer'', None)
             else if kind \<noteq> ''view'' \<and> kind \<noteq> ''diff'' then (Reply_Error (Some i) (- 32602) ''kind must be view or diff'', None)
             else
               (let p = pr_path repo n kind refresh in
                (case cache_get net c p of
                   Inl e \<Rightarrow> tool_error i e
                 | Inr (body, r) \<Rightarrow> tool_text i body (pr_meta kind body r),
                 Some (wc_cache_url c @ p)))))"

text \<open>\<open>why\<close> is the text of a decoding error.\<close>

definition tools_call ::
    "string \<Rightarrow> (string \<Rightarrow> int option) \<Rightarrow> (string \<Rightarrow> (string, cache_reply) res) \<Rightarrow> wrapper_config \<Rightarrow> string \<Rightarrow> json option
     \<Rightarrow> mcp_reply \<times> string option" where
  "tools_call why float_int net c i params =
     (case decode_call params of
        None \<Rightarrow> (Reply_Error (Some i) (- 32602) (''invalid tool params: '' @ why), None)
      | Some (name, as) \<Rightarrow>
          if name = ''pr.get'' then tool_pr_get float_int net c i as
          else if name = ''pr.status'' then
            (case cache_get net c ''/status'' of Inl e \<Rightarrow> tool_error i e | Inr (body, r) \<Rightarrow> tool_text i body [],
             Some (wc_cache_url c @ ''/status''))
          else (Reply_Error (Some i) (- 32602) (''unknown tool: '' @ name), None))"

definition arg_schema :: "string \<Rightarrow> (string \<times> json) list \<Rightarrow> json" where
  "arg_schema ty more' = JObj (more' @ [(''type'', JStr ty)])"

definition wrapper_tools :: json where
  "wrapper_tools = JArr
     [JObj [(''description'', JStr ''Read a pull request through the lezz PR cache (view metadata/files/comments or diff). Read-only.''),
        (''inputSchema'', JObj
          [(''properties'', JObj
             [(''kind'', arg_schema ''string'' [(''enum'', JArr [JStr ''view'', JStr ''diff''])]),
              (''number'', arg_schema ''integer'' [(''minimum'', JNum ''1'')]),
              (''refresh'', arg_schema ''boolean'' []),
              (''repo'', arg_schema ''string'' [(''description'', JStr ''owner/name'')])]),
           (''required'', JArr [JStr ''repo'', JStr ''number'']), (''type'', JStr ''object'')]),
        (''name'', JStr ''pr.get'')],
      JObj [(''description'', JStr ''Cache statistics: hits, misses, fetches, entries.''),
        (''inputSchema'', JObj [(''properties'', JObj []), (''type'', JStr ''object'')]),
        (''name'', JStr ''pr.status'')]]"

definition motd :: string where
  "motd = ''Don't Panic. 42 is a coordinate, not a credential; trust is what you pinned.'' @ [CHR 0x0A]
     @ ''This greeting is a signed test vector (isotope/testdata/burned, key: zaphod-beeblebrox), ''
     @ ''so anyone can check it and nobody has to trust it. Verify it; don't believe it.''"

definition handle_wrapper ::
    "string \<Rightarrow> (string \<Rightarrow> int option) \<Rightarrow> (string \<Rightarrow> (string, cache_reply) res) \<Rightarrow> wrapper_config \<Rightarrow> string
     \<Rightarrow> mcp_request option \<Rightarrow> mcp_reply \<times> string option" where
  "handle_wrapper why float_int net c http_method body =
     (if http_method \<noteq> ''POST'' then (Not_Post, None)
      else
        (case body of
           None \<Rightarrow> (Reply_Error None (- 32700) (''invalid JSON: '' @ why), None)
         | Some q \<Rightarrow>
             (case mq_id q of
                None \<Rightarrow> (Notified, None)
              | Some i \<Rightarrow>
                  if mq_method q = ''initialize'' then
                    (Reply_Result i (JObj [(''capabilities'', JObj [(''tools'', JObj [])]), (''instructions'', JStr motd),
                       (''protocolVersion'', JStr mcp_version),
                       (''serverInfo'', server_info (''lezz-mcp-'' @ wc_name c) (wc_version c))]), None)
                  else if mq_method q = ''ping'' then (Reply_Result i (JObj []), None)
                  else if mq_method q = ''tools/list'' then (Reply_Result i (JObj [(''tools'', wrapper_tools)]), None)
                  else if mq_method q = ''tools/call'' then tools_call why float_int net c i (mq_params q)
                  else (Reply_Error (Some i) (- 32601) ''method not found'', None))))"

section \<open>A query is read back\<close>

lemma hex_upper_digit: "n < 16 \<Longrightarrow> hex_val (hex_upper n) = Some n" "n < 16 \<Longrightarrow> is_alnum (hex_upper n)"
  by (cases "n < 10"; simp add: hex_upper_def hex_val_def is_alnum_def is_letter_def is_digit_def digit_val_def)+

lemma alnum_plain: "is_alnum c \<Longrightarrow> c \<notin> {CHR ''%'', CHR ''+'', CHR ''&'', CHR '';'', CHR ''=''}"
  by (auto simp: is_alnum_def is_letter_def is_digit_def digit_val_def split: if_splits)

definition plus_space :: "char \<Rightarrow> char" where
  "plus_space c = (if c = CHR ''+'' then CHR '' '' else c)"

lemma char_code: "of_char c div 16 < (16 :: nat)" "char_of (16 * (of_char c div 16) + of_char c mod 16 :: nat) = c"
  using nat_of_char_less_256 [of c] by (auto simp del: nat_of_char_less_256)

lemma unescape_escape_char:
  "unescape (map plus_space (escape_char c @ r)) = map_option ((#) c) (unescape (map plus_space r))"
proof (cases "is_alnum c \<or> c \<in> set ''-_.~''")
  case True
  then have "c \<noteq> CHR ''%''" "c \<noteq> CHR ''+''" using alnum_plain [of c] by auto
  then show ?thesis using True by (simp add: escape_char_def plus_space_def)
next
  case False
  have h: "is_alnum (hex_upper (of_char c div 16))" "is_alnum (hex_upper (of_char c mod 16))"
    using char_code [of c] by (simp_all add: hex_upper_digit)
  then have p: "plus_space (hex_upper (of_char c div 16)) = hex_upper (of_char c div 16)"
    "plus_space (hex_upper (of_char c mod 16)) = hex_upper (of_char c mod 16)"
    using alnum_plain [OF h(1)] alnum_plain [OF h(2)] by (auto simp: plus_space_def)
  show ?thesis
  proof (cases "c = CHR '' ''")
    case True
    then show ?thesis using False by (simp add: escape_char_def plus_space_def)
  next
    case not_space: False
    have "unescape (CHR ''%'' # hex_upper (of_char c div 16) # hex_upper (of_char c mod 16) # s) = map_option ((#) c) (unescape s)" for s
      using char_code [of c] by (simp add: hex_upper_digit)
    moreover have "plus_space (CHR ''%'') = CHR ''%''" by (simp add: plus_space_def)
    ultimately show ?thesis
      using False not_space p by (simp add: escape_char_def Let_def del: unescape.simps)
  qed
qed

lemma unescape_query_escape: "query_unescape (query_escape s) = Some s"
proof (induction s)
  case Nil
  then show ?case by (simp add: query_unescape_def query_escape_def)
next
  case (Cons c s)
  have "query_unescape (query_escape (c # s)) = unescape (map plus_space (escape_char c @ query_escape s))"
    by (simp add: query_unescape_def query_escape_def plus_space_def [abs_def])
  also have "\<dots> = map_option ((#) c) (unescape (map plus_space (query_escape s)))" by (rule unescape_escape_char)
  also have "\<dots> = Some (c # s)" using Cons by (simp add: query_unescape_def plus_space_def [abs_def])
  finally show ?case .
qed

lemma escape_char_plain: "x \<in> set (escape_char c) \<Longrightarrow> x \<notin> {CHR ''&'', CHR '';'', CHR ''=''}"
proof -
  assume x: "x \<in> set (escape_char c)"
  have "is_alnum (hex_upper (of_char c div 16))" "is_alnum (hex_upper (of_char c mod 16))"
    using char_code [of c] by (simp_all add: hex_upper_digit)
  then show ?thesis
    using x alnum_plain [of x] by (auto simp: escape_char_def Let_def split: if_splits)
qed

lemma query_escape_plain: "x \<in> set (query_escape s) \<Longrightarrow> x \<notin> {CHR ''&'', CHR '';'', CHR ''=''}"
  unfolding query_escape_def using escape_char_plain by fastforce

lemma query_part_escape: "query_part (query_escape k @ ''='' @ query_escape v) = Some (k, v)"
proof -
  have "cut_at (CHR ''='') (query_escape k @ CHR ''='' # query_escape v) = Some (query_escape k, query_escape v)"
    using query_escape_plain [of _ k] by (auto simp: cut_at_Some)
  moreover have "CHR '';'' \<notin> set (query_escape k @ CHR ''='' # query_escape v)"
    using query_escape_plain [of _ k] query_escape_plain [of _ v] by auto
  ultimately show ?thesis by (auto simp: query_part_def unescape_query_escape)
qed

text \<open>What \<open>Values.Encode\<close> writes, \<open>URL.Query\<close> reads back, whatever bytes the keys and values hold.\<close>

lemma parse_encode_query: "parse_query (encode_query kvs) = kvs"
proof (induction kvs)
  case Nil
  then show ?case by (simp add: parse_query_def encode_query_def query_part_def map_filter_def)
next
  case (Cons kv kvs)
  obtain k v where kv: "kv = (k, v)" by fastforce
  define p where "p = query_escape k @ ''='' @ query_escape v"
  have n: "CHR ''&'' \<notin> set p"
    using query_escape_plain [of _ k] query_escape_plain [of _ v] by (auto simp: p_def)
  have q: "query_part p = Some (k, v)" unfolding p_def by (rule query_part_escape)
  show ?case
  proof (cases kvs)
    case Nil
    then have "encode_query (kv # kvs) = p" using kv by (simp add: encode_query_def p_def)
    then show ?thesis using Nil n q kv by (simp add: parse_query_def split_at_no_sep map_filter_def)
  next
    case (Cons kv' kvs')
    then have "encode_query (kv # kvs) = p @ CHR ''&'' # encode_query kvs"
      using kv by (simp add: encode_query_def p_def join_Cons)
    then have "split_at (CHR ''&'') (encode_query (kv # kvs)) = p # split_at (CHR ''&'') (encode_query kvs)"
      using n by (simp add: split_at_mid split_at_no_sep)
    then show ?thesis using q kv Cons.IH by (simp add: parse_query_def map_filter_def)
  qed
qed

section \<open>Only the cache is asked\<close>

lemma cache_get_cases:
  "cache_get net c path = (case net (wc_cache_url c @ path) of
     Inl e \<Rightarrow> Inl (''cache unreachable: '' @ e)
   | Inr r \<Rightarrow> if hr_status r = 200 then Inr (take max_body (hr_body r), r)
       else Inl (''cache: '' @ dec (hr_status r) @ '' '' @ trim_space (take max_body (hr_body r))))"
  by (simp add: cache_get_def Let_def split: sum.split)

text \<open>
  Whatever a client sends, the only URLs the wrapper asks are those of its cache: the status, or a
  pull request of a repository, number and kind that were checked; no other method or tool asks
  anything.
\<close>

theorem wrapper_asks_its_cache:
  "case snd (handle_wrapper why float_int net c http_method body) of
     None \<Rightarrow> True
   | Some u \<Rightarrow> http_method = ''POST'' \<and>
       (u = wc_cache_url c @ ''/status''
        \<or> (\<exists>repo n kind refresh. repo_name repo \<and> 0 < n \<and> kind \<in> {''view'', ''diff''} \<and> u = wc_cache_url c @ pr_path repo n kind refresh))"
proof -
  have get: "case snd (tool_pr_get float_int net c i as) of None \<Rightarrow> True
     | Some u \<Rightarrow> \<exists>repo n kind refresh. repo_name repo \<and> 0 < n \<and> kind \<in> {''view'', ''diff''} \<and> u = wc_cache_url c @ pr_path repo n kind refresh"
    for i as
    by (auto simp: tool_pr_get_def Let_def split: option.splits)
      (metis not_le)+
  have call: "case snd (tools_call why float_int net c i params) of None \<Rightarrow> True
     | Some u \<Rightarrow> u = wc_cache_url c @ ''/status''
        \<or> (\<exists>repo n kind refresh. repo_name repo \<and> 0 < n \<and> kind \<in> {''view'', ''diff''} \<and> u = wc_cache_url c @ pr_path repo n kind refresh)"
    for i params
  proof (cases "decode_call params")
    case (Some na)
    obtain n as where "na = (n, as)" by fastforce
    then show ?thesis using Some get [of i as] by (auto simp: tools_call_def split: option.splits)
  qed (simp add: tools_call_def)
  show ?thesis
  proof (cases "\<exists>q i. http_method = ''POST'' \<and> body = Some q \<and> mq_id q = Some i \<and> mq_method q = ''tools/call''")
    case True
    then obtain q i where q: "http_method = ''POST''" "body = Some q" "mq_id q = Some i" "mq_method q = ''tools/call''" by blast
    then show ?thesis using call [of i "mq_params q"] by (simp add: handle_wrapper_def split: option.splits)
  next
    case False
    then have "snd (handle_wrapper why float_int net c http_method body) = None"
      by (auto simp: handle_wrapper_def split: option.splits)
    then show ?thesis by simp
  qed
qed

text \<open>The names a client reads in the list of tools.\<close>

definition listed_names :: "json \<Rightarrow> string list" where
  "listed_names j = (case j of
     JArr ts \<Rightarrow> List.map_filter (\<lambda>t. case exact_field ''name'' t of Some (JStr n) \<Rightarrow> Some n | _ \<Rightarrow> None) ts
   | _ \<Rightarrow> [])"

text \<open>
  The tools that can be called are the ones that are listed.
\<close>

theorem callable_is_listed:
  "fst (tools_call why float_int net c i (Some (JObj [(''name'', JStr nm)]))) = Reply_Error (Some i) (- 32602) (''unknown tool: '' @ nm)
    \<longleftrightarrow> nm \<notin> set (listed_names wrapper_tools)"
proof -
  have "listed_names wrapper_tools = [''pr.get'', ''pr.status'']"
    by (simp add: listed_names_def wrapper_tools_def exact_field_def map_filter_def)
  moreover have "decode_call (Some (JObj [(''name'', JStr nm)])) = Some (nm, [])"
    by (simp add: decode_call_def decode_string_field_def same_field_def lower_def lower_char_def)
  ultimately show ?thesis
    by (auto simp: tools_call_def tool_pr_get_def string_arg_def repo_name_def tool_error_def tool_text_def split: sum.splits)
qed

section \<open>Through the cache\<close>

text \<open>The query \<open>handlePR\<close> of the cache reads.\<close>

definition read_pr_query :: "string \<Rightarrow> pr_query" where
  "read_pr_query s = (let q = parse_query s in
     \<lparr>qy_repo = query_get q ''repo'', qy_number = query_get q ''number'', qy_kind = query_get q ''kind'',
      qy_refresh = query_get q ''refresh''\<rparr>)"

lemma read_pr_path:
  "read_pr_query (drop 4 (pr_path repo n kind refresh))
    = \<lparr>qy_repo = repo, qy_number = dec_int n, qy_kind = kind, qy_refresh = (if refresh then ''1'' else [])\<rparr>"
  by (simp add: read_pr_query_def pr_path_def parse_encode_query query_get_def)

text \<open>The cache at a URL: what it answers to a request, \<open>at\<close> being the time it reports.\<close>

definition cache_net ::
    "(string \<Rightarrow> string) \<Rightarrow> reads \<Rightarrow> (string \<Rightarrow> int \<Rightarrow> string \<Rightarrow> (string, string) res) \<Rightarrow> string \<Rightarrow> pr_cache \<Rightarrow> string
     \<Rightarrow> string \<Rightarrow> (string, cache_reply) res" where
  "cache_net quote t fetch at pc base u =
     (if has_prefix u (base @ ''/pr?'') then
        (let r = fst (handle_pr quote t fetch (read_pr_query (drop (length base + 4) u)) pc) in
         Inr \<lparr>hr_status = nat (rs_status r), hr_source = rs_cache r, hr_stale = (if rs_stale r then ''true'' else []),
           hr_fetched = at, hr_body = rs_body r\<rparr>)
      else Inl ''no such page'')"

lemma atoi_or_0_dec_int: "0 < n \<Longrightarrow> n \<le> 9223372036854775807 \<Longrightarrow> atoi_or_0 (dec_int n) = n"
proof -
  assume n: "0 < n" "n \<le> 9223372036854775807"
  have "hd (dec (nat n)) \<noteq> CHR ''-''" "hd (dec (nat n)) \<noteq> CHR ''+''"
    using dec_digits [of "hd (dec (nat n))" "nat n"] by (auto simp: is_digit_def digit_val_def)
  then show ?thesis using n by (simp add: atoi_or_0_def dec_int_def)
qed

lemma cache_net_pr:
  assumes "0 < n" "n \<le> 9223372036854775807" "kind \<in> {''view'', ''diff''}"
  shows "cache_net quote t fetch at pc base (base @ pr_path repo n kind refresh) =
    (case fst (get_pr t (fetch repo n kind) repo n kind refresh pc) of
       Inl e \<Rightarrow> Inr \<lparr>hr_status = nat (err_status (err_text quote e)), hr_source = [], hr_stale = [], hr_fetched = at,
                  hr_body = err_text quote e @ [CHR 0x0A]\<rparr>
     | Inr e \<Rightarrow> Inr \<lparr>hr_status = 200, hr_source = en_source e, hr_stale = (if en_stale e then ''true'' else []), hr_fetched = at,
                  hr_body = en_body e\<rparr>)"
proof -
  have pre: "has_prefix (base @ pr_path repo n kind refresh) (base @ ''/pr?'')"
    by (auto simp: has_prefix_iff pr_path_def)
  have d: "drop (length base + 4) (base @ pr_path repo n kind refresh) = drop 4 (pr_path repo n kind refresh)" by simp
  have k: "kind \<noteq> []" using assms(3) by auto
  obtain r pc' where g: "get_pr t (fetch repo n kind) repo n kind refresh pc = (r, pc')" by fastforce
  have h: "fst (handle_pr quote t fetch (read_pr_query (drop 4 (pr_path repo n kind refresh))) pc) =
    (case r of
       Inl e \<Rightarrow> \<lparr>rs_status = err_status (err_text quote e), rs_content_type = ''text/plain; charset=utf-8'', rs_cache = [],
                  rs_stale = False, rs_body = err_text quote e @ [CHR 0x0A]\<rparr>
     | Inr e \<Rightarrow> \<lparr>rs_status = 200, rs_content_type = (if kind = ''diff'' then ''text/plain; charset=utf-8'' else ''application/json''),
                  rs_cache = en_source e, rs_stale = en_stale e, rs_body = en_body e\<rparr>)"
    unfolding read_pr_path using k g by (cases refresh; cases r) (simp_all add: handle_pr_def Let_def atoi_or_0_dec_int [OF assms(1,2)])
  show ?thesis
    unfolding cache_net_def Let_def d h g using pre by (cases r) simp_all
qed

text \<open>
  C6: a \<open>pr.get\<close> with good arguments tells the client what the cache behind it has for that very
  pull request: the body it serves, marked with its source and whether it is stale, or its error.
\<close>

theorem wrapper_serves_cache:
  assumes "string_arg as ''repo'' = repo" "repo_name repo"
    and "number_arg float_int (map_of as ''number'') = Some n" "0 < n" "n \<le> 9223372036854775807"
    and "string_arg as ''kind'' = kind" "kind = ''view'' \<or> kind = ''diff''"
    and "(map_of as ''refresh'' = Some (JBool True)) = refresh"
  shows "fst (tool_pr_get float_int (cache_net quote t fetch at pc (wc_cache_url c)) c i as) =
    (case fst (get_pr t (fetch repo n kind) repo n kind refresh pc) of
       Inl e \<Rightarrow> tool_error i (''cache: '' @ dec (nat (err_status (err_text quote e))) @ '' ''
                  @ trim_space (take max_body (err_text quote e @ [CHR 0x0A])))
     | Inr e \<Rightarrow> Reply_Result i (JObj
         [(''_meta'', JObj [(''bytes'', JNum (dec (length (take max_body (en_body e))))), (''fetched_at'', JStr at),
             (''kind'', JStr kind), (''source'', JStr (en_source e)), (''stale'', JBool (en_stale e))]),
          (''content'', text_content (take max_body (en_body e))), (''isError'', JBool False)]))"
proof -
  have k: "kind \<noteq> []" "kind \<in> {''view'', ''diff''}" using assms(7) by auto
  have "err_status x \<noteq> 200" "nat (err_status x) \<noteq> 200" for x by (simp_all add: err_status_def)
  then show ?thesis
    using assms k cache_net_pr [OF assms(4,5) k(2), of quote t fetch at pc "wc_cache_url c" repo refresh]
    by (auto simp: tool_pr_get_def Let_def cache_get_def tool_text_def pr_meta_def split: sum.splits)
qed

theorem wrapper_serves_cache_witness:
  "fst (tool_pr_get (\<lambda>_. Some 7) (cache_net (\<lambda>s. s) (clock_at 5) (\<lambda>_ _ _. Inr ''body'') ''now'' empty_cache ''http://c'')
      \<lparr>wc_name = ''pr'', wc_listen = [], wc_cache_url = ''http://c'', wc_version = []\<rparr> ''1''
      [(''repo'', JStr ''o/r''), (''number'', JNum ''7''), (''kind'', JStr ''diff''), (''refresh'', JBool True)])
    = Reply_Result ''1'' (JObj
        [(''_meta'', JObj [(''bytes'', JNum ''4''), (''fetched_at'', JStr ''now''), (''kind'', JStr ''diff''),
            (''source'', JStr ''gh''), (''stale'', JBool False)]),
         (''content'', text_content ''body''), (''isError'', JBool False)])"
proof -
  define as where "as = [(''repo'', JStr ''o/r''), (''number'', JNum ''7''), (''kind'', JStr ''diff''), (''refresh'', JBool True)]"
  have g: "fst (get_pr (clock_at 5) (Inr ''body'') ''o/r'' 7 ''diff'' True empty_cache) = Inr (new_entry open_config ''o/r'' 7 ''diff'' ''body'' 5)"
    using valid_o_r by (simp add: get_pr_def fetch_pr_def put_row_def empty_cache_def Let_def clock_at_def)
  have "string_arg as ''repo'' = ''o/r''" "repo_name ''o/r''" "number_arg (\<lambda>_. Some 7) (map_of as ''number'') = Some 7"
    "string_arg as ''kind'' = ''diff''" "(map_of as ''refresh'' = Some (JBool True)) = True"
    by (simp_all add: as_def string_arg_def number_arg_def repo_name_def repo_char_def is_alnum_def is_letter_def)
  note w = wrapper_serves_cache [OF this(1-3) _ _ this(4) _ this(5), where quote = "\<lambda>s. s" and t = "clock_at 5"
      and fetch = "\<lambda>_ _ _. Inr ''body''" and at = "''now''" and pc = empty_cache and i = "''1''"
      and c = "\<lparr>wc_name = ''pr'', wc_listen = [], wc_cache_url = ''http://c'', wc_version = []\<rparr>"]
  have b: "take max_body ''body'' = ''body''" by (rule take_all) (simp add: max_body_def)
  show ?thesis
    unfolding as_def [symmetric] using w g b by (simp add: new_entry_def dec_eval)
qed

section \<open>What modelling showed\<close>

text \<open>A body that is longer than the limit is cut, and reported as whole.\<close>

lemma long_body_is_cut:
  assumes "net (wc_cache_url c @ path) = Inr r" "hr_status r = 200"
  shows "cache_get net c path = Inr (take max_body (hr_body r), r)"
  using assms by (simp add: cache_get_def)

end
