(* ===== verification/Service.thy ===== *)
theory Service
  imports Tools NetAddr
begin

text \<open>
  The launchd services (\<open>internal/service/launchd.go\<close>, \<open>preflight.go\<close>): the property list of a service,
  its installation, listing, removal and purge, and the probe of the address a profile claims. What
  \<open>launchctl\<close>, \<open>lsof\<close> and the listener answer are parameters.
\<close>

section \<open>Labels and property lists\<close>

definition label_prefix :: string where "label_prefix = ''co.james-gibson.lab.''"

definition launchd_label :: "string \<Rightarrow> string \<Rightarrow> string" where
  "launchd_label tool profile = label_prefix @ tool @ ''.'' @ profile"

definition parse_label :: "string \<Rightarrow> (string \<times> string) option" where
  "parse_label l = (if has_prefix l label_prefix then cut_last (CHR ''.'') (trim_prefix l label_prefix) else None)"

record plist_data =
  pl_label :: string
  pl_bin :: string
  pl_args :: "string list"
  pl_log_dir :: string
  pl_home :: string
  pl_path :: string

definition tabs :: "nat \<Rightarrow> string \<Rightarrow> string" where "tabs n s = replicate n (CHR 0x09) @ s"
definition key_line :: "string \<Rightarrow> string" where "key_line k = ''<key>'' @ k @ ''</key>''"
definition string_line :: "string \<Rightarrow> string" where "string_line s = ''<string>'' @ s @ ''</string>''"

definition plist_head :: "plist_data \<Rightarrow> string list" where
  "plist_head p =
     [''<?xml version=\"1.0\" encoding=\"UTF-8\"?>'',
      ''<!DOCTYPE plist PUBLIC \"-//Apple//DTD PLIST 1.0//EN\" \"http://www.apple.com/DTDs/PropertyList-1.0.dtd\">'',
      ''<plist version=\"1.0\">'', ''<dict>'',
      tabs 1 (key_line ''Label''), tabs 1 (string_line (pl_label p)), tabs 1 (key_line ''ProgramArguments'')]"

definition plist_rest :: "plist_data \<Rightarrow> string list" where
  "plist_rest p =
     [tabs 1 (key_line ''RunAtLoad''), tabs 1 ''<true/>'', tabs 1 (key_line ''KeepAlive''), tabs 1 ''<true/>'',
      tabs 1 (key_line ''EnvironmentVariables''), tabs 1 ''<dict>'',
      tabs 2 (key_line ''HOME''), tabs 2 (string_line (pl_home p)),
      tabs 2 (key_line ''PATH''), tabs 2 (string_line (pl_path p)),
      tabs 1 ''</dict>'',
      tabs 1 (key_line ''StandardOutPath''), tabs 1 (string_line (pl_log_dir p @ ''/'' @ pl_label p @ ''.log'')),
      tabs 1 (key_line ''StandardErrorPath''), tabs 1 (string_line (pl_log_dir p @ ''/'' @ pl_label p @ ''.err'')),
      ''</dict>'', ''</plist>'']"

definition plist_lines :: "plist_data \<Rightarrow> string list" where
  "plist_lines p = plist_head p @ tabs 1 ''<array>'' # map (\<lambda>a. tabs 2 (string_line a)) (pl_bin p # pl_args p)
     @ tabs 1 ''</array>'' # plist_rest p"

definition render_plist :: "plist_data \<Rightarrow> string" where
  "render_plist p = concat (map (\<lambda>l. l @ [CHR 0x0A]) (plist_lines p))"

section \<open>The probe of the address\<close>

definition mcp_flag :: string where "mcp_flag = ''--mcp-addr''"

fun endpoint_arg :: "string list \<Rightarrow> string \<times> bool \<Rightarrow> string \<times> bool" where
  "endpoint_arg [] acc = acc"
| "endpoint_arg (a # as) (addr, m) =
     (if a = mcp_flag then (case as of [] \<Rightarrow> (addr, True) | v # r \<Rightarrow> endpoint_arg r (v, True))
      else if has_prefix a (mcp_flag @ ''='') then endpoint_arg as (trim_prefix a (mcp_flag @ ''=''), True)
      else endpoint_arg as (addr, m))"

definition probe_host :: "string \<Rightarrow> string" where
  "probe_host h =
     (if h = [] then ''127.0.0.1''
      else (case parse_ip h of Some i \<Rightarrow> if is_unspecified i then ''127.0.0.1'' else h | None \<Rightarrow> h))"

definition probe_address :: "string \<Rightarrow> string \<Rightarrow> string" where
  "probe_address h p = (if CHR '':'' \<in> set h then ''['' @ h @ '']:'' @ p else h @ '':'' @ p)"

text \<open>The error of a listener: whether its number is that of an address in use, and its text.\<close>

definition addr_in_use :: "bool \<times> string \<Rightarrow> bool" where
  "addr_in_use e \<longleftrightarrow> fst e \<or> contains (lower (snd e)) ''address already in use''"

record port_owner =
  po_pid :: int
  po_command :: string

definition flush_owner :: "port_owner list \<times> port_owner \<Rightarrow> port_owner list \<times> port_owner" where
  "flush_owner os = (if po_pid (snd os) \<noteq> 0 then fst os @ [snd os] else fst os, \<lparr>po_pid = 0, po_command = []\<rparr>)"

definition owner_line :: "string \<Rightarrow> port_owner list \<times> port_owner \<Rightarrow> port_owner list \<times> port_owner" where
  "owner_line l os =
     (case l of
        [] \<Rightarrow> os
      | c # r \<Rightarrow>
          if c = CHR ''p'' then
            (let (owners, cur) = flush_owner os in (owners, case atoi r of Some n \<Rightarrow> cur\<lparr>po_pid := n\<rparr> | None \<Rightarrow> cur))
          else if c = CHR ''c'' then (fst os, (snd os)\<lparr>po_command := r\<rparr>)
          else os)"

definition port_owners :: "string \<times> bool \<Rightarrow> port_owner list" where
  "port_owners lsof =
     (let (out, ok) = lsof in
      if \<not> ok \<and> out = [] then []
      else fst (flush_owner (fold owner_line (lines out) ([], \<lparr>po_pid = 0, po_command = []\<rparr>))))"

fun first_pid :: "string list \<Rightarrow> int" where
  "first_pid [] = 0"
| "first_pid (l # ls) =
     (let t = trim_space l in
      if has_prefix t ''\"PID\" = '' then
        (case atoi (trim_suffix (trim_prefix t ''\"PID\" = '') '';'') of Some n \<Rightarrow> n | None \<Rightarrow> first_pid ls)
      else first_pid ls)"

definition service_pid :: "string option \<Rightarrow> int" where
  "service_pid out = (case out of None \<Rightarrow> 0 | Some s \<Rightarrow> first_pid (lines s))"

definition held_by_own :: "port_owner list \<Rightarrow> int \<Rightarrow> bool" where
  "held_by_own owners own \<longleftrightarrow> own \<noteq> 0 \<and> owners \<noteq> [] \<and> list_all (\<lambda>o'. po_pid o' = own) owners"

datatype probe_note =
    No_Value
  | Not_Parsed string addr_err
  | Not_Fixed string string
  | Not_Proven string string
  | Held_By_Service string string

datatype service_err =
    Only_On_Macos
  | Mcp_Port_In_Use string "port_owner list"
  | No_Home
  | No_Agents_Dir
  | No_Log_Dir
  | Plist_Not_Written string
  | Not_Loaded string
  | Not_Unloaded string
  | Plist_Not_Removed string
  | Agents_Not_Read
  | Purge_Errors "string list"

record probes =
  pb_listen :: "string \<Rightarrow> (bool \<times> string) option"
  pb_lsof :: "string \<Rightarrow> string \<times> bool"
  pb_launchctl :: "string \<Rightarrow> string option"

definition check_endpoint :: "probes \<Rightarrow> string \<Rightarrow> string list \<Rightarrow> (service_err, probe_note list) res" where
  "check_endpoint e label args =
     (let (addr, mentioned) = endpoint_arg args ([], False) in
      if \<not> mentioned then Inr []
      else if addr = [] then Inr [No_Value]
      else
        (case split_host_port addr of
           Inl x \<Rightarrow> Inr [Not_Parsed addr x]
         | Inr (host, port) \<Rightarrow>
             (case atoi port of
                None \<Rightarrow> Inr [Not_Fixed addr port]
              | Some n \<Rightarrow>
                  if n = 0 then Inr []
                  else if n < 0 \<or> 65535 < n then Inr [Not_Fixed addr port]
                  else
                    (let probe = probe_address (probe_host host) port in
                     case pb_listen e probe of
                       None \<Rightarrow> Inr []
                     | Some err \<Rightarrow>
                         if \<not> addr_in_use err then Inr [Not_Proven probe (snd err)]
                         else
                           (let owners = port_owners (pb_lsof e port) in
                            if held_by_own owners (service_pid (pb_launchctl e label)) then Inr [Held_By_Service probe label]
                            else Inl (Mcp_Port_In_Use probe owners))))))"

section \<open>Services\<close>

text \<open>The files of \<open>~/Library/LaunchAgents\<close> and the labels launchd has loaded.\<close>

record launchd =
  la_files :: "(string, string) table"
  la_loaded :: "string list"

record service_env =
  se_goos :: string
  se_home :: string
  se_path :: string
  se_agents_dir :: bool
  se_log_dir :: bool
  se_writable :: "string \<Rightarrow> bool"
  se_loads :: "string \<Rightarrow> bool"
  se_unloads :: "string \<Rightarrow> bool"
  se_stuck :: "string \<Rightarrow> bool"

definition home_dir :: "service_env \<Rightarrow> string option" where
  "home_dir e = (if se_home e = [] then None else Some (se_home e))"

definition service_path :: "string option \<Rightarrow> string \<Rightarrow> string" where
  "service_path home path =
     (case tool_bin_dir home of
        None \<Rightarrow> path
      | Some b \<Rightarrow> if contains path b then path else if path = [] then b else b @ '':'' @ path)"

definition plist_name :: "string \<Rightarrow> string" where "plist_name label = label @ ''.plist''"

definition write_plist :: "service_env \<Rightarrow> string \<Rightarrow> string \<Rightarrow> string list \<Rightarrow> launchd \<Rightarrow> (service_err, unit) res \<times> launchd" where
  "write_plist e label bin args s =
     (if se_goos e \<noteq> ''darwin'' then (Inl Only_On_Macos, s)
      else
        (case home_dir e of
           None \<Rightarrow> (Inl No_Home, s)
         | Some h \<Rightarrow>
             if \<not> se_agents_dir e then (Inl No_Agents_Dir, s)
             else if \<not> se_log_dir e then (Inl No_Log_Dir, s)
             else if \<not> se_writable e (plist_name label) then (Inl (Plist_Not_Written label), s)
             else
               (Inr (), s\<lparr>la_files := AList.update (plist_name label)
                  (render_plist \<lparr>pl_label = label, pl_bin = bin, pl_args = args, pl_log_dir = join_path [h, ''.lezz'', ''logs''],
                     pl_home = se_home e, pl_path = service_path (home_dir e) (se_path e)\<rparr>) (la_files s)\<rparr>)))"

definition unload :: "service_env \<Rightarrow> string \<Rightarrow> launchd \<Rightarrow> launchd" where
  "unload e label s = (if se_unloads e label then s\<lparr>la_loaded := removeAll label (la_loaded s)\<rparr> else s)"

definition install_label :: "service_env \<Rightarrow> string \<Rightarrow> string \<Rightarrow> string list \<Rightarrow> launchd \<Rightarrow> (service_err, unit) res \<times> launchd" where
  "install_label e label bin args s =
     next_do (write_plist e label bin args s) (\<lambda>_ s1.
       (let s2 = unload e label s1 in
        if se_loads e label then (Inr (), s2\<lparr>la_loaded := label # la_loaded s2\<rparr>) else (Inl (Not_Loaded label), s2)))"

definition install_args :: "service_env \<Rightarrow> string \<Rightarrow> string \<Rightarrow> string \<Rightarrow> string list \<Rightarrow> launchd \<Rightarrow> (service_err, unit) res \<times> launchd" where
  "install_args e tool profile bin args s = install_label e (launchd_label tool profile) bin args s"

definition install_service ::
    "service_env \<Rightarrow> probes \<Rightarrow> tool \<Rightarrow> daemon_profile \<Rightarrow> string \<Rightarrow> bool \<Rightarrow> launchd
     \<Rightarrow> (service_err, probe_note list) res \<times> launchd" where
  "install_service e pb t p bin force s =
     (if se_goos e \<noteq> ''darwin'' then (Inl Only_On_Macos, s)
      else
        next_do (if force then Inr [] else check_endpoint pb (launchd_label (tl_name t) (dp_name p)) (dp_args p), s)
          (\<lambda>ns s1. next_do (install_args e (tl_name t) (dp_name p) bin (dp_args p) s1) (\<lambda>_ s2. (Inr ns, s2))))"

definition remove_service :: "service_env \<Rightarrow> string \<Rightarrow> string \<Rightarrow> launchd \<Rightarrow> (service_err, unit) res \<times> launchd" where
  "remove_service e tool profile s =
     (let label = launchd_label tool profile in
      if se_goos e \<noteq> ''darwin'' then (Inl Only_On_Macos, s)
      else if home_dir e = None then (Inl No_Home, s)
      else if \<not> se_agents_dir e then (Inl No_Agents_Dir, s)
      else if \<not> se_unloads e label then (Inl (Not_Unloaded label), s)
      else
        (let s1 = unload e label s; n = plist_name label in
         if map_of (la_files s1) n \<noteq> None \<and> se_stuck e n then (Inl (Plist_Not_Removed label), s1)
         else (Inr (), s1\<lparr>la_files := AList.delete n (la_files s1)\<rparr>)))"

record service_info =
  sv_label :: string
  sv_running :: bool

definition our_plist :: "string \<Rightarrow> bool" where
  "our_plist n \<longleftrightarrow> has_prefix n label_prefix \<and> has_suffix n ''.plist''"

definition list_services :: "service_env \<Rightarrow> launchd \<Rightarrow> (service_err, service_info list) res" where
  "list_services e s =
     (if se_goos e \<noteq> ''darwin'' then Inl Only_On_Macos
      else if home_dir e = None then Inl No_Home
      else if \<not> se_agents_dir e then Inl No_Agents_Dir
      else Inr (map (\<lambda>n. let l = trim_suffix n ''.plist'' in \<lparr>sv_label = l, sv_running = l \<in> set (la_loaded s)\<rparr>)
             (filter our_plist (sort (map fst (la_files s))))))"

definition purge_one :: "service_env \<Rightarrow> string \<Rightarrow> launchd \<Rightarrow> bool \<times> launchd" where
  "purge_one e l s =
     (let s1 = unload e l s; n = plist_name l in
      if map_of (la_files s1) n \<noteq> None \<and> se_stuck e n then (True, s1)
      else (False, s1\<lparr>la_files := AList.delete n (la_files s1)\<rparr>))"

fun purge_services :: "service_env \<Rightarrow> service_info list \<Rightarrow> launchd \<Rightarrow> string list \<times> launchd" where
  "purge_services e [] s = ([], s)"
| "purge_services e (i # is) s =
     (let (stays, s1) = purge_one e (sv_label i) s; (errs, s2) = purge_services e is s1 in
      (if stays then sv_label i # errs else errs, s2))"

definition purge_all :: "service_env \<Rightarrow> launchd \<Rightarrow> (service_err, unit) res \<times> launchd" where
  "purge_all e s =
     next_do (list_services e s, s) (\<lambda>is s1.
       (let (errs, s2) = purge_services e is s1 in (if errs = [] then Inr () else Inl (Purge_Errors errs), s2)))"

definition plist_path :: "service_env \<Rightarrow> string \<Rightarrow> string \<Rightarrow> (service_err, string) res" where
  "plist_path e tool profile =
     (case home_dir e of
        None \<Rightarrow> Inl No_Home
      | Some h \<Rightarrow> if \<not> se_agents_dir e then Inl No_Agents_Dir
          else Inr (join_path [join_path [h, ''Library'', ''LaunchAgents''], plist_name (launchd_label tool profile)]))"

section \<open>Labels\<close>

text \<open>
  The label of a service is read back as its tool and profile, as long as the profile has no dot;
  the tool may have some.
\<close>

theorem label_read_back:
  assumes "CHR ''.'' \<notin> set profile"
  shows "parse_label (launchd_label tool profile) = Some (tool, profile)"
proof -
  have "launchd_label tool profile = label_prefix @ (tool @ CHR ''.'' # profile)" by (simp add: launchd_label_def)
  then show ?thesis
    using assms by (simp only: parse_label_def has_prefix_append trim_prefix_append if_True) (simp add: cut_last_Some)
qed

theorem label_read_back_witness: "parse_label (launchd_label ''ocd-smoke.alarm'' ''idle'') = Some (''ocd-smoke.alarm'', ''idle'')"
  by (rule label_read_back) simp

section \<open>What launchd reads\<close>

text \<open>The program of a property list, as a reader of it sees: the texts of the first array. A text with
  markup in it is not one.\<close>

definition plain_text :: "string \<Rightarrow> bool" where
  "plain_text s \<longleftrightarrow> list_all (\<lambda>c. c \<notin> {CHR ''<'', CHR ''>'', CHR ''&'', CHR 0x0A, CHR 0x0D}) s"

definition read_text :: "string \<Rightarrow> string option" where
  "read_text l =
     (let t = tabs 2 ''<string>'' in
      if has_prefix l t \<and> has_suffix l ''</string>'' \<and> plain_text (trim_suffix (trim_prefix l t) ''</string>'')
      then Some (trim_suffix (trim_prefix l t) ''</string>'') else None)"

fun all_some :: "'a option list \<Rightarrow> 'a list option" where
  "all_some [] = Some []"
| "all_some (None # xs) = None"
| "all_some (Some x # xs) = map_option (\<lambda>ys. x # ys) (all_some xs)"

definition read_program :: "string \<Rightarrow> string list option" where
  "read_program text' =
     (let ls = tl (dropWhile (\<lambda>l. l \<noteq> tabs 1 ''<array>'') (lines text')) in
      all_some (map read_text (takeWhile (\<lambda>l. l \<noteq> tabs 1 ''</array>'') ls)))"

lemma read_string_line: "read_text (tabs 2 (string_line s)) = (if plain_text s then Some s else None)"
proof -
  have "tabs 2 (string_line s) = tabs 2 ''<string>'' @ (s @ ''</string>'')" by (simp add: tabs_def string_line_def)
  moreover have "tabs 2 (string_line s) = (tabs 2 ''<string>'' @ s) @ ''</string>''" by (simp add: tabs_def string_line_def)
  ultimately show ?thesis
    by (simp only: read_text_def Let_def has_prefix_append trim_prefix_append trim_suffix_append)
      (metis has_suffix_append)
qed

lemma string_line_other: "tabs 2 (string_line s) \<noteq> tabs 1 t" if "t = ''<array>'' \<or> t = ''</array>''"
  using that by (auto simp: tabs_def numeral_2_eq_2)

lemma all_some_plain: "all_some (map (\<lambda>s. if plain_text s then Some s else None) ss) = (if list_all plain_text ss then Some ss else None)"
  by (induction ss) auto

text \<open>No field breaks a line.\<close>

definition plist_ok :: "plist_data \<Rightarrow> bool" where
  "plist_ok p \<longleftrightarrow> list_all (\<lambda>s. CHR 0x0A \<notin> set s) ([pl_label p, pl_log_dir p, pl_home p, pl_path p, pl_bin p] @ pl_args p)"

lemma no_break: "CHR 0x0A \<notin> set (tabs n s) \<longleftrightarrow> CHR 0x0A \<notin> set s" "CHR 0x0A \<notin> set (key_line s) \<longleftrightarrow> CHR 0x0A \<notin> set s"
  "CHR 0x0A \<notin> set (string_line s) \<longleftrightarrow> CHR 0x0A \<notin> set s"
  by (auto simp: tabs_def key_line_def string_line_def)

lemma plist_lines_ok: "plist_ok p \<Longrightarrow> list_all (\<lambda>l. CHR 0x0A \<notin> set l) (plist_lines p)"
  by (auto simp: plist_ok_def plist_lines_def plist_head_def plist_rest_def no_break list_all_iff)

lemma drop_head: "x \<notin> set xs \<Longrightarrow> dropWhile (\<lambda>l. l \<noteq> x) (xs @ x # ys) = x # ys"
  by (induction xs) auto

lemma take_until: "list_all (\<lambda>l. l \<noteq> x) xs \<Longrightarrow> takeWhile (\<lambda>l. l \<noteq> x) (xs @ x # ys) = xs"
  by (induction xs) auto

lemma read_program_render:
  assumes "plist_ok p"
  shows "read_program (render_plist p) = (if list_all plain_text (pl_bin p # pl_args p) then Some (pl_bin p # pl_args p) else None)"
proof -
  define ss where "ss = pl_bin p # pl_args p"
  have pl: "plist_lines p = plist_head p @ tabs 1 ''<array>'' # map (\<lambda>a. tabs 2 (string_line a)) ss @ tabs 1 ''</array>'' # plist_rest p"
    by (simp add: plist_lines_def ss_def)
  have pre: "tabs 1 ''<array>'' \<notin> set (plist_head p)"
    by (simp add: plist_head_def tabs_def key_line_def string_line_def)
  have "lines (render_plist p) = plist_lines p @ [[]]"
    unfolding render_plist_def by (rule lines_concat [OF plist_lines_ok [OF assms]])
  then have "tl (dropWhile (\<lambda>l. l \<noteq> tabs 1 ''<array>'') (lines (render_plist p)))
      = map (\<lambda>a. tabs 2 (string_line a)) ss @ tabs 1 ''</array>'' # plist_rest p @ [[]]"
    using pre by (simp add: pl drop_head)
  moreover have "takeWhile (\<lambda>l. l \<noteq> tabs 1 ''</array>'') (map (\<lambda>a. tabs 2 (string_line a)) ss @ tabs 1 ''</array>'' # plist_rest p @ [[]])
      = map (\<lambda>a. tabs 2 (string_line a)) ss"
    by (rule take_until) (auto simp: list_all_iff string_line_other [simplified])
  ultimately have "read_program (render_plist p) = all_some (map (\<lambda>s. if plain_text s then Some s else None) ss)"
    by (simp add: read_program_def Let_def comp_def read_string_line)
  then show ?thesis unfolding all_some_plain ss_def by simp
qed

section \<open>Installing\<close>

lemma install_label_ends:
  "case install_label e label bin args s of
     (Inl err, s') \<Rightarrow> s' = s \<or> err = Not_Loaded label
   | (Inr _, s') \<Rightarrow> label \<in> set (la_loaded s') \<and> (\<exists>p. map_of (la_files s') = (map_of (la_files s))(plist_name label \<mapsto> render_plist p)
       \<and> pl_bin p = bin \<and> pl_args p = args \<and> pl_label p = label \<and> pl_home p = se_home e
       \<and> pl_log_dir p = join_path [se_home e, ''.lezz'', ''logs''] \<and> pl_path p = service_path (home_dir e) (se_path e))"
  by (auto simp: install_label_def write_plist_def unload_def Let_def home_dir_def update_conv split: option.splits)

definition one_line :: "string \<Rightarrow> bool" where "one_line s \<longleftrightarrow> CHR 0x0A \<notin> set s"

lemma install_service_ends:
  "case install_service e pb t p bin force s of
     (Inl err, s') \<Rightarrow> s' = s \<or> err = Not_Loaded (launchd_label (tl_name t) (dp_name p))
   | (Inr ns, s') \<Rightarrow>
       launchd_label (tl_name t) (dp_name p) \<in> set (la_loaded s')
       \<and> (\<exists>text'. map_of (la_files s') = (map_of (la_files s))(plist_name (launchd_label (tl_name t) (dp_name p)) \<mapsto> text')
           \<and> (if list_all plain_text (bin # dp_args p)
                \<and> list_all one_line [launchd_label (tl_name t) (dp_name p), se_home e, join_path [se_home e, ''.lezz'', ''logs''],
                    service_path (home_dir e) (se_path e)]
              then read_program text' = Some (bin # dp_args p) else True))"
proof -
  define label where "label = launchd_label (tl_name t) (dp_name p)"
  note i = install_label_ends [where e = e and label = label and bin = bin and args = "dp_args p" and s = s]
  have plain: "CHR 0x0A \<notin> set x" if "plain_text x" for x using that by (auto simp: plain_text_def list_all_iff)
  show ?thesis
  proof (cases "se_goos e \<noteq> ''darwin'' \<or> \<not> is_ok (if force then Inr [] else check_endpoint pb label (dp_args p))")
    case True
    then show ?thesis
      by (cases "check_endpoint pb label (dp_args p)") (auto simp: install_service_def label_def split: if_splits)
  next
    case False
    then obtain ns where ns: "(if force then Inr [] else check_endpoint pb label (dp_args p)) = Inr ns" by (auto simp: is_ok_iff)
    obtain r s' where r: "install_label e label bin (dp_args p) s = (r, s')" by fastforce
    have run: "install_service e pb t p bin force s = (case r of Inl x \<Rightarrow> (Inl x, s') | Inr _ \<Rightarrow> (Inr ns, s'))"
      unfolding install_service_def install_args_def label_def [symmetric] ns using False r by (cases r) simp_all
    show ?thesis
    proof (cases r)
      case (Inl x)
      then show ?thesis using i r run by (simp add: label_def)
    next
      case (Inr u)
      then obtain q where q: "label \<in> set (la_loaded s')" "map_of (la_files s') = (map_of (la_files s))(plist_name label \<mapsto> render_plist q)"
        "pl_bin q = bin" "pl_args q = dp_args p" "pl_label q = label" "pl_home q = se_home e"
        "pl_log_dir q = join_path [se_home e, ''.lezz'', ''logs'']" "pl_path q = service_path (home_dir e) (se_path e)"
        using i r by auto
      have "read_program (render_plist q) = Some (bin # dp_args p)"
        if "list_all plain_text (bin # dp_args p)"
          "list_all one_line [label, se_home e, join_path [se_home e, ''.lezz'', ''logs''], service_path (home_dir e) (se_path e)]"
        using that q plain read_program_render [of q] by (auto simp: plist_ok_def one_line_def list_all_iff)
      then show ?thesis using run Inr q(1,2) unfolding label_def [symmetric] by auto
    qed
  qed
qed


text \<open>
  The only services that are refused for their address are those whose profile claims a fixed port
  that cannot be bound because it is in use, by something else than the running instance of the service.
\<close>

theorem only_proven_conflicts_refused:
  "is_ok (check_endpoint e label args) \<longleftrightarrow>
    \<not> (snd (endpoint_arg args ([], False))
       \<and> (\<exists>host port n err. split_host_port (fst (endpoint_arg args ([], False))) = Inr (host, port) \<and> atoi port = Some n
          \<and> 0 < n \<and> n \<le> 65535 \<and> pb_listen e (probe_address (probe_host host) port) = Some err \<and> addr_in_use err
          \<and> \<not> held_by_own (port_owners (pb_lsof e port)) (service_pid (pb_launchctl e label))))"
proof -
  obtain addr m where am: "endpoint_arg args ([], False) = (addr, m)" by fastforce
  have empty: "split_host_port [] = Inl Missing_Port" by (simp add: split_host_port_def cut_last_def)
  show ?thesis
  proof (cases "m \<and> addr \<noteq> []")
    case False
    then show ?thesis using am empty by (auto simp: check_endpoint_def)
  next
    case True
    show ?thesis
    proof (cases "split_host_port addr")
      case (Inl x)
      then show ?thesis using am True by (simp add: check_endpoint_def)
    next
      case (Inr hp)
      obtain host port where hp: "hp = (host, port)" by fastforce
      show ?thesis
        using am True Inr hp
        by (cases "atoi port"; cases "pb_listen e (probe_address (probe_host host) port)") (auto simp: check_endpoint_def Let_def)
    qed
  qed
qed

section \<open>Purging\<close>

definition not_ours :: "(string, string) table \<Rightarrow> (string, string) table" where
  "not_ours fs = filter (\<lambda>x. \<not> our_plist (fst x)) fs"

lemma not_ours_delete: "our_plist n \<Longrightarrow> not_ours (AList.delete n fs) = not_ours fs"
  by (induction fs) (auto simp: not_ours_def AList.delete_eq)

lemma unload_files [simp]: "la_files (unload e l s) = la_files s"
  by (simp add: unload_def)

lemma purge_one_ends:
  "purge_one e l s = (stays, s') \<Longrightarrow> our_plist (plist_name l) \<Longrightarrow> not_ours (la_files s') = not_ours (la_files s)
    \<and> (\<forall>n. map_of (la_files s) n = None \<longrightarrow> map_of (la_files s') n = None)
    \<and> (\<not> stays \<longrightarrow> map_of (la_files s') (plist_name l) = None)"
  by (auto simp: purge_one_def Let_def not_ours_delete delete_conv split: if_splits)

lemma purge_services_ends:
  "purge_services e is s = (errs, s') \<Longrightarrow> list_all (\<lambda>i. our_plist (plist_name (sv_label i))) is \<Longrightarrow>
    not_ours (la_files s') = not_ours (la_files s)
    \<and> (\<forall>n. map_of (la_files s) n = None \<longrightarrow> map_of (la_files s') n = None)
    \<and> (errs = [] \<longrightarrow> (\<forall>i \<in> set is. map_of (la_files s') (plist_name (sv_label i)) = None))"
proof (induction "is" arbitrary: s errs s')
  case (Cons i js)
  obtain stays s1 where 1: "purge_one e (sv_label i) s = (stays, s1)" by fastforce
  obtain errs1 where 2: "purge_services e js s1 = (errs1, s')" "errs = (if stays then sv_label i # errs1 else errs1)"
    using Cons.prems(1) 1 by (auto split: prod.splits)
  show ?case
    using purge_one_ends [OF 1] Cons.IH [OF 2(1)] Cons.prems(2) 2(2) by (auto split: if_splits)
qed simp

lemma our_label: "our_plist n \<Longrightarrow> plist_name (trim_suffix n ''.plist'') = n"
  by (auto simp: our_plist_def plist_name_def has_suffix_iff)

lemma purge_all_ends:
  "case purge_all e s of (r, s') \<Rightarrow>
     not_ours (la_files s') = not_ours (la_files s)
     \<and> (if is_ok r then filter our_plist (map fst (la_files s')) = [] else True)"
proof (cases "list_services e s")
  case (Inl x)
  then show ?thesis by (simp add: purge_all_def)
next
  case (Inr is')
  then have iq: "is' = map (\<lambda>n. let l = trim_suffix n ''.plist'' in \<lparr>sv_label = l, sv_running = l \<in> set (la_loaded s)\<rparr>)
             (filter our_plist (sort (map fst (la_files s))))"
    by (simp add: list_services_def split: if_splits)
  obtain errs s' where p: "purge_services e is' s = (errs, s')" by fastforce
  have ours: "list_all (\<lambda>i. our_plist (plist_name (sv_label i))) is'"
    by (auto simp: iq list_all_iff Let_def our_label)
  note ends = purge_services_ends [OF p ours]
  have "filter our_plist (map fst (la_files s')) = []" if "errs = []"
  proof -
    have "map_of (la_files s') n = None" if "our_plist n" "map_of (la_files s) n \<noteq> None" for n
    proof -
      have "n \<in> set (filter our_plist (sort (map fst (la_files s))))" using that by (simp add: map_of_eq_None_iff)
      then obtain i where "i \<in> set is'" "sv_label i = trim_suffix n ''.plist''" by (force simp: iq Let_def)
      then show ?thesis using ends \<open>errs = []\<close> that(1) our_label [of n] by (metis (no_types))
    qed
    then have "\<not> our_plist n" if "n \<in> set (map fst (la_files s'))" for n
      using that ends by (metis list.set_map map_of_eq_None_iff)
    then show ?thesis by (simp add: filter_empty_conv)
  qed
  then show ?thesis using p Inr ends by (auto simp: purge_all_def)
qed

text \<open>
  A purge touches no file that is not a list of a lezz service, and one that ends well leaves none
  of those.
\<close>

theorem purge_removes_only_ours:
  "case purge_all e s of (r, s') \<Rightarrow>
     not_ours (la_files s') = not_ours (la_files s)
     \<and> (if is_ok r then filter our_plist (map fst (la_files s')) = [] else True)"
  by (rule purge_all_ends)

section \<open>What modelling showed\<close>

text \<open>An argument with markup in it makes a list that launchd cannot read.\<close>

lemma markup_breaks_the_list:
  "plist_ok p \<Longrightarrow> \<not> plain_text a \<Longrightarrow> a \<in> set (pl_args p) \<Longrightarrow> read_program (render_plist p) = None"
  by (auto simp: read_program_render list_all_iff)

text \<open>A directory whose name begins with that of the managed one counts as it.\<close>

lemma similar_directory_counts: "service_path (Some ''/h'') ''/h/.lezz/bin-old:/usr/bin'' = ''/h/.lezz/bin-old:/usr/bin''"
  by code_simp

text \<open>A profile with a dot is read back wrong.\<close>

lemma dotted_profile_misread: "parse_label (launchd_label ''lezz'' ''prod.2'') = Some (''lezz.prod'', ''2'')"
  by code_simp

end
