(* ===== verification/AppBundle.thy ===== *)
theory AppBundle
  imports Paths NetAddr
begin

text \<open>
  The application bundle of lezz (\<open>internal/appbundle/appbundle.go\<close>): its \<open>Info.plist\<close>, its installation
  and removal, the processes that run from it, and the read-out of an installed one. The contents of a
  binary are of an abstract type; \<open>ps\<close>, \<open>plutil\<close>, \<open>codesign\<close> and \<open>open\<close> are parameters.
\<close>

section \<open>The property list\<close>

definition default_bundle_id :: string where "default_bundle_id = ''co.james-gibson.lezz''"
definition default_name :: string where "default_name = ''Lezz''"
definition executable_name :: string where "executable_name = ''lezz''"

record bundle_config =
  bc_app_path :: string
  bc_name :: string
  bc_bundle_id :: string
  bc_version :: string
  bc_binary :: string
  bc_identity :: string
  bc_entitlements :: string
  bc_url_scheme :: string
  bc_dock :: bool
  bc_force :: bool

text \<open>\<open>xml.EscapeText\<close> on valid UTF-8; a control byte becomes U+FFFD.\<close>

definition xml_char :: "char \<Rightarrow> string" where
  "xml_char c =
     (if c = CHR 0x22 then ''&#34;'' else if c = CHR 0x27 then ''&#39;'' else if c = CHR ''&'' then ''&amp;''
      else if c = CHR ''<'' then ''&lt;'' else if c = CHR ''>'' then ''&gt;'' else if c = CHR 0x09 then ''&#x9;''
      else if c = CHR 0x0A then ''&#xA;'' else if c = CHR 0x0D then ''&#xD;''
      else if of_char c < (32 :: nat) then [CHR 0xEF, CHR 0xBF, CHR 0xBD] else [c])"

definition xml_escape :: "string \<Rightarrow> string" where
  "xml_escape s = concat (map xml_char s)"

definition tabbed :: "nat \<Rightarrow> string \<Rightarrow> string" where "tabbed n s = replicate n (CHR 0x09) @ s"
definition key_tag :: "string \<Rightarrow> string" where "key_tag k = ''<key>'' @ k @ ''</key>''"
definition string_tag :: "string \<Rightarrow> string" where "string_tag v = ''<string>'' @ xml_escape v @ ''</string>''"

definition string_entry :: "string \<Rightarrow> string \<Rightarrow> string list" where
  "string_entry k v = [tabbed 1 (key_tag (xml_escape k)), tabbed 1 (string_tag v)]"

definition flag_entry :: "string \<Rightarrow> bool \<Rightarrow> string list" where
  "flag_entry k v = [tabbed 1 (key_tag k), tabbed 1 (if v then ''<true/>'' else ''<false/>'')]"

definition identity_lines :: "bundle_config \<Rightarrow> string \<Rightarrow> string list" where
  "identity_lines c short =
     string_entry ''CFBundleDevelopmentRegion'' ''en'' @ string_entry ''CFBundleExecutable'' executable_name
     @ string_entry ''CFBundleIdentifier'' (bc_bundle_id c) @ string_entry ''CFBundleInfoDictionaryVersion'' ''6.0''
     @ string_entry ''CFBundleName'' (bc_name c) @ string_entry ''CFBundleDisplayName'' (bc_name c)
     @ string_entry ''CFBundlePackageType'' ''APPL'' @ string_entry ''CFBundleShortVersionString'' short
     @ string_entry ''CFBundleVersion'' ''1''"

definition system_lines :: "bundle_config \<Rightarrow> string list" where
  "system_lines c =
     string_entry ''CFBundleSignature'' ''????'' @ string_entry ''LSMinimumSystemVersion'' ''13.0''
     @ string_entry ''LSApplicationCategoryType'' ''public.app-category.developer-tools''
     @ string_entry ''NSLocalNetworkUsageDescription'' ''Lezz discovers and connects to lab cluster peers on the local network.''
     @ string_entry ''NSHumanReadableCopyright'' (''Copyright '' @ [CHR 0xC2, CHR 0xA9] @ '' James Gibson'')
     @ flag_entry ''NSHighResolutionCapable'' True @ flag_entry ''LSUIElement'' (\<not> bc_dock c)
     @ [tabbed 1 (key_tag ''NSBonjourServices''), tabbed 1 ''<array>'', tabbed 2 ''<string>_lezz-demo._tcp</string>'', tabbed 1 ''</array>'']"

definition scheme_lines :: "bundle_config \<Rightarrow> string list" where
  "scheme_lines c =
     (if bc_url_scheme c = [] then []
      else [tabbed 1 (key_tag ''CFBundleURLTypes''), tabbed 1 ''<array>'', tabbed 2 ''<dict>'']
        @ string_entry ''CFBundleURLName'' (bc_bundle_id c)
        @ [tabbed 3 (key_tag ''CFBundleURLSchemes''), tabbed 3 ''<array>'', tabbed 4 (string_tag (bc_url_scheme c)),
           tabbed 3 ''</array>'', tabbed 2 ''</dict>'', tabbed 1 ''</array>''])"

definition info_lines :: "bundle_config \<Rightarrow> string \<Rightarrow> string list" where
  "info_lines c short =
     [''<?xml version=\"1.0\" encoding=\"UTF-8\"?>'',
      ''<!DOCTYPE plist PUBLIC \"-//Apple//DTD PLIST 1.0//EN\" \"http://www.apple.com/DTDs/PropertyList-1.0.dtd\">'',
      ''<plist version=\"1.0\">'', ''<dict>'']
     @ identity_lines c short @ system_lines c @ scheme_lines c @ [''</dict>'', ''</plist>'']"

definition render_info_plist :: "bundle_config \<Rightarrow> string \<Rightarrow> string" where
  "render_info_plist c short = concat (map (\<lambda>l. l @ [CHR 0x0A]) (info_lines c short))"

definition trim_dots :: "string \<Rightarrow> string" where
  "trim_dots s = (let d = dropWhile (\<lambda>c. c = CHR ''.'') in rev (d (rev (d s))))"

definition plist_version :: "string \<Rightarrow> string" where
  "plist_version v =
     (let v1 = trim_space (trim_prefix v ''v'') in
      if v1 = [] \<or> v1 = ''dev'' then ''0.0.0''
      else
        (let short = trim_dots (takeWhile (\<lambda>c. is_digit c \<or> c = CHR ''.'') v1) in
         if short = [] then ''0.0.0'' else short))"

section \<open>Processes\<close>

definition pid_line :: "string \<Rightarrow> string \<Rightarrow> int option" where
  "pid_line exe l =
     (let t = trim_space l in
      if t = [] then None
      else
        (case cut_at (CHR '' '') t of
           None \<Rightarrow> None
         | Some (p, r) \<Rightarrow>
             (case atoi p of
                None \<Rightarrow> None
              | Some n \<Rightarrow>
                  (let cmd = trim_space r in if cmd = exe \<or> has_prefix cmd (exe @ '' '') then Some n else None))))"

definition running_pids :: "string \<Rightarrow> string \<Rightarrow> int list" where
  "running_pids exe ps = List.map_filter (pid_line exe) (lines ps)"

text \<open>\<open>CFBundleExecutable\<close> names the executable; \<open>plist\<close> is what \<open>plutil\<close> and the decoder give for it.\<close>

definition bundle_executable :: "string option \<Rightarrow> string option" where
  "bundle_executable plist = map_option (\<lambda>e. if e = [] then executable_name else e) plist"

definition executable_path :: "string \<Rightarrow> string option \<Rightarrow> string option" where
  "executable_path app plist = map_option (\<lambda>e. join_path [clean_path app, ''Contents'', ''MacOS'', e]) (bundle_executable plist)"

text \<open>\<open>Stop\<close>: a first look and a termination of each process; a look every 100 milliseconds until the
  deadline of three seconds; a last look and a kill. \<open>look i\<close> is what the \<open>i\<close>th look sees.\<close>

datatype signal = Term int | Kill int

fun await_exit :: "nat \<Rightarrow> (nat \<Rightarrow> int list) \<Rightarrow> nat \<Rightarrow> bool \<times> nat" where
  "await_exit 0 look i = (False, i)"
| "await_exit (Suc k) look i = (if look i = [] then (True, Suc i) else await_exit k look (Suc i))"

definition stop_looks :: nat where "stop_looks = 30"

definition stop_app :: "(nat \<Rightarrow> int list) \<Rightarrow> signal list" where
  "stop_app look =
     (let (gone, i) = await_exit stop_looks look 1 in
      map Term (look 0) @ (if gone then [] else map Kill (look i)))"

section \<open>The bundle on disk\<close>

record 'b bundle_files =
  bd_exe :: "'b option"
  bd_plist :: "string option"
  bd_pkg_info :: bool
  bd_signed :: "(string \<times> string) option"

datatype bundle_err =
    Not_Macos
  | No_Home_Dir
  | No_Executable
  | Not_Resolved
  | Runs_From_Bundle
  | Already_Exists
  | Not_Replaced
  | Not_Created
  | Not_Copied
  | Plist_Failed
  | Pkg_Info_Failed
  | No_Entitlements
  | Codesign_Failed
  | Codesign_Unverified
  | Not_Read
  | Still_Running
  | Bundle_Not_Removed

record 'b app_world =
  aw_bundle :: "'b bundle_files option"
  aw_signals :: "signal list"
  aw_registered :: bool
  aw_faults :: "bool list"

definition app_call :: "bundle_err \<Rightarrow> 'b app_world \<Rightarrow> (bundle_err, unit) res \<times> 'b app_world" where
  "app_call e w = (let (bad, fs) = next_fault (aw_faults w) in (or_fail (\<not> bad) e, w\<lparr>aw_faults := fs\<rparr>))"

record app_env =
  ae_goos :: string
  ae_home :: "string option"
  ae_identity :: string
  ae_self :: "string option"
  ae_resolve :: "string \<Rightarrow> string option"
  ae_look :: "nat \<Rightarrow> int list"
  ae_entitled :: "string \<Rightarrow> bool"

definition default_identity :: "app_env \<Rightarrow> string" where
  "default_identity e = (if trim_space (ae_identity e) \<noteq> [] then trim_space (ae_identity e) else ''-'')"

definition default_app_path :: "app_env \<Rightarrow> string option" where
  "default_app_path e = map_option (\<lambda>h. join_path [h, ''Applications'', default_name @ ''.app'']) (ae_home e)"

definition resolve_config :: "app_env \<Rightarrow> bundle_config \<Rightarrow> (bundle_err, bundle_config) res" where
  "resolve_config e c0 =
     (let c1 = (if bc_name c0 = [] then c0\<lparr>bc_name := default_name\<rparr> else c0);
          c2 = (if bc_bundle_id c1 = [] then c1\<lparr>bc_bundle_id := default_bundle_id\<rparr> else c1);
          c3 = (if bc_identity c2 = [] then c2\<lparr>bc_identity := default_identity e\<rparr> else c2) in
      and_then (if bc_app_path c3 \<noteq> [] then Inr c3
                else (case default_app_path e of None \<Rightarrow> Inl No_Home_Dir | Some p \<Rightarrow> Inr (c3\<lparr>bc_app_path := p\<rparr>)))
        (\<lambda>c4. if bc_binary c4 \<noteq> [] then Inr c4
              else (case ae_self e of None \<Rightarrow> Inl No_Executable | Some x \<Rightarrow> Inr (c4\<lparr>bc_binary := x\<rparr>))))"

definition app_path :: "bundle_config \<Rightarrow> string" where
  "app_path c = (let p = clean_path (bc_app_path c) in if has_suffix p ''.app'' then p else p @ ''.app'')"

definition clear_place :: "app_env \<Rightarrow> bool \<Rightarrow> 'b app_world \<Rightarrow> (bundle_err, unit) res \<times> 'b app_world" where
  "clear_place e force w =
     (if aw_bundle w = None then (Inr (), w)
      else if \<not> force then (Inl Already_Exists, w)
      else
        (let w1 = (if ae_look e 0 = [] then w else w\<lparr>aw_signals := aw_signals w @ stop_app (\<lambda>i. ae_look e (Suc i))\<rparr>) in
         next_do (app_call Not_Replaced w1) (\<lambda>_ w2. (Inr (), w2\<lparr>aw_bundle := None\<rparr>))))"

definition put_bundle :: "('b bundle_files \<Rightarrow> 'b bundle_files) \<Rightarrow> 'b app_world \<Rightarrow> 'b app_world" where
  "put_bundle f w = w\<lparr>aw_bundle := map_option f (aw_bundle w)\<rparr>"

definition sign_bundle :: "app_env \<Rightarrow> string \<Rightarrow> string \<Rightarrow> 'b app_world \<Rightarrow> (bundle_err, unit) res \<times> 'b app_world" where
  "sign_bundle e identity ent w =
     (let ident = (if identity = [] then ''-'' else identity) in
      if ae_goos e \<noteq> ''darwin'' then (Inl Not_Macos, w)
      else if ent \<noteq> [] \<and> \<not> ae_entitled e ent then (Inl No_Entitlements, w)
      else
        next_do (app_call Codesign_Failed w) (\<lambda>_ w1.
          app_call Codesign_Unverified (put_bundle (\<lambda>b. b\<lparr>bd_signed := Some (ident, ent)\<rparr>) w1)))"

definition fill_bundle :: "app_env \<Rightarrow> bundle_config \<Rightarrow> 'b \<Rightarrow> 'b app_world \<Rightarrow> (bundle_err, unit) res \<times> 'b app_world" where
  "fill_bundle e c exe w =
     next_do (app_call Not_Created w) (\<lambda>_ w0.
     next_do (app_call Not_Created (w0\<lparr>aw_bundle := Some \<lparr>bd_exe = None, bd_plist = None, bd_pkg_info = False, bd_signed = None\<rparr>\<rparr>)) (\<lambda>_ w1.
     next_do (app_call Not_Copied w1) (\<lambda>_ w2.
     next_do (app_call Plist_Failed (put_bundle (\<lambda>b. b\<lparr>bd_exe := Some exe\<rparr>) w2)) (\<lambda>_ w3.
     next_do (app_call Pkg_Info_Failed
         (put_bundle (\<lambda>b. b\<lparr>bd_plist := Some (render_info_plist c (plist_version (bc_version c)))\<rparr>) w3)) (\<lambda>_ w4.
       sign_bundle e (bc_identity c) (bc_entitlements c) (put_bundle (\<lambda>b. b\<lparr>bd_pkg_info := True\<rparr>) w4))))))"

text \<open>The installation, up to the read-out of what was installed.\<close>

definition install_app :: "app_env \<Rightarrow> (string \<Rightarrow> 'b) \<Rightarrow> bundle_config \<Rightarrow> 'b app_world \<Rightarrow> (bundle_err, unit) res \<times> 'b app_world" where
  "install_app e content c0 w =
     (if ae_goos e \<noteq> ''darwin'' then (Inl Not_Macos, w)
      else
        (case resolve_config e c0 of
           Inl x \<Rightarrow> (Inl x, w)
         | Inr c \<Rightarrow>
             (case ae_resolve e (bc_binary c) of
                None \<Rightarrow> (Inl Not_Resolved, w)
              | Some src \<Rightarrow>
                  if has_prefix src (app_path c @ ''/'') then (Inl Runs_From_Bundle, w)
                  else
                    next_do (clear_place e (bc_force c) w) (\<lambda>_ w1.
                    next_do (fill_bundle e c (content src) w1) (\<lambda>_ w2. (Inr (), w2\<lparr>aw_registered := True\<rparr>))))))"

definition uninstall_app :: "app_env \<Rightarrow> bool \<Rightarrow> 'b app_world \<Rightarrow> (bundle_err, unit) res \<times> 'b app_world" where
  "uninstall_app e force w =
     (if ae_goos e \<noteq> ''darwin'' then (Inl Not_Macos, w)
      else if ae_look e 0 \<noteq> [] \<and> \<not> force then (Inl Still_Running, w)
      else
        (let w1 = (if ae_look e 0 = [] then w else w\<lparr>aw_signals := aw_signals w @ stop_app (\<lambda>i. ae_look e (Suc i))\<rparr>) in
         next_do (app_call Bundle_Not_Removed (w1\<lparr>aw_registered := False\<rparr>)) (\<lambda>_ w2. (Inr (), w2\<lparr>aw_bundle := None\<rparr>))))"

definition launch_args :: "string \<Rightarrow> string list \<Rightarrow> bool \<Rightarrow> bool \<Rightarrow> string list" where
  "launch_args app args wait fresh =
     (if wait then [''-W''] else []) @ (if fresh then [''-n''] else []) @ [''-a'', app] @ (if args = [] then [] else ''--args'' # args)"

text \<open>What is read of an installed bundle: its list, as decoded, the signature of its executable, and the
  processes that run from it.\<close>

record plist_fields =
  pf_bundle_id :: string
  pf_name :: string
  pf_version :: string
  pf_build :: string
  pf_executable :: string
  pf_background :: bool
  pf_local_network :: string
  pf_bonjour :: "string list"

record app_info =
  ai_path :: string
  ai_fields :: plist_fields
  ai_signature :: string
  ai_authority :: string
  ai_team :: string
  ai_running :: "int list"

definition info_line :: "string \<Rightarrow> app_info \<Rightarrow> app_info" where
  "info_line l i =
     (if has_prefix l ''Authority='' then (if ai_authority i = [] then i\<lparr>ai_authority := trim_prefix l ''Authority=''\<rparr> else i)
      else if has_prefix l ''TeamIdentifier='' then i\<lparr>ai_team := trim_prefix l ''TeamIdentifier=''\<rparr>
      else if has_prefix l ''Signature='' then i\<lparr>ai_signature := trim_prefix l ''Signature=''\<rparr>
      else i)"

definition read_info :: "string \<Rightarrow> plist_fields option \<Rightarrow> (string \<Rightarrow> string option) \<Rightarrow> string option \<Rightarrow> string \<Rightarrow> (bundle_err, app_info) res" where
  "read_info goos decoded codesign ps app =
     (if goos \<noteq> ''darwin'' then Inl Not_Macos
      else
        (case decoded of
           None \<Rightarrow> Inl Not_Read
         | Some f \<Rightarrow>
             (case executable_path app (Some (pf_executable f)) of
                None \<Rightarrow> Inl Not_Read
              | Some exe \<Rightarrow>
                  (let i = \<lparr>ai_path = clean_path app, ai_fields = f, ai_signature = [], ai_authority = [], ai_team = [], ai_running = []\<rparr>;
                       i1 = (case codesign exe of None \<Rightarrow> i | Some out \<Rightarrow> fold info_line (lines out) i) in
                   Inr (i1\<lparr>ai_running := (case ps of None \<Rightarrow> [] | Some t \<Rightarrow> running_pids exe t)\<rparr>)))))"

section \<open>The list is read back\<close>

definition entities :: "(string \<times> char) list" where
  "entities = [(''&#34;'', CHR 0x22), (''&#39;'', CHR 0x27), (''&amp;'', CHR ''&''), (''&lt;'', CHR ''<''), (''&gt;'', CHR ''>''),
     (''&#x9;'', CHR 0x09), (''&#xA;'', CHR 0x0A), (''&#xD;'', CHR 0x0D)]"

function xml_unescape :: "string \<Rightarrow> string option" where
  "xml_unescape [] = Some []"
| "xml_unescape (c # r) =
     (if c = CHR ''&'' then
        (case find (\<lambda>e. has_prefix (c # r) (fst e)) entities of
           None \<Rightarrow> None
         | Some e \<Rightarrow> map_option (\<lambda>t. snd e # t) (xml_unescape (drop (length (fst e)) (c # r))))
      else if c = CHR ''<'' then None
      else map_option (\<lambda>t. c # t) (xml_unescape r))"
  by pat_completeness auto
termination
proof (relation "measure length", goal_cases)
  case (2 c r e)
  then have "fst e \<noteq> []" by (auto simp: find_Some_iff entities_def nth_Cons' split: if_splits)
  then show ?case by (cases "fst e") auto
qed auto

definition xml_plain :: "char \<Rightarrow> bool" where
  "xml_plain c \<longleftrightarrow> 32 \<le> (of_char c :: nat) \<or> c \<in> {CHR 0x09, CHR 0x0A, CHR 0x0D}"

lemma xml_unescape_char: "xml_plain c \<Longrightarrow> xml_unescape (xml_char c @ r) = map_option (\<lambda>t. c # t) (xml_unescape r)"
  by (auto simp: xml_char_def xml_plain_def entities_def has_prefix_def)

lemma xml_read_back: "list_all xml_plain s \<Longrightarrow> xml_unescape (xml_escape s) = Some s"
  by (induction s) (auto simp: xml_escape_def xml_unescape_char)

text \<open>A reader of the list: the text of the line after the one of the key.\<close>

definition read_tag :: "string \<Rightarrow> string option" where
  "read_tag l =
     (let t = tabbed 1 ''<string>'' in
      if has_prefix l t \<and> has_suffix l ''</string>'' then xml_unescape (trim_suffix (trim_prefix l t) ''</string>'') else None)"

fun read_key :: "string \<Rightarrow> string list \<Rightarrow> string option" where
  "read_key k [] = None"
| "read_key k (l # ls) = (if l = tabbed 1 (key_tag k) then (case ls of [] \<Rightarrow> None | v # _ \<Rightarrow> read_tag v) else read_key k ls)"

lemma read_string_tag: "read_tag (tabbed 1 (string_tag v)) = xml_unescape (xml_escape v)"
proof -
  have "tabbed 1 (string_tag v) = tabbed 1 ''<string>'' @ (xml_escape v @ ''</string>'')" by (simp add: tabbed_def string_tag_def)
  moreover have "tabbed 1 (string_tag v) = (tabbed 1 ''<string>'' @ xml_escape v) @ ''</string>''" by (simp add: tabbed_def string_tag_def)
  ultimately show ?thesis
    by (simp only: read_tag_def Let_def has_prefix_append trim_prefix_append trim_suffix_append) (metis has_suffix_append)
qed

lemma xml_escape_line: "CHR 0x0A \<notin> set (xml_escape s)"
  by (induction s) (auto simp: xml_escape_def xml_char_def)

lemma tag_line: "CHR 0x0A \<notin> set (tabbed n s) \<longleftrightarrow> CHR 0x0A \<notin> set s" "CHR 0x0A \<notin> set (key_tag k) \<longleftrightarrow> CHR 0x0A \<notin> set k"
  "CHR 0x0A \<notin> set (string_tag v)"
  using xml_escape_line by (auto simp: tabbed_def key_tag_def string_tag_def)

lemma info_lines_break: "list_all (\<lambda>l. CHR 0x0A \<notin> set l) (info_lines c short)"
  using xml_escape_line
  by (simp add: info_lines_def identity_lines_def system_lines_def scheme_lines_def string_entry_def flag_entry_def tag_line)

lemma key_not_string [simp]: "tabbed n (string_tag v) \<noteq> tabbed n (key_tag k)"
  by (simp add: tabbed_def string_tag_def key_tag_def)

lemma key_tag_eq [simp]: "tabbed n (key_tag k) = tabbed n (key_tag k') \<longleftrightarrow> k = k'"
  by (simp add: tabbed_def key_tag_def)

lemma escape_plain: "list_all (\<lambda>c. xml_char c = [c]) k \<Longrightarrow> xml_escape k = k"
  by (induction k) (auto simp: xml_escape_def)

lemma keys_plain:
  "xml_escape ''CFBundleDevelopmentRegion'' = ''CFBundleDevelopmentRegion''" "xml_escape ''CFBundleExecutable'' = ''CFBundleExecutable''"
  "xml_escape ''CFBundleIdentifier'' = ''CFBundleIdentifier''" "xml_escape ''CFBundleInfoDictionaryVersion'' = ''CFBundleInfoDictionaryVersion''"
  "xml_escape ''CFBundleName'' = ''CFBundleName''" "xml_escape ''CFBundleDisplayName'' = ''CFBundleDisplayName''"
  "xml_escape ''CFBundlePackageType'' = ''CFBundlePackageType''"
  "xml_escape ''CFBundleShortVersionString'' = ''CFBundleShortVersionString''" "xml_escape ''CFBundleVersion'' = ''CFBundleVersion''"
  by code_simp+

lemma read_key_skip: "l \<noteq> tabbed 1 (key_tag k) \<Longrightarrow> read_key k (l # ls) = read_key k ls"
  by simp

lemma read_key_entry: "xml_escape k' = k' \<Longrightarrow> read_key k (string_entry k' v @ ls) = (if k' = k then xml_unescape (xml_escape v) else read_key k ls)"
  by (simp add: string_entry_def read_string_tag [simplified])

lemma read_identity:
  "read_key ''CFBundleExecutable'' (identity_lines c short @ ls) = xml_unescape (xml_escape executable_name)"
  "read_key ''CFBundleIdentifier'' (identity_lines c short @ ls) = xml_unescape (xml_escape (bc_bundle_id c))"
  "read_key ''CFBundleName'' (identity_lines c short @ ls) = xml_unescape (xml_escape (bc_name c))"
  "read_key ''CFBundleShortVersionString'' (identity_lines c short @ ls) = xml_unescape (xml_escape short)"
  by (simp_all only: identity_lines_def append_assoc read_key_entry keys_plain) simp_all

lemma read_rendered: "read_key k (lines (render_info_plist c short)) = read_key k (info_lines c short @ [[]])"
  unfolding render_info_plist_def lines_concat [OF info_lines_break] ..

lemma read_head: "read_key k (info_lines c short @ [[]]) = read_key k (identity_lines c short @ system_lines c @ scheme_lines c @ [''</dict>'', ''</plist>''] @ [[]])"
  by (simp add: info_lines_def tabbed_def)



section \<open>Versions\<close>

text \<open>
  The version of a bundle is of the form macOS takes, whatever the version of the build is called:
  digits and dots, not empty, with no dot at either end.
\<close>

theorem plist_version_shape:
  "plist_version v \<noteq> [] \<and> list_all (\<lambda>c. is_digit c \<or> c = CHR ''.'') (plist_version v)
    \<and> hd (plist_version v) \<noteq> CHR ''.'' \<and> last (plist_version v) \<noteq> CHR ''.''"
proof -
  have z: "list_all (\<lambda>c. is_digit c \<or> c = CHR ''.'') ''0.0.0''" by (simp add: is_digit_def digit_val_def)
  have shape: "set (trim_dots s) \<subseteq> set s \<and> (trim_dots s \<noteq> [] \<longrightarrow> hd (trim_dots s) \<noteq> CHR ''.'' \<and> last (trim_dots s) \<noteq> CHR ''.'')" for s
  proof -
    define d where "d = dropWhile (\<lambda>c. c = CHR ''.'')"
    have sub: "set (d x) \<subseteq> set x" for x unfolding d_def by (rule set_dropWhileD [THEN subsetI])
    have hd: "d x \<noteq> [] \<Longrightarrow> hd (d x) \<noteq> CHR ''.''" for x unfolding d_def using hd_dropWhile [of "\<lambda>c. c = CHR ''.''" x] by blast
    have t: "trim_dots s = rev (d (rev (d s)))" by (simp add: trim_dots_def d_def Let_def)
    have "\<exists>u. d s = rev (d (rev (d s))) @ u"
      unfolding d_def by (metis rev_append rev_rev_ident takeWhile_dropWhile_id)
    then have h: "trim_dots s \<noteq> [] \<Longrightarrow> hd (trim_dots s) = hd (d s) \<and> d s \<noteq> []" unfolding t by (metis append_is_Nil_conv hd_append2)
    have l: "trim_dots s \<noteq> [] \<Longrightarrow> last (trim_dots s) = hd (d (rev (d s))) \<and> d (rev (d s)) \<noteq> []" unfolding t by (simp add: last_rev)
    have "set (trim_dots s) \<subseteq> set s" using sub [of "rev (d s)"] sub [of s] unfolding t by auto
    then show ?thesis using h l hd [of s] hd [of "rev (d s)"] by simp
  qed
  define short where "short = trim_dots (takeWhile (\<lambda>c. is_digit c \<or> c = CHR ''.'') (trim_space (trim_prefix v ''v'')))"
  have "plist_version v = ''0.0.0'' \<or> (plist_version v = short \<and> short \<noteq> [])"
    by (auto simp: plist_version_def Let_def short_def)
  moreover have "list_all (\<lambda>c. is_digit c \<or> c = CHR ''.'') short"
    using shape [of "takeWhile (\<lambda>c. is_digit c \<or> c = CHR ''.'') (trim_space (trim_prefix v ''v''))"]
    unfolding list_all_iff short_def by (blast dest: set_takeWhileD)
  ultimately show ?thesis using z shape unfolding short_def by auto
qed

section \<open>Installing\<close>

lemma app_call_keeps: "app_call e w = (r, w') \<Longrightarrow> aw_bundle w' = aw_bundle w \<and> aw_signals w' = aw_signals w \<and> aw_registered w' = aw_registered w"
  by (auto simp: app_call_def split: prod.splits)

lemma fill_bundle_Inr:
  assumes "fill_bundle e c exe w = (Inr u, w')"
  shows "aw_bundle w' = Some \<lparr>bd_exe = Some exe, bd_plist = Some (render_info_plist c (plist_version (bc_version c))), bd_pkg_info = True,
    bd_signed = Some (if bc_identity c = [] then ''-'' else bc_identity c, bc_entitlements c)\<rparr>"
proof -
  define none where "none = \<lparr>bd_exe = None :: 'a option, bd_plist = None, bd_pkg_info = False, bd_signed = None\<rparr>"
  obtain w0 where 0: "app_call Not_Created w = (Inr (), w0)" using assms by (auto simp: fill_bundle_def next_do_Inr)
  obtain w1 where 1: "app_call Not_Created (w0\<lparr>aw_bundle := Some none\<rparr>) = (Inr (), w1)"
    using assms by (auto simp: fill_bundle_def next_do_Inr 0 none_def)
  obtain w2 where 2: "app_call Not_Copied w1 = (Inr (), w2)" using assms by (auto simp: fill_bundle_def next_do_Inr 0 1 none_def [symmetric])
  obtain w3 where 3: "app_call Plist_Failed (put_bundle (\<lambda>b. b\<lparr>bd_exe := Some exe\<rparr>) w2) = (Inr (), w3)"
    using assms by (auto simp: fill_bundle_def next_do_Inr 0 1 2 none_def [symmetric])
  define p where "p = render_info_plist c (plist_version (bc_version c))"
  obtain w4 where 4: "app_call Pkg_Info_Failed (put_bundle (\<lambda>b. b\<lparr>bd_plist := Some p\<rparr>) w3) = (Inr (), w4)"
    using assms by (auto simp: fill_bundle_def next_do_Inr 0 1 2 3 none_def [symmetric] p_def [symmetric])
  define w5 where "w5 = put_bundle (\<lambda>b. b\<lparr>bd_pkg_info := True\<rparr>) w4"
  have s: "sign_bundle e (bc_identity c) (bc_entitlements c) w5 = (Inr u, w')"
    using assms by (simp add: fill_bundle_def 0 1 2 3 4 none_def [symmetric] p_def [symmetric] w5_def)
  have b5: "aw_bundle w5 = Some \<lparr>bd_exe = Some exe, bd_plist = Some p, bd_pkg_info = True, bd_signed = None\<rparr>"
    using app_call_keeps [OF 1] app_call_keeps [OF 2] app_call_keeps [OF 3] app_call_keeps [OF 4]
    by (simp add: w5_def put_bundle_def none_def)
  obtain w6 where 6: "app_call Codesign_Failed w5 = (Inr (), w6)"
    and 7: "app_call Codesign_Unverified (put_bundle (\<lambda>b. b\<lparr>bd_signed := Some (if bc_identity c = [] then ''-'' else bc_identity c, bc_entitlements c)\<rparr>) w6) = (Inr u, w')"
    using s by (auto simp: sign_bundle_def Let_def next_do_Inr split: if_splits)
  show ?thesis using app_call_keeps [OF 6] app_call_keeps [OF 7] b5 by (simp add: put_bundle_def p_def)
qed

text \<open>
  An installation that succeeds leaves one complete, signed bundle of the configured binary; a
  bundle that is there is never touched unless its replacement was forced, nor when the command runs
  from inside it.
\<close>

theorem installed_app_is_complete:
  "case install_app e content c0 w of
     (Inr _, w') \<Rightarrow> \<exists>c src. resolve_config e c0 = Inr c \<and> ae_resolve e (bc_binary c) = Some src
       \<and> (aw_bundle w = None \<or> bc_force c)
       \<and> aw_bundle w' = Some \<lparr>bd_exe = Some (content src), bd_plist = Some (render_info_plist c (plist_version (bc_version c))),
           bd_pkg_info = True, bd_signed = Some (if bc_identity c = [] then ''-'' else bc_identity c, bc_entitlements c)\<rparr>
   | (Inl err, w') \<Rightarrow>
       (if (aw_bundle w \<noteq> None \<and> \<not> bc_force c0) \<or> err = Runs_From_Bundle then aw_bundle w' = aw_bundle w \<and> aw_signals w' = aw_signals w
        else True)"
proof (cases "ae_goos e \<noteq> ''darwin''")
  case True
  then show ?thesis by (simp add: install_app_def)
next
  case mac: False
  show ?thesis
  proof (cases "resolve_config e c0")
    case (Inl x)
    then show ?thesis using mac by (simp add: install_app_def)
  next
    case c: (Inr c)
    have f: "bc_force c = bc_force c0"
      using c by (auto simp: resolve_config_def Let_def and_then_def split: sum.splits option.splits if_splits)
    show ?thesis
    proof (cases "ae_resolve e (bc_binary c)")
      case None
      then show ?thesis using mac c by (simp add: install_app_def)
    next
      case src: (Some src)
      show ?thesis
      proof (cases "has_prefix src (app_path c @ ''/'')")
        case True
        then show ?thesis using mac c src by (simp add: install_app_def)
      next
        case out: False
        obtain r1 w1 where 1: "clear_place e (bc_force c) w = (r1, w1)" by fastforce
        obtain r2 w2 where 2: "fill_bundle e c (content src) w1 = (r2, w2)" by fastforce
        have k: "r1 \<noteq> Inl Runs_From_Bundle" "aw_bundle w \<noteq> None \<Longrightarrow> \<not> bc_force c \<Longrightarrow> r1 = Inl Already_Exists \<and> w1 = w"
          using 1 by (auto simp: clear_place_def next_do_def app_call_def or_fail_def Let_def split: sum.splits prod.splits if_splits)
        have n: "r2 \<noteq> Inl Runs_From_Bundle"
          using 2 by (auto simp: fill_bundle_def sign_bundle_def next_do_def app_call_def or_fail_def Let_def split: sum.splits prod.splits if_splits)
        have run: "install_app e content c0 w = next_do (r1, w1) (\<lambda>_ w1. next_do (fill_bundle e c (content src) w1) (\<lambda>_ w2. (Inr (), w2\<lparr>aw_registered := True\<rparr>)))"
          using mac c src out 1 by (simp add: install_app_def)
        show ?thesis
        proof (cases r1)
          case (Inl x)
          then show ?thesis using run k f by auto
        next
          case (Inr u)
          then show ?thesis
            using run k f n 2 c src fill_bundle_Inr [of e c "content src" w1 _ w2] by (cases r2; cases "aw_bundle w") auto
        qed
      qed
    qed
  qed
qed

section \<open>Stopping\<close>

lemma await_exit_looks:
  "fst (await_exit k look i) = list_ex (\<lambda>j. look j = []) [i..<i + k]
    \<and> (if list_ex (\<lambda>j. look j = []) [i..<i + k] then True else snd (await_exit k look i) = i + k)"
proof (induction k arbitrary: i)
  case (Suc k)
  have "[i..<i + Suc k] = i # [Suc i..<Suc i + k]" by (simp add: upt_conv_Cons del: upt_Suc)
  then show ?case using Suc [of "Suc i"] by (simp del: upt_Suc)
qed simp

text \<open>
  Stopping the application asks every process that runs from it to end, and kills only those that
  still run when none of the thirty looks of the next three seconds found it gone.
\<close>

theorem stop_kills_the_rest:
  "stop_app look = map Term (look 0) @ (if list_ex (\<lambda>i. look i = []) [1..<31] then [] else map Kill (look 31))"
proof -
  obtain g n where g: "await_exit stop_looks look 1 = (g, n)" by fastforce
  have k: "1 + stop_looks = 31" by (simp add: stop_looks_def)
  note l = await_exit_looks [of stop_looks look 1, unfolded k g fst_conv snd_conv]
  from l have "g = list_ex (\<lambda>i. look i = []) [1..<31]" by (rule conjunct1)
  moreover from l have "\<not> g \<Longrightarrow> n = 31" by argo
  ultimately have "g = list_ex (\<lambda>i. look i = []) [1..<31]" "\<not> g \<Longrightarrow> n = 31" by this+
  then show ?thesis unfolding stop_app_def g Let_def by (cases g) (simp_all only: prod.case if_True if_False simp_thms)
qed

section \<open>What modelling showed\<close>

text \<open>A copy that fails after the old bundle was removed leaves an empty one.\<close>

lemma failed_copy_loses_bundle:
  assumes "ae_look e 0 = []" "aw_bundle w \<noteq> None" "aw_faults w = [False, False, False, True]"
  shows "\<exists>w' w''. clear_place e True w = (Inr (), w') \<and> fill_bundle e c exe w' = (Inl Not_Copied, w'')
    \<and> aw_bundle w'' = Some \<lparr>bd_exe = None, bd_plist = None, bd_pkg_info = False, bd_signed = None\<rparr>"
  using assms by (auto simp: clear_place_def fill_bundle_def app_call_def or_fail_def next_fault_def)

end
