(* ===== verification/WorkspaceAgent.thy ===== *)
theory WorkspaceAgent
  imports Tools
begin

text \<open>
  The workspace agent (\<open>internal/workspaceagent/build.go\<close>): where its source is looked for, the managed
  checkout, and the build; and the update of lezz itself (\<open>internal/selfupdate/update.go\<close>). Which
  directories hold the module, and what git, Go and the release library do, are parameters.
\<close>

section \<open>Looking for the source\<close>

record disk =
  dk_go_mod :: "string \<Rightarrow> bool"
  dk_command_dir :: "string \<Rightarrow> bool"
  dk_there :: "string \<Rightarrow> bool"
  dk_directory :: "string \<Rightarrow> bool"

definition has_module :: "disk \<Rightarrow> string \<Rightarrow> bool" where
  "has_module k dir \<longleftrightarrow> dk_go_mod k (join_path [dir, ''go.mod'']) \<and> dk_command_dir k (join_path [dir, ''cmd'', ''workspace-agent''])"

definition find_module :: "disk \<Rightarrow> string \<Rightarrow> string option" where
  "find_module k source = find (has_module k) [join_path [source, ''lab'', ''agent''], join_path [source, ''agent''], source]"

definition dir_name :: "string \<Rightarrow> string" where
  "dir_name p = (case cut_last (CHR ''/'') p of None \<Rightarrow> ''.'' | Some (d, _) \<Rightarrow> clean_path (d @ ''/''))"

text \<open>The directories beside the current one and its parents, up to three.\<close>

fun near :: "nat \<Rightarrow> string \<Rightarrow> string list" where
  "near 0 cwd = []"
| "near (Suc n) cwd =
     (if cwd = [] then []
      else [join_path [cwd, ''lab-safety''], join_path [cwd, ''..'', ''lab-safety'']]
        @ (if dir_name cwd = cwd then [] else near n (dir_name cwd)))"

definition home_candidates :: "string \<Rightarrow> string list" where
  "home_candidates home =
     (if home = [] then []
      else [join_path [home, ''projects'', ''personal'', ''lab-safety''], join_path [home, ''projects'', ''lab-safety''],
        join_path [home, ''src'', ''lab-safety''], join_path [home, ''lab-safety'']])"

fun unseen :: "string list \<Rightarrow> string list \<Rightarrow> string list" where
  "unseen seen [] = []"
| "unseen seen (c # cs) = (let p = clean_path c in if p \<in> set seen then unseen seen cs else p # unseen (p # seen) cs)"

definition discover_source :: "disk \<Rightarrow> string \<Rightarrow> string \<Rightarrow> string \<Rightarrow> string" where
  "discover_source k var cwd home =
     (let v = trim_space var in
      if v \<noteq> [] \<and> find_module k v \<noteq> None then v
      else
        (case find (\<lambda>c. find_module k c \<noteq> None) (unseen [] (near 3 cwd @ home_candidates home)) of
           Some c \<Rightarrow> c
         | None \<Rightarrow> []))"

definition default_source_dir :: "string option \<Rightarrow> string option" where
  "default_source_dir home = map_option (\<lambda>h. join_path [h, ''.lezz'', ''src'', ''lab-safety'']) home"

definition output_path :: "string option \<Rightarrow> string \<Rightarrow> string option" where
  "output_path home out =
     (if out \<noteq> [] then Some out else map_option (\<lambda>b. join_path [b, ''workspace-agent'']) (tool_bin_dir home))"

section \<open>The checkout and the build\<close>

datatype agent_err =
    No_Home_For_Agent
  | No_Git
  | No_Source_Parent
  | Clone_Failed
  | Fetch_Of_Source_Failed
  | Reset_Failed
  | No_Source string
  | No_Module string
  | No_Go_Toolchain
  | No_Bin_Dir
  | Build_Failed string
  | No_Binary_Built
  | Output_Is_Directory

text \<open>The commands that are run, in order.\<close>

datatype agent_command =
    Git_Clone string
  | Git_Fetch string
  | Git_Reset string
  | Go_Build string string

record agent_tools =
  at_git :: bool
  at_go :: bool
  at_runs :: "agent_command \<Rightarrow> bool"
  at_makes :: "string \<Rightarrow> bool"
  at_after :: "agent_command list \<Rightarrow> disk"    \<comment> \<open>the disk after the commands\<close>

definition run_command :: "agent_tools \<Rightarrow> agent_err \<Rightarrow> agent_command \<Rightarrow> agent_command list \<Rightarrow> (agent_err, unit) res \<times> agent_command list" where
  "run_command t e c cs = (or_fail (at_runs t c) e, cs @ [c])"

definition sync_repo :: "agent_tools \<Rightarrow> string \<Rightarrow> agent_command list \<Rightarrow> (agent_err, unit) res \<times> agent_command list" where
  "sync_repo t dir cs =
     (if \<not> at_git t then (Inl No_Git, cs)
      else if \<not> dk_there (at_after t cs) dir then
        (if \<not> at_makes t dir then (Inl No_Source_Parent, cs) else run_command t Clone_Failed (Git_Clone dir) cs)
      else
        next_do (run_command t Fetch_Of_Source_Failed (Git_Fetch dir) cs) (\<lambda>_ cs1. run_command t Reset_Failed (Git_Reset dir) cs1))"

record agent_options =
  ag_source :: string
  ag_out :: string
  ag_no_fetch :: bool
  ag_force :: bool

record agent_env =
  en_var :: string
  en_cwd :: string
  en_home :: "string option"

definition home_text :: "agent_env \<Rightarrow> string" where
  "home_text v = (case en_home v of None \<Rightarrow> [] | Some h \<Rightarrow> h)"

text \<open>The source to build from: the one given, one that is found, or the managed checkout.\<close>

definition choose_source ::
    "agent_tools \<Rightarrow> agent_env \<Rightarrow> agent_options \<Rightarrow> agent_command list \<Rightarrow> (agent_err, string) res \<times> agent_command list" where
  "choose_source t v o' cs =
     (if ag_source o' \<noteq> [] then (Inr (ag_source o'), cs)
      else
        (let local' = discover_source (at_after t cs) (en_var v) (en_cwd v) (home_text v) in
         if local' \<noteq> [] then (Inr local', cs)
         else
           (case default_source_dir (en_home v) of
              None \<Rightarrow> (Inl No_Home_For_Agent, cs)
            | Some dir \<Rightarrow>
                if \<not> ag_no_fetch o' then
                  (case sync_repo t dir cs of
                     (Inr _, cs1) \<Rightarrow> (Inr dir, cs1)
                   | (Inl e, cs1) \<Rightarrow> if dk_there (at_after t cs1) dir then (Inr dir, cs1) else (Inl e, cs1))
                else if dk_there (at_after t cs) dir then (Inr dir, cs) else (Inl (No_Source dir), cs))))"

definition build_agent ::
    "agent_tools \<Rightarrow> agent_env \<Rightarrow> agent_options \<Rightarrow> agent_command list \<Rightarrow> (agent_err, string) res \<times> agent_command list" where
  "build_agent t v o' cs =
     (case output_path (en_home v) (ag_out o') of
        None \<Rightarrow> (Inl No_Home_For_Agent, cs)
      | Some out \<Rightarrow>
          next_do (choose_source t v o' cs) (\<lambda>source cs1.
            (case find_module (at_after t cs1) source of
               None \<Rightarrow> (Inl (No_Module source), cs1)
             | Some module \<Rightarrow>
                 if \<not> at_go t then (Inl No_Go_Toolchain, cs1)
                 else if \<not> at_makes t out then (Inl No_Bin_Dir, cs1)
                 else
                   next_do (run_command t (Build_Failed module) (Go_Build out module) cs1) (\<lambda>_ cs2.
                     if \<not> dk_there (at_after t cs2) out then (Inl No_Binary_Built, cs2)
                     else if dk_directory (at_after t cs2) out then (Inl Output_Is_Directory, cs2)
                     else (Inr out, cs2)))))"

definition ensure_agent ::
    "agent_tools \<Rightarrow> agent_env \<Rightarrow> agent_options \<Rightarrow> agent_command list \<Rightarrow> (agent_err, string) res \<times> agent_command list" where
  "ensure_agent t v o' cs =
     (case output_path (en_home v) (ag_out o') of
        None \<Rightarrow> (Inl No_Home_For_Agent, cs)
      | Some out \<Rightarrow>
          if \<not> ag_force o' \<and> dk_there (at_after t cs) out \<and> \<not> dk_directory (at_after t cs) out then (Inr out, cs)
          else build_agent t v o' cs)"

section \<open>What git touches\<close>

definition git_dir :: "agent_command \<Rightarrow> string option" where
  "git_dir c = (case c of Git_Clone d \<Rightarrow> Some d | Git_Fetch d \<Rightarrow> Some d | Git_Reset d \<Rightarrow> Some d | Go_Build _ _ \<Rightarrow> None)"

definition only_cache :: "string option \<Rightarrow> agent_command \<Rightarrow> bool" where
  "only_cache home c \<longleftrightarrow> (case git_dir c of None \<Rightarrow> True | Some d \<Rightarrow> default_source_dir home = Some d)"

lemma sync_repo_ends:
  "sync_repo t dir cs = (r, cs') \<Longrightarrow> \<exists>l. cs' = cs @ l \<and> list_all (\<lambda>c. git_dir c = Some dir) l"
  by (auto simp: sync_repo_def run_command_def or_fail_def git_dir_def next_do_def split: if_splits sum.splits)

lemma choose_source_ends:
  assumes "choose_source t v o' cs = (r, cs')"
  shows "\<exists>l. cs' = cs @ l \<and> list_all (\<lambda>c. git_dir c = default_source_dir (en_home v) \<and> git_dir c \<noteq> None) l
    \<and> (ag_source o' = [] \<or> l = []) \<and> (\<not> ag_no_fetch o' \<or> l = [])"
proof (cases "ag_source o' \<noteq> [] \<or> discover_source (at_after t cs) (en_var v) (en_cwd v) (home_text v) \<noteq> []
    \<or> default_source_dir (en_home v) = None \<or> ag_no_fetch o'")
  case True
  then have "cs' = cs" using assms by (auto simp: choose_source_def Let_def split: if_splits option.splits)
  then show ?thesis by simp
next
  case False
  then obtain dir where d: "default_source_dir (en_home v) = Some dir" by auto
  obtain q cs1 where q: "sync_repo t dir cs = (q, cs1)" by fastforce
  have "cs' = cs1" using assms False d q by (auto simp: choose_source_def Let_def split: sum.splits if_splits)
  then show ?thesis using sync_repo_ends [OF q] False d by (auto simp: list_all_iff)
qed


end
