(* ===== verification/SelfUpdate.thy ===== *)
theory SelfUpdate
  imports Tools
begin

text \<open>
  The update of lezz itself (\<open>internal/selfupdate/update.go\<close>): which versions of the running binary can be
  compared with a release, what an update announces and what it installs. The releases and the order of
  versions are parameters.
\<close>

definition is_all_digits :: "string \<Rightarrow> bool" where
  "is_all_digits s \<longleftrightarrow> list_all is_digit s \<and> s \<noteq> []"

text \<open>The middle one of three parts, when there are three.\<close>

definition middle_part :: "string \<Rightarrow> string option" where
  "middle_part s =
     (case cut_at (CHR ''-'') s of
        None \<Rightarrow> None
      | Some (_, r) \<Rightarrow> (case cut_at (CHR ''-'') r of None \<Rightarrow> None | Some (m, _) \<Rightarrow> Some m))"

definition after_last_dot :: "string \<Rightarrow> string" where
  "after_last_dot s = (case cut_last (CHR ''.'') s of None \<Rightarrow> s | Some (_, r) \<Rightarrow> r)"

definition is_valid_semver :: "string \<Rightarrow> bool" where
  "is_valid_semver v0 =
     (let v = trim_prefix v0 ''v'' in
      if v = [] \<or> \<not> is_digit (hd v) then False
      else if contains v ''+dirty'' then False
      else
        (case middle_part (takeWhile (\<lambda>c. c \<noteq> CHR ''+'') v) of
           None \<Rightarrow> True
         | Some m \<Rightarrow> \<not> (length (after_last_dot m) = 14 \<and> is_all_digits (after_last_dot m))))"

datatype update_err = No_Update_Source string | Not_Detectable string | No_Executable_Path | Not_Applied

definition check_update :: "(string \<Rightarrow> string \<Rightarrow> bool) \<Rightarrow> 'b release \<Rightarrow> string \<Rightarrow> (update_err, string \<times> bool) res" where
  "check_update newer rel current =
     (case rel of
        Updater_Fails m \<Rightarrow> Inl (No_Update_Source m)
      | Detection_Fails m \<Rightarrow> Inl (Not_Detectable m)
      | Nothing_Published \<Rightarrow> Inr (current, False)
      | Published v _ \<Rightarrow> Inr (v, \<not> is_valid_semver current \<or> newer v current))"

text \<open>The running binary, and whether its path is known.\<close>

definition apply_update ::
    "(string \<Rightarrow> string \<Rightarrow> bool) \<Rightarrow> bool \<Rightarrow> 'b release \<Rightarrow> string \<Rightarrow> 'b \<Rightarrow> (update_err, string) res \<times> 'b" where
  "apply_update newer exe rel current self =
     (if \<not> exe then (Inl No_Executable_Path, self)
      else
        (case rel of
           Updater_Fails m \<Rightarrow> (Inl (No_Update_Source m), self)
         | Detection_Fails m \<Rightarrow> (Inl (Not_Detectable m), self)
         | Nothing_Published \<Rightarrow> (Inr current, self)
         | Published v b \<Rightarrow>
             if is_valid_semver current \<and> \<not> newer v current then (Inr current, self)
             else (case b of None \<Rightarrow> (Inl Not_Applied, self) | Some x \<Rightarrow> (Inr v, x))))"

section \<open>Announced and applied\<close>

text \<open>
  An update does what the check announced: it installs the binary of the announced version when
  there is one, and otherwise leaves the running one and reports the version it has; a failure leaves
  the running one.
\<close>

theorem update_does_what_was_announced:
  "case apply_update newer True rel current self of (r, self') \<Rightarrow>
     (case check_update newer rel current of
        Inl _ \<Rightarrow> \<not> is_ok r \<and> self' = self
      | Inr (latest, True) \<Rightarrow> (case r of Inl _ \<Rightarrow> self' = self | Inr v \<Rightarrow> v = latest \<and> rel = Published latest (Some self'))
      | Inr (latest, False) \<Rightarrow> r = Inr current \<and> self' = self)"
  by (cases rel) (auto simp: apply_update_def check_update_def split: option.splits bool.splits)

lemma dec_no_char: "\<not> is_digit c \<Longrightarrow> c \<notin> set (dec n)"
  by (rule not_digit_in_dec)

lemma not_digits: "\<not> is_digit (CHR ''-'')" "\<not> is_digit (CHR ''+'')" "\<not> is_digit (CHR ''.'')"
  by (simp_all add: is_digit_def digit_val_def)

definition release_version :: "nat \<Rightarrow> nat \<Rightarrow> nat \<Rightarrow> string" where
  "release_version a b c = dec a @ ''.'' @ dec b @ ''.'' @ dec c"

lemma release_version_chars: "CHR ''-'' \<notin> set (release_version a b c)" "CHR ''+'' \<notin> set (release_version a b c)"
  using not_digits by (auto simp: release_version_def dest: dec_digits)

lemma prefix_mem: "has_prefix s p \<Longrightarrow> set p \<subseteq> set s"
  by (auto simp: has_prefix_iff)

lemma contains_mem: "contains s p \<Longrightarrow> set p \<subseteq> set s"
  by (induction s p rule: contains.induct) (auto dest!: prefix_mem split: if_splits)

lemma release_version_digit: "release_version a b c \<noteq> [] \<and> is_digit (hd (release_version a b c))"
proof -
  obtain x r where "dec a = x # r" by (cases "dec a") auto
  moreover from this have "is_digit x" using dec_digits [of x a] by simp
  ultimately show ?thesis by (simp add: release_version_def)
qed

lemma trim_v: "trim_prefix (''v'' @ s) ''v'' = s"
  by (rule trim_prefix_append)

text \<open>
  A release version is compared, and a build that is not a release is not: the versions Go gives to
  a commit, and a dirty tree, always take the latest release.
\<close>

theorem releases_are_compared:
  assumes "length ts = 14" "list_all is_digit ts" "CHR ''+'' \<notin> set commit"
  shows "is_valid_semver (''v'' @ release_version a b c)
    \<and> \<not> is_valid_semver (''v'' @ release_version a b c @ ''-0.'' @ ts @ ''-'' @ commit)
    \<and> \<not> is_valid_semver (''v'' @ release_version a b c @ ''+dirty'')"
proof (intro conjI)
  define r where "r = release_version a b c"
  note ch = release_version_chars [of a b c, folded r_def] and dg = release_version_digit [of a b c, folded r_def]
  have "takeWhile (\<lambda>x. x \<noteq> CHR ''+'') r = r" using ch by (auto simp: takeWhile_eq_all_conv)
  moreover have "\<not> contains r ''+dirty''" using contains_mem [of r "''+dirty''"] ch by auto
  moreover have "cut_at (CHR ''-'') r = None" using ch by (simp add: cut_at_None)
  ultimately show "is_valid_semver (''v'' @ release_version a b c)"
    unfolding r_def [symmetric] using dg by (simp only: is_valid_semver_def trim_v Let_def middle_part_def) simp
  have "\<not> is_valid_semver (''v'' @ (r @ ''-0.'' @ ts @ ''-'' @ commit))"
  proof -
    define s where "s = r @ CHR ''-'' # ((''0.'' @ ts) @ CHR ''-'' # commit)"
    have t: "CHR ''-'' \<notin> set ts" "CHR ''.'' \<notin> set ts" "CHR ''+'' \<notin> set ts"
      using assms(2) not_digits by (auto simp: list_all_iff)
    have "takeWhile (\<lambda>x. x \<noteq> CHR ''+'') s = s" using ch t assms(3) by (auto simp: takeWhile_eq_all_conv s_def)
    moreover have "cut_at (CHR ''-'') s = Some (r, (''0.'' @ ts) @ CHR ''-'' # commit)" using ch by (simp add: cut_at_Some s_def)
    moreover have "cut_at (CHR ''-'') ((''0.'' @ ts) @ CHR ''-'' # commit) = Some (''0.'' @ ts, commit)" using t by (simp add: cut_at_Some)
    moreover have "cut_last (CHR ''.'') (''0.'' @ ts) = Some (''0'', ts)" using t by (simp add: cut_last_Some)
    moreover have "is_all_digits ts" using assms by (auto simp: is_all_digits_def)
    ultimately have "\<not> is_valid_semver (''v'' @ s)"
      using assms(1) by (simp only: is_valid_semver_def trim_v Let_def middle_part_def after_last_dot_def) simp
    then show ?thesis by (simp add: s_def)
  qed
  then show "\<not> is_valid_semver (''v'' @ release_version a b c @ ''-0.'' @ ts @ ''-'' @ commit)" by (simp add: r_def)
  have "contains (r @ ''+dirty'' @ []) ''+dirty''" by (rule contains_append)
  then have "\<not> is_valid_semver (''v'' @ (r @ ''+dirty''))" by (simp only: is_valid_semver_def trim_v Let_def) simp
  then show "\<not> is_valid_semver (''v'' @ release_version a b c @ ''+dirty'')" by (simp add: r_def)
qed

theorem releases_are_compared_witness:
  "is_valid_semver (''v'' @ release_version 0 8 6)
    \<and> \<not> is_valid_semver (''v'' @ release_version 0 8 6 @ ''-0.'' @ ''20260404234801'' @ ''-'' @ ''abcdef123456'')
    \<and> \<not> is_valid_semver (''v'' @ release_version 0 8 6 @ ''+dirty'')"
  by (rule releases_are_compared) (simp_all add: is_digit_def digit_val_def)

section \<open>What modelling showed\<close>

text \<open>A commit after a pre-release with a hyphen is taken for a release.\<close>

lemma hyphenated_commit_is_compared: "is_valid_semver ''v1.2.3-rc-1.0.20260404234801-abcdef123456''"
  by code_simp

end
