(* ===== verification/CommandLine.thy ===== *)
theory CommandLine
  imports DemoState ProdCluster AgentSettings Tools
begin

text \<open>
  The command line (\<open>cmd/lezz/main.go\<close>) up to the point where a command starts its work: the help,
  the table of commands, the flag sets, the checks of the arguments and the choice of the action.
  What an action then does is in the theory Commands and in the theories of the components. The
  texts that explain a refusal are left out: a refusal is its exit status and its reason. The usage
  strings of the flags are left out too.
\<close>

section \<open>Help\<close>

fun help_requested :: "string list \<Rightarrow> bool" where
  "help_requested [] = False"
| "help_requested (a # as) =
     (if a = ''-'' \<or> a = ''--'' \<or> \<not> has_prefix a ''-'' then False
      else if dropWhile (\<lambda>c. c = CHR ''-'') a \<in> {''h'', ''help''} then True
      else help_requested as)"

record command_doc =
  cd_path :: string
  cd_display :: string
  cd_synopsis :: string
  cd_listed :: bool

text \<open>The UTF-8 form of the long dash.\<close>

definition em_dash :: string where "em_dash = [CHR 0xE2, CHR 0x80, CHR 0x94]"

definition command_docs :: "command_doc list" where
  "command_docs =
    [\<lparr>cd_path = ''demo'', cd_display = ''lezz demo [flags]'',
       cd_synopsis = ''Launch a self-contained demo cluster in the foreground'', cd_listed = True\<rparr>,
     \<lparr>cd_path = ''demo start'', cd_display = ''lezz demo start [flags]'',
       cd_synopsis = ''Start the demo cluster detached'', cd_listed = True\<rparr>,
     \<lparr>cd_path = ''demo stop'', cd_display = ''lezz demo stop'',
       cd_synopsis = ''Stop a running demo cluster'', cd_listed = True\<rparr>,
     \<lparr>cd_path = ''demo status'', cd_display = ''lezz demo status'',
       cd_synopsis = ''Show a running demo cluster and probe its endpoints'', cd_listed = True\<rparr>,
     \<lparr>cd_path = ''demo restart'', cd_display = ''lezz demo restart [flags]'',
       cd_synopsis = ''Restart the demo cluster, reusing the same ports when free'', cd_listed = True\<rparr>,
     \<lparr>cd_path = ''auto'', cd_display = ''lezz auto'',
       cd_synopsis = ''Launch a base cluster '' @ em_dash @ '' empty and awaiting, auto-installs tools, reuses an existing registry'', cd_listed = True\<rparr>,
     \<lparr>cd_path = ''prod'', cd_display = ''lezz prod [flags]'',
       cd_synopsis = ''Launch a prod cluster '' @ em_dash @ '' mirrored alarm_a, invisible fallback; SIGHUP rotates it as a launchd service'', cd_listed = True\<rparr>,
     \<lparr>cd_path = ''queue'', cd_display = ''lezz queue [--config file]'',
       cd_synopsis = ''Run a spool + FIFO queue sidecar for a rate-limited upstream'', cd_listed = True\<rparr>,
     \<lparr>cd_path = ''cache'', cd_display = ''lezz cache [--config file]'',
       cd_synopsis = ''Serve a read-through cache of GitHub PR view/diff data'', cd_listed = True\<rparr>,
     \<lparr>cd_path = ''seed'', cd_display = ''lezz seed init'',
       cd_synopsis = ''Create seed.json: a stable project id, the surface to join, and an external auth reference'', cd_listed = False\<rparr>,
     \<lparr>cd_path = ''seed init'', cd_display = ''lezz seed init [--surface base]'',
       cd_synopsis = ''Create seed.json (project id, surface, auth ref)'', cd_listed = True\<rparr>,
     \<lparr>cd_path = ''see'', cd_display = ''lezz see'',
       cd_synopsis = ''Read seed.json, show the 42i start and surface'', cd_listed = True\<rparr>,
     \<lparr>cd_path = ''motd'', cd_display = ''lezz motd'',
       cd_synopsis = ''Print the message of the day for workspace users'', cd_listed = True\<rparr>,
     \<lparr>cd_path = ''sea'', cd_display = ''lezz sea [--install|--check|--open]'',
       cd_synopsis = ''Install and supervise lezz.sea: the app asks for isotopes over a stdio channel'', cd_listed = True\<rparr>,
     \<lparr>cd_path = ''debug'', cd_display = ''lezz debug keygen|lease|fetch-keys'',
       cd_synopsis = ''Debug lease keys and signing'', cd_listed = True\<rparr>,
     \<lparr>cd_path = ''anon'', cd_display = ''lezz anon [--lease FILE] [--listen host:port]'',
       cd_synopsis = ''Serve the anonymous MCP surface (empty tool list); the debug socket needs a valid lease'', cd_listed = True\<rparr>,
     \<lparr>cd_path = ''app'', cd_display = ''lezz app install|open|info|uninstall'',
       cd_synopsis = ''Wrap the lezz binary in a macOS .app: a stable identity for TCC permissions and passkeys'', cd_listed = False\<rparr>,
     \<lparr>cd_path = ''app install'', cd_display = ''lezz app install [--dock]'',
       cd_synopsis = ''Build and sign Lezz.app for TCC permissions/passkeys'', cd_listed = True\<rparr>,
     \<lparr>cd_path = ''app open'', cd_display = ''lezz app open [-- args...]'',
       cd_synopsis = ''Launch Lezz.app through LaunchServices (default: auto)'', cd_listed = True\<rparr>,
     \<lparr>cd_path = ''app info'', cd_display = ''lezz app info'',
       cd_synopsis = ''Show the bundle identity and signature'', cd_listed = True\<rparr>,
     \<lparr>cd_path = ''app uninstall'', cd_display = ''lezz app uninstall [--force]'',
       cd_synopsis = ''Remove Lezz.app'', cd_listed = True\<rparr>,
     \<lparr>cd_path = ''auth'', cd_display = ''lezz auth github|status|logout'',
       cd_synopsis = ''GitHub device-flow auth; the token lives in the platform credential store'', cd_listed = False\<rparr>,
     \<lparr>cd_path = ''auth github'', cd_display = ''lezz auth github'',
       cd_synopsis = ''Sign in with GitHub device flow (token in keychain)'', cd_listed = True\<rparr>,
     \<lparr>cd_path = ''auth status'', cd_display = ''lezz auth status'',
       cd_synopsis = ''Show the stored GitHub identity'', cd_listed = True\<rparr>,
     \<lparr>cd_path = ''auth logout'', cd_display = ''lezz auth logout'',
       cd_synopsis = ''Delete the stored GitHub token'', cd_listed = True\<rparr>,
     \<lparr>cd_path = ''mcp'', cd_display = ''lezz mcp [--cache-url URL]'',
       cd_synopsis = ''Serve the read-only wrapper (debug/trusted)'', cd_listed = True\<rparr>,
     \<lparr>cd_path = ''run'', cd_display = ''lezz run <tool> [args...]'',
       cd_synopsis = ''Replace lezz with the tool (exec)'', cd_listed = True\<rparr>,
     \<lparr>cd_path = ''start'', cd_display = ''lezz start <tool> [args...]'',
       cd_synopsis = ''Spawn the tool as a child process (wait)'', cd_listed = True\<rparr>,
     \<lparr>cd_path = ''install'', cd_display = ''lezz install <tool>'',
       cd_synopsis = ''Download and install a managed tool'', cd_listed = True\<rparr>,
     \<lparr>cd_path = ''tools'', cd_display = ''lezz tools upgrade [tool...]'',
       cd_synopsis = ''Upgrade managed tools to their latest GitHub releases'', cd_listed = False\<rparr>,
     \<lparr>cd_path = ''tools upgrade'', cd_display = ''lezz tools upgrade [tool...]'',
       cd_synopsis = ''Upgrade managed tools to their latest GitHub releases'', cd_listed = True\<rparr>,
     \<lparr>cd_path = ''purge'', cd_display = ''lezz purge'',
       cd_synopsis = ''Remove services, binaries, and Go caches for all managed tools'', cd_listed = True\<rparr>,
     \<lparr>cd_path = ''update'', cd_display = ''lezz update'',
       cd_synopsis = ''Update lezz and all managed tools'', cd_listed = True\<rparr>,
     \<lparr>cd_path = ''service'', cd_display = ''lezz service install|remove|list|purge'',
       cd_synopsis = ''Configure launchd services for managed tools'', cd_listed = False\<rparr>,
     \<lparr>cd_path = ''service install'', cd_display = ''lezz service install [--force] <tool> [profile]'',
       cd_synopsis = ''Install a launchd service for a tool, refusing a port another process owns'', cd_listed = True\<rparr>,
     \<lparr>cd_path = ''service remove'', cd_display = ''lezz service remove <tool>'',
       cd_synopsis = ''Remove daemon config for a tool'', cd_listed = True\<rparr>,
     \<lparr>cd_path = ''service list'', cd_display = ''lezz service list'',
       cd_synopsis = ''List all installed lezz services'', cd_listed = True\<rparr>,
     \<lparr>cd_path = ''service purge'', cd_display = ''lezz service purge'',
       cd_synopsis = ''Unload and remove all lezz services'', cd_listed = True\<rparr>,
     \<lparr>cd_path = ''agent'', cd_display = ''lezz agent setup|remove|show|build'',
       cd_synopsis = ''Wire an ACP agent into an editor'' @ [CHR 0x27] @ ''s settings'', cd_listed = False\<rparr>,
     \<lparr>cd_path = ''agent setup'', cd_display = ''lezz agent setup [editor]'',
       cd_synopsis = ''Wire an ACP agent into an editor'' @ [CHR 0x27] @ ''s settings'', cd_listed = True\<rparr>,
     \<lparr>cd_path = ''agent build'', cd_display = ''lezz agent build [--src DIR]'',
       cd_synopsis = ''Fetch/build workspace-agent into ~/.lezz/bin'', cd_listed = True\<rparr>,
     \<lparr>cd_path = ''agent remove'', cd_display = ''lezz agent remove [editor]'',
       cd_synopsis = ''Remove it (requires --yes)'', cd_listed = True\<rparr>,
     \<lparr>cd_path = ''agent show'', cd_display = ''lezz agent show [editor]'',
       cd_synopsis = ''Show the wired agent'', cd_listed = True\<rparr>,
     \<lparr>cd_path = ''version'', cd_display = ''lezz version'',
       cd_synopsis = ''Print version'', cd_listed = True\<rparr>]"

definition usage_width :: nat where
  "usage_width = fold (\<lambda>d w. if cd_listed d \<and> w < length (cd_display d) then length (cd_display d) else w) command_docs 0"

definition better_doc :: "string \<Rightarrow> command_doc \<Rightarrow> command_doc option \<Rightarrow> bool" where
  "better_doc path d best \<longleftrightarrow> has_prefix path (cd_path d @ '' '')
     \<and> (case best of None \<Rightarrow> True | Some b \<Rightarrow> length (cd_path b) < length (cd_path d))"

fun find_command :: "string \<Rightarrow> command_doc list \<Rightarrow> command_doc option \<Rightarrow> command_doc option" where
  "find_command path [] best = best"
| "find_command path (d # ds) best =
     (if cd_path d = path then Some d
      else find_command path ds (if better_doc path d best then Some d else best))"

definition lookup_command :: "string \<Rightarrow> command_doc option" where
  "lookup_command path = find_command (trim_space path) command_docs None"

text \<open>\<open>flags\<close> is what the flag package prints of a flag set, when there is one with flags in it.\<close>

definition command_usage :: "string \<Rightarrow> string option \<Rightarrow> string" where
  "command_usage path0 flags =
     (let path = trim_space path0; plain = ''lezz '' @ path;
          (head, line, derived) =
            (case lookup_command path of
               Some d \<Rightarrow> (plain @ '' '' @ em_dash @ '' '' @ cd_synopsis d @ [CHR 0x0A, CHR 0x0A],
                 if cd_path d = path then cd_display d else plain, cd_path d \<noteq> path)
             | None \<Rightarrow> ([], plain, True)) in
      head @ ''Usage:'' @ [CHR 0x0A] @ ''  '' @ line
        @ (if flags \<noteq> None \<and> derived then '' [flags]'' else []) @ [CHR 0x0A]
        @ (case flags of None \<Rightarrow> [] | Some t \<Rightarrow> [CHR 0x0A] @ ''Flags:'' @ [CHR 0x0A] @ t)
        @ [CHR 0x0A] @ ''Run '' @ [CHR 0x27] @ ''lezz --help'' @ [CHR 0x27] @ '' for the full command list.'' @ [CHR 0x0A])"

definition padded :: "nat \<Rightarrow> string \<Rightarrow> string" where
  "padded n s = s @ replicate (n - length s) (CHR '' '')"

definition usage_row :: "command_doc \<Rightarrow> string" where
  "usage_row d = ''  '' @ padded usage_width (cd_display d) @ ''  '' @ cd_synopsis d @ [CHR 0x0A]"

definition usage_text :: string where
  "usage_text =
     ''lezz '' @ em_dash @ '' self-updating host for adhd, ocd-smoke-alarm, and tuner'' @ [CHR 0x0A, CHR 0x0A]
     @ ''Usage:'' @ [CHR 0x0A]
     @ concat (map usage_row (filter cd_listed command_docs))
     @ [CHR 0x0A] @ ''Managed tools: lezz, adhd, ocd-smoke-alarm, tuner'' @ [CHR 0x0A, CHR 0x0A]
     @ ''Every command accepts -h/--help and prints its usage instead of running:'' @ [CHR 0x0A]
     @ ''  lezz <command> --help'' @ [CHR 0x0A]"

section \<open>Flag sets\<close>

datatype flag_value = Text string | Truth bool | Span duration

type_synonym flag_table = "(string, flag_value) table"

definition kind_in :: "flag_table \<Rightarrow> string \<Rightarrow> flag_kind option" where
  "kind_in ds n = map_option (\<lambda>v. case v of Truth _ \<Rightarrow> Switch | _ \<Rightarrow> Valued) (map_of ds n)"

definition set_flag :: "string \<Rightarrow> string \<Rightarrow> flag_table \<Rightarrow> flag_table option" where
  "set_flag n v fs =
     map_option (\<lambda>x. AList.update n x fs)
       (case map_of fs n of
          None \<Rightarrow> None
        | Some (Text _) \<Rightarrow> Some (Text v)
        | Some (Truth _) \<Rightarrow> map_option Truth (parse_bool v)
        | Some (Span _) \<Rightarrow> map_option Span (parse_duration v))"

definition flags_of :: "flag_table \<Rightarrow> string list \<Rightarrow> (flag_err, flag_table \<times> string list) res" where
  "flags_of ds = parse_flags (kind_in ds) set_flag ds"

definition text_flag :: "flag_table \<Rightarrow> string \<Rightarrow> string" where
  "text_flag fs n = (case map_of fs n of Some (Text s) \<Rightarrow> s | _ \<Rightarrow> [])"

definition truth_flag :: "flag_table \<Rightarrow> string \<Rightarrow> bool" where
  "truth_flag fs n = (case map_of fs n of Some (Truth b) \<Rightarrow> b | _ \<Rightarrow> False)"

definition span_flag :: "flag_table \<Rightarrow> string \<Rightarrow> duration" where
  "span_flag fs n = (case map_of fs n of Some (Span d) \<Rightarrow> d | _ \<Rightarrow> 0)"

section \<open>Decisions\<close>

text \<open>What a command line asks for, its flags read and its arguments checked.\<close>

datatype action =
    Demo_Run demo_options
  | Demo_Start demo_options
  | Demo_Stop string
  | Demo_Status string
  | Demo_Restart demo_options
  | Auto_Run string
  | Prod_Run prod_options
  | Queue_Run string
  | Cache_Run string
  | Mcp_Run string string string
  | Anon_Run flag_table
  | Seed_Init flag_table
  | See_Show string
  | Motd_Show
  | Sea_Run flag_table
  | Debug_Keygen string
  | Debug_Lease flag_table
  | Debug_Fetch string bool
  | App_Install flag_table
  | App_Open flag_table "string list"
  | App_Info string
  | App_Uninstall string bool
  | Auth_Sign_In flag_table
  | Auth_Status string bool
  | Auth_Logout string
  | Tool_Run string "string list"
  | Tool_Start string "string list"
  | Tool_Install tool
  | Tools_Upgrade "string list"
  | Update_All
  | Service_List
  | Service_Purge
  | Service_Install tool daemon_profile bool
  | Service_Remove tool daemon_profile
  | Agent_Setup string flag_table
  | Agent_Remove string string bool bool
  | Agent_Show string string
  | Agent_Build flag_table
  | Purge_All
  | Version_Show

datatype refusal =
    Unknown_Command string
  | No_Action
  | Unknown_Action string
  | No_Tool_Given
  | Unknown_Tool string
  | No_Profile string string
  | Misplaced_Force
  | Bad_Flags flag_err
  | Bad_Prod prod_err
  | Unexpected_Argument string
  | Flag_Required string
  | Other_System string
  | Unknown_Editor string
  | No_Settings_Path

text \<open>
  \<open>Usage\<close> prints the list, \<open>Help\<close> the block of one command, \<open>Flag_List\<close> what the flag package prints
  of its own; a refusal has an exit status.
\<close>

datatype decision =
    Usage
  | Help string
  | Flag_List string
  | Refuse nat refusal
  | Perform action

definition performs :: "decision \<Rightarrow> bool" where
  "performs d \<longleftrightarrow> (case d of Perform _ \<Rightarrow> True | _ \<Rightarrow> False)"

definition shows_help :: "decision \<Rightarrow> bool" where
  "shows_help d \<longleftrightarrow> (case d of Usage \<Rightarrow> True | Help _ \<Rightarrow> True | Flag_List _ \<Rightarrow> True | _ \<Rightarrow> False)"

record cli_env =
  ce_getenv :: "string \<Rightarrow> string"
  ce_goos :: string
  ce_home :: "string option"

definition parse_or_help ::
    "string \<Rightarrow> (string list \<Rightarrow> (flag_err, 'o \<times> string list) res) \<Rightarrow> string list \<Rightarrow> ('o \<Rightarrow> string list \<Rightarrow> decision) \<Rightarrow> decision" where
  "parse_or_help name parse args go =
     (if help_requested args then Help name
      else
        (case parse args of
           Inl Help_Asked \<Rightarrow> Help name
         | Inl e \<Rightarrow> Refuse 1 (Bad_Flags e)
         | Inr (o', rest) \<Rightarrow> go o' rest))"

definition help_only :: "string \<Rightarrow> string list \<Rightarrow> decision \<Rightarrow> decision" where
  "help_only name args d = (if help_requested args then Help name else d)"

definition no_positional :: "string list \<Rightarrow> decision \<Rightarrow> decision" where
  "no_positional rest d = (case rest of [] \<Rightarrow> d | a # _ \<Rightarrow> Refuse 2 (Unexpected_Argument a))"

text \<open>\<open>noArguments\<close>: the first argument of a command that takes none.\<close>

definition no_arguments :: "string list \<Rightarrow> decision \<Rightarrow> decision" where
  "no_arguments args d = (case args of [] \<Rightarrow> d | a # _ \<Rightarrow> Refuse 2 (Unexpected_Argument a))"

definition take_flag :: "string list \<Rightarrow> string \<Rightarrow> string list \<times> bool" where
  "take_flag args name =
     (let short = CHR ''-'' # dropWhile (\<lambda>c. c = CHR ''-'') name in
      (filter (\<lambda>a. \<not> (a = name \<or> a = short)) args, list_ex (\<lambda>a. a = name \<or> a = short) args))"

section \<open>The commands\<close>

subsection \<open>Clusters\<close>

definition demo_flags :: "string \<Rightarrow> (demo_options \<Rightarrow> action) \<Rightarrow> string list \<Rightarrow> decision" where
  "demo_flags name act args =
     parse_or_help name parse_demo_flags args (\<lambda>o' rest. no_positional rest (Perform (act o')))"

definition state_dir_flags :: flag_table where
  "state_dir_flags = [(''state-dir'', Text [])]"

definition demo_state_flags :: "string \<Rightarrow> (string \<Rightarrow> action) \<Rightarrow> string list \<Rightarrow> decision" where
  "demo_state_flags name act args =
     parse_or_help name (flags_of state_dir_flags) args
       (\<lambda>fs rest. no_positional rest (Perform (act (text_flag fs ''state-dir''))))"

definition cmd_demo :: "string list \<Rightarrow> decision" where
  "cmd_demo args =
     (case args of
        [] \<Rightarrow> demo_flags ''demo'' Demo_Run args
      | a # rest \<Rightarrow>
          if a = ''start'' then demo_flags ''demo start'' Demo_Start rest
          else if a = ''stop'' then demo_state_flags ''demo stop'' Demo_Stop rest
          else if a = ''status'' then demo_state_flags ''demo status'' Demo_Status rest
          else if a = ''restart'' then demo_flags ''demo restart'' Demo_Restart rest
          else demo_flags ''demo'' Demo_Run args)"

definition auto_flags :: flag_table where
  "auto_flags = [(''registry-bind'', Text [])]"

definition cmd_auto :: "string list \<Rightarrow> decision" where
  "cmd_auto args =
     parse_or_help ''auto'' (flags_of auto_flags) args
       (\<lambda>fs rest. no_positional rest (Perform (Auto_Run (text_flag fs ''registry-bind''))))"

definition cmd_prod :: "string list \<Rightarrow> decision" where
  "cmd_prod args =
     (case parse_prod_args args of
        Inl (Flag_Error Help_Asked) \<Rightarrow> Flag_List ''prod''
      | Inl e \<Rightarrow> Refuse 2 (Bad_Prod e)
      | Inr o' \<Rightarrow> Perform (Prod_Run o'))"

subsection \<open>Servers\<close>

definition config_flags :: flag_table where
  "config_flags = [(''config'', Text [])]"

definition without_run :: "string list \<Rightarrow> string list" where
  "without_run args = (case args of [] \<Rightarrow> [] | a # rest \<Rightarrow> if a = ''run'' then rest else args)"

definition cmd_cache :: "string list \<Rightarrow> decision" where
  "cmd_cache args =
     parse_or_help ''cache'' (flags_of config_flags) (without_run args) (\<lambda>fs rest. Perform (Cache_Run (text_flag fs ''config'')))"

definition cmd_queue :: "string list \<Rightarrow> decision" where
  "cmd_queue args =
     parse_or_help ''queue'' (flags_of config_flags) (without_run args) (\<lambda>fs rest. Perform (Queue_Run (text_flag fs ''config'')))"

definition mcp_flags :: "cli_env \<Rightarrow> flag_table" where
  "mcp_flags e = [(''cache-url'', Text (ce_getenv e ''LEZZ_CACHE_URL'')), (''listen'', Text ''127.0.0.1:0''), (''name'', Text ''pr'')]"

definition cmd_mcp :: "cli_env \<Rightarrow> string list \<Rightarrow> decision" where
  "cmd_mcp e args =
     parse_or_help ''mcp'' (flags_of (mcp_flags e)) args (\<lambda>fs rest.
       if text_flag fs ''cache-url'' = [] then Refuse 1 (Flag_Required ''cache-url'')
       else Perform (Mcp_Run (text_flag fs ''cache-url'') (text_flag fs ''listen'') (text_flag fs ''name'')))"

definition anon_flags :: flag_table where
  "anon_flags = [(''listen'', Text ''127.0.0.1:0''), (''name'', Text ''anonymous''), (''debug-socket'', Text []),
     (''lease'', Text []), (''allowed-signers'', Text []), (''signer'', Text []), (''identity'', Text []), (''seed'', Text [])]"

definition cmd_anon :: "string list \<Rightarrow> decision" where
  "cmd_anon args = parse_or_help ''anon'' (flags_of anon_flags) args (\<lambda>fs rest. Perform (Anon_Run fs))"

subsection \<open>Seeds and leases\<close>

definition seed_flags :: flag_table where
  "seed_flags = [(''surface'', Text ''base''), (''auth-ref'', Text ''env:LEZZ_CLUSTER_KEY''), (''name'', Text []), (''force'', Truth False)]"

definition cmd_seed :: "string list \<Rightarrow> decision" where
  "cmd_seed args =
     help_only ''seed'' args
       (case args of
          [] \<Rightarrow> Refuse 1 No_Action
        | a # rest \<Rightarrow>
            if a \<noteq> ''init'' then Refuse 1 No_Action
            else parse_or_help ''seed init'' (flags_of seed_flags) rest (\<lambda>fs _. Perform (Seed_Init fs)))"

definition default_key_dir :: "cli_env \<Rightarrow> string" where
  "default_key_dir e = join_path [case ce_home e of None \<Rightarrow> [] | Some h \<Rightarrow> h, ''.lezz'', ''keys'']"

definition lease_flags :: flag_table where
  "lease_flags = [(''seed'', Text []), (''ttl'', Span (300 * second)), (''actions'', Text ''observe,explain,shadow''),
     (''key'', Text []), (''signer'', Text ''local''), (''out'', Text ''lease.json'')]"

definition fetch_flags :: flag_table where
  "fetch_flags = [(''user'', Text []), (''refresh'', Truth False)]"

definition cmd_debug :: "cli_env \<Rightarrow> string list \<Rightarrow> decision" where
  "cmd_debug e args =
     help_only ''debug'' args
       (case args of
          [] \<Rightarrow> Refuse 1 No_Action
        | a # rest \<Rightarrow>
            if a = ''keygen'' then
              parse_or_help ''debug keygen'' (flags_of [(''dir'', Text (default_key_dir e))]) rest
                (\<lambda>fs _. Perform (Debug_Keygen (text_flag fs ''dir'')))
            else if a = ''lease'' then
              parse_or_help ''debug lease'' (flags_of lease_flags) rest (\<lambda>fs _. Perform (Debug_Lease fs))
            else if a = ''fetch-keys'' then
              parse_or_help ''debug fetch-keys'' (flags_of fetch_flags) rest
                (\<lambda>fs _. if text_flag fs ''user'' = [] then Refuse 1 (Flag_Required ''user'')
                   else Perform (Debug_Fetch (text_flag fs ''user'') (truth_flag fs ''refresh'')))
            else Refuse 1 (Unknown_Action a))"

definition cmd_motd :: "string list \<Rightarrow> decision" where
  "cmd_motd args = (if help_requested args then Help ''motd'' else no_arguments args (Perform Motd_Show))"

definition cmd_see :: "string list \<Rightarrow> decision" where
  "cmd_see args =
     parse_or_help ''see'' (flags_of [(''file'', Text ''seed.json'')]) args (\<lambda>fs _. Perform (See_Show (text_flag fs ''file'')))"

subsection \<open>Tools and services\<close>

definition with_tool :: "string \<Rightarrow> (string \<Rightarrow> string list \<Rightarrow> action) \<Rightarrow> string list \<Rightarrow> decision" where
  "with_tool name act args =
     help_only name args (case args of [] \<Rightarrow> Refuse 1 No_Tool_Given | t # rest \<Rightarrow> Perform (act t rest))"

definition cmd_run :: "string list \<Rightarrow> decision" where "cmd_run = with_tool ''run'' Tool_Run"
definition cmd_start :: "string list \<Rightarrow> decision" where "cmd_start = with_tool ''start'' Tool_Start"

definition cmd_install :: "string list \<Rightarrow> decision" where
  "cmd_install args =
     help_only ''install'' args
       (case args of
          [] \<Rightarrow> Refuse 1 No_Tool_Given
        | n # _ \<Rightarrow> (case lookup_tool n of None \<Rightarrow> Refuse 1 (Unknown_Tool n) | Some t \<Rightarrow> Perform (Tool_Install t)))"

definition cmd_update :: "string list \<Rightarrow> decision" where
  "cmd_update args = help_only ''update'' args (no_arguments args (Perform Update_All))"

definition cmd_tools :: "string list \<Rightarrow> decision" where
  "cmd_tools args =
     help_only ''tools'' args
       (case args of
          [] \<Rightarrow> Refuse 1 No_Action
        | a # names \<Rightarrow>
            if a = ''upgrade'' then help_only ''tools upgrade'' names (Perform (Tools_Upgrade names))
            else Refuse 1 (Unknown_Action a))"

definition service_target :: "string \<Rightarrow> string list \<Rightarrow> decision" where
  "service_target a args =
     (let (pos, force) = take_flag args ''--force'' in
      if force \<and> a \<noteq> ''install'' then Refuse 2 Misplaced_Force
      else
        (case pos of
           [] \<Rightarrow> Refuse 1 No_Tool_Given
         | n # ps \<Rightarrow>
             (let profile = (case ps of [] \<Rightarrow> ''idle'' | p # _ \<Rightarrow> p) in
              case lookup_tool n of
                None \<Rightarrow> Refuse 1 (Unknown_Tool n)
              | Some t \<Rightarrow>
                  (case lookup_profile t profile of
                     None \<Rightarrow> Refuse 1 (No_Profile n profile)
                   | Some p \<Rightarrow>
                       if a = ''install'' then Perform (Service_Install t p force)
                       else if a = ''remove'' then Perform (Service_Remove t p)
                       else Refuse 1 (Unknown_Action a)))))"

definition cmd_service :: "string list \<Rightarrow> decision" where
  "cmd_service args =
     help_only ''service'' args
       (case args of
          [] \<Rightarrow> Refuse 1 No_Action
        | a # rest \<Rightarrow>
            if help_requested rest then Help (''service '' @ a)
            else if a = ''list'' then Perform Service_List
            else if a = ''purge'' then Perform Service_Purge
            else if rest = [] then Refuse 1 No_Tool_Given
            else service_target a rest)"

definition cmd_purge :: "string list \<Rightarrow> decision" where
  "cmd_purge args = help_only ''purge'' args (Perform Purge_All)"

definition cmd_version :: "string list \<Rightarrow> decision" where
  "cmd_version args = help_only ''version'' args (Perform Version_Show)"

subsection \<open>Editors, the bundle, signing in, the dashboard\<close>

definition agent_flags :: flag_table where
  "agent_flags = [(''name'', Text ''workspace''), (''settings'', Text []), (''dry-run'', Truth False), (''yes'', Truth False),
     (''command'', Text []), (''root'', Text []), (''session'', Text ''42''), (''spec'', Text []), (''src'', Text []),
     (''no-build'', Truth False)]"

definition build_flags :: flag_table where
  "build_flags = [(''src'', Text []), (''out'', Text []), (''no-fetch'', Truth False)]"

definition settings_file :: "cli_env \<Rightarrow> flag_table \<Rightarrow> string option" where
  "settings_file e fs =
     (if text_flag fs ''settings'' \<noteq> [] then Some (text_flag fs ''settings'')
      else zed_settings_path (ce_goos e = ''windows'') (ce_getenv e ''XDG_CONFIG_HOME'') (ce_home e))"

definition agent_action :: "string \<Rightarrow> string \<Rightarrow> flag_table \<Rightarrow> decision" where
  "agent_action a path fs =
     (if a = ''setup'' then Perform (Agent_Setup path fs)
      else if a = ''remove'' then
        Perform (Agent_Remove path (text_flag fs ''name'') (truth_flag fs ''dry-run'') (truth_flag fs ''yes''))
      else if a = ''show'' then Perform (Agent_Show path (text_flag fs ''name''))
      else Refuse 1 (Unknown_Action a))"

definition editor_of :: "string list \<Rightarrow> string \<times> string list" where
  "editor_of rest = (case rest of [] \<Rightarrow> (''zed'', []) | r # rs \<Rightarrow> if has_prefix r ''-'' then (''zed'', rest) else (r, rs))"

definition cmd_agent :: "cli_env \<Rightarrow> string list \<Rightarrow> decision" where
  "cmd_agent e args =
     help_only ''agent'' args
       (case args of
          [] \<Rightarrow> Refuse 1 No_Action
        | a # rest0 \<Rightarrow>
            if a = ''build'' then
              parse_or_help ''agent build'' (flags_of build_flags) rest0 (\<lambda>fs _. Perform (Agent_Build fs))
            else
              (let (editor, rest) = editor_of rest0 in
               parse_or_help (''agent '' @ a) (flags_of agent_flags) rest (\<lambda>fs _.
                 if editor \<noteq> ''zed'' then Refuse 1 (Unknown_Editor editor)
                 else (case settings_file e fs of None \<Rightarrow> Refuse 1 No_Settings_Path | Some path \<Rightarrow> agent_action a path fs))))"

definition app_install_flags :: "cli_env \<Rightarrow> flag_table" where
  "app_install_flags e =
     (let id = trim_space (ce_getenv e ''CODESIGN_IDENTITY'') in
      [(''dest'', Text []), (''name'', Text ''Lezz''), (''bundle-id'', Text ''co.james-gibson.lezz''),
       (''identity'', Text (if id \<noteq> [] then id else ''-'')), (''entitlements'', Text []), (''url-scheme'', Text ''lezz''),
       (''dock'', Truth False), (''force'', Truth False), (''bin'', Text [])])"

definition app_open_flags :: flag_table where
  "app_open_flags = [(''app'', Text []), (''wait'', Truth False), (''new'', Truth False)]"

definition cmd_app :: "cli_env \<Rightarrow> string list \<Rightarrow> decision" where
  "cmd_app e args =
     help_only ''app'' args
       (case args of
          [] \<Rightarrow> Refuse 1 No_Action
        | a # rest \<Rightarrow>
            if a = ''install'' then
              parse_or_help ''app install'' (flags_of (app_install_flags e)) rest (\<lambda>fs _. Perform (App_Install fs))
            else if a = ''open'' then
              parse_or_help ''app open'' (flags_of app_open_flags) rest (\<lambda>fs more_args. Perform (App_Open fs more_args))
            else if a = ''info'' then
              parse_or_help ''app info'' (flags_of [(''app'', Text [])]) rest (\<lambda>fs _. Perform (App_Info (text_flag fs ''app'')))
            else if a = ''uninstall'' then
              parse_or_help ''app uninstall'' (flags_of [(''app'', Text []), (''force'', Truth False)]) rest
                (\<lambda>fs _. Perform (App_Uninstall (text_flag fs ''app'') (truth_flag fs ''force'')))
            else Refuse 1 (Unknown_Action a))"

definition sign_in_flags :: flag_table where
  "sign_in_flags = [(''client-id'', Text []), (''scopes'', Text ''read:user''), (''store'', Text ''auto''), (''no-browser'', Truth False)]"

definition cmd_auth :: "string list \<Rightarrow> decision" where
  "cmd_auth args =
     help_only ''auth'' args
       (case args of
          [] \<Rightarrow> Refuse 1 No_Action
        | a # rest \<Rightarrow>
            if a = ''github'' then
              parse_or_help ''auth github'' (flags_of sign_in_flags) rest (\<lambda>fs _. Perform (Auth_Sign_In fs))
            else if a = ''status'' then
              parse_or_help ''auth status'' (flags_of [(''store'', Text ''auto''), (''json'', Truth False)]) rest
                (\<lambda>fs _. Perform (Auth_Status (text_flag fs ''store'') (truth_flag fs ''json'')))
            else if a = ''logout'' then
              parse_or_help ''auth logout'' (flags_of [(''store'', Text ''auto'')]) rest
                (\<lambda>fs _. Perform (Auth_Logout (text_flag fs ''store'')))
            else Refuse 1 (Unknown_Action a))"

definition sea_flags :: flag_table where
  "sea_flags = [(''install'', Truth False), (''check'', Truth False), (''open'', Truth False), (''force'', Truth False),
     (''allow-unnotarized'', Truth False), (''channel'', Text ''dev''), (''log'', Text []), (''app'', Text [])]"

definition cmd_sea :: "cli_env \<Rightarrow> string list \<Rightarrow> decision" where
  "cmd_sea e args =
     parse_or_help ''sea'' (flags_of sea_flags) args (\<lambda>fs rest.
       case rest of
         a # _ \<Rightarrow> Refuse 1 (Unexpected_Argument a)
       | [] \<Rightarrow> if ce_goos e \<noteq> ''darwin'' then Refuse 1 (Other_System (ce_goos e)) else Perform (Sea_Run fs))"

section \<open>The dispatch\<close>

definition normalize_args :: "string list \<Rightarrow> string list" where
  "normalize_args argv =
     (case argv of
        [] \<Rightarrow> []
      | prog # args \<Rightarrow>
          (let kept = filter (\<lambda>a. \<not> has_prefix a ''-psn_'') args in
           if kept = [] \<and> contains prog ''.app/Contents/MacOS/'' then [prog, ''auto''] else prog # kept))"

definition help_words :: "string list" where
  "help_words = [''-h'', ''-help'', ''--h'', ''--help'', ''help'']"

definition cmd_help :: "string list \<Rightarrow> decision" where
  "cmd_help rest =
     (if rest \<noteq> [] \<and> lookup_command (join '' '' rest) \<noteq> None then Help (join '' '' rest) else Usage)"

text \<open>The commands, in the order of the dispatch.\<close>

definition dispatch_table :: "cli_env \<Rightarrow> (string, string list \<Rightarrow> decision) table" where
  "dispatch_table e =
     [(''demo'', cmd_demo), (''auto'', cmd_auto), (''prod'', cmd_prod), (''queue'', cmd_queue), (''cache'', cmd_cache),
      (''mcp'', cmd_mcp e), (''anon'', cmd_anon), (''seed'', cmd_seed), (''see'', cmd_see), (''motd'', cmd_motd),
      (''sea'', cmd_sea e), (''debug'', cmd_debug e), (''app'', cmd_app e), (''auth'', cmd_auth), (''run'', cmd_run),
      (''install'', cmd_install), (''tools'', cmd_tools), (''update'', cmd_update), (''service'', cmd_service),
      (''agent'', cmd_agent e), (''start'', cmd_start), (''purge'', cmd_purge), (''version'', cmd_version)]"

definition decide :: "cli_env \<Rightarrow> string list \<Rightarrow> decision" where
  "decide e argv =
     (case tl (normalize_args argv) of
        [] \<Rightarrow> Usage
      | c # args \<Rightarrow>
          (case map_of (dispatch_table e) c of
             Some f \<Rightarrow> f args
           | None \<Rightarrow> if c \<in> set help_words then cmd_help args else Refuse 1 (Unknown_Command c)))"

text \<open>The exit status when nothing is performed.\<close>

definition refusal_status :: "decision \<Rightarrow> nat" where
  "refusal_status d = (case d of Refuse n _ \<Rightarrow> n | _ \<Rightarrow> 0)"

section \<open>A help request\<close>

lemma help_requested_dash: "help_requested args \<Longrightarrow> \<exists>c r as. args = (CHR ''-'' # c # r) # as"
proof (cases args)
  case (Cons a as)
  moreover assume "help_requested args"
  ultimately have "a \<noteq> ''-''" "has_prefix a ''-''" by (auto split: if_splits)
  then show ?thesis using Cons by (cases a; cases "tl a") (auto simp: has_prefix_def)
qed simp

lemma help_requested_ne [simp]: "help_requested args \<Longrightarrow> args \<noteq> []"
  by (cases args) auto

lemma help_requested_filter: "help_requested (filter (\<lambda>a. \<not> has_prefix a ''-psn_'') args) = help_requested args"
proof (induction args)
  case (Cons a as)
  have "has_prefix a ''-psn_'' \<Longrightarrow> \<exists>r. a = ''-psn_'' @ r" by (auto simp: has_prefix_iff)
  then show ?case using Cons by (auto simp: has_prefix_def)
qed simp

lemma parse_or_help_help [simp]: "help_requested args \<Longrightarrow> parse_or_help name parse args go = Help name"
  by (simp add: parse_or_help_def)

lemma help_only_help [simp]: "help_requested args \<Longrightarrow> help_only name args d = Help name"
  by (simp add: help_only_def)

lemmas help_evals = cmd_auto_def cmd_anon_def cmd_mcp_def cmd_seed_def cmd_debug_def cmd_motd_def cmd_see_def with_tool_def cmd_run_def
  cmd_start_def cmd_install_def cmd_update_def cmd_tools_def cmd_service_def cmd_purge_def cmd_version_def cmd_agent_def cmd_app_def
  cmd_auth_def cmd_sea_def

lemma demo_help: "help_requested args \<Longrightarrow> cmd_demo args = Help ''demo''"
  using help_requested_dash [of args] by (auto simp: cmd_demo_def demo_flags_def)

lemma without_run_help: "help_requested args \<Longrightarrow> without_run args = args"
  using help_requested_dash [of args] by (auto simp: without_run_def)

lemma dispatched_help:
  assumes "help_requested args" "c \<noteq> ''prod''" "map_of (dispatch_table e) c = Some f"
  shows "f args = Help c"
proof -
  have "(c, f) \<in> set (dispatch_table e)" using assms(3) by (rule map_of_SomeD)
  then show ?thesis
    using assms(1,2)
    by (auto simp: dispatch_table_def help_evals demo_help cmd_queue_def cmd_cache_def without_run_help)
qed

definition commands :: "string list" where
  "commands = [''demo'', ''auto'', ''prod'', ''queue'', ''cache'', ''mcp'', ''anon'', ''seed'', ''see'', ''motd'', ''sea'', ''debug'',
     ''app'', ''auth'', ''run'', ''install'', ''tools'', ''update'', ''service'', ''agent'', ''start'', ''purge'', ''version'']"

lemma commands_dispatch: "map fst (dispatch_table e) = commands"
  by (simp add: dispatch_table_def commands_def)

lemma dispatch_iff: "(\<exists>f. map_of (dispatch_table e) c = Some f) \<longleftrightarrow> c \<in> set commands"
  using commands_dispatch [of e] by (metis (no_types) dom_map_of_conv_image_fst domD domI list.set_map)

lemma command_no_dash: "c \<in> set commands \<Longrightarrow> \<not> has_prefix c ''-''"
  by (auto simp: commands_def has_prefix_def)

lemma normalize_kept:
  "c \<noteq> [] \<Longrightarrow> \<not> has_prefix c ''-'' \<Longrightarrow>
     tl (normalize_args (prog # c # args)) = c # filter (\<lambda>a. \<not> has_prefix a ''-psn_'') args"
  by (cases c) (auto simp: normalize_args_def has_prefix_def Let_def)

lemma command_ne: "c \<in> set commands \<Longrightarrow> c \<noteq> []"
  by (auto simp: commands_def)

lemma decide_command:
  assumes "c \<in> set commands"
  shows "\<exists>f. map_of (dispatch_table e) c = Some f
    \<and> decide e (prog # c # args) = f (filter (\<lambda>a. \<not> has_prefix a ''-psn_'') args)"
proof -
  obtain f where "map_of (dispatch_table e) c = Some f" using assms dispatch_iff by blast
  then show ?thesis using normalize_kept [OF command_ne command_no_dash] assms by (simp add: decide_def)
qed

text \<open>
  C10: a help request is answered with the usage of its command and runs nothing: every command except
  \<open>prod\<close> does so whenever a help flag comes before the first plain argument.
\<close>

theorem help_runs_nothing:
  assumes "c \<in> set commands" "c \<noteq> ''prod''" "help_requested args"
  shows "decide e (prog # c # args) = Help c"
proof -
  define kept where "kept = filter (\<lambda>a. \<not> has_prefix a ''-psn_'') args"
  obtain f where f: "map_of (dispatch_table e) c = Some f" and d: "decide e (prog # c # args) = f kept"
    using decide_command [OF assms(1)] unfolding kept_def by blast
  have "help_requested kept" using assms(3) by (simp add: kept_def help_requested_filter)
  then show ?thesis using dispatched_help [OF _ assms(2) f] d by simp
qed

theorem help_runs_nothing_witness:
  "decide \<lparr>ce_getenv = \<lambda>_. [], ce_goos = ''linux'', ce_home = None\<rparr> [''lezz'', ''purge'', ''--verbose'', ''-h''] = Help ''purge''"
  by (rule help_runs_nothing) (simp_all add: commands_def has_prefix_def)

section \<open>The help of an action\<close>

lemma help_after:
  assumes "help_requested as"
  shows "help_requested (a # as) \<or> length a < 2 \<or> hd a \<noteq> CHR ''-'' \<or> a = ''--''"
  using assms by (cases a; cases "tl a") (auto simp: has_prefix_def)

lemma stopped_parse: "length a < 2 \<or> hd a \<noteq> CHR ''-'' \<Longrightarrow> parse_flags k s o' (a # as) = Inr (o', a # as)"
  by auto

lemma strict_parse:
  assumes "help_requested as" "\<And>o' r rs. go o' (r # rs) = Refuse n (f r)"
  shows "\<not> performs (parse_or_help name (parse_flags k s o') (a # as) go)"
proof (cases "help_requested (a # as)")
  case False
  have "as \<noteq> []" using assms(1) by simp
  then obtain b bs where as: "as = b # bs" by (cases as) auto
  consider "length a < 2 \<or> hd a \<noteq> CHR ''-''" | "a = ''--''" using help_after [OF assms(1)] False by blast
  then show ?thesis
  proof cases
    case 1
    then show ?thesis using False assms(2) stopped_parse [OF 1, of k s o' as] by (simp add: parse_or_help_def performs_def)
  next
    case 2
    then have "parse_flags k s o' (a # as) = Inr (o', b # bs)" by (simp add: as)
    then show ?thesis using False assms(2) by (simp only: parse_or_help_def performs_def) simp
  qed
qed (simp add: performs_def)

definition takes_words :: "string list" where
  "takes_words = [''prod'', ''queue'', ''cache'', ''mcp'', ''anon'', ''see'', ''run'', ''start'', ''install'', ''purge'', ''version'']"

lemma performs_simps [simp]: "\<not> performs Usage" "\<not> performs (Help h)" "\<not> performs (Flag_List h)" "\<not> performs (Refuse n r)"
  "performs (Perform a)"
  by (simp_all add: performs_def)

lemma help_only_performs: "performs (help_only name args d) \<longleftrightarrow> \<not> help_requested args \<and> performs d"
  by (simp add: help_only_def)

lemma demo_action: "help_requested as \<Longrightarrow> \<not> performs (cmd_demo (a # as))"
  using strict_parse [where k = demo_flag_kinds and s = demo_flag_set and o' = no_options and as = as and a = a and n = 2
      and f = Unexpected_Argument and name = "''demo''" and go = "\<lambda>o' rest. no_positional rest (Perform (Demo_Run o'))"]
  by (auto simp: cmd_demo_def demo_flags_def demo_state_flags_def parse_demo_flags_def no_positional_def)

lemma auto_action: "help_requested as \<Longrightarrow> \<not> performs (cmd_auto (a # as))"
  unfolding cmd_auto_def flags_of_def by (rule strict_parse) (simp_all add: no_positional_def)

lemma sea_action: "help_requested as \<Longrightarrow> \<not> performs (cmd_sea e (a # as))"
  unfolding cmd_sea_def flags_of_def by (rule strict_parse) simp_all

lemma agent_action_help: "help_requested as \<Longrightarrow> \<not> performs (cmd_agent e (a # as))"
proof -
  assume h: "help_requested as"
  then have "editor_of as = (''zed'', as)" using help_requested_dash [OF h] by (auto simp: editor_of_def has_prefix_def)
  then show ?thesis using h by (simp add: cmd_agent_def help_only_performs)
qed

lemma other_actions:
  assumes "help_requested as"
  shows "\<not> performs (cmd_seed (a # as))" "\<not> performs (cmd_motd (a # as))" "\<not> performs (cmd_debug e (a # as))"
    "\<not> performs (cmd_app e (a # as))" "\<not> performs (cmd_auth (a # as))" "\<not> performs (cmd_tools (a # as))"
    "\<not> performs (cmd_update (a # as))" "\<not> performs (cmd_service (a # as))"
  using assms
  by (simp_all add: cmd_seed_def cmd_motd_def cmd_debug_def cmd_app_def cmd_auth_def cmd_tools_def cmd_update_def cmd_service_def
      help_only_performs no_arguments_def)

lemma dispatched_action_help:
  assumes "help_requested as" "c \<notin> set takes_words" "map_of (dispatch_table e) c = Some f"
  shows "\<not> performs (f (a # as))"
proof -
  have "(c, f) \<in> set (dispatch_table e)" using assms(3) by (rule map_of_SomeD)
  then show ?thesis
    unfolding dispatch_table_def list.set insert_iff prod.inject empty_iff
    by (elim disjE conjE FalseE)
      (use assms(1,2) in \<open>simp_all add: takes_words_def demo_action auto_action sea_action agent_action_help other_actions\<close>)
qed

text \<open>
  A help flag behind the name of an action runs nothing either, whatever that name is, for every
  command but those that pass words on, ignore them, or parse their own.
\<close>

theorem help_of_an_action_runs_nothing:
  assumes "c \<in> set commands" "c \<notin> set takes_words" "help_requested args"
  shows "\<not> performs (decide e (prog # c # a # args))"
proof -
  define kept where "kept = filter (\<lambda>a. \<not> has_prefix a ''-psn_'') args"
  obtain f where f: "map_of (dispatch_table e) c = Some f"
    and d: "decide e (prog # c # a # args) = f (filter (\<lambda>a. \<not> has_prefix a ''-psn_'') (a # args))"
    using decide_command [OF assms(1)] by blast
  have h: "help_requested kept" using assms(3) by (simp add: kept_def help_requested_filter)
  have "c \<noteq> ''prod''" using assms(2) by (auto simp: takes_words_def)
  then have "f kept = Help c" using dispatched_help [OF h _ f] by simp
  moreover have "\<not> performs (f (a # kept))" using dispatched_action_help [OF h assms(2) f] .
  ultimately show ?thesis using d by (simp add: kept_def)
qed

theorem help_of_an_action_runs_nothing_witness:
  "\<not> performs (decide \<lparr>ce_getenv = \<lambda>_. [], ce_goos = ''darwin'', ce_home = None\<rparr> [''lezz'', ''app'', ''uninstall'', ''--help''])"
  by (rule help_of_an_action_runs_nothing) (simp_all add: commands_def takes_words_def has_prefix_def)

text \<open>Where the help flag comes too late: these run.\<close>

lemma late_help_runs:
  "decide e [''lezz'', ''purge'', ''all'', ''--help''] = Perform Purge_All"
  "decide e [''lezz'', ''service'', ''purge'', ''all'', ''--help''] = Perform Service_Purge"
  "decide e [''lezz'', ''purge'', ''--help=true''] = Perform Purge_All"
  "decide e [''lezz'', ''queue'', ''statsu''] = Perform (Queue_Run [])"
  by (simp_all add: decide_def normalize_args_def dispatch_table_def cmd_purge_def cmd_service_def cmd_queue_def help_only_def
      parse_or_help_def has_prefix_def flags_of_def without_run_def text_flag_def config_flags_def)

lemma late_help_installs:
  "decide e [''lezz'', ''install'', ''adhd'', ''--help''] = Perform (Tool_Install (tool_registry ! 1))"
  by (simp add: decide_def normalize_args_def dispatch_table_def cmd_install_def help_only_def has_prefix_def lookup_tool_def tool_registry_def)

text \<open>\<open>prod\<close> takes a help flag for the value of the flag before it.\<close>

lemma prod_help_runs:
  "case decide e [''lezz'', ''prod'', ''--isotope'', ''--help'', ''--isotope'', ''x''] of Perform (Prod_Run o') \<Rightarrow> po_isotope o' = ''x'' | _ \<Rightarrow> False"
  by code_simp

section \<open>The table of commands\<close>

text \<open>
  The table and the dispatch agree: every documented invocation followed by a help flag is answered with
  its own block, and the first words of the table are the commands that are dispatched.
\<close>

definition words_of :: "command_doc \<Rightarrow> string list" where
  "words_of d = split_at (CHR '' '') (cd_path d)"

definition documented :: "cli_env \<Rightarrow> command_doc \<Rightarrow> bool" where
  "documented e d \<longleftrightarrow>
     (case words_of d of
        [] \<Rightarrow> False
      | c # ws \<Rightarrow> c \<in> set commands
          \<and> decide e (''lezz'' # c # ws @ [''--help'']) = (if c = ''prod'' then Flag_List c else Help (cd_path d)))"


lemma find_command_spec:
  "find_command path ds best = r \<Longrightarrow>
     (case r of
        None \<Rightarrow> best = None \<and> list_all (\<lambda>d. cd_path d \<noteq> path \<and> \<not> has_prefix path (cd_path d @ '' '')) ds
      | Some d \<Rightarrow>
          (d \<in> set ds \<and> cd_path d = path)
          \<or> (list_all (\<lambda>d. cd_path d \<noteq> path) ds \<and> (best = Some d \<or> d \<in> set ds \<and> has_prefix path (cd_path d @ '' ''))
             \<and> list_all (\<lambda>d'. has_prefix path (cd_path d' @ '' '') \<longrightarrow> length (cd_path d') \<le> length (cd_path d)) ds
             \<and> (case best of None \<Rightarrow> True | Some b \<Rightarrow> length (cd_path b) \<le> length (cd_path d))))"
proof (induction ds arbitrary: best)
  case (Cons d ds)
  show ?case
  proof (cases "cd_path d = path")
    case False
    then have r: "find_command path ds (if better_doc path d best then Some d else best) = r" using Cons.prems by simp
    show ?thesis
      using Cons.IH [OF r] False
      by (cases best; cases r) (auto simp: better_doc_def split: if_splits)
  qed (use Cons.prems in auto)
qed (auto split: option.splits)

text \<open>
  A typed path gets the row of that path, or, when there is none, the longest row whose words it
  begins with.
\<close>

theorem lookup_is_the_closest:
  "case lookup_command p of
     None \<Rightarrow> list_all (\<lambda>d. cd_path d \<noteq> trim_space p \<and> \<not> has_prefix (trim_space p) (cd_path d @ '' '')) command_docs
   | Some d \<Rightarrow> d \<in> set command_docs \<and>
       (if cd_path d = trim_space p then True
        else list_all (\<lambda>d'. cd_path d' \<noteq> trim_space p) command_docs \<and> has_prefix (trim_space p) (cd_path d @ '' '')
          \<and> list_all (\<lambda>d'. if has_prefix (trim_space p) (cd_path d' @ '' '') then length (cd_path d') \<le> length (cd_path d) else True) command_docs)"
proof -
  have *: "find_command (trim_space p) command_docs None = lookup_command p" by (simp add: lookup_command_def)
  show ?thesis using find_command_spec [OF *]
    by (cases "lookup_command p") (auto simp: list_all_iff)
qed

text \<open>The rows of the list are aligned.\<close>

lemma width_grows: "w \<le> fold (\<lambda>d w. if cd_listed d \<and> w < length (cd_display d) then length (cd_display d) else w) ds w"
proof (induction ds arbitrary: w)
  case (Cons d ds)
  show ?case using Cons [of "if cd_listed d \<and> w < length (cd_display d) then length (cd_display d) else w"] by auto
qed simp

lemma width_covers: "d \<in> set ds \<Longrightarrow> cd_listed d \<Longrightarrow>
    length (cd_display d) \<le> fold (\<lambda>d w. if cd_listed d \<and> w < length (cd_display d) then length (cd_display d) else w) ds w"
proof (induction ds arbitrary: w)
  case (Cons x ds)
  then show ?case
    using width_grows [of "if cd_listed x \<and> w < length (cd_display x) then length (cd_display x) else w" ds]
    by (auto split: if_splits)
qed simp

lemma usage_rows_aligned: "d \<in> set (filter cd_listed command_docs) \<Longrightarrow> length (padded usage_width (cd_display d)) = usage_width"
  using width_covers [where ds = command_docs and w = 0] by (auto simp: usage_width_def padded_def)

section \<open>The arguments\<close>

text \<open>The arguments of a bundle: the ones the system adds are dropped, and nothing else.\<close>

theorem arguments_of_a_bundle:
  "case argv of
     [] \<Rightarrow> normalize_args argv = []
   | prog # args \<Rightarrow> (let kept = filter (\<lambda>a. \<not> has_prefix a ''-psn_'') args in
       normalize_args argv = prog # (if kept = [] \<and> contains prog ''.app/Contents/MacOS/'' then [''auto''] else kept)
       \<and> normalize_args (normalize_args argv) = normalize_args argv)"
  by (auto simp: normalize_args_def Let_def has_prefix_def split: list.splits)

lemma take_flag_spec:
  "take_flag args ''--force'' = (filter (\<lambda>a. a \<noteq> ''--force'' \<and> a \<noteq> ''-force'') args, ''--force'' \<in> set args \<or> ''-force'' \<in> set args)"
  by (auto simp: take_flag_def list_ex_iff Let_def)

text \<open>Reading flags keeps the table: the same flags, each with a value of its own kind.\<close>

definition same_kind :: "flag_value \<Rightarrow> flag_value \<Rightarrow> bool" where
  "same_kind a b \<longleftrightarrow> (case (a, b) of (Text _, Text _) \<Rightarrow> True | (Truth _, Truth _) \<Rightarrow> True | (Span _, Span _) \<Rightarrow> True | _ \<Rightarrow> False)"

definition typed_as :: "flag_table \<Rightarrow> flag_table \<Rightarrow> bool" where
  "typed_as ds fs \<longleftrightarrow> map fst fs = map fst ds \<and> list_all2 (\<lambda>a b. same_kind (snd a) (snd b)) ds fs"

lemma same_kind_refl [simp]: "same_kind a a"
  by (cases a) (simp_all add: same_kind_def)

lemma same_kind_trans: "same_kind a b \<Longrightarrow> same_kind b c \<Longrightarrow> same_kind a c"
  by (cases a; cases b; cases c) (simp_all add: same_kind_def)

lemma typed_as_refl: "typed_as ds ds"
  by (simp add: typed_as_def list.rel_refl)

lemma typed_as_trans:
  assumes "typed_as as bs" "typed_as bs cs"
  shows "typed_as as cs"
proof -
  let ?k = "\<lambda>a b. same_kind (snd a) (snd b)"
  have "list_all2 ?k as cs"
    by (rule list_all2_trans [of ?k ?k ?k as bs cs]) (use assms same_kind_trans in \<open>auto simp: typed_as_def\<close>)
  then show ?thesis using assms by (simp add: typed_as_def)
qed

lemma typed_as_update: "map_of fs n = Some a \<Longrightarrow> same_kind a x \<Longrightarrow> typed_as fs (AList.update n x fs)"
  by (induction fs) (auto simp: typed_as_def list.rel_refl split: if_splits)

lemma set_flag_typed: "set_flag n v fs = Some fs' \<Longrightarrow> typed_as fs fs'"
  by (auto simp: set_flag_def same_kind_def intro!: typed_as_update split: option.splits flag_value.splits)


end
