(* ===== verification/ToolCommands.thy ===== *)
theory ToolCommands
  imports CommandLine Service SelfUpdate
begin

text \<open>
  What the commands about tools and services do (\<open>cmd/lezz/main.go\<close>, \<open>internal/tools/purge.go\<close>): the
  version, the updates, the installation with its hint about the search path, the services, the purge and
  the table of versions. They run the operations of Tools, SelfUpdate and Service and turn their outcomes
  into an exit status; what they print is left out, except for the hint and the table.
\<close>

section \<open>The version\<close>

record build_info =
  bu_version :: string
  bu_settings :: "(string \<times> string) list"

text \<open>\<open>built\<close> is the version set by the build.\<close>

definition version_text :: "string \<Rightarrow> build_info option \<Rightarrow> string" where
  "version_text built info =
     (if built \<noteq> [] then built
      else
        (case info of
           None \<Rightarrow> ''dev''
         | Some b \<Rightarrow>
             if bu_version b = [] \<or> bu_version b = ''(devel)'' then
               (case find (\<lambda>s. fst s = ''vcs.revision'' \<and> 8 \<le> length (snd s)) (bu_settings b) of
                  Some s \<Rightarrow> take 8 (snd s)
                | None \<Rightarrow> ''dev'')
             else bu_version b))"

section \<open>Updating\<close>

type_synonym 'b upgrader = "tool \<Rightarrow> 'b bin_dir \<Rightarrow> (tool_err, upgrade_result) res \<times> 'b bin_dir"

definition upgrade_managed :: "'b upgrader \<Rightarrow> string list \<Rightarrow> 'b bin_dir \<Rightarrow> bool \<times> 'b bin_dir" where
  "upgrade_managed up names d =
     (case upgrade_all up names d of
        (Inl _, d1) \<Rightarrow> (False, d1)
      | (Inr rs, d1) \<Rightarrow> (list_all (\<lambda>tr. is_ok (snd tr)) rs, d1))"

definition tools_upgrade_command :: "'b upgrader \<Rightarrow> string list \<Rightarrow> 'b bin_dir \<Rightarrow> nat \<times> 'b bin_dir" where
  "tools_upgrade_command up names d =
     (case upgrade_managed up names d of (ok, d1) \<Rightarrow> (if ok then 0 else 1, d1))"

text \<open>\<open>rel\<close> is what the check finds and \<open>rel'\<close> what the update finds.\<close>

definition update_self ::
    "(string \<Rightarrow> string \<Rightarrow> bool) \<Rightarrow> bool \<Rightarrow> 'b release \<Rightarrow> 'b release \<Rightarrow> string \<Rightarrow> 'b \<Rightarrow> bool \<times> 'b" where
  "update_self newer exe rel rel' current self =
     (case check_update newer rel current of
        Inl _ \<Rightarrow> (False, self)
      | Inr (latest, has) \<Rightarrow>
          if \<not> has then (True, self)
          else (case apply_update newer exe rel' current self of (r, s) \<Rightarrow> (is_ok r, s)))"

definition update_command ::
    "(string \<Rightarrow> string \<Rightarrow> bool) \<Rightarrow> bool \<Rightarrow> 'b release \<Rightarrow> 'b release \<Rightarrow> string \<Rightarrow> 'b upgrader \<Rightarrow> 'b \<Rightarrow> 'b bin_dir \<Rightarrow> nat \<times> 'b \<times> 'b bin_dir" where
  "update_command newer exe rel rel' current up self d =
     (let (ok1, self1) = update_self newer exe rel rel' current self;
          (ok2, d1) = upgrade_managed up [] d in
      (if ok1 \<and> ok2 then 0 else 1, self1, d1))"

lemma upgrade_each_covers: "map fst (fst (upgrade_each up ts d)) = ts"
  by (induction up ts d rule: upgrade_each.induct) (auto split: prod.splits)

definition other_tools :: "tool list" where
  "other_tools = filter (\<lambda>t. tl_name t \<noteq> ''lezz'') tool_registry"

text \<open>
  An update tries lezz itself and every other tool, whatever fails: the binary of lezz is what its
  own update gives, the directory of tools what the upgrade of each of them in turn gives, and the exit
  status is 0 exactly when all of them went well.
\<close>

theorem update_tries_everything:
  "case update_command newer exe rel rel' current up self d of (st, self', d') \<Rightarrow>
     self' = snd (update_self newer exe rel rel' current self)
     \<and> (\<exists>rs. upgrade_each up other_tools d = (rs, d') \<and> map fst rs = other_tools
         \<and> (st = 0 \<longleftrightarrow> fst (update_self newer exe rel rel' current self) \<and> list_all (\<lambda>tr. is_ok (snd tr)) rs))"
proof -
  obtain rs d' where u: "upgrade_each up other_tools d = (rs, d')" by fastforce
  obtain ok self' where s: "update_self newer exe rel rel' current self = (ok, self')" by fastforce
  have "map fst rs = other_tools" using upgrade_each_covers [of up other_tools d] u by simp
  moreover have "upgrade_managed up [] d = (list_all (\<lambda>tr. is_ok (snd tr)) rs, d')"
    using u by (simp add: upgrade_managed_def upgrade_all_def select_tools_def other_tools_def)
  ultimately show ?thesis using u s by (simp add: update_command_def)
qed

section \<open>Installing\<close>

definition is_on_path :: "string \<Rightarrow> string \<Rightarrow> bool" where
  "is_on_path dir path \<longleftrightarrow> list_ex (\<lambda>p. p = dir) (split_at (CHR '':'') path)"

definition shell_profile :: "string \<Rightarrow> string" where
  "shell_profile path =
     (if trim_space path = [] then ''~/.profile''
      else
        (let shell = base_name path in
         if contains shell ''zsh'' then ''~/.zshrc''
         else if contains shell ''bash'' then ''~/.bash_profile''
         else if shell = ''sh'' \<or> shell = ''dash'' \<or> shell = ''ksh'' then ''~/.profile''
         else []))"

definition quoted :: "string \<Rightarrow> string" where "quoted s = [CHR 0x27] @ s @ [CHR 0x27]"

definition path_profile_command :: "string \<Rightarrow> string \<Rightarrow> string" where
  "path_profile_command line profile =
     ''grep -qsF '' @ quoted line @ '' '' @ profile @ '' || echo '' @ quoted line @ '' >> '' @ profile"

definition export_line :: "string \<Rightarrow> string" where
  "export_line bin = ''export PATH=\"'' @ bin @ '':$PATH\"''"

definition path_hint :: "string \<Rightarrow> string \<Rightarrow> string" where
  "path_hint bin shell =
     (let nl = [CHR 0x0A]; line = export_line bin; profile = shell_profile shell in
      nl @ ''Add lezz'' @ [CHR 0x27] @ ''s bin directory to your PATH:'' @ nl @ nl @ ''  this shell:  '' @ line @ nl
      @ (if profile = [] then nl @ ''  add that line to your shell profile to make it permanent.'' @ nl
         else nl @ ''  once, in '' @ profile @ '' '' @ em_dash @ '' appends only if the line is absent:'' @ nl
           @ ''  '' @ path_profile_command line profile @ nl))"

text \<open>The outcome of \<open>install\<close>, and the hint it prints. \<open>run\<close> installs one tool.\<close>

definition install_command ::
    "(tool \<Rightarrow> 'b bin_dir \<Rightarrow> (tool_err, string) res \<times> 'b bin_dir) \<Rightarrow> cli_env \<Rightarrow> tool \<Rightarrow> 'b bin_dir \<Rightarrow> nat \<times> string \<times> 'b bin_dir" where
  "install_command run e t d =
     (case run t d of
        (Inl _, d1) \<Rightarrow> (1, [], d1)
      | (Inr _, d1) \<Rightarrow>
          (0,
           (case tool_bin_dir (ce_home e) of
              None \<Rightarrow> []
            | Some b \<Rightarrow> if is_on_path b (ce_getenv e ''PATH'') then [] else path_hint b (ce_getenv e ''SHELL'')), d1))"

text \<open>
  What the command of the hint does to a profile: \<open>grep -qsF\<close> looks for the text within a line, and
  \<open>echo\<close> appends it as a line.
\<close>

definition edit_profile :: "string \<Rightarrow> string \<Rightarrow> string" where
  "edit_profile line content =
     (if list_ex (\<lambda>l. contains l line) (lines content) then content else content @ line @ [CHR 0x0A])"

lemma appended_is_found: "CHR 0x0A \<notin> set line \<Longrightarrow> list_ex (\<lambda>l. contains l line) (lines (content @ line @ [CHR 0x0A]))"
proof (induction content)
  case Nil
  then show ?case using split_at_append [of "CHR 0x0A" line "[]"] contains_append [of "[]" line "[]"] by simp
next
  case (Cons c s)
  then have "list_ex (\<lambda>l. contains l line) (lines (s @ line @ [CHR 0x0A]))" by simp
  then show ?case by (cases "lines (s @ line @ [CHR 0x0A])") auto
qed

text \<open>
  The profile edit is safe to repeat: after the first run every further one changes nothing, and
  what was in the profile stays in front.
\<close>

theorem profile_edit_repeats:
  assumes "CHR 0x0A \<notin> set bin"
  shows "(edit_profile (export_line bin) ^^ Suc n) content = edit_profile (export_line bin) content
    \<and> (\<exists>added. edit_profile (export_line bin) content = content @ added)"
proof -
  let ?e = "edit_profile (export_line bin)"
  have "CHR 0x0A \<notin> set (export_line bin)" using assms by (simp add: export_line_def)
  from appended_is_found [OF this, of content] have "?e (?e content) = ?e content"
    by (simp add: edit_profile_def)
  then have "(?e ^^ Suc n) content = ?e content" by (induction n) simp_all
  then show ?thesis by (simp add: edit_profile_def)
qed

theorem profile_edit_repeats_witness:
  "(edit_profile (export_line ''/h/.lezz/bin'') ^^ Suc 293) ''umask 022'' = edit_profile (export_line ''/h/.lezz/bin'') ''umask 022''
    \<and> (\<exists>added. edit_profile (export_line ''/h/.lezz/bin'') ''umask 022'' = ''umask 022'' @ added)"
  by (rule profile_edit_repeats) simp

text \<open>A last line without its end is glued to the line that is appended.\<close>

lemma unfinished_line_is_glued:
  "lines (edit_profile (export_line ''/b'') ''umask 022'') = [''umask 022export PATH=\"/b:$PATH\"'', []]"
  by code_simp

section \<open>Services\<close>

definition managed_path :: "string option \<Rightarrow> 'b bin_dir \<Rightarrow> string \<Rightarrow> string option" where
  "managed_path home d name =
     (case tool_bin_dir home of
        None \<Rightarrow> None
      | Some b \<Rightarrow> if map_of d name \<noteq> None then Some (join_path [b, name]) else None)"

text \<open>\<open>exe\<close> is the path of the running binary, when it is known.\<close>

definition resolve_bin_path :: "string option \<Rightarrow> 'b bin_dir \<Rightarrow> string option \<Rightarrow> string \<Rightarrow> string" where
  "resolve_bin_path home d exe name =
     (case managed_path home d name of
        Some p \<Rightarrow> p
      | None \<Rightarrow> if name = ''lezz'' then (case exe of Some p \<Rightarrow> p | None \<Rightarrow> []) else [])"

definition service_install_command ::
    "service_env \<Rightarrow> probes \<Rightarrow> 'b bin_dir \<Rightarrow> string option \<Rightarrow> tool \<Rightarrow> daemon_profile \<Rightarrow> bool \<Rightarrow> launchd \<Rightarrow> nat \<times> launchd" where
  "service_install_command e pb d exe t p force s =
     (let bin = resolve_bin_path (home_dir e) d exe (tl_name t) in
      if bin = [] then (1, s)
      else (case install_service e pb t p bin force s of (r, s1) \<Rightarrow> (if is_ok r then 0 else 1, s1)))"

definition service_remove_command :: "service_env \<Rightarrow> tool \<Rightarrow> daemon_profile \<Rightarrow> launchd \<Rightarrow> nat \<times> launchd" where
  "service_remove_command e t p s =
     (case remove_service e (tl_name t) (dp_name p) s of (r, s1) \<Rightarrow> (if is_ok r then 0 else 1, s1))"

definition service_list_command :: "service_env \<Rightarrow> launchd \<Rightarrow> nat \<times> service_info list" where
  "service_list_command e s = (case list_services e s of Inl _ \<Rightarrow> (1, []) | Inr is \<Rightarrow> (0, is))"

definition service_purge_command :: "service_env \<Rightarrow> launchd \<Rightarrow> nat \<times> launchd" where
  "service_purge_command e s =
     (case list_services e s of
        Inl _ \<Rightarrow> (1, s)
      | Inr is \<Rightarrow> if is = [] then (0, s) else (case purge_all e s of (r, s1) \<Rightarrow> (if is_ok r then 0 else 1, s1)))"

definition service_command ::
    "service_env \<Rightarrow> probes \<Rightarrow> 'b bin_dir \<Rightarrow> string option \<Rightarrow> action \<Rightarrow> launchd \<Rightarrow> (nat \<times> launchd) option" where
  "service_command e pb d exe act s =
     (case act of
        Service_List \<Rightarrow> Some (fst (service_list_command e s), s)
      | Service_Purge \<Rightarrow> Some (service_purge_command e s)
      | Service_Install t p force \<Rightarrow> Some (service_install_command e pb d exe t p force s)
      | Service_Remove t p \<Rightarrow> Some (service_remove_command e t p s)
      | _ \<Rightarrow> None)"

text \<open>What a list file is when launchd reads the program back.\<close>

definition readable_service :: "service_env \<Rightarrow> tool \<Rightarrow> daemon_profile \<Rightarrow> string \<Rightarrow> bool" where
  "readable_service e t p bin \<longleftrightarrow> list_all plain_text (bin # dp_args p)
     \<and> list_all one_line [launchd_label (tl_name t) (dp_name p), se_home e, join_path [se_home e, ''.lezz'', ''logs''],
         service_path (home_dir e) (se_path e)]"

text \<open>
  A service that was installed with exit status 0 runs the managed binary of its tool, which is
  there, or the running lezz, with the arguments of its profile; any other outcome leaves the services
  as they were or says that launchd did not load the list.
\<close>

theorem service_runs_the_managed_tool:
  "case service_install_command e pb d exe t p force s of (st, s') \<Rightarrow>
     if st = 0 then
       (\<exists>bin text'. (managed_path (home_dir e) d (tl_name t) = Some bin \<or> managed_path (home_dir e) d (tl_name t) = None \<and> tl_name t = ''lezz'' \<and> exe = Some bin)
          \<and> map_of (la_files s') (plist_name (launchd_label (tl_name t) (dp_name p))) = Some text'
          \<and> (if readable_service e t p bin then read_program text' = Some (bin # dp_args p) else True))
     else s' = s \<or> (\<exists>bin. install_service e pb t p bin force s = (Inl (Not_Loaded (launchd_label (tl_name t) (dp_name p))), s'))"
proof -
  define bin where "bin = resolve_bin_path (home_dir e) d exe (tl_name t)"
  obtain r s1 where i: "install_service e pb t p bin force s = (r, s1)" by fastforce
  note ends = install_service_ends [where e = e and pb = pb and t = t and p = p and bin = bin and force = force and s = s, unfolded i]
  show ?thesis
  proof (cases "bin = []")
    case True
    then show ?thesis by (simp add: service_install_command_def bin_def [symmetric])
  next
    case False
    then have src: "managed_path (home_dir e) d (tl_name t) = Some bin
        \<or> managed_path (home_dir e) d (tl_name t) = None \<and> tl_name t = ''lezz'' \<and> exe = Some bin"
      by (auto simp: bin_def resolve_bin_path_def split: option.splits if_splits)
    have c: "service_install_command e pb d exe t p force s = (if is_ok r then 0 else 1, s1)"
      using False i by (simp add: service_install_command_def bin_def [symmetric])
    show ?thesis
    proof (cases r)
      case (Inl x)
      then have "s1 = s \<or> x = Not_Loaded (launchd_label (tl_name t) (dp_name p))" using ends by simp
      then show ?thesis using Inl i by (auto simp: c)
    next
      case (Inr ns)
      then obtain text' where "map_of (la_files s1) (plist_name (launchd_label (tl_name t) (dp_name p))) = Some text'"
        "readable_service e t p bin \<Longrightarrow> read_program text' = Some (bin # dp_args p)"
        using ends by (auto simp: readable_service_def split: if_splits)
      then show ?thesis using Inr src by (auto simp: c)
    qed
  qed
qed

section \<open>The purge\<close>

text \<open>The module cache: its directories. A match of \<open>prefix*\<close> is one path element behind the prefix.\<close>

definition glob_star :: "string \<Rightarrow> string list \<Rightarrow> string list" where
  "glob_star prefix dirs = sort (filter (\<lambda>d. has_prefix d prefix \<and> CHR ''/'' \<notin> set (drop (length prefix) d)) dirs)"

definition module_prefix :: "string \<Rightarrow> tool \<Rightarrow> string" where
  "module_prefix cache t = join_path [cache, ''github.com'', tl_slug t @ ''@'']"

definition remove_tree :: "string \<Rightarrow> string list \<Rightarrow> string list" where
  "remove_tree m dirs = filter (\<lambda>d. d \<noteq> m \<and> \<not> has_prefix d (m @ ''/'')) dirs"

text \<open>\<open>stuck\<close> are the directories whose modes cannot be changed or that cannot be removed.\<close>

fun remove_modules :: "(string \<Rightarrow> bool) \<Rightarrow> string list \<Rightarrow> string list \<Rightarrow> string list \<times> string list" where
  "remove_modules stuck [] dirs = ([], dirs)"
| "remove_modules stuck (m # ms) dirs =
     (if stuck m then remove_modules stuck ms dirs
      else (let (gone, dirs1) = remove_modules stuck ms (remove_tree m dirs) in (m # gone, dirs1)))"

fun purge_modules :: "(string \<Rightarrow> bool) \<Rightarrow> string \<Rightarrow> tool list \<Rightarrow> string list \<Rightarrow> string list \<times> string list" where
  "purge_modules stuck cache [] dirs = ([], dirs)"
| "purge_modules stuck cache (t # ts) dirs =
     (if tl_name t = ''lezz'' \<or> tl_slug t = [] then purge_modules stuck cache ts dirs
      else
        (let (gone, dirs1) = remove_modules stuck (glob_star (module_prefix cache t) dirs) dirs;
             (more_gone, dirs2) = purge_modules stuck cache ts dirs1 in
         (gone @ more_gone, dirs2)))"

text \<open>\<open>env\<close> is what \<open>go env GOMODCACHE\<close> prints.\<close>

definition purge_mod_cache :: "(string \<Rightarrow> bool) \<Rightarrow> string option \<Rightarrow> string list \<Rightarrow> string list \<times> string list" where
  "purge_mod_cache stuck env dirs =
     (case env of
        None \<Rightarrow> ([], dirs)
      | Some out \<Rightarrow> if trim_space out = [] then ([], dirs) else purge_modules stuck (trim_space out) tool_registry dirs)"

record 'b purge_world =
  pg_services :: launchd
  pg_bins :: "'b bin_dir"
  pg_builds :: "string list"
  pg_modules :: "string list"

record purge_env =
  pe_services :: service_env
  pe_stuck :: "string \<Rightarrow> bool"
  pe_cleans :: bool
  pe_mod_cache :: "string option"
  pe_stuck_dirs :: "string \<Rightarrow> bool"

definition purge_command :: "purge_env \<Rightarrow> 'b purge_world \<Rightarrow> nat \<times> 'b purge_world" where
  "purge_command v w =
     (let s1 = (case list_services (pe_services v) (pg_services w) of
                  Inl _ \<Rightarrow> pg_services w
                | Inr is \<Rightarrow> if is = [] then pg_services w else snd (purge_all (pe_services v) (pg_services w)));
          w1 = w\<lparr>pg_services := s1\<rparr> in
      if tool_bin_dir (home_dir (pe_services v)) = None then (1, w1)
      else
        (case purge_bins (pe_stuck v) (pg_bins w1) of
           (Inl _, d) \<Rightarrow> (1, w1\<lparr>pg_bins := d\<rparr>)
         | (Inr _, d) \<Rightarrow>
             (let w2 = w1\<lparr>pg_bins := d, pg_builds := (if pe_cleans v then [] else pg_builds w1)\<rparr> in
              (0, w2\<lparr>pg_modules := snd (purge_mod_cache (pe_stuck_dirs v) (pe_mod_cache v) (pg_modules w2))\<rparr>))))"

definition managed_module :: "string \<Rightarrow> string \<Rightarrow> bool" where
  "managed_module cache d \<longleftrightarrow> list_ex (\<lambda>t. has_prefix d (module_prefix cache t)) other_tools"

lemma remove_modules_within:
  "remove_modules stuck ms dirs = (gone, dirs') \<Longrightarrow> set dirs' \<subseteq> set dirs
    \<and> (\<forall>d \<in> set dirs - set dirs'. \<exists>m \<in> set ms. has_prefix d m)"
proof (induction ms arbitrary: dirs gone dirs')
  case (Cons m ms)
  show ?case
  proof (cases "stuck m")
    case True
    then show ?thesis using Cons by (auto split: prod.splits)
  next
    case False
    then obtain gone1 where 1: "remove_modules stuck ms (remove_tree m dirs) = (gone1, dirs')"
      using Cons.prems by (auto split: prod.splits)
    have "has_prefix d m" if "d \<in> set dirs" "d \<notin> set (remove_tree m dirs)" for d
      using that by (auto simp: remove_tree_def has_prefix_iff)
    then show ?thesis using Cons.IH [OF 1] by (auto simp: remove_tree_def)
  qed
qed simp

lemma has_prefix_trans: "has_prefix d m \<Longrightarrow> has_prefix m p \<Longrightarrow> has_prefix d p"
  by (auto simp: has_prefix_iff)

lemma purge_modules_within:
  "purge_modules stuck cache ts dirs = (gone, dirs') \<Longrightarrow> set dirs' \<subseteq> set dirs
    \<and> (\<forall>d \<in> set dirs - set dirs'. \<exists>t \<in> set ts. tl_name t \<noteq> ''lezz'' \<and> has_prefix d (module_prefix cache t))"
proof (induction stuck cache ts dirs arbitrary: gone dirs' rule: purge_modules.induct)
  case (2 stuck cache t ts dirs)
  show ?case
  proof (cases "tl_name t = ''lezz'' \<or> tl_slug t = []")
    case True
    then show ?thesis using 2 by auto
  next
    case False
    obtain gone1 dirs1 where 1: "remove_modules stuck (glob_star (module_prefix cache t) dirs) dirs = (gone1, dirs1)" by fastforce
    obtain gone2 where q: "purge_modules stuck cache ts dirs1 = (gone2, dirs')"
      using False 1 2(3) by (auto split: prod.splits)
    have "set dirs' \<subseteq> set dirs1
        \<and> (\<forall>d \<in> set dirs1 - set dirs'. \<exists>t \<in> set ts. tl_name t \<noteq> ''lezz'' \<and> has_prefix d (module_prefix cache t))"
      using 2(2) [OF False 1 [symmetric] refl q] .
    moreover have "has_prefix d (module_prefix cache t)" if "d \<in> set dirs - set dirs1" for d
      using remove_modules_within [OF 1] that has_prefix_trans by (fastforce simp: glob_star_def)
    ultimately show ?thesis using remove_modules_within [OF 1] False by auto
  qed
qed simp

text \<open>
  C20: a purge is confined: lezz stays, of the services only the lists of lezz may change, of the module
  cache only directories of the other tools; when it reports success none of the other tools is left,
  and when it fails neither cache was touched.
\<close>

theorem purge_is_confined:
  "case purge_command v w of (st, w') \<Rightarrow>
     map_of (pg_bins w') ''lezz'' = map_of (pg_bins w) ''lezz''
     \<and> not_ours (la_files (pg_services w')) = not_ours (la_files (pg_services w))
     \<and> set (pg_modules w') \<subseteq> set (pg_modules w)
     \<and> list_all (\<lambda>d. if d \<in> set (pg_modules w') then True
          else (case pe_mod_cache v of None \<Rightarrow> False | Some c \<Rightarrow> managed_module (trim_space c) d)) (pg_modules w)
     \<and> (if st = 0 then list_all (\<lambda>t. map_of (pg_bins w') (tl_name t) = None) other_tools
        else pg_modules w' = pg_modules w \<and> pg_builds w' = pg_builds w)"
proof -
  define s1 where "s1 = (case list_services (pe_services v) (pg_services w) of Inl _ \<Rightarrow> pg_services w
      | Inr is \<Rightarrow> if is = [] then pg_services w else snd (purge_all (pe_services v) (pg_services w)))"
  have s: "not_ours (la_files s1) = not_ours (la_files (pg_services w))"
    using purge_all_ends [where e = "pe_services v" and s = "pg_services w"] by (auto simp: s1_def split: sum.splits prod.splits)
  obtain q d where b: "purge_bins (pe_stuck v) (pg_bins w) = (q, d)" by fastforce
  have "distinct (map tl_name tool_registry)" by (simp add: tool_registry_def)
  from purge_each_ends [OF b [unfolded purge_bins_def] this]
  have d: "map_of d ''lezz'' = map_of (pg_bins w) ''lezz''"
    "is_ok q \<Longrightarrow> list_all (\<lambda>t. map_of d (tl_name t) = None) other_tools"
    by (auto simp: other_tools_def list_all_iff is_ok_iff)
  obtain gone dirs where m: "purge_mod_cache (pe_stuck_dirs v) (pe_mod_cache v) (pg_modules w) = (gone, dirs)" by fastforce
  have ms: "set dirs \<subseteq> set (pg_modules w)
    \<and> list_all (\<lambda>d. if d \<in> set dirs then True
          else (case pe_mod_cache v of None \<Rightarrow> False | Some c \<Rightarrow> managed_module (trim_space c) d)) (pg_modules w)"
  proof (cases "pe_mod_cache v = None \<or> trim_space (the (pe_mod_cache v)) = []")
    case True
    then have "dirs = pg_modules w" using m by (auto simp: purge_mod_cache_def split: option.splits)
    then show ?thesis by (simp add: list_all_iff)
  next
    case False
    then obtain c where c: "pe_mod_cache v = Some c" by auto
    then have "purge_modules (pe_stuck_dirs v) (trim_space c) tool_registry (pg_modules w) = (gone, dirs)"
      using m False by (simp add: purge_mod_cache_def)
    from purge_modules_within [OF this] show ?thesis
      using c by (auto simp: list_all_iff managed_module_def list_ex_iff other_tools_def)
  qed
  show ?thesis
  proof (cases "tool_bin_dir (home_dir (pe_services v)) = None")
    case True
    then show ?thesis using s by (simp add: purge_command_def s1_def [symmetric] list_all_iff Let_def)
  next
    case False
    show ?thesis
      using False s d b m ms by (cases q) (simp_all add: purge_command_def s1_def [symmetric] list_all_iff Let_def)
  qed
qed

section \<open>The table of versions\<close>

text \<open>What a binary prints for \<open>-v\<close>, when it ran.\<close>

definition tool_version_text :: "string option \<Rightarrow> string" where
  "tool_version_text out = (case out of None \<Rightarrow> ''unknown'' | Some s \<Rightarrow> if trim_space s = [] then ''unknown'' else trim_space s)"

definition daemon_entries :: "service_info list \<Rightarrow> string \<Rightarrow> string list" where
  "daemon_entries is name =
     List.map_filter (\<lambda>i. case parse_label (sv_label i) of
        None \<Rightarrow> None
      | Some (t, p) \<Rightarrow> if t = name then Some (p @ (if sv_running i then '' (running)'' else '' (stopped)'')) else None) is"

definition version_row ::
    "string \<Rightarrow> string option \<Rightarrow> 'b bin_dir \<Rightarrow> (string \<Rightarrow> string option) \<Rightarrow> service_info list \<Rightarrow> tool \<Rightarrow> string \<times> string \<times> string" where
  "version_row own home d ask is t =
     (tl_name t,
      (if tl_name t = ''lezz'' then own
       else (case managed_path home d (tl_name t) of None \<Rightarrow> ''not installed'' | Some p \<Rightarrow> tool_version_text (ask p))),
      (if daemon_entries is (tl_name t) = [] then ''not configured'' else join '', '' (daemon_entries is (tl_name t))))"

definition version_table ::
    "string \<Rightarrow> service_env \<Rightarrow> launchd \<Rightarrow> 'b bin_dir \<Rightarrow> (string \<Rightarrow> string option) \<Rightarrow> (string \<times> string \<times> string) list" where
  "version_table own e s d ask =
     (let is = (case list_services e s of Inl _ \<Rightarrow> [] | Inr is \<Rightarrow> is) in
      map (version_row own (home_dir e) d ask is) tool_registry)"

section \<open>Running a tool\<close>

text \<open>\<open>ends\<close> is how the process that was started ends: \<open>None\<close> when it could not be started.\<close>

definition run_command_line :: "string option \<Rightarrow> 'b bin_dir \<Rightarrow> (string \<Rightarrow> string option) \<Rightarrow> (string list \<Rightarrow> bool) \<Rightarrow> string \<Rightarrow> string list \<Rightarrow> nat option" where
  "run_command_line home d look_path execs name args =
     (case tool_argv home d look_path name args of
        Inl _ \<Rightarrow> Some 1
      | Inr argv \<Rightarrow> if execs argv then None else Some 1)"

definition start_command_line :: "string option \<Rightarrow> 'b bin_dir \<Rightarrow> (string \<Rightarrow> string option) \<Rightarrow> (string list \<Rightarrow> bool option) \<Rightarrow> string \<Rightarrow> string list \<Rightarrow> nat" where
  "start_command_line home d look_path waits name args =
     (case tool_argv home d look_path name args of
        Inl _ \<Rightarrow> 1
      | Inr argv \<Rightarrow> (case waits argv of Some True \<Rightarrow> 0 | _ \<Rightarrow> 1))"

end
