(* ===== verification/UserCommands.thy ===== *)
theory UserCommands
  imports CommandLine AnonSurface AtomicFile SeedRotation
begin

text \<open>
  What the commands about demo clusters, seeds, debug leases and the anonymous surface do
  (\<open>cmd/lezz/main.go\<close>): they compose the operations of DemoState, SeedRotation, DebugLease and AnonSurface
  and turn their outcomes into an exit status. What they print is left out, but for the command that
  stops a cluster just started.
\<close>

section \<open>Demo clusters\<close>

record demo_host =
  dh_getenv :: "string \<Rightarrow> string"
  dh_home :: "string option"
  dh_cwd :: "string option"
  dh_mkdir :: "string \<Rightarrow> bool"
  dh_alive :: "int \<Rightarrow> bool"
  dh_is_demo :: "int \<Rightarrow> bool"
  dh_found :: "int \<Rightarrow> bool"
  dh_signal :: signalled
  dh_gone :: "bool list"
  dh_free :: "int \<Rightarrow> bool"
  dh_exe :: "string option"
  dh_opened :: "string \<Rightarrow> bool"
  dh_spawn :: "string list \<Rightarrow> int option"
  dh_rounds :: "(bool \<times> demo_state option \<times> bool \<times> bool) list"

definition demo_dir_of :: "demo_host \<Rightarrow> string \<Rightarrow> (dir_err, string) res" where
  "demo_dir_of h = resolve_state_dir (dh_getenv h) (dh_home h) (dh_cwd h) (dh_mkdir h)"

definition start_demo :: "demo_host \<Rightarrow> demo_options \<Rightarrow> demo_dir \<Rightarrow> (start_err, demo_state) res \<times> demo_dir" where
  "start_demo h o' =
     start_detached (demo_dir_of h (op_state_dir o')) (dh_mkdir h) (dh_alive h) (dh_free h) (dh_exe h) (dh_opened h)
       (dh_spawn h) (dh_rounds h) o'"

definition demo_start_command :: "demo_host \<Rightarrow> demo_options \<Rightarrow> demo_dir \<Rightarrow> nat \<times> demo_dir" where
  "demo_start_command h o' d = (case start_demo h o' d of (r, d1) \<Rightarrow> (if is_ok r then 0 else 1, d1))"

definition stop_running :: "demo_host \<Rightarrow> demo_dir \<Rightarrow> (stop_err, unit) res \<times> demo_dir" where
  "stop_running h = stop_demo (dh_alive h) (dh_is_demo h) (dh_found h) (dh_signal h) (dh_gone h)"

definition demo_stop_command :: "demo_host \<Rightarrow> string \<Rightarrow> demo_dir \<Rightarrow> nat \<times> demo_dir" where
  "demo_stop_command h flag d =
     (case demo_dir_of h flag of
        Inl _ \<Rightarrow> (1, d)
      | Inr _ \<Rightarrow>
          (case running_state (dh_alive h) d of
             (None, d1) \<Rightarrow> (0, d1)
           | (Some _, d1) \<Rightarrow> (case stop_running h d1 of (r, d2) \<Rightarrow> (if is_ok r then 0 else 1, d2))))"

definition demo_status_command :: "demo_host \<Rightarrow> string \<Rightarrow> demo_dir \<Rightarrow> nat \<times> demo_dir" where
  "demo_status_command h flag d =
     (case demo_dir_of h flag of
        Inl _ \<Rightarrow> (1, d)
      | Inr _ \<Rightarrow> (case running_state (dh_alive h) d of (None, d1) \<Rightarrow> (1, d1) | (Some _, d1) \<Rightarrow> (0, d1)))"

datatype restarted = No_Directory dir_err | Not_Stopped stop_err | Started "(start_err, demo_state) res"

definition demo_restart_command :: "demo_host \<Rightarrow> demo_options \<Rightarrow> demo_dir \<Rightarrow> restarted \<times> demo_dir" where
  "demo_restart_command h o' d =
     (case demo_dir_of h (op_state_dir o') of
        Inl e \<Rightarrow> (No_Directory e, d)
      | Inr _ \<Rightarrow>
          (let (running, d1) = running_state (dh_alive h) d in
           case stop_running h d1 of
             (Inl e, d2) \<Rightarrow> (Not_Stopped e, d2)
           | (Inr _, d2) \<Rightarrow> (case start_demo h o' d2 of (r, d3) \<Rightarrow> (Started r, d3))))"

definition restart_status :: "restarted \<Rightarrow> nat" where
  "restart_status r = (case r of Started (Inr _) \<Rightarrow> 0 | _ \<Rightarrow> 1)"

definition state_dir_flag :: "demo_host \<Rightarrow> string \<Rightarrow> string" where
  "state_dir_flag h dir = (if dir = [] \<or> demo_dir_of h [] = Inr dir then [] else '' --state-dir '' @ dir)"

definition stop_hint :: "demo_host \<Rightarrow> string \<Rightarrow> string" where
  "stop_hint h dir = ''lezz demo stop'' @ state_dir_flag h dir"

lemma stopped_is_not_running:
  "stop_running h d = (Inr u, d') \<Longrightarrow> read_state d' = None"
  by (auto simp: stop_running_def stop_demo_def running_state_def remove_state_def read_state_def Let_def split: option.splits if_splits)

lemma await_child_errors: "await_child pid rs = Inl e \<Longrightarrow> e \<in> {Exited, Start_Timeout, Start_Cancelled}"
  by (induction rs) (auto split: if_splits option.splits)

lemma await_child_pid: "await_child pid rs = Inr s \<Longrightarrow> ds_pid s = pid"
  by (induction rs) (auto split: if_splits option.splits)


section \<open>The command that stops the cluster\<close>

lemma split_no_space: "CHR '' '' \<notin> set dir \<Longrightarrow> split_at (CHR '' '') (''lezz demo stop'' @ '' --state-dir '' @ dir)
    = [''lezz'', ''demo'', ''stop'', ''--state-dir'', dir]"
  by (simp add: split_at_no_sep)

text \<open>
  The command printed after a start reaches the cluster that was started: read back by the shell, it
  is a stop of the directory the cluster uses, as long as that has no space in it.
\<close>

theorem stop_hint_reaches_the_cluster:
  assumes "is_abs dir" "clean_path dir = dir" "dh_mkdir h dir" "CHR '' '' \<notin> set dir"
  shows "case decide e (split_at (CHR '' '') (stop_hint h dir)) of
      Perform (Demo_Stop flag) \<Rightarrow> demo_dir_of h flag = Inr dir | _ \<Rightarrow> False"
proof (cases "demo_dir_of h [] = Inr dir")
  case True
  then have "split_at (CHR '' '') (stop_hint h dir) = [''lezz'', ''demo'', ''stop'']"
    by (simp add: stop_hint_def state_dir_flag_def)
  then show ?thesis
    using True
    by (simp add: decide_def normalize_args_def dispatch_table_def cmd_demo_def demo_state_flags_def parse_or_help_def flags_of_def
        state_dir_flags_def no_positional_def text_flag_def has_prefix_def)
next
  case False
  have ne: "dir \<noteq> []" using assms(1) by auto
  have d: "\<not> has_prefix dir ''-''" using assms(1) by (auto simp: has_prefix_def is_abs_def)
  have s: "split_at (CHR '' '') (stop_hint h dir) = [''lezz'', ''demo'', ''stop'', ''--state-dir'', dir]"
    using False ne split_no_space [OF assms(4)] by (simp add: stop_hint_def state_dir_flag_def)
  have p: "\<not> has_prefix dir ''-psn_''" using assms(1) by (auto simp: has_prefix_def is_abs_def)
  have k: "kind_in state_dir_flags ''state-dir'' = Some Valued" by (simp add: kind_in_def state_dir_flags_def)
  have "decide e (split_at (CHR '' '') (stop_hint h dir)) = Perform (Demo_Stop dir)"
    unfolding s
    using d p k
    by (simp add: decide_def normalize_args_def dispatch_table_def cmd_demo_def demo_state_flags_def parse_or_help_def flags_of_def
        no_positional_def text_flag_def set_flag_def state_dir_flags_def has_prefix_def kind_in_def)
  moreover have "demo_dir_of h dir = Inr dir"
    using assms ne by (simp add: demo_dir_of_def resolve_state_dir_def abs_path_def and_then_def)
  ultimately show ?thesis by simp
qed

theorem stop_hint_reaches_the_cluster_witness:
  "case decide \<lparr>ce_getenv = \<lambda>_. [], ce_goos = ''linux'', ce_home = Some ''/h''\<rparr> (split_at (CHR '' '') (stop_hint
       \<lparr>dh_getenv = \<lambda>_. [], dh_home = Some ''/h'', dh_cwd = None, dh_mkdir = \<lambda>_. True, dh_alive = \<lambda>_. False, dh_is_demo = \<lambda>_. True,
        dh_found = \<lambda>_. True, dh_signal = Sent, dh_gone = [], dh_free = \<lambda>_. True, dh_exe = None, dh_opened = \<lambda>_. True,
        dh_spawn = \<lambda>_. None, dh_rounds = []\<rparr> ''/tmp/lab'')) of
      Perform (Demo_Stop flag) \<Rightarrow> demo_dir_of
       \<lparr>dh_getenv = \<lambda>_. [], dh_home = Some ''/h'', dh_cwd = None, dh_mkdir = \<lambda>_. True, dh_alive = \<lambda>_. False, dh_is_demo = \<lambda>_. True,
        dh_found = \<lambda>_. True, dh_signal = Sent, dh_gone = [], dh_free = \<lambda>_. True, dh_exe = None, dh_opened = \<lambda>_. True,
        dh_spawn = \<lambda>_. None, dh_rounds = []\<rparr> flag = Inr ''/tmp/lab'' | _ \<Rightarrow> False"
  by (rule stop_hint_reaches_the_cluster) (simp_all, code_simp)

section \<open>Seeds\<close>

text \<open>\<open>newID\<close>: the time and four random bytes; \<open>None\<close> when there are none.\<close>

definition hex_byte :: "nat \<Rightarrow> string" where
  "hex_byte b = [hex_digit (b div 16 mod 16), hex_digit (b mod 16)]"

definition new_id :: "time \<Rightarrow> nat list option \<Rightarrow> string option" where
  "new_id t random =
     (case random of
        None \<Rightarrow> None
      | Some bs \<Rightarrow>
          (let (y, m, d) = civil (nat (t div ns_per_day)); s = nat (t mod ns_per_day) div 1000000000 in
           Some (digits 4 y @ digits 2 m @ digits 2 d @ CHR ''T'' # digits 2 (s div 3600) @ digits 2 (s div 60 mod 60)
             @ digits 2 (s mod 60) @ CHR ''-'' # concat (map hex_byte bs))))"

definition project_name :: "string option \<Rightarrow> string \<Rightarrow> string" where
  "project_name cwd name =
     (if name \<noteq> [] then name
      else (case cwd of None \<Rightarrow> [] | Some w \<Rightarrow> if w = ''/'' then w else base_name w))"

text \<open>\<open>place\<close> is \<open>seed.json\<close>; \<open>None\<close> in the result is the exit status 0.\<close>

datatype init_err = No_Random | Seed_Exists | Bad_Seed_File seed_err | Seed_Not_Written

definition seed_init_command ::
    "time \<Rightarrow> nat list option \<Rightarrow> string option \<Rightarrow> flag_table \<Rightarrow> bool list \<Rightarrow> seed_file place \<Rightarrow> init_err option \<times> seed_file place" where
  "seed_init_command now random cwd fs faults place =
     (case new_id now random of
        None \<Rightarrow> (Some No_Random, place)
      | Some fresh \<Rightarrow>
          (let f = (new_seed fresh (project_name cwd (text_flag fs ''name'')) (text_flag fs ''surface''))\<lparr>sd_auth_ref := text_flag fs ''auth-ref''\<rparr> in
           if \<not> truth_flag fs ''force'' \<and> at_target place \<noteq> None then (Some Seed_Exists, place)
           else
             (case validate_seed f of
                Some x \<Rightarrow> (Some (Bad_Seed_File x), place)
              | None \<Rightarrow>
                  (let (ok, tr) = write_file_atomic Seed_File f faults place in
                   (if ok then None else Some Seed_Not_Written, ends_in place tr)))))"

lemma hex_digit_alnum: "n < 16 \<Longrightarrow> is_alnum (hex_digit n)"
  by (cases "n < 10") (simp_all add: hex_digit_def is_alnum_def is_letter_def is_digit_def digit_val_def Let_def)

lemma digits_id: "list_all id_char (digits w n)"
  using digits_are_digits by (auto simp: list_all_iff id_char_def is_alnum_def)

lemma hex_byte_id: "list_all id_char (hex_byte b)"
  using hex_digit_alnum [of "b div 16 mod 16"] hex_digit_alnum [of "b mod 16"] by (simp add: hex_byte_def id_char_def)

lemma new_id_accepted:
  assumes "new_id t random = Some i"
  shows "id_pattern i"
proof -
  obtain bs where bs: "random = Some bs" using assms by (auto simp: new_id_def split: option.splits)
  obtain y m d where c: "civil (nat (t div ns_per_day)) = (y, m, d)" by (metis prod_cases3)
  define s where "s = nat (t mod ns_per_day) div 1000000000"
  have i: "i = digits 4 y @ digits 2 m @ digits 2 d @ ''T'' @ digits 2 (s div 3600) @ digits 2 (s div 60 mod 60)
      @ digits 2 (s mod 60) @ ''-'' @ concat (map hex_byte bs)"
    using assms by (simp add: new_id_def bs c s_def Let_def)
  have "list_all id_char ''T''" "list_all id_char ''-''" by code_simp+
  moreover have "list_all id_char (concat (map hex_byte bs))" by (induction bs) (simp_all add: hex_byte_id)
  ultimately have "list_all id_char i" unfolding i list_all_append using digits_id by blast
  moreover have "i \<noteq> []" by (simp add: i)
  ultimately show ?thesis by (simp add: id_pattern_def)
qed

text \<open>
  \<open>seed init\<close> never replaces a seed that is there unless it is forced, a failure leaves what was
  there, and what it writes is a valid seed with a fresh routing id and the reference it was given.
\<close>

theorem seed_init_keeps_or_writes:
  "case seed_init_command now random cwd fs faults place of
     (Some e, place') \<Rightarrow> at_target place' = at_target place
   | (None, place') \<Rightarrow> (at_target place = None \<or> truth_flag fs ''force'')
       \<and> (\<exists>f fresh. at_target place' = Some (f, public_mode) \<and> validate_seed f = None \<and> new_id now random = Some fresh
            \<and> route f = fresh \<and> sd_auth_ref f = text_flag fs ''auth-ref'')"
proof (cases "new_id now random")
  case None
  then show ?thesis by (simp add: seed_init_command_def)
next
  case fresh: (Some fresh)
  define f where "f = (new_seed fresh (project_name cwd (text_flag fs ''name'')) (text_flag fs ''surface''))\<lparr>sd_auth_ref := text_flag fs ''auth-ref''\<rparr>"
  have route: "route f = fresh" using id_pattern_route [OF new_id_accepted [OF fresh]] by (simp add: f_def route_def new_seed_def)
  have ref: "sd_auth_ref f = text_flag fs ''auth-ref''" by (simp add: f_def)
  obtain ok tr where w: "write_file_atomic Seed_File f faults place = (ok, tr)" by fastforce
  have new: "at_target (ends_in place tr) = Some (f, public_mode)" if "ok"
    using writer_success [of Seed_File f faults place] w that by (simp add: writer_mode_def)
  have old: "at_target (ends_in place tr) = at_target place" if "\<not> ok"
    using failed_write_is_old [of Seed_File f faults place] w that by simp
  show ?thesis
    using fresh w new old route ref
    by (cases "at_target place") (auto simp: seed_init_command_def f_def [symmetric] split: option.splits)
qed

text \<open>\<open>see\<close>: how the reference of a seed resolves, and the clusters of its surface.\<close>

definition auth_state :: "(auth_err, bool) res \<Rightarrow> string" where
  "auth_state r = (case r of Inl _ \<Rightarrow> ''invalid'' | Inr True \<Rightarrow> ''present'' | Inr False \<Rightarrow> ''absent'')"

definition joinable :: "string \<Rightarrow> cluster_info list \<Rightarrow> cluster_info list" where
  "joinable surface cs = filter (\<lambda>c. ci_name c = surface \<or> has_prefix (ci_name c) (surface @ ''-'')) cs"

text \<open>\<open>seed\<close> is the seed as loaded, \<open>clusters\<close> what the registry of this machine lists.\<close>

definition see_command ::
    "seed_file option \<Rightarrow> (string \<Rightarrow> (auth_err, bool) res) \<Rightarrow> cluster_info list option \<Rightarrow> nat \<times> string \<times> cluster_info list" where
  "see_command seed auth clusters =
     (case seed of
        None \<Rightarrow> (1, [], [])
      | Some f \<Rightarrow> (0, auth_state (auth (sd_auth_ref f)), (case clusters of None \<Rightarrow> [] | Some cs \<Rightarrow> joinable (sd_surface f) cs)))"

section \<open>Debug leases\<close>

record key_world =
  kw_pins :: "(string, string) table"
  kw_keys :: key_dir

text \<open>What the machine does when keys are made or fetched.\<close>

record key_host =
  kh_net :: "string \<Rightarrow> (nat \<times> string option) option"
  kh_made :: bool
  kh_writes :: bool
  kh_gen :: "(string \<times> string) option"
  kh_chmod :: bool
  kh_dir :: string

definition default_key_path :: "key_host \<Rightarrow> string" where "default_key_path h = join_path [kh_dir h, ''debug_ed25519'']"
definition default_allowed :: "key_host \<Rightarrow> string" where "default_allowed h = join_path [kh_dir h, ''debug.allowed'']"

definition local_key :: "key_host \<Rightarrow> key_world \<Rightarrow> (lease_err, unit) res \<times> key_world" where
  "local_key h w =
     (case ensure_default_key (kh_gen h) (kh_made h) (kh_chmod h) (kh_writes h) (kw_keys w) of
        (r, d) \<Rightarrow> (r, w\<lparr>kw_keys := d\<rparr>))"

definition pinned_keys :: "key_host \<Rightarrow> string \<Rightarrow> bool \<Rightarrow> key_world \<Rightarrow> (lease_err, string) res \<times> key_world" where
  "pinned_keys h user refresh w =
     (case fetch_and_pin (kh_made h) (kh_net h) (kh_writes h) (kh_dir h) user refresh (kw_pins w) of
        (r, d) \<Rightarrow> (r, w\<lparr>kw_pins := d\<rparr>))"

text \<open>\<open>seed\<close> is the id of \<open>seed.json\<close> when that loads; \<open>sign\<close> signs with the key of a path. The lease and
  its signature are files beside each other.\<close>

datatype lease_cmd_err = No_Seed_Known | No_Key lease_err | Not_Leased lease_err

definition lease_command ::
    "key_host \<Rightarrow> time \<Rightarrow> string option \<Rightarrow> (json \<Rightarrow> string) \<Rightarrow> bool \<Rightarrow> bool
     \<Rightarrow> (string \<Rightarrow> string \<Rightarrow> string option \<Rightarrow> string option \<Rightarrow> bool \<times> string option) \<Rightarrow> flag_table
     \<Rightarrow> (string, string) table \<Rightarrow> key_world \<Rightarrow> (lease_cmd_err, unit) res \<times> (string, string) table \<times> key_world" where
  "lease_command h now seed render writes removable sign fs d w =
     (let flag = text_flag fs ''seed'' in
      case (if flag \<noteq> [] then Some flag else seed) of
        None \<Rightarrow> (Inl No_Seed_Known, d, w)
      | Some sid \<Rightarrow>
          (let (kr, w1) = (if text_flag fs ''key'' \<noteq> [] then (Inr (text_flag fs ''key''), w)
                 else (case local_key h w of (Inl e, w1) \<Rightarrow> (Inl e, w1) | (Inr _, w1) \<Rightarrow> (Inr (default_key_path h), w1))) in
           case kr of
             Inl e \<Rightarrow> (Inl (No_Key e), d, w1)
           | Inr key \<Rightarrow>
               (let l = new_lease sid (split_at (CHR '','') (text_flag fs ''actions'')) (span_flag fs ''ttl'') (text_flag fs ''signer'') now;
                    out = text_flag fs ''out'' in
                case next_do (write_lease render writes l out d) (\<lambda>_ d1. sign_lease (sign key) removable out d1) of
                  (Inl e, d2) \<Rightarrow> (Inl (Not_Leased e), d2, w1)
                | (Inr _, d2) \<Rightarrow> (Inr (), d2, w1))))"

lemma write_lease_Inr:
  "write_lease render ok l path d = (Inr u, d') \<Longrightarrow> validate_lease l = Inr ()
    \<and> (\<exists>j. encode_lease l = Some j \<and> d' = AList.update path (render j @ [CHR 0x0A]) d)"
  by (auto simp: write_lease_def split: sum.splits option.splits if_splits)

lemma sign_lease_Inr:
  "sign_lease sign removable path d = (Inr u, d') \<Longrightarrow> map_of d' path = map_of d path \<and> map_of d' (sig_path path) \<noteq> None"
  by (auto simp: sign_lease_def sig_path_def Let_def update_conv delete_conv split: prod.splits if_splits option.splits)

text \<open>
  A lease that the command reports as made is signed and valid: its file holds a lease for the seed
  that was asked for, or the one of the project, with only allowed actions and a window that is not
  empty and begins now; a window that is empty or an unknown action makes no file.
\<close>

theorem made_lease_is_valid:
  "case lease_command h now seed render writes removable sign fs d w of
     (Inl (Not_Leased (Bad_Action _)), d', _) \<Rightarrow> d' = d
   | (Inl (Not_Leased Bad_Window), d', _) \<Rightarrow> d' = d
   | (Inl _, _, _) \<Rightarrow> True
   | (Inr _, d', _) \<Rightarrow>
       \<exists>l j. encode_lease l = Some j \<and> map_of d' (text_flag fs ''out'') = Some (render j @ [CHR 0x0A])
         \<and> map_of d' (sig_path (text_flag fs ''out'')) \<noteq> None \<and> validate_lease l = Inr ()
         \<and> ls_not_before l = now \<and> ls_not_after l = now + span_flag fs ''ttl'' \<and> 0 < span_flag fs ''ttl''
         \<and> (if text_flag fs ''seed'' \<noteq> [] then ls_seed l = text_flag fs ''seed'' else seed = Some (ls_seed l))"
proof -
  define kw where "kw = (if text_flag fs ''key'' \<noteq> [] then (Inr (text_flag fs ''key''), w)
      else (case local_key h w of (Inl e, w1) \<Rightarrow> (Inl e, w1) | (Inr _, w1) \<Rightarrow> (Inr (default_key_path h), w1)))"
  obtain kr w1 where k: "kw = (kr, w1)" by fastforce
  define ids where "ids = (if text_flag fs ''seed'' \<noteq> [] then Some (text_flag fs ''seed'') else seed)"
  show ?thesis
  proof (cases ids)
    case None
    then show ?thesis by (simp add: lease_command_def ids_def [symmetric] Let_def)
  next
    case sid: (Some sid)
    show ?thesis
    proof (cases kr)
      case (Inl e)
      then show ?thesis using sid k by (simp add: lease_command_def ids_def [symmetric] kw_def [symmetric] Let_def)
    next
      case (Inr key)
      define l where "l = new_lease sid (split_at (CHR '','') (text_flag fs ''actions'')) (span_flag fs ''ttl'') (text_flag fs ''signer'') now"
      define out where "out = text_flag fs ''out''"
      obtain r d2 where n: "next_do (write_lease render writes l out d) (\<lambda>_ d1. sign_lease (sign key) removable out d1) = (r, d2)"
        by fastforce
      have c: "lease_command h now seed render writes removable sign fs d w
          = (case r of Inl e \<Rightarrow> (Inl (Not_Leased e), d2, w1) | Inr _ \<Rightarrow> (Inr (), d2, w1))"
        using sid k Inr n by (simp add: lease_command_def ids_def [symmetric] kw_def [symmetric] l_def [symmetric] out_def [symmetric] Let_def split: sum.splits)
      show ?thesis
      proof (cases r)
        case (Inl e)
        then have "d2 = d" if "e = Bad_Window \<or> (\<exists>a. e = Bad_Action a)"
          using n that
          by (auto simp: next_do_def write_lease_def sign_lease_def Let_def split: sum.splits option.splits if_splits prod.splits)
        then show ?thesis using Inl c by (auto split: lease_err.splits)
      next
        case r: (Inr u)
        obtain u1 d1 where 1: "write_lease render writes l out d = (Inr u1, d1)" "sign_lease (sign key) removable out d1 = (Inr u, d2)"
          using n r by (auto simp: next_do_Inr)
        obtain j where v: "validate_lease l = Inr ()" "encode_lease l = Some j" "d1 = AList.update out (render j @ [CHR 0x0A]) d"
          using write_lease_Inr [OF 1(1)] by blast
        have m: "map_of d2 out = Some (render j @ [CHR 0x0A])" "map_of d2 (sig_path out) \<noteq> None"
          using sign_lease_Inr [OF 1(2)] v(3) by (simp_all add: update_conv)
        have t: "0 < span_flag fs ''ttl''" using v(1) by (simp add: validate_lease_Inr l_def new_lease_def)
        have i: "if text_flag fs ''seed'' \<noteq> [] then ls_seed l = text_flag fs ''seed'' else seed = Some (ls_seed l)"
          using sid by (auto simp: ids_def l_def new_lease_def split: if_splits)
        show ?thesis
          unfolding c r sum.case prod.case
          by (intro exI [of _ l] exI [of _ j] conjI i t v m [unfolded out_def] v(2)) (simp_all add: l_def new_lease_def)
      qed
    qed
  qed
qed

section \<open>The anonymous surface\<close>

definition github_user :: "string \<Rightarrow> string" where "github_user signer = trim_prefix signer ''github:''"

text \<open>The file of allowed signers and the identity a lease is checked against.\<close>

definition anon_trust :: "key_host \<Rightarrow> flag_table \<Rightarrow> key_world \<Rightarrow> (lease_err, string \<times> string) res \<times> key_world" where
  "anon_trust h fs w =
     (let leased = (text_flag fs ''lease'' \<noteq> []); allowed = text_flag fs ''allowed-signers''; signer = text_flag fs ''signer'';
          identity = text_flag fs ''identity''; github = has_prefix signer ''github:'' in
      next_do
        (if leased \<and> allowed = [] then
           (if github then
              (case pinned_keys h (github_user signer) False w of
                 (Inr path, w1) \<Rightarrow> (Inr (path, github_user signer), w1)
               | (Inl _, w1) \<Rightarrow> next_do (local_key h w1) (\<lambda>_ w2. (Inr (default_allowed h, ''local''), w2)))
            else next_do (local_key h w) (\<lambda>_ w1. (Inr (default_allowed h, if identity = [] then ''local'' else identity), w1)))
         else (Inr (allowed, identity), w))
        (\<lambda>(file, who) w1.
          (Inr (file, if leased \<and> who = [] then (if github then github_user signer else ''local'') else who), w1)))"

definition anon_config_of :: "flag_table \<Rightarrow> string option \<Rightarrow> string \<Rightarrow> anon_config" where
  "anon_config_of fs seed who =
     new_anon \<lparr>ac_name = text_flag fs ''name'', ac_listen = text_flag fs ''listen'', ac_socket = text_flag fs ''debug-socket'',
       ac_lease_path = text_flag fs ''lease'', ac_identity = who,
       ac_seed = (if text_flag fs ''seed'' \<noteq> [] then text_flag fs ''seed'' else (case seed of None \<Rightarrow> [] | Some s \<Rightarrow> s))\<rparr>"

definition anon_command :: "key_host \<Rightarrow> flag_table \<Rightarrow> string option \<Rightarrow> key_world \<Rightarrow> (lease_err, string \<times> anon_config) res \<times> key_world" where
  "anon_command h fs seed w =
     next_do (anon_trust h fs w) (\<lambda>(file, who) w1. (Inr (file, anon_config_of fs seed who), w1))"

lemma local_key_pins: "local_key h w = (r, w') \<Longrightarrow> kw_pins w' = kw_pins w"
  by (auto simp: local_key_def split: prod.splits)

lemma pinned_keys_keys: "pinned_keys h u f w = (r, w') \<Longrightarrow> kw_keys w' = kw_keys w \<and> (case r of Inr p \<Rightarrow> p = pin_path (kh_dir h) u | Inl _ \<Rightarrow> True)"
  by (auto simp: pinned_keys_def fetch_and_pin_def Let_def split: prod.splits sum.splits if_splits)

text \<open>
  The trust of the anonymous surface: without a lease no key is made, fetched or pinned; with one
  the signatures are checked against the file that was given, the pinned keys of the named GitHub user
  under that user, or the local key, and never without an identity unless the GitHub user is unnamed.
\<close>

theorem anonymous_trust_root:
  "case anon_command h fs seed w of
     (Inl _, _) \<Rightarrow> \<not> (text_flag fs ''lease'' = [])
   | (Inr (file, c), w') \<Rightarrow>
       (if text_flag fs ''lease'' = [] then w' = w \<and> ac_lease_path c = []
        else if text_flag fs ''allowed-signers'' \<noteq> [] then w' = w \<and> file = text_flag fs ''allowed-signers''
        else (case (has_prefix (text_flag fs ''signer'') ''github:'', file = default_allowed h) of
            (False, _) \<Rightarrow> file = default_allowed h \<and> kw_pins w' = kw_pins w \<and> ac_identity c \<noteq> []
          | (True, True) \<Rightarrow> True
          | (True, False) \<Rightarrow> file = pin_path (kh_dir h) (github_user (text_flag fs ''signer''))
              \<and> ac_identity c = github_user (text_flag fs ''signer'') \<and> kw_keys w' = kw_keys w))"
proof -
  have same: "ac_identity (new_anon c) = ac_identity c" "ac_lease_path (new_anon c) = ac_lease_path c" for c
    by (simp_all add: new_anon_def Let_def)
  define leased where "leased \<longleftrightarrow> text_flag fs ''lease'' \<noteq> []"
  define user where "user = github_user (text_flag fs ''signer'')"
  have con: "ac_identity (anon_config_of fs seed x) = x" "ac_lease_path (anon_config_of fs seed x) = text_flag fs ''lease''" for x
    by (simp_all add: anon_config_of_def same)
  consider (none) "\<not> leased" | (given) "leased" "text_flag fs ''allowed-signers'' \<noteq> []"
    | (github) "leased" "text_flag fs ''allowed-signers'' = []" "has_prefix (text_flag fs ''signer'') ''github:''"
    | (own) "leased" "text_flag fs ''allowed-signers'' = []" "\<not> has_prefix (text_flag fs ''signer'') ''github:''"
    by blast
  then show ?thesis
  proof cases
    case none
    then show ?thesis by (simp add: anon_command_def anon_trust_def leased_def con Let_def)
  next
    case given
    then show ?thesis by (simp add: anon_command_def anon_trust_def leased_def Let_def)
  next
    case own
    obtain r w1 where "local_key h w = (r, w1)" by fastforce
    then show ?thesis
      using own local_key_pins [of h w r w1] by (cases r) (simp_all add: anon_command_def anon_trust_def leased_def con Let_def)
  next
    case github
    obtain r w1 where p: "pinned_keys h user False w = (r, w1)" by fastforce
    show ?thesis
    proof (cases r)
      case (Inr path)
      then show ?thesis
        using github p pinned_keys_keys [OF p]
        by (simp add: anon_command_def anon_trust_def leased_def user_def con Let_def split: bool.splits)
    next
      case (Inl e)
      obtain q w2 where "local_key h w1 = (q, w2)" by fastforce
      then show ?thesis
        using github p Inl by (cases q) (simp_all add: anon_command_def anon_trust_def leased_def user_def con Let_def)
    qed
  qed
qed

text \<open>An identity that was asked for is dropped when the keys of a GitHub user are used.\<close>

lemma identity_is_dropped:
  "text_flag fs ''lease'' \<noteq> [] \<Longrightarrow> text_flag fs ''allowed-signers'' = [] \<Longrightarrow> has_prefix (text_flag fs ''signer'') ''github:'' \<Longrightarrow>
    pinned_keys h (github_user (text_flag fs ''signer'')) False w = (Inr p, w1) \<Longrightarrow> github_user (text_flag fs ''signer'') \<noteq> [] \<Longrightarrow>
    anon_trust h fs w = (Inr (p, github_user (text_flag fs ''signer'')), w1)"
  by (simp add: anon_trust_def Let_def)

end
