(* ===== verification/AccountCommands.thy ===== *)
theory AccountCommands
  imports CommandLine GithubAuth WorkspaceAgent AppBundle SeaInstall
begin

text \<open>
  What the commands about signing in, editor agents, the application bundle and the dashboard do
  (\<open>cmd/lezz/main.go\<close>): they compose the operations of GithubAuth, AgentSettings, WorkspaceAgent, AppBundle
  and SeaInstall. What they print is left out.
\<close>

section \<open>Signing in\<close>

definition github_client_id :: "string \<Rightarrow> string \<Rightarrow> string \<Rightarrow> string" where
  "github_client_id flag env built =
     (if flag \<noteq> [] then flag else if trim_space env \<noteq> [] then trim_space env else built)"

definition store_kind_for :: "string \<Rightarrow> gh_record option \<Rightarrow> string" where
  "store_kind_for flag rec =
     (if flag \<noteq> [] \<and> flag \<noteq> ''auto'' then flag
      else (case rec of Some r \<Rightarrow> if has_prefix (gr_store_kind r) ''file'' then ''file'' else ''auto'' | None \<Rightarrow> ''auto''))"

text \<open>The machine, GitHub's answers (the device code, the polls, the identity of a token), and the
  client id of the build.\<close>

record 'k auth_host =
  au_kc :: "'k keychain_ops"
  au_darwin :: bool
  au_security :: bool
  au_readable :: bool
  au_removable :: bool
  au_client_env :: string
  au_client_built :: string
  au_post :: "string \<Rightarrow> string \<Rightarrow> device_code option"
  au_polls :: "token option option list"
  au_user :: "string \<Rightarrow> (int \<times> identity option) option"

datatype auth_cmd_err = No_App_Client | No_Store_Backend backend_err | Flow_Failed flow_err | Not_Kept gh_err

definition sign_in_command :: "'k auth_host \<Rightarrow> flag_table \<Rightarrow> time \<Rightarrow> 'k gh_world \<Rightarrow> (auth_cmd_err, gh_record) res \<times> 'k gh_world" where
  "sign_in_command h fs now w =
     (let client = github_client_id (text_flag fs ''client-id'') (au_client_env h) (au_client_built h) in
      if client = [] then (Inl No_App_Client, w)
      else
        (case new_store (au_darwin h) (au_security h) (text_flag fs ''store'') of
           Inl e \<Rightarrow> (Inl (No_Store_Backend e), w)
         | Inr b \<Rightarrow>
             (case and_then (start_device_flow (au_post h) client (text_flag fs ''scopes'')) (\<lambda>d.
                    and_then (fst (wait_for_token d (au_polls h))) (\<lambda>t.
                    and_then (fetch_identity (au_user h (tk_access t))) (\<lambda>i. Inr (t, i)))) of
                Inl e \<Rightarrow> (Inl (Flow_Failed e), w)
              | Inr (t, i) \<Rightarrow>
                  (case save_at (au_kc h) b now t i w of
                     (Inl e, w1) \<Rightarrow> (Inl (Not_Kept e), w1)
                   | (Inr r, w1) \<Rightarrow> (Inr r, w1)))))"

datatype auth_status = Signed_Out | Status_Failed | Signed_In gh_record "(gh_err, identity) res"

definition status_command :: "'k auth_host \<Rightarrow> string \<Rightarrow> time \<Rightarrow> 'k gh_world \<Rightarrow> auth_status \<times> 'k gh_world" where
  "status_command h flag now w =
     (case load_record (au_readable h) w of
        Inl e \<Rightarrow> (if e = Not_Signed_In then Signed_Out else Status_Failed, w)
      | Inr r \<Rightarrow>
          (case new_store (au_darwin h) (au_security h) (store_kind_for flag (Some r)) of
             Inl _ \<Rightarrow> (Status_Failed, w)
           | Inr b \<Rightarrow>
               (case store_get (au_kc h) b (gr_service r) (gr_account r) w of
                  Inl e \<Rightarrow> (Signed_In r (Inl (Store_Err e)), w)
                | Inr t \<Rightarrow>
                    (case fetch_identity (au_user h t) of
                       Inl e \<Rightarrow> (Signed_In r (Inl (Not_Verified e)), w)
                     | Inr i \<Rightarrow>
                         (let r' = r\<lparr>gr_verified := Some now\<rparr> in (Signed_In r' (Inr i), snd (write_record r' w)))))))"

definition logout_command :: "'k auth_host \<Rightarrow> string \<Rightarrow> 'k gh_world \<Rightarrow> nat \<times> 'k gh_world" where
  "logout_command h flag w =
     (let rec = (case load_record (au_readable h) w of Inl _ \<Rightarrow> None | Inr r \<Rightarrow> Some r) in
      case new_store (au_darwin h) (au_security h) (store_kind_for flag rec) of
        Inl _ \<Rightarrow> (1, w)
      | Inr b \<Rightarrow> (case logout (au_kc h) b (au_removable h) w of (r, w1) \<Rightarrow> (if is_ok r then 0 else 1, w1)))"

lemma polled_token: "fst (poll_token i rs) = Inr t \<Longrightarrow> Some (Some t) \<in> set rs \<and> tk_access t \<noteq> []"
  by (induction i rs rule: poll_token.induct) (auto simp: split_beta Let_def split: if_splits)

lemma record_written: "write_file_atomic Github_Record x faults p = (True, tr) \<Longrightarrow> at_target (ends_in p tr) = Some (x, private_mode)"
  using writer_success [of Github_Record x faults p] by (simp add: writer_mode_def)

lemma save_at_Inr: "save_at kc b now t i w = (Inr r, w') \<Longrightarrow>
    gr_login r = id_login i \<and> gr_number r = id_number i \<and> gr_store_kind r = backend_kind b \<and> at_target (gw_record w') = Some (r, private_mode)"
  by (auto simp: save_at_def write_record_def Let_def dest!: record_written split: prod.splits sum.splits if_splits)

text \<open>
  C40: a sign-in keeps nothing unless GitHub granted a token in the flow and said who it belongs to: the
  record then names that user, and is in the store that was asked for; every other outcome leaves
  everything as it was, but for a store or a record that could not be written.
\<close>

theorem sign_in_keeps_only_granted:
  "case sign_in_command h fs now w of
     (Inl (Not_Kept _), _) \<Rightarrow> True
   | (Inl _, w') \<Rightarrow> w' = w
   | (Inr r, w') \<Rightarrow> at_target (gw_record w') = Some (r, private_mode)
       \<and> (\<exists>t i b. Some (Some t) \<in> set (au_polls h) \<and> tk_access t \<noteq> [] \<and> fetch_identity (au_user h (tk_access t)) = Inr i
            \<and> gr_login r = id_login i \<and> gr_number r = id_number i
            \<and> new_store (au_darwin h) (au_security h) (text_flag fs ''store'') = Inr b \<and> gr_store_kind r = backend_kind b)"
proof -
  define client where "client = github_client_id (text_flag fs ''client-id'') (au_client_env h) (au_client_built h)"
  define flow where "flow = and_then (start_device_flow (au_post h) client (text_flag fs ''scopes'')) (\<lambda>d.
      and_then (fst (wait_for_token d (au_polls h))) (\<lambda>t. and_then (fetch_identity (au_user h (tk_access t))) (\<lambda>i. Inr (t, i))))"
  show ?thesis
  proof (cases "client = [] \<or> \<not> is_ok (new_store (au_darwin h) (au_security h) (text_flag fs ''store'')) \<or> \<not> is_ok flow")
    case True
    then show ?thesis
      by (cases "new_store (au_darwin h) (au_security h) (text_flag fs ''store'')"; cases flow)
        (auto simp: sign_in_command_def client_def [symmetric] flow_def [symmetric] Let_def)
  next
    case False
    then obtain b t i where b: "new_store (au_darwin h) (au_security h) (text_flag fs ''store'') = Inr b" and f: "flow = Inr (t, i)"
      by (auto simp: is_ok_iff)
    obtain r w' where s: "save_at (au_kc h) b now t i w = (r, w')" by fastforce
    have g: "Some (Some t) \<in> set (au_polls h) \<and> tk_access t \<noteq> [] \<and> fetch_identity (au_user h (tk_access t)) = Inr i"
      using f polled_token by (auto simp: flow_def and_then_Inr wait_for_token_def)
    have c: "sign_in_command h fs now w = (case r of Inl e \<Rightarrow> (Inl (Not_Kept e), w') | Inr x \<Rightarrow> (Inr x, w'))"
      using False b f s by (simp add: sign_in_command_def client_def [symmetric] flow_def [symmetric] Let_def split: sum.splits)
    show ?thesis using g c b save_at_Inr [of "au_kc h" b now t i w] s by (cases r) auto
  qed
qed

section \<open>Editor agents\<close>

record agent_host =
  gt_tools :: agent_tools
  gt_env :: agent_env
  gt_file :: "string \<Rightarrow> bool"
  gt_look :: "string \<Rightarrow> string option"
  gt_var :: string

definition expand_user :: "string option \<Rightarrow> string \<Rightarrow> string" where
  "expand_user home p =
     (if p = ''~'' \<or> has_prefix p ''~/'' then
        (case home of None \<Rightarrow> p | Some h \<Rightarrow> if p = ''~'' then h else join_path [h, drop 2 p])
      else p)"

definition resolve_executable :: "agent_host \<Rightarrow> string \<Rightarrow> string option" where
  "resolve_executable h v = (if gt_file h v then Some v else gt_look h v)"

definition resolve_agent_command :: "agent_host \<Rightarrow> string \<Rightarrow> string option" where
  "resolve_agent_command h explicit =
     (if explicit \<noteq> [] then resolve_executable h explicit
      else if gt_var h \<noteq> [] then resolve_executable h (gt_var h)
      else
        (case tool_bin_dir (en_home (gt_env h)) of
           None \<Rightarrow> gt_look h ''workspace-agent''
         | Some b \<Rightarrow>
             (let p = join_path [b, ''workspace-agent''] in if gt_file h p then Some p else gt_look h ''workspace-agent'')))"

datatype setup_err = Agent_Not_Found | Agent_Not_Built agent_err | No_Root | Not_Wired edit_err

definition setup_binary :: "agent_host \<Rightarrow> flag_table \<Rightarrow> agent_command list \<Rightarrow> (setup_err, string) res \<times> agent_command list" where
  "setup_binary h fs cs =
     (case resolve_agent_command h (text_flag fs ''command'') of
        Some p \<Rightarrow> (Inr p, cs)
      | None \<Rightarrow>
          if truth_flag fs ''dry-run'' \<or> truth_flag fs ''no-build'' \<or> text_flag fs ''command'' \<noteq> [] \<or> gt_var h \<noteq> []
          then (Inl Agent_Not_Found, cs)
          else
            (case build_agent (gt_tools h) (gt_env h)
                    \<lparr>ag_source = expand_user (en_home (gt_env h)) (text_flag fs ''src''), ag_out = [], ag_no_fetch = False, ag_force = False\<rparr> cs of
               (Inl e, cs1) \<Rightarrow> (Inl (Agent_Not_Built e), cs1)
             | (Inr p, cs1) \<Rightarrow> (Inr p, cs1)))"

definition setup_root :: "agent_host \<Rightarrow> flag_table \<Rightarrow> string option" where
  "setup_root h fs =
     (if text_flag fs ''root'' \<noteq> [] then Some (text_flag fs ''root'')
      else map_option (\<lambda>hm. join_path [hm, ''.lezz'', ''workspaces'', text_flag fs ''session'']) (en_home (gt_env h)))"

definition setup_entry :: "flag_table \<Rightarrow> string \<Rightarrow> string \<Rightarrow> agent_entry" where
  "setup_entry fs bin root =
     \<lparr>ae_name = text_flag fs ''name'', ae_command = bin,
      ae_args = [''-driver'', ''tmpdir'', ''-root'', root, ''-session'', text_flag fs ''session'']
        @ (if text_flag fs ''spec'' \<noteq> [] then [''-spec'', text_flag fs ''spec''] else []), ae_env = []\<rparr>"

text \<open>\<open>base\<close> is the name of a backup beside the settings.\<close>

definition agent_setup_command ::
    "hu_ops \<Rightarrow> string \<Rightarrow> agent_host \<Rightarrow> flag_table \<Rightarrow> agent_command list \<Rightarrow> settings_world
     \<Rightarrow> (setup_err, edit_result) res \<times> agent_command list \<times> settings_world" where
  "agent_setup_command ops base h fs cs w =
     (case setup_binary h fs cs of
        (Inl e, cs1) \<Rightarrow> (Inl e, cs1, w)
      | (Inr bin, cs1) \<Rightarrow>
          (case setup_root h fs of
             None \<Rightarrow> (Inl No_Root, cs1, w)
           | Some root \<Rightarrow>
               (case upsert ops base (truth_flag fs ''dry-run'') (setup_entry fs bin root) w of
                  (Inl e, w1) \<Rightarrow> (Inl (Not_Wired e), cs1, w1)
                | (Inr r, w1) \<Rightarrow> (Inr r, cs1, w1))))"

definition agent_remove_command :: "hu_ops \<Rightarrow> string \<Rightarrow> string \<Rightarrow> bool \<Rightarrow> bool \<Rightarrow> settings_world \<Rightarrow> nat \<times> settings_world" where
  "agent_remove_command ops base name dry yes w =
     (if \<not> yes \<and> \<not> dry then (1, w)
      else (case remove_agent ops base dry name w of (r, w1) \<Rightarrow> (if is_ok r then 0 else 1, w1)))"

definition agent_show_command :: "hu_ops \<Rightarrow> string \<Rightarrow> settings_world \<Rightarrow> nat \<times> agent_entry option" where
  "agent_show_command ops name w = (case show_agent ops name w of Inl _ \<Rightarrow> (1, None) | Inr e \<Rightarrow> (0, e))"

definition agent_build_command :: "agent_host \<Rightarrow> flag_table \<Rightarrow> agent_command list \<Rightarrow> nat \<times> agent_command list" where
  "agent_build_command h fs cs =
     (case build_agent (gt_tools h) (gt_env h)
             \<lparr>ag_source = expand_user (en_home (gt_env h)) (text_flag fs ''src''),
              ag_out = expand_user (en_home (gt_env h)) (text_flag fs ''out''), ag_no_fetch = truth_flag fs ''no-fetch'', ag_force = False\<rparr> cs of
        (r, cs1) \<Rightarrow> (if is_ok r then 0 else 1, cs1))"

lemma read_settings_same: "read_settings w = (r, w') \<Longrightarrow> zw_file w' = zw_file w \<and> zw_others w' = zw_others w"
  by (auto simp: read_settings_def split: prod.splits)

lemma dry_upsert: "upsert ops base True x w = (r, w') \<Longrightarrow> zw_file w' = zw_file w \<and> zw_others w' = zw_others w"
  using read_settings_same [of w]
  by (auto simp: upsert_def next_do_def apply_edit_def Let_def split: sum.splits prod.splits)

text \<open>
  \<open>agent setup\<close> builds nothing when a binary was named, by the flag or the environment, when it was
  told not to, or in a dry run, which changes no file either; the entry it writes starts the binary that
  was found, or the one it built.
\<close>

theorem setup_respects_what_was_named:
  "case agent_setup_command ops base h fs cs w of (r, cs', w') \<Rightarrow>
     (if text_flag fs ''command'' \<noteq> [] \<or> gt_var h \<noteq> [] \<or> truth_flag fs ''no-build'' \<or> truth_flag fs ''dry-run'' then cs' = cs else True)
     \<and> (if truth_flag fs ''dry-run'' then zw_file w' = zw_file w \<and> zw_others w' = zw_others w else True)
     \<and> (case r of
          Inl _ \<Rightarrow> True
        | Inr q \<Rightarrow> \<exists>bin root. upsert ops base (truth_flag fs ''dry-run'') (setup_entry fs bin root) w = (Inr q, w') \<and> setup_root h fs = Some root
            \<and> (if cs' = cs then True else output_path (en_home (gt_env h)) [] = Some bin)
            \<and> (case resolve_agent_command h (text_flag fs ''command'') of Some p \<Rightarrow> bin = p \<and> cs' = cs | None \<Rightarrow> True))"
proof -
  obtain q cs1 where b: "setup_binary h fs cs = (q, cs1)" by fastforce
  have named: "text_flag fs ''command'' \<noteq> [] \<or> gt_var h \<noteq> [] \<or> truth_flag fs ''no-build'' \<or> truth_flag fs ''dry-run'' \<Longrightarrow> cs1 = cs"
    using b by (auto simp: setup_binary_def split: option.splits if_splits)
  have found: "resolve_agent_command h (text_flag fs ''command'') = Some p \<Longrightarrow> q = Inr p \<and> cs1 = cs" for p
    using b by (simp add: setup_binary_def)
  have built: "output_path (en_home (gt_env h)) [] = Some bin" if "cs1 \<noteq> cs" "q = Inr bin" for bin
    using b that
    by (auto simp: setup_binary_def build_agent_def next_do_Inr Let_def split: option.splits if_splits prod.splits sum.splits)
  show ?thesis
  proof (cases q)
    case (Inl e)
    then show ?thesis using b named by (simp add: agent_setup_command_def)
  next
    case q: (Inr bin)
    show ?thesis
    proof (cases "setup_root h fs")
      case None
      then show ?thesis using b q named by (simp add: agent_setup_command_def)
    next
      case (Some root)
      obtain x w1 where u: "upsert ops base (truth_flag fs ''dry-run'') (setup_entry fs bin root) w = (x, w1)" by fastforce
      have dry: "truth_flag fs ''dry-run'' \<Longrightarrow> zw_file w1 = zw_file w \<and> zw_others w1 = zw_others w"
        using dry_upsert [of ops base "setup_entry fs bin root" w] u by simp
      show ?thesis
        using b q Some u named found built dry
        by (cases x; cases "resolve_agent_command h (text_flag fs ''command'')") (auto simp: agent_setup_command_def)
    qed
  qed
qed

lemma removal_needs_yes: "agent_remove_command ops base name False False w = (1, w)"
  by (simp add: agent_remove_command_def)

section \<open>The bundle\<close>

definition bundle_path :: "app_env \<Rightarrow> string \<Rightarrow> string option" where
  "bundle_path e flag = (let p = expand_user (ae_home e) flag in if p \<noteq> [] then Some p else default_app_path e)"

definition app_config_of :: "app_env \<Rightarrow> string \<Rightarrow> flag_table \<Rightarrow> bundle_config" where
  "app_config_of e version fs =
     \<lparr>bc_app_path = expand_user (ae_home e) (text_flag fs ''dest''), bc_name = text_flag fs ''name'', bc_bundle_id = text_flag fs ''bundle-id'',
      bc_version = version, bc_binary = expand_user (ae_home e) (text_flag fs ''bin''), bc_identity = text_flag fs ''identity'',
      bc_entitlements = expand_user (ae_home e) (text_flag fs ''entitlements''), bc_url_scheme = text_flag fs ''url-scheme'',
      bc_dock = truth_flag fs ''dock'', bc_force = truth_flag fs ''force''\<rparr>"

definition app_install_command :: "app_env \<Rightarrow> (string \<Rightarrow> 'b) \<Rightarrow> string \<Rightarrow> flag_table \<Rightarrow> 'b app_world \<Rightarrow> nat \<times> 'b app_world" where
  "app_install_command e content version fs w =
     (case install_app e content (app_config_of e version fs) w of (r, w1) \<Rightarrow> (if is_ok r then 0 else 1, w1))"

text \<open>\<open>launch\<close> runs \<open>open\<close> with its arguments.\<close>

definition app_open_command :: "app_env \<Rightarrow> (string list \<Rightarrow> bool) \<Rightarrow> flag_table \<Rightarrow> string list \<Rightarrow> nat" where
  "app_open_command e launch fs args =
     (case bundle_path e (text_flag fs ''app'') of
        None \<Rightarrow> 1
      | Some p \<Rightarrow>
          if ae_goos e \<noteq> ''darwin'' then 1
          else if launch (launch_args p args (truth_flag fs ''wait'') (truth_flag fs ''new'')) then 0 else 1)"

definition app_uninstall_command :: "app_env \<Rightarrow> string \<Rightarrow> bool \<Rightarrow> 'b app_world \<Rightarrow> nat \<times> 'b app_world" where
  "app_uninstall_command e flag force w =
     (case bundle_path e flag of
        None \<Rightarrow> (1, w)
      | Some _ \<Rightarrow> (case uninstall_app e force w of (r, w1) \<Rightarrow> (if is_ok r then 0 else 1, w1)))"

text \<open>What \<open>app info\<close> prints of a signature, of the kind of the application and of its processes.\<close>

definition shown_signature :: "app_info \<Rightarrow> string" where
  "shown_signature i =
     (let s = (if ai_authority i \<noteq> [] then ai_authority i else ai_signature i); s1 = (if s = [] then ''unknown'' else s) in
      if ai_team i \<noteq> [] \<and> ai_team i \<noteq> ''not set'' then s1 @ '' (team '' @ ai_team i @ '')'' else s1)"

definition shown_processes :: "app_info \<Rightarrow> string" where
  "shown_processes i = (if ai_running i = [] then ''no'' else join '', '' (map dec_int (ai_running i)))"

section \<open>The dashboard\<close>

text \<open>The bundle at a path that was given is looked at as it is; \<open>launch\<close> and \<open>session\<close> say how the detached
  launch and the supervised session end (\<open>None\<close> when the session was cancelled, which is not an error).\<close>

record 'b sea_host =
  sh_goos :: string
  sh_home :: "string option"
  sh_net :: "string \<Rightarrow> net_reply"
  sh_decode :: "string \<Rightarrow> sea_manifest option"
  sh_sha :: "string \<Rightarrow> string"
  sh_tools :: "'b mac_tools"
  sh_running :: bool
  sh_at :: "string \<Rightarrow> 'b option"
  sh_pids :: "int list"
  sh_launch :: bool
  sh_session :: "bool option"

datatype 'b sea_outcome = Sea_Checked bool | Sea_Refused | Sea_Ready 'b | Sea_Opened 'b bool | Sea_Already_Running | Sea_Session 'b nat

definition sea_options :: "flag_table \<Rightarrow> install_options" where
  "sea_options fs = \<lparr>in_channel = text_flag fs ''channel'', in_force = truth_flag fs ''force'', in_allow_unnotarized = truth_flag fs ''allow-unnotarized''\<rparr>"

definition sea_bundle :: "'b sea_host \<Rightarrow> flag_table \<Rightarrow> 'b install_world \<Rightarrow> 'b option \<times> 'b install_world" where
  "sea_bundle h fs w =
     (let path = expand_user (sh_home h) (text_flag fs ''app'') in
      if path \<noteq> [] then (sh_at h path, w)
      else
        (case ensure_sea (sh_goos h) (sh_net h) (sh_decode h) (sh_sha h) (sh_tools h) (sh_running h) (sea_options fs) w of
           (Inl _, w1) \<Rightarrow> (None, w1)
         | (Inr q, w1) \<Rightarrow> (if ir_user q then iw_user w1 else iw_system w1, w1)))"

definition sea_command :: "'b sea_host \<Rightarrow> flag_table \<Rightarrow> 'b install_world \<Rightarrow> 'b sea_outcome \<times> 'b install_world" where
  "sea_command h fs w =
     (if truth_flag fs ''check'' then
        (let path = expand_user (sh_home h) (text_flag fs ''app'') in
         case (if path \<noteq> [] then Some (sh_at h path) else map_option (\<lambda>x. Some (snd x)) (installed_app w)) of
           None \<Rightarrow> (Sea_Checked True, w)
         | Some None \<Rightarrow> (Sea_Checked False, w)
         | Some (Some b) \<Rightarrow> (Sea_Checked (is_ok (inspect_bundle (sh_tools h) (truth_flag fs ''allow-unnotarized'') b)), w))
      else
        (case sea_bundle h fs w of
           (None, w1) \<Rightarrow> (Sea_Refused, w1)
         | (Some b, w1) \<Rightarrow>
             (if truth_flag fs ''install'' then (Sea_Ready b, w1)
              else if truth_flag fs ''open'' then (Sea_Opened b (sh_launch h), w1)
              else if sh_pids h \<noteq> [] then (Sea_Already_Running, w1)
              else if text_flag fs ''log'' = [] \<and> sh_home h = None then (Sea_Refused, w1)
              else (Sea_Session b (case sh_session h of Some False \<Rightarrow> 1 | _ \<Rightarrow> 0), w1))))"

definition sea_status :: "'b sea_outcome \<Rightarrow> nat" where
  "sea_status o' =
     (case o' of Sea_Checked ok \<Rightarrow> if ok then 0 else 1 | Sea_Refused \<Rightarrow> 1 | Sea_Ready _ \<Rightarrow> 0 | Sea_Opened _ ok \<Rightarrow> if ok then 0 else 1
      | Sea_Already_Running \<Rightarrow> 1 | Sea_Session _ n \<Rightarrow> n)"

definition handed_on :: "'b sea_outcome \<Rightarrow> 'b option" where
  "handed_on o' = (case o' of Sea_Ready b \<Rightarrow> Some b | Sea_Opened b _ \<Rightarrow> Some b | Sea_Session b _ \<Rightarrow> Some b | _ \<Rightarrow> None)"

text \<open>
  C5: the dashboard that \<open>sea\<close> opens or supervises was verified in that run, unless the user named the
  bundle to run; a check changes nothing.
\<close>

theorem sea_runs_only_verified:
  "case sea_command h fs w of (o', w') \<Rightarrow>
     (if truth_flag fs ''check'' then w' = w \<and> handed_on o' = None else True)
     \<and> (case handed_on o' of
          None \<Rightarrow> True
        | Some b \<Rightarrow>
            if expand_user (sh_home h) (text_flag fs ''app'') \<noteq> [] then sh_at h (expand_user (sh_home h) (text_flag fs ''app'')) = Some b
            else trusted (sh_tools h) (truth_flag fs ''allow-unnotarized'') b)"
proof (cases "truth_flag fs ''check''")
  case True
  then show ?thesis by (auto simp: sea_command_def handed_on_def Let_def split: option.splits)
next
  case False
  obtain bo w1 where s: "sea_bundle h fs w = (bo, w1)" by fastforce
  have b: "if expand_user (sh_home h) (text_flag fs ''app'') \<noteq> [] then sh_at h (expand_user (sh_home h) (text_flag fs ''app'')) = Some b
      else trusted (sh_tools h) (truth_flag fs ''allow-unnotarized'') b" if got: "bo = Some b" for b
  proof (cases "expand_user (sh_home h) (text_flag fs ''app'') \<noteq> []")
    case True
    then show ?thesis using s got by (simp add: sea_bundle_def)
  next
    case False
    obtain r w2 where e: "ensure_sea (sh_goos h) (sh_net h) (sh_decode h) (sh_sha h) (sh_tools h) (sh_running h) (sea_options fs) w = (r, w2)"
      by fastforce
    then obtain q where "r = Inr q" "(if ir_user q then iw_user w2 else iw_system w2) = Some b"
      using s got False by (cases r) (auto simp: sea_bundle_def)
    then have "trusted (sh_tools h) (truth_flag fs ''allow-unnotarized'') b"
      using ensure_sea_ends [OF e] by (simp add: sea_options_def)
    then show ?thesis using False by simp
  qed
  show ?thesis
  proof (cases bo)
    case None
    then show ?thesis using s False by (simp add: sea_command_def handed_on_def)
  next
    case (Some x)
    have "handed_on (fst (sea_command h fs w)) = None \<or> handed_on (fst (sea_command h fs w)) = Some x"
      using s False Some by (simp add: sea_command_def handed_on_def)
    then show ?thesis using b [OF Some] False by (auto split: prod.splits)
  qed
qed

end
