(* ===== verification/Site.thy ===== *)
theory Site
  imports Paths "HOL-Library.Multiset"
begin

text \<open>
  The generator of the documentation site (\<open>site/main.go\<close>, \<open>site/render.go\<close>): what each markdown file is
  published as, the navigation, the links between documents and the order of the writes. The markdown
  library and the templates are parameters: the links of a document, the HTML of a document with its
  links replaced, and the page a template gives.
\<close>

section \<open>Pages\<close>

record doc_page =
  sp_source :: string
  sp_out :: string
  sp_title :: string
  sp_section :: string
  sp_body :: string

definition path_split :: "string \<Rightarrow> string \<times> string" where
  "path_split p = (case cut_last (CHR ''/'') p of None \<Rightarrow> ([], p) | Some (d, f) \<Rightarrow> (d @ ''/'', f))"

definition page_path :: "string \<Rightarrow> string" where
  "page_path rel =
     (let (dir, file) = path_split rel in
      if lower file = ''readme.md'' then ''docs/'' @ dir @ ''index.html''
      else ''docs/'' @ trim_suffix rel ''.md'' @ ''.html'')"

definition section_of :: "string \<Rightarrow> string" where
  "section_of rel = (if CHR ''/'' \<in> set rel then ''Decisions'' else ''Guides'')"

definition title_of :: "string \<Rightarrow> string \<Rightarrow> string" where
  "title_of body rel =
     (case find (\<lambda>l. has_prefix l ''# '') (map trim_space (lines body)) of
        Some l \<Rightarrow> trim_space (drop 2 l)
      | None \<Rightarrow> trim_suffix (map (\<lambda>c. if c = CHR ''-'' then CHR '' '' else c) (base_name rel)) ''.md'')"

definition skipped_line :: "string \<Rightarrow> bool" where
  "skipped_line l \<longleftrightarrow> l = [] \<or> list_ex (has_prefix l) [''#'', ''|'', ''```'', ''-'', ''>'']"

fun without_stars :: "string \<Rightarrow> string" where
  "without_stars [] = []"
| "without_stars [c] = [c]"
| "without_stars (c # d # s) = (if c = CHR ''*'' \<and> d = CHR ''*'' then without_stars s else c # without_stars (d # s))"

text \<open>The UTF-8 form of the ellipsis.\<close>

definition ellipsis :: string where "ellipsis = [CHR 0xE2, CHR 0x80, CHR 0xA6]"

definition first_paragraph :: "string \<Rightarrow> string" where
  "first_paragraph body =
     (case find (\<lambda>l. \<not> skipped_line l) (map trim_space (lines body)) of
        None \<Rightarrow> ''Documentation for lezz, the lab orchestrator.''
      | Some l \<Rightarrow>
          (let t = without_stars (filter (\<lambda>c. c \<noteq> CHR ''`'') l) in
           if 160 < length t then trim_space (take 157 t) @ ellipsis else t))"

definition page_of :: "string \<Rightarrow> string \<Rightarrow> doc_page" where
  "page_of rel body =
     \<lparr>sp_source = rel, sp_out = page_path rel, sp_title = title_of body rel, sp_section = section_of rel, sp_body = body\<rparr>"

text \<open>The files of the tree in the order of the walk, each with its text when it can be read, and its
  directories.\<close>

record docs_tree =
  dt_files :: "(string \<times> string option) list"
  dt_dirs :: "string list"

datatype site_err =
    Docs_Not_Read string
  | No_Documents
  | No_Layout
  | Doc_Not_Rendered string
  | Landing_Not_Rendered
  | Page_Not_Rendered string
  | Not_Written_To string

fun load_files :: "(string \<times> string option) list \<Rightarrow> (site_err, doc_page list) res" where
  "load_files [] = Inr []"
| "load_files ((rel, body) # fs) =
     (if \<not> has_suffix (snd (path_split rel)) ''.md'' then load_files fs
      else
        (case body of
           None \<Rightarrow> Inl (Docs_Not_Read rel)
         | Some b \<Rightarrow> and_then (load_files fs) (\<lambda>ps. Inr (page_of rel b # ps))))"

definition load_docs :: "docs_tree \<Rightarrow> (site_err, doc_page list) res" where
  "load_docs t = load_files (dt_files t)"

section \<open>Navigation\<close>

record nav_item =
  nv_title :: string
  nv_url :: string

definition nav_order :: "string list" where "nav_order = [''Guides'', ''Decisions'']"

definition nav_items :: "doc_page list \<Rightarrow> string \<Rightarrow> string \<Rightarrow> nav_item list" where
  "nav_items pages base name =
     map (\<lambda>p. \<lparr>nv_title = sp_title p, nv_url = base @ sp_out p\<rparr>) (filter (\<lambda>p. sp_section p = name) pages)"

definition title_before :: "nav_item \<Rightarrow> nav_item \<Rightarrow> bool" where
  "title_before a b \<longleftrightarrow> lower (nv_title a) < lower (nv_title b)"

definition build_nav :: "doc_page list \<Rightarrow> string \<Rightarrow> (string \<times> nav_item list) list" where
  "build_nav pages base =
     map (\<lambda>n. (n, sort_slice title_before (nav_items pages base n))) (filter (\<lambda>n. nav_items pages base n \<noteq> []) nav_order)"

section \<open>Links\<close>

definition resolve_doc_link :: "docs_tree \<Rightarrow> string \<Rightarrow> string \<Rightarrow> string \<Rightarrow> string option" where
  "resolve_doc_link t base src_dir dest =
     (if dest = [] \<or> contains dest ''://'' \<or> has_prefix dest ''#'' \<or> has_prefix dest ''mailto:'' then None
      else
        (let target = takeWhile (\<lambda>c. c \<noteq> CHR ''#'') dest; frag = dropWhile (\<lambda>c. c \<noteq> CHR ''#'') dest in
         if \<not> has_suffix target ''.md'' then None
         else
           (let rel = clean_path (join_path [src_dir, target]) in
            if is_abs rel \<or> rel = ''..'' \<or> has_prefix rel ''../'' then None
            else if rel \<notin> set (map fst (dt_files t)) \<and> rel \<notin> set (dt_dirs t) then None
            else Some (base @ page_path rel @ frag))))"

definition rewrite_links :: "docs_tree \<Rightarrow> string \<Rightarrow> string \<Rightarrow> string list \<Rightarrow> string list" where
  "rewrite_links t base src_dir dests =
     map (\<lambda>d. case resolve_doc_link t base src_dir d of None \<Rightarrow> d | Some u \<Rightarrow> u) dests"

section \<open>The run\<close>

record page_data =
  pd_base :: string
  pd_version :: string
  pd_sections :: "(string \<times> nav_item list) list"
  pd_title :: string
  pd_description :: string
  pd_body_class :: string
  pd_current :: string
  pd_content :: string

definition is_current :: "page_data \<Rightarrow> string \<Rightarrow> bool" where
  "is_current p url \<longleftrightarrow> pd_current p \<noteq> [] \<and> url = pd_base p @ pd_current p"

text \<open>\<open>mk_render\<close> is the HTML of a text whose links have the given destinations.\<close>

record site_tools =
  mk_links :: "string \<Rightarrow> string list"
  mk_render :: "string \<Rightarrow> string list \<Rightarrow> string option"
  tp_layout :: "(page_data \<Rightarrow> string option) option"
  tp_landing :: "(page_data \<Rightarrow> string option) option"
  tp_static :: "(string \<times> string) list"

record site_out =
  so_files :: "(string, string) table"
  so_faults :: "bool list"

definition put_file :: "string \<Rightarrow> string \<Rightarrow> site_out \<Rightarrow> (site_err, unit) res \<times> site_out" where
  "put_file name text' w =
     (let (bad, fs) = next_fault (so_faults w) in
      if bad then (Inl (Not_Written_To name), w\<lparr>so_faults := fs\<rparr>)
      else (Inr (), w\<lparr>so_files := AList.update name text' (so_files w), so_faults := fs\<rparr>))"

definition write_page :: "(page_data \<Rightarrow> string option) \<Rightarrow> string \<Rightarrow> page_data \<Rightarrow> site_out \<Rightarrow> (site_err, unit) res \<times> site_out" where
  "write_page layout rel p w =
     (case layout p of None \<Rightarrow> (Inl (Page_Not_Rendered rel), w) | Some html \<Rightarrow> put_file rel html w)"

definition render_doc :: "site_tools \<Rightarrow> docs_tree \<Rightarrow> string \<Rightarrow> doc_page \<Rightarrow> string option" where
  "render_doc k t base p =
     mk_render k (sp_body p) (rewrite_links t base (clean_path (fst (path_split (sp_source p)))) (mk_links k (sp_body p)))"

definition dash :: string where "dash = '' '' @ [CHR 0xE2, CHR 0x80, CHR 0x94] @ '' ''"

definition page_data_of :: "site_tools \<Rightarrow> docs_tree \<Rightarrow> page_data \<Rightarrow> doc_page \<Rightarrow> (site_err, page_data) res" where
  "page_data_of k t site p =
     (case render_doc k t (pd_base site) p of
        None \<Rightarrow> Inl (Doc_Not_Rendered (sp_source p))
      | Some html \<Rightarrow>
          Inr (site\<lparr>pd_title := sp_title p @ dash @ ''lezz'', pd_description := first_paragraph (sp_body p),
            pd_body_class := ''docs'', pd_current := sp_out p, pd_content := html\<rparr>))"

fun write_docs :: "site_tools \<Rightarrow> docs_tree \<Rightarrow> (page_data \<Rightarrow> string option) \<Rightarrow> page_data \<Rightarrow> doc_page list \<Rightarrow> site_out \<Rightarrow> (site_err, unit) res \<times> site_out" where
  "write_docs k t layout site [] w = (Inr (), w)"
| "write_docs k t layout site (p # ps) w =
     next_do (page_data_of k t site p, w) (\<lambda>d w.
     next_do (write_page layout (sp_out p) d w) (\<lambda>_ w1. write_docs k t layout site ps w1))"

fun copy_static :: "(string \<times> string) list \<Rightarrow> site_out \<Rightarrow> (site_err, unit) res \<times> site_out" where
  "copy_static [] w = (Inr (), w)"
| "copy_static ((n, b) # fs) w = next_do (put_file (''assets/'' @ base_name n) b w) (\<lambda>_ w1. copy_static fs w1)"

definition landing_page :: "site_tools \<Rightarrow> page_data \<Rightarrow> (site_err, page_data) res" where
  "landing_page k site =
     (let p = site\<lparr>pd_title := ''lezz'' @ dash @ ''the lab orchestrator'',
          pd_description := ''lezz installs and keeps the lab'' @ [CHR 0x27] @ ''s tools up to date, brings a cluster up in one command, and measures whether a caller can still be trusted after it connects.'',
          pd_body_class := ''landing''\<rparr> in
      case tp_landing k of
        None \<Rightarrow> Inl Landing_Not_Rendered
      | Some f \<Rightarrow> (case f p of None \<Rightarrow> Inl Landing_Not_Rendered | Some html \<Rightarrow> Inr (p\<lparr>pd_content := html\<rparr>)))"

definition site_data :: "string \<Rightarrow> string \<Rightarrow> doc_page list \<Rightarrow> page_data" where
  "site_data base version pages =
     \<lparr>pd_base = base, pd_version = version, pd_sections = build_nav pages base, pd_title = [], pd_description = [],
      pd_body_class = [], pd_current = [], pd_content = []\<rparr>"

definition run_site :: "site_tools \<Rightarrow> docs_tree \<Rightarrow> string \<Rightarrow> string \<Rightarrow> site_out \<Rightarrow> (site_err, unit) res \<times> site_out" where
  "run_site k t base version w =
     next_do (load_docs t, w) (\<lambda>pages w.
       if pages = [] then (Inl No_Documents, w)
       else
         (case tp_layout k of
            None \<Rightarrow> (Inl No_Layout, w)
          | Some layout \<Rightarrow>
              (let site = site_data base version pages in
               next_do (write_docs k t layout site pages w) (\<lambda>_ w1.
               next_do (landing_page k site, w1) (\<lambda>landing w2.
               next_do (write_page layout ''index.html'' landing w2) (\<lambda>_ w3. copy_static (tp_static k) w3))))))"

definition trim_slashes :: "string \<Rightarrow> string" where
  "trim_slashes s = rev (dropWhile (\<lambda>c. c = CHR ''/'') (rev (dropWhile (\<lambda>c. c = CHR ''/'') s)))"

definition normalize_base :: "string \<Rightarrow> string" where
  "normalize_base b =
     (let t = trim_slashes (trim_space b) in if t = [] then ''/'' else ''/'' @ t @ ''/'')"

section \<open>Where pages go\<close>

lemma path_split_append: "fst (path_split p) @ snd (path_split p) = p"
  by (auto simp: path_split_def cut_last_Some split: option.splits)

lemma path_split_file: "CHR ''/'' \<notin> set (snd (path_split p))"
proof (cases "cut_last (CHR ''/'') p")
  case None
  then have "CHR ''/'' \<notin> set p" by (simp add: cut_last_def cut_at_None)
  then show ?thesis using None by (simp add: path_split_def)
next
  case (Some df)
  then obtain d f where "cut_last (CHR ''/'') p = Some (d, f)" "CHR ''/'' \<notin> set f"
    by (cases df) (auto simp: cut_last_Some)
  then show ?thesis by (simp add: path_split_def)
qed

lemma path_split_dir: "fst (path_split p) = [] \<or> last (fst (path_split p)) = CHR ''/''"
  by (auto simp: path_split_def split: option.splits)

lemma path_split_unique:
  assumes "CHR ''/'' \<notin> set f" "d = [] \<or> last d = CHR ''/''"
  shows "path_split (d @ f) = (d, f)"
proof (cases "d = []")
  case True
  then have "cut_last (CHR ''/'') (d @ f) = None" using assms(1) by (simp add: cut_last_def cut_at_None)
  then show ?thesis using True by (simp add: path_split_def)
next
  case False
  then obtain e where "d = e @ [CHR ''/'']" using assms(2) by (metis append_butlast_last_id)
  then have "cut_last (CHR ''/'') (d @ f) = Some (e, f)" using assms(1) by (simp add: cut_last_Some)
  then show ?thesis using \<open>d = e @ _\<close> by (simp add: path_split_def)
qed

definition file_part :: "string \<Rightarrow> string" where "file_part p = snd (path_split p)"
definition dir_part :: "string \<Rightarrow> string" where "dir_part p = fst (path_split p)"
definition is_readme :: "string \<Rightarrow> bool" where "is_readme p \<longleftrightarrow> lower (file_part p) = ''readme.md''"

lemma page_path_eq:
  "page_path p = ''docs/'' @ (if is_readme p then dir_part p @ ''index.html'' else trim_suffix p ''.md'' @ ''.html'')"
  by (simp add: page_path_def is_readme_def file_part_def dir_part_def split_beta)

lemma trim_md: "has_suffix p ''.md'' \<Longrightarrow> trim_suffix p ''.md'' @ ''.md'' = p"
  by (auto simp: has_suffix_iff)

lemma readme_page:
  assumes "page_path a = page_path b" "is_readme a" "\<not> is_readme b" "has_suffix b ''.md''"
  shows "file_part b = ''index.md''"
proof -
  have "trim_suffix b ''.md'' @ ''.html'' = (dir_part a @ ''index'') @ ''.html''"
    using assms by (simp add: page_path_eq)
  then have "trim_suffix b ''.md'' = dir_part a @ ''index''" by (rule append_same_eq [THEN iffD1])
  then have "b = dir_part a @ ''index.md''" using trim_md [OF assms(4)] by simp
  moreover have "path_split (dir_part a @ ''index.md'') = (dir_part a, ''index.md'')"
    by (rule path_split_unique) (use path_split_dir [of a] in \<open>auto simp: dir_part_def\<close>)
  ultimately show ?thesis by (simp add: file_part_def)
qed

text \<open>
  Two documents are published in the same place only when one is called \<open>index.md\<close>, or when both
  are the README of the same directory, in different case.
\<close>

theorem pages_do_not_collide:
  assumes "page_path a = page_path b" "has_suffix a ''.md''" "has_suffix b ''.md''"
    and "file_part a \<noteq> ''index.md''" "file_part b \<noteq> ''index.md''"
  shows "a = b \<or> is_readme a \<and> is_readme b \<and> dir_part a = dir_part b"
proof (cases "is_readme a"; cases "is_readme b")
  assume "is_readme a" "is_readme b"
  then show ?thesis using assms(1) by (simp add: page_path_eq)
next
  assume r: "\<not> is_readme a" "\<not> is_readme b"
  then have "trim_suffix a ''.md'' = trim_suffix b ''.md''" using assms(1) by (simp add: page_path_eq)
  then show ?thesis using trim_md [OF assms(2)] trim_md [OF assms(3)] by metis
qed (use readme_page [OF assms(1)] readme_page [OF assms(1) [symmetric]] assms in auto)

theorem pages_do_not_collide_witness:
  "''adr/README.md'' = ''adr/readme.md'' \<or> is_readme ''adr/README.md'' \<and> is_readme ''adr/readme.md'' \<and> dir_part ''adr/README.md'' = dir_part ''adr/readme.md''"
  by (rule pages_do_not_collide) code_simp+

text \<open>The case that is left: the second page overwrites the first.\<close>

lemma index_overwrites_readme: "page_path ''adr/README.md'' = page_path ''adr/index.md''"
  by code_simp

section \<open>The navigation\<close>

lemma load_files_pages:
  "load_files fs = Inr ps \<Longrightarrow> ps = map (\<lambda>(rel, body). page_of rel (the body)) (filter (\<lambda>(rel, body). has_suffix (file_part rel) ''.md'') fs)"
  by (induction fs arbitrary: ps rule: load_files.induct) (auto simp: and_then_Inr file_part_def split: if_splits option.splits)

lemma mset_insert_by: "mset (insert_by lt x ys) = add_mset x (mset ys)"
  by (induction ys) auto

lemma mset_sort_slice: "mset (sort_slice lt xs) = mset xs"
  by (induction xs) (auto simp: sort_slice_def mset_insert_by)

definition nav_entry :: "string \<Rightarrow> doc_page \<Rightarrow> nav_item" where
  "nav_entry base p = \<lparr>nv_title = sp_title p, nv_url = base @ sp_out p\<rparr>"

lemma nav_items_entry: "nav_items pages base n = map (nav_entry base) (filter (\<lambda>p. sp_section p = n) pages)"
  by (simp add: nav_items_def nav_entry_def comp_def)

lemma nav_sections:
  assumes "list_all (\<lambda>p. sp_section p \<in> set nav_order) pages"
  shows "mset (concat (map snd (build_nav pages base))) = mset (map (nav_entry base) pages)"
proof -
  have "mset (concat (map snd (build_nav pages base)))
      = mset (nav_items pages base ''Guides'') + mset (nav_items pages base ''Decisions'')"
    by (simp add: build_nav_def nav_order_def mset_sort_slice)
  also have "\<dots> = mset (map (nav_entry base) pages)"
    using assms by (induction pages) (auto simp: nav_items_entry nav_order_def)
  finally show ?thesis .
qed

lemma section_in_order: "section_of rel \<in> set nav_order"
  by (simp add: section_of_def nav_order_def)

definition ordered_titles :: "nav_item list \<Rightarrow> bool" where
  "ordered_titles items \<longleftrightarrow> sorted_wrt (\<lambda>a b. lower (nv_title a) \<le> lower (nv_title b)) items"

lemma nav_ordered: "ordered_titles (sort_slice title_before items)"
proof -
  have "sorted_wrt (\<lambda>a b. \<not> title_before b a) (sort_slice title_before items)"
    by (rule sorted_sort_slice) (auto simp: title_before_def)
  then show ?thesis by (simp add: ordered_titles_def title_before_def not_less)
qed

text \<open>
  The navigation lists every document exactly once, in the sections of the site, each section in the
  order of the titles.
\<close>

theorem navigation_is_complete:
  "case load_docs t of
     Inl _ \<Rightarrow> True
   | Inr pages \<Rightarrow> mset (concat (map snd (build_nav pages base))) = mset (map (nav_entry base) pages)
       \<and> list_all (\<lambda>x. fst x \<in> set nav_order \<and> snd x \<noteq> [] \<and> ordered_titles (snd x)) (build_nav pages base)"
proof (cases "load_docs t")
  case (Inr pages)
  then have "list_all (\<lambda>p. sp_section p \<in> set nav_order) pages"
    using load_files_pages [of "dt_files t" pages] section_in_order by (auto simp: load_docs_def list_all_iff page_of_def)
  moreover have "sort_slice title_before xs \<noteq> []" if "xs \<noteq> []" for xs using that length_sort_slice [of title_before xs] by (metis length_0_conv)
  ultimately show ?thesis
    using Inr nav_sections nav_ordered by (auto simp: build_nav_def list_all_iff)
qed simp

text \<open>A page of any other section would not be listed.\<close>

lemma other_section_is_dropped: "sp_section p \<notin> set nav_order \<Longrightarrow> build_nav [p] base = []"
  by (auto simp: build_nav_def nav_items_def nav_order_def)

section \<open>Links lead to pages\<close>

lemma elements_last:
  assumes "proper n" "n \<noteq> ''..''" "d = [] \<or> last d = CHR ''/''"
  shows "\<exists>es. elements (d @ n) = es @ [n]"
proof (cases "d = []")
  case True
  then show ?thesis
    using assms(1,2) by (cases n) (auto simp: elements_def split_at_no_sep clean_step_def proper_def)
next
  case False
  then obtain e where d: "d = e @ [CHR ''/'']" using assms(3) by (metis append_butlast_last_id)
  have "CHR ''/'' \<notin> set n" using assms(1) by (simp add: proper_def)
  then have "split_at (CHR ''/'') (d @ n) = split_at (CHR ''/'') e @ [n]" by (simp add: d split_at_snoc)
  then show ?thesis using assms(1,2) by (simp add: elements_def clean_step_def proper_def)
qed

lemma clean_last:
  assumes "proper n" "n \<noteq> ''..''" "d = [] \<or> last d = CHR ''/''"
  shows "\<exists>s. clean_path (d @ n) = s @ n"
proof -
  obtain es where "elements (d @ n) = es @ [n]" using elements_last [OF assms] by blast
  moreover have "join ''/'' (es @ [n]) = (if es = [] then [] else join ''/'' es @ ''/'') @ n"
    by (induction es) (auto simp: join_Cons)
  moreover have "n \<noteq> []" using assms(1) by (simp add: proper_def)
  ultimately show ?thesis by (auto simp: clean_path_def Let_def)
qed

lemma md_file: "has_suffix p ''.md'' \<Longrightarrow> has_suffix (file_part p) ''.md''"
proof -
  assume "has_suffix p ''.md''"
  then obtain q where q: "p = q @ ''.md''" by (auto simp: has_suffix_iff)
  have "p = dir_part q @ (file_part q @ ''.md'')" using path_split_append [of q] by (simp add: q dir_part_def file_part_def)
  moreover have "path_split (dir_part q @ (file_part q @ ''.md'')) = (dir_part q, file_part q @ ''.md'')"
    by (rule path_split_unique) (use path_split_file [of q] path_split_dir [of q] in \<open>simp_all add: dir_part_def file_part_def\<close>)
  ultimately have "path_split p = (dir_part q, file_part q @ ''.md'')" by simp
  then show ?thesis by (simp add: file_part_def has_suffix_iff)
qed

lemma md_proper: "has_suffix n ''.md'' \<Longrightarrow> CHR ''/'' \<notin> set n \<Longrightarrow> proper n \<and> n \<noteq> ''..''"
  by (auto simp: has_suffix_iff proper_def append_eq_Cons_conv)

lemma clean_md: "has_suffix p ''.md'' \<Longrightarrow> has_suffix (clean_path p) ''.md''"
proof -
  assume "has_suffix p ''.md''"
  then have f: "has_suffix (file_part p) ''.md''" by (rule md_file)
  then have "proper (file_part p) \<and> file_part p \<noteq> ''..''" by (rule md_proper) (simp add: file_part_def path_split_file)
  then obtain s where "clean_path (dir_part p @ file_part p) = s @ file_part p"
    using clean_last [of "file_part p" "dir_part p"] path_split_dir [of p] by (auto simp: dir_part_def)
  then show ?thesis using f path_split_append [of p] by (auto simp: dir_part_def file_part_def has_suffix_iff)
qed

lemma join_md: "has_suffix p ''.md'' \<Longrightarrow> has_suffix (join_path [d, p]) ''.md''"
proof -
  assume p: "has_suffix p ''.md''"
  then have "p \<noteq> []" by (auto simp: has_suffix_iff)
  then have "join_path [d, p] = clean_path (if d = [] then p else d @ ''/'' @ p)" by (simp add: join_path_def)
  moreover have "has_suffix (if d = [] then p else d @ ''/'' @ p) ''.md''" using p by (auto simp: has_suffix_iff)
  ultimately show ?thesis using clean_md by metis
qed

lemma resolve_doc_link_Some:
  "resolve_doc_link t base dir dest = Some url \<Longrightarrow>
    \<exists>rel frag. url = base @ page_path rel @ frag \<and> has_suffix rel ''.md'' \<and> (rel \<in> set (map fst (dt_files t)) \<or> rel \<in> set (dt_dirs t))"
  unfolding resolve_doc_link_def Let_def
  by (auto split: if_splits intro!: exI clean_md join_md)

lemma put_file_keeps: "put_file n x w = (r, w') \<Longrightarrow> map_of (so_files w) m \<noteq> None \<Longrightarrow> map_of (so_files w') m \<noteq> None"
  by (auto simp: put_file_def update_conv split: prod.splits if_splits)

lemma put_file_puts: "put_file n x w = (Inr u, w') \<Longrightarrow> map_of (so_files w') n \<noteq> None"
  by (auto simp: put_file_def update_conv split: prod.splits if_splits)

lemma write_page_keeps: "write_page l n p w = (r, w') \<Longrightarrow> map_of (so_files w) m \<noteq> None \<Longrightarrow> map_of (so_files w') m \<noteq> None"
  by (auto simp: write_page_def split: option.splits dest: put_file_keeps)

lemma write_page_puts: "write_page l n p w = (Inr u, w') \<Longrightarrow> map_of (so_files w') n \<noteq> None"
  by (auto simp: write_page_def split: option.splits dest: put_file_puts)

lemma write_docs_keeps:
  "write_docs k t layout site ps w = (Inr u, w') \<Longrightarrow> map_of (so_files w) m \<noteq> None \<Longrightarrow> map_of (so_files w') m \<noteq> None"
proof (induction ps arbitrary: w)
  case (Cons p ps)
  obtain d w1 u1 where 1: "write_page layout (sp_out p) d w = (Inr u1, w1)" "write_docs k t layout site ps w1 = (Inr u, w')"
    using Cons.prems(1) by (auto simp: next_do_Inr)
  show ?case using Cons.IH [OF 1(2)] write_page_keeps [OF 1(1) Cons.prems(2)] by blast
qed simp

lemma write_docs_writes:
  "write_docs k t layout site ps w = (Inr u, w') \<Longrightarrow> p \<in> set ps \<Longrightarrow> map_of (so_files w') (sp_out p) \<noteq> None"
proof (induction ps arbitrary: w)
  case (Cons q ps)
  obtain d w1 u1 where 1: "write_page layout (sp_out q) d w = (Inr u1, w1)" "write_docs k t layout site ps w1 = (Inr u, w')"
    using Cons.prems(1) by (auto simp: next_do_Inr)
  show ?case
    using Cons.IH [OF 1(2)] write_docs_keeps [OF 1(2) write_page_puts [OF 1(1)]] Cons.prems(2) by auto
qed simp

lemma copy_static_keeps:
  "copy_static fs w = (r, w') \<Longrightarrow> map_of (so_files w) m \<noteq> None \<Longrightarrow> map_of (so_files w') m \<noteq> None"
proof (induction fs arbitrary: w)
  case (Cons x fs)
  obtain n b where x: "x = (n, b)" by fastforce
  obtain r1 w1 where 1: "put_file (''assets/'' @ base_name n) b w = (r1, w1)" by fastforce
  show ?case using Cons put_file_keeps [OF 1] 1 x by (cases r1) auto
qed simp

lemma run_site_writes:
  assumes "run_site k t base version w = (Inr u, w')"
  shows "\<exists>pages. load_docs t = Inr pages \<and> (\<forall>p \<in> set pages. map_of (so_files w') (sp_out p) \<noteq> None)"
proof -
  obtain pages layout landing u1 u2 w1 w2 where l: "load_docs t = Inr pages"
    and d: "write_docs k t layout (site_data base version pages) pages w = (Inr u1, w1)"
    and i: "write_page layout ''index.html'' landing w1 = (Inr u2, w2)"
    and c: "copy_static (tp_static k) w2 = (Inr u, w')"
    using assms by (auto simp: run_site_def next_do_Inr Let_def split: if_splits option.splits)
  have "map_of (so_files w') (sp_out p) \<noteq> None" if "p \<in> set pages" for p
    by (rule copy_static_keeps [OF c write_page_keeps [OF i write_docs_writes [OF d that]]])
  then show ?thesis using l by blast
qed

text \<open>
  C34: after a run that succeeds, every link between documents that was rewritten leads to a page that was
  written, unless it names a directory.
\<close>

theorem links_lead_to_pages:
  "case run_site k t base version w of
     (Inl _, _) \<Rightarrow> True
   | (Inr _, w') \<Rightarrow>
       (case resolve_doc_link t base dir dest of
          None \<Rightarrow> True
        | Some url \<Rightarrow> \<exists>rel frag. url = base @ page_path rel @ frag
            \<and> (rel \<in> set (dt_dirs t) \<or> (\<exists>html. map_of (so_files w') (page_path rel) = Some html)))"
proof (cases "fst (run_site k t base version w)"; cases "resolve_doc_link t base dir dest")
  fix u url
  assume "fst (run_site k t base version w) = Inr u" and s: "resolve_doc_link t base dir dest = Some url"
  then obtain w' where r: "run_site k t base version w = (Inr u, w')" by (metis prod.collapse)
  obtain pages where p: "load_docs t = Inr pages" "\<forall>p \<in> set pages. map_of (so_files w') (sp_out p) \<noteq> None"
    using run_site_writes [OF r] by blast
  obtain rel frag where l: "url = base @ page_path rel @ frag" "has_suffix rel ''.md''"
    "rel \<in> set (map fst (dt_files t)) \<or> rel \<in> set (dt_dirs t)"
    using resolve_doc_link_Some [OF s] by blast
  have "map_of (so_files w') (page_path rel) \<noteq> None" if f: "rel \<in> set (map fst (dt_files t))"
  proof -
    obtain body where "(rel, body) \<in> set (dt_files t)" using f by auto
    then have "page_of rel (the body) \<in> set pages"
      using load_files_pages [of "dt_files t" pages] p(1) md_file [OF l(2)] by (force simp: load_docs_def)
    then show ?thesis using p(2) by (force simp: page_of_def)
  qed
  then show ?thesis using r s l by auto
qed (auto split: prod.splits sum.splits)

section \<open>The base of the site\<close>

lemma trim_slashes_ends: "trim_slashes s \<noteq> [] \<Longrightarrow> hd (trim_slashes s) \<noteq> CHR ''/'' \<and> last (trim_slashes s) \<noteq> CHR ''/''"
proof -
  define t where "t = dropWhile (\<lambda>c. c = CHR ''/'') s"
  assume ne: "trim_slashes s \<noteq> []"
  then have r: "dropWhile (\<lambda>c. c = CHR ''/'') (rev t) \<noteq> []" by (simp add: trim_slashes_def t_def)
  then have "last (trim_slashes s) \<noteq> CHR ''/''"
    using hd_dropWhile [OF r] by (simp add: trim_slashes_def t_def last_rev)
  moreover have "hd (trim_slashes s) = hd t"
  proof -
    have "\<exists>u. t = trim_slashes s @ u"
      using takeWhile_dropWhile_id [of "\<lambda>c. c = CHR ''/''" "rev t"]
      by (metis rev_append rev_rev_ident t_def trim_slashes_def)
    then show ?thesis using ne by (metis hd_append2)
  qed
  moreover have "t \<noteq> []" using r by auto
  then have "hd t \<noteq> CHR ''/''" using hd_dropWhile [of "\<lambda>c. c = CHR ''/''" s] by (simp add: t_def)
  ultimately show ?thesis by simp
qed

text \<open>The base begins and ends with exactly one slash.\<close>

theorem base_has_single_slashes:
  "normalize_base b = ''/''
   \<or> (\<exists>m. normalize_base b = ''/'' @ m @ ''/'' \<and> m \<noteq> [] \<and> hd m \<noteq> CHR ''/'' \<and> last m \<noteq> CHR ''/'')"
  using trim_slashes_ends [of "trim_space b"] by (auto simp: normalize_base_def Let_def)

text \<open>A description is cut in the middle of a character: 160 letters of two bytes.\<close>

lemma description_cut_within_character:
  "first_paragraph (concat (replicate 81 [CHR 0xC3, CHR 0xA9])) = concat (replicate 78 [CHR 0xC3, CHR 0xA9]) @ [CHR 0xC3] @ ellipsis"
  by code_simp

end
