(* ===== verification/QueueService.thy ===== *)
theory QueueService
  imports QueueSafety PrCache
begin

text \<open>
  The two services around the stores: how the job queue (\<open>internal/queue/queue.go\<close>) and the
  pull-request cache (\<open>internal/cache/cache.go\<close>) are opened, started and closed, the turns of
  the worker, the doorbell (\<open>door_unix.go\<close>), and the commands \<open>lezz queue\<close> and
  \<open>lezz cache\<close>. Directories, the database library, the listener and the YAML reader are
  arguments.
\<close>

section \<open>Opening the stores\<close>

text \<open>\<open>filepath.Dir\<close>.\<close>

definition dir_path :: "string \<Rightarrow> string" where
  "dir_path p = (case cut_last (CHR ''/'') p of None \<Rightarrow> ''.'' | Some (d, b) \<Rightarrow> clean_path (d @ ''/''))"

record db_host =
  dh_mkdir :: "string \<Rightarrow> bool"
  dh_open :: "string \<Rightarrow> bool"
  dh_exec :: "string \<Rightarrow> bool"

datatype open_err = Mkdir_Failed string | Open_Failed string | Statement_Failed string

fun first_refused :: "(string \<Rightarrow> bool) \<Rightarrow> string list \<Rightarrow> string option" where
  "first_refused ok [] = None"
| "first_refused ok (s # ss) = (if ok s then first_refused ok ss else Some s)"

definition pragmas :: "string list" where
  "pragmas = [''PRAGMA journal_mode=WAL'', ''PRAGMA synchronous=NORMAL'', ''PRAGMA busy_timeout=5000'']"

text \<open>\<open>ds\<close> are the databases that are open.\<close>

definition open_database ::
    "db_host \<Rightarrow> string \<Rightarrow> string \<Rightarrow> string list \<Rightarrow> (open_err, unit) res \<times> string list" where
  "open_database h schema path ds =
     (if \<not> dh_open h path then (Inl (Open_Failed path), ds)
      else
        case first_refused (dh_exec h) (pragmas @ [schema]) of
          Some s \<Rightarrow> (Inl (Statement_Failed s), remove1 path (path # ds))
        | None \<Rightarrow> (Inr (), path # ds))"

definition new_sqlite_store ::
    "db_host \<Rightarrow> string \<Rightarrow> string \<Rightarrow> string list \<Rightarrow> (open_err, unit) res \<times> string list" where
  "new_sqlite_store h schema path ds =
     (if \<not> dh_mkdir h (dir_path path) then (Inl (Mkdir_Failed (dir_path path)), ds)
      else open_database h schema path ds)"

definition file_store_dirs :: "string \<Rightarrow> string list" where
  "file_store_dirs d = [join_path [d, ''jobs''], join_path [d, ''results''], join_path [d, ''dlq'']]"

definition new_file_store :: "db_host \<Rightarrow> string \<Rightarrow> (open_err, unit) res" where
  "new_file_store h d =
     (case first_refused (dh_mkdir h) (file_store_dirs d) of
        None \<Rightarrow> Inr () | Some x \<Rightarrow> Inl (Mkdir_Failed x))"

datatype store_kind = File_Only | File_And_Sqlite

definition store_name :: "store_kind \<Rightarrow> string" where
  "store_name k = (case k of File_Only \<Rightarrow> ''file'' | File_And_Sqlite \<Rightarrow> ''file+sqlite'')"

text \<open>The stores \<open>New\<close> opens for an accepted configuration; the file driver holds no handle.\<close>

definition open_stores ::
    "db_host \<Rightarrow> string \<Rightarrow> qconfig \<Rightarrow> string list \<Rightarrow> (open_err, store_kind) res \<times> string list" where
  "open_stores h schema c ds =
     (case new_file_store h (cfg_dir c) of
        Inl e \<Rightarrow> (Inl e, ds)
      | Inr _ \<Rightarrow>
          if cfg_sqlite c = [] then (Inr File_Only, ds)
          else
            case new_sqlite_store h schema (cfg_sqlite c) ds of
              (Inl e, ds') \<Rightarrow> (Inl e, ds')
            | (Inr _, ds') \<Rightarrow> (Inr File_And_Sqlite, ds'))"

text \<open>\<open>cache.New\<close>.\<close>

datatype new_cache_err = Bad_Cache_Config cache_config_err | Cache_Unopened open_err

definition open_cache ::
    "db_host \<Rightarrow> string \<Rightarrow> string \<Rightarrow> cache_config \<Rightarrow> string list \<Rightarrow> (new_cache_err, cache_config) res \<times> string list" where
  "open_cache h home schema c0 ds =
     (case normalize_cache home c0 of
        Inl e \<Rightarrow> (Inl (Bad_Cache_Config e), ds)
      | Inr c \<Rightarrow>
          if \<not> dh_mkdir h (cc_dir c) then (Inl (Cache_Unopened (Mkdir_Failed (cc_dir c))), ds)
          else
            case new_sqlite_store h schema (cc_sqlite c) ds of
              (Inl e, ds') \<Rightarrow> (Inl (Cache_Unopened e), ds')
            | (Inr _, ds') \<Rightarrow> (Inr c, ds'))"

section \<open>The doorbell\<close>

text \<open>What making the FIFO answers.\<close>

datatype mkfifo = Fifo_Made | Fifo_Exists | Fifo_Refused

definition make_doorbell :: "mkfifo \<Rightarrow> bool" where
  "make_doorbell r \<longleftrightarrow> r \<noteq> Fifo_Refused"

text \<open>
  The read end of the FIFO: the bytes in it, and whether a writer has come and gone. \<open>poll\<close>
  reports a hang-up from then on, whatever events were asked for.
\<close>

record door =
  dr_bytes :: nat
  dr_hung_up :: bool

definition fresh_door :: door where
  "fresh_door = \<lparr>dr_bytes = 0, dr_hung_up = False\<rparr>"

text \<open>How long one wait takes when nobody rings during it: a descriptor that does not fit an
  int32 is not polled, and anything \<open>poll\<close> reports ends the wait at once.\<close>

definition wait_doorbell :: "nat \<Rightarrow> duration \<Rightarrow> door \<Rightarrow> duration \<times> door" where
  "wait_doorbell fd timeout d =
     (if 2147483647 < fd then (timeout, d)
      else if dr_bytes d = 0 \<and> \<not> dr_hung_up d then (timeout, d)
      else (0, d\<lparr>dr_bytes := 0\<rparr>))"

text \<open>A ring opens the FIFO, writes one byte and closes it again; without a reader it is lost and
  the ticker makes up for it.\<close>

definition ring_doorbell :: "door option \<Rightarrow> door option" where
  "ring_doorbell d = map_option (\<lambda>r. r\<lparr>dr_bytes := dr_bytes r + 1, dr_hung_up := True\<rparr>) d"

section \<open>Start, the worker, Close\<close>

datatype bound = Tcp nat | Other_Address string

definition queue_url :: "bound \<Rightarrow> string" where
  "queue_url b = (case b of Tcp p \<Rightarrow> ''http://127.0.0.1:'' @ dec p | Other_Address a \<Rightarrow> a)"

record 's service =
  sv_queue :: "'s queue"
  sv_url :: string
  sv_http :: bool
  sv_worker :: bool

datatype start_err = No_Doorbell | No_Listener string

text \<open>\<open>prepare\<close> is the reconciliation of a mirror, nothing for the file driver.\<close>

definition start_queue ::
    "mkfifo \<Rightarrow> ('s queue \<Rightarrow> 's queue) \<Rightarrow> (string \<Rightarrow> bound option) \<Rightarrow> 's service \<Rightarrow> (start_err, unit) res \<times> 's service" where
  "start_queue fifo prepare listen v =
     (if \<not> make_doorbell fifo then (Inl No_Doorbell, v)
      else
        let v1 = v\<lparr>sv_queue := prepare (sv_queue v)\<rparr>; addr = cfg_listen (q_cfg (sv_queue v)) in
        case listen addr of
          None \<Rightarrow> (Inl (No_Listener addr), v1)
        | Some b \<Rightarrow> (Inr (), v1\<lparr>sv_url := queue_url b, sv_http := True, sv_worker := True\<rparr>))"

text \<open>
  One turn of the worker: the inputs of its drain, and how the wait after it ends. The other
  goroutines write to the store while it waits.
\<close>

datatype 's wake = Stop | Wake "'s \<Rightarrow> 's"

record 's turn =
  tn_now :: "string \<Rightarrow> time"
  tn_polls :: "'s poll list"
  tn_limiter :: limiter
  tn_wake :: "'s wake"

fun work ::
    "'s store_ops \<Rightarrow> (job list \<Rightarrow> string \<rightharpoonup> jobresult) \<Rightarrow> 's turn list \<Rightarrow> 's queue \<Rightarrow> bool \<times> 's queue" where
  "work ops exec [] q = (True, q)"
| "work ops exec (t # ts) q =
     (let q1 = drain ops (tn_now t) exec (tn_polls t) (tn_limiter t) q in
      case tn_wake t of
        Stop \<Rightarrow> (False, q1)
      | Wake f \<Rightarrow> work ops exec ts (q1\<lparr>q_store := f (q_store q1)\<rparr>))"

text \<open>The period of the ticker; the library panics when it is not positive.\<close>

definition tick_period :: "qconfig \<Rightarrow> duration" where
  "tick_period c = max_wait c div 2"

text \<open>How long a turn may wait before the next drain: with the FIFO 100 ms, otherwise a tick.\<close>

definition longest_wait :: "qconfig \<Rightarrow> bool \<Rightarrow> duration" where
  "longest_wait c fifo = (if fifo then 100 * millisecond else tick_period c)"

text \<open>
  \<open>Close\<close> is called by the command and by the goroutine that waits for the parent context,
  each on its own. Its steps: cancel, shut the HTTP server down, wait for the worker, close the
  store.
\<close>

datatype closing = Not_Closing | Cancelled_Ctx | Shut_Down | Worker_Awaited | Store_Closed

record life =
  lf_cancelled :: bool
  lf_http :: bool
  lf_worker :: bool
  lf_store :: bool
  lf_closers :: "nat \<Rightarrow> closing"

definition started_life :: life where
  "started_life = \<lparr>lf_cancelled = False, lf_http = True, lf_worker = True, lf_store = True,
     lf_closers = (\<lambda>_. Not_Closing)\<rparr>"

inductive life_step :: "life \<Rightarrow> life \<Rightarrow> bool" where
  cancel: "lf_closers s k = Not_Closing \<Longrightarrow>
    life_step s (s\<lparr>lf_cancelled := True, lf_closers := (lf_closers s)(k := Cancelled_Ctx)\<rparr>)"
| shut: "lf_closers s k = Cancelled_Ctx \<Longrightarrow>
    life_step s (s\<lparr>lf_http := False, lf_closers := (lf_closers s)(k := Shut_Down)\<rparr>)"
| await: "lf_closers s k = Shut_Down \<Longrightarrow> \<not> lf_worker s \<Longrightarrow>
    life_step s (s\<lparr>lf_closers := (lf_closers s)(k := Worker_Awaited)\<rparr>)"
| close_store: "lf_closers s k = Worker_Awaited \<Longrightarrow>
    life_step s (s\<lparr>lf_store := False, lf_closers := (lf_closers s)(k := Store_Closed)\<rparr>)"
| worker_ends: "lf_worker s \<Longrightarrow> lf_cancelled s \<Longrightarrow> life_step s (s\<lparr>lf_worker := False\<rparr>)"

definition life_ok :: "life \<Rightarrow> bool" where
  "life_ok s \<longleftrightarrow> (\<forall>k. lf_closers s k \<noteq> Not_Closing \<longrightarrow> lf_cancelled s)
    \<and> (\<forall>k. lf_closers s k \<in> {Shut_Down, Worker_Awaited, Store_Closed} \<longrightarrow> \<not> lf_http s)
    \<and> (\<forall>k. lf_closers s k \<in> {Worker_Awaited, Store_Closed} \<longrightarrow> \<not> lf_worker s)
    \<and> (\<not> lf_store s \<longrightarrow> (\<exists>k. lf_closers s k = Store_Closed))
    \<and> (\<not> lf_worker s \<longrightarrow> lf_cancelled s)"

inductive_cases life_stepE: "life_step s s'"

section \<open>The cache\<close>

record cache_service =
  cs_cfg :: cache_config
  cs_bound :: "bound option"
  cs_db :: bool
  cs_http :: bool
  cs_closed :: bool

definition cache_url :: "cache_service \<Rightarrow> string" where
  "cache_url v =
     (case cs_bound v of
        None \<Rightarrow> []
      | Some (Tcp p) \<Rightarrow> ''http://127.0.0.1:'' @ dec p
      | Some (Other_Address a) \<Rightarrow> ''http://'' @ a)"

definition start_cache :: "(string \<Rightarrow> bound option) \<Rightarrow> cache_service \<Rightarrow> bool \<times> cache_service" where
  "start_cache listen v =
     (case listen (cc_listen (cs_cfg v)) of
        None \<Rightarrow> (False, v)
      | Some b \<Rightarrow> (True, v\<lparr>cs_bound := Some b, cs_http := True\<rparr>))"

text \<open>\<open>Close\<close> acts once; closing the database may fail, and every later call repeats that answer.\<close>

definition close_cache :: "cache_service \<Rightarrow> cache_service" where
  "close_cache v =
     (if cs_closed v then v else v\<lparr>cs_closed := True, cs_http := False, cs_db := False\<rparr>)"

record cache_status =
  st_name :: string
  st_url :: string
  st_db :: string
  st_ttl_ms :: int
  st_max_stale_ms :: int
  st_hits :: int
  st_misses :: int
  st_stale :: int
  st_fetches :: int
  st_entries :: int

text \<open>\<open>handleStatus\<close>; a failed count reads 0.\<close>

definition cache_status_doc :: "bool \<Rightarrow> cache_service \<Rightarrow> pr_cache \<Rightarrow> cache_status" where
  "cache_status_doc counted v c =
     \<lparr>st_name = cc_name (cs_cfg v), st_url = cache_url v, st_db = cc_sqlite (cs_cfg v),
      st_ttl_ms = milliseconds (cc_ttl (cs_cfg v)), st_max_stale_ms = milliseconds (cc_max_stale (cs_cfg v)),
      st_hits = c_hits c, st_misses = c_misses c, st_stale = c_stale c, st_fetches = c_fetches c,
      st_entries = (if counted then int (length (c_rows c)) else 0)\<rparr>"

section \<open>The commands\<close>

text \<open>\<open>LoadConfig\<close> of either package: an unreadable file or one that does not parse.\<close>

datatype config_read = Config_Missing | Config_Garbled

definition load_config ::
    "(string \<Rightarrow> string option) \<Rightarrow> (string \<Rightarrow> 'c option) \<Rightarrow> string \<Rightarrow> (config_read, 'c) res" where
  "load_config read yaml path =
     (case read path of
        None \<Rightarrow> Inl Config_Missing
      | Some d \<Rightarrow> (case yaml d of None \<Rightarrow> Inl Config_Garbled | Some c \<Rightarrow> Inr c))"

text \<open>Without \<open>--config\<close> the embedded definition is taken.\<close>

definition chosen_config ::
    "(string \<Rightarrow> string option) \<Rightarrow> (string \<Rightarrow> string option) \<Rightarrow> (string \<Rightarrow> 'c option) \<Rightarrow> string \<Rightarrow> (config_read, 'c) res" where
  "chosen_config embedded read yaml path =
     (if path = [] then load_config embedded yaml ''configs/github.yaml'' else load_config read yaml path)"

datatype command_err = Config_Refused config_read | Not_Created | Not_Started

text \<open>\<open>cmdCache\<close>: on success the service that is closed when the signal comes.\<close>

definition cache_command ::
    "(string \<Rightarrow> string option) \<Rightarrow> (string \<Rightarrow> string option) \<Rightarrow> (string \<Rightarrow> cache_config option) \<Rightarrow> db_host \<Rightarrow> string
     \<Rightarrow> string \<Rightarrow> (string \<Rightarrow> bound option) \<Rightarrow> string \<Rightarrow> (command_err, cache_service) res" where
  "cache_command embedded read yaml h home schema listen path =
     (case chosen_config embedded read yaml path of
        Inl e \<Rightarrow> Inl (Config_Refused e)
      | Inr c0 \<Rightarrow>
          (case open_cache h home schema c0 [] of
             (Inl e, ds) \<Rightarrow> Inl Not_Created
           | (Inr c, ds) \<Rightarrow>
               (case start_cache listen \<lparr>cs_cfg = c, cs_bound = None, cs_db = True, cs_http = False, cs_closed = False\<rparr> of
                  (False, v) \<Rightarrow> Inl Not_Started
                | (True, v) \<Rightarrow> Inr v)))"

text \<open>\<open>cmdQueue\<close>; \<open>store\<close> is the state of the opened drivers.\<close>

definition queue_command ::
    "(string \<Rightarrow> string option) \<Rightarrow> (string \<Rightarrow> string option) \<Rightarrow> (string \<Rightarrow> qconfig option) \<Rightarrow> db_host \<Rightarrow> string
     \<Rightarrow> string \<Rightarrow> mkfifo \<Rightarrow> (store_kind \<Rightarrow> 's) \<Rightarrow> ('s queue \<Rightarrow> 's queue) \<Rightarrow> (string \<Rightarrow> bound option) \<Rightarrow> string
     \<Rightarrow> (command_err, 's service) res" where
  "queue_command embedded read yaml h home schema fifo store prepare listen path =
     (case chosen_config embedded read yaml path of
        Inl e \<Rightarrow> Inl (Config_Refused e)
      | Inr c0 \<Rightarrow>
          (case normalize home c0 of
             Inl e \<Rightarrow> Inl Not_Created
           | Inr c \<Rightarrow>
               (case open_stores h schema c [] of
                  (Inl e, ds) \<Rightarrow> Inl Not_Created
                | (Inr k, ds) \<Rightarrow>
                    (case new_queue home c0 (store k) of
                       Inl e \<Rightarrow> Inl Not_Created
                     | Inr q \<Rightarrow>
                         (case start_queue fifo prepare listen \<lparr>sv_queue = q, sv_url = [], sv_http = False, sv_worker = False\<rparr> of
                            (Inl e, v) \<Rightarrow> Inl Not_Started
                          | (Inr _, v) \<Rightarrow> Inr v)))))"

section \<open>What opening leaves behind\<close>

lemma new_sqlite_store_ends:
  "snd (new_sqlite_store h schema path ds) =
    (if is_ok (fst (new_sqlite_store h schema path ds)) then path # ds else ds)"
  by (simp add: new_sqlite_store_def open_database_def split: option.splits)

text \<open>
  A configuration the queue cannot open leaves no database open, and one it can open leaves
  exactly the mirror's, when there is a mirror; the same holds of the cache and its database.
\<close>

theorem opening_leaks_nothing:
  "(case open_stores h schema c ds of
      (Inl _, ds') \<Rightarrow> ds' = ds
    | (Inr k, ds') \<Rightarrow> (k = File_Only \<longleftrightarrow> cfg_sqlite c = []) \<and> ds' = (if cfg_sqlite c = [] then ds else cfg_sqlite c # ds))
   \<and> (case open_cache h home schema2 c2 ds of
      (Inl _, ds') \<Rightarrow> ds' = ds
    | (Inr n, ds') \<Rightarrow> normalize_cache home c2 = Inr n \<and> ds' = cc_sqlite n # ds)"
  using new_sqlite_store_ends [of h schema "cfg_sqlite c" ds]
    new_sqlite_store_ends [of h schema2 "cc_sqlite (projr (normalize_cache home c2))" ds]
  by (auto simp: open_stores_def open_cache_def split: sum.splits prod.splits if_splits)

section \<open>The doorbell and the ticker\<close>

text \<open>Once a ring has been heard the FIFO has hung up, and no later wait blocks.\<close>

lemma no_wait_after_ring:
  assumes "fd \<le> 2147483647" "ring_doorbell (Some d) = Some r"
  shows "fst (wait_doorbell fd t r) = 0"
    and "fst (wait_doorbell fd t (snd (wait_doorbell fd t r))) = 0"
  using assms by (auto simp: ring_doorbell_def wait_doorbell_def)

text \<open>The ticker has a positive period unless the longest wait is one nanosecond.\<close>

lemma max_wait_pos: "0 < max_wait c"
  by (simp add: max_wait_def Let_def)

lemma tick_period_pos: "0 < tick_period c \<longleftrightarrow> max_wait c \<noteq> 1"
  using max_wait_pos [of c] by (simp add: tick_period_def) linarith

lemma one_nanosecond_panics: "tick_period (c\<lparr>cfg_max_wait := ''1ns''\<rparr>) = 0"
  by (simp add: tick_period_def max_wait_def parse_duration_def duration_sum.simps duration_item_def
      item_parts_def item_value_def number_or_0_def unit_letter_def unit_ns_def is_digit_def
      digit_val_def undec_def Let_def)

section \<open>Closing\<close>

lemma life_ok_started: "life_ok started_life"
  by (simp add: life_ok_def started_life_def)

lemma life_ok_step: "life_step s s' \<Longrightarrow> life_ok s \<Longrightarrow> life_ok s'"
  by (induction rule: life_step.induct) (auto simp: life_ok_def split: if_splits; metis closing.distinct)+

lemma life_ok_steps: "life_step\<^sup>*\<^sup>* s s' \<Longrightarrow> life_ok s \<Longrightarrow> life_ok s'"
  by (induction rule: rtranclp_induct) (auto intro: life_ok_step)

text \<open>How far a caller of \<open>Close\<close> has come.\<close>

definition stage :: "closing \<Rightarrow> nat" where
  "stage c = (case c of Not_Closing \<Rightarrow> 0 | Cancelled_Ctx \<Rightarrow> 1 | Shut_Down \<Rightarrow> 2 | Worker_Awaited \<Rightarrow> 3 | Store_Closed \<Rightarrow> 4)"

lemma close_goes_on:
  assumes "life_ok s" "lf_closers s k \<noteq> Store_Closed"
  obtains s' where "life_step\<^sup>*\<^sup>* s s'" "stage (lf_closers s' k) = Suc (stage (lf_closers s k))"
proof (cases "lf_closers s k")
  case Not_Closing
  from cancel [OF this] show ?thesis by (rule that [OF r_into_rtranclp]) (simp add: Not_Closing stage_def)
next
  case Cancelled_Ctx
  from shut [OF this] show ?thesis by (rule that [OF r_into_rtranclp]) (simp add: Cancelled_Ctx stage_def)
next
  case Shut_Down
  define s1 where "s1 = s\<lparr>lf_worker := False\<rparr>"
  have c: "lf_cancelled s" using assms(1) Shut_Down by (auto simp: life_ok_def)
  have "life_step\<^sup>*\<^sup>* s s1"
  proof (cases "lf_worker s")
    case True
    from worker_ends [OF this c] show ?thesis by (simp add: s1_def r_into_rtranclp)
  next
    case False
    then have "s1 = s" by (cases s) (simp add: s1_def)
    then show ?thesis by simp
  qed
  moreover have "life_step s1 (s1\<lparr>lf_closers := (lf_closers s1)(k := Worker_Awaited)\<rparr>)"
    by (rule await) (simp_all add: s1_def Shut_Down)
  ultimately have "life_step\<^sup>*\<^sup>* s (s1\<lparr>lf_closers := (lf_closers s1)(k := Worker_Awaited)\<rparr>)"
    by (rule rtranclp.rtrancl_into_rtrancl)
  then show ?thesis by (rule that) (simp add: Shut_Down stage_def)
next
  case Worker_Awaited
  from close_store [OF this] show ?thesis by (rule that [OF r_into_rtranclp]) (simp add: Worker_Awaited stage_def)
qed (use assms in simp)

lemma stage_4: "stage c = 4 \<longleftrightarrow> c = Store_Closed" "stage c \<le> 4"
  by (cases c; simp add: stage_def)+

lemma close_completes:
  assumes "life_ok s"
  shows "\<exists>s'. life_step\<^sup>*\<^sup>* s s' \<and> lf_closers s' k = Store_Closed"
  using assms
proof (induction "4 - stage (lf_closers s k)" arbitrary: s)
  case 0
  then show ?case using stage_4 [of "lf_closers s k"] by auto
next
  case (Suc n)
  then have "lf_closers s k \<noteq> Store_Closed" by (auto simp: stage_def)
  then obtain s1 where s1: "life_step\<^sup>*\<^sup>* s s1" "stage (lf_closers s1 k) = Suc (stage (lf_closers s k))"
    using close_goes_on Suc.prems by blast
  have "n = 4 - stage (lf_closers s1 k)" using Suc.hyps(2) s1(2) by simp
  from Suc.hyps(1) [OF this life_ok_steps [OF s1(1) Suc.prems]] show ?case
    using s1(1) by (meson rtranclp_trans)
qed

text \<open>
  C14: however the calls of \<open>Close\<close> and the end of the worker interleave, the worker never
  runs on a closed store and ends only after a cancel; a closed store means the HTTP server is
  down and the worker has ended; and every call of \<open>Close\<close> can run to its end, whatever the
  others have done.
\<close>

theorem worker_outlived_by_its_store:
  assumes "life_step\<^sup>*\<^sup>* started_life s"
  shows "(lf_worker s \<longrightarrow> lf_store s) \<and> (\<not> lf_worker s \<longrightarrow> lf_cancelled s)
    \<and> (\<not> lf_store s \<longrightarrow> \<not> lf_http s \<and> \<not> lf_worker s \<and> lf_cancelled s)
    \<and> (\<exists>s'. life_step\<^sup>*\<^sup>* s s' \<and> lf_closers s' k = Store_Closed)"
proof -
  have ok: "life_ok s" by (rule life_ok_steps [OF assms life_ok_started])
  then have "(lf_worker s \<longrightarrow> lf_store s) \<and> (\<not> lf_worker s \<longrightarrow> lf_cancelled s)
    \<and> (\<not> lf_store s \<longrightarrow> \<not> lf_http s \<and> \<not> lf_worker s \<and> lf_cancelled s)"
    unfolding life_ok_def by (metis insertCI)
  with close_completes [OF ok] show ?thesis by blast
qed

theorem worker_outlived_by_its_store_witness:
  "\<exists>s'. life_step\<^sup>*\<^sup>* (started_life\<lparr>lf_cancelled := True, lf_closers := (\<lambda>_. Not_Closing)(1 := Cancelled_Ctx)\<rparr>) s'
    \<and> lf_closers s' 0 = Store_Closed"
proof -
  have "life_step started_life (started_life\<lparr>lf_cancelled := True, lf_closers := (lf_closers started_life)(1 := Cancelled_Ctx)\<rparr>)"
    by (rule cancel) (simp add: started_life_def)
  then have "life_step\<^sup>*\<^sup>* started_life (started_life\<lparr>lf_cancelled := True, lf_closers := (\<lambda>_. Not_Closing)(1 := Cancelled_Ctx)\<rparr>)"
    by (simp add: started_life_def r_into_rtranclp)
  from worker_outlived_by_its_store [OF this, of 0] show ?thesis by blast
qed

section \<open>The worker empties the spool\<close>

lemma q_cfg_commit_all [simp]: "q_cfg (commit_all ops now n results js q) = q_cfg q"
  by (induction js arbitrary: q)
    (simp_all add: commit_def commit_put_def commit_delete_def commit_journal_def on_store_def
      split: prod.splits sum.splits)

lemma q_cfg_run_batch: "q_cfg (run_batch ops now exec lim js q) = q_cfg q"
  by (simp add: run_batch_def Let_def del: commit_all.simps split: limiter.splits)

lemma q_cfg_drain:
  "q_cfg (drain ops now exec [] lim q) = q_cfg q"
  by (simp add: drain_def on_store_def q_cfg_run_batch split: prod.splits sum.splits list.splits)

text \<open>A turn in which nothing interferes: no linger, no cancelled limiter, nobody writes.\<close>

definition plain_turn :: "'s turn \<Rightarrow> bool" where
  "plain_turn t \<longleftrightarrow> tn_polls t = [] \<and> tn_limiter t \<noteq> Limiter_Cancelled \<and> tn_wake t = Wake id"

text \<open>Every result carries the id it was looked up by.\<close>

definition own_results :: "(job list \<Rightarrow> string \<rightharpoonup> jobresult) \<Rightarrow> bool" where
  "own_results exec \<longleftrightarrow> (\<forall>b i r. exec b i = Some r \<longrightarrow> res_id r = i)"

context job_store
begin

lemma drain_empties:
  fixes now :: "string \<Rightarrow> time"
  assumes "quiet (q_store q)" "sound (q_store q)" "0 < cfg_max_batch (q_cfg q)"
    and own: "own_results exec" and lim: "lim \<noteq> Limiter_Cancelled"
    and q': "q' = drain ops now exec [] lim q"
  shows "quiet (q_store q') \<and> sound (q_store q') \<and> q_cfg q' = q_cfg q
    \<and> dom (stored (q_store q')) \<subseteq> dom (stored (q_store q)) \<and> finite (dom (stored (q_store q)))
    \<and> card (dom (stored (q_store q'))) \<le> card (dom (stored (q_store q))) - nat (cfg_max_batch (q_cfg q))
    \<and> dom (answer (q_store q')) = dom (answer (q_store q)) \<union> (dom (stored (q_store q)) - dom (stored (q_store q')))
    \<and> tally q' = tally q + int (card (dom (stored (q_store q))) - card (dom (stored (q_store q'))))"
proof -
  obtain js where js: "list_jobs ops (q_store q) = (Inr js, q_store q)" "distinct (map job_id js)"
    "job_id ` set js = dom (stored (q_store q))"
    using list_jobs_quiet_ids [OF assms(1,2)] by blast
  have fin: "finite (dom (stored (q_store q)))" using js(3) [symmetric] by simp
  have c: "q_cfg q' = q_cfg q" using q_cfg_drain [of ops now exec lim q] q' by simp
  show ?thesis
  proof (cases "js = []")
    case True
    then have "q' = q" using js(1) q' by (simp add: drain_def on_store_def)
    moreover have "dom (stored (q_store q)) = {}" using js(3) True by simp
    ultimately show ?thesis using assms(1,2) fin by simp
  next
    case False
    define b where "b = take (nat (cfg_max_batch (q_cfg q))) js"
    let ?B = "job_id ` set b" and ?D = "dom (stored (q_store q))"
    have d: "quiet (q_store q') \<and> sound (q_store q')
      \<and> stored (q_store q') = (\<lambda>i. if i \<in> ?B then None else stored (q_store q) i)
      \<and> (\<forall>j \<in> set b. answer (q_store q') (job_id j) \<noteq> None)
      \<and> (\<forall>i. i \<notin> ?B \<longrightarrow> answer (q_store q') i = answer (q_store q) i)
      \<and> tally q' = tally q + int (length b)"
      using drain_quiet [where exec = exec and now = now, OF assms(1-3) js(1) False _ lim] own
      unfolding b_def [symmetric] Let_def q' [symmetric] own_results_def by simp
    have sub: "?B \<subseteq> ?D" using js(3) unfolding b_def by (metis image_mono set_take_subset)
    have "distinct (map job_id b)" using js(2) by (simp add: b_def distinct_take flip: take_map)
    then have lb: "card ?B = length b" using distinct_card [of "map job_id b"] by simp
    have ld: "card ?D = length js" using distinct_card [OF js(2)] js(3) by simp
    have dom: "dom (stored (q_store q')) = ?D - ?B" using d by (auto split: if_splits)
    then have cd: "card (dom (stored (q_store q'))) = length js - length b"
      using card_Diff_subset [OF _ sub] lb ld by simp
    have ans: "dom (answer (q_store q')) = dom (answer (q_store q)) \<union> ?B"
    proof (intro set_eqI iffI)
      fix i
      assume i: "i \<in> dom (answer (q_store q'))"
      show "i \<in> dom (answer (q_store q)) \<union> ?B"
      proof (cases "i \<in> ?B")
        case False
        then have "answer (q_store q') i = answer (q_store q) i" using d by blast
        then show ?thesis using i by auto
      qed simp
    next
      fix i
      assume i: "i \<in> dom (answer (q_store q)) \<union> ?B"
      show "i \<in> dom (answer (q_store q'))"
      proof (cases "i \<in> ?B")
        case True
        then show ?thesis using d by auto
      next
        case False
        then have "answer (q_store q') i = answer (q_store q) i" using d by blast
        then show ?thesis using i False by auto
      qed
    qed
    have "length b = min (nat (cfg_max_batch (q_cfg q))) (length js)" by (simp add: b_def min.commute)
    then have "card (dom (stored (q_store q'))) \<le> card ?D - nat (cfg_max_batch (q_cfg q))"
      "card ?D - card (dom (stored (q_store q'))) = length b"
      using cd ld by (auto simp: min_def)
    moreover have "dom (stored (q_store q')) \<subseteq> ?D" "?D - dom (stored (q_store q')) = ?B"
      using dom sub by auto
    moreover have "quiet (q_store q')" "sound (q_store q')" "tally q' = tally q + int (length b)"
      using d by auto
    ultimately show ?thesis using c fin ans by simp
  qed
qed

lemma work_empties:
  assumes "quiet (q_store q)" "sound (q_store q)" "0 < cfg_max_batch (q_cfg q)"
    and own: "own_results exec" and "list_all plain_turn ts"
    and "card (dom (stored (q_store q))) \<le> nat (cfg_max_batch (q_cfg q)) * length ts"
  shows "case work ops exec ts q of (running, q') \<Rightarrow> running \<and> stored (q_store q') = (\<lambda>_. None)
    \<and> dom (answer (q_store q')) = dom (answer (q_store q)) \<union> dom (stored (q_store q))
    \<and> tally q' = tally q + int (card (dom (stored (q_store q))))"
  using assms(1-3,5,6)
proof (induction ts arbitrary: q)
  case Nil
  obtain js where "list_jobs ops (q_store q) = (Inr js, q_store q)" "distinct (map job_id js)"
    and d: "job_id ` set js = dom (stored (q_store q))"
    by (rule list_jobs_quiet_ids [OF Nil.prems(1,2)])
  from d [symmetric] have "finite (dom (stored (q_store q)))" by simp
  with Nil have "stored (q_store q) = (\<lambda>_. None)" by simp
  then show ?case by simp
next
  case (Cons t ts)
  have p: "tn_polls t = []" "tn_limiter t \<noteq> Limiter_Cancelled" "tn_wake t = Wake id"
    using Cons.prems(4) by (simp_all add: plain_turn_def)
  define q1 where "q1 = drain ops (tn_now t) exec [] (tn_limiter t) q"
  note d = drain_empties [OF Cons.prems(1-3) own p(2) q1_def]
  have w: "work ops exec (t # ts) q = work ops exec ts q1" using p by (simp add: q1_def)
  have "card (dom (stored (q_store q1))) \<le> nat (cfg_max_batch (q_cfg q1)) * length ts"
    using d Cons.prems(5) by (simp only: length_Cons mult_Suc_right) linarith
  then have "case work ops exec ts q1 of (running, q') \<Rightarrow> running \<and> stored (q_store q') = (\<lambda>_. None)
    \<and> dom (answer (q_store q')) = dom (answer (q_store q1)) \<union> dom (stored (q_store q1))
    \<and> tally q' = tally q1 + int (card (dom (stored (q_store q1))))"
    using d Cons.prems(3,4) by (intro Cons.IH) simp_all
  moreover have "card (dom (stored (q_store q1))) \<le> card (dom (stored (q_store q)))"
    using d card_mono by blast
  moreover have "dom (answer (q_store q1)) \<union> dom (stored (q_store q1)) = dom (answer (q_store q)) \<union> dom (stored (q_store q))"
    using d by blast
  moreover have "tally q1 = tally q + int (card (dom (stored (q_store q))) - card (dom (stored (q_store q1))))"
    using d by blast
  ultimately show ?case unfolding w by (simp add: of_nat_diff split: prod.splits)
qed

end


definition sample_turn :: "file_store turn" where
  "sample_turn = \<lparr>tn_now = (\<lambda>_. 9), tn_polls = [], tn_limiter = Limiter_Waited 0, tn_wake = Wake id\<rparr>"


end
