(* ===== verification/BridgeLife.thy ===== *)
theory BridgeLife
  imports StdioBridge ProjectRoutes
begin

text \<open>
  The life of a stdio bridge (\<open>internal/bridge/bridge.go\<close>): the pipes, the child, the
  handshake, the listener, the child's log and \<open>Close\<close>, and the start of all skills of a cluster
  (\<open>internal/demo/bridges.go\<close>). The search path, pipes, the spawn, the log file, the listener
  and what the child answers are the host.
\<close>

section \<open>The host\<close>

text \<open>The address of a listener: TCP, or the text of another kind.\<close>

datatype net_addr = Tcp_Addr nat | Named_Addr string

definition tcp_port :: "net_addr \<Rightarrow> int" where
  "tcp_port a =
     (case a of
        Tcp_Addr p \<Rightarrow> int p
      | Named_Addr s \<Rightarrow>
          (case split_host_port s of
             Inl _ \<Rightarrow> 0
           | Inr (_, p) \<Rightarrow> (case atoi p of None \<Rightarrow> 0 | Some n \<Rightarrow> n)))"

text \<open>How one exchange with the child goes: the pipe is broken, or what ends the wait.\<close>

datatype exchange = Pipe_Broken | Answered wake

record bridge_host =
  bh_look :: "string \<Rightarrow> string option"
  bh_pipes :: nat
  bh_spawn :: bool
  bh_log :: "string \<Rightarrow> bool"
  bh_init :: exchange
  bh_notified :: bool
  bh_tools :: exchange
  bh_listen :: "string \<Rightarrow> net_addr option"
  bh_term :: bool
  bh_kill :: bool

datatype pipe_end = In_R | In_W | Out_R | Out_W | Err_R | Err_W

text \<open>The child: signalled but not waited for, waited for, or beyond both signals.\<close>

datatype child = No_Child | Running | Signalled | Reaped | Stuck

record bridge_life =
  bl_bridge :: bridge
  bl_ends :: "pipe_end list"
  bl_child :: child
  bl_log :: "string option"
  bl_serving :: bool
  bl_url :: string
  bl_done :: bool
  bl_closed :: bool

datatype start_err =
    Nameless
  | Commandless string
  | Bad_Timeout string
  | Not_Found_Command string
  | No_Pipe string
  | No_Environment bridge_err
  | Spawn_Failed string
  | Log_Unopened string
  | Init_Failed call_err
  | Not_Notified
  | Tools_Failed
  | Listen_Failed string
  | No_Tcp_Port

section \<open>Exchanges with the child\<close>

definition bridge_call ::
    "string \<Rightarrow> json option \<Rightarrow> exchange \<Rightarrow> bridge \<Rightarrow> (call_err, json option) res \<times> bridge" where
  "bridge_call meth params x b =
     (case x of
        Pipe_Broken \<Rightarrow> (let (key, _, b1) = call_begin meth params (b\<lparr>b_broken := True\<rparr>) in call_failed_write key b1)
      | Answered w \<Rightarrow>
          (let (key, ok, b1) = call_begin meth params b in
           if ok then call_end key w b1 else call_failed_write key b1))"

definition notify :: "string \<Rightarrow> json option \<Rightarrow> bool \<Rightarrow> bridge \<Rightarrow> bool \<times> bridge" where
  "notify meth params ok b =
     write_message (plain_message\<lparr>rm_method := meth, rm_params := params\<rparr>) (if ok then b else b\<lparr>b_broken := True\<rparr>)"

definition init_params :: json where
  "init_params = JObj [(''protocolVersion'', JStr ''2025-06-18''), (''capabilities'', JObj []),
     (''clientInfo'', JObj [(''name'', JStr ''lezz-bridge''), (''version'', JStr ''0.1.0'')])]"

text \<open>The names in the answer to \<open>tools/list\<close>; \<open>None\<close> is a decoding error.\<close>

fun tool_names :: "json list \<Rightarrow> string list option" where
  "tool_names [] = Some []"
| "tool_names (t # ts) =
     (case decode_string_field ''name'' t of
        None \<Rightarrow> None
      | Some n \<Rightarrow> map_option (Cons n) (tool_names ts))"

fun tools_field :: "(string \<times> json) list \<Rightarrow> json list \<Rightarrow> json list option" where
  "tools_field [] acc = Some acc"
| "tools_field ((k, v) # kvs) acc =
     (if same_field k ''tools'' then
        (case v of JNull \<Rightarrow> tools_field kvs [] | JArr ts \<Rightarrow> tools_field kvs ts | _ \<Rightarrow> None)
      else tools_field kvs acc)"

definition decode_tools :: "json option \<Rightarrow> string list option" where
  "decode_tools r =
     (case r of
        Some JNull \<Rightarrow> Some []
      | Some (JObj kvs) \<Rightarrow> (case tools_field kvs [] of None \<Rightarrow> None | Some ts \<Rightarrow> tool_names ts)
      | _ \<Rightarrow> None)"

definition list_tools :: "exchange \<Rightarrow> bridge \<Rightarrow> string list option \<times> bridge" where
  "list_tools x b =
     (case bridge_call ''tools/list'' (Some (JObj [])) x b of
        (Inl _, b') \<Rightarrow> (None, b')
      | (Inr r, b') \<Rightarrow> (decode_tools r, b'))"

section \<open>Close\<close>

text \<open>
  Shutting the server down, closing the child's input, SIGTERM and a wait of five seconds, then
  SIGKILL and a wait of two; all of it once.
\<close>

definition close_bridge :: "bridge_host \<Rightarrow> bridge_life \<Rightarrow> bridge_life" where
  "close_bridge h l =
     (if bl_closed l then l
      else l\<lparr>bl_closed := True, bl_serving := False, bl_ends := filter (\<lambda>e. e \<noteq> In_W) (bl_ends l),
        bl_child := (if bl_child l = Reaped \<or> bh_term h \<or> bh_kill h then Reaped else Stuck),
        bl_bridge := (bl_bridge l)\<lparr>b_exited := True\<rparr>, bl_done := True, bl_log := None\<rparr>)"

text \<open>The child ends by itself: \<open>Wait\<close> returns and \<open>readLoop\<close> reaches the end of its output.\<close>

definition child_gone :: "bridge_life \<Rightarrow> bridge_life" where
  "child_gone l = l\<lparr>bl_child := Reaped, bl_bridge := snd (read_loop_end (bl_bridge l)), bl_done := True\<rparr>"

section \<open>Start\<close>

definition bridge_timeout :: "bridge_config \<Rightarrow> duration option" where
  "bridge_timeout c = (if bc_timeout c = [] then Some (120 * second) else parse_duration (bc_timeout c))"

definition new_bridge :: "bridge_config \<Rightarrow> bridge" where
  "new_bridge c = \<lparr>b_cfg = c, b_pending = (\<lambda>_. None), b_next_id = 0, b_exited = False,
     b_initialized = False, b_init_result = JNull, b_written = [], b_broken = False\<rparr>"

definition new_life :: "bridge_config \<Rightarrow> bridge_life" where
  "new_life c = \<lparr>bl_bridge = new_bridge c, bl_ends = [], bl_child = No_Child, bl_log = None,
     bl_serving = False, bl_url = [], bl_done = False, bl_closed = False\<rparr>"

text \<open>The three pipes; the ends of those made are closed again when the next one fails.\<close>

definition open_pipes :: "bridge_host \<Rightarrow> bridge_life \<Rightarrow> (start_err, unit) res \<times> bridge_life" where
  "open_pipes h l =
     (if bh_pipes h < 1 then (Inl (No_Pipe ''stdin''), l)
      else if bh_pipes h < 2 then (Inl (No_Pipe ''stdout''), l\<lparr>bl_ends := []\<rparr>)
      else if bh_pipes h < 3 then (Inl (No_Pipe ''stderr''), l\<lparr>bl_ends := []\<rparr>)
      else (Inr (), l\<lparr>bl_ends := [In_R, In_W, Out_R, Out_W, Err_R, Err_W]\<rparr>))"

definition spawn_child ::
    "bridge_host \<Rightarrow> (string \<rightharpoonup> string) \<Rightarrow> (string \<Rightarrow> string option) option \<Rightarrow> bridge_config \<Rightarrow> bridge_life
     \<Rightarrow> (start_err, unit) res \<times> bridge_life" where
  "spawn_child h env resolve c l =
     (case spawn_env env resolve c of
        Inl e \<Rightarrow> (Inl (No_Environment e), l\<lparr>bl_ends := []\<rparr>)
      | Inr _ \<Rightarrow>
          if \<not> bh_spawn h then (Inl (Spawn_Failed (bc_command c)), l\<lparr>bl_ends := []\<rparr>)
          else (Inr (), l\<lparr>bl_ends := [In_W, Out_R, Err_R], bl_child := Running\<rparr>))"

text \<open>\<open>killGroup\<close> without a wait.\<close>

definition kill_group :: "bridge_life \<Rightarrow> bridge_life" where
  "kill_group l = l\<lparr>bl_child := (if bl_child l = Running then Signalled else bl_child l)\<rparr>"

definition open_log :: "bridge_host \<Rightarrow> string \<Rightarrow> bridge_life \<Rightarrow> (start_err, unit) res \<times> bridge_life" where
  "open_log h path l =
     (if path = [] then (Inr (), l)
      else if bh_log h path then (Inr (), l\<lparr>bl_log := Some path\<rparr>)
      else (Inl (Log_Unopened path), kill_group l))"

text \<open>\<open>initialize\<close>, the notification and \<open>tools/list\<close>; every failure closes the bridge.\<close>

definition handshake :: "bridge_host \<Rightarrow> bridge_life \<Rightarrow> (start_err, unit) res \<times> bridge_life" where
  "handshake h l =
     (case bridge_call ''initialize'' (Some init_params) (bh_init h) (bl_bridge l) of
        (Inl e, b1) \<Rightarrow> (Inl (Init_Failed e), close_bridge h (l\<lparr>bl_bridge := b1\<rparr>))
      | (Inr r, b1) \<Rightarrow>
          (case notify ''notifications/initialized'' (Some (JObj [])) (bh_notified h)
                  (b1\<lparr>b_init_result := (case r of None \<Rightarrow> JObj [] | Some v \<Rightarrow> v), b_initialized := True\<rparr>) of
             (False, b2) \<Rightarrow> (Inl Not_Notified, close_bridge h (l\<lparr>bl_bridge := b2\<rparr>))
           | (True, b2) \<Rightarrow>
               (case list_tools (bh_tools h) b2 of
                  (None, b3) \<Rightarrow> (Inl Tools_Failed, close_bridge h (l\<lparr>bl_bridge := b3\<rparr>))
                | (Some _, b3) \<Rightarrow> (Inr (), l\<lparr>bl_bridge := b3\<rparr>))))"

definition bridge_listen :: "bridge_config \<Rightarrow> string" where
  "bridge_listen c = (if bc_listen c = [] then ''127.0.0.1:0'' else bc_listen c)"

definition serve :: "bridge_host \<Rightarrow> bridge_config \<Rightarrow> bridge_life \<Rightarrow> (start_err, unit) res \<times> bridge_life" where
  "serve h c l =
     (case bh_listen h (bridge_listen c) of
        None \<Rightarrow> (Inl (Listen_Failed (bridge_listen c)), close_bridge h l)
      | Some a \<Rightarrow>
          if tcp_port a = 0 then (Inl No_Tcp_Port, close_bridge h l)
          else (Inr (), l\<lparr>bl_serving := True,
                 bl_url := ''http://127.0.0.1:'' @ dec_int (tcp_port a) @ ''/mcp''\<rparr>))"

definition start_bridge ::
    "bridge_host \<Rightarrow> (string \<rightharpoonup> string) \<Rightarrow> (string \<Rightarrow> string option) option \<Rightarrow> string \<Rightarrow> bridge_config
     \<Rightarrow> (start_err, unit) res \<times> bridge_life" where
  "start_bridge h env resolve logp c =
     (let l = new_life c in
      if trim_space (bc_name c) = [] then (Inl Nameless, l)
      else if trim_space (bc_command c) = [] then (Inl (Commandless (bc_name c)), l)
      else if bridge_timeout c = None then (Inl (Bad_Timeout (bc_name c)), l)
      else if bh_look h (bc_command c) = None then (Inl (Not_Found_Command (bc_command c)), l)
      else
        next_do (open_pipes h l) (\<lambda>_ l.
        next_do (spawn_child h env resolve c l) (\<lambda>_ l.
        next_do (open_log h logp l) (\<lambda>_ l.
        next_do (handshake h l) (\<lambda>_ l. serve h c l)))))"

section \<open>The log and the status\<close>

definition trim_newlines :: "string \<Rightarrow> string" where
  "trim_newlines s = rev (dropWhile (\<lambda>c. c = CHR 0x0A) (rev s))"

text \<open>\<open>tailLog\<close>; the file is read by name, so it works after the bridge was closed.\<close>

definition tail_log :: "string \<Rightarrow> string option \<Rightarrow> (string \<Rightarrow> string option) \<Rightarrow> string" where
  "tail_log name logp read =
     (if name = [] then []
      else
        case logp of
          None \<Rightarrow> []
        | Some p \<Rightarrow>
            (case read p of
               None \<Rightarrow> []
             | Some d \<Rightarrow>
                 let lines = split_at (CHR 0x0A) (trim_newlines d) in
                 [CHR 0x0A] @ ''--- bridge log ---'' @ [CHR 0x0A] @
                   join [CHR 0x0A] (drop (length lines - 8) lines)))"

record status_page =
  sp_name :: string
  sp_url :: string
  sp_command :: string
  sp_args :: "string list"
  sp_pid :: nat
  sp_alive :: bool
  sp_tools :: "string list option"
  sp_allowed :: "string list"

definition bridge_status :: "nat \<Rightarrow> exchange \<Rightarrow> bridge_life \<Rightarrow> status_page \<times> bridge_life" where
  "bridge_status pid x l =
     (let (tools, b) = list_tools x (bl_bridge l); c = b_cfg (bl_bridge l) in
      (\<lparr>sp_name = bc_name c, sp_url = bl_url l, sp_command = bc_command c, sp_args = bc_args c,
        sp_pid = pid, sp_alive = alive b, sp_tools = tools, sp_allowed = bc_allowed c\<rparr>,
       l\<lparr>bl_bridge := b\<rparr>))"

section \<open>All skills of a cluster\<close>

definition bridge_override_dir :: "string option \<Rightarrow> string" where
  "bridge_override_dir home = (case home of None \<Rightarrow> [] | Some d \<Rightarrow> join_path [d, ''.lezz'', ''lab'', ''bridges''])"

definition started_bridge ::
    "(string \<Rightarrow> bridge_host) \<Rightarrow> (string \<rightharpoonup> string) \<Rightarrow> (string \<Rightarrow> string option) option \<Rightarrow> string \<Rightarrow> bridge_config
     \<Rightarrow> bridge_life option" where
  "started_bridge h env resolve logdir c =
     (case start_bridge (h (bc_name c)) env resolve (join_path [logdir, ''bridge-'' @ bc_name c @ ''.log'']) c of
        (Inl _, _) \<Rightarrow> None | (Inr _, l) \<Rightarrow> Some l)"

text \<open>\<open>startBridges\<close>: the configurations, then every bridge; a failure closes those started.\<close>

datatype skills_err = Configs_Failed bridge_err | Skill_Failed bridge_start_err

definition start_skills ::
    "(string \<Rightarrow> bridge_host) \<Rightarrow> (string \<rightharpoonup> string) \<Rightarrow> (string \<Rightarrow> string option) option \<Rightarrow> string
     \<Rightarrow> bridge_config list \<Rightarrow> override_file list \<Rightarrow> (string \<Rightarrow> string option) \<Rightarrow> (string \<Rightarrow> seed_read) \<Rightarrow> project_routes
     \<Rightarrow> (skills_err, bridge_life running_bridge list) res \<times> bridge_life list \<times> project_routes" where
  "start_skills h env resolve logdir embedded files mint seeds r =
     (case load_configs env embedded files of
        Inl e \<Rightarrow> (Inl (Configs_Failed e), [], r)
      | Inr cs \<Rightarrow>
          (case start_bridges_from (started_bridge h env resolve logdir) mint seeds cs [] r of
             (Inl e, out, r') \<Rightarrow>
               (Inl (Skill_Failed e), map (\<lambda>b. close_bridge (h (bc_name (rb_cfg b))) (rb_bridge b)) out, r')
           | (Inr bs, _, r') \<Rightarrow> (Inr bs, [], r')))"

section \<open>What a start leaves behind\<close>

lemma write_message_keeps:
  "write_message m b = (ok, b') \<Longrightarrow> b_exited b' = b_exited b \<and> b_initialized b' = b_initialized b
    \<and> b_pending b' = b_pending b \<and> b_next_id b' = b_next_id b \<and> b_broken b' = b_broken b
    \<and> b_init_result b' = b_init_result b \<and> b_cfg b' = b_cfg b
    \<and> b_written b' = b_written b @ (if ok then [m] else [])"
  by (auto simp: write_message_def split: if_splits)

text \<open>A call that is answered has written one request with the next number and waits no more.\<close>

definition request :: "nat \<Rightarrow> string \<Rightarrow> json option \<Rightarrow> rpc_message" where
  "request n meth params = plain_message\<lparr>rm_id := Some (dec n), rm_method := meth, rm_params := params\<rparr>"

lemma bridge_call_flags:
  "b_exited (snd (bridge_call meth params x b)) = b_exited b"
  "b_initialized (snd (bridge_call meth params x b)) = b_initialized b"
  by (simp_all add: bridge_call_def call_begin_def call_end_def call_failed_write_def write_message_def Let_def
      split: exchange.splits prod.splits wake.splits option.splits)

lemma bridge_call_Inr:
  assumes "bridge_call meth params x b = (Inr r, b')" "b_pending b = (\<lambda>_. None)" "b_next_id b + 1 < 2 ^ 64"
  shows "b' = b\<lparr>b_next_id := b_next_id b + 1, b_written := b_written b @ [request (b_next_id b + 1) meth params]\<rparr>
    \<and> b_broken b' = b_broken b \<and> (\<exists>m. x = Answered (Woken m) \<and> rm_error m = None \<and> rm_result m = r)"
proof (cases x)
  case Pipe_Broken
  then show ?thesis using assms(1) by (simp add: bridge_call_def call_failed_write_def split: prod.splits)
next
  case (Answered w)
  have n: "(b_next_id b + 1) mod 2 ^ 64 = b_next_id b + 1" using assms(3) by (rule mod_less)
  have c: "call_begin meth params b = (dec (b_next_id b + 1), \<not> b_broken b,
      b\<lparr>b_next_id := b_next_id b + 1, b_pending := (b_pending b)(dec (b_next_id b + 1) \<mapsto> None),
        b_written := b_written b @ (if b_broken b then [] else [request (b_next_id b + 1) meth params])\<rparr>)"
    unfolding call_begin_def n Let_def by (simp add: write_message_def request_def)
  have e: "(\<lambda>_. None)(k := None) = (\<lambda>_. None)" "((\<lambda>_. None)(k \<mapsto> v))(k := None) = (\<lambda>_. None)" for k :: string and v
    by auto
  from assms(1,2) show ?thesis
    unfolding bridge_call_def Answered c
    by (cases b) (auto simp: call_end_def call_failed_write_def Let_def e
        split: if_splits wake.splits option.splits)
qed

lemma close_bridge_ends:
  assumes "\<not> bl_closed l"
  shows "\<not> bl_serving (close_bridge h l)" "bl_log (close_bridge h l) = None" "bl_closed (close_bridge h l)"
    "In_W \<notin> set (bl_ends (close_bridge h l))" "bl_child (close_bridge h l) \<noteq> No_Child"
    "bl_child l \<noteq> Reaped \<Longrightarrow> bl_child (close_bridge h l) = (if bh_term h \<or> bh_kill h then Reaped else Stuck)"
  using assms by (simp_all add: close_bridge_def)

text \<open>What a failure leaves: nothing when there was no child, and a closed bridge when there was.\<close>

definition left_clean :: "bridge_host \<Rightarrow> bridge_life \<Rightarrow> bool" where
  "left_clean h l \<longleftrightarrow> (if bl_child l = No_Child then bl_ends l = [] \<and> \<not> bl_closed l
     else bl_closed l \<and> In_W \<notin> set (bl_ends l) \<and> bl_child l = (if bh_term h \<or> bh_kill h then Reaped else Stuck))"

definition up :: "bridge_life \<Rightarrow> bool" where
  "up l \<longleftrightarrow> bl_child l = Running \<and> \<not> bl_closed l \<and> \<not> bl_serving l \<and> \<not> b_exited (bl_bridge l)"

lemma closed_clean: "up l \<Longrightarrow> left_clean h (close_bridge h (l\<lparr>bl_bridge := b\<rparr>))
    \<and> \<not> bl_serving (close_bridge h (l\<lparr>bl_bridge := b\<rparr>)) \<and> bl_log (close_bridge h (l\<lparr>bl_bridge := b\<rparr>)) = None"
  by (simp add: up_def left_clean_def close_bridge_def)

lemma handshake_ends:
  assumes "up l"
  shows "case handshake h l of
      (Inl _, l') \<Rightarrow> left_clean h l' \<and> \<not> bl_serving l' \<and> bl_log l' = None
    | (Inr _, l') \<Rightarrow> up l' \<and> b_initialized (bl_bridge l') \<and> l' = l\<lparr>bl_bridge := bl_bridge l'\<rparr>"
proof -
  obtain r1 b1 where c1: "bridge_call ''initialize'' (Some init_params) (bh_init h) (bl_bridge l) = (r1, b1)" by fastforce
  show ?thesis
  proof (cases r1)
    case (Inl e)
    then show ?thesis using closed_clean [OF assms, of h b1] c1 by (simp add: handshake_def)
  next
    case (Inr r)
    let ?b = "b1\<lparr>b_init_result := (case r of None \<Rightarrow> JObj [] | Some v \<Rightarrow> v), b_initialized := True\<rparr>"
    obtain ok b2 where n: "notify ''notifications/initialized'' (Some (JObj [])) (bh_notified h) ?b = (ok, b2)" by fastforce
    have k2: "b_exited b2 = b_exited b1" "b_initialized b2"
      using write_message_keeps [OF n [unfolded notify_def]] by (auto split: if_splits)
    show ?thesis
    proof (cases ok)
      case False
      then show ?thesis using closed_clean [OF assms, of h b2] c1 Inr n by (simp add: handshake_def)
    next
      case True
      obtain ts b3 where l3: "list_tools (bh_tools h) b2 = (ts, b3)" by fastforce
      have k3: "b_exited b3 = b_exited b2" "b_initialized b3 = b_initialized b2"
        using l3 bridge_call_flags [of "''tools/list''" "Some (JObj [])" "bh_tools h" b2]
        by (auto simp: list_tools_def split: prod.splits sum.splits)
      have "b_exited b1 = b_exited (bl_bridge l)"
        using bridge_call_flags(1) [of "''initialize''" "Some init_params" "bh_init h" "bl_bridge l"] c1 by simp
      then show ?thesis
        using closed_clean [OF assms, of h b3] assms c1 Inr n True l3 k2 k3
        by (cases ts) (simp_all add: handshake_def up_def)
    qed
  qed
qed

definition start_contract :: "bridge_host \<Rightarrow> string \<Rightarrow> (start_err, unit) res \<times> bridge_life \<Rightarrow> bool" where
  "start_contract h logp p =
     (case p of
        (Inl e, l) \<Rightarrow> \<not> bl_serving l \<and> bl_log l = None
          \<and> (if e = Log_Unopened logp then bl_child l = Signalled \<and> bl_ends l = [In_W, Out_R, Err_R] else left_clean h l)
      | (Inr _, l) \<Rightarrow> bl_serving l \<and> \<not> bl_closed l \<and> bl_child l = Running \<and> alive (bl_bridge l)
          \<and> bl_ends l = [In_W, Out_R, Err_R] \<and> bl_log l = (if logp = [] then None else Some logp))"

definition spawned :: "bridge_config \<Rightarrow> bridge_life" where
  "spawned c = (new_life c)\<lparr>bl_ends := [In_W, Out_R, Err_R], bl_child := Running\<rparr>"

lemma start_after_spawn:
  "start_contract h logp (next_do (open_log h logp (spawned c)) (\<lambda>_ l. next_do (handshake h l) (\<lambda>_ l. serve h c l)))"
proof (cases "logp \<noteq> [] \<and> \<not> bh_log h logp")
  case True
  then show ?thesis by (simp add: open_log_def kill_group_def spawned_def new_life_def start_contract_def)
next
  case False
  define l2 where "l2 = (spawned c)\<lparr>bl_log := (if logp = [] then None else Some logp)\<rparr>"
  have o: "open_log h logp (spawned c) = (Inr (), l2)"
    using False by (auto simp: open_log_def l2_def spawned_def new_life_def)
  have up: "up l2" by (simp add: up_def l2_def spawned_def new_life_def new_bridge_def)
  obtain r l3 where k: "handshake h l2 = (r, l3)" by fastforce
  note hs = handshake_ends [OF up, of h, unfolded k]
  show ?thesis
  proof (cases r)
    case (Inl e)
    then have "e \<noteq> Log_Unopened logp"
      using k by (auto simp: handshake_def split: prod.splits sum.splits bool.splits option.splits)
    then show ?thesis using hs Inl by (simp add: o k start_contract_def)
  next
    case (Inr u)
    then have l3: "up l3" "b_initialized (bl_bridge l3)" "l3 = l2\<lparr>bl_bridge := bl_bridge l3\<rparr>"
      using hs by auto
    have f: "bl_log l3 = (if logp = [] then None else Some logp)" "bl_ends l3 = [In_W, Out_R, Err_R]"
      by (subst l3(3), simp add: l2_def spawned_def)+
    have "next_do (open_log h logp (spawned c)) (\<lambda>_ l. next_do (handshake h l) (\<lambda>_ l. serve h c l)) = serve h c l3"
      by (simp add: o k Inr)
    then show ?thesis
      using l3(1,2) f closed_clean [OF l3(1), of h "bl_bridge l3"]
      by (auto simp: serve_def start_contract_def up_def alive_def split: option.splits)
  qed
qed

lemma start_bridge_ends: "start_contract h logp (start_bridge h env resolve logp c)"
proof (cases "trim_space (bc_name c) = [] \<or> trim_space (bc_command c) = [] \<or> bridge_timeout c = None
    \<or> bh_look h (bc_command c) = None \<or> bh_pipes h < 3")
  case True
  then show ?thesis
    by (auto simp: start_bridge_def start_contract_def open_pipes_def new_life_def left_clean_def Let_def)
next
  case False
  let ?l = "(new_life c)\<lparr>bl_ends := [In_R, In_W, Out_R, Out_W, Err_R, Err_W]\<rparr>"
  have go: "start_bridge h env resolve logp c = next_do (spawn_child h env resolve c ?l)
      (\<lambda>_ l. next_do (open_log h logp l) (\<lambda>_ l. next_do (handshake h l) (\<lambda>_ l. serve h c l)))"
    using False by (auto simp: start_bridge_def open_pipes_def Let_def)
  show ?thesis
  proof (cases "is_ok (spawn_env env resolve c) \<and> bh_spawn h")
    case False
    then show ?thesis unfolding go
      by (auto simp: spawn_child_def start_contract_def new_life_def left_clean_def is_ok_def split: sum.splits)
  next
    case True
    then have "spawn_child h env resolve c ?l = (Inr (), spawned c)"
      by (auto simp: spawn_child_def spawned_def is_ok_iff)
    then show ?thesis unfolding go using start_after_spawn [of h logp c] by simp
  qed
qed

text \<open>
  C33: a bridge that starts serves, with its child running and initialized. One that fails to
  start serves nothing and holds no log; its child was never started, with every pipe closed
  again, or was signalled and waited for. The only exception is a log file that does not open:
  there the child is signalled but nobody waits for it, and its pipes stay open.
\<close>

theorem failed_start_leaves_nothing:
  "case start_bridge h env resolve logp c of
     (Inr _, l) \<Rightarrow> bl_serving l \<and> alive (bl_bridge l) \<and> bl_child l = Running
   | (Inl e, l) \<Rightarrow> \<not> bl_serving l \<and> bl_log l = None
       \<and> (if e = Log_Unopened logp then bl_child l = Signalled \<and> bl_ends l = [In_W, Out_R, Err_R]
          else if bl_child l = No_Child then bl_ends l = []
          else bl_closed l \<and> In_W \<notin> set (bl_ends l)
            \<and> bl_child l = (if bh_term h \<or> bh_kill h then Reaped else Stuck))"
  using start_bridge_ends [of h logp env resolve c]
  by (auto simp: start_contract_def left_clean_def split: prod.splits sum.splits if_splits)

section \<open>The handshake\<close>

lemma handshake_Inr:
  assumes "handshake h l = (Inr u, l')" "bl_bridge l = new_bridge c"
  obtains m where "bh_init h = Answered (Woken m)" "rm_error m = None"
    "bl_bridge l' = (new_bridge c)\<lparr>b_next_id := 2, b_initialized := True,
       b_init_result := (case rm_result m of None \<Rightarrow> JObj [] | Some v \<Rightarrow> v),
       b_written := [request 1 ''initialize'' (Some init_params),
         plain_message\<lparr>rm_method := ''notifications/initialized'', rm_params := Some (JObj [])\<rparr>,
         request 2 ''tools/list'' (Some (JObj []))]\<rparr>"
proof -
  from assms(1) obtain r b1 b2 b3 ts
    where c1: "bridge_call ''initialize'' (Some init_params) (bh_init h) (bl_bridge l) = (Inr r, b1)"
      and n: "notify ''notifications/initialized'' (Some (JObj [])) (bh_notified h)
        (b1\<lparr>b_init_result := (case r of None \<Rightarrow> JObj [] | Some v \<Rightarrow> v), b_initialized := True\<rparr>) = (True, b2)"
      and t: "list_tools (bh_tools h) b2 = (Some ts, b3)" and l': "l' = l\<lparr>bl_bridge := b3\<rparr>"
    by (auto simp: handshake_def split: prod.splits sum.splits bool.splits option.splits)
  have p0: "b_pending (bl_bridge l) = (\<lambda>_. None)" "b_next_id (bl_bridge l) + 1 < 2 ^ 64"
    by (simp_all add: assms(2) new_bridge_def)
  obtain m where b1: "b1 = (new_bridge c)\<lparr>b_next_id := 1, b_written := [request 1 ''initialize'' (Some init_params)]\<rparr>"
    and m: "bh_init h = Answered (Woken m)" "rm_error m = None" "rm_result m = r"
    using bridge_call_Inr [OF c1 p0] by (auto simp: assms(2) new_bridge_def)
  have b2: "b2 = b1\<lparr>b_init_result := (case r of None \<Rightarrow> JObj [] | Some v \<Rightarrow> v), b_initialized := True,
      b_written := b_written b1 @ [plain_message\<lparr>rm_method := ''notifications/initialized'', rm_params := Some (JObj [])\<rparr>]\<rparr>"
    using n by (auto simp: notify_def write_message_def b1 new_bridge_def split: if_splits)
  obtain r2 where c2: "bridge_call ''tools/list'' (Some (JObj [])) (bh_tools h) b2 = (Inr r2, b3)"
    using t by (auto simp: list_tools_def split: prod.splits sum.splits)
  have p2: "b_pending b2 = (\<lambda>_. None)" "b_next_id b2 + 1 < 2 ^ 64"
    by (simp_all add: b2 b1 new_bridge_def)
  have "b3 = b2\<lparr>b_next_id := b_next_id b2 + 1,
      b_written := b_written b2 @ [request (b_next_id b2 + 1) ''tools/list'' (Some (JObj []))]\<rparr>"
    using bridge_call_Inr [OF c2 p2] by blast
  then show thesis
    using that [OF m(1,2)] m(3) by (simp add: l' b2 b1 new_bridge_def numeral_2_eq_2)
qed

text \<open>
  A bridge serves only after the whole handshake: the child has been sent \<open>initialize\<close>,
  the notification and \<open>tools/list\<close>, in this order and under distinct numbers, has answered the
  first without an error, no call is left pending, and clients that initialize are given what
  the child answered.
\<close>

theorem handshake_before_serving:
  assumes "start_bridge h env resolve logp c = (Inr u, l)"
  shows "map rm_method (b_written (bl_bridge l)) = [''initialize'', ''notifications/initialized'', ''tools/list'']
    \<and> map rm_id (b_written (bl_bridge l)) = [Some (dec 1), None, Some (dec 2)]
    \<and> b_pending (bl_bridge l) = (\<lambda>_. None)
    \<and> (\<exists>m. bh_init h = Answered (Woken m) \<and> rm_error m = None
        \<and> fst (handle_mcp ask (bl_bridge l) ''POST'' (Body_Message (plain_message\<lparr>rm_id := Some i, rm_method := ''initialize''\<rparr>)))
          = Rpc_Result (Some i) (case rm_result m of None \<Rightarrow> JObj [] | Some v \<Rightarrow> v))"
proof -
  obtain l2 l3 where h: "handshake h l2 = (Inr (), l3)" "bl_bridge l2 = new_bridge c" "bl_bridge l = bl_bridge l3"
    using assms
    by (auto simp: start_bridge_def Let_def next_do_Inr open_pipes_def spawn_child_def open_log_def serve_def
        new_life_def split: if_splits sum.splits option.splits)
  obtain m where m: "bh_init h = Answered (Woken m)" "rm_error m = None"
    "bl_bridge l3 = (new_bridge c)\<lparr>b_next_id := 2, b_initialized := True,
       b_init_result := (case rm_result m of None \<Rightarrow> JObj [] | Some v \<Rightarrow> v),
       b_written := [request 1 ''initialize'' (Some init_params),
         plain_message\<lparr>rm_method := ''notifications/initialized'', rm_params := Some (JObj [])\<rparr>,
         request 2 ''tools/list'' (Some (JObj []))]\<rparr>"
    by (rule handshake_Inr [OF h(1,2)])
  have "trim_space ''initialize'' = ''initialize''"
    by (rule trim_space_graphic) (simp_all add: graphic_def less_char_def)
  with m show ?thesis
    unfolding h(3) by (simp add: new_bridge_def request_def plain_message_def handle_mcp_def)
qed

definition sample_skill :: bridge_config where
  "sample_skill = \<lparr>bc_name = ''ocr'', bc_repo = [], bc_command = ''ocr-mcp'', bc_args = [], bc_env = [],
     bc_cwd = [], bc_listen = [], bc_allowed = [], bc_timeout = [], bc_secrets = []\<rparr>"

definition sample_host :: bridge_host where
  "sample_host = \<lparr>bh_look = Some, bh_pipes = 3, bh_spawn = True, bh_log = (\<lambda>_. True),
     bh_init = Answered (Woken (plain_message\<lparr>rm_result := Some (JStr ''hi'')\<rparr>)), bh_notified = True,
     bh_tools = Answered (Woken (plain_message\<lparr>rm_result := Some (JObj [])\<rparr>)),
     bh_listen = (\<lambda>_. Some (Tcp_Addr 4000)), bh_term = True, bh_kill = True\<rparr>"

lemma sample_starts: "start_bridge sample_host (\<lambda>_. None) None [] sample_skill
    = (Inr (), snd (start_bridge sample_host (\<lambda>_. None) None [] sample_skill))"
proof -
  have t: "trim_space ''ocr'' = ''ocr''" "trim_space ''ocr-mcp'' = ''ocr-mcp''"
    by (rule trim_space_graphic; simp add: graphic_def less_char_def)+
  have g: "trim_space (bc_name sample_skill) \<noteq> []" "trim_space (bc_command sample_skill) \<noteq> []"
    "bridge_timeout sample_skill = Some (120 * second)" "bh_look sample_host = Some"
    by (simp_all add: sample_skill_def t bridge_timeout_def sample_host_def)
  have e: "spawn_env (\<lambda>_. None) None sample_skill = Inr (child_env (\<lambda>_. None) [])"
    by (simp add: spawn_env_def resolve_child_env_def sample_skill_def)
  have h: "fst (handshake sample_host (spawned sample_skill)) = Inr ()"
    by (simp add: handshake_def bridge_call_def call_begin_def call_end_def write_message_def notify_def list_tools_def
        decode_tools_def sample_host_def spawned_def new_life_def new_bridge_def plain_message_def Let_def)
  then obtain l where l: "handshake sample_host (spawned sample_skill) = (Inr (), l)" by (metis prod.collapse)
  have s: "spawn_child sample_host (\<lambda>_. None) None sample_skill
      ((new_life sample_skill)\<lparr>bl_ends := [In_R, In_W, Out_R, Out_W, Err_R, Err_W]\<rparr>) = (Inr (), spawned sample_skill)"
    by (simp add: spawn_child_def e spawned_def) (simp add: sample_host_def)
  have p: "open_pipes sample_host (new_life sample_skill)
      = (Inr (), (new_life sample_skill)\<lparr>bl_ends := [In_R, In_W, Out_R, Out_W, Err_R, Err_W]\<rparr>)"
    by (simp add: open_pipes_def sample_host_def)
  have "fst (serve sample_host sample_skill l) = Inr ()"
    by (simp add: serve_def sample_host_def tcp_port_def)
  moreover have "start_bridge sample_host (\<lambda>_. None) None [] sample_skill = serve sample_host sample_skill l"
    by (simp add: start_bridge_def g p s l open_log_def Let_def)
  ultimately show ?thesis by (metis prod.collapse)
qed

theorem handshake_before_serving_witness:
  "map rm_method (b_written (bl_bridge (snd (start_bridge sample_host (\<lambda>_. None) None [] sample_skill))))
    = [''initialize'', ''notifications/initialized'', ''tools/list'']"
  using handshake_before_serving [OF sample_starts, of "\<lambda>_ _. Inr None" "''7''"] by blast

section \<open>All skills or none\<close>

lemma start_bridges_from_started:
  assumes "start_bridges_from start mint seeds cs out r = (x, bs, r')"
  shows "b \<in> set (case x of Inl _ \<Rightarrow> bs | Inr all \<Rightarrow> all) \<Longrightarrow> b \<in> set out \<or> start (rb_cfg b) = Some (rb_bridge b)"
  using assms
proof (induction cs arbitrary: out r)
  case (Cons c cs)
  then show ?case by (fastforce simp: Let_def split: prod.splits sum.splits option.splits)
qed auto

text \<open>
  The skills of a cluster start all or none: on success every skill serves and its child is
  alive; on a failure every bridge already started is closed, serves nothing and has released its log.
\<close>

theorem skills_all_or_none:
  "case start_skills h env resolve logdir embedded files mint seeds r of
     (Inl _, ended, _) \<Rightarrow> list_all (\<lambda>l. bl_closed l \<and> \<not> bl_serving l \<and> bl_log l = None) ended
   | (Inr bs, ended, _) \<Rightarrow> ended = [] \<and> list_all (\<lambda>b. bl_serving (rb_bridge b) \<and> alive (bl_bridge (rb_bridge b))) bs"
proof -
  have up: "bl_serving l \<and> \<not> bl_closed l \<and> alive (bl_bridge l)" if l: "started_bridge h env resolve logdir c = Some l" for c l
    using l start_bridge_ends [of "h (bc_name c)" "join_path [logdir, ''bridge-'' @ bc_name c @ ''.log'']" env resolve c]
    by (auto simp: started_bridge_def start_contract_def split: prod.splits sum.splits)
  show ?thesis
  proof (cases "load_configs env embedded files")
    case (Inr cs)
    obtain x bs r' where s: "start_bridges_from (started_bridge h env resolve logdir) mint seeds cs [] r = (x, bs, r')"
      by (metis prod_cases3)
    note all = start_bridges_from_started [OF s]
    show ?thesis
      using up all Inr s
      by (cases x) (fastforce simp: start_skills_def list_all_iff close_bridge_ends)+
  qed (simp add: start_skills_def)
qed

section \<open>The tail of the log\<close>

lemma newlines_join:
  "\<forall>w \<in> set ws. b \<notin> set w \<Longrightarrow> length (filter (\<lambda>c. c = b) (join [b] ws)) = length ws - 1"
proof (induction "[b]" ws rule: join.induct)
  case (2 w)
  then show ?case by (simp add: filter_empty_conv) metis
next
  case (3 w v vs)
  have "filter (\<lambda>c. c = b) w = []" using 3(2) by (simp add: filter_empty_conv) metis
  then show ?case using 3 by simp
qed simp

text \<open>
  What an error shows of the child's log is nothing or a heading and at most its eight last
  lines.
\<close>

theorem tail_is_short:
  "length (filter (\<lambda>c. c = CHR 0x0A) (tail_log name logp read)) \<le> 9"
proof -
  have "length (filter (\<lambda>c. c = CHR 0x0A) (join [CHR 0x0A] (drop n (lines s)))) = length (drop n (lines s)) - 1" for n s
    by (rule newlines_join) (auto dest: in_set_dropD split_at_pieces)
  moreover have "k - Suc (k - 8) \<le> 7" for k :: nat by linarith
  ultimately show ?thesis by (simp add: tail_log_def Let_def split: option.splits)
qed

end
