(* ===== verification/ChildProcess.thy ===== *)
theory ChildProcess
  imports DemoState GithubAuth Tools
begin

text \<open>
  The helpers around processes and peers that the launchers share: starting and stopping a child
  (\<open>internal/demo/cluster.go\<close>), what \<open>lezz status\<close> looks at (\<open>state.go\<close>), how a running
  registry is found (\<open>discovery.go\<close>), and the source of releases with its token
  (\<open>internal/githubauth/release.go\<close>). Sockets, HTTP, mDNS, processes and the release library are
  arguments.
\<close>

section \<open>Starting a child\<close>

datatype spawn_err = No_Tool tool_err | Log_Not_Opened string | Not_Started string

text \<open>What \<open>startBinary\<close> asks for: the arguments, the variables on top of its own, the log.\<close>

record spawn_request =
  sq_binary :: string
  sq_args :: "string list"
  sq_env :: "(string \<times> string) list"
  sq_log :: string

definition child_variables :: "(string \<times> string) list \<Rightarrow> (string \<times> string) list \<Rightarrow> (string \<times> string) list" where
  "child_variables parent extra = parent @ extra"

text \<open>\<open>opened\<close> are the open copies of log files; the parent closes its copy either way.\<close>

definition start_binary ::
    "(string \<Rightarrow> bool) \<Rightarrow> (spawn_request \<Rightarrow> int option) \<Rightarrow> spawn_request \<Rightarrow> string list
     \<Rightarrow> (spawn_err, int) res \<times> string list" where
  "start_binary opens spawn q opened =
     (if \<not> opens (sq_log q) then (Inl (Log_Not_Opened (sq_log q)), opened)
      else
        let held = sq_log q # opened in
        case spawn q of
          None \<Rightarrow> (Inl (Not_Started (base_name (sq_binary q))), remove1 (sq_log q) held)
        | Some pid \<Rightarrow> (Inr pid, remove1 (sq_log q) held))"

definition start_process_env ::
    "string option \<Rightarrow> 'b bin_dir \<Rightarrow> (string \<Rightarrow> string option) \<Rightarrow> (string \<Rightarrow> bool) \<Rightarrow> (spawn_request \<Rightarrow> int option)
     \<Rightarrow> string \<Rightarrow> string list \<Rightarrow> string \<Rightarrow> (string \<times> string) list \<Rightarrow> string list \<Rightarrow> (spawn_err, int) res \<times> string list" where
  "start_process_env home d look_path opens spawn name args logp env opened =
     (case find_tool home d look_path name of
        Inl e \<Rightarrow> (Inl (No_Tool e), opened)
      | Inr b \<Rightarrow> start_binary opens spawn \<lparr>sq_binary = b, sq_args = args, sq_env = env, sq_log = logp\<rparr> opened)"

section \<open>Stopping a child\<close>

datatype proc_signal = Sigterm | Sigkill

definition kill_process :: "int option \<Rightarrow> proc_signal list" where
  "kill_process p = (case p of None \<Rightarrow> [] | Some pid \<Rightarrow> [Sigterm])"

text \<open>\<open>alive k\<close> is what the look number \<open>k\<close> finds; at most \<open>n\<close> looks are taken.\<close>

fun gone_within :: "nat \<Rightarrow> (nat \<Rightarrow> bool) \<Rightarrow> nat \<Rightarrow> bool" where
  "gone_within 0 alive k = False"
| "gone_within (Suc n) alive k = (if alive k then gone_within n alive (Suc k) else True)"

text \<open>Three seconds of grace and 50 ms between looks: at most 60 of them.\<close>

definition child_stop_looks :: nat where
  "child_stop_looks = 3000 div 50"

definition stop_child :: "int option \<Rightarrow> (nat \<Rightarrow> bool) \<Rightarrow> proc_signal list" where
  "stop_child p alive =
     (case p of
        None \<Rightarrow> []
      | Some pid \<Rightarrow> Sigterm # (if gone_within child_stop_looks alive 0 then [] else [Sigkill]))"

lemma gone_within_iff: "gone_within n alive k \<longleftrightarrow> (\<exists>i. k \<le> i \<and> i < k + n \<and> \<not> alive i)"
proof (induction n arbitrary: k)
  case (Suc n)
  have "(\<exists>i. k \<le> i \<and> i < k + Suc n \<and> \<not> alive i) \<longleftrightarrow> \<not> alive k \<or> (\<exists>i. Suc k \<le> i \<and> i < Suc k + n \<and> \<not> alive i)"
    by (metis Suc_leD Suc_le_eq add_Suc add_Suc_right le_add1 le_imp_less_Suc le_neq_implies_less order_refl)
  then show ?case using Suc by auto
qed simp

section \<open>Ports and configuration files\<close>

datatype port_err = Port_Not_Listening | Port_Not_Tcp | Port_Not_Closed

text \<open>\<open>freePort\<close>: the port of a listener that is closed again.\<close>

definition free_port :: "nat option option \<Rightarrow> bool \<Rightarrow> (port_err, nat) res" where
  "free_port listener closes =
     (case listener of
        None \<Rightarrow> Inl Port_Not_Listening
      | Some None \<Rightarrow> Inl Port_Not_Tcp
      | Some (Some p) \<Rightarrow> if closes then Inr p else Inl Port_Not_Closed)"

datatype temp_err = Not_Created string | Not_Rendered string | Not_Closed string

definition write_temp_config ::
    "string \<Rightarrow> string \<Rightarrow> string option \<Rightarrow> bool \<Rightarrow> bool \<Rightarrow> (string, string) table
     \<Rightarrow> (temp_err, string) res \<times> (string, string) table" where
  "write_temp_config dir name rendered creates closes files =
     (let path = dir @ ''/'' @ name @ ''.yaml'' in
      if \<not> creates then (Inl (Not_Created name), files)
      else
        case rendered of
          None \<Rightarrow> (Inl (Not_Rendered name), AList.update path [] files)
        | Some t \<Rightarrow>
            (if closes then Inr path else Inl (Not_Closed name), AList.update path t files))"

section \<open>What a status looks at\<close>

record health =
  he_name :: string
  he_endpoint :: string
  he_ok :: bool
  he_detail :: string

text \<open>A request fails to be built, gets no answer, or is answered with a status and its text.\<close>

datatype answer = Bad_Request string | No_Answer | Status int string

definition alarm_health :: "(string \<Rightarrow> answer) \<Rightarrow> string \<Rightarrow> string \<Rightarrow> health" where
  "alarm_health get name base =
     (case get (trim_suffix base ''/'' @ ''/healthz'') of
        Bad_Request e \<Rightarrow> \<lparr>he_name = name, he_endpoint = base, he_ok = False, he_detail = e\<rparr>
      | No_Answer \<Rightarrow> \<lparr>he_name = name, he_endpoint = base, he_ok = False, he_detail = ''unreachable''\<rparr>
      | Status c t \<Rightarrow> \<lparr>he_name = name, he_endpoint = base, he_ok = (c = 200), he_detail = t\<rparr>)"

definition adhd_health :: "(string \<Rightarrow> string) \<Rightarrow> (string \<Rightarrow> bool) \<Rightarrow> string \<Rightarrow> health" where
  "adhd_health host dials mcp =
     (let ok = host mcp \<noteq> [] \<and> dials (host mcp) in
      \<lparr>he_name = ''adhd MCP'', he_endpoint = mcp, he_ok = ok,
       he_detail = (if host mcp = [] then ''no endpoint'' else if ok then ''listening'' else ''unreachable'')\<rparr>)"

text \<open>A request to the registry that cannot even be built leaves the detail empty.\<close>

definition discovery_health :: "(string \<Rightarrow> answer) \<Rightarrow> string \<Rightarrow> health" where
  "discovery_health get url =
     (if url = [] then \<lparr>he_name = ''discovery'', he_endpoint = url, he_ok = False, he_detail = ''no endpoint''\<rparr>
      else
        case get url of
          Bad_Request e \<Rightarrow> \<lparr>he_name = ''discovery'', he_endpoint = url, he_ok = False, he_detail = []\<rparr>
        | No_Answer \<Rightarrow> \<lparr>he_name = ''discovery'', he_endpoint = url, he_ok = False, he_detail = ''unreachable''\<rparr>
        | Status c t \<Rightarrow> \<lparr>he_name = ''discovery'', he_endpoint = url, he_ok = (c = 200), he_detail = t\<rparr>)"

text \<open>\<open>host\<close> is the host part of an absolute URL, empty when there is none.\<close>

definition probe :: "(string \<Rightarrow> answer) \<Rightarrow> (string \<Rightarrow> string) \<Rightarrow> (string \<Rightarrow> bool) \<Rightarrow> demo_state \<Rightarrow> health list" where
  "probe get host dials s =
     [alarm_health get ''alarm-a'' (ci_alarm_a (ds_cluster s)), alarm_health get ''alarm-b'' (ci_alarm_b (ds_cluster s)),
      adhd_health host dials (ci_adhd_mcp (ds_cluster s)), discovery_health get (ds_discovery s)]"

section \<open>Finding a registry\<close>

record mdns_entry =
  me_addrs :: "string list"
  me_port :: nat

datatype browse_err = No_Resolver | Browse_Failed | No_Address | None_Found | Fetch_Registry string

text \<open>\<open>fetchAllClusters\<close>: the values of the decoded map, in some order.\<close>

definition fetch_all_clusters ::
    "(string \<Rightarrow> (string, cluster_info) table option) \<Rightarrow> string \<Rightarrow> (browse_err, cluster_info list) res" where
  "fetch_all_clusters get url =
     (case get url of None \<Rightarrow> Inl (Fetch_Registry url) | Some m \<Rightarrow> Inr (map snd m))"

text \<open>The resolver, then the browse, then the first entry that comes in time.\<close>

definition browse_demo_cluster ::
    "bool \<Rightarrow> bool \<Rightarrow> mdns_entry option \<Rightarrow> (string \<Rightarrow> (string, cluster_info) table option)
     \<Rightarrow> (browse_err, cluster_info list) res" where
  "browse_demo_cluster resolver browses found get =
     (if \<not> resolver then Inl No_Resolver
      else if \<not> browses then Inl Browse_Failed
      else
        case found of
          None \<Rightarrow> Inl None_Found
        | Some e \<Rightarrow>
            (case me_addrs e of
               [] \<Rightarrow> Inl No_Address
             | host # _ \<Rightarrow> fetch_all_clusters get (''http://'' @ host @ '':'' @ dec (me_port e) @ ''/cluster'')))"

text \<open>The local address of a datagram socket to a public resolver.\<close>

definition outbound_ip :: "string option option \<Rightarrow> string" where
  "outbound_ip conn = (case conn of Some (Some ip) \<Rightarrow> ip | _ \<Rightarrow> ''127.0.0.1'')"

section \<open>The source of releases\<close>

text \<open>
  \<open>newGitHubSource\<close>: the library may read its environment, so \<open>GITHUB_TOKEN\<close> is taken away
  for the call and put back after it. \<open>lib\<close> is the constructor of the library.
\<close>

definition github_token_var :: string where
  "github_token_var = ''GITHUB_TOKEN''"

definition new_github_source ::
    "(string \<Rightarrow> (string \<rightharpoonup> string) \<Rightarrow> 'src option) \<Rightarrow> string \<Rightarrow> (string \<rightharpoonup> string) \<Rightarrow> 'src option \<times> (string \<rightharpoonup> string)" where
  "new_github_source lib token env =
     (case env github_token_var of
        Some old \<Rightarrow>
          (let env1 = env(github_token_var := None) in (lib token env1, env1(github_token_var \<mapsto> old)))
      | None \<Rightarrow> (lib token env, env))"

datatype release_err = Token_Unread gh_err | Source_Failed

definition release_config ::
    "(string \<Rightarrow> (string \<rightharpoonup> string) \<Rightarrow> 'src option) \<Rightarrow> (gh_err, string) res \<Rightarrow> 'src option \<Rightarrow> (string \<rightharpoonup> string)
     \<Rightarrow> (release_err, 'src) res \<times> (string \<rightharpoonup> string)" where
  "release_config lib token given env =
     (case given of
        Some s \<Rightarrow> (Inr s, env)
      | None \<Rightarrow>
          (case token of
             Inl e \<Rightarrow> (Inl (Token_Unread e), env)
           | Inr t \<Rightarrow>
               (case new_github_source lib t env of
                  (None, env') \<Rightarrow> (Inl Source_Failed, env')
                | (Some s, env') \<Rightarrow> (Inr s, env'))))"

section \<open>Properties\<close>

text \<open>
  Stopping a child asks it to end, and kills it exactly when all 60 looks of the grace
  period found it alive; without a child nothing is signalled.
\<close>

theorem stop_child_ends:
  "stop_child p alive = (case p of
      None \<Rightarrow> []
    | Some _ \<Rightarrow> if list_all alive [0..<60] then [Sigterm, Sigkill] else [Sigterm])"
proof -
  have "gone_within child_stop_looks alive 0 \<longleftrightarrow> \<not> list_all alive [0..<60]"
    by (auto simp: gone_within_iff child_stop_looks_def list_all_iff)
  then show ?thesis by (simp add: stop_child_def split: option.splits)
qed

text \<open>
  C39: the source of releases authenticates with the stored token and nothing else: the library
  is called in an environment without \<open>GITHUB_TOKEN\<close>, and the environment is what it was
  afterwards, whether or not the call succeeds.
\<close>

theorem source_never_inherits:
  "snd (release_config lib (download_token kc darwin security readable w) given env) = env
   \<and> (case fst (release_config lib (download_token kc darwin security readable w) given env) of
        Inr s \<Rightarrow> (case given of
            Some s' \<Rightarrow> s' = s
          | None \<Rightarrow> \<exists>t e. download_token kc darwin security readable w = Inr t \<and> lib t e = Some s
              \<and> e github_token_var = None \<and> e = env(github_token_var := None))
      | Inl _ \<Rightarrow> given = None)"
proof -
  have same: "env github_token_var = None \<Longrightarrow> env(github_token_var := None) = env"
    by (metis fun_upd_triv)
  have restored: "env github_token_var = Some old \<Longrightarrow> (env(github_token_var := None))(github_token_var \<mapsto> old) = env" for old
    by (metis fun_upd_triv fun_upd_upd)
  have s: "new_github_source lib tk env = (lib tk (env(github_token_var := None)), env)" for tk
    using same restored by (cases "env github_token_var") (auto simp: new_github_source_def Let_def)
  show ?thesis
    by (auto simp: release_config_def s split: option.splits sum.splits)
qed

text \<open>Starting a child keeps no copy of its log open.\<close>

lemma start_binary_closes: "snd (start_binary opens spawn q opened) = opened"
  by (simp add: start_binary_def Let_def split: option.splits)

end
