(* ===== verification/ProdConfig.thy ===== *)
theory ProdConfig
  imports ProdCluster
begin

text \<open>
  The configuration of one physical alarm of the production cluster
  (\<open>prodAlarmConfigTmpl\<close> in \<open>internal/demo/prod.go\<close>), block by block as the template has
  it. The federation block is there only for the two nodes that are one logical alarm.
\<close>

section \<open>The template\<close>

definition service_lines :: "string list" where
  "service_lines =
     [''version: \"1\"'',
      ''service:'',
      ''  name: \"ocd-smoke-alarm\"'',
      ''  environment: \"lezz-prod\"'',
      ''  mode: \"background\"'',
      ''  log_level: \"warn\"'',
      ''  poll_interval: \"5s\"'',
      ''  timeout: \"3s\"'',
      ''  max_workers: 4'',
      []]"

definition health_lines :: "alarm_config \<Rightarrow> string list" where
  "health_lines c =
     [''health:'',
      ''  enabled: true'',
      ''  listen_addr: \"'' @ ac_listen_addr c @ '':'' @ dec_int (ac_port c) @ ''\"'',
      ''  self_check: true'',
      ''  endpoints:'',
      ''    healthz: \"/healthz\"'',
      ''    readyz: \"/readyz\"'',
      ''    status: \"/status\"'',
      []]"

definition runtime_lines :: "alarm_config \<Rightarrow> string list" where
  "runtime_lines c =
     [''runtime:'',
      ''  lock_file: \"'' @ ac_state_dir c @ ''/lock\"'',
      ''  state_dir: \"'' @ ac_state_dir c @ ''\"'',
      ''  baseline_file: \"'' @ ac_state_dir c @ ''/known-good.json\"'',
      ''  event_history_size: 100'',
      ''  graceful_shutdown_timeout: \"5s\"'',
      []]"

definition discovery_lines :: "string list" where
  "discovery_lines =
     [''discovery:'',
      ''  enabled: true'',
      ''  interval: \"30s\"'',
      ''  include_local_paths:'',
      ''    - \"~/.config/mcp\"'',
      ''    - \"~/.config/acp\"'',
      ''  local_proxy_scan:'',
      ''    enabled: false'',
      ''  cloud_catalog:'',
      ''    enabled: false'',
      ''    urls: []'',
      ''  llms_txt:'',
      ''    enabled: false'',
      []]"

definition tuner_lines :: "string list" where
  "tuner_lines =
     [''tuner:'',
      ''  enabled: true'',
      ''  advertise: true'',
      []]"

definition alerts_lines :: "string list" where
  "alerts_lines =
     [''alerts:'',
      ''  aggressive: false'',
      ''  notify_on_regression_immediately: true'',
      ''  sinks:'',
      ''    log:'',
      ''      enabled: true'',
      []]"

definition target_lines :: "alarm_config \<Rightarrow> string list" where
  "target_lines c =
     [ac_trust_yaml c,
      ''# Targets arrive at runtime, by discovery or remote management. Prod does not'',
      ''# peer the nodes: a dashboard must not learn that alarm_a is'',
      ''# mirrored or that alarm_b is a separate physical node.'',
      ''targets: []'',
      []]"

definition remote_lines :: "alarm_config \<Rightarrow> string list" where
  "remote_lines c =
     [''remote_agent:'',
      ''  managed_updates: true'',
      ''  update:'',
      ''    strategy: \"rolling-single\"'',
      ''    stop_command: \"'' @ ac_binary c @ '' ops stop -pid-file '' @ ac_state_dir c @ ''/ocd-smoke-alarm.pid\"'',
      ''    start_command: \"nohup '' @ ac_binary c @ '' serve -config '' @ ac_config_path c @ '' >> '' @ ac_log_path c @ '' 2>&1 & sleep 1\"'',
      ''    verify_command: \"'' @ ac_binary c @ '' check -config '' @ ac_config_path c @ ''\"'',
      ''    rollback_on_failure: false'',
      ''    max_wait_for_healthy: \"30s\"'',
      ''  safety:'',
      ''    require_lock: false'']"

definition federation_lines :: "alarm_config \<Rightarrow> string list" where
  "federation_lines c =
     [''# The two A nodes are one logical alarm: same cluster_id, same slot range.'',
      ''# A_a claims the introducer slot; A_b follows it and mirrors the state view.'',
      ''federation:'',
      ''  enabled: true'',
      ''  cluster_id: \"'' @ ac_cluster_id c @ ''\"'',
      ''  base_port: '' @ dec_int (ac_federation_base c),
      ''  max_port: '' @ dec_int (ac_federation_max c),
      ''  poll_interval: \"5s\"'',
      ''  announce_interval: \"10s\"'',
      ''  heartbeat_interval: \"15s\"'',
      ''  heartbeat_timeout: \"45s\"'',
      ''  upstream: \"\"'',
      ''  downstream: []'',
      ''  rank: 0'']"

text \<open>The action on a line of its own leaves an empty line before the block.\<close>

definition federation_block :: "alarm_config \<Rightarrow> string list" where
  "federation_block c = (if ac_federate c then [] # federation_lines c else [])"

definition alarm_config_lines :: "alarm_config \<Rightarrow> string list" where
  "alarm_config_lines c =
     service_lines
       @ health_lines c
       @ runtime_lines c
       @ discovery_lines
       @ tuner_lines
       @ alerts_lines
       @ target_lines c
       @ remote_lines c @ federation_block c @ [[]]"

definition render_alarm_config :: "alarm_config \<Rightarrow> string" where
  "render_alarm_config c = join [CHR 0x0A] (alarm_config_lines c)"

section \<open>Properties\<close>

text \<open>
  In the configurations of an accepted plan the first two nodes carry the same federation
  block, with the identity and the two ports of the pair, and the third carries none; every node
  is told to run without targets.
\<close>

theorem a_pair_is_one_alarm:
  "case build_prod_plan o0 host of
     Inl _ \<Rightarrow> True
   | Inr p \<Rightarrow>
       (let cs = map (\<lambda>n. alarm_config_of quote (attest_plan t p) n binary root) (pl_nodes p) in
        list_all (\<lambda>c. ''targets: []'' \<in> set (alarm_config_lines c)) cs
        \<and> (\<exists>b. map federation_block cs = [b, b, []]
            \<and> ''  cluster_id: \"'' @ po_isotope (pl_options p) @ ''-a\"'' \<in> set b
            \<and> ''  base_port: '' @ dec_int (pl_federation_base p) \<in> set b
            \<and> ''  max_port: '' @ dec_int (pl_federation_base p + 1) \<in> set b))"
proof (cases "build_prod_plan o0 host :: (prod_err, 'a prod_plan) res")
  case (Inr p)
  then obtain o' where "normalized o0 = Inr o'" by (auto simp: build_prod_plan_def and_then_Inr)
  with Inr have "pl_nodes p = prod_nodes (po_base_port o')"
    by (cases "registry_host (po_registry_bind o') host") (auto simp: build_prod_plan_def Let_def)
  then show ?thesis
    by (simp add: Inr prod_nodes_def alarm_config_of_def attest_plan_def federation_block_def federation_lines_def
        alarm_config_lines_def target_lines_def Let_def)
qed simp

end
