(* ===== verification/SmallServers.thy ===== *)
theory SmallServers
  imports McpWrapper BridgeLife
begin

text \<open>
  The life of the two small MCP servers (\<open>internal/mcpwrapper/mcpwrapper.go\<close>,
  \<open>internal/anon/anon.go\<close>): where they listen, the URL they give out and their end, with the
  command \<open>lezz mcp\<close>; and the announcement of running skills to the alarms
  (\<open>registerBridges\<close> in \<open>internal/demo/bridges.go\<close>).
\<close>

section \<open>A server on loopback\<close>

record small_server =
  ss_bound :: "net_addr option"
  ss_http :: bool
  ss_closed :: bool

definition idle_server :: small_server where
  "idle_server = \<lparr>ss_bound = None, ss_http = False, ss_closed = False\<rparr>"

definition start_server :: "(string \<Rightarrow> net_addr option) \<Rightarrow> string \<Rightarrow> small_server \<Rightarrow> bool \<times> small_server" where
  "start_server listen addr v =
     (case listen addr of
        None \<Rightarrow> (False, v)
      | Some a \<Rightarrow> (True, v\<lparr>ss_bound := Some a, ss_http := True\<rparr>))"

text \<open>Empty before the start, and for a listener whose port is not known.\<close>

definition server_url :: "small_server \<Rightarrow> string" where
  "server_url v =
     (case ss_bound v of
        None \<Rightarrow> []
      | Some a \<Rightarrow> if tcp_port a = 0 then [] else ''http://127.0.0.1:'' @ dec_int (tcp_port a) @ ''/mcp'')"

definition close_server :: "small_server \<Rightarrow> small_server" where
  "close_server v = (if ss_closed v then v else v\<lparr>ss_closed := True, ss_http := False\<rparr>)"

text \<open>What a running server is told: its parent context ends, or its owner closes it.\<close>

datatype server_event = Parent_Done | Owner_Closes

definition server_step :: "server_event \<Rightarrow> small_server \<Rightarrow> small_server" where
  "server_step e v = close_server v"

section \<open>lezz mcp\<close>

datatype mcp_end = No_Url_Given | Wrapper_Refused wrapper_err | Listener_Refused

definition mcp_command ::
    "(string \<Rightarrow> bool) \<Rightarrow> (string \<Rightarrow> net_addr option) \<Rightarrow> string \<Rightarrow> string \<Rightarrow> string
     \<Rightarrow> (mcp_end, wrapper_config \<times> small_server) res" where
  "mcp_command parses listen url addr name =
     (if url = [] then Inl No_Url_Given
      else
        case new_wrapper parses \<lparr>wc_name = name, wc_listen = addr, wc_cache_url = url, wc_version = []\<rparr> of
          Inl e \<Rightarrow> Inl (Wrapper_Refused e)
        | Inr c \<Rightarrow>
            (case start_server listen (wc_listen c) idle_server of
               (False, _) \<Rightarrow> Inl Listener_Refused
             | (True, v) \<Rightarrow> Inr (c, v)))"

section \<open>Announcing skills\<close>

record skill_registration =
  sr_name :: string
  sr_role :: string
  sr_endpoint :: string
  sr_protocol :: string

definition skill_registration_of :: "bridge_life running_bridge \<Rightarrow> skill_registration" where
  "skill_registration_of b = \<lparr>sr_name = bc_name (rb_cfg b), sr_role = ''skill'',
     sr_endpoint = bl_url (rb_bridge b), sr_protocol = ''mcp''\<rparr>"

text \<open>Every skill is offered to every alarm; a refusal is a warning and the next is offered. The
  result is what was offered, and whether it was taken.\<close>

definition register_bridges ::
    "(string \<Rightarrow> skill_registration \<Rightarrow> bool) \<Rightarrow> string list \<Rightarrow> bridge_life running_bridge list
     \<Rightarrow> (string \<times> skill_registration \<times> bool) list" where
  "register_bridges takes alarms bs =
     concat (map (\<lambda>b. map (\<lambda>a. (a, skill_registration_of b, takes a (skill_registration_of b))) alarms) bs)"

section \<open>Properties\<close>

lemma server_closed: "ss_closed (fold server_step es (close_server v))
    \<and> (\<not> ss_closed v \<longrightarrow> \<not> ss_http (fold server_step es (close_server v)))"
  by (induction es arbitrary: v) (auto simp: server_step_def close_server_def)

text \<open>
  \<open>lezz mcp\<close> serves only with a cache URL that is not blank, on the address it was given or on
  loopback; the URL it prints is the port it listens on; and after the first event that ends it,
  whatever follows, it serves no more.
\<close>

theorem wrapper_needs_its_cache:
  "case mcp_command parses listen url addr name of
     Inl _ \<Rightarrow> True
   | Inr (c, v) \<Rightarrow> trim_space url \<noteq> [] \<and> parses url \<and> wc_cache_url c = trim_slashes url
       \<and> wc_listen c = (if addr = [] then ''127.0.0.1:0'' else addr)
       \<and> (\<exists>a. listen (wc_listen c) = Some a \<and> ss_http v
           \<and> server_url v = (if tcp_port a = 0 then [] else ''http://127.0.0.1:'' @ dec_int (tcp_port a) @ ''/mcp''))
       \<and> \<not> ss_http (fold server_step (e # es) v)"
proof -
  have closes: "\<not> ss_http (fold server_step es (close_server (idle_server\<lparr>ss_bound := Some a, ss_http := True\<rparr>)))" for a
    using server_closed [of es "idle_server\<lparr>ss_bound := Some a, ss_http := True\<rparr>"] by (simp add: idle_server_def)
  show ?thesis
    using closes
    by (auto simp: mcp_command_def new_wrapper_def start_server_def server_url_def server_step_def Let_def
        split: option.splits sum.splits)
qed

end
