(* ===== verification/Spec2Isabelle.thy ===== *)
theory Spec2Isabelle
  imports Reconcile QueueSafety PrCache StdioBridge SeedRotation ProdCluster DemoState GithubAuth ProjectRoutes SeaSession AgentSettings DemoRunSafety SeaInstall Tools AnonSurface McpWrapper Service AppBundle WorkspaceAgent SelfUpdate ToolCommands UserCommands AccountCommands Site QueueService BridgeLife ChildProcess ProdConfig SmallServers
begin

text \<open>
  A model of lezz, the installer and local launcher of a set of monitoring tools. One binary
  (\<open>cmd/lezz/main.go\<close>) installs and updates tools, keeps them running as launchd services, starts
  clusters of two kinds (a demo or base cluster, and a three-node production cluster), and runs
  a few small servers beside them: a job queue, a pull-request cache, bridges to stdio tools, a
  read-only MCP wrapper and an anonymous surface with a leased debug socket. The theories follow
  the packages; every definition is the translation of the lines its comment or the manifest names.

  \<^bold>\<open>Conventions.\<close> A Go function that returns a value and an error is a function into a sum: \<open>Inl\<close>
  the error, \<open>Inr\<close> the value (GoBase: \<open>and_then\<close>, and \<open>next_do\<close> for the ones that change a state).
  Errors are constructors of a datatype per component. A function that changes state returns the
  new state beside its result. What lies outside the repository is an argument: the file system
  where only its answers matter, processes, HTTP, mDNS, cryptography, YAML, the SQLite and updater
  libraries, launchctl, codesign, gh, git and Go. Where a call can fail and the failure matters, a
  script of outcomes is part of the state, and the theorems hold for every script. Strings are
  lists of bytes; times and durations are integers of nanoseconds; ids of calls are taken modulo
  2^64; a Go map that is only looked up is an association list.

  \<^bold>\<open>Shared theories.\<close> GoBase (results, strings, decimal numbers, tables, sorting, saturating
  times), GoText (quoting), GoFlags (\<open>flag\<close>, \<open>strconv\<close>), Paths (\<open>filepath\<close>, \<open>ParseDuration\<close>), NetAddr
  (addresses, URLs), TimeText (RFC 3339), JsonValue and McpMessage (decoded JSON and how fields are
  matched without regard to case), AtomicFile (replacing a file through a temporary one, with the
  locale \<open>atomic_writer\<close> interpreted for each of the six functions that do it).

  \<^bold>\<open>Job queue\<close> (\<open>internal/queue\<close>). Spool has the file driver, the SQLite driver, the mirror of both and
  \<open>Reconcile\<close>; the locale \<open>job_store\<close> states what the queue relies on and is interpreted for all three.
  JobQueue has the configuration, \<open>Enqueue\<close>, \<open>drain\<close>, \<open>Wait\<close>, the upstreams and the HTTP surface over
  any store. QueueSafety proves that no accepted job is lost whatever is interleaved, fails or
  crashes, what one drain achieves, and the bound on the depth; Reconcile, that both drivers agree
  afterwards; QueueService adds the opening of the stores, the worker with the doorbell, the order
  of \<open>Close\<close>, and that the worker empties the spool.

  \<^bold>\<open>Pull-request cache\<close> (\<open>internal/cache\<close>). PrCache has the table, \<open>Get\<close> with its stale fallback, the
  fetcher, the handler, and single flight as a step relation with its invariant. McpWrapper is the
  MCP server over it and is proved to serve exactly what the cache answers; SmallServers has the
  life of that server and the command that runs it.

  \<^bold>\<open>Bridges\<close> (\<open>internal/bridge\<close>). StdioBridge has the configuration, the environment of the child, the
  pending calls with the routing of replies, and the allow-list. BridgeLife has the life of one
  bridge from its pipes to \<open>Close\<close>, and the start of all skills of a cluster; ProjectRoutes the
  ledger of the routes the skills are known by.

  \<^bold>\<open>Clusters\<close> (\<open>internal/demo\<close>). Registry is the directory of clusters and its client; ClusterTrust the
  evidence handed to children; DemoState the state directory, ports and the record; AdhdLaunch the
  dashboard; DemoConfig the generated files; DemoRun the two launchers as sequences of calls on what
  they hold, and DemoRunSafety what they leave behind. ProdCluster is the production cluster with its
  rotation, ProdConfig its alarm file, ChildProcess the helpers around processes and peers.

  \<^bold>\<open>Dashboard\<close> (\<open>internal/sea\<close>). SeaInstall downloads, verifies and swaps the bundle; SeaConfine keeps
  the paths of the app under the lab root; SeaLab is the supervisor with its hub and messages;
  SeaSafety and SeaSession prove confinement, distinct ports, all or nothing starts, one reply per
  request and the end of a session.

  \<^bold>\<open>Accounts, seeds and leases\<close>. Credential (\<open>internal/credential\<close>), GithubAuth (\<open>internal/githubauth\<close>),
  SeedRotation (\<open>internal/seed\<close>), DebugLease (\<open>internal/debuglease\<close>) and AnonSurface (\<open>internal/anon\<close>, a
  state machine of its critical sections with timers of 64-bit generations).

  \<^bold>\<open>Tools\<close>. Tools (\<open>internal/tools\<close>), Service (\<open>internal/service\<close>), AppBundle (\<open>internal/appbundle\<close>),
  WorkspaceAgent (\<open>internal/workspaceagent\<close>), SelfUpdate (\<open>internal/selfupdate\<close>) and AgentSettings
  (\<open>internal/agents\<close>, the splice into a settings file with comments).

  \<^bold>\<open>Commands\<close> (\<open>cmd/lezz/main.go\<close>). CommandLine is everything before a command starts its work: help,
  documentation, flags, checks and dispatch. ToolCommands, UserCommands and AccountCommands are what
  the commands do, composed from the theories above. Site is the generator of the documentation
  (\<open>site\<close>).

  \<^bold>\<open>Bounds and fuel.\<close> Loops that wait are given what each look finds as a list, and the end of the
  list is the deadline, so no bound is added; the numbers that stand in the model are those of the
  code: 60 looks in the grace of a child (3 s of 50 ms), 30 looks at an application that is asked to
  quit, 3 parent directories beside which a checkout is looked for, 10 redirects of a download, 101
  names of a backup. Recursions that are not structural have a measure. The
  supervisor searches the whole of its port range, 9190 to 9289. The one recursion on fuel, the fields
  of a line in GithubAuth, has the length of the text, and each round consumes a byte.

  \<^bold>\<open>Not modelled.\<close> The text of what is printed, apart from the lines that are read back or pasted; the
  encoders of JSON, YAML and property lists where only the decoded value matters (they are written
  out where the text is the point: \<open>Info.plist\<close>, launchd files, the alarm and dashboard files, quoted
  strings); regular expressions are written as predicates; the fraction of a duration is exact where
  Go rounds in floating point; the registration of isotopes at an alarm (one HTTP call each,
  whose failure is only a warning); the revision that is printed for a source checkout; the system
  calls in the platform files; the goroutine scheduler, except where a component is given as steps
  that interleave (the queue with its clients, single flight, the closing of the queue, the calls of
  a bridge, the anonymous surface).
\<close>

end
